(* ===== verification/Prelude.thy ===== *)
theory Prelude
  imports Main "HOL-Library.AList" "HOL-Library.Word"
begin

text \<open>
  Shared vocabulary of the development: the types every component uses (bytes, strings, errors),
  the parts of the JavaScript standard library the source relies on (the insertion-ordered
  \<open>Map\<close> and \<open>Set\<close>, string operations, exceptions), and the generic lemmas about them.

  A JavaScript \<open>Map\<close> iterates in insertion order and \<open>set\<close> on a present key keeps its place; an
  association list with \<^const>\<open>AList.update\<close> behaves in the same way. A \<open>Set\<close> is a list without
  repetitions. Strings are lists of characters, read as their UTF-8 bytes.

  A \<open>throw\<close> is the value \<open>Inl (Error c t)\<close> where \<open>c\<close> is the name of the error class and \<open>t\<close> its
  machine-readable type code. A method that mutates its object returns the new state together
  with its result, because what was assigned before a \<open>throw\<close> stays assigned.
\<close>

section \<open>Types\<close>

type_synonym byte = "8 word"
type_synonym bytes = "byte list"

datatype error = Error (error_class: string) (error_code: string)

type_synonym 'a result = "error + 'a"

named_theorems js_simps
named_theorems inv_intros

abbreviation range_error :: "error + 'a" where
  "range_error \<equiv> Inl (Error ''RangeError'' '''')"

abbreviation type_error :: "error + 'a" where
  "type_error \<equiv> Inl (Error ''TypeError'' '''')"

section \<open>Results\<close>

definition rbind :: "'a result \<Rightarrow> ('a \<Rightarrow> 'b result) \<Rightarrow> 'b result" where
  "rbind r f = (case r of Inl e \<Rightarrow> Inl e | Inr v \<Rightarrow> f v)"

lemma rbind_simps [simp]:
  "rbind (Inl e) f = Inl e"
  "rbind (Inr v) f = f v"
  by (simp_all add: rbind_def)

lemma rbind_Inr_iff: "rbind r f = Inr w \<longleftrightarrow> (\<exists>v. r = Inr v \<and> f v = Inr w)"
  by (cases r) simp_all

lemma rbind_Inl_iff: "rbind r f = Inl e \<longleftrightarrow> r = Inl e \<or> (\<exists>v. r = Inr v \<and> f v = Inl e)"
  by (cases r) auto

lemma rbind_cong [fundef_cong]:
  "r = r' \<Longrightarrow> (\<And>v. r' = Inr v \<Longrightarrow> f v = f' v) \<Longrightarrow> rbind r f = rbind r' f'"
  by (cases r') simp_all

text \<open>An array mapped by a function that may throw: the first error wins.\<close>

fun mapR :: "('a \<Rightarrow> 'b result) \<Rightarrow> 'a list \<Rightarrow> 'b list result" where
  "mapR f [] = Inr []"
| "mapR f (x # xs) = rbind (f x) (\<lambda>y. rbind (mapR f xs) (\<lambda>ys. Inr (y # ys)))"

lemma mapR_cong [fundef_cong]:
  "xs = ys \<Longrightarrow> (\<And>x. x \<in> set ys \<Longrightarrow> f x = g x) \<Longrightarrow> mapR f xs = mapR g ys"
  by (induction ys arbitrary: xs) (auto simp: rbind_def split: sum.splits)

lemma mapR_Inr: "(\<And>x. x \<in> set xs \<Longrightarrow> f x = Inr (g x)) \<Longrightarrow> mapR f xs = Inr (map g xs)"
  by (induction xs) simp_all

lemma mapR_Inr_iff:
  "mapR f xs = Inr ys \<longleftrightarrow> list_all2 (\<lambda>x y. f x = Inr y) xs ys"
  by (induction xs arbitrary: ys) (auto simp: rbind_Inr_iff list_all2_Cons1)

lemma mapR_Inl: "mapR f xs = Inl e \<Longrightarrow> \<exists>x \<in> set xs. f x = Inl e"
  by (induction xs) (auto simp: rbind_Inl_iff)

section \<open>Insertion-ordered maps and sets\<close>

type_synonym ('k, 'v) jsmap = "('k \<times> 'v) list"

abbreviation jm_get :: "('k, 'v) jsmap \<Rightarrow> 'k \<Rightarrow> 'v option" where
  "jm_get m k \<equiv> map_of m k"

abbreviation jm_set :: "'k \<Rightarrow> 'v \<Rightarrow> ('k, 'v) jsmap \<Rightarrow> ('k, 'v) jsmap" where
  "jm_set k v m \<equiv> AList.update k v m"

abbreviation jm_delete :: "'k \<Rightarrow> ('k, 'v) jsmap \<Rightarrow> ('k, 'v) jsmap" where
  "jm_delete k m \<equiv> AList.delete k m"

definition jm_has :: "('k, 'v) jsmap \<Rightarrow> 'k \<Rightarrow> bool" where
  "jm_has m k \<longleftrightarrow> map_of m k \<noteq> None"

definition jm_keys :: "('k, 'v) jsmap \<Rightarrow> 'k list" where
  "jm_keys m = map fst m"

definition js_add :: "'a \<Rightarrow> 'a list \<Rightarrow> 'a list" where
  "js_add x xs = (if x \<in> set xs then xs else xs @ [x])"

lemma jm_has_iff: "jm_has m k \<longleftrightarrow> k \<in> fst ` set m"
  by (simp add: jm_has_def map_of_eq_None_iff)

lemma jm_get_set [simp]: "jm_get (jm_set k v m) k' = (if k' = k then Some v else jm_get m k')"
  by (simp add: update_conv')

lemma jm_get_delete [simp]: "jm_get (jm_delete k m) k' = (if k' = k then None else jm_get m k')"
  by (simp add: delete_conv' restrict_map_def)

lemma jm_set_fresh: "k \<notin> fst ` set m \<Longrightarrow> jm_set k v m = m @ [(k, v)]"
  by (induction m) auto

lemma jm_set_fresh': "\<not> jm_has m k \<Longrightarrow> jm_set k v m = m @ [(k, v)]"
  by (simp add: jm_has_iff jm_set_fresh)

lemma jm_keys_set [simp]: "jm_keys (jm_set k v m) = js_add k (jm_keys m)"
  by (auto simp: jm_keys_def js_add_def update_keys)

lemma fst_set_jm_set [simp]: "fst ` set (jm_set k v m) = insert k (fst ` set m)"
  by (simp add: dom_update)

lemma length_jm_set: "length (jm_set k v m) = (if jm_has m k then length m else Suc (length m))"
  by (induction m) (auto simp: jm_has_iff)

lemma distinct_jm_set [simp]: "distinct (map fst m) \<Longrightarrow> distinct (map fst (jm_set k v m))"
  by (rule distinct_update)

lemma set_jm_set_subset: "set (jm_set k v m) \<subseteq> insert (k, v) (set m)"
  by (induction m) auto

lemma set_js_add [simp]: "set (js_add x xs) = insert x (set xs)"
  by (auto simp: js_add_def)

lemma distinct_js_add [simp]: "distinct (js_add x xs) \<longleftrightarrow> distinct xs"
  by (auto simp: js_add_def)

lemma length_js_add: "length (js_add x xs) = (if x \<in> set xs then length xs else Suc (length xs))"
  by (simp add: js_add_def)

lemma jm_has_set [simp]: "jm_has (jm_set k v m) k' \<longleftrightarrow> k' = k \<or> jm_has m k'"
  by (simp add: jm_has_def)

lemma length_keys_eq_card: "distinct (map fst m) \<Longrightarrow> length m = card (fst ` set m)"
  by (metis distinct_card length_map set_map)

text \<open>Two collections without repetition, one inside the other, of the same size are equal.\<close>

lemma distinct_subset_eq_length:
  assumes "distinct xs" "distinct ys" "set xs \<subseteq> set ys" "length xs = length ys"
  shows "set xs = set ys"
  using assms by (metis card_subset_eq distinct_card finite_set)

lemma distinct_subset_length_le:
  "distinct xs \<Longrightarrow> set xs \<subseteq> set ys \<Longrightarrow> length xs \<le> length ys"
  by (metis card_length card_mono distinct_card finite_set le_trans)

section \<open>Strings\<close>

text \<open>\<open>s.startsWith(p)\<close>, \<open>s.includes(p)\<close>, \<open>s.split(c)\<close> for a one-character separator,
  \<open>s.indexOf(c)\<close>, \<open>s.replace(p, r)\<close> (first occurrence) and \<open>s.replaceAll(p, r)\<close>.\<close>

definition starts_with :: "string \<Rightarrow> string \<Rightarrow> bool" where
  "starts_with p s \<longleftrightarrow> take (length p) s = p"

fun includes_str :: "string \<Rightarrow> string \<Rightarrow> bool" where
  "includes_str p [] = (p = [])"
| "includes_str p (c # s) = (starts_with p (c # s) \<or> includes_str p s)"

fun split_char :: "char \<Rightarrow> string \<Rightarrow> string list" where
  "split_char c [] = [[]]"
| "split_char c (x # s) =
     (if x = c then [] # split_char c s
      else (x # hd (split_char c s)) # tl (split_char c s))"

fun index_of :: "char \<Rightarrow> string \<Rightarrow> nat option" where
  "index_of c [] = None"
| "index_of c (x # s) = (if x = c then Some 0 else map_option Suc (index_of c s))"

fun replace_first :: "string \<Rightarrow> string \<Rightarrow> string \<Rightarrow> string" where
  "replace_first p r [] = (if p = [] then r else [])"
| "replace_first p r (c # s) =
     (if starts_with p (c # s) then r @ drop (length p) (c # s)
      else c # replace_first p r s)"

function replace_all :: "string \<Rightarrow> string \<Rightarrow> string \<Rightarrow> string" where
  "replace_all p r s =
     (if p = [] \<or> s = [] then s
      else if starts_with p s then r @ replace_all p r (drop (length p) s)
      else hd s # replace_all p r (tl s))"
  by pat_completeness auto
termination
  by (relation "measure (\<lambda>(p, r, s). length s)") (auto simp: neq_Nil_conv)

declare replace_all.simps [simp del]

lemma starts_with_append [simp]: "starts_with p (p @ s)"
  by (simp add: starts_with_def)

lemma starts_withE: "starts_with p s \<Longrightarrow> s = p @ drop (length p) s"
  unfolding starts_with_def by (metis append_take_drop_id)

lemma replace_first_prefix: "p \<noteq> [] \<Longrightarrow> replace_first p r (p @ s) = r @ s"
  by (cases p) (simp_all add: starts_with_def)

lemma split_char_nonempty [simp]: "split_char c s \<noteq> []"
  by (cases s) auto

lemma split_char_no_sep: "c \<notin> set s \<Longrightarrow> split_char c s = [s]"
  by (induction s) auto

lemma split_char_append:
  "c \<notin> set s \<Longrightarrow> split_char c (s @ c # t) = s # split_char c t"
  by (induction s) auto

lemma hd_split_char_append:
  "c \<notin> set s \<Longrightarrow> hd (split_char c (s @ c # t)) = s"
  by (simp add: split_char_append)

definition utf8 :: "string \<Rightarrow> bytes" where
  "utf8 s = map of_char s"

text \<open>JavaScript truthiness of an optional string: \<open>undefined\<close> and the empty string are false.\<close>

definition truthy_str :: "string option \<Rightarrow> bool" where
  "truthy_str s \<longleftrightarrow> (case s of None \<Rightarrow> False | Some t \<Rightarrow> t \<noteq> [])"

lemma truthy_str_simps [simp]: "\<not> truthy_str None" "truthy_str (Some t) \<longleftrightarrow> t \<noteq> []"
  by (simp_all add: truthy_str_def)

section \<open>Numbers and dates as strings\<close>

text \<open>Decimal digits of a natural number, as in a template literal or \<open>padStart\<close>.\<close>

fun show_nat :: "nat \<Rightarrow> string" where
  "show_nat n =
     (if n < 10 then [char_of (48 + n)] else show_nat (n div 10) @ [char_of (48 + n mod 10)])"

declare show_nat.simps [simp del]

definition pad_left0 :: "nat \<Rightarrow> string \<Rightarrow> string" where
  "pad_left0 k s = replicate (k - length s) (CHR ''0'') @ s"

definition show_int :: "int \<Rightarrow> string" where
  "show_int i = (if i < 0 then CHR ''-'' # show_nat (nat (- i)) else show_nat (nat i))"

definition digit_value :: "char \<Rightarrow> nat option" where
  "digit_value c =
     (let n = of_char c :: nat in if 48 \<le> n \<and> n \<le> 57 then Some (n - 48) else None)"

definition is_digit :: "char \<Rightarrow> bool" where "is_digit c \<longleftrightarrow> digit_value c \<noteq> None"

definition nat_of_digits :: "string \<Rightarrow> nat" where
  "nat_of_digits s = foldl (\<lambda>acc c. 10 * acc + (case digit_value c of Some d \<Rightarrow> d | None \<Rightarrow> 0)) 0 s"

lemma digit_value_char [simp]: "n < 10 \<Longrightarrow> digit_value (char_of (48 + n)) = Some n"
  by (simp add: digit_value_def take_bit_nat_eq_self)

lemma nat_of_digits_snoc [simp]:
  "nat_of_digits [] = 0"
  "nat_of_digits (s @ [c]) = 10 * nat_of_digits s + (case digit_value c of Some d \<Rightarrow> d | None \<Rightarrow> 0)"
  by (simp_all add: nat_of_digits_def)

lemma nat_of_digits_show_nat [simp]: "nat_of_digits (show_nat n) = n"
proof (induction n rule: show_nat.induct)
  case (1 n)
  show ?case
  proof (cases "n < 10")
    case True
    then show ?thesis
      using nat_of_digits_snoc(2) [of "[]" "char_of (48 + n)"] by (subst show_nat.simps) simp
  next
    case False
    with 1 show ?thesis by (subst show_nat.simps) simp
  qed
qed

lemma show_nat_inj: "show_nat m = show_nat n \<longleftrightarrow> m = n"
  by (metis nat_of_digits_show_nat)

lemma is_digit_char [simp]: "(n::nat) < 10 \<Longrightarrow> is_digit (char_of (48 + n))"
  by (simp add: is_digit_def)

lemma show_nat_digits [simp]: "list_all is_digit (show_nat n)"
proof (induction n rule: show_nat.induct)
  case (1 n)
  then show ?case by (subst show_nat.simps) simp
qed

lemma show_nat_nonempty [simp]: "show_nat n \<noteq> []"
  by (subst show_nat.simps) simp

text \<open>White space around a number, digits in another base, and \<open>BigInt(s)\<close>; \<open>None\<close> when it throws.\<close>

definition is_js_space :: "char \<Rightarrow> bool" where
  "is_js_space c \<longleftrightarrow> (of_char c :: nat) \<in> {9, 10, 11, 12, 13, 32}"

definition js_trim :: "string \<Rightarrow> string" where
  "js_trim s = rev (dropWhile is_js_space (rev (dropWhile is_js_space s)))"

definition radix_digit :: "nat \<Rightarrow> char \<Rightarrow> nat option" where
  "radix_digit b c =
     (let n = of_char c :: nat;
          d = (if 48 \<le> n \<and> n \<le> 57 then n - 48 else if 97 \<le> n \<and> n \<le> 122 then n - 87
               else if 65 \<le> n \<and> n \<le> 90 then n - 55 else 99)
      in if d < b then Some d else None)"

definition radix_nat :: "nat \<Rightarrow> string \<Rightarrow> nat option" where
  "radix_nat b s =
     (if s = [] \<or> \<not> list_all (\<lambda>c. radix_digit b c \<noteq> None) s then None
      else Some (foldl (\<lambda>acc c. b * acc + the (radix_digit b c)) 0 s))"

definition bigint_of_string :: "string \<Rightarrow> int option" where
  "bigint_of_string str =
     (let s = js_trim str;
          ds = (if s \<noteq> [] \<and> (hd s = CHR ''-'' \<or> hd s = CHR ''+'') then tl s else s)
      in if s = [] then Some 0
         else if starts_with ''0x'' s \<or> starts_with ''0X'' s then map_option int (radix_nat 16 (drop 2 s))
         else if starts_with ''0o'' s \<or> starts_with ''0O'' s then map_option int (radix_nat 8 (drop 2 s))
         else if starts_with ''0b'' s \<or> starts_with ''0B'' s then map_option int (radix_nat 2 (drop 2 s))
         else if ds = [] \<or> \<not> list_all is_digit ds then None
         else Some (if hd s = CHR ''-'' then - int (nat_of_digits ds) else int (nat_of_digits ds)))"

text \<open>A decimal literal without sign as mantissa and exponent of ten, and \<open>Number(s) <= n\<close>, which is false when
  \<open>s\<close> is not a number: white space around it is ignored, nothing counts as 0, a prefix chooses the
  base, and a sign is allowed before a decimal or \<open>Infinity\<close>.\<close>

definition decimal_parts :: "string \<Rightarrow> (nat \<times> int) option" where
  "decimal_parts s =
     (let ip = takeWhile is_digit s; r = dropWhile is_digit s;
          point = (r \<noteq> [] \<and> hd r = CHR ''.'');
          fp = (if point then takeWhile is_digit (tl r) else []);
          r2 = (if point then dropWhile is_digit (tl r) else r);
          mantissa = nat_of_digits (ip @ fp)
      in if ip @ fp = [] then None
         else if r2 = [] then Some (mantissa, - int (length fp))
         else if hd r2 = CHR ''e'' \<or> hd r2 = CHR ''E'' then
           (let neg = (tl r2 \<noteq> [] \<and> hd (tl r2) = CHR ''-'');
                ds = (if tl r2 \<noteq> [] \<and> (hd (tl r2) = CHR ''-'' \<or> hd (tl r2) = CHR ''+'') then tl (tl r2) else tl r2);
                e = int (nat_of_digits ds)
            in if ds = [] \<or> \<not> list_all is_digit ds then None
               else Some (mantissa, (if neg then - e else e) - int (length fp)))
         else None)"

definition decimal_le :: "string \<Rightarrow> nat \<Rightarrow> bool" where
  "decimal_le s n =
     (case decimal_parts s of
        None \<Rightarrow> False
      | Some (m, e) \<Rightarrow> if 0 \<le> e then m * 10 ^ nat e \<le> n else m \<le> n * 10 ^ nat (- e))"

definition radix_le :: "nat \<Rightarrow> string \<Rightarrow> nat \<Rightarrow> bool" where
  "radix_le b s n = (case radix_nat b s of None \<Rightarrow> False | Some k \<Rightarrow> k \<le> n)"

definition js_number_le :: "string \<Rightarrow> nat \<Rightarrow> bool" where
  "js_number_le str n =
     (let s = js_trim str
      in if s = [] then True
         else if starts_with ''0x'' s \<or> starts_with ''0X'' s then radix_le 16 (drop 2 s) n
         else if starts_with ''0o'' s \<or> starts_with ''0O'' s then radix_le 8 (drop 2 s) n
         else if starts_with ''0b'' s \<or> starts_with ''0B'' s then radix_le 2 (drop 2 s) n
         else if hd s = CHR ''-'' then tl s = ''Infinity'' \<or> decimal_parts (tl s) \<noteq> None
         else if hd s = CHR ''+'' then decimal_le (tl s) n
         else decimal_le s n)"

lemma dropWhile_all_false: "list_all (\<lambda>c. \<not> P c) s \<Longrightarrow> dropWhile P s = s"
  by (cases s) auto

lemma digits_not_space: "list_all is_digit s \<Longrightarrow> list_all (\<lambda>c. \<not> is_js_space c) s"
  by (auto simp: list_all_iff is_digit_def digit_value_def is_js_space_def Let_def split: if_splits)

lemma js_trim_digits: "list_all is_digit s \<Longrightarrow> js_trim s = s"
  using digits_not_space [of s] digits_not_space [of "rev s"]
  by (simp add: js_trim_def dropWhile_all_false)

lemma digits_no_radix:
  assumes "list_all is_digit s"
  shows "\<not> starts_with ''0x'' s" "\<not> starts_with ''0X'' s" "\<not> starts_with ''0o'' s"
    "\<not> starts_with ''0O'' s" "\<not> starts_with ''0b'' s" "\<not> starts_with ''0B'' s"
    "s \<noteq> [] \<Longrightarrow> hd s \<noteq> CHR ''-''" "s \<noteq> [] \<Longrightarrow> hd s \<noteq> CHR ''+''"
  using assms
  by (cases s; cases "tl s"; auto simp: starts_with_def is_digit_def digit_value_def)+

lemma bigint_of_show_nat [simp]: "bigint_of_string (show_nat n) = Some (int n)"
proof -
  have d: "list_all is_digit (show_nat n)" "show_nat n \<noteq> []" by simp_all
  show ?thesis using digits_no_radix [OF d(1)] d by (simp add: bigint_of_string_def js_trim_digits Let_def)
qed

lemma js_number_le_show_nat [simp]: "js_number_le (show_nat k) n \<longleftrightarrow> k \<le> n"
proof -
  have d: "list_all is_digit (show_nat k)" "show_nat k \<noteq> []" by simp_all
  have eq: "takeWhile is_digit (show_nat k) = show_nat k" "dropWhile is_digit (show_nat k) = []"
    using d(1) by (simp_all add: list_all_iff)
  have "decimal_le (show_nat k) n \<longleftrightarrow> k \<le> n" unfolding decimal_le_def decimal_parts_def eq using d(2) by simp
  then show ?thesis using digits_no_radix [OF d(1)] d by (simp add: js_number_le_def js_trim_digits Let_def)
qed

lemma bigint_of_show_int_nonneg: "0 \<le> v \<Longrightarrow> bigint_of_string (show_int v) = Some v"
  by (simp add: show_int_def)

end
