(* ===== verification/JsValue.thy ===== *)
theory JsValue
  imports Prelude
begin

text \<open>
  JavaScript values as the code handles them: DID documents, signed updates, proofs and messages
  are JSON objects, so they are values of the datatype \<open>jsval\<close>; an object is its list of own
  properties in insertion order. Values are trees: the code never builds a cyclic or shared
  object, so the \<open>seen\<close> maps of \<open>packages/common/src/utils/json.ts\<close> never hit. A number with an
  integral value is \<open>JInt\<close>; any other double is \<open>JFloat\<close> with its IEEE 754 bits.
\<close>

section \<open>Values\<close>

datatype jsval =
    JUndef
  | JNull
  | JBool bool
  | JInt int
  | JFloat "64 word"
  | JStr string
  | JBytes bytes
  | JArr "jsval list"
  | JObj "(string \<times> jsval) list"

text \<open>A double that is not finite has all eleven exponent bits set.\<close>

definition float_finite :: "64 word \<Rightarrow> bool" where
  "float_finite w \<longleftrightarrow> take_bit 11 (drop_bit 52 w) \<noteq> mask 11"

definition float_nan :: "64 word \<Rightarrow> bool" where
  "float_nan w \<longleftrightarrow> \<not> float_finite w \<and> take_bit 52 w \<noteq> 0"

definition truthy :: "jsval \<Rightarrow> bool" where
  "truthy v = (case v of
      JUndef \<Rightarrow> False | JNull \<Rightarrow> False | JBool b \<Rightarrow> b | JInt i \<Rightarrow> i \<noteq> 0
    | JFloat w \<Rightarrow> \<not> float_nan w | JStr s \<Rightarrow> s \<noteq> []
    | _ \<Rightarrow> True)"

definition is_string :: "jsval \<Rightarrow> bool" where
  "is_string v = (case v of JStr _ \<Rightarrow> True | _ \<Rightarrow> False)"

definition is_array :: "jsval \<Rightarrow> bool" where
  "is_array v = (case v of JArr _ \<Rightarrow> True | _ \<Rightarrow> False)"

text \<open>\<open>typeof v === 'object'\<close> also holds for \<open>null\<close>, arrays and byte arrays.\<close>

definition typeof_object :: "jsval \<Rightarrow> bool" where
  "typeof_object v = (case v of JNull \<Rightarrow> True | JArr _ \<Rightarrow> True | JObj _ \<Rightarrow> True | JBytes _ \<Rightarrow> True | _ \<Rightarrow> False)"

definition own :: "(string \<times> jsval) list \<Rightarrow> string \<Rightarrow> jsval" where
  "own kvs k = (case map_of kvs k of Some v \<Rightarrow> v | None \<Rightarrow> JUndef)"

text \<open>\<open>v.k\<close>, which throws on \<open>undefined\<close> and \<open>null\<close>, and \<open>v?.k\<close>, which does not.\<close>

definition js_prop :: "jsval \<Rightarrow> string \<Rightarrow> jsval result" where
  "js_prop v k = (case v of
      JUndef \<Rightarrow> type_error | JNull \<Rightarrow> type_error | JObj kvs \<Rightarrow> Inr (own kvs k) | _ \<Rightarrow> Inr JUndef)"

definition js_prop_opt :: "jsval \<Rightarrow> string \<Rightarrow> jsval" where
  "js_prop_opt v k = (case v of JObj kvs \<Rightarrow> own kvs k | _ \<Rightarrow> JUndef)"

definition js_has_own :: "jsval \<Rightarrow> string \<Rightarrow> bool" where
  "js_has_own v k = (case v of JObj kvs \<Rightarrow> map_of kvs k \<noteq> None | _ \<Rightarrow> False)"

text \<open>\<open>v.k = x\<close> on an object, and \<open>delete v.k\<close>.\<close>

definition js_set_prop :: "string \<Rightarrow> jsval \<Rightarrow> jsval \<Rightarrow> jsval" where
  "js_set_prop k x v = (case v of JObj kvs \<Rightarrow> JObj (jm_set k x kvs) | _ \<Rightarrow> v)"

definition js_delete_prop :: "string \<Rightarrow> jsval \<Rightarrow> jsval" where
  "js_delete_prop k v = (case v of JObj kvs \<Rightarrow> JObj (jm_delete k kvs) | _ \<Rightarrow> v)"

lemma truthy_simps [simp]:
  "\<not> truthy JUndef" "\<not> truthy JNull" "truthy (JBool b) = b" "truthy (JInt i) \<longleftrightarrow> i \<noteq> 0"
  "truthy (JStr s) \<longleftrightarrow> s \<noteq> []" "truthy (JArr xs)" "truthy (JObj kvs)" "truthy (JBytes bs)"
  by (simp_all add: truthy_def)

lemma js_prop_simps [simp]:
  "js_prop (JObj kvs) k = Inr (own kvs k)" "js_prop JUndef k = type_error" "js_prop JNull k = type_error"
  "js_prop_opt (JObj kvs) k = own kvs k" "js_prop_opt JUndef k = JUndef" "js_prop_opt JNull k = JUndef"
  by (simp_all add: js_prop_def js_prop_opt_def)

lemma is_kind_simps [simp]:
  "is_string (JStr s)" "\<not> is_string JUndef" "\<not> is_string JNull" "\<not> is_string (JObj kvs)"
  "\<not> is_string (JArr xs)" "\<not> is_string (JInt i)"
  "is_array (JArr xs)" "\<not> is_array JUndef" "\<not> is_array JNull" "\<not> is_array (JObj kvs)"
  "\<not> is_array (JStr s)"
  by (simp_all add: is_string_def is_array_def)

lemma is_stringE: "is_string v \<Longrightarrow> (\<And>s. v = JStr s \<Longrightarrow> P) \<Longrightarrow> P"
  by (cases v) (simp_all add: is_string_def)

lemma is_arrayE: "is_array v \<Longrightarrow> (\<And>xs. v = JArr xs \<Longrightarrow> P) \<Longrightarrow> P"
  by (cases v) (simp_all add: is_array_def)

lemma own_simps [simp]:
  "own [] k = JUndef" "own ((k', v) # kvs) k = (if k = k' then v else own kvs k)"
  by (simp_all add: own_def)

lemma own_jm_set [simp]: "own (jm_set k v kvs) k' = (if k' = k then v else own kvs k')"
  by (simp add: own_def)

lemma own_jm_delete [simp]: "own (jm_delete k kvs) k' = (if k' = k then JUndef else own kvs k')"
  by (simp add: own_def)

section \<open>\<open>JSONUtils\<close>\<close>

text \<open>A class instance and a plain object are not told apart; a byte array is not an object here.\<close>

definition isObject :: "jsval \<Rightarrow> bool" where
  "isObject v = (case v of JObj _ \<Rightarrow> True | _ \<Rightarrow> False)"

primrec deleteKeys :: "string list \<Rightarrow> jsval \<Rightarrow> jsval" where
  "deleteKeys ks JUndef = JUndef"
| "deleteKeys ks JNull = JNull"
| "deleteKeys ks (JBool b) = JBool b"
| "deleteKeys ks (JInt i) = JInt i"
| "deleteKeys ks (JFloat w) = JFloat w"
| "deleteKeys ks (JStr s) = JStr s"
| "deleteKeys ks (JBytes bs) =
     JObj (filter (\<lambda>(k, _). k \<notin> set ks) (map (\<lambda>i. (show_nat i, JInt (uint (bs ! i)))) [0..<length bs]))"
| "deleteKeys ks (JArr xs) = JArr (map (deleteKeys ks) xs)"
| "deleteKeys ks (JObj kvs) =
     JObj (filter (\<lambda>(k, _). k \<notin> set ks) (map (map_prod id (deleteKeys ks)) kvs))"

primrec sanitizeValue :: "jsval \<Rightarrow> jsval" where
  "sanitizeValue JUndef = JUndef"
| "sanitizeValue JNull = JNull"
| "sanitizeValue (JBool b) = JBool b"
| "sanitizeValue (JInt i) = JInt i"
| "sanitizeValue (JFloat w) = JFloat w"
| "sanitizeValue (JStr s) = JStr s"
| "sanitizeValue (JBytes bs) = JObj (map (\<lambda>i. (show_nat i, JInt (uint (bs ! i)))) [0..<length bs])"
| "sanitizeValue (JArr xs) =
     JArr (map snd (filter (\<lambda>(x, _). x \<noteq> JUndef) (map (\<lambda>x. (x, sanitizeValue x)) xs)))"
| "sanitizeValue (JObj kvs) =
     JObj (filter (\<lambda>(_, v). v \<noteq> JUndef) (map (map_prod id sanitizeValue) kvs))"

text \<open>The recursion of \<open>cloneInternal\<close> with its depth counter; \<open>f\<close> is the optional transform.\<close>

definition clone_leaf :: "(jsval \<Rightarrow> jsval) \<Rightarrow> jsval \<Rightarrow> nat \<Rightarrow> jsval result" where
  "clone_leaf f v depth =
     (if depth > 1024 then Inl (Error ''MethodError'' ''MAX_DEPTH_EXCEEDED'') else Inr (f v))"

primrec cloneInternal :: "(jsval \<Rightarrow> jsval) \<Rightarrow> jsval \<Rightarrow> nat \<Rightarrow> jsval result" where
  "cloneInternal f JUndef = clone_leaf f JUndef"
| "cloneInternal f JNull = clone_leaf f JNull"
| "cloneInternal f (JBool b) = clone_leaf f (JBool b)"
| "cloneInternal f (JInt i) = clone_leaf f (JInt i)"
| "cloneInternal f (JFloat w) = clone_leaf f (JFloat w)"
| "cloneInternal f (JStr s) = clone_leaf f (JStr s)"
| "cloneInternal f (JBytes bs) = clone_leaf f (JBytes bs)"
| "cloneInternal f (JArr xs) = (\<lambda>depth.
     if depth > 1024 then Inl (Error ''MethodError'' ''MAX_DEPTH_EXCEEDED'')
     else if f (JArr xs) \<noteq> JArr xs then Inr (f (JArr xs))
     else rbind (mapR (\<lambda>g. g (Suc depth)) (map (cloneInternal f) xs)) (\<lambda>ys. Inr (JArr ys)))"
| "cloneInternal f (JObj kvs) = (\<lambda>depth.
     if depth > 1024 then Inl (Error ''MethodError'' ''MAX_DEPTH_EXCEEDED'')
     else if f (JObj kvs) \<noteq> JObj kvs then Inr (f (JObj kvs))
     else rbind (mapR (\<lambda>(k, g). rbind (g (Suc depth)) (\<lambda>v. Inr (k, v)))
                   (map (map_prod id (cloneInternal f)) kvs)) (\<lambda>kvs'. Inr (JObj kvs')))"

definition cloneValue :: "jsval \<Rightarrow> jsval result" where
  "cloneValue v = cloneInternal id v 0"

text \<open>\<open>JSON.parse(JSON.stringify(v))\<close> for a value that is not \<open>undefined\<close>: undefined properties are
  dropped, undefined array elements and non-finite numbers become \<open>null\<close>.\<close>

definition json_elem :: "jsval \<Rightarrow> jsval" where
  "json_elem v = (if v = JUndef then JNull else v)"

primrec jsonRoundTrip :: "jsval \<Rightarrow> jsval" where
  "jsonRoundTrip JUndef = JUndef"
| "jsonRoundTrip JNull = JNull"
| "jsonRoundTrip (JBool b) = JBool b"
| "jsonRoundTrip (JInt i) = JInt i"
| "jsonRoundTrip (JFloat w) = (if float_finite w then JFloat w else JNull)"
| "jsonRoundTrip (JStr s) = JStr s"
| "jsonRoundTrip (JBytes bs) = JObj (map (\<lambda>i. (show_nat i, JInt (uint (bs ! i)))) [0..<length bs])"
| "jsonRoundTrip (JArr xs) = JArr (map json_elem (map jsonRoundTrip xs))"
| "jsonRoundTrip (JObj kvs) =
     JObj (filter (\<lambda>(_, v). v \<noteq> JUndef) (map (map_prod id jsonRoundTrip) kvs))"

text \<open>Replacing a substring in every string of a document, property names included: what
  \<open>JSON.parse(JSON.stringify(v).replaceAll(p, r))\<close> computes when \<open>p\<close> and \<open>r\<close> contain no
  character that JSON escapes and \<open>p\<close> does not match across JSON punctuation.\<close>

primrec replaceStrings :: "string \<Rightarrow> string \<Rightarrow> jsval \<Rightarrow> jsval" where
  "replaceStrings p r JUndef = JUndef"
| "replaceStrings p r JNull = JNull"
| "replaceStrings p r (JBool b) = JBool b"
| "replaceStrings p r (JInt i) = JInt i"
| "replaceStrings p r (JFloat w) = JFloat w"
| "replaceStrings p r (JStr s) = JStr (replace_all p r s)"
| "replaceStrings p r (JBytes bs) = JBytes bs"
| "replaceStrings p r (JArr xs) = JArr (map (replaceStrings p r) xs)"
| "replaceStrings p r (JObj kvs) =
     JObj (AList.updates (map (\<lambda>(k, _). replace_all p r k) kvs)
             (map snd (map (map_prod id (replaceStrings p r)) kvs)) [])"

section \<open>JSON values\<close>

text \<open>The values \<open>JSON.parse\<close> returns: nothing undefined, no bytes, finite numbers.\<close>

primrec is_json :: "jsval \<Rightarrow> bool" where
  "is_json JUndef = False"
| "is_json JNull = True"
| "is_json (JBool b) = True"
| "is_json (JInt i) = True"
| "is_json (JFloat w) = float_finite w"
| "is_json (JStr s) = True"
| "is_json (JBytes bs) = False"
| "is_json (JArr xs) = list_all id (map is_json xs)"
| "is_json (JObj kvs) = list_all snd (map (map_prod id is_json) kvs)"

lemma is_json_JArr [simp]: "is_json (JArr xs) \<longleftrightarrow> (\<forall>x \<in> set xs. is_json x)"
  by (simp add: list_all_iff)

lemma is_json_JObj [simp]: "is_json (JObj kvs) \<longleftrightarrow> (\<forall>(k, v) \<in> set kvs. is_json v)"
  by (auto simp: list_all_iff)

declare is_json.simps(8,9) [simp del]

lemma is_json_own: "is_json (JObj kvs) \<Longrightarrow> own kvs k = JUndef \<or> is_json (own kvs k)"
  by (auto simp: own_def split: option.split dest!: map_of_SomeD)

lemma jsonRoundTrip_json: "v \<noteq> JUndef \<Longrightarrow> is_json (jsonRoundTrip v)"
proof (induction v)
  case (JArr xs)
  then show ?case by (auto simp: json_elem_def) (metis jsonRoundTrip.simps(1))
next
  case (JObj kvs)
  have "is_json w" if "(k, w) \<in> set (filter (\<lambda>(_, v). v \<noteq> JUndef) (map (map_prod id jsonRoundTrip) kvs))"
    for k w
  proof -
    from that obtain v where v: "(k, v) \<in> set kvs" "w = jsonRoundTrip v" "w \<noteq> JUndef"
      by (auto simp: map_prod_def)
    then have "v \<noteq> JUndef" by auto
    with JObj.IH v show ?thesis by (metis snds.intros prod_set_simps(2) singletonI)
  qed
  then show ?case by auto
qed auto

lemma jsonRoundTrip_idem: "is_json v \<Longrightarrow> jsonRoundTrip v = v"
proof (induction v)
  case (JArr xs)
  have "json_elem (jsonRoundTrip x) = x" if "x \<in> set xs" for x
    using JArr that by (auto simp: json_elem_def)
  then show ?case by (simp add: map_idI)
next
  case (JObj kvs)
  have eq: "map_prod id jsonRoundTrip (k, v) = (k, v) \<and> v \<noteq> JUndef" if "(k, v) \<in> set kvs" for k v
    using JObj that by fastforce
  then have "map (map_prod id jsonRoundTrip) kvs = kvs" by (intro map_idI) auto
  moreover have "filter (\<lambda>(_, v). v \<noteq> JUndef) kvs = kvs"
    using eq by (auto simp: filter_id_conv)
  ultimately show ?case by simp
qed auto

lemma jsonRoundTrip_twice: "jsonRoundTrip (jsonRoundTrip v) = jsonRoundTrip v"
  by (cases "v = JUndef") (simp_all add: jsonRoundTrip_idem jsonRoundTrip_json)

lemma map_of_filter_key:
  "map_of (filter (\<lambda>(k, _). k \<notin> S) kvs) k = (if k \<in> S then None else map_of kvs k)"
  by (induction kvs) auto

lemma own_deleteKeys:
  "deleteKeys ks (JObj kvs) = JObj kvs' \<Longrightarrow>
     own kvs' k = (if k \<in> set ks then JUndef else
       case map_of kvs k of None \<Rightarrow> JUndef | Some v \<Rightarrow> deleteKeys ks v)"
  by (auto simp: own_def map_of_filter_key map_prod_def map_of_map)
     (simp_all add: map_of_map split: option.split)

end
