(* ===== verification/SmtHash.thy ===== *)
theory SmtHash
  imports Prelude
begin

unbundle bit_operations_syntax

text \<open>
  The 256-bit hash conversions of \<open>packages/smt/src/hash.ts\<close>: bytes, hexadecimal, base64 and
  \<open>bigint\<close> forms of a SHA-256 value. A \<open>bigint\<close> is an \<^typ>\<open>int\<close>, a \<open>Uint8Array\<close> a list of
  8-bit words; every function that throws returns a result. SHA-256 and the base64 codecs come from
  \<open>@noble/hashes\<close> and \<open>@scure/base\<close>, so they are the fields of \<open>hash_lib\<close>; what the code
  relies on is stated by the predicates \<open>sha256_ok\<close>, \<open>base64_ok\<close> and \<open>base64url_ok\<close>.
\<close>

section \<open>The libraries the package calls\<close>

record hash_lib =
  sha256 :: "bytes \<Rightarrow> bytes"
  base64_encode :: "bytes \<Rightarrow> string"
  base64_decode :: "string \<Rightarrow> bytes option"
  base64url_encode :: "bytes \<Rightarrow> string"
  base64url_decode :: "string \<Rightarrow> bytes option"

definition sha256_ok :: "'x hash_lib_scheme \<Rightarrow> bool" where
  "sha256_ok L \<longleftrightarrow> (\<forall>bs. length (sha256 L bs) = 32)"

definition base64_ok :: "'x hash_lib_scheme \<Rightarrow> bool" where
  "base64_ok L \<longleftrightarrow> (\<forall>bs. base64_decode L (base64_encode L bs) = Some bs)"

definition base64url_ok :: "'x hash_lib_scheme \<Rightarrow> bool" where
  "base64url_ok L \<longleftrightarrow>
     (\<forall>bs. base64url_decode L (base64url_encode L bs) = Some bs \<and>
           (bs \<noteq> [] \<longrightarrow> base64url_encode L bs \<noteq> []))"

lemma length_sha256 [simp]: "sha256_ok L \<Longrightarrow> length (sha256 L bs) = 32"
  by (simp add: sha256_ok_def)

lemma base64_decode_encode [simp]: "base64_ok L \<Longrightarrow> base64_decode L (base64_encode L bs) = Some bs"
  by (simp add: base64_ok_def)

lemma base64url_decode_encode [simp]:
  "base64url_ok L \<Longrightarrow> base64url_decode L (base64url_encode L bs) = Some bs"
  by (simp add: base64url_ok_def)

lemma base64url_encode_nonempty [simp]:
  "base64url_ok L \<Longrightarrow> bs \<noteq> [] \<Longrightarrow> base64url_encode L bs \<noteq> []"
  by (simp add: base64url_ok_def)

section \<open>Constants and validation\<close>

definition HASH_BYTE_LENGTH :: nat where "HASH_BYTE_LENGTH = 32"
definition HASH_BIT_LENGTH :: nat where "HASH_BIT_LENGTH = 256"
definition HASH_HEX_LENGTH :: nat where "HASH_HEX_LENGTH = 64"

definition isValidHash :: "bytes \<Rightarrow> bool" where
  "isValidHash hash \<longleftrightarrow> length hash = HASH_BYTE_LENGTH"

definition validateHash :: "bytes \<Rightarrow> unit result" where
  "validateHash hash = (if \<not> isValidHash hash then range_error else Inr ())"

definition blockHash :: "'x hash_lib_scheme \<Rightarrow> bytes list \<Rightarrow> bytes" where
  "blockHash L blocks = sha256 L (concat blocks)"

definition hashesEqual :: "bytes \<Rightarrow> bytes \<Rightarrow> bool" where
  "hashesEqual a b = (if \<not> isValidHash a \<or> \<not> isValidHash b then False else a = b)"

lemma length_blockHash [simp]: "sha256_ok L \<Longrightarrow> length (blockHash L bs) = 32"
  by (simp add: blockHash_def)

lemma isValidHash_blockHash [simp]: "sha256_ok L \<Longrightarrow> isValidHash (blockHash L bs)"
  by (simp add: isValidHash_def HASH_BYTE_LENGTH_def)

lemma validateHash_Inr [simp]: "validateHash h = Inr u \<longleftrightarrow> isValidHash h"
  by (simp add: validateHash_def)

lemma validateHash_valid: "isValidHash h \<Longrightarrow> validateHash h = Inr ()"
  by simp

section \<open>Bytes and big integers\<close>

definition bytes_to_bigint :: "bytes \<Rightarrow> int" where
  "bytes_to_bigint bs = foldl (\<lambda>value b. push_bit 8 value OR uint b) 0 bs"

definition hashToBigInt :: "bytes \<Rightarrow> int result" where
  "hashToBigInt hash = rbind (validateHash hash) (\<lambda>_. Inr (bytes_to_bigint hash))"

text \<open>The loop of \<open>bigIntToHash\<close> fills the array from its end; \<open>n\<close> bytes are still to be written.\<close>

fun bigIntToHash_loop :: "nat \<Rightarrow> int \<Rightarrow> bytes \<Rightarrow> int \<times> bytes" where
  "bigIntToHash_loop 0 v hash = (v, hash)"
| "bigIntToHash_loop (Suc n) v hash =
     bigIntToHash_loop n (drop_bit 8 v) (word_of_int (v AND 0xFF) # hash)"

definition bigIntToHash :: "int \<Rightarrow> bytes result" where
  "bigIntToHash value =
     (let (v, hash) = bigIntToHash_loop HASH_BYTE_LENGTH value []
      in if v \<noteq> 0 then range_error else Inr hash)"

lemma foldl_bigint:
  "0 \<le> v \<Longrightarrow> foldl (\<lambda>value (b::byte). push_bit 8 value OR uint b) v bs =
     foldl (\<lambda>value b. 256 * value + uint b) v bs"
proof (induction bs arbitrary: v)
  case (Cons b bs)
  have "push_bit 8 v OR uint b = push_bit 8 v + uint b"
    by (rule disjunctive_add [symmetric])
       (use uint_lt2p [of b] in \<open>auto simp: bit_push_bit_iff not_less bit_uint_iff\<close>)
  then have "push_bit 8 v OR uint b = 256 * v + uint b"
    by (simp add: push_bit_eq_mult)
  with Cons show ?case by simp
qed simp

lemma bytes_to_bigint_horner:
  "bytes_to_bigint bs = foldl (\<lambda>value b. 256 * value + uint b) 0 bs"
  by (simp add: bytes_to_bigint_def foldl_bigint)

lemma foldl_horner_shift:
  "foldl (\<lambda>value (b::byte). 256 * value + uint b) v bs =
     v * 256 ^ length bs + foldl (\<lambda>value b. 256 * value + uint b) 0 bs"
proof (induction bs arbitrary: v)
  case (Cons b bs)
  from Cons [of "256 * v + uint b"] Cons [of "uint b"] show ?case
    by (simp add: distrib_right)
qed simp

lemma bytes_to_bigint_simps [simp]:
  "bytes_to_bigint [] = 0"
  "bytes_to_bigint (b # bs) = uint b * 256 ^ length bs + bytes_to_bigint bs"
  by (simp_all add: bytes_to_bigint_horner foldl_horner_shift [of "uint b"])

lemma bytes_to_bigint_nonneg: "0 \<le> bytes_to_bigint bs"
  by (induction bs) simp_all

lemma bytes_to_bigint_bound: "bytes_to_bigint bs < 256 ^ length bs"
proof (induction bs)
  case (Cons b bs)
  have "uint b \<le> 255" using uint_lt2p [of b] by simp
  then have "uint b * 256 ^ length bs \<le> 255 * 256 ^ length bs"
    by (rule mult_right_mono) simp
  moreover have "256 ^ length (b # bs) = 256 * (256 ^ length bs :: int)" by simp
  ultimately show ?case using Cons unfolding bytes_to_bigint_simps by linarith
qed simp

lemma uint_low_byte [simp]: "uint (word_of_int (v AND 255) :: byte) = v mod 256"
proof -
  have "v AND 255 = v mod 2 ^ 8"
    using take_bit_eq_mask [of 8 v] by (simp add: take_bit_eq_mod mask_eq_exp_minus_1)
  then show ?thesis by (simp add: uint_word_of_int)
qed

lemma bigIntToHash_loop_correct:
  "bigIntToHash_loop n v hash = (w, hash') \<Longrightarrow>
     w = v div 256 ^ n \<and>
     (\<exists>hi. hash' = hi @ hash \<and> length hi = n \<and> bytes_to_bigint hi = v mod 256 ^ n)"
proof (induction n arbitrary: v hash)
  case (Suc n)
  let ?b = "word_of_int (v AND 255) :: byte"
  from Suc.prems have "bigIntToHash_loop n (drop_bit 8 v) (?b # hash) = (w, hash')" by simp
  from Suc.IH [OF this] obtain hi where
    w: "w = drop_bit 8 v div 256 ^ n" and
    hi: "hash' = hi @ ?b # hash" "length hi = n" "bytes_to_bigint hi = drop_bit 8 v mod 256 ^ n"
    by blast
  have snoc: "bytes_to_bigint (hi @ [?b]) = 256 * bytes_to_bigint hi + v mod 256"
    by (simp add: bytes_to_bigint_horner)
  have "v mod 256 ^ Suc n = 256 * (v div 256 mod 256 ^ n) + v mod 256"
    by (simp add: zmod_zmult2_eq)
  moreover have "drop_bit 8 v = v div 256" by (simp add: drop_bit_eq_div)
  ultimately have "bytes_to_bigint (hi @ [?b]) = v mod 256 ^ Suc n"
    using snoc hi(3) by simp
  moreover have "w = v div 256 ^ Suc n"
    using w \<open>drop_bit 8 v = v div 256\<close> by (simp add: zdiv_zmult2_eq)
  ultimately show ?case
    using hi by (intro conjI exI [of _ "hi @ [?b]"]) simp_all
qed simp

lemma bytes_to_bigint_inj:
  "length bs = length cs \<Longrightarrow> bytes_to_bigint bs = bytes_to_bigint cs \<Longrightarrow> bs = cs"
proof (induction bs cs rule: list_induct2)
  case (Cons b bs c cs)
  let ?m = "256 ^ length bs :: int"
  have eq: "uint b * ?m + bytes_to_bigint bs = uint c * ?m + bytes_to_bigint cs"
    using Cons by simp
  have small: "bytes_to_bigint bs div ?m = 0" "bytes_to_bigint cs div ?m = 0"
    using bytes_to_bigint_bound [of bs] bytes_to_bigint_bound [of cs] Cons(1)
    by (simp_all add: bytes_to_bigint_nonneg)
  have "uint b = (uint b * ?m + bytes_to_bigint bs) div ?m"
    using small(1) by simp
  also have "\<dots> = (uint c * ?m + bytes_to_bigint cs) div ?m" by (simp only: eq)
  also have "\<dots> = uint c" using small(2) by simp
  finally have "uint b = uint c" .
  then have "b = c" by (simp add: word_uint_eq_iff)
  moreover have "bytes_to_bigint bs = bytes_to_bigint cs"
    using eq \<open>uint b = uint c\<close> by simp
  then have "bs = cs" by (rule Cons.IH)
  ultimately show ?case by simp
qed simp

lemma bigIntToHash_Inr:
  "0 \<le> v \<Longrightarrow> v < 2 ^ 256 \<Longrightarrow>
     \<exists>h. bigIntToHash v = Inr h \<and> isValidHash h \<and> bytes_to_bigint h = v"
  using bigIntToHash_loop_correct [of HASH_BYTE_LENGTH v "[]"]
  by (cases "bigIntToHash_loop HASH_BYTE_LENGTH v []")
     (auto simp: bigIntToHash_def HASH_BYTE_LENGTH_def isValidHash_def)

lemma bigIntToHash_Inr_iff:
  "bigIntToHash v = Inr h \<longleftrightarrow> isValidHash h \<and> bytes_to_bigint h = v"
proof
  assume h: "bigIntToHash v = Inr h"
  obtain w hash where loop: "bigIntToHash_loop HASH_BYTE_LENGTH v [] = (w, hash)"
    by fastforce
  with h have "w = 0" "hash = h" by (auto simp: bigIntToHash_def split: if_splits)
  with bigIntToHash_loop_correct [OF loop] have len: "length h = 32"
    and val: "bytes_to_bigint h = v mod 256 ^ 32" and div: "v div 256 ^ 32 = 0"
    by (auto simp: HASH_BYTE_LENGTH_def)
  from div have "v mod 256 ^ 32 = v"
    using div_mult_mod_eq [of v "256 ^ 32"] by simp
  with len val show "isValidHash h \<and> bytes_to_bigint h = v"
    by (simp add: isValidHash_def HASH_BYTE_LENGTH_def)
next
  assume h: "isValidHash h \<and> bytes_to_bigint h = v"
  then have "0 \<le> v" "v < 2 ^ 256"
    using bytes_to_bigint_nonneg [of h] bytes_to_bigint_bound [of h]
    by (auto simp: isValidHash_def HASH_BYTE_LENGTH_def)
  from bigIntToHash_Inr [OF this] obtain h' where
    h': "bigIntToHash v = Inr h'" "isValidHash h'" "bytes_to_bigint h' = v" by blast
  with h have "h' = h"
    by (intro bytes_to_bigint_inj) (simp_all add: isValidHash_def)
  with h' show "bigIntToHash v = Inr h" by simp
qed

section \<open>Hexadecimal\<close>

definition hex_digits :: string where "hex_digits = ''0123456789abcdef''"

definition hex_digit :: "nat \<Rightarrow> char" where "hex_digit n = hex_digits ! n"

text \<open>\<open>n.toString(16)\<close> and \<open>s.padStart(k, '0')\<close>.\<close>

fun nat_to_hex :: "nat \<Rightarrow> string" where
  "nat_to_hex n = (if n < 16 then [hex_digit n] else nat_to_hex (n div 16) @ [hex_digit (n mod 16)])"

declare nat_to_hex.simps [simp del]

definition int_to_hex :: "int \<Rightarrow> string" where
  "int_to_hex v = (if v < 0 then CHR ''-'' # nat_to_hex (nat (- v)) else nat_to_hex (nat v))"

definition pad_start0 :: "nat \<Rightarrow> string \<Rightarrow> string" where
  "pad_start0 k s = replicate (k - length s) (CHR ''0'') @ s"

definition hex_value :: "char \<Rightarrow> nat option" where
  "hex_value c =
     (let n = of_char c :: nat in
      if 48 \<le> n \<and> n \<le> 57 then Some (n - 48)
      else if 97 \<le> n \<and> n \<le> 102 then Some (n - 87)
      else if 65 \<le> n \<and> n \<le> 70 then Some (n - 55)
      else None)"

definition is_hex :: "char \<Rightarrow> bool" where "is_hex c \<longleftrightarrow> hex_value c \<noteq> None"

definition validateHex :: "string \<Rightarrow> bool \<Rightarrow> unit result" where
  "validateHex s requireHashLength =
     (let len = length s; minLen = (if requireHashLength then HASH_HEX_LENGTH else 1)
      in if len < minLen \<or> len > HASH_HEX_LENGTH \<or> \<not> list_all is_hex s then range_error
         else Inr ())"

text \<open>\<open>BigInt('0x' + s)\<close> and \<open>Number.parseInt(s, 16)\<close> on a string of hexadecimal digits.\<close>

definition hex_to_nat :: "string \<Rightarrow> nat" where
  "hex_to_nat s = foldl (\<lambda>acc c. 16 * acc + (case hex_value c of Some d \<Rightarrow> d | None \<Rightarrow> 0)) 0 s"

definition hex_byte :: "byte \<Rightarrow> string" where
  "hex_byte b = pad_start0 2 (nat_to_hex (unat b))"

definition hashToHex :: "bytes \<Rightarrow> string result" where
  "hashToHex hash = rbind (validateHash hash) (\<lambda>_.
     Inr (foldl (\<lambda>s byte. s @ hex_byte byte) [] hash))"

definition hexToHash :: "string \<Rightarrow> bytes result" where
  "hexToHash hex = rbind (validateHex hex True) (\<lambda>_.
     Inr (map (\<lambda>i. of_nat (hex_to_nat (take 2 (drop (i * 2) hex)))) [0..<HASH_BYTE_LENGTH]))"

definition bigIntToHex :: "int \<Rightarrow> bool \<Rightarrow> string" where
  "bigIntToHex v padded =
     (let s = int_to_hex v in if padded then pad_start0 HASH_HEX_LENGTH s else s)"

definition hexToBigInt :: "string \<Rightarrow> bool \<Rightarrow> int result" where
  "hexToBigInt hex padded = rbind (validateHex hex padded) (\<lambda>_. Inr (int (hex_to_nat hex)))"

lemma hex_value_digit [simp]: "n < 16 \<Longrightarrow> hex_value (hex_digit n) = Some n"
proof -
  assume "n < 16"
  then have "n \<in> set [0..<16]" by simp
  moreover have "\<forall>n \<in> set [0..<16]. hex_value (hex_digit n) = Some n"
    by code_simp
  ultimately show ?thesis by blast
qed

lemma is_hex_digit [simp]: "n < 16 \<Longrightarrow> is_hex (hex_digit n)"
  by (simp add: is_hex_def)

lemma hex_to_nat_snoc [simp]:
  "hex_to_nat [] = 0"
  "hex_to_nat (s @ [c]) = 16 * hex_to_nat s + (case hex_value c of Some d \<Rightarrow> d | None \<Rightarrow> 0)"
  by (simp_all add: hex_to_nat_def)

lemma hex_to_nat_nat_to_hex [simp]: "hex_to_nat (nat_to_hex n) = n"
proof (induction n rule: nat_to_hex.induct)
  case (1 n)
  show ?case
  proof (cases "n < 16")
    case True
    then show ?thesis
      using hex_to_nat_snoc(2) [of "[]" "hex_digit n"] by (subst nat_to_hex.simps) simp
  next
    case False
    with 1 show ?thesis by (subst nat_to_hex.simps) simp
  qed
qed

lemma hex_zero [simp]: "hex_value (CHR ''0'') = Some 0"
  by code_simp

lemma hex_to_nat_pad [simp]: "hex_to_nat (pad_start0 k s) = hex_to_nat s"
proof -
  have "foldl (\<lambda>acc c. 16 * acc + (case hex_value c of None \<Rightarrow> 0 | Some d \<Rightarrow> d)) 0
          (replicate m (CHR ''0'')) = 0" for m
    by (induction m) simp_all
  then show ?thesis by (simp add: hex_to_nat_def pad_start0_def)
qed

lemma list_all_hex_nat_to_hex [simp]: "list_all is_hex (nat_to_hex n)"
proof (induction n rule: nat_to_hex.induct)
  case (1 n)
  then show ?case by (subst nat_to_hex.simps) simp
qed

lemma list_all_hex_pad [simp]: "list_all is_hex s \<Longrightarrow> list_all is_hex (pad_start0 k s)"
  by (auto simp: pad_start0_def is_hex_def list_all_iff)

lemma length_nat_to_hex: "n < 16 ^ Suc k \<Longrightarrow> length (nat_to_hex n) \<le> Suc k"
proof (induction k arbitrary: n)
  case (Suc k)
  then have "n div 16 < 16 ^ Suc k" by (simp add: less_mult_imp_div_less)
  with Suc.IH have "length (nat_to_hex (n div 16)) \<le> Suc k" by blast
  then show ?case by (subst nat_to_hex.simps) simp
qed (simp add: nat_to_hex.simps)

lemma nat_to_hex_nonempty [simp]: "nat_to_hex n \<noteq> []"
  by (subst nat_to_hex.simps) simp

lemma length_pad_start0: "length s \<le> k \<Longrightarrow> length (pad_start0 k s) = k"
  by (simp add: pad_start0_def)

lemma hex_byte_facts [simp]:
  "length (hex_byte b) = 2" "list_all is_hex (hex_byte b)" "hex_to_nat (hex_byte b) = unat b"
proof -
  have "unat b < 16 ^ Suc 1" using unsigned_less [of b, where ?'a = nat] by simp
  then show "length (hex_byte b) = 2"
    using length_nat_to_hex [of "unat b" 1] by (simp add: hex_byte_def length_pad_start0)
qed (simp_all add: hex_byte_def)

lemma hex_byte_two_digits:
  "hex_byte b = [hex_digit (unat b div 16), hex_digit (unat b mod 16)]"
proof -
  have lt: "unat b < 256" using unsigned_less [of b, where ?'a = nat] by simp
  show ?thesis
  proof (cases "unat b < 16")
    case True
    then have "nat_to_hex (unat b) = [hex_digit (unat b)]" by (simp add: nat_to_hex.simps)
    moreover have "hex_digit 0 = CHR ''0''" by code_simp
    ultimately show ?thesis using True by (simp add: hex_byte_def pad_start0_def)
  next
    case False
    then have "nat_to_hex (unat b) = [hex_digit (unat b div 16), hex_digit (unat b mod 16)]"
      using lt by (simp add: nat_to_hex.simps [of "unat b"] nat_to_hex.simps [of "unat b div 16"]
        less_mult_imp_div_less)
    then show ?thesis by (simp add: hex_byte_def pad_start0_def)
  qed
qed

lemma foldl_append_map: "foldl (\<lambda>s b. s @ f b) acc bs = acc @ concat (map f bs)"
  by (induction bs arbitrary: acc) simp_all

lemma hashToHex_alt: "isValidHash h \<Longrightarrow> hashToHex h = Inr (concat (map hex_byte h))"
  by (simp add: hashToHex_def validateHash_def foldl_append_map)

lemma take_drop_concat_pairs:
  "i < length bs \<Longrightarrow> take 2 (drop (i * 2) (concat (map hex_byte bs))) = hex_byte (bs ! i)"
proof (induction bs arbitrary: i)
  case (Cons b bs)
  then show ?case by (cases i) simp_all
qed simp

lemma length_concat_hex: "length (concat (map hex_byte bs)) = 2 * length bs"
  by (induction bs) simp_all

lemma hexToHash_hashToHex:
  assumes "isValidHash h"
  shows "rbind (hashToHex h) hexToHash = Inr h"
proof -
  have len: "length h = 32" using assms by (simp add: isValidHash_def HASH_BYTE_LENGTH_def)
  have "list_all is_hex (concat (map hex_byte h))"
    by (induction h) simp_all
  then have "validateHex (concat (map hex_byte h)) True = Inr ()"
    using len by (simp add: validateHex_def length_concat_hex HASH_HEX_LENGTH_def)
  moreover have
    "map (\<lambda>i. of_nat (hex_to_nat (take 2 (drop (i * 2) (concat (map hex_byte h)))))) [0..<32] = h"
    using len by (intro nth_equalityI) (simp_all add: take_drop_concat_pairs)
  ultimately show ?thesis
    using assms by (simp add: hashToHex_alt hexToHash_def HASH_BYTE_LENGTH_def)
qed

lemma hexToBigInt_bigIntToHex:
  assumes "0 \<le> v" "v < 2 ^ 256"
  shows "hexToBigInt (bigIntToHex v padded) padded = Inr v"
proof -
  have "nat v < 16 ^ Suc 63" using assms by (simp add: nat_less_iff)
  then have "length (nat_to_hex (nat v)) \<le> 64" using length_nat_to_hex [of "nat v" 63] by simp
  then have "validateHex (bigIntToHex v padded) padded = Inr ()"
    using assms
    by (simp add: validateHex_def bigIntToHex_def int_to_hex_def HASH_HEX_LENGTH_def
          length_pad_start0 Suc_le_eq not_less)
  then show ?thesis
    using assms by (simp add: hexToBigInt_def bigIntToHex_def int_to_hex_def Let_def)
qed

section \<open>Base64\<close>

definition hashToBase64 :: "'x hash_lib_scheme \<Rightarrow> bytes \<Rightarrow> string result" where
  "hashToBase64 L hash = rbind (validateHash hash) (\<lambda>_. Inr (base64_encode L hash))"

definition base64ToHash :: "'x hash_lib_scheme \<Rightarrow> string \<Rightarrow> bytes result" where
  "base64ToHash L b64 =
     (case base64_decode L b64 of
        None \<Rightarrow> Inl (Error ''Error'' '''')
      | Some hash \<Rightarrow> if length hash \<noteq> HASH_BYTE_LENGTH then range_error else Inr hash)"

definition hashToBase64Url :: "'x hash_lib_scheme \<Rightarrow> bytes \<Rightarrow> string result" where
  "hashToBase64Url L hash = rbind (validateHash hash) (\<lambda>_. Inr (base64url_encode L hash))"

definition base64UrlToHash :: "'x hash_lib_scheme \<Rightarrow> string \<Rightarrow> bytes result" where
  "base64UrlToHash L b64u =
     (case base64url_decode L b64u of
        None \<Rightarrow> Inl (Error ''Error'' '''')
      | Some hash \<Rightarrow> if length hash \<noteq> HASH_BYTE_LENGTH then range_error else Inr hash)"

definition bigIntToBase64 :: "'x hash_lib_scheme \<Rightarrow> int \<Rightarrow> bool \<Rightarrow> string result" where
  "bigIntToBase64 L value padded = rbind (bigIntToHash value) (\<lambda>bytes.
     let bytes = (if padded then bytes
                  else (case dropWhile (\<lambda>b. b = 0) bytes of [] \<Rightarrow> [0] | rest \<Rightarrow> rest))
     in Inr (base64_encode L bytes))"

definition base64ToBigInt :: "'x hash_lib_scheme \<Rightarrow> string \<Rightarrow> bool \<Rightarrow> int result" where
  "base64ToBigInt L b64 padded =
     (case base64_decode L b64 of
        None \<Rightarrow> Inl (Error ''Error'' '''')
      | Some bytes \<Rightarrow>
          if padded \<and> length bytes \<noteq> HASH_BYTE_LENGTH then range_error
          else if length bytes > HASH_BYTE_LENGTH then range_error
          else Inr (bytes_to_bigint bytes))"

lemma hashToBase64Url_valid: "isValidHash h \<Longrightarrow> hashToBase64Url L h = Inr (base64url_encode L h)"
  by (simp add: hashToBase64Url_def validateHash_def)

lemma hashToBase64Url_Inr_iff:
  "hashToBase64Url L h = Inr s \<longleftrightarrow> isValidHash h \<and> s = base64url_encode L h"
  by (auto simp: hashToBase64Url_def rbind_Inr_iff)

lemma base64UrlToHash_encode:
  "base64url_ok L \<Longrightarrow> isValidHash h \<Longrightarrow> base64UrlToHash L (base64url_encode L h) = Inr h"
  by (simp add: base64UrlToHash_def isValidHash_def)

lemma bytes_to_bigint_dropWhile: "bytes_to_bigint (dropWhile (\<lambda>b. b = 0) bs) = bytes_to_bigint bs"
  by (induction bs) simp_all

lemma base64ToBigInt_bigIntToBase64:
  assumes "base64_ok L" "0 \<le> v" "v < 2 ^ 256"
  shows "rbind (bigIntToBase64 L v padded) (\<lambda>s. base64ToBigInt L s padded) = Inr v"
proof -
  from bigIntToHash_Inr [OF assms(2,3)] obtain h where
    h: "bigIntToHash v = Inr h" "length h = 32" "bytes_to_bigint h = v"
    by (auto simp: isValidHash_def HASH_BYTE_LENGTH_def)
  define D where "D = dropWhile (\<lambda>b. b = 0) h"
  have "length D \<le> 32"
    using h(2) length_dropWhile_le [of "\<lambda>b. b = 0" h] by (simp add: D_def)
  moreover have "bytes_to_bigint D = v"
    using h(3) by (simp add: D_def bytes_to_bigint_dropWhile)
  ultimately show ?thesis
    using assms h
    by (cases D) (simp_all add: bigIntToBase64_def base64ToBigInt_def HASH_BYTE_LENGTH_def
      Let_def D_def [symmetric])
qed

section \<open>Round trips of the library conversions\<close>

lemma hashToBigInt_roundtrip: "isValidHash h \<Longrightarrow> rbind (hashToBigInt h) bigIntToHash = Inr h"
  by (simp add: hashToBigInt_def validateHash_valid bigIntToHash_Inr_iff)

lemma bigIntToHash_roundtrip:
  "0 \<le> v \<Longrightarrow> v < 2 ^ 256 \<Longrightarrow> rbind (bigIntToHash v) hashToBigInt = Inr v"
  using bigIntToHash_Inr [of v] by (auto simp: hashToBigInt_def validateHash_valid)

lemma hashToBase64_roundtrip:
  "base64_ok L \<Longrightarrow> isValidHash h \<Longrightarrow> rbind (hashToBase64 L h) (base64ToHash L) = Inr h"
  by (simp add: hashToBase64_def base64ToHash_def validateHash_def isValidHash_def)

lemma hashToBase64Url_roundtrip:
  "base64url_ok L \<Longrightarrow> isValidHash h \<Longrightarrow> rbind (hashToBase64Url L h) (base64UrlToHash L) = Inr h"
  by (simp add: hashToBase64Url_valid base64UrlToHash_encode)

lemma bigIntToHash_error_iff: "bigIntToHash w = range_error \<longleftrightarrow> w < 0 \<or> 2 ^ 256 \<le> w"
proof -
  have "bigIntToHash w = range_error \<longleftrightarrow> (\<nexists>h. bigIntToHash w = Inr h)"
    by (auto simp: bigIntToHash_def split: prod.splits)
  moreover have "(\<exists>h. bigIntToHash w = Inr h) \<longleftrightarrow> 0 \<le> w \<and> w < 2 ^ 256"
  proof
    assume "\<exists>h. bigIntToHash w = Inr h"
    then obtain h where "isValidHash h" "bytes_to_bigint h = w" by (auto simp: bigIntToHash_Inr_iff)
    then show "0 \<le> w \<and> w < 2 ^ 256"
      using bytes_to_bigint_nonneg [of h] bytes_to_bigint_bound [of h]
      by (auto simp: isValidHash_def HASH_BYTE_LENGTH_def)
  qed (use bigIntToHash_Inr in blast)
  ultimately show ?thesis by auto
qed

end
