(* ===== verification/CommonLib.thy ===== *)
theory CommonLib
  imports JsValue SmtHash "HOL-Library.List_Lexorder" "HOL-Library.Char_ord"
begin

text \<open>
  The libraries the packages call, as one record of functions, what their documentation promises,
  and the parts of \<open>packages/common/src\<close> that wrap them: \<open>canonicalization.ts\<close> (JCS, SHA-256 and
  the text encodings of a hash), \<open>json-patch.ts\<close> (RFC 6902 patches) and \<open>utils/date.ts\<close>. The
  functions of \<open>packages/keypair/src/public.ts\<close> that check and encode a public key are here too.

  Fields of \<open>method_lib\<close>: \<open>jcs\<close> is \<open>json-canonicalize\<close>, \<open>json_parse\<close> is \<open>JSON.parse\<close>, \<open>hex\<close>,
  \<open>base58\<close> and \<open>bech32m\<close> are \<open>@scure/base\<close>, \<open>base58btc\<close> is \<open>multiformats\<close>, \<open>secp_valid\<close>,
  \<open>schnorr_sign\<close> and \<open>schnorr_verify\<close> are \<open>@noble/curves\<close>, \<open>apply_patch\<close> is \<open>fast-json-patch\<close>,
  \<open>address_of\<close> is \<open>@scure/btc-signer\<close>, \<open>did_method_of\<close> and \<open>web5_isDidService\<close> are \<open>@web5/dids\<close>,
  and \<open>date_parse\<close> is the implementation-defined \<open>new Date(string)\<close>. A function that throws
  returns \<open>None\<close>.
\<close>

record method_lib = hash_lib +
  jcs :: "jsval \<Rightarrow> string"
  json_parse :: "string \<Rightarrow> jsval option"
  hex_encode :: "bytes \<Rightarrow> string"
  hex_decode :: "string \<Rightarrow> bytes option"
  base58_encode :: "bytes \<Rightarrow> string"
  base58_decode :: "string \<Rightarrow> bytes option"
  base58btc_encode :: "bytes \<Rightarrow> string"
  base58btc_decode :: "string \<Rightarrow> bytes option"
  bech32m_encode :: "string \<Rightarrow> bytes \<Rightarrow> string"
  bech32m_decode :: "string \<Rightarrow> (string \<times> bytes) option"
  secp_valid :: "bytes \<Rightarrow> bool"
  schnorr_verify :: "bytes \<Rightarrow> bytes \<Rightarrow> bytes \<Rightarrow> bool option"
  apply_patch :: "jsval \<Rightarrow> jsval \<Rightarrow> jsval option"
  address_of :: "string \<Rightarrow> bytes \<Rightarrow> string \<Rightarrow> string option"
  did_method_of :: "string \<Rightarrow> string option"
  web5_isDidService :: "jsval \<Rightarrow> bool"
  date_parse :: "string \<Rightarrow> int option"

section \<open>Documented behaviour\<close>

text \<open>The same JSON value up to the order of properties: equality of the forms with sorted keys.\<close>

primrec sort_keys :: "jsval \<Rightarrow> jsval" where
  "sort_keys JUndef = JUndef"
| "sort_keys JNull = JNull"
| "sort_keys (JBool b) = JBool b"
| "sort_keys (JInt i) = JInt i"
| "sort_keys (JFloat w) = JFloat w"
| "sort_keys (JStr s) = JStr s"
| "sort_keys (JBytes bs) = JBytes bs"
| "sort_keys (JArr xs) = JArr (map sort_keys xs)"
| "sort_keys (JObj kvs) = JObj (sort_key fst (map (map_prod id sort_keys) kvs))"

text \<open>RFC 8785: the canonical form does not depend on the order of properties, and parsing it
  returns the value up to that order.\<close>

definition jcs_ok :: "'x method_lib_scheme \<Rightarrow> bool" where
  "jcs_ok L \<longleftrightarrow>
     (\<forall>v. is_json v \<longrightarrow> json_parse L (jcs L v) = Some (sort_keys v) \<and> jcs L (sort_keys v) = jcs L v)"

text \<open>The hexadecimal, base58btc and bech32m codecs read back what they write.\<close>

definition codecs_ok :: "'x method_lib_scheme \<Rightarrow> bool" where
  "codecs_ok L \<longleftrightarrow>
     (\<forall>bs. hex_decode L (hex_encode L bs) = Some bs) \<and>
     (\<forall>bs. base58_decode L (base58_encode L bs) = Some bs) \<and>
     (\<forall>bs. base58btc_decode L (base58btc_encode L bs) = Some bs \<and> base58btc_encode L bs \<noteq> []) \<and>
     (\<forall>bs. base58btc_encode L bs = CHR ''z'' # base58_encode L bs)"

lemma codecs_simps:
  assumes "codecs_ok L"
  shows "hex_decode L (hex_encode L bs) = Some bs" "base58_decode L (base58_encode L bs) = Some bs"
    "base58btc_decode L (base58btc_encode L bs) = Some bs" "base58btc_encode L bs \<noteq> []"
    "base58btc_encode L bs = CHR ''z'' # base58_encode L bs"
  using assms unfolding codecs_ok_def by blast+

definition bech32m_ok :: "'x method_lib_scheme \<Rightarrow> bool" where
  "bech32m_ok L \<longleftrightarrow>
     (\<forall>hrp bs. hrp \<in> {''k'', ''x''} \<longrightarrow> length bs \<le> 34 \<longrightarrow>
        bech32m_decode L (bech32m_encode L hrp bs) = Some (hrp, bs) \<and>
        bech32m_encode L hrp bs \<noteq> [] \<and> CHR '':'' \<notin> set (bech32m_encode L hrp bs))"

section \<open>\<open>canonicalization.ts\<close>\<close>

text \<open>\<open>toLowerCase\<close> and \<open>toUpperCase\<close> on ASCII letters.\<close>

definition lower_char :: "char \<Rightarrow> char" where
  "lower_char c = (let n = of_char c :: nat in if 65 \<le> n \<and> n \<le> 90 then char_of (n + 32) else c)"

definition to_lower :: "string \<Rightarrow> string" where "to_lower s = map lower_char s"

definition normalizeAlgorithm :: "string \<Rightarrow> string result" where
  "normalizeAlgorithm algorithm =
     (let lower = to_lower algorithm in
      if lower \<notin> set [''jcs''] then Inl (Error ''CanonicalizationError'' ''ALGORITHM_ERROR'')
      else Inr lower)"

definition normalizeEncoding :: "string \<Rightarrow> string result" where
  "normalizeEncoding encoding =
     (let lower = to_lower encoding in
      if lower \<notin> set [''hex'', ''base58'', ''base64urlnopad'']
      then Inl (Error ''CanonicalizationError'' ''ENCODING_ERROR'')
      else Inr lower)"

abbreviation syntax_error :: "error + 'a" where
  "syntax_error \<equiv> Inl (Error ''SyntaxError'' '''')"

abbreviation lib_error :: "error + 'a" where
  "lib_error \<equiv> Inl (Error ''Error'' '''')"

definition of_option :: "'a option \<Rightarrow> 'a result" where
  "of_option x = (case x of None \<Rightarrow> lib_error | Some y \<Rightarrow> Inr y)"

lemma of_option_simps [simp]: "of_option (Some y) = Inr y" "of_option None = lib_error"
  by (simp_all add: of_option_def)

lemma of_option_Inr_iff [simp]: "of_option x = Inr y \<longleftrightarrow> x = Some y"
  by (cases x) simp_all

lemma case_JStr_Inr: "(case v of JStr s \<Rightarrow> f s | _ \<Rightarrow> Inl e) = Inr x \<longleftrightarrow> (\<exists>s. v = JStr s \<and> f s = Inr x)"
  by (cases v) simp_all

definition canonicalizeWith :: "'x method_lib_scheme \<Rightarrow> string \<Rightarrow> jsval \<Rightarrow> string result" where
  "canonicalizeWith L algorithm object =
     rbind (normalizeAlgorithm algorithm) (\<lambda>normalized.
       if normalized = ''jcs'' then
         (if object = JUndef then syntax_error else Inr (jcs L (jsonRoundTrip object)))
       else Inl (Error ''CanonicalizationError'' ''ALGORITHM_ERROR''))"

definition canonicalize :: "'x method_lib_scheme \<Rightarrow> jsval \<Rightarrow> string result" where
  "canonicalize L object = canonicalizeWith L ''jcs'' object"

definition hash_of :: "'x method_lib_scheme \<Rightarrow> string \<Rightarrow> bytes" where
  "hash_of L canonicalized = sha256 L (utf8 canonicalized)"

definition encodeHash :: "'x method_lib_scheme \<Rightarrow> string \<Rightarrow> bytes \<Rightarrow> string result" where
  "encodeHash L encoding hashBytes =
     rbind (normalizeEncoding encoding) (\<lambda>normalized.
       Inr (if normalized = ''hex'' then hex_encode L hashBytes
            else if normalized = ''base58'' then base58_encode L hashBytes
            else base64url_encode L hashBytes))"

definition decodeHash :: "'x method_lib_scheme \<Rightarrow> string \<Rightarrow> string \<Rightarrow> bytes result" where
  "decodeHash L encoding encoded =
     rbind (normalizeEncoding encoding) (\<lambda>normalized.
       of_option (if normalized = ''hex'' then hex_decode L encoded
            else if normalized = ''base58'' then base58_decode L encoded
            else base64url_decode L encoded))"

definition canonicalHashBytes :: "'x method_lib_scheme \<Rightarrow> jsval \<Rightarrow> bytes result" where
  "canonicalHashBytes L object =
     rbind (normalizeAlgorithm ''jcs'') (\<lambda>algorithm.
     rbind (canonicalizeWith L algorithm object) (\<lambda>c. Inr (hash_of L c)))"

definition canonicalHash :: "'x method_lib_scheme \<Rightarrow> string \<Rightarrow> jsval \<Rightarrow> string result" where
  "canonicalHash L encoding object =
     rbind (normalizeAlgorithm ''jcs'') (\<lambda>algorithm.
     rbind (normalizeEncoding encoding) (\<lambda>encoding.
     rbind (canonicalizeWith L algorithm object) (\<lambda>c. encodeHash L encoding (hash_of L c))))"

text \<open>The canonical hash as a function, for a value that is not \<open>undefined\<close>.\<close>

definition canon_hash :: "'x method_lib_scheme \<Rightarrow> jsval \<Rightarrow> bytes" where
  "canon_hash L v = hash_of L (jcs L (jsonRoundTrip v))"

lemma to_lower_names [simp]:
  "to_lower ''jcs'' = ''jcs''" "to_lower ''hex'' = ''hex''" "to_lower ''base58'' = ''base58''"
  "to_lower ''base64urlnopad'' = ''base64urlnopad''"
  by code_simp+

lemma normalize_names [simp]:
  "normalizeAlgorithm ''jcs'' = Inr ''jcs''" "normalizeEncoding ''hex'' = Inr ''hex''"
  "normalizeEncoding ''base58'' = Inr ''base58''"
  "normalizeEncoding ''base64urlnopad'' = Inr ''base64urlnopad''"
  by (simp_all add: normalizeAlgorithm_def normalizeEncoding_def)

lemma canonicalize_object [simp]: "v \<noteq> JUndef \<Longrightarrow> canonicalize L v = Inr (jcs L (jsonRoundTrip v))"
  by (simp add: canonicalize_def canonicalizeWith_def)

lemma canonicalHashBytes_object [simp]: "v \<noteq> JUndef \<Longrightarrow> canonicalHashBytes L v = Inr (canon_hash L v)"
  by (simp add: canonicalHashBytes_def canonicalizeWith_def canon_hash_def)

lemma encodeHash_simps [simp]:
  "encodeHash L ''hex'' h = Inr (hex_encode L h)"
  "encodeHash L ''base64urlnopad'' h = Inr (base64url_encode L h)"
  by (simp_all add: encodeHash_def)

lemma decodeHash_simps [simp]:
  "decodeHash L ''hex'' s = of_option (hex_decode L s)"
  "decodeHash L ''base64urlnopad'' s = of_option (base64url_decode L s)"
  by (simp_all add: decodeHash_def)

lemma canonicalHash_object [simp]:
  "v \<noteq> JUndef \<Longrightarrow> canonicalHash L ''hex'' v = Inr (hex_encode L (canon_hash L v))"
  "v \<noteq> JUndef \<Longrightarrow> canonicalHash L ''base64urlnopad'' v = Inr (base64url_encode L (canon_hash L v))"
  by (simp_all add: canonicalHash_def canonicalizeWith_def canon_hash_def)

lemma canonicalHash_undef [simp]: "canonicalHash L ''hex'' JUndef = syntax_error"
  by (simp add: canonicalHash_def canonicalizeWith_def)

lemma canon_hash_roundtrip [simp]: "canon_hash L (jsonRoundTrip v) = canon_hash L v"
  by (simp add: canon_hash_def jsonRoundTrip_twice)

section \<open>\<open>json-patch.ts\<close>\<close>

definition validateOperation :: "jsval \<Rightarrow> error option" where
  "validateOperation op =
     (let bad = Some (Error ''MethodError'' ''JSON_PATCH_VALIDATION_ERROR'') in
      if \<not> truthy op \<or> \<not> typeof_object op then bad
      else if \<not> is_string (js_prop_opt op ''op'') then bad
      else if \<not> is_string (js_prop_opt op ''path'') then bad
      else if js_prop_opt op ''op'' \<in> set [JStr ''move'', JStr ''copy''] \<and>
              \<not> is_string (js_prop_opt op ''from'') then bad
      else None)"

fun firstSome :: "('a \<Rightarrow> 'b option) \<Rightarrow> 'a list \<Rightarrow> 'b option" where
  "firstSome f [] = None"
| "firstSome f (x # xs) = (case f x of Some y \<Rightarrow> Some y | None \<Rightarrow> firstSome f xs)"

definition validateOperations :: "jsval \<Rightarrow> error option" where
  "validateOperations operations =
     (case operations of
        JArr ops \<Rightarrow> firstSome validateOperation ops
      | _ \<Rightarrow> Some (Error ''MethodError'' ''JSON_PATCH_VALIDATION_ERROR''))"

definition JSONPatch_apply :: "'x method_lib_scheme \<Rightarrow> jsval \<Rightarrow> jsval \<Rightarrow> jsval result" where
  "JSONPatch_apply L sourceDocument operations =
     (let docClone = jsonRoundTrip sourceDocument;
          err = Inl (Error ''MethodError'' ''JSON_PATCH_APPLY_ERROR'')
      in if validateOperations operations \<noteq> None then err
         else (case apply_patch L docClone operations of
                 None \<Rightarrow> err
               | Some newDocument \<Rightarrow> if newDocument = JUndef then err else Inr newDocument))"

lemma JSONPatch_apply_Inr_iff:
  "JSONPatch_apply L d p = Inr d' \<longleftrightarrow>
     validateOperations p = None \<and> apply_patch L (jsonRoundTrip d) p = Some d' \<and> d' \<noteq> JUndef"
  by (auto simp: JSONPatch_apply_def Let_def split: option.splits)

section \<open>\<open>utils/date.ts\<close>\<close>

text \<open>A \<open>Date\<close> is its time value in milliseconds, \<open>None\<close> when it is invalid (beyond 100 million
  days of the epoch). The calendar of \<open>toISOString\<close> is the proleptic Gregorian one.\<close>

definition make_date :: "int \<Rightarrow> int option" where
  "make_date ms = (if \<bar>ms\<bar> \<le> 8640000000000000 then Some ms else None)"

definition blocktimeToTimestamp :: "int \<Rightarrow> int option" where
  "blocktimeToTimestamp blocktime = make_date (blocktime * 1000)"

definition dateStringToTimestamp :: "'x method_lib_scheme \<Rightarrow> string \<Rightarrow> int" where
  "dateStringToTimestamp L s = (case date_parse L s of None \<Rightarrow> 0 | Some ms \<Rightarrow> ms)"

text \<open>Year, month and day of a day number counted from 1970-01-01.\<close>

definition civil_from_days :: "int \<Rightarrow> int \<times> int \<times> int" where
  "civil_from_days days =
     (let z = days + 719468;
          era = z div 146097;
          doe = z - era * 146097;
          yoe = (doe - doe div 1460 + doe div 36524 - doe div 146096) div 365;
          doy = doe - (365 * yoe + yoe div 4 - yoe div 100);
          mp = (5 * doy + 2) div 153;
          d = doy - (153 * mp + 2) div 5 + 1;
          m = (if mp < 10 then mp + 3 else mp - 9);
          y = yoe + era * 400 + (if m \<le> 2 then 1 else 0)
      in (y, m, d))"

definition pad2 :: "int \<Rightarrow> string" where "pad2 n = pad_left0 2 (show_nat (nat n))"

definition iso_year :: "int \<Rightarrow> string" where
  "iso_year y = (if 0 \<le> y \<and> y \<le> 9999 then pad_left0 4 (show_nat (nat y))
                 else (if y < 0 then CHR ''-'' else CHR ''+'') # pad_left0 6 (show_nat (nat \<bar>y\<bar>)))"

definition iso_seconds :: "int \<Rightarrow> string" where
  "iso_seconds ms =
     (let secs = ms div 1000; days = secs div 86400; s = secs mod 86400;
          (y, m, d) = civil_from_days days
      in iso_year y @ ''-'' @ pad2 m @ ''-'' @ pad2 d @ ''T'' @ pad2 (s div 3600) @ '':'' @
         pad2 (s mod 3600 div 60) @ '':'' @ pad2 (s mod 60) @ ''Z'')"

definition toISOStringNonFractional :: "int option \<Rightarrow> string result" where
  "toISOStringNonFractional date =
     (case date of
        None \<Rightarrow> Inl (Error ''MethodError'' ''INVALID_DATE'')
      | Some time \<Rightarrow> Inr (iso_seconds time))"

section \<open>Facts on sorted keys\<close>

lemma map_of_eq_filter:
  "map_of kvs k = (case filter (\<lambda>p. fst p = k) kvs of [] \<Rightarrow> None | p # _ \<Rightarrow> Some (snd p))"
  by (induction kvs) auto

lemma map_of_sort_key_fst [simp]: "map_of (sort_key fst kvs) k = map_of (kvs :: (string \<times> 'a) list) k"
  by (simp add: map_of_eq_filter sort_key_stable)

lemma map_of_map_prod_id: "map_of (map (map_prod id f) kvs) k = map_option f (map_of kvs k)"
  by (induction kvs) auto

lemma own_sort_keys [simp]:
  "own (sort_key fst (map (map_prod id sort_keys) kvs)) k = sort_keys (own kvs k)"
  by (simp add: own_def map_of_map_prod_id split: option.split)

lemma delete_sort_keys:
  fixes k :: string
  shows "jm_delete k (sort_key fst (map (map_prod id sort_keys) kvs)) =
     sort_key fst (map (map_prod id sort_keys) (jm_delete k kvs))"
proof -
  have "jm_delete k (map (map_prod id sort_keys) kvs) = map (map_prod id sort_keys) (jm_delete k kvs)"
    by (induction kvs) auto
  moreover have "jm_delete k (sort_key fst xs) = sort_key fst (jm_delete k xs)" for xs :: "(string \<times> jsval) list"
    by (simp add: AList.delete_eq filter_sort)
  ultimately show ?thesis by simp
qed

lemma is_json_sort_keys [simp]: "is_json (sort_keys v) = is_json v"
proof (induction v)
  case (JObj kvs)
  then show ?case by (fastforce simp: map_prod_def)
qed auto

lemma sort_keys_simps [simp]:
  "sort_keys v = JStr s \<longleftrightarrow> v = JStr s" "sort_keys v = JUndef \<longleftrightarrow> v = JUndef"
  "truthy (sort_keys v) = truthy v"
  by (cases v; simp add: truthy_def)+

lemma js_prop_opt_sort_keys [simp]: "js_prop_opt (sort_keys v) k = sort_keys (js_prop_opt v k)"
  by (cases v) (simp_all add: js_prop_opt_def)

text \<open>A canonical form read back has the same canonical form.\<close>

lemma jcs_parse:
  "jcs_ok L \<Longrightarrow> is_json v \<Longrightarrow> json_parse L (jcs L v) = Some (sort_keys v)"
  by (simp add: jcs_ok_def)

lemma jcs_sort_keys: "jcs_ok L \<Longrightarrow> is_json v \<Longrightarrow> jcs L (sort_keys v) = jcs L v"
  by (simp add: jcs_ok_def)

lemma is_json_jm_set:
  "is_json (JObj kvs) \<Longrightarrow> is_json v \<Longrightarrow> is_json (JObj (jm_set k v kvs))"
  using set_jm_set_subset [of k v kvs] by auto

lemma is_json_jm_delete: "is_json (JObj kvs) \<Longrightarrow> is_json (JObj (jm_delete k kvs))"
  by (auto simp: AList.delete_eq)

lemma jm_delete_set_fresh: "\<not> jm_has kvs k \<Longrightarrow> jm_delete k (jm_set k v kvs) = kvs"
  by (simp add: jm_set_fresh' AList.delete_eq jm_has_iff filter_id_conv) force

lemma jm_set_same: "map_of kvs k = Some v \<Longrightarrow> jm_set k v kvs = kvs"
  by (induction kvs) (auto split: if_splits)

lemma own_eq_Some: "own kvs k = v \<Longrightarrow> v \<noteq> JUndef \<Longrightarrow> map_of kvs k = Some v"
  by (auto simp: own_def split: option.splits)



end
