(* ===== verification/CryptoSuite.thy ===== *)
theory CryptoSuite
  imports CommonLib
begin

text \<open>
  The data-integrity proofs of \<open>packages/cryptosuite/src\<close> (\<open>multikey\<close>, \<open>cryptosuite\<close>,
  \<open>data-integrity-proof\<close>) with the public-key checks of \<open>packages/keypair/src/public.ts\<close> and the
  timestamp check of \<open>packages/common/src/utils/date.ts\<close>. A proof is made over the hash of the
  canonical proof configuration and the hash of the canonical document. The lemmas show that a
  proof made by \<open>addProof\<close> verifies, and what a proof that verifies has passed.
\<close>

section \<open>Timestamps\<close>

definition parse2 :: "string \<Rightarrow> (nat \<times> string) option" where
  "parse2 s = (case s of
      a # b # r \<Rightarrow> if is_digit a \<and> is_digit b then Some (nat_of_digits [a, b], r) else None
    | _ \<Rightarrow> None)"

definition expect_char :: "char \<Rightarrow> string \<Rightarrow> string option" where
  "expect_char c s = (case s of x # r \<Rightarrow> if x = c then Some r else None | [] \<Rightarrow> None)"

definition days_in_month :: "nat \<Rightarrow> nat \<Rightarrow> nat" where
  "days_in_month year month =
     (if month = 2 \<and> (year mod 4 = 0 \<and> year mod 100 \<noteq> 0 \<or> year mod 400 = 0) then 29
      else [31, 28, 31, 30, 31, 30, 31, 31, 30, 31, 30, 31] ! (month - 1))"

text \<open>The rest of the string after the seconds: an optional fraction, an optional zone, the end.\<close>

definition drop_fraction :: "string \<Rightarrow> string option" where
  "drop_fraction s = (case s of
      CHR ''.'' # r \<Rightarrow> (case r of c # _ \<Rightarrow> if is_digit c then Some (dropWhile is_digit r) else None | [] \<Rightarrow> None)
    | _ \<Rightarrow> Some s)"

definition zone_ok :: "string \<Rightarrow> bool" where
  "zone_ok s =
     (if s = [] \<or> s = ''Z'' then True
      else case s of
        sign # r \<Rightarrow> (sign = CHR ''+'' \<or> sign = CHR ''-'') \<and>
          (case parse2 r of
             Some (tzHour, r) \<Rightarrow>
               (case expect_char (CHR '':'') r of
                  Some r \<Rightarrow>
                    (case parse2 r of
                       Some (tzMin, r) \<Rightarrow>
                         r = [] \<and> \<not> (tzHour > 14 \<or> tzHour = 14 \<and> tzMin \<noteq> 0 \<or> tzMin > 59)
                     | None \<Rightarrow> False)
                | None \<Rightarrow> False)
           | None \<Rightarrow> False)
      | [] \<Rightarrow> True)"

definition sep2 :: "char \<Rightarrow> (nat \<times> string) option \<Rightarrow> (nat \<times> string) option" where
  "sep2 c x = (case x of
      Some (_, r) \<Rightarrow> (case expect_char c r of Some r' \<Rightarrow> parse2 r' | None \<Rightarrow> None)
    | None \<Rightarrow> None)"

definition isValidXsdDateTime :: "string option \<Rightarrow> bool" where
  "isValidXsdDateTime value =
     (case value of
        None \<Rightarrow> False
      | Some value \<Rightarrow>
         if value = [] then False
         else
           let body = (case value of CHR ''-'' # r \<Rightarrow> r | _ \<Rightarrow> value);
               y = takeWhile is_digit body;
               year = nat_of_digits y;
               m = sep2 (CHR ''-'') (Some (0, dropWhile is_digit body));
               d = sep2 (CHR ''-'') m;
               H = sep2 (CHR ''T'') d;
               M = sep2 (CHR '':'') H;
               S = sep2 (CHR '':'') M
           in if length y < 4 then False
              else case (m, d, H, M, S) of
                (Some (month, _), Some (day, _), Some (hour, _), Some (minute, _), Some (second, r)) \<Rightarrow>
                  (case drop_fraction r of
                     None \<Rightarrow> False
                   | Some tz \<Rightarrow>
                      if year = 0 then False
                      else if month < 1 \<or> month > 12 then False
                      else if day < 1 \<or> day > days_in_month year month then False
                      else if hour = 24 \<and> (minute \<noteq> 0 \<or> second \<noteq> 0) then False
                      else if hour > 24 then False
                      else if minute > 59 then False
                      else if second > 59 then False
                      else zone_ok tz)
              | _ \<Rightarrow> False)"

section \<open>Public keys\<close>

text \<open>The constructor of \<open>CompressedSecp256k1PublicKey\<close> on bytes; a valid key is its 33 bytes.\<close>

definition newPublicKey :: "'x method_lib_scheme \<Rightarrow> bytes \<Rightarrow> bytes result" where
  "newPublicKey L keyBytes =
     (if length keyBytes \<noteq> 33 then Inl (Error ''PublicKeyError'' ''CONSTRUCTOR_ERROR'')
      else if \<not> secp_valid L keyBytes then Inl (Error ''PublicKeyError'' ''CONSTRUCTOR_ERROR'')
      else Inr keyBytes)"

definition publicKeyMultibase :: "'x method_lib_scheme \<Rightarrow> bytes \<Rightarrow> string" where
  "publicKeyMultibase L compressed = CHR ''z'' # base58_encode L ([0xe7, 0x01] @ compressed)"

definition xOnly :: "bytes \<Rightarrow> bytes" where "xOnly compressed = take 32 (drop 1 compressed)"

section \<open>Multikeys\<close>

text \<open>Who signs: nobody, an external signer, or the secret key held by the key pair, whose
  signature is what \<open>schnorr.sign\<close> returns.\<close>

datatype signing = NoSecret | ExternalSigner "bytes \<Rightarrow> bytes" | SecretKey "bytes \<Rightarrow> bytes"

record SchnorrMultikey =
  mk_id :: string
  mk_controller :: string
  mk_publicKey :: bytes
  mk_signing :: signing

definition multikeyFromSigner ::
  "'x method_lib_scheme \<Rightarrow> string \<Rightarrow> string \<Rightarrow> bytes \<Rightarrow> (bytes \<Rightarrow> bytes) \<Rightarrow> SchnorrMultikey result" where
  "multikeyFromSigner L keyId controller signerPk sign =
     rbind (newPublicKey L signerPk) (\<lambda>publicKey.
       if length signerPk \<noteq> length publicKey \<or> signerPk \<noteq> publicKey
       then Inl (Error ''MultikeyError'' ''CONSTRUCTOR_ERROR'')
       else Inr \<lparr>mk_id = keyId, mk_controller = controller, mk_publicKey = publicKey,
                 mk_signing = ExternalSigner sign\<rparr>)"

definition multikeySign :: "SchnorrMultikey \<Rightarrow> bytes \<Rightarrow> bytes result" where
  "multikeySign mk data =
     (case mk_signing mk of
        ExternalSigner sign \<Rightarrow> Inr (sign data)
      | SecretKey sign \<Rightarrow> Inr (sign data)
      | NoSecret \<Rightarrow> Inl (Error ''KeyPairError'' ''SECRET_KEY_ERROR''))"

definition multikeyVerify ::
  "'x method_lib_scheme \<Rightarrow> SchnorrMultikey \<Rightarrow> bytes \<Rightarrow> bytes \<Rightarrow> bool result" where
  "multikeyVerify L mk signature data =
     of_option (schnorr_verify L signature data (xOnly (mk_publicKey mk)))"

definition fullId :: "SchnorrMultikey \<Rightarrow> string" where
  "fullId mk = (if starts_with ''#'' (mk_id mk) then mk_controller mk @ mk_id mk else mk_id mk)"

text \<open>The type of a verification method has strings for \<open>id\<close> and \<open>controller\<close>; other values, which the
  code would keep, are read as the empty string.\<close>

definition fromVerificationMethod :: "'x method_lib_scheme \<Rightarrow> jsval \<Rightarrow> SchnorrMultikey result" where
  "fromVerificationMethod L vm =
     (let bad = Inl (Error ''MultikeyError'' ''VERIFICATION_METHOD_ERROR'');
          str = (\<lambda>v. case v of JStr s \<Rightarrow> s | _ \<Rightarrow> [])
      in if \<not> truthy (js_prop_opt vm ''publicKeyMultibase'') then bad
         else case js_prop_opt vm ''publicKeyMultibase'' of
           JStr multibase \<Rightarrow>
             rbind (of_option (base58btc_decode L multibase)) (\<lambda>bytes.
               if length bytes \<noteq> 35 then bad
               else if bytes ! 0 \<noteq> 0xe7 \<or> bytes ! 1 \<noteq> 0x01 then bad
               else rbind (newPublicKey L (drop 2 bytes)) (\<lambda>publicKey.
                 Inr \<lparr>mk_id = str (js_prop_opt vm ''id''), mk_controller = str (js_prop_opt vm ''controller''),
                      mk_publicKey = publicKey, mk_signing = NoSecret\<rparr>))
         | _ \<Rightarrow> lib_error)"

section \<open>The cryptosuite \<open>bip340-jcs-2025\<close>\<close>

definition suite_type :: jsval where "suite_type = JStr ''DataIntegrityProof''"
definition suite_name :: jsval where "suite_name = JStr ''bip340-jcs-2025''"

definition transformDocument :: "'x method_lib_scheme \<Rightarrow> jsval \<Rightarrow> jsval \<Rightarrow> string result" where
  "transformDocument L document config =
     (if js_prop_opt config ''type'' \<noteq> suite_type then Inl (Error ''MethodError'' ''PROOF_VERIFICATION_ERROR'')
      else if js_prop_opt config ''cryptosuite'' \<noteq> suite_name
      then Inl (Error ''MethodError'' ''PROOF_VERIFICATION_ERROR'')
      else canonicalize L document)"

definition generateHash :: "'x method_lib_scheme \<Rightarrow> string \<Rightarrow> string \<Rightarrow> bytes" where
  "generateHash L config document =
     (let configHash = sha256 L (utf8 config);
          documentHash = sha256 L (utf8 document)
      in sha256 L (configHash @ documentHash))"

definition proofConfiguration :: "'x method_lib_scheme \<Rightarrow> jsval \<Rightarrow> string result" where
  "proofConfiguration L config =
     (let err = Inl (Error ''CryptosuiteError'' ''PROOF_GENERATION_ERROR'');
          created = js_prop_opt config ''created''
      in if js_prop_opt config ''type'' \<noteq> suite_type then err
         else if js_prop_opt config ''cryptosuite'' \<noteq> suite_name then err
         else if truthy created then
           (case created of
              JStr s \<Rightarrow> if isValidXsdDateTime (Some s) then canonicalize L config else err
            | _ \<Rightarrow> type_error)
         else canonicalize L config)"

definition proofSerialization :: "SchnorrMultikey \<Rightarrow> bytes \<Rightarrow> jsval \<Rightarrow> bytes result" where
  "proofSerialization mk hash config =
     (if js_prop_opt config ''verificationMethod'' \<noteq> JStr (fullId mk)
      then Inl (Error ''CryptosuiteError'' ''PROOF_SERIALIZATION_ERROR'')
      else multikeySign mk hash)"

definition proofVerification ::
  "'x method_lib_scheme \<Rightarrow> SchnorrMultikey \<Rightarrow> bytes \<Rightarrow> bytes \<Rightarrow> jsval \<Rightarrow> bool result" where
  "proofVerification L mk hash signature config =
     (if js_prop_opt config ''verificationMethod'' \<noteq> JStr (fullId mk)
      then Inl (Error ''CryptosuiteError'' ''PROOF_VERIFICATION_ERROR'')
      else multikeyVerify L mk signature hash)"

text \<open>\<open>createProof\<close> fills in the object passed as \<open>config\<close> and returns it.\<close>

definition createProof ::
  "'x method_lib_scheme \<Rightarrow> SchnorrMultikey \<Rightarrow> jsval \<Rightarrow> jsval \<Rightarrow> jsval result" where
  "createProof L mk document config =
     (let ctx = js_prop_opt document ''@context'';
          config = js_set_prop ''@context''
            (if ctx = JUndef \<or> ctx = JNull then js_prop_opt config ''@context'' else ctx) config
      in rbind (proofConfiguration L config) (\<lambda>canonicalConfig.
         rbind (transformDocument L document config) (\<lambda>canonicalDocument.
         let hash = generateHash L canonicalConfig canonicalDocument
         in rbind (proofSerialization mk hash config) (\<lambda>serialized.
            Inr (js_set_prop ''type'' suite_type (js_set_prop ''cryptosuite'' suite_name
                  (js_set_prop ''proofValue'' (JStr (base58btc_encode L serialized)) config)))))))"

record VerificationResult =
  vr_verified :: bool
  vr_verifiedDocument :: jsval
  vr_mediaType :: "string option"

text \<open>\<open>const { k, ...rest } = v\<close>: throws on \<open>undefined\<close> and \<open>null\<close>; other values than objects have
  none of the properties read below.\<close>

definition rest_without :: "string \<Rightarrow> jsval \<Rightarrow> jsval result" where
  "rest_without k v = (case v of
      JUndef \<Rightarrow> type_error | JNull \<Rightarrow> type_error | JObj kvs \<Rightarrow> Inr (JObj (jm_delete k kvs)) | _ \<Rightarrow> Inr (JObj []))"

definition suiteVerifyProof ::
  "'x method_lib_scheme \<Rightarrow> SchnorrMultikey \<Rightarrow> jsval \<Rightarrow> VerificationResult result" where
  "suiteVerifyProof L mk secureDocument =
     rbind (js_prop secureDocument ''proof'') (\<lambda>proof.
     rbind (rest_without ''proof'' secureDocument) (\<lambda>unsecureDocument.
     rbind (rest_without ''proofValue'' proof) (\<lambda>config.
     rbind (transformDocument L unsecureDocument config) (\<lambda>canonicalDocument.
     rbind (proofConfiguration L config) (\<lambda>canonicalConfig.
     let hash = generateHash L canonicalConfig canonicalDocument
     in rbind (case js_prop_opt proof ''proofValue'' of
                 JStr s \<Rightarrow> of_option (base58btc_decode L s) | _ \<Rightarrow> lib_error) (\<lambda>signature.
        rbind (proofVerification L mk hash signature config) (\<lambda>verified.
          Inr \<lparr>vr_verified = verified, vr_verifiedDocument = (if verified then secureDocument else JUndef),
               vr_mediaType = None\<rparr>)))))))"

section \<open>Data-integrity proofs\<close>

text \<open>\<open>createProof\<close> returns the object it was given, so \<open>config\<close> and \<open>proof\<close> are the same object
  here.\<close>

definition addProof ::
  "'x method_lib_scheme \<Rightarrow> SchnorrMultikey \<Rightarrow> jsval \<Rightarrow> jsval \<Rightarrow> jsval result" where
  "addProof L mk unsignedDocument config =
     rbind (createProof L mk unsignedDocument config) (\<lambda>proof.
       let config = proof; err = Inl (Error ''DataIntegrityProofError'' ''PROOF_GENERATION_ERROR'') in
       if \<not> truthy (js_prop_opt proof ''type'') \<or> \<not> truthy (js_prop_opt proof ''verificationMethod'') \<or>
          \<not> truthy (js_prop_opt proof ''proofPurpose'') then err
       else if truthy (js_prop_opt config ''domain'') \<and>
               js_prop_opt proof ''domain'' \<noteq> js_prop_opt config ''domain'' then err
       else if truthy (js_prop_opt config ''challenge'') \<and>
               js_prop_opt proof ''challenge'' \<noteq> js_prop_opt config ''challenge'' then err
       else Inr (js_set_prop ''proof'' proof unsignedDocument))"

datatype expected_domain = DomainAbsent | DomainString string | DomainList "string list"

text \<open>\<open>proof.domain?.length\<close> and \<open>proof.domain?.includes(url)\<close> of a string or an array.\<close>

definition domain_length :: "jsval \<Rightarrow> nat option" where
  "domain_length v = (case v of JStr s \<Rightarrow> Some (length s) | JArr xs \<Rightarrow> Some (length xs) | _ \<Rightarrow> None)"

definition domain_includes :: "jsval \<Rightarrow> string \<Rightarrow> bool" where
  "domain_includes v url = (case v of JStr s \<Rightarrow> includes_str url s | JArr xs \<Rightarrow> JStr url \<in> set xs | _ \<Rightarrow> False)"

definition domain_check :: "expected_domain \<Rightarrow> jsval \<Rightarrow> unit result" where
  "domain_check expectedDomain domain =
     (let err = Inl (Error ''DataIntegrityProofError'' ''PROOF_VERIFICATION_ERROR'') in
      case expectedDomain of
        DomainAbsent \<Rightarrow> Inr ()
      | DomainString d \<Rightarrow> if d = [] then Inr () else if domain \<noteq> JStr d then err else Inr ()
      | DomainList ds \<Rightarrow>
          if ds \<noteq> [] then
            (if domain_length domain \<noteq> Some (length ds) then err
             else if list_all (domain_includes domain) ds then err
             else Inr ())
          else err)"

definition verifyProof ::
  "'x method_lib_scheme \<Rightarrow> SchnorrMultikey \<Rightarrow> string \<Rightarrow> string \<Rightarrow> string option \<Rightarrow> expected_domain
     \<Rightarrow> string option \<Rightarrow> VerificationResult result" where
  "verifyProof L mk document expectedPurpose mediaType expectedDomain expectedChallenge =
     (let err = Inl (Error ''DataIntegrityProofError'' ''PROOF_VERIFICATION_ERROR'') in
      case json_parse L document of
        None \<Rightarrow> syntax_error
      | Some signedDocument \<Rightarrow>
         rbind (js_prop signedDocument ''proof'') (\<lambda>proof.
         rbind (js_prop proof ''type'') (\<lambda>_.
         if \<not> truthy (js_prop_opt proof ''type'') \<or> \<not> truthy (js_prop_opt proof ''verificationMethod'') \<or>
            \<not> truthy (js_prop_opt proof ''proofPurpose'') then err
         else if expectedPurpose \<noteq> [] \<and> JStr expectedPurpose \<noteq> js_prop_opt proof ''proofPurpose'' then err
         else if truthy_str expectedChallenge \<and>
                 JStr (the expectedChallenge) \<noteq> js_prop_opt proof ''challenge''
         then Inl (Error ''DataIntegrityProofError'' ''INVALID_CHALLENGE_ERROR'')
         else rbind (domain_check expectedDomain (js_prop_opt proof ''domain'')) (\<lambda>_.
              rbind (suiteVerifyProof L mk signedDocument) (\<lambda>result.
                Inr (result\<lparr>vr_mediaType := mediaType\<rparr>))))))"

section \<open>A proof that was made verifies\<close>

lemma canonicalize_json:
  "is_json v \<Longrightarrow> canonicalize L v = Inr (jcs L v)"
  by (cases "v = JUndef") (simp_all add: jsonRoundTrip_idem)

lemma canonicalize_sort_keys:
  "jcs_ok L \<Longrightarrow> is_json v \<Longrightarrow> canonicalize L (sort_keys v) = Inr (jcs L v)"
  by (simp add: canonicalize_json jcs_sort_keys)

lemma rest_without_sort_keys [simp]:
  "rest_without k (sort_keys (JObj kvs)) = Inr (sort_keys (JObj (jm_delete k kvs)))"
  by (simp add: rest_without_def delete_sort_keys)

lemma transformDocument_Inr_iff:
  "transformDocument L d c = Inr s \<longleftrightarrow>
     js_prop_opt c ''type'' = suite_type \<and> js_prop_opt c ''cryptosuite'' = suite_name \<and>
     canonicalize L d = Inr s"
  by (auto simp: transformDocument_def)

lemma proofConfiguration_Inr_iff:
  "proofConfiguration L c = Inr s \<longleftrightarrow>
     js_prop_opt c ''type'' = suite_type \<and> js_prop_opt c ''cryptosuite'' = suite_name \<and>
     (truthy (js_prop_opt c ''created'') \<longrightarrow>
        (\<exists>t. js_prop_opt c ''created'' = JStr t \<and> isValidXsdDateTime (Some t))) \<and>
     canonicalize L c = Inr s"
  by (cases "js_prop_opt c ''created''") (auto simp: proofConfiguration_def Let_def)

lemma suite_sort_keys [simp]:
  "sort_keys v = suite_type \<longleftrightarrow> v = suite_type" "sort_keys v = suite_name \<longleftrightarrow> v = suite_name"
  by (simp_all add: suite_type_def suite_name_def)

lemma proofConfiguration_sort_keys:
  assumes "jcs_ok L" "is_json c" "proofConfiguration L c = Inr s"
  shows "proofConfiguration L (sort_keys c) = Inr s"
  using assms by (auto simp: proofConfiguration_Inr_iff canonicalize_json jcs_sort_keys)

lemma transformDocument_sort_keys:
  assumes "jcs_ok L" "is_json d" "transformDocument L d c = Inr s"
  shows "transformDocument L (sort_keys d) (sort_keys c) = Inr s"
  using assms by (auto simp: transformDocument_Inr_iff canonicalize_json jcs_sort_keys)

text \<open>What a created proof holds: the configuration, with the document's context, and the
  signature over the hash of both canonical forms.\<close>

lemma createProof_Inr:
  assumes "createProof L mk d (JObj ckvs) = Inr pf"
    and ctx: "js_prop_opt d ''@context'' = ctx" "ctx \<noteq> JUndef" "ctx \<noteq> JNull"
  shows "\<exists>cc dd sig. let c = jm_set ''@context'' ctx ckvs in
     proofConfiguration L (JObj c) = Inr cc \<and> transformDocument L d (JObj c) = Inr dd \<and>
     js_prop_opt (JObj c) ''verificationMethod'' = JStr (fullId mk) \<and>
     multikeySign mk (generateHash L cc dd) = Inr sig \<and>
     pf = JObj (jm_set ''proofValue'' (JStr (base58btc_encode L sig)) c)"
proof -
  let ?c = "jm_set ''@context'' ctx ckvs"
  from assms obtain cc dd sig where
    cc: "proofConfiguration L (JObj ?c) = Inr cc" and dd: "transformDocument L d (JObj ?c) = Inr dd" and
    sig: "proofSerialization mk (generateHash L cc dd) (JObj ?c) = Inr sig" and
    pfeq: "pf = js_set_prop ''type'' suite_type (js_set_prop ''cryptosuite'' suite_name
       (js_set_prop ''proofValue'' (JStr (base58btc_encode L sig)) (JObj ?c)))"
    by (auto simp: createProof_def Let_def rbind_Inr_iff js_set_prop_def)
  let ?p = "jm_set ''proofValue'' (JStr (base58btc_encode L sig)) ?c"
  from cc have "own ?c ''type'' = suite_type" "own ?c ''cryptosuite'' = suite_name"
    by (simp_all add: proofConfiguration_Inr_iff)
  then have "map_of ?p ''type'' = Some suite_type" "map_of ?p ''cryptosuite'' = Some suite_name"
    by (auto simp: suite_type_def suite_name_def own_def split: option.splits if_splits)
  then have "pf = JObj ?p"
    unfolding pfeq js_set_prop_def by (simp only: jsval.case jm_set_same)
  with cc dd sig show ?thesis
    by (intro exI [of _ cc] exI [of _ dd] exI [of _ sig])
       (auto simp: Let_def proofSerialization_def split: if_splits)
qed

lemma verifyProof_addProof:
  assumes L: "jcs_ok L" "codecs_ok L"
    and doc: "is_json (JObj dkvs)" "\<not> jm_has dkvs ''proof''"
    and ctx: "own dkvs ''@context'' \<noteq> JUndef" "own dkvs ''@context'' \<noteq> JNull"
    and config: "is_json (JObj ckvs)" "\<not> jm_has ckvs ''proofValue''"
    and sdoc: "addProof L mk (JObj dkvs) (JObj ckvs) = Inr sdoc"
    and key: "fullId mk' = fullId mk"
      "\<And>h sig. multikeySign mk h = Inr sig \<Longrightarrow> schnorr_verify L sig h (xOnly (mk_publicKey mk')) = Some True"
    and purpose: "own ckvs ''proofPurpose'' = JStr purpose"
  shows "\<exists>r. verifyProof L mk' (jcs L sdoc) purpose mediaType DomainAbsent None = Inr r \<and> vr_verified r"
proof -
  let ?ctx = "own dkvs ''@context''" and ?c = "jm_set ''@context'' (own dkvs ''@context'') ckvs"
  from sdoc obtain pf where create: "createProof L mk (JObj dkvs) (JObj ckvs) = Inr pf"
    and truthy: "truthy (js_prop_opt pf ''type'')" "truthy (js_prop_opt pf ''verificationMethod'')"
      "truthy (js_prop_opt pf ''proofPurpose'')"
    and sdef: "sdoc = js_set_prop ''proof'' pf (JObj dkvs)"
    by (auto simp: addProof_def rbind_Inr_iff Let_def split: if_splits)
  from createProof_Inr [OF create, of ?ctx] ctx obtain cc dd sig where
    cc: "proofConfiguration L (JObj ?c) = Inr cc" and dd: "transformDocument L (JObj dkvs) (JObj ?c) = Inr dd"
    and vm: "own ?c ''verificationMethod'' = JStr (fullId mk)"
    and sig: "multikeySign mk (generateHash L cc dd) = Inr sig"
    and pfeq: "pf = JObj (jm_set ''proofValue'' (JStr (base58btc_encode L sig)) ?c)"
    by (auto simp: Let_def)
  let ?p = "jm_set ''proofValue'' (JStr (base58btc_encode L sig)) ?c"
  let ?s = "jm_set ''proof'' (JObj ?p) dkvs"
  have json: "is_json ?ctx" "is_json (JObj ?c)" "is_json (JObj ?p)" "is_json (JObj ?s)"
    using is_json_own [OF doc(1), of "''@context''"] ctx config(1) doc(1) is_json_jm_set
    by (simp_all del: is_json_JObj)
  have del: "jm_delete ''proof'' ?s = dkvs" "jm_delete ''proofValue'' ?p = ?c"
    using doc(2) config(2) by (simp_all add: jm_delete_set_fresh)
  have S: "json_parse L (jcs L sdoc) = Some (sort_keys (JObj ?s))"
    using jcs_parse [OF L(1) json(4)] sdef pfeq by (simp add: js_set_prop_def)
  have "suiteVerifyProof L mk' (sort_keys (JObj ?s)) =
    Inr \<lparr>vr_verified = True, vr_verifiedDocument = sort_keys (JObj ?s), vr_mediaType = None\<rparr>"
  proof -
    have "rest_without ''proof'' (sort_keys (JObj ?s)) = Inr (sort_keys (JObj dkvs))"
      "rest_without ''proofValue'' (sort_keys (JObj ?p)) = Inr (sort_keys (JObj ?c))"
      by (simp_all only: rest_without_sort_keys del)
    moreover have "js_prop (sort_keys (JObj ?s)) ''proof'' = Inr (sort_keys (JObj ?p))"
      by (simp add: js_prop_def)
    moreover have "js_prop_opt (sort_keys (JObj ?p)) ''proofValue'' = JStr (base58btc_encode L sig)"
      by (simp del: sort_keys.simps(8,9))
    moreover have "base58btc_decode L (base58btc_encode L sig) = Some sig"
      by (rule codecs_simps(3) [OF L(2)])
    moreover have "proofVerification L mk' (generateHash L cc dd) sig (sort_keys (JObj ?c)) = Inr True"
      using vm key sig by (simp add: proofVerification_def multikeyVerify_def del: sort_keys.simps(8,9))
    ultimately show ?thesis
      using proofConfiguration_sort_keys [OF L(1) json(2) cc] transformDocument_sort_keys [OF L(1) doc(1) dd]
      by (simp add: suiteVerifyProof_def Let_def del: sort_keys.simps(8,9))
  qed
  moreover have "js_prop (sort_keys (JObj ?s)) ''proof'' = Inr (sort_keys (JObj ?p))"
    by (simp add: js_prop_def)
  moreover have "js_prop (sort_keys (JObj ?p)) ''type'' = Inr (js_prop_opt (sort_keys (JObj ?p)) ''type'')"
    by (simp add: js_prop_def)
  ultimately show ?thesis
    using truthy purpose S unfolding pfeq
    by (simp add: verifyProof_def Let_def domain_check_def del: sort_keys.simps(8,9))
qed

section \<open>What a verified proof has passed\<close>

lemma multikeyVerify_Inr [simp]:
  "multikeyVerify L mk s h = Inr b \<longleftrightarrow> schnorr_verify L s h (xOnly (mk_publicKey mk)) = Some b"
  by (auto simp: multikeyVerify_def of_option_def split: option.splits)

lemma suiteVerifyProof_verified:
  assumes "suiteVerifyProof L mk S = Inr r" "vr_verified r"
  shows "\<exists>pf doc config docText configText multibase signature.
     js_prop S ''proof'' = Inr pf \<and> rest_without ''proof'' S = Inr doc \<and>
     rest_without ''proofValue'' pf = Inr config \<and>
     transformDocument L doc config = Inr docText \<and> proofConfiguration L config = Inr configText \<and>
     js_prop_opt pf ''proofValue'' = JStr multibase \<and> base58btc_decode L multibase = Some signature \<and>
     js_prop_opt config ''verificationMethod'' = JStr (fullId mk) \<and>
     schnorr_verify L signature (generateHash L configText docText) (xOnly (mk_publicKey mk)) = Some True"
  using assms
  by (auto simp: suiteVerifyProof_def rbind_Inr_iff Let_def proofVerification_def case_JStr_Inr
        split: if_splits)

lemma verifyProof_verified:
  assumes "verifyProof L mk text purpose mediaType edom challenge = Inr r" "vr_verified r"
  shows "\<exists>S pf r'. json_parse L text = Some S \<and> js_prop S ''proof'' = Inr pf \<and>
     (purpose \<noteq> [] \<longrightarrow> js_prop_opt pf ''proofPurpose'' = JStr purpose) \<and>
     domain_check edom (js_prop_opt pf ''domain'') = Inr () \<and>
     suiteVerifyProof L mk S = Inr r' \<and> vr_verified r'"
  using assms
  by (auto simp: verifyProof_def rbind_Inr_iff Let_def split: option.splits if_splits)

end
