(* ===== verification/DidIdentifier.thy ===== *)
theory DidIdentifier
  imports CryptoSuite
begin

text \<open>
  did:btcr2 identifiers: \<open>packages/method/src/core/identifier.ts\<close> and \<open>DidBtcr2.create\<close> of
  \<open>packages/method/src/did-btcr2.ts\<close>, with the enums of \<open>packages/common/src/types.ts\<close>. An
  identifier is \<open>did:btcr2:\<close> followed by the bech32m form of one byte (version and network) and
  the genesis bytes: a public key under the prefix \<open>k\<close>, a document hash under \<open>x\<close>.
\<close>

section \<open>Enums\<close>

definition IdentifierTypes :: "string list" where "IdentifierTypes = [''KEY'', ''EXTERNAL'']"

definition BitcoinNetworkNames :: "string list" where
  "BitcoinNetworkNames = [''bitcoin'', ''signet'', ''regtest'', ''testnet3'', ''testnet4'', ''mutinynet'']"

text \<open>The properties an object inherits: \<open>in\<close> and indexing see them.\<close>

definition objectPrototypeKeys :: "string list" where
  "objectPrototypeKeys = [''constructor'', ''__defineGetter__'', ''__defineSetter__'', ''hasOwnProperty'',
     ''__lookupGetter__'', ''__lookupSetter__'', ''isPrototypeOf'', ''propertyIsEnumerable'', ''toString'',
     ''valueOf'', ''__proto__'', ''toLocaleString'']"

fun list_index :: "'a list \<Rightarrow> 'a \<Rightarrow> nat option" where
  "list_index [] y = None"
| "list_index (x # xs) y = (if x = y then Some 0 else map_option Suc (list_index xs y))"

text \<open>\<open>BitcoinNetworkNames[network]\<close> as an operand of \<open>|\<close>. A numeric enum also maps its numbers
  back to names, so the strings \<open>''0''\<close> to \<open>''5''\<close> are keys whose value is a name; a value that is
  not a number counts as 0.\<close>

definition networkEnumValue :: "string \<Rightarrow> nat option" where
  "networkEnumValue network =
     (case list_index BitcoinNetworkNames network of
        Some v \<Rightarrow> Some v
      | None \<Rightarrow>
          if network \<in> set (map show_nat [0..<length BitcoinNetworkNames]) \<or>
             network \<in> set objectPrototypeKeys then Some 0
          else None)"

text \<open>\<open>network\<close> is a string, or the number \<open>decode\<close> returns for a user-defined network.\<close>

datatype network_name = NetName string | NetNumber nat

record DidComponents =
  dc_idType :: string
  dc_hrp :: string
  dc_version :: int
  dc_network :: network_name
  dc_genesisBytes :: bytes

abbreviation invalid_did :: "error + 'a" where
  "invalid_did \<equiv> Inl (Error ''IdentifierError'' ''INVALID_DID'')"

section \<open>Encoding and decoding\<close>

definition encodeIdentifier ::
  "'x method_lib_scheme \<Rightarrow> bytes \<Rightarrow> string \<Rightarrow> int \<Rightarrow> network_name \<Rightarrow> string result" where
  "encodeIdentifier L genesisBytes idType version network =
     (if idType \<notin> set IdentifierTypes \<and> idType \<notin> set objectPrototypeKeys then invalid_did
      else if version \<noteq> 1 then invalid_did
      else case network of
        NetNumber _ \<Rightarrow> invalid_did
      | NetName name \<Rightarrow>
         (case networkEnumValue name of
            None \<Rightarrow> invalid_did
          | Some networkValue \<Rightarrow>
             let hrp = (if idType = ''KEY'' then ''k'' else ''x'');
                 firstByte = (of_nat networkValue :: byte);
                 did = ''did:btcr2:'' @ bech32m_encode L hrp (firstByte # genesisBytes)
             in if idType = ''KEY'' then
                  (case newPublicKey L genesisBytes of Inl _ \<Rightarrow> invalid_did | Inr _ \<Rightarrow> Inr did)
                else if length genesisBytes \<noteq> 32 then invalid_did
                else Inr did))"

definition decodeNetwork :: "nat \<Rightarrow> network_name option" where
  "decodeNetwork networkValue =
     (if networkValue < length BitcoinNetworkNames then Some (NetName (BitcoinNetworkNames ! networkValue))
      else if networkValue \<ge> 12 \<and> networkValue \<le> 14 then Some (NetNumber (networkValue - 11))
      else None)"

definition decodeIdentifier :: "'x method_lib_scheme \<Rightarrow> string \<Rightarrow> DidComponents result" where
  "decodeIdentifier L identifier =
     (case split_char (CHR '':'') identifier of
        [scheme, method_name, encoded] \<Rightarrow>
          if scheme \<noteq> ''did'' then invalid_did
          else if method_name \<noteq> ''btcr2'' then Inl (Error ''IdentifierError'' ''METHOD_NOT_SUPPORTED'')
          else if encoded = [] then invalid_did
          else (case bech32m_decode L encoded of
             None \<Rightarrow> lib_error
           | Some (hrp, dataBytes) \<Rightarrow>
               if hrp \<notin> set [''x'', ''k''] then invalid_did
               else (case dataBytes of
                  [] \<Rightarrow> invalid_did
                | firstByte # genesisBytes \<Rightarrow>
                   let idType = (if hrp = ''k'' then ''KEY'' else ''EXTERNAL'');
                       btcr2Version = unat (drop_bit 4 firstByte);
                       networkValue = unat (take_bit 4 firstByte)
                   in if btcr2Version \<noteq> 0 then invalid_did
                      else (case decodeNetwork networkValue of
                         None \<Rightarrow> invalid_did
                       | Some network \<Rightarrow>
                          let components = \<lparr>dc_idType = idType, dc_hrp = hrp, dc_version = 1,
                                            dc_network = network, dc_genesisBytes = genesisBytes\<rparr>
                          in if idType = ''KEY'' then
                               (case newPublicKey L genesisBytes of
                                  Inl _ \<Rightarrow> invalid_did | Inr _ \<Rightarrow> Inr components)
                             else if length genesisBytes \<noteq> 32 then invalid_did
                             else Inr components)))
      | _ \<Rightarrow> invalid_did)"

definition isValidIdentifier :: "'x method_lib_scheme \<Rightarrow> string \<Rightarrow> bool" where
  "isValidIdentifier L identifier = (case decodeIdentifier L identifier of Inr _ \<Rightarrow> True | Inl _ \<Rightarrow> False)"

definition getPublicKey :: "'x method_lib_scheme \<Rightarrow> string \<Rightarrow> bytes result" where
  "getPublicKey L did =
     rbind (decodeIdentifier L did) (\<lambda>components.
       if dc_idType components \<noteq> ''KEY'' then invalid_did
       else newPublicKey L (dc_genesisBytes components))"

text \<open>\<open>DidBtcr2.create\<close>; \<open>None\<close> is an option that is absent.\<close>

definition createDid ::
  "'x method_lib_scheme \<Rightarrow> bytes \<Rightarrow> string option \<Rightarrow> int option \<Rightarrow> network_name option \<Rightarrow> string result" where
  "createDid L genesisBytes idType version network =
     (if \<not> truthy_str idType then Inl (Error ''MethodError'' ''INVALID_DID_DOCUMENT'')
      else encodeIdentifier L genesisBytes (the idType)
             (case version of None \<Rightarrow> 1 | Some v \<Rightarrow> v)
             (case network of None \<Rightarrow> NetName ''bitcoin'' | Some n \<Rightarrow> n))"

section \<open>Round trip\<close>

text \<open>What a decoded identifier satisfies.\<close>

definition components_ok :: "'x method_lib_scheme \<Rightarrow> DidComponents \<Rightarrow> bool" where
  "components_ok L c \<longleftrightarrow>
     dc_version c = 1 \<and>
     (dc_idType c = ''KEY'' \<and> dc_hrp c = ''k'' \<and> newPublicKey L (dc_genesisBytes c) = Inr (dc_genesisBytes c) \<or>
      dc_idType c = ''EXTERNAL'' \<and> dc_hrp c = ''x'' \<and> length (dc_genesisBytes c) = 32) \<and>
     (case dc_network c of NetName n \<Rightarrow> n \<in> set BitcoinNetworkNames | NetNumber k \<Rightarrow> 1 \<le> k \<and> k \<le> 3)"

lemma newPublicKey_Inr [simp]: "newPublicKey L k = Inr k' \<longleftrightarrow> k' = k \<and> length k = 33 \<and> secp_valid L k"
  by (auto simp: newPublicKey_def)

lemma newPublicKey_case:
  "(case newPublicKey L k of Inl _ \<Rightarrow> a | Inr _ \<Rightarrow> b) = (if length k = 33 \<and> secp_valid L k then b else a)"
  by (simp add: newPublicKey_def)

lemma decodeIdentifier_ok:
  assumes "decodeIdentifier L did = Inr c"
  shows "components_ok L c"
proof -
  have net: "decodeNetwork v = Some n \<Longrightarrow>
      (case n of NetName n \<Rightarrow> n \<in> set BitcoinNetworkNames | NetNumber k \<Rightarrow> 1 \<le> k \<and> k \<le> 3)" for v n
    by (auto simp: decodeNetwork_def split: if_splits)
  from assms show ?thesis
    unfolding decodeIdentifier_def newPublicKey_case Let_def
    by (auto simp: components_ok_def dest: net split: list.splits if_splits option.splits prod.splits)
qed

lemma list_index_Some: "list_index xs y = Some i \<Longrightarrow> i < length xs \<and> xs ! i = y"
  by (induction xs arbitrary: i) (auto split: if_splits)

lemma list_index_mem: "y \<in> set xs \<Longrightarrow> \<exists>i. list_index xs y = Some i"
  by (induction xs) auto

lemma network_byte:
  "v < 6 \<Longrightarrow> unat (drop_bit 4 (of_nat v :: byte)) = 0 \<and> unat (take_bit 4 (of_nat v :: byte)) = v"
proof -
  assume "v < 6"
  then have "v \<in> set [0..<6]" by simp
  moreover have "\<forall>v \<in> set [0..<6]. unat (drop_bit 4 (of_nat v :: byte)) = 0 \<and> unat (take_bit 4 (of_nat v :: byte)) = v"
    by code_simp
  ultimately show ?thesis by blast
qed

lemma split_did:
  "CHR '':'' \<notin> set s \<Longrightarrow> split_char (CHR '':'') (''did:btcr2:'' @ s) = [''did'', ''btcr2'', s]"
  by (simp add: split_char_no_sep)

lemma bech32m_simps:
  assumes "bech32m_ok L" "hrp \<in> {''k'', ''x''}" "length bs \<le> 34"
  shows "bech32m_decode L (bech32m_encode L hrp bs) = Some (hrp, bs)"
    "bech32m_encode L hrp bs \<noteq> []" "CHR '':'' \<notin> set (bech32m_encode L hrp bs)"
  using assms unfolding bech32m_ok_def by blast+

lemma decode_encoded:
  assumes "bech32m_ok L" "v < 6" "hrp \<in> {''k'', ''x''}"
    and "hrp = ''k'' \<Longrightarrow> length gb = 33 \<and> secp_valid L gb" "hrp = ''x'' \<Longrightarrow> length gb = 32"
  shows "decodeIdentifier L (''did:btcr2:'' @ bech32m_encode L hrp (of_nat v # gb)) =
     Inr \<lparr>dc_idType = (if hrp = ''k'' then ''KEY'' else ''EXTERNAL''), dc_hrp = hrp, dc_version = 1,
          dc_network = NetName (BitcoinNetworkNames ! v), dc_genesisBytes = gb\<rparr>"
proof -
  have "length (of_nat v # gb :: bytes) \<le> 34" using assms(3-5) by auto
  note enc = bech32m_simps [OF assms(1,3) this]
  have net: "decodeNetwork v = Some (NetName (BitcoinNetworkNames ! v))"
    using assms(2) by (simp add: decodeNetwork_def BitcoinNetworkNames_def)
  have keys: "hrp = ''k'' \<or> hrp = ''x''" using assms(3) by simp
  show ?thesis
    unfolding decodeIdentifier_def split_did [OF enc(3)] newPublicKey_case
    using enc network_byte [OF assms(2)] net keys assms(4,5)
    by (auto simp: Let_def)
qed

lemma encodeIdentifier_Inr:
  assumes "encodeIdentifier L gb idType version network = Inr did" "idType \<in> set IdentifierTypes"
  obtains name v where "network = NetName name" "networkEnumValue name = Some v" "version = 1"
    "did = ''did:btcr2:'' @ bech32m_encode L (if idType = ''KEY'' then ''k'' else ''x'') (of_nat v # gb)"
    "idType = ''KEY'' \<Longrightarrow> length gb = 33 \<and> secp_valid L gb" "idType \<noteq> ''KEY'' \<Longrightarrow> length gb = 32"
  using assms unfolding encodeIdentifier_def newPublicKey_case
  by (auto simp: Let_def split: if_splits option.splits network_name.splits)

end
