(* ===== verification/DidDocuments.thy ===== *)
theory DidDocuments
  imports DidIdentifier
begin

text \<open>
  DID documents: the class \<open>DidDocument\<close> and its validation
  (\<open>packages/method/src/utils/did-document.ts\<close>), the helpers of
  \<open>packages/method/src/utils/appendix.ts\<close> and \<open>DidBtcr2.getSigningMethod\<close>
  (\<open>packages/method/src/did-btcr2.ts\<close>). A document is the \<open>jsval\<close> of its JSON form; a throw of
  \<open>DidDocumentError\<close> with code \<open>INVALID_DID_DOCUMENT\<close> is \<open>invalid_document\<close>.
\<close>

abbreviation invalid_document :: "error + 'a" where
  "invalid_document \<equiv> Inl (Error ''DidDocumentError'' ''INVALID_DID_DOCUMENT'')"

section \<open>Percent encoding\<close>

text \<open>\<open>encodeURIComponent\<close> and \<open>decodeURIComponent\<close> on strings held as UTF-8 bytes.\<close>

definition uri_unreserved :: "char \<Rightarrow> bool" where
  "uri_unreserved c =
     (let n = of_char c :: nat in
      48 \<le> n \<and> n \<le> 57 \<or> 65 \<le> n \<and> n \<le> 90 \<or> 97 \<le> n \<and> n \<le> 122 \<or> c \<in> set ''-_.!~*()'' \<or> n = 39)"

definition upper_hex_byte :: "nat \<Rightarrow> string" where
  "upper_hex_byte n = [''0123456789ABCDEF'' ! (n div 16), ''0123456789ABCDEF'' ! (n mod 16)]"

definition encodeURIComponent :: "string \<Rightarrow> string" where
  "encodeURIComponent s =
     concat (map (\<lambda>c. if uri_unreserved c then [c]
                      else CHR ''%'' # upper_hex_byte (of_char c)) s)"

fun percent_decode :: "string \<Rightarrow> string option" where
  "percent_decode [] = Some []"
| "percent_decode (c # s) =
     (if c \<noteq> CHR ''%'' then map_option (Cons c) (percent_decode s)
      else case s of
        a # b # r \<Rightarrow>
          (if is_hex a \<and> is_hex b
           then map_option (Cons (char_of (hex_to_nat [a, b]))) (percent_decode r) else None)
      | _ \<Rightarrow> None)"

definition cont_byte :: "nat \<Rightarrow> bool" where "cont_byte n \<longleftrightarrow> 128 \<le> n \<and> n < 192"

fun valid_utf8 :: "nat list \<Rightarrow> bool" where
  "valid_utf8 [] = True"
| "valid_utf8 (a # r) =
     (if a < 128 then valid_utf8 r
      else if 194 \<le> a \<and> a < 224 then
        (case r of b # r \<Rightarrow> cont_byte b \<and> valid_utf8 r | _ \<Rightarrow> False)
      else if 224 \<le> a \<and> a < 240 then
        (case r of b # c # r \<Rightarrow>
           cont_byte b \<and> cont_byte c \<and> (a = 224 \<longrightarrow> 160 \<le> b) \<and> (a = 237 \<longrightarrow> b < 160) \<and> valid_utf8 r
         | _ \<Rightarrow> False)
      else if 240 \<le> a \<and> a < 245 then
        (case r of b # c # d # r \<Rightarrow>
           cont_byte b \<and> cont_byte c \<and> cont_byte d \<and> (a = 240 \<longrightarrow> 144 \<le> b) \<and> (a = 244 \<longrightarrow> b < 144) \<and>
           valid_utf8 r
         | _ \<Rightarrow> False)
      else False)"

definition decodeURIComponent :: "string \<Rightarrow> string result" where
  "decodeURIComponent s =
     (case percent_decode s of
        Some t \<Rightarrow> if valid_utf8 (map of_char t) then Inr t else Inl (Error ''URIError'' '''')
      | None \<Rightarrow> Inl (Error ''URIError'' ''''))"

section \<open>Appendix\<close>

definition extractDidFragment :: "jsval \<Rightarrow> string option" where
  "extractDidFragment input = (case input of JStr s \<Rightarrow> if s = [] then None else Some s | _ \<Rightarrow> None)"

definition isDidVerificationMethod :: "jsval \<Rightarrow> bool" where
  "isDidVerificationMethod obj =
     (if \<not> truthy obj \<or> \<not> typeof_object obj then False
      else if \<not> is_string (js_prop_opt obj ''id'') then False
      else if \<not> is_string (js_prop_opt obj ''type'') then False
      else if \<not> is_string (js_prop_opt obj ''controller'') then False
      else True)"

definition isDidService :: "jsval \<Rightarrow> bool" where
  "isDidService obj =
     (if \<not> truthy obj \<or> \<not> typeof_object obj then False
      else if \<not> is_string (js_prop_opt obj ''id'') then False
      else if \<not> is_string (js_prop_opt obj ''type'') then False
      else if \<not> is_string (js_prop_opt obj ''serviceEndpoint'') then False
      else True)"

record RootCapability =
  rc_id :: string
  rc_controller :: string
  rc_invocationTarget :: string

definition deriveRootCapability :: "string \<Rightarrow> RootCapability" where
  "deriveRootCapability identifier =
     \<lparr>rc_id = ''urn:zcap:root:'' @ encodeURIComponent identifier, rc_controller = identifier,
      rc_invocationTarget = identifier\<rparr>"

text \<open>Destructuring the parts of a split string: a part that is not there is \<open>undefined\<close>, which
  \<open>decodeURIComponent\<close> turns into the string \<open>''undefined''\<close>. The length test on the array of the
  four variables never fails.\<close>

definition dereferenceZcapId :: "string \<Rightarrow> RootCapability result" where
  "dereferenceZcapId capabilityId =
     (let parts = split_char (CHR '':'') capabilityId;
          part = (\<lambda>i. if i < length parts then Some (parts ! i) else None);
          err = Inl (Error ''DidError'' ''invalidDid'')
      in if part 0 \<noteq> Some ''urn'' then err
         else if part 1 \<noteq> Some ''zcap'' then err
         else if part 2 \<noteq> Some ''root'' then err
         else rbind (decodeURIComponent (case part 3 of Some did \<Rightarrow> did | None \<Rightarrow> ''undefined'')) (\<lambda>identifier.
           Inr \<lparr>rc_id = capabilityId, rc_controller = identifier, rc_invocationTarget = identifier\<rparr>))"

section \<open>Validation\<close>

definition BTCR2_DID_DOCUMENT_CONTEXT :: "string list" where
  "BTCR2_DID_DOCUMENT_CONTEXT = [''https://www.w3.org/ns/did/v1.1'', ''https://btcr2.dev/context/v1'']"

definition ID_PLACEHOLDER_VALUE :: string where "ID_PLACEHOLDER_VALUE = ''did:btcr2:_''"

definition isMultikeyVerificationMethod :: "jsval \<Rightarrow> bool" where
  "isMultikeyVerificationMethod vm =
     (if \<not> isDidVerificationMethod vm then False
      else js_prop_opt vm ''type'' = JStr ''Multikey'' \<and>
           (case js_prop_opt vm ''publicKeyMultibase'' of JStr s \<Rightarrow> starts_with ''zQ3s'' s | _ \<Rightarrow> False))"

definition isValidContext :: "jsval \<Rightarrow> bool" where
  "isValidContext ctx = (case ctx of
      JArr xs \<Rightarrow> xs \<noteq> [] \<and> list_all (\<lambda>required. JStr required \<in> set xs) BTCR2_DID_DOCUMENT_CONTEXT
    | _ \<Rightarrow> False)"

definition isValidId :: "'x method_lib_scheme \<Rightarrow> jsval \<Rightarrow> bool" where
  "isValidId L i = (case i of JStr s \<Rightarrow> isValidIdentifier L s | _ \<Rightarrow> False)"

definition isValidVerificationMethods :: "jsval \<Rightarrow> bool" where
  "isValidVerificationMethods v = (case v of JArr xs \<Rightarrow> list_all isMultikeyVerificationMethod xs | _ \<Rightarrow> False)"

definition isValidServices :: "'x method_lib_scheme \<Rightarrow> jsval \<Rightarrow> bool" where
  "isValidServices L v = (case v of JArr xs \<Rightarrow> list_all (web5_isDidService L) xs | _ \<Rightarrow> False)"

definition verificationRelationships :: "string list" where
  "verificationRelationships =
     [''authentication'', ''assertionMethod'', ''capabilityInvocation'', ''capabilityDelegation'']"

definition isValidVerificationRelationships :: "jsval \<Rightarrow> bool" where
  "isValidVerificationRelationships doc =
     list_all (\<lambda>key. case js_prop_opt doc key of
         JArr entries \<Rightarrow> list_all (\<lambda>e. is_string e \<or> isDidVerificationMethod e) entries
       | _ \<Rightarrow> False)
       (filter (js_has_own doc) verificationRelationships)"

definition isValidDocument :: "'x method_lib_scheme \<Rightarrow> jsval \<Rightarrow> unit result" where
  "isValidDocument L doc =
     (if \<not> isValidContext (js_prop_opt doc ''@context'') then invalid_document
      else if \<not> isValidId L (js_prop_opt doc ''id'') then invalid_document
      else if \<not> isValidVerificationMethods (js_prop_opt doc ''verificationMethod'') then invalid_document
      else if \<not> isValidServices L (js_prop_opt doc ''service'') then invalid_document
      else if \<not> isValidVerificationRelationships doc then invalid_document
      else Inr ())"

text \<open>\<open>validate\<close> of a document that came out of a patch or a parse: it has no \<open>validateGenesis\<close>
  method, so a genesis id makes it throw.\<close>

definition validateDocument :: "'x method_lib_scheme \<Rightarrow> jsval \<Rightarrow> jsval result" where
  "validateDocument L doc =
     rbind (js_prop doc ''id'') (\<lambda>i.
       if i = JStr ID_PLACEHOLDER_VALUE then type_error
       else rbind (isValidDocument L doc) (\<lambda>_. Inr doc))"

text \<open>\<open>vm.id.includes(...)\<close> throws when \<open>id\<close> is not a string; \<open>every\<close> stops at the first false.\<close>

fun everyR :: "('a \<Rightarrow> bool result) \<Rightarrow> 'a list \<Rightarrow> bool result" where
  "everyR f [] = Inr True"
| "everyR f (x # xs) = rbind (f x) (\<lambda>b. if b then everyR f xs else Inr False)"

definition id_includes_placeholder :: "jsval \<Rightarrow> bool result" where
  "id_includes_placeholder v =
     rbind (js_prop v ''id'') (\<lambda>i. case i of JStr s \<Rightarrow> Inr (includes_str ID_PLACEHOLDER_VALUE s) | _ \<Rightarrow> type_error)"

definition elements :: "jsval \<Rightarrow> jsval list" where
  "elements v = (case v of JArr xs \<Rightarrow> xs | _ \<Rightarrow> [])"

definition validateGenesis :: "jsval \<Rightarrow> unit result" where
  "validateGenesis doc =
     (if js_prop_opt doc ''id'' \<noteq> JStr ID_PLACEHOLDER_VALUE then invalid_document
      else rbind (everyR (\<lambda>vm. rbind (id_includes_placeholder vm)
                   (\<lambda>b. Inr (b \<and> js_prop_opt vm ''controller'' = JStr ID_PLACEHOLDER_VALUE)))
                 (elements (js_prop_opt doc ''verificationMethod''))) (\<lambda>b.
           if \<not> b then invalid_document
           else rbind (everyR id_includes_placeholder (elements (js_prop_opt doc ''service''))) (\<lambda>b.
             if \<not> b then invalid_document
             else if \<not> isValidVerificationRelationships doc then invalid_document
             else Inr ())))"

section \<open>The constructor\<close>

definition js_or :: "jsval \<Rightarrow> jsval \<Rightarrow> jsval" where "js_or a b = (if truthy a then a else b)"

definition sanitizeDocument :: "(string \<times> jsval) list \<Rightarrow> (string \<times> jsval) list" where
  "sanitizeDocument kvs = filter (\<lambda>(_, v). v \<noteq> JUndef) kvs"

definition documentFields :: "string \<Rightarrow> jsval \<Rightarrow> (string \<times> jsval) list" where
  "documentFields docId document =
     (let get = js_prop_opt document;
          keyRef = (if includes_str ''k1'' docId then JArr [JStr (docId @ ''#initialKey'')] else JUndef);
          rel = (\<lambda>k. if includes_str ''k1'' docId then js_or (get k) keyRef else get k)
      in [(''id'', JStr docId),
          (''@context'', js_or (get ''@context'') (JArr (map JStr BTCR2_DID_DOCUMENT_CONTEXT))),
          (''verificationMethod'', js_or (get ''verificationMethod'') (JArr [])),
          (''authentication'', rel ''authentication''),
          (''assertionMethod'', rel ''assertionMethod''),
          (''capabilityInvocation'', rel ''capabilityInvocation''),
          (''capabilityDelegation'', rel ''capabilityDelegation''),
          (''service'', js_or (get ''service'') (JArr []))])"

definition newDidDocument :: "'x method_lib_scheme \<Rightarrow> jsval \<Rightarrow> jsval result" where
  "newDidDocument L document =
     rbind (js_prop document ''id'') (\<lambda>docId.
       if \<not> truthy docId then invalid_document
       else case docId of
         JStr s \<Rightarrow>
           let isGenesis = (s = ID_PLACEHOLDER_VALUE);
               doc = JObj (sanitizeDocument (documentFields s document))
           in if \<not> isGenesis \<and> \<not> isValidId L docId then invalid_document
              else if \<not> isGenesis \<and> \<not> isValidVerificationMethods (js_prop_opt document ''verificationMethod'')
              then invalid_document
              else if \<not> isGenesis \<and> \<not> isValidServices L (js_prop_opt document ''service'') then invalid_document
              else if isGenesis then rbind (validateGenesis doc) (\<lambda>_. Inr doc)
              else validateDocument L doc
       | JArr _ \<Rightarrow> invalid_document
       | _ \<Rightarrow> type_error)"

section \<open>The signing method\<close>

fun findR :: "('a \<Rightarrow> bool result) \<Rightarrow> 'a list \<Rightarrow> 'a option result" where
  "findR f [] = Inr None"
| "findR f (x # xs) = rbind (f x) (\<lambda>b. if b then Inr (Some x) else findR f xs)"

definition first_element :: "jsval \<Rightarrow> jsval" where
  "first_element v = (case v of JArr (x # _) \<Rightarrow> x | _ \<Rightarrow> JUndef)"

definition getSigningMethod :: "'x method_lib_scheme \<Rightarrow> jsval \<Rightarrow> jsval \<Rightarrow> jsval result" where
  "getSigningMethod L didDocument methodId =
     (let methodId = (if methodId = JUndef \<or> methodId = JNull then JStr ''#initialKey'' else methodId);
          wanted = (case extractDidFragment methodId of
                      Some f \<Rightarrow> Some f
                    | None \<Rightarrow> extractDidFragment (first_element (js_prop_opt didDocument ''assertionMethod'')));
          parsed = (case js_prop_opt didDocument ''id'' of JStr s \<Rightarrow> did_method_of L s | _ \<Rightarrow> None);
          none = Inl (Error ''DidError'' ''internalError'')
      in if parsed \<noteq> None \<and> parsed \<noteq> Some ''btcr2'' then Inl (Error ''MethodError'' ''METHOD_NOT_SUPPORTED'')
         else rbind (findR (\<lambda>vm. rbind (js_prop vm ''id'') (\<lambda>i. Inr (extractDidFragment i = wanted)))
                       (elements (js_prop_opt didDocument ''verificationMethod''))) (\<lambda>found.
           case found of
             None \<Rightarrow> none
           | Some vm \<Rightarrow> if truthy (js_prop_opt vm ''publicKeyMultibase'') then Inr vm else none))"

section \<open>Lemmas\<close>

lemma findR_Some:
  "findR f xs = Inr (Some x) \<Longrightarrow> x \<in> set xs \<and> f x = Inr True"
  by (induction xs) (auto simp: rbind_Inr_iff split: if_splits)

lemma getSigningMethod_Inr:
  assumes "getSigningMethod L doc (JStr m) = Inr vm" "m \<noteq> []"
  shows "vm \<in> set (elements (js_prop_opt doc ''verificationMethod'')) \<and> js_prop_opt vm ''id'' = JStr m \<and>
     truthy (js_prop_opt vm ''publicKeyMultibase'')"
proof -
  from assms have "findR (\<lambda>vm. rbind (js_prop vm ''id'') (\<lambda>i. Inr (extractDidFragment i = Some m)))
      (elements (js_prop_opt doc ''verificationMethod'')) = Inr (Some vm)"
    and t: "truthy (js_prop_opt vm ''publicKeyMultibase'')"
    by (auto simp: getSigningMethod_def Let_def rbind_Inr_iff extractDidFragment_def
          split: if_splits option.splits)
  from findR_Some [OF this(1)] t show ?thesis
    by (cases vm) (auto simp: rbind_Inr_iff js_prop_def js_prop_opt_def extractDidFragment_def
        split: jsval.splits if_splits)
qed

lemma isValidDocument_Inr [simp]:
  "isValidDocument L doc = Inr u \<longleftrightarrow>
     isValidContext (js_prop_opt doc ''@context'') \<and> isValidId L (js_prop_opt doc ''id'') \<and>
     isValidVerificationMethods (js_prop_opt doc ''verificationMethod'') \<and>
     isValidServices L (js_prop_opt doc ''service'') \<and> isValidVerificationRelationships doc"
  by (simp add: isValidDocument_def)

lemma validateDocument_Inr:
  "validateDocument L doc = Inr doc' \<longleftrightarrow>
     doc' = doc \<and> isValidDocument L doc = Inr () \<and> js_prop_opt doc ''id'' \<noteq> JStr ID_PLACEHOLDER_VALUE"
  by (cases doc) (auto simp: validateDocument_def rbind_Inr_iff js_prop_opt_def isValidId_def js_prop_def
      split: if_splits)

section \<open>Root capabilities\<close>

lemma upper_hex_value:
  "k < 16 \<Longrightarrow> hex_value (''0123456789ABCDEF'' ! k) = Some k"
proof -
  have "list_all (\<lambda>k. hex_value (''0123456789ABCDEF'' ! k) = Some k) [0..<16]" by (simp add: upt_rec hex_value_def)
  then show "k < 16 \<Longrightarrow> ?thesis" by (simp add: list_all_iff)
qed

lemma percent_byte:
  obtains a b where "upper_hex_byte (of_char c) = [a, b]" "is_hex a" "is_hex b"
    "char_of (hex_to_nat [a, b]) = c"
proof
  let ?n = "of_char c :: nat"
  have "?n < 256" by simp
  then have lt: "?n div 16 < 16" "?n mod 16 < 16" by (simp_all add: less_mult_imp_div_less)
  show "upper_hex_byte ?n = [''0123456789ABCDEF'' ! (?n div 16), ''0123456789ABCDEF'' ! (?n mod 16)]"
    by (rule upper_hex_byte_def)
  show "is_hex (''0123456789ABCDEF'' ! (?n div 16))" "is_hex (''0123456789ABCDEF'' ! (?n mod 16))"
    unfolding is_hex_def upper_hex_value [OF lt(1)] upper_hex_value [OF lt(2)] by simp_all
  show "char_of (hex_to_nat [''0123456789ABCDEF'' ! (?n div 16), ''0123456789ABCDEF'' ! (?n mod 16)]) = c"
    unfolding hex_to_nat_def foldl.simps upper_hex_value [OF lt(1)] upper_hex_value [OF lt(2)] by simp
qed

lemma percent_decode_encode: "percent_decode (encodeURIComponent s) = Some s"
proof (induction s)
  case (Cons c s)
  have step: "encodeURIComponent (c # s) =
      (if uri_unreserved c then [c] else CHR ''%'' # upper_hex_byte (of_char c)) @ encodeURIComponent s"
    by (simp add: encodeURIComponent_def)
  show ?case
  proof (cases "uri_unreserved c")
    case True
    moreover have "\<not> uri_unreserved (CHR ''%'')" by code_simp
    ultimately have "c \<noteq> CHR ''%''" by auto
    with True Cons show ?thesis by (simp add: step)
  next
    case False
    obtain a b where "upper_hex_byte (of_char c) = [a, b]" "is_hex a" "is_hex b"
      "char_of (hex_to_nat [a, b]) = c" by (rule percent_byte)
    with False Cons show ?thesis by (simp add: step)
  qed
qed (simp add: encodeURIComponent_def)

lemma colon_not_encoded: "CHR '':'' \<notin> set (encodeURIComponent s)"
proof
  assume "CHR '':'' \<in> set (encodeURIComponent s)"
  then obtain c where c: "CHR '':'' \<in> set (if uri_unreserved c then [c]
      else CHR ''%'' # upper_hex_byte (of_char c))"
    unfolding encodeURIComponent_def set_concat set_map by blast
  have no: "\<not> uri_unreserved (CHR '':'')" "\<not> is_hex (CHR '':'')" by code_simp+
  obtain a b where "upper_hex_byte (of_char c) = [a, b]" "is_hex a" "is_hex b"
    by (rule percent_byte)
  with c no show False by (auto split: if_splits)
qed

lemma dereference_derived:
  assumes "valid_utf8 (map of_char identifier)"
  shows "dereferenceZcapId (rc_id (deriveRootCapability identifier)) =
     Inr (deriveRootCapability identifier)"
proof -
  have "split_char (CHR '':'') (''urn:zcap:root:'' @ encodeURIComponent identifier) =
      [''urn'', ''zcap'', ''root'', encodeURIComponent identifier]"
    by (simp add: split_char_no_sep [OF colon_not_encoded])
  with assms show ?thesis
    by (simp add: dereferenceZcapId_def deriveRootCapability_def decodeURIComponent_def
          percent_decode_encode Let_def)
qed

lemma valid_utf8_ascii: "list_all (\<lambda>n. n < 128) ns \<Longrightarrow> valid_utf8 ns"
  by (induction ns) simp_all

end
