(* ===== verification/SmtZeroHash.thy ===== *)
theory SmtZeroHash
  imports SmtHash
begin

unbundle bit_operations_syntax

text \<open>
  The zero-hash sparse Merkle tree of \<open>packages/smt/src/zero-hash.ts\<close>: 256 levels, an empty
  subtree contributes a precomputed hash, every level is hashed. \<open>subtreeHash\<close> builds a root from
  the leaves, \<open>generateZeroHashProof\<close> emits the collapsed bitmap and the non-empty siblings of a
  leaf, \<open>verifyZeroHash\<close> recomputes the root. The lemmas show that a generated proof verifies and
  that, SHA-256 having no collision on the blocks that are hashed, a proof that verifies is a
  proof of the leaf the tree holds at that index.
\<close>

definition TREE_DEPTH :: nat where "TREE_DEPTH = HASH_BIT_LENGTH"

definition bitAt :: "int \<Rightarrow> nat \<Rightarrow> int" where
  "bitAt index position = drop_bit position index AND 1"

text \<open>\<open>CACHED_ZERO[h]\<close> is the value of the loop variable \<open>z\<close> after \<open>h + 1\<close> rounds.\<close>

primrec CACHED_ZERO :: "'x hash_lib_scheme \<Rightarrow> nat \<Rightarrow> bytes" where
  "CACHED_ZERO L 0 =
     (let z = replicate HASH_BYTE_LENGTH 0 in blockHash L [z, z])"
| "CACHED_ZERO L (Suc h) = (let z = CACHED_ZERO L h in blockHash L [z, z])"

record ZeroHashEntry =
  ze_index :: int
  ze_leaf :: bytes

record ZeroHashProof =
  zp_collapsed :: int
  zp_hashes :: "bytes list"

fun subtreeHash :: "'x hash_lib_scheme \<Rightarrow> ZeroHashEntry list \<Rightarrow> nat \<Rightarrow> bytes" where
  "subtreeHash L leaves 0 =
     (case leaves of [] \<Rightarrow> CACHED_ZERO L 0 | e # _ \<Rightarrow> ze_leaf e)"
| "subtreeHash L leaves (Suc h) =
     (if leaves = [] then CACHED_ZERO L (Suc h)
      else let pos = TREE_DEPTH - Suc h;
               left = filter (\<lambda>e. bitAt (ze_index e) pos = 0) leaves;
               right = filter (\<lambda>e. bitAt (ze_index e) pos \<noteq> 0) leaves
           in blockHash L [subtreeHash L left h, subtreeHash L right h])"

definition zeroHashRoot :: "'x hash_lib_scheme \<Rightarrow> ZeroHashEntry list \<Rightarrow> bytes" where
  "zeroHashRoot L leaves = subtreeHash L leaves TREE_DEPTH"

definition siblingLeaves :: "ZeroHashEntry list \<Rightarrow> int \<Rightarrow> nat \<Rightarrow> ZeroHashEntry list" where
  "siblingLeaves leaves targetIndex pos =
     filter (\<lambda>e. ze_index e \<noteq> targetIndex \<and>
                 list_all (\<lambda>lower. bitAt (ze_index e) lower = bitAt targetIndex lower) [0..<pos] \<and>
                 bitAt (ze_index e) pos \<noteq> bitAt targetIndex pos) leaves"

definition genStep ::
  "'x hash_lib_scheme \<Rightarrow> ZeroHashEntry list \<Rightarrow> int \<Rightarrow> nat \<Rightarrow> ZeroHashProof \<Rightarrow> ZeroHashProof" where
  "genStep L leaves targetIndex height p =
     (let pos = TREE_DEPTH - height;
          sib = siblingLeaves leaves targetIndex pos
      in if sib = [] then p\<lparr>zp_collapsed := zp_collapsed p OR push_bit pos 1\<rparr>
         else p\<lparr>zp_hashes := zp_hashes p @ [subtreeHash L sib (height - 1)]\<rparr>)"

definition generateZeroHashProof ::
  "'x hash_lib_scheme \<Rightarrow> ZeroHashEntry list \<Rightarrow> int \<Rightarrow> ZeroHashProof" where
  "generateZeroHashProof L leaves targetIndex =
     fold (genStep L leaves targetIndex) [1..<Suc TREE_DEPTH] \<lparr>zp_collapsed = 0, zp_hashes = []\<rparr>"

text \<open>One round of the verifier's loop; \<open>None\<close> is the early \<open>return false\<close> when no sibling is
  left. The unread part of \<open>hashes\<close> stands for \<open>hashPtr\<close>.\<close>

definition verifyStep ::
  "'x hash_lib_scheme \<Rightarrow> int \<Rightarrow> int \<Rightarrow> nat \<Rightarrow> bytes list \<times> bytes \<Rightarrow> (bytes list \<times> bytes) option" where
  "verifyStep L collapsed index n = (\<lambda>(hashes, acc).
     let i = TREE_DEPTH - 1 - n;
         combine = (\<lambda>sibling. if bitAt index i = 1 then blockHash L [sibling, acc]
                              else blockHash L [acc, sibling])
     in if drop_bit i collapsed AND 1 = 1 then Some (hashes, combine (CACHED_ZERO L n))
        else (case hashes of
                [] \<Rightarrow> None
              | sibling # hashes \<Rightarrow> Some (hashes, combine sibling)))"

fun verifyLoop ::
  "'x hash_lib_scheme \<Rightarrow> int \<Rightarrow> int \<Rightarrow> nat list \<Rightarrow> bytes list \<times> bytes
     \<Rightarrow> (bytes list \<times> bytes) option" where
  "verifyLoop L collapsed index [] s = Some s"
| "verifyLoop L collapsed index (n # ns) s =
     (case verifyStep L collapsed index n s of
        None \<Rightarrow> None
      | Some s' \<Rightarrow> verifyLoop L collapsed index ns s')"

definition verifyZeroHash ::
  "'x hash_lib_scheme \<Rightarrow> int \<Rightarrow> bytes list \<Rightarrow> int \<Rightarrow> bytes \<Rightarrow> bytes \<Rightarrow> bool" where
  "verifyZeroHash L collapsed hashes index candidate root =
     (case verifyLoop L collapsed index [0..<TREE_DEPTH] (hashes, candidate) of
        None \<Rightarrow> False
      | Some (rest, acc) \<Rightarrow> rest = [] \<and> hashesEqual acc root)"

section \<open>Bits\<close>

lemma bitAt_eq: "bitAt v i = of_bool (bit v i)"
  by (simp add: bitAt_def bit_iff_odd_drop_bit and_one_eq mod_2_eq_odd)

lemma bitAt_simps [simp]:
  "bitAt v i = 1 \<longleftrightarrow> bit v i" "bitAt v i = 0 \<longleftrightarrow> \<not> bit v i"
  "bitAt v i = bitAt w i \<longleftrightarrow> (bit v i \<longleftrightarrow> bit w i)"
  by (simp_all add: bitAt_eq)

lemma collapsed_bit [simp]: "(drop_bit i v AND 1 = (1::int)) \<longleftrightarrow> bit v i"
  using bitAt_simps(1) [of v i] by (simp add: bitAt_def)

lemma take_bit_all_below:
  "(\<forall>k < n. bit (v::int) k \<longleftrightarrow> bit w k) \<longleftrightarrow> take_bit n v = take_bit n w"
  by (auto simp: bit_eq_iff [where ?'a = int] bit_take_bit_iff)

lemma take_bit_step:
  "take_bit (Suc n) (v::int) = take_bit (Suc n) w \<longleftrightarrow> take_bit n v = take_bit n w \<and> (bit v n \<longleftrightarrow> bit w n)"
  unfolding take_bit_all_below [symmetric] by (auto simp: less_Suc_eq)

text \<open>The leaves whose index agrees with \<open>t\<close> on the lowest \<open>d\<close> bits: the subtree at depth \<open>d\<close> on
  the path of \<open>t\<close>.\<close>

definition path_leaves :: "ZeroHashEntry list \<Rightarrow> int \<Rightarrow> nat \<Rightarrow> ZeroHashEntry list" where
  "path_leaves leaves t d = filter (\<lambda>e. take_bit d (ze_index e) = take_bit d t) leaves"

lemma path_leaves_0 [simp]: "path_leaves leaves t 0 = leaves"
  by (simp add: path_leaves_def)

lemma path_leaves_Suc:
  "path_leaves leaves t (Suc d) =
     filter (\<lambda>e. bit (ze_index e) d \<longleftrightarrow> bit t d) (path_leaves leaves t d)"
  unfolding path_leaves_def filter_filter
  by (rule filter_cong) (auto simp: take_bit_step)

lemma siblingLeaves_eq:
  "siblingLeaves leaves t d =
     filter (\<lambda>e. bit (ze_index e) d \<noteq> bit t d) (path_leaves leaves t d)"
  unfolding siblingLeaves_def path_leaves_def filter_filter
  by (rule filter_cong) (auto simp: list_all_iff simp flip: take_bit_all_below)

text \<open>The subtree on the path splits into the next subtree on the path and its sibling.\<close>

lemma subtreeHash_Nil [simp]: "subtreeHash L [] h = CACHED_ZERO L h"
  by (cases h) simp_all

lemma subtreeHash_split:
  "subtreeHash L ls (Suc h) =
     (let pos = TREE_DEPTH - Suc h in
      blockHash L [subtreeHash L (filter (\<lambda>e. \<not> bit (ze_index e) pos) ls) h,
                   subtreeHash L (filter (\<lambda>e. bit (ze_index e) pos) ls) h])"
  by (cases "ls = []") (simp_all add: Let_def)

definition combine_at :: "'x hash_lib_scheme \<Rightarrow> int \<Rightarrow> nat \<Rightarrow> bytes \<Rightarrow> bytes \<Rightarrow> bytes" where
  "combine_at L t d acc sib = (if bit t d then blockHash L [sib, acc] else blockHash L [acc, sib])"

lemma subtreeHash_path:
  assumes "d < TREE_DEPTH"
  shows "subtreeHash L (path_leaves ls t d) (TREE_DEPTH - d) =
     combine_at L t d (subtreeHash L (path_leaves ls t (Suc d)) (TREE_DEPTH - Suc d))
                      (subtreeHash L (siblingLeaves ls t d) (TREE_DEPTH - Suc d))"
proof -
  have "TREE_DEPTH - d = Suc (TREE_DEPTH - Suc d)" "TREE_DEPTH - Suc (TREE_DEPTH - Suc d) = d"
    using assms by simp_all
  then show ?thesis
    by (auto simp: subtreeHash_split Let_def combine_at_def path_leaves_Suc siblingLeaves_eq)
qed

section \<open>The generated proof, level by level\<close>

definition level_hashes :: "'x hash_lib_scheme \<Rightarrow> ZeroHashEntry list \<Rightarrow> int \<Rightarrow> nat \<Rightarrow> bytes list" where
  "level_hashes L leaves t n =
     (let sib = siblingLeaves leaves t (TREE_DEPTH - Suc n)
      in if sib = [] then [] else [subtreeHash L sib n])"

definition gen_after :: "'x hash_lib_scheme \<Rightarrow> ZeroHashEntry list \<Rightarrow> int \<Rightarrow> nat \<Rightarrow> ZeroHashProof" where
  "gen_after L ls t k = fold (genStep L ls t) [1..<Suc k] \<lparr>zp_collapsed = 0, zp_hashes = []\<rparr>"

lemma gen_after_simps [simp]:
  "gen_after L ls t 0 = \<lparr>zp_collapsed = 0, zp_hashes = []\<rparr>"
  "gen_after L ls t (Suc k) = genStep L ls t (Suc k) (gen_after L ls t k)"
  by (simp_all add: gen_after_def)

lemma generate_gen_after: "generateZeroHashProof L ls t = gen_after L ls t TREE_DEPTH"
  by (simp add: generateZeroHashProof_def gen_after_def)

lemma gen_after_hashes:
  "zp_hashes (gen_after L ls t k) = concat (map (level_hashes L ls t) [0..<k])"
  by (induction k) (simp_all add: genStep_def level_hashes_def Let_def)

lemma gen_after_collapsed:
  "k \<le> TREE_DEPTH \<Longrightarrow>
   bit (zp_collapsed (gen_after L ls t k)) i \<longleftrightarrow>
     TREE_DEPTH - k \<le> i \<and> i < TREE_DEPTH \<and> siblingLeaves ls t i = []"
proof (induction k)
  case (Suc k)
  have range: "TREE_DEPTH - Suc k \<le> i \<longleftrightarrow> TREE_DEPTH - k \<le> i \<or> i = TREE_DEPTH - Suc k"
    using Suc.prems by auto
  have top: "TREE_DEPTH - Suc k < TREE_DEPTH"
    using Suc.prems by simp

  have "bit (zp_collapsed (genStep L ls t (Suc k) p)) i \<longleftrightarrow>
      bit (zp_collapsed p) i \<or>
      (i = TREE_DEPTH - Suc k \<and> siblingLeaves ls t (TREE_DEPTH - Suc k) = [])" for p
    by (simp add: genStep_def Let_def bit_or_iff bit_exp_iff)
  then show ?case
    unfolding gen_after_simps range using Suc top by auto
qed auto

lemma generateZeroHashProof_collapsed:
  "i < TREE_DEPTH \<Longrightarrow>
     bit (zp_collapsed (generateZeroHashProof L ls t)) i \<longleftrightarrow> siblingLeaves ls t i = []"
  by (simp add: generate_gen_after gen_after_collapsed)

lemma generateZeroHashProof_hashes:
  "zp_hashes (generateZeroHashProof L ls t) = concat (map (level_hashes L ls t) [0..<TREE_DEPTH])"
  by (simp add: generate_gen_after gen_after_hashes)

lemma generateZeroHashProof_range:
  "0 \<le> zp_collapsed (generateZeroHashProof L ls t)"
  "zp_collapsed (generateZeroHashProof L ls t) < 2 ^ 256"
proof -
  let ?c = "zp_collapsed (generateZeroHashProof L ls t)"
  have "take_bit TREE_DEPTH ?c = ?c"
    unfolding bit_eq_iff [where ?'a = int] bit_take_bit_iff generate_gen_after
    by (auto simp: gen_after_collapsed)
  then show "0 \<le> ?c" "?c < 2 ^ 256"
    unfolding TREE_DEPTH_def HASH_BIT_LENGTH_def
    by (metis take_bit_nonnegative, metis take_bit_int_less_exp)
qed

section \<open>A generated proof verifies\<close>

lemma verifyLoop_generated:
  assumes "k \<le> TREE_DEPTH"
  shows "verifyLoop L (zp_collapsed (generateZeroHashProof L ls t)) t [k..<TREE_DEPTH]
           (concat (map (level_hashes L ls t) [k..<TREE_DEPTH]),
            subtreeHash L (path_leaves ls t (TREE_DEPTH - k)) k) =
         Some ([], zeroHashRoot L ls)"
  using assms
proof (induction rule: inc_induct)
  case base
  show ?case by (simp add: zeroHashRoot_def)
next
  case (step n)
  let ?d = "TREE_DEPTH - Suc n"
  have d: "?d < TREE_DEPTH" "TREE_DEPTH - ?d = Suc n" "TREE_DEPTH - n = Suc ?d"
    "TREE_DEPTH - Suc ?d = n"
    using step(2) by simp_all
  have up: "[n..<TREE_DEPTH] = n # [Suc n..<TREE_DEPTH]"
    using step(2) by (simp add: upt_conv_Cons)
  have "subtreeHash L (path_leaves ls t ?d) (Suc n) =
    combine_at L t ?d (subtreeHash L (path_leaves ls t (TREE_DEPTH - n)) n)
      (subtreeHash L (siblingLeaves ls t ?d) n)"
    using subtreeHash_path [OF d(1), of L ls t] by (simp only: d)
  then show ?case
    using step(3) generateZeroHashProof_collapsed [OF d(1), of L ls t]
    by (auto simp: up verifyStep_def Let_def level_hashes_def combine_at_def)
qed

lemma path_leaves_full:
  assumes "e \<in> set ls" "distinct (map ze_index ls)" "\<forall>e \<in> set ls. 0 \<le> ze_index e \<and> ze_index e < 2 ^ 256"
  shows "path_leaves ls (ze_index e) TREE_DEPTH = [e]"
proof -
  have "path_leaves ls (ze_index e) TREE_DEPTH = filter (\<lambda>x. ze_index x = ze_index e) ls"
    using assms(1,3) unfolding path_leaves_def TREE_DEPTH_def HASH_BIT_LENGTH_def
    by (intro filter_cong) (auto simp: take_bit_int_eq_self_iff [THEN iffD2])
  also have "\<dots> = [e]"
    using assms(1,2)
  proof (induction ls)
    case (Cons x xs)
    show ?case
    proof (cases "x = e")
      case True
      with Cons.prems(2) have "filter (\<lambda>y. ze_index y = ze_index e) xs = []"
        by (auto simp: filter_empty_conv image_iff)
      with True show ?thesis by simp
    next
      case False
      with Cons show ?thesis by auto
    qed
  qed simp
  finally show ?thesis .
qed

lemma length_CACHED_ZERO [simp]: "sha256_ok L \<Longrightarrow> length (CACHED_ZERO L h) = 32"
  by (cases h) (simp_all add: Let_def)

lemma length_subtreeHash:
  "sha256_ok L \<Longrightarrow> \<forall>e \<in> set ls. length (ze_leaf e) = 32 \<Longrightarrow> length (subtreeHash L ls h) = 32"
  by (cases h) (auto simp: Let_def split: list.split)

lemma isValidHash_zeroHashRoot [simp]:
  assumes "sha256_ok L"
  shows "isValidHash (zeroHashRoot L ls)"
proof -
  obtain h where h: "TREE_DEPTH = Suc h"
    by (cases TREE_DEPTH) (auto simp: TREE_DEPTH_def HASH_BIT_LENGTH_def)
  from assms have "length (subtreeHash L ls (Suc h)) = 32"
    by (simp add: Let_def)
  then show ?thesis
    unfolding zeroHashRoot_def isValidHash_def HASH_BYTE_LENGTH_def h .
qed

lemma zeroHash_complete:
  assumes "sha256_ok L" "e \<in> set ls" "distinct (map ze_index ls)"
    "\<forall>e \<in> set ls. 0 \<le> ze_index e \<and> ze_index e < 2 ^ 256"
  shows "verifyZeroHash L (zp_collapsed (generateZeroHashProof L ls (ze_index e)))
           (zp_hashes (generateZeroHashProof L ls (ze_index e)))
           (ze_index e) (ze_leaf e) (zeroHashRoot L ls)"
  using verifyLoop_generated [of 0 L ls "ze_index e"] path_leaves_full [OF assms(2-4)] assms(1)
  by (simp add: verifyZeroHash_def generateZeroHashProof_hashes hashesEqual_def)

section \<open>A proof that verifies is a proof of the tree's leaf\<close>

text \<open>The 64-byte blocks the verifier hashes, and those on the path of \<open>t\<close> in the tree. SHA-256
  is assumed to be injective on these finitely many blocks, and on nothing else.\<close>

definition pairBlock :: "int \<Rightarrow> nat \<Rightarrow> bytes \<Rightarrow> bytes \<Rightarrow> bytes" where
  "pairBlock t d acc sib = (if bit t d then sib @ acc else acc @ sib)"

definition stepSibling :: "'x hash_lib_scheme \<Rightarrow> int \<Rightarrow> nat \<Rightarrow> bytes list \<Rightarrow> bytes" where
  "stepSibling L collapsed n hashes =
     (if bit collapsed (TREE_DEPTH - 1 - n) then CACHED_ZERO L n else hd hashes)"

fun verifierBlocks :: "'x hash_lib_scheme \<Rightarrow> int \<Rightarrow> int \<Rightarrow> nat list \<Rightarrow> bytes list \<times> bytes \<Rightarrow> bytes list" where
  "verifierBlocks L collapsed index [] s = []"
| "verifierBlocks L collapsed index (n # ns) s =
     (case verifyStep L collapsed index n s of
        None \<Rightarrow> []
      | Some s' \<Rightarrow>
          pairBlock index (TREE_DEPTH - 1 - n) (snd s) (stepSibling L collapsed n (fst s)) #
          verifierBlocks L collapsed index ns s')"

definition treeBlock :: "'x hash_lib_scheme \<Rightarrow> ZeroHashEntry list \<Rightarrow> int \<Rightarrow> nat \<Rightarrow> bytes" where
  "treeBlock L ls t n =
     pairBlock t (TREE_DEPTH - Suc n) (subtreeHash L (path_leaves ls t (TREE_DEPTH - n)) n)
       (subtreeHash L (siblingLeaves ls t (TREE_DEPTH - Suc n)) n)"

definition noCollision :: "'x hash_lib_scheme \<Rightarrow> bytes list \<Rightarrow> bool" where
  "noCollision L blocks \<longleftrightarrow> inj_on (sha256 L) (set blocks)"

definition proofBlocks ::
  "'x hash_lib_scheme \<Rightarrow> ZeroHashEntry list \<Rightarrow> int \<Rightarrow> bytes list \<Rightarrow> int \<Rightarrow> bytes \<Rightarrow> bytes list" where
  "proofBlocks L ls collapsed hashes t candidate =
     verifierBlocks L collapsed t [0..<TREE_DEPTH] (hashes, candidate) @
     map (treeBlock L ls t) [0..<TREE_DEPTH]"

lemma combine_pairBlock: "combine_at L t d acc sib = sha256 L (pairBlock t d acc sib)"
  by (simp add: combine_at_def pairBlock_def blockHash_def)

lemma verifyStep_Some:
  "verifyStep L c t n (hs, acc) = Some s' \<Longrightarrow>
     snd s' = sha256 L (pairBlock t (TREE_DEPTH - 1 - n) acc (stepSibling L c n hs))"
  by (auto simp: verifyStep_def Let_def stepSibling_def pairBlock_def blockHash_def
        split: if_splits list.splits)

lemma pairBlock_inj:
  "length acc = length acc' \<Longrightarrow> length sib' = length acc' \<Longrightarrow>
     pairBlock t d acc sib = pairBlock t d acc' sib' \<Longrightarrow> acc = acc'"
  by (cases "bit t d") (simp_all add: pairBlock_def append_eq_append_conv)

lemma verifyLoop_sound:
  assumes L: "sha256_ok L" and leaves: "\<forall>e \<in> set ls. length (ze_leaf e) = 32"
    and "k \<le> TREE_DEPTH"
    and "verifyLoop L c t [k..<TREE_DEPTH] (hs, acc) = Some (rest, zeroHashRoot L ls)"
    and "length acc = 32"
    and "noCollision L (verifierBlocks L c t [k..<TREE_DEPTH] (hs, acc) @
                        map (treeBlock L ls t) [k..<TREE_DEPTH])"
  shows "acc = subtreeHash L (path_leaves ls t (TREE_DEPTH - k)) k"
  using assms(3-)
proof (induction arbitrary: hs acc rule: inc_induct)
  case base
  then show ?case by (simp add: zeroHashRoot_def)
next
  case (step n)
  let ?d = "TREE_DEPTH - Suc n"
  have up: "[n..<TREE_DEPTH] = n # [Suc n..<TREE_DEPTH]"
    using step(2) by (simp add: upt_conv_Cons)
  obtain hs' acc' where s: "verifyStep L c t n (hs, acc) = Some (hs', acc')"
    and rest: "verifyLoop L c t [Suc n..<TREE_DEPTH] (hs', acc') = Some (rest, zeroHashRoot L ls)"
    using step(4) by (auto simp: up split: option.splits)
  let ?b = "pairBlock t ?d acc (stepSibling L c n hs)"
  have acc': "acc' = sha256 L ?b" using verifyStep_Some [OF s] by simp
  have nc: "inj_on (sha256 L) (set (?b # verifierBlocks L c t [Suc n..<TREE_DEPTH] (hs', acc') @
      treeBlock L ls t n # map (treeBlock L ls t) [Suc n..<TREE_DEPTH]))"
    using step(6) s by (simp add: noCollision_def up)
  have "acc' = subtreeHash L (path_leaves ls t ?d) (Suc n)"
    using step(3) [OF rest] nc L acc' by (auto simp: noCollision_def intro: inj_on_subset)
  also have "\<dots> = sha256 L (treeBlock L ls t n)"
    using subtreeHash_path [of ?d L ls t] step(2)
    by (simp add: combine_pairBlock treeBlock_def Suc_diff_Suc)
  finally have "?b = treeBlock L ls t n"
    using nc acc' by (auto dest: inj_onD)
  moreover have "length (subtreeHash L (path_leaves ls t d) m) = 32" for d m
    using leaves by (intro length_subtreeHash L) (simp add: path_leaves_def)
  moreover have "length (subtreeHash L (siblingLeaves ls t d) m) = 32" for d m
    using leaves by (intro length_subtreeHash L) (simp add: siblingLeaves_def)
  ultimately show ?case
    using step(5) pairBlock_inj unfolding treeBlock_def by metis
qed

lemma path_leaves_leaf:
  assumes "\<forall>e \<in> set ls. 0 \<le> ze_index e \<and> ze_index e < 2 ^ 256" "0 \<le> t" "t < 2 ^ 256"
  shows "(\<exists>e \<in> set ls. ze_index e = t \<and> subtreeHash L (path_leaves ls t TREE_DEPTH) 0 = ze_leaf e) \<or>
     (\<forall>e \<in> set ls. ze_index e \<noteq> t) \<and> subtreeHash L (path_leaves ls t TREE_DEPTH) 0 = CACHED_ZERO L 0"
proof -
  have eq: "path_leaves ls t TREE_DEPTH = filter (\<lambda>e. ze_index e = t) ls"
    using assms unfolding path_leaves_def TREE_DEPTH_def HASH_BIT_LENGTH_def
    by (intro filter_cong) (auto simp: take_bit_int_eq_self_iff [THEN iffD2])
  show ?thesis
  proof (cases "filter (\<lambda>e. ze_index e = t) ls")
    case Nil
    then show ?thesis by (simp add: eq filter_empty_conv)
  next
    case (Cons e es)
    then have "e \<in> set ls \<and> ze_index e = t"
      by (metis (mono_tags, lifting) filter_eq_ConsD in_set_conv_decomp)
    with Cons show ?thesis by (auto simp: eq)
  qed
qed

lemma zeroHash_sound:
  assumes "sha256_ok L" "\<forall>e \<in> set ls. length (ze_leaf e) = 32 \<and> 0 \<le> ze_index e \<and> ze_index e < 2 ^ 256"
    "0 \<le> t" "t < 2 ^ 256" "length candidate = 32"
    "noCollision L (proofBlocks L ls collapsed hashes t candidate)"
    "verifyZeroHash L collapsed hashes t candidate (zeroHashRoot L ls)"
  shows "(\<exists>e \<in> set ls. ze_index e = t \<and> candidate = ze_leaf e) \<or>
         (\<forall>e \<in> set ls. ze_index e \<noteq> t) \<and> candidate = CACHED_ZERO L 0"
proof -
  obtain rest where "verifyLoop L collapsed t [0..<TREE_DEPTH] (hashes, candidate) =
      Some (rest, zeroHashRoot L ls)"
    using assms(1,7) by (auto simp: verifyZeroHash_def hashesEqual_def split: option.splits if_splits)
  then have "candidate = subtreeHash L (path_leaves ls t TREE_DEPTH) 0"
    using verifyLoop_sound [of L ls 0 collapsed t hashes candidate] assms
    by (simp add: proofBlocks_def)
  with path_leaves_leaf [of ls t L] assms show ?thesis by auto
qed

end
