(* ===== verification/SmtTree.thy ===== *)
theory SmtTree
  imports SmtZeroHash
begin

text \<open>
  The did:btcr2 Merkle tree of \<open>packages/smt/src\<close>: leaf hashes (\<open>btcr2-leaf.ts\<close>), the serialized
  proof format (\<open>btcr2-proof.ts\<close>) and the class \<open>BTCR2MerkleTree\<close> (\<open>btcr2-tree.ts\<close>). The fields of
  the record \<open>BTCR2MerkleTree\<close> are the private fields of the class; each method returns the new
  object with its result. The invariant \<open>tree_inv\<close> ties the leaves and the root to the entries.
\<close>

section \<open>Leaves\<close>

definition didToIndex :: "'x hash_lib_scheme \<Rightarrow> string \<Rightarrow> int result" where
  "didToIndex L did = hashToBigInt (blockHash L [utf8 did])"

definition inclusionLeafHash :: "'x hash_lib_scheme \<Rightarrow> bytes \<Rightarrow> bytes \<Rightarrow> bytes" where
  "inclusionLeafHash L nonce signedUpdate =
     blockHash L [blockHash L [nonce], blockHash L [signedUpdate]]"

definition nonInclusionLeafHash :: "'x hash_lib_scheme \<Rightarrow> bytes \<Rightarrow> bytes" where
  "nonInclusionLeafHash L nonce = blockHash L [blockHash L [nonce]]"

section \<open>Serialized proofs\<close>

record SerializedSMTProof =
  sp_id :: string
  sp_nonce :: "string option"
  sp_updateId :: "string option"
  sp_collapsed :: string
  sp_hashes :: "string list"

record DeserializedProof =
  dp_rootHash :: bytes
  dp_collapsed :: int
  dp_hashes :: "bytes list"
  dp_nonce :: "bytes option"
  dp_updateId :: "bytes option"

fun optR :: "('a \<Rightarrow> 'b result) \<Rightarrow> 'a option \<Rightarrow> 'b option result" where
  "optR f None = Inr None"
| "optR f (Some x) = rbind (f x) (\<lambda>y. Inr (Some y))"

definition serializeProof ::
  "'x hash_lib_scheme \<Rightarrow> bytes \<Rightarrow> ZeroHashProof \<Rightarrow> bytes option \<Rightarrow> bytes option
     \<Rightarrow> SerializedSMTProof result" where
  "serializeProof L rootHash p nonce updateId =
     rbind (hashToBase64Url L rootHash) (\<lambda>id.
     rbind (rbind (bigIntToHash (zp_collapsed p)) (hashToBase64Url L)) (\<lambda>collapsed.
     rbind (mapR (hashToBase64Url L) (zp_hashes p)) (\<lambda>hashes.
     rbind (optR (hashToBase64Url L) nonce) (\<lambda>nonce.
     rbind (optR (hashToBase64Url L) updateId) (\<lambda>updateId.
       Inr \<lparr>sp_id = id, sp_nonce = nonce, sp_updateId = updateId,
            sp_collapsed = collapsed, sp_hashes = hashes\<rparr>)))))"

definition deserializeProof ::
  "'x hash_lib_scheme \<Rightarrow> SerializedSMTProof \<Rightarrow> DeserializedProof result" where
  "deserializeProof L s =
     (let present = (\<lambda>x. if truthy_str x then x else None) in
      rbind (base64UrlToHash L (sp_id s)) (\<lambda>rootHash.
      rbind (rbind (base64UrlToHash L (sp_collapsed s)) hashToBigInt) (\<lambda>collapsed.
      rbind (mapR (base64UrlToHash L) (sp_hashes s)) (\<lambda>hashes.
      rbind (optR (base64UrlToHash L) (present (sp_nonce s))) (\<lambda>nonce.
      rbind (optR (base64UrlToHash L) (present (sp_updateId s))) (\<lambda>updateId.
        Inr \<lparr>dp_rootHash = rootHash, dp_collapsed = collapsed, dp_hashes = hashes,
             dp_nonce = nonce, dp_updateId = updateId\<rparr>))))))"

definition verifySerializedProof ::
  "'x hash_lib_scheme \<Rightarrow> SerializedSMTProof \<Rightarrow> int \<Rightarrow> bytes \<Rightarrow> bool result" where
  "verifySerializedProof L serialized index candidateHash =
     rbind (deserializeProof L serialized) (\<lambda>d.
       Inr (verifyZeroHash L (dp_collapsed d) (dp_hashes d) index candidateHash (dp_rootHash d)))"

section \<open>The tree\<close>

record TreeEntry =
  te_did :: string
  te_nonce :: bytes
  te_signedUpdate :: "bytes option"

record BTCR2MerkleTree =
  mt_entries :: "(int, TreeEntry) jsmap"
  mt_indexByDid :: "(string, int) jsmap"
  mt_leaves :: "ZeroHashEntry list option"
  mt_root :: "bytes option"

definition newMerkleTree :: BTCR2MerkleTree where
  "newMerkleTree = \<lparr>mt_entries = [], mt_indexByDid = [], mt_leaves = None, mt_root = None\<rparr>"

fun addEntries_loop ::
  "'x hash_lib_scheme \<Rightarrow> TreeEntry list \<Rightarrow> BTCR2MerkleTree \<Rightarrow> BTCR2MerkleTree \<times> unit result" where
  "addEntries_loop L [] t = (t, Inr ())"
| "addEntries_loop L (entry # entries) t =
     (case didToIndex L (te_did entry) of
        Inl e \<Rightarrow> (t, Inl e)
      | Inr index \<Rightarrow>
          if jm_has (mt_entries t) index then (t, range_error)
          else addEntries_loop L entries
                 (t\<lparr>mt_entries := jm_set index entry (mt_entries t),
                    mt_indexByDid := jm_set (te_did entry) index (mt_indexByDid t)\<rparr>))"

definition addEntries ::
  "'x hash_lib_scheme \<Rightarrow> TreeEntry list \<Rightarrow> BTCR2MerkleTree \<Rightarrow> BTCR2MerkleTree \<times> unit result" where
  "addEntries L entries t =
     (case addEntries_loop L entries t of
        (t, Inl e) \<Rightarrow> (t, Inl e)
      | (t, Inr u) \<Rightarrow> (t\<lparr>mt_leaves := None, mt_root := None\<rparr>, Inr u))"

definition entryLeaf :: "'x hash_lib_scheme \<Rightarrow> TreeEntry \<Rightarrow> bytes" where
  "entryLeaf L entry =
     (case te_signedUpdate entry of
        Some signedUpdate \<Rightarrow> inclusionLeafHash L (te_nonce entry) signedUpdate
      | None \<Rightarrow> nonInclusionLeafHash L (te_nonce entry))"

definition finalizeTree :: "'x hash_lib_scheme \<Rightarrow> BTCR2MerkleTree \<Rightarrow> BTCR2MerkleTree" where
  "finalizeTree L t =
     (let leaves = map (\<lambda>(index, entry). \<lparr>ze_index = index, ze_leaf = entryLeaf L entry\<rparr>) (mt_entries t)
      in t\<lparr>mt_leaves := Some leaves, mt_root := Some (zeroHashRoot L leaves)\<rparr>)"

definition rootHash :: "BTCR2MerkleTree \<Rightarrow> bytes result" where
  "rootHash t = (case mt_root t of None \<Rightarrow> Inl (Error ''Error'' '''') | Some r \<Rightarrow> Inr r)"

definition treeProof :: "'x hash_lib_scheme \<Rightarrow> string \<Rightarrow> BTCR2MerkleTree \<Rightarrow> SerializedSMTProof result" where
  "treeProof L did t =
     (case jm_get (mt_indexByDid t) did of
        None \<Rightarrow> range_error
      | Some index \<Rightarrow>
         (case (mt_leaves t, mt_root t) of
            (Some leaves, Some root) \<Rightarrow>
              (case jm_get (mt_entries t) index of
                 None \<Rightarrow> type_error
               | Some entry \<Rightarrow>
                   let p = generateZeroHashProof L leaves index;
                       updateId = map_option (\<lambda>u. blockHash L [u]) (te_signedUpdate entry)
                   in serializeProof L root p (Some (te_nonce entry)) updateId)
          | _ \<Rightarrow> Inl (Error ''Error'' '''')))"

definition resetTree :: "BTCR2MerkleTree \<Rightarrow> BTCR2MerkleTree" where
  "resetTree t = t\<lparr>mt_leaves := None, mt_root := None\<rparr>"

section \<open>Serialization round trip\<close>

lemma didToIndex_Inr:
  "sha256_ok L \<Longrightarrow> didToIndex L did = Inr (bytes_to_bigint (sha256 L (utf8 did)))"
  by (simp add: didToIndex_def hashToBigInt_def validateHash_valid blockHash_def
        isValidHash_def HASH_BYTE_LENGTH_def)

lemma didToIndex_range:
  "sha256_ok L \<Longrightarrow> didToIndex L did = Inr i \<Longrightarrow> 0 \<le> i \<and> i < 2 ^ 256"
  using bytes_to_bigint_nonneg [of "sha256 L (utf8 did)"] bytes_to_bigint_bound [of "sha256 L (utf8 did)"]
  by (auto simp: didToIndex_Inr)

lemma serializeProof_Inr:
  assumes "isValidHash root" "0 \<le> zp_collapsed p" "zp_collapsed p < 2 ^ 256"
    "list_all isValidHash (zp_hashes p)" "pred_option isValidHash nonce" "pred_option isValidHash updateId"
  shows "\<exists>c. serializeProof L root p nonce updateId =
     Inr \<lparr>sp_id = base64url_encode L root, sp_nonce = map_option (base64url_encode L) nonce,
          sp_updateId = map_option (base64url_encode L) updateId,
          sp_collapsed = base64url_encode L c, sp_hashes = map (base64url_encode L) (zp_hashes p)\<rparr> \<and>
     isValidHash c \<and> bytes_to_bigint c = zp_collapsed p"
proof -
  from bigIntToHash_Inr [OF assms(2,3)] obtain c where
    c: "bigIntToHash (zp_collapsed p) = Inr c" "isValidHash c" "bytes_to_bigint c = zp_collapsed p"
    by blast
  have hs: "mapR (hashToBase64Url L) (zp_hashes p) = Inr (map (base64url_encode L) (zp_hashes p))"
    using assms(4) by (intro mapR_Inr) (simp add: hashToBase64Url_valid list_all_iff)
  have opt: "optR (hashToBase64Url L) x = Inr (map_option (base64url_encode L) x)"
    if "pred_option isValidHash x" for x
    using that by (cases x) (simp_all add: hashToBase64Url_valid)
  show ?thesis
    using assms c by (intro exI [of _ c])
      (simp add: serializeProof_def hashToBase64Url_valid hs opt)
qed

lemma base64url_encode_hash: "base64url_ok L \<Longrightarrow> isValidHash h \<Longrightarrow> base64url_encode L h \<noteq> []"
  by (rule base64url_encode_nonempty) (auto simp: isValidHash_def HASH_BYTE_LENGTH_def)

lemma deserializeProof_encoded:
  assumes "base64url_ok L" "isValidHash root" "isValidHash c" "list_all isValidHash hashes"
    "pred_option isValidHash nonce" "pred_option isValidHash updateId"
  shows "deserializeProof L
     \<lparr>sp_id = base64url_encode L root, sp_nonce = map_option (base64url_encode L) nonce,
      sp_updateId = map_option (base64url_encode L) updateId,
      sp_collapsed = base64url_encode L c, sp_hashes = map (base64url_encode L) hashes\<rparr> =
     Inr \<lparr>dp_rootHash = root, dp_collapsed = bytes_to_bigint c, dp_hashes = hashes,
          dp_nonce = nonce, dp_updateId = updateId\<rparr>"
proof -
  have hs: "mapR (base64UrlToHash L) (map (base64url_encode L) hashes) = Inr hashes"
    using assms(1,4) by (induction hashes) (simp_all add: base64UrlToHash_encode)
  have opt: "optR (base64UrlToHash L) (if truthy_str (map_option (base64url_encode L) x)
      then map_option (base64url_encode L) x else None) = Inr x"
    if "pred_option isValidHash x" for x
    using that assms(1)
    by (cases x) (auto simp: base64UrlToHash_encode base64url_encode_hash)
  show ?thesis
    using assms opt [of nonce] opt [of updateId]
    by (simp add: deserializeProof_def base64UrlToHash_encode hs hashToBigInt_def validateHash_valid Let_def)
qed

section \<open>Invariant of the tree\<close>

definition tree_inv :: "'x hash_lib_scheme \<Rightarrow> BTCR2MerkleTree \<Rightarrow> bool" where
  "tree_inv L t \<longleftrightarrow>
     distinct (map fst (mt_entries t)) \<and>
     (\<forall>(i, e) \<in> set (mt_entries t). didToIndex L (te_did e) = Inr i) \<and>
     (\<forall>did i. jm_get (mt_indexByDid t) did = Some i \<longleftrightarrow>
        (\<exists>e. jm_get (mt_entries t) i = Some e \<and> te_did e = did))"

definition tree_leaves :: "'x hash_lib_scheme \<Rightarrow> BTCR2MerkleTree \<Rightarrow> ZeroHashEntry list" where
  "tree_leaves L t =
     map (\<lambda>(index, entry). \<lparr>ze_index = index, ze_leaf = entryLeaf L entry\<rparr>) (mt_entries t)"

definition tree_computed :: "'x hash_lib_scheme \<Rightarrow> BTCR2MerkleTree \<Rightarrow> bool" where
  "tree_computed L t \<longleftrightarrow>
     mt_leaves t = None \<and> mt_root t = None \<or>
     mt_leaves t = Some (tree_leaves L t) \<and> mt_root t = Some (zeroHashRoot L (tree_leaves L t))"

lemma tree_inv_cong:
  "mt_entries t' = mt_entries t \<Longrightarrow> mt_indexByDid t' = mt_indexByDid t \<Longrightarrow>
     tree_inv L t' \<longleftrightarrow> tree_inv L t"
  by (simp add: tree_inv_def)

lemma tree_inv_new [simp, inv_intros]: "tree_inv L newMerkleTree"
  by (simp add: tree_inv_def newMerkleTree_def)

lemma tree_inv_insert:
  assumes "tree_inv L t" "didToIndex L (te_did e) = Inr i" "\<not> jm_has (mt_entries t) i"
  shows "tree_inv L (t\<lparr>mt_entries := jm_set i e (mt_entries t),
                       mt_indexByDid := jm_set (te_did e) i (mt_indexByDid t)\<rparr>)"
proof -
  have fresh: "jm_get (mt_entries t) i = None"
    using assms(3) by (simp add: jm_has_def)
  have idx: "didToIndex L (te_did x) = Inr j" if "jm_get (mt_entries t) j = Some x" for j x
    using assms(1) map_of_SomeD [OF that] by (auto simp: tree_inv_def)
  have "jm_get (jm_set (te_did e) i (mt_indexByDid t)) did = Some j \<longleftrightarrow>
      (\<exists>x. jm_get (jm_set i e (mt_entries t)) j = Some x \<and> te_did x = did)" for did j
    using assms(1,2) fresh idx by (auto simp: tree_inv_def)
  then show ?thesis
    using assms(1,2) set_jm_set_subset [of i e "mt_entries t"] by (auto simp: tree_inv_def)
qed

lemma addEntries_loop_inv:
  "tree_inv L t \<Longrightarrow> addEntries_loop L es t = (t', r) \<Longrightarrow> tree_inv L t'"
  by (induction L es t rule: addEntries_loop.induct)
     (auto split: sum.splits if_splits intro: tree_inv_insert)

lemma addEntries_inv [inv_intros]:
  assumes "tree_inv L t" "addEntries L es t = (t', r)"
  shows "tree_inv L t'"
proof -
  obtain u q where loop: "addEntries_loop L es t = (u, q)" by fastforce
  with assms have "tree_inv L u" using addEntries_loop_inv by blast
  with assms(2) loop show ?thesis
    by (auto simp: addEntries_def split: sum.splits cong: tree_inv_cong)
qed

lemma finalizeTree_inv [inv_intros]: "tree_inv L t \<Longrightarrow> tree_inv L (finalizeTree L t)"
  by (simp add: finalizeTree_def Let_def tree_inv_def)

lemma resetTree_inv [inv_intros]: "tree_inv L t \<Longrightarrow> tree_inv L (resetTree t)"
  by (simp add: resetTree_def tree_inv_def)

lemma tree_leaves_simps [simp]:
  "tree_leaves L (t\<lparr>mt_leaves := x, mt_root := y\<rparr>) = tree_leaves L t"
  by (simp add: tree_leaves_def)

lemma tree_computed_ops [simp]:
  "tree_computed L newMerkleTree" "tree_computed L (finalizeTree L t)" "tree_computed L (resetTree t)"
  by (simp_all add: tree_computed_def newMerkleTree_def finalizeTree_def resetTree_def tree_leaves_def
      Let_def)

lemma tree_computed_addEntries: "addEntries L es t = (t', Inr u) \<Longrightarrow> tree_computed L t'"
  by (auto simp: addEntries_def tree_computed_def split: prod.splits sum.splits)

section \<open>Which entries the tree holds\<close>

lemma addEntries_loop_entries:
  "addEntries_loop L es t = (t', Inr u) \<Longrightarrow>
     jm_get (mt_entries t') i = Some e \<longleftrightarrow>
       jm_get (mt_entries t) i = Some e \<or> e \<in> set es \<and> didToIndex L (te_did e) = Inr i"
proof (induction L es t rule: addEntries_loop.induct)
  case (2 L entry entries t)
  then show ?case
    by (auto split: sum.splits if_splits simp: jm_has_def)
qed simp

lemma addEntries_entries:
  assumes "addEntries L es t = (t', Inr u)"
  shows "jm_get (mt_entries t') i = Some e \<longleftrightarrow>
           jm_get (mt_entries t) i = Some e \<or> e \<in> set es \<and> didToIndex L (te_did e) = Inr i"
proof -
  obtain v q where "addEntries_loop L es t = (v, q)" by fastforce
  with assms show ?thesis
    using addEntries_loop_entries [of L es t v "()" i e]
    by (auto simp: addEntries_def split: sum.splits)
qed

lemma addEntries_loop_ok_iff:
  assumes "sha256_ok L"
  shows "snd (addEntries_loop L es t) = Inr () \<longleftrightarrow>
     distinct (map (\<lambda>e. didToIndex L (te_did e)) es) \<and>
     (\<forall>e \<in> set es. \<forall>i. didToIndex L (te_did e) = Inr i \<longrightarrow> \<not> jm_has (mt_entries t) i)"
proof (induction es arbitrary: t)
  case (Cons e es)
  obtain i where "didToIndex L (te_did e) = Inr i" using didToIndex_Inr [OF assms] by blast
  with Cons show ?case by (auto simp: image_iff) metis
qed simp

lemma addEntries_snd:
  assumes "sha256_ok L"
  shows "snd (addEntries L es t) = snd (addEntries_loop L es t) \<and>
     (snd (addEntries_loop L es t) = Inr () \<or> snd (addEntries_loop L es t) = range_error)"
proof
  show "snd (addEntries L es t) = snd (addEntries_loop L es t)"
    by (auto simp: addEntries_def split: prod.splits sum.splits)
  show "snd (addEntries_loop L es t) = Inr () \<or> snd (addEntries_loop L es t) = range_error"
    by (induction es arbitrary: t) (simp_all add: didToIndex_Inr assms)
qed

section \<open>Proofs of the tree verify\<close>

lemma tree_leaves_facts:
  assumes "sha256_ok L" "tree_inv L t"
  shows "distinct (map ze_index (tree_leaves L t))"
    "\<forall>l \<in> set (tree_leaves L t). 0 \<le> ze_index l \<and> ze_index l < 2 ^ 256"
    "\<forall>l \<in> set (tree_leaves L t). length (ze_leaf l) = 32"
proof -
  have "map ze_index (tree_leaves L t) = map fst (mt_entries t)"
    by (simp add: tree_leaves_def comp_def case_prod_beta)
  with assms show "distinct (map ze_index (tree_leaves L t))" by (simp add: tree_inv_def)
  show "\<forall>l \<in> set (tree_leaves L t). 0 \<le> ze_index l \<and> ze_index l < 2 ^ 256"
    using assms didToIndex_range [OF assms(1)] by (fastforce simp: tree_leaves_def tree_inv_def)
  show "\<forall>l \<in> set (tree_leaves L t). length (ze_leaf l) = 32"
    using assms by (auto simp: tree_leaves_def entryLeaf_def inclusionLeafHash_def
      nonInclusionLeafHash_def split: option.split)
qed

lemma level_hashes_valid:
  assumes "sha256_ok L" "\<forall>l \<in> set ls. length (ze_leaf l) = 32"
  shows "list_all isValidHash (zp_hashes (generateZeroHashProof L ls i))"
proof -
  have "\<forall>l \<in> set (siblingLeaves ls i d). length (ze_leaf l) = 32" for d
    using assms(2) by (simp add: siblingLeaves_def)
  then show ?thesis
    using assms(1) by (auto simp: generateZeroHashProof_hashes level_hashes_def Let_def
      list_all_iff isValidHash_def HASH_BYTE_LENGTH_def length_subtreeHash)
qed

lemma treeProof_finalized:
  assumes L: "sha256_ok L" "base64url_ok L" and inv: "tree_inv L t"
    and e: "jm_get (mt_entries t) i = Some e" and nonce: "length (te_nonce e) = 32"
  shows "\<exists>s. treeProof L (te_did e) (finalizeTree L t) = Inr s \<and>
     verifySerializedProof L s i (entryLeaf L e) = Inr True \<and>
     sp_id s = base64url_encode L (zeroHashRoot L (tree_leaves L t)) \<and>
     sp_nonce s = Some (base64url_encode L (te_nonce e)) \<and>
     sp_updateId s = map_option (\<lambda>u. base64url_encode L (sha256 L u)) (te_signedUpdate e)"
proof -
  let ?ls = "tree_leaves L t" and ?t = "finalizeTree L t"
  let ?p = "generateZeroHashProof L ?ls i"
  let ?upd = "map_option (\<lambda>u. blockHash L [u]) (te_signedUpdate e)"
  note facts = tree_leaves_facts [OF L(1) inv]
  have did: "jm_get (mt_indexByDid t) (te_did e) = Some i"
    using inv e by (auto simp: tree_inv_def)
  have leaf: "\<lparr>ze_index = i, ze_leaf = entryLeaf L e\<rparr> \<in> set ?ls"
    using map_of_SomeD [OF e] by (force simp: tree_leaves_def)
  have valid: "pred_option isValidHash (Some (te_nonce e))" "pred_option isValidHash ?upd"
    using nonce L(1) by (auto simp: isValidHash_def HASH_BYTE_LENGTH_def option.pred_set)
  have hashes: "list_all isValidHash (zp_hashes ?p)"
    using level_hashes_valid [OF L(1) facts(3)] .
  from serializeProof_Inr [OF isValidHash_zeroHashRoot [OF L(1)] generateZeroHashProof_range
      hashes valid] obtain c where
    ser: "serializeProof L (zeroHashRoot L ?ls) ?p (Some (te_nonce e)) ?upd =
      Inr \<lparr>sp_id = base64url_encode L (zeroHashRoot L ?ls),
           sp_nonce = map_option (base64url_encode L) (Some (te_nonce e)),
           sp_updateId = map_option (base64url_encode L) ?upd,
           sp_collapsed = base64url_encode L c,
           sp_hashes = map (base64url_encode L) (zp_hashes ?p)\<rparr>" (is "_ = Inr ?s")
    and c: "isValidHash c" "bytes_to_bigint c = zp_collapsed ?p" by blast
  have "treeProof L (te_did e) ?t = Inr ?s"
    unfolding ser [symmetric]
    using did e by (simp add: treeProof_def finalizeTree_def Let_def tree_leaves_def)
  moreover have "verifySerializedProof L ?s i (entryLeaf L e) = Inr True"
    using deserializeProof_encoded [OF L(2) isValidHash_zeroHashRoot [OF L(1)] c(1) hashes valid]
      zeroHash_complete [OF L(1) leaf facts(1,2)]
    by (simp add: verifySerializedProof_def c(2))
  ultimately show ?thesis
    by (intro exI [of _ ?s]) (simp add: option.map_comp comp_def blockHash_def)
qed

lemma treeProof_only_held:
  assumes "sha256_ok L" "tree_inv L t" "didToIndex L did = Inr i"
    "deserializeProof L s = Inr d" "rootHash (finalizeTree L t) = Inr (dp_rootHash d)"
    "verifySerializedProof L s i candidate = Inr True" "length candidate = 32"
    "noCollision L (proofBlocks L (tree_leaves L t) (dp_collapsed d) (dp_hashes d) i candidate)"
  shows "(\<exists>e. jm_get (mt_entries t) i = Some e \<and> candidate = entryLeaf L e) \<or>
         (jm_get (mt_entries t) i = None \<and> candidate = CACHED_ZERO L 0)"
proof -
  note facts = tree_leaves_facts [OF assms(1,2)]
  have root: "dp_rootHash d = zeroHashRoot L (tree_leaves L t)"
    using assms(5) by (auto simp: rootHash_def finalizeTree_def Let_def tree_leaves_def)
  have "0 \<le> i" "i < 2 ^ 256" using didToIndex_range [OF assms(1,3)] by simp_all
  then have "(\<exists>l \<in> set (tree_leaves L t). ze_index l = i \<and> candidate = ze_leaf l) \<or>
    (\<forall>l \<in> set (tree_leaves L t). ze_index l \<noteq> i) \<and> candidate = CACHED_ZERO L 0"
    using zeroHash_sound [of L "tree_leaves L t" i candidate "dp_collapsed d" "dp_hashes d"]
      facts assms root by (simp add: verifySerializedProof_def)
  moreover have "jm_get (mt_entries t) i = Some e \<longleftrightarrow> (i, e) \<in> set (mt_entries t)" for e
    using assms(2) by (simp add: tree_inv_def)
  ultimately show ?thesis
    by (auto simp: tree_leaves_def map_of_eq_None_iff image_iff)
qed

section \<open>A concrete library for the witnesses\<close>

text \<open>A hash that keeps the first half of a 64-byte block and a 32-byte string, and is zero
  elsewhere; the codecs are the identity on bytes.\<close>

definition demo_sha256 :: "bytes \<Rightarrow> bytes" where
  "demo_sha256 bs =
     (if length bs = 64 then take 32 bs else if length bs = 32 then bs else replicate 32 0)"

definition demo_encode :: "bytes \<Rightarrow> string" where
  "demo_encode = map (\<lambda>b. char_of (unat b))"

definition demo_decode :: "string \<Rightarrow> bytes option" where
  "demo_decode s = Some (map (\<lambda>c. of_nat (of_char c)) s)"

definition demo_lib :: hash_lib where
  "demo_lib = \<lparr>sha256 = demo_sha256,
     base64_encode = demo_encode, base64_decode = demo_decode,
     base64url_encode = demo_encode, base64url_decode = demo_decode\<rparr>"

lemma demo_decode_encode [simp]: "demo_decode (demo_encode bs) = Some bs"
proof -
  have "of_nat (of_char (char_of (unat b))) = b" for b :: byte
    using unsigned_less [of b, where ?'a = nat] by (simp add: take_bit_nat_eq_self)
  then show ?thesis by (simp add: demo_decode_def demo_encode_def comp_def)
qed

lemma demo_lib_ok [simp]: "sha256_ok demo_lib" "base64_ok demo_lib" "base64url_ok demo_lib"
  by (simp_all add: sha256_ok_def base64_ok_def base64url_ok_def demo_lib_def demo_sha256_def)
     (simp add: demo_encode_def)

lemma demo_hash [simp]: "sha256 demo_lib bs = demo_sha256 bs"
  "blockHash demo_lib bss = demo_sha256 (concat bss)"
  "base64url_encode demo_lib = demo_encode" "base64url_decode demo_lib = demo_decode"
  by (simp_all add: demo_lib_def blockHash_def)

lemma demo_CACHED_ZERO [simp]: "CACHED_ZERO demo_lib h = replicate 32 0"
  by (induction h) (simp_all add: demo_sha256_def HASH_BYTE_LENGTH_def Let_def)

lemma bytes_to_bigint_zeros: "bytes_to_bigint (replicate n 0) = 0"
  by (induction n) simp_all

lemma bytes_to_bigint_ones: "bytes_to_bigint (replicate n 255) = 256 ^ n - 1"
  by (induction n) simp_all

definition demo_entry :: TreeEntry where
  "demo_entry = \<lparr>te_did = ''did:btcr2:k1demo'', te_nonce = replicate 32 7, te_signedUpdate = Some [1, 2, 3]\<rparr>"

lemma demo_entry_simps [simp]:
  "te_did demo_entry = ''did:btcr2:k1demo''" "te_nonce demo_entry = replicate 32 7"
  "didToIndex demo_lib ''did:btcr2:k1demo'' = Inr 0"
  "entryLeaf demo_lib demo_entry = replicate 32 7"
  by (simp_all add: demo_entry_def demo_sha256_def utf8_def didToIndex_Inr
        entryLeaf_def inclusionLeafHash_def bytes_to_bigint_zeros)

definition demo_tree :: BTCR2MerkleTree where
  "demo_tree = fst (addEntries demo_lib [demo_entry] newMerkleTree)"

lemma demo_tree_added: "addEntries demo_lib [demo_entry] newMerkleTree = (demo_tree, Inr ())"
  by (simp add: demo_tree_def addEntries_def newMerkleTree_def jm_has_def)

lemma demo_tree_simps [simp]:
  "tree_inv demo_lib demo_tree" "jm_get (mt_entries demo_tree) 0 = Some demo_entry"
  "tree_leaves demo_lib demo_tree = [\<lparr>ze_index = 0, ze_leaf = replicate 32 7\<rparr>]"
  using addEntries_inv [OF tree_inv_new demo_tree_added]
  by (simp_all add: demo_tree_def addEntries_def newMerkleTree_def jm_has_def tree_leaves_def)

lemma demo_verifyStep:
  "bit c (TREE_DEPTH - Suc n) \<Longrightarrow> length acc = 32 \<Longrightarrow>
     verifyStep demo_lib c 0 n ([], acc) = Some ([], acc)"
  by (simp add: verifyStep_def Let_def demo_sha256_def bitAt_eq)

lemma demo_verifyLoop:
  "\<forall>n \<in> set ns. bit c (TREE_DEPTH - Suc n) \<Longrightarrow> length acc = 32 \<Longrightarrow>
     verifyLoop demo_lib c 0 ns ([], acc) = Some ([], acc)"
  by (induction ns) (simp_all add: demo_verifyStep)

lemma demo_verifierBlocks:
  "\<forall>n \<in> set ns. bit c (TREE_DEPTH - Suc n) \<Longrightarrow> length acc = 32 \<Longrightarrow>
     set (verifierBlocks demo_lib c 0 ns ([], acc)) \<subseteq> {acc @ replicate 32 0}"
  by (induction ns) (simp_all add: demo_verifyStep stepSibling_def pairBlock_def)

lemma demo_subtreeHash:
  "length l = 32 \<Longrightarrow> subtreeHash demo_lib [\<lparr>ze_index = 0, ze_leaf = l\<rparr>] h = l"
  by (induction h) (simp_all add: Let_def demo_sha256_def bitAt_eq)

lemma all_collapsed: "bit (256 ^ 32 - 1 :: int) (TREE_DEPTH - Suc n)"
proof -
  have "256 ^ 32 - 1 = (mask 256 :: int)" by (simp add: mask_eq_exp_minus_1)
  then show ?thesis
    by (simp only: bit_mask_iff) (simp add: TREE_DEPTH_def HASH_BIT_LENGTH_def)
qed

lemma demo_noCollision:
  "noCollision demo_lib (proofBlocks demo_lib [\<lparr>ze_index = 0, ze_leaf = replicate 32 7\<rparr>]
     (256 ^ 32 - 1) [] 0 (replicate 32 7))"
proof -
  let ?ls = "[\<lparr>ze_index = 0, ze_leaf = replicate 32 7\<rparr>] :: ZeroHashEntry list"
  let ?b = "replicate 32 7 @ replicate 32 0 :: bytes"
  have "set (verifierBlocks demo_lib (256 ^ 32 - 1) 0 [0..<TREE_DEPTH] ([], replicate 32 7)) \<subseteq> {?b}"
    using all_collapsed by (intro demo_verifierBlocks ballI) (simp_all only: length_replicate)
  moreover have "path_leaves ?ls 0 d = ?ls" "siblingLeaves ?ls 0 d = []" for d
    by (simp_all add: path_leaves_def siblingLeaves_eq)
  then have "treeBlock demo_lib ?ls 0 n = ?b" for n
    by (simp add: treeBlock_def pairBlock_def demo_subtreeHash)
  ultimately have "set (proofBlocks demo_lib ?ls (256 ^ 32 - 1) [] 0 (replicate 32 7)) \<subseteq> {?b}"
    by (auto simp: proofBlocks_def)
  then show ?thesis
    unfolding noCollision_def by (rule inj_on_subset [rotated]) simp
qed

definition demo_proof :: SerializedSMTProof where
  "demo_proof = \<lparr>sp_id = demo_encode (replicate 32 7), sp_nonce = None, sp_updateId = None,
     sp_collapsed = demo_encode (replicate 32 255), sp_hashes = []\<rparr>"

definition demo_dproof :: DeserializedProof where
  "demo_dproof = \<lparr>dp_rootHash = replicate 32 7, dp_collapsed = 256 ^ 32 - 1, dp_hashes = [],
     dp_nonce = None, dp_updateId = None\<rparr>"

lemma demo_proof_facts:
  "deserializeProof demo_lib demo_proof = Inr demo_dproof"
  "rootHash (finalizeTree demo_lib demo_tree) = Inr (dp_rootHash demo_dproof)"
  "verifySerializedProof demo_lib demo_proof 0 (replicate 32 7) = Inr True"
proof -
  show d: "deserializeProof demo_lib demo_proof = Inr demo_dproof"
    using bytes_to_bigint_ones [of 32]
    by (simp add: deserializeProof_def demo_proof_def demo_dproof_def base64UrlToHash_def
          hashToBigInt_def validateHash_def isValidHash_def HASH_BYTE_LENGTH_def)
  show "rootHash (finalizeTree demo_lib demo_tree) = Inr (dp_rootHash demo_dproof)"
    using demo_tree_simps(3)
    by (simp add: rootHash_def finalizeTree_def Let_def demo_dproof_def tree_leaves_def
          zeroHashRoot_def demo_subtreeHash)
  show "verifySerializedProof demo_lib demo_proof 0 (replicate 32 7) = Inr True"
    using demo_verifyLoop [of "[0..<TREE_DEPTH]" "256 ^ 32 - 1" "replicate 32 7"] all_collapsed d
    unfolding verifySerializedProof_def verifyZeroHash_def
    by (simp add: demo_dproof_def hashesEqual_def isValidHash_def HASH_BYTE_LENGTH_def)
qed

section \<open>Properties\<close>

text \<open>C19: every DID added to a tree gets, once the tree is finalized, a serialized proof that the
  did:btcr2 verifier accepts for the DID's index and leaf; the proof names the tree's root, the
  nonce and the hash of the update.\<close>

theorem smt_proofs_verify:
  assumes "sha256_ok L" "base64url_ok L"
    and "addEntries L entries newMerkleTree = (t, Inr ())"
    and "e \<in> set entries" and "length (te_nonce e) = 32"
  shows "\<exists>i s root. didToIndex L (te_did e) = Inr i \<and>
     rootHash (finalizeTree L t) = Inr root \<and>
     treeProof L (te_did e) (finalizeTree L t) = Inr s \<and>
     verifySerializedProof L s i (entryLeaf L e) = Inr True \<and>
     sp_id s = base64url_encode L root \<and>
     sp_nonce s = Some (base64url_encode L (te_nonce e)) \<and>
     sp_updateId s = map_option (\<lambda>u. base64url_encode L (sha256 L u)) (te_signedUpdate e)"
proof -
  obtain i where i: "didToIndex L (te_did e) = Inr i" using didToIndex_Inr [OF assms(1)] by blast
  with assms(3,4) have "jm_get (mt_entries t) i = Some e" by (simp add: addEntries_entries)
  from treeProof_finalized [OF assms(1,2) addEntries_inv [OF tree_inv_new assms(3)] this assms(5)]
  show ?thesis using i by (auto simp: rootHash_def finalizeTree_def Let_def tree_leaves_def)
qed

lemma smt_proofs_verify_witness:
  "\<exists>i s root. didToIndex demo_lib (te_did demo_entry) = Inr i \<and>
     rootHash (finalizeTree demo_lib demo_tree) = Inr root \<and>
     treeProof demo_lib (te_did demo_entry) (finalizeTree demo_lib demo_tree) = Inr s \<and>
     verifySerializedProof demo_lib s i (entryLeaf demo_lib demo_entry) = Inr True \<and>
     sp_id s = base64url_encode demo_lib root"
  using smt_proofs_verify [OF demo_lib_ok(1,3) demo_tree_added, of demo_entry] by auto

text \<open>C13: when SHA-256 has no collision on the blocks hashed by the verifier and on the path of
  the index in the tree, a serialized proof that verifies against the tree's root proves what the
  tree holds at that index: the leaf of the DID's entry, or the empty leaf if it has none.\<close>

theorem smt_proof_sound:
  assumes "sha256_ok L" "tree_inv L t" "didToIndex L did = Inr i"
    and "deserializeProof L s = Inr d" "rootHash (finalizeTree L t) = Inr (dp_rootHash d)"
    and "verifySerializedProof L s i candidate = Inr True" "length candidate = 32"
    and "noCollision L (proofBlocks L (tree_leaves L t) (dp_collapsed d) (dp_hashes d) i candidate)"
  shows "(\<exists>e. jm_get (mt_entries t) i = Some e \<and> candidate = entryLeaf L e) \<or>
         (jm_get (mt_entries t) i = None \<and> candidate = CACHED_ZERO L 0)"
  using assms by (rule treeProof_only_held)

lemma smt_proof_sound_witness:
  "\<exists>e. jm_get (mt_entries demo_tree) 0 = Some e \<and> replicate 32 7 = entryLeaf demo_lib e"
  using smt_proof_sound [OF demo_lib_ok(1) demo_tree_simps(1) demo_entry_simps(3) demo_proof_facts]
    demo_noCollision by (simp add: demo_dproof_def)

text \<open>adding entries throws a \<open>RangeError\<close> exactly when two of the entries, held or added,
  have the same index; whether it throws or not, no index is held twice, every entry is stored at
  the index of its DID, and the index by DID agrees with the entries.\<close>

theorem addEntries_spec:
  assumes "sha256_ok L" "tree_inv L t"
  shows "tree_inv L (fst (addEntries L entries t)) \<and>
     snd (addEntries L entries t) =
       (if distinct (map (\<lambda>e. didToIndex L (te_did e)) (map snd (mt_entries t) @ entries))
        then Inr () else range_error)"
proof
  show "tree_inv L (fst (addEntries L entries t))"
    using addEntries_inv [OF assms(2)] by (cases "addEntries L entries t") simp
  let ?idx = "\<lambda>e. didToIndex L (te_did e)"
  have keys: "map ?idx (map snd (mt_entries t)) = map Inr (map fst (mt_entries t))"
    using assms(2) by (auto simp: tree_inv_def)
  have "distinct (map Inr (map fst (mt_entries t)) :: int result list)"
    using assms(2) unfolding tree_inv_def by (simp only: distinct_map [of Inr]) simp
  then have "distinct (map ?idx (map snd (mt_entries t) @ entries)) \<longleftrightarrow>
      distinct (map ?idx entries) \<and>
      (\<forall>e \<in> set entries. \<forall>i. ?idx e = Inr i \<longrightarrow> \<not> jm_has (mt_entries t) i)"
    unfolding map_append keys distinct_append jm_has_iff
    by (auto simp: didToIndex_Inr [OF assms(1)]) (metis fst_conv image_eqI)
  with addEntries_loop_ok_iff [OF assms(1), of entries t] addEntries_snd [OF assms(1), of entries t]
  show "snd (addEntries L entries t) = (if distinct (map ?idx (map snd (mt_entries t) @ entries))
      then Inr () else range_error)" by auto
qed

lemma addEntries_spec_witness:
  "tree_inv demo_lib (fst (addEntries demo_lib [demo_entry] demo_tree)) \<and>
   snd (addEntries demo_lib [demo_entry] demo_tree) = range_error"
proof -
  have "map snd (mt_entries demo_tree) = [demo_entry]"
    by (simp add: demo_tree_def addEntries_def newMerkleTree_def jm_has_def)
  then show ?thesis
    using addEntries_spec [OF demo_lib_ok(1) demo_tree_simps(1), of "[demo_entry]"] by simp
qed

text \<open>the hexadecimal, \<open>bigint\<close> and base64 forms of a hash are faithful: converting a 32-byte
  hash, or a number below \<open>2 ^ 256\<close>, and reading it back returns it, padded or not; converting a
  number to a hash throws exactly for the numbers that are not of 256 bits.\<close>

theorem hash_encodings_roundtrip:
  assumes "base64_ok L" "base64url_ok L" "isValidHash h" "0 \<le> v" "v < 2 ^ 256"
  shows "rbind (hashToHex h) hexToHash = Inr h \<and>
    rbind (hashToBigInt h) bigIntToHash = Inr h \<and>
    rbind (bigIntToHash v) hashToBigInt = Inr v \<and>
    rbind (hashToBase64 L h) (base64ToHash L) = Inr h \<and>
    rbind (hashToBase64Url L h) (base64UrlToHash L) = Inr h \<and>
    hexToBigInt (bigIntToHex v padded) padded = Inr v \<and>
    rbind (bigIntToBase64 L v padded) (\<lambda>s. base64ToBigInt L s padded) = Inr v \<and>
    (bigIntToHash w = range_error \<longleftrightarrow> w < 0 \<or> 2 ^ 256 \<le> w)"
  using assms hexToHash_hashToHex [OF assms(3)] hashToBigInt_roundtrip [OF assms(3)]
    bigIntToHash_roundtrip [OF assms(4,5)] hashToBase64_roundtrip [OF assms(1,3)]
    hashToBase64Url_roundtrip [OF assms(2,3)] hexToBigInt_bigIntToHex [OF assms(4,5)]
    base64ToBigInt_bigIntToBase64 [OF assms(1,4,5)] bigIntToHash_error_iff
  by blast

lemma hash_encodings_roundtrip_witness:
  "rbind (hashToHex (replicate 32 171)) hexToHash = Inr (replicate 32 171) \<and>
   rbind (bigIntToHash 258) hashToBigInt = Inr 258 \<and>
   hexToBigInt (bigIntToHex 258 False) False = Inr 258 \<and>
   bigIntToHash (- 1) = range_error"
proof -
  have "isValidHash (replicate 32 171)" by (simp add: isValidHash_def HASH_BYTE_LENGTH_def)
  from hash_encodings_roundtrip [OF demo_lib_ok(2,3) this, of 258 False "- 1"] show ?thesis by simp
qed

end
