(* ===== verification/DidBeacons.thy ===== *)
theory DidBeacons
  imports DidDocuments SmtTree
begin

text \<open>
  Beacons: \<open>packages/method/src/core/beacon\<close> (\<open>utils.ts\<close>, \<open>singleton-beacon.ts\<close>,
  \<open>cas-beacon.ts\<close>, \<open>smt-beacon.ts\<close>, \<open>factory.ts\<close>, \<open>signal-discovery.ts\<close>). A beacon turns the
  signals found on the chain into signed updates, or into needs for data the resolver does not
  hold yet. The locale \<open>beacon\<close> states the contract the resolver relies on; it is interpreted on
  the three kinds of beacon.
\<close>

section \<open>Services\<close>

abbreviation js_string :: "jsval \<Rightarrow> string result" where
  "js_string v \<equiv> (case v of JStr s \<Rightarrow> Inr s | _ \<Rightarrow> type_error)"

definition parseBitcoinAddress :: "string \<Rightarrow> string result" where
  "parseBitcoinAddress uri =
     (if \<not> starts_with ''bitcoin:'' uri then Inl (Error ''MethodError'' ''BEACON_SERVICE_ERROR'')
      else Inr (hd (split_char (CHR ''?'') (replace_first ''bitcoin:'' [] uri))))"

definition isBeaconService :: "jsval \<Rightarrow> bool" where
  "isBeaconService obj =
     (if \<not> isDidService obj then False
      else if js_prop_opt obj ''type'' \<notin> set (map JStr [''SingletonBeacon'', ''CASBeacon'', ''SMTBeacon'']) then False
      else case js_prop_opt obj ''serviceEndpoint'' of
        JStr ep \<Rightarrow> starts_with ''bitcoin:'' ep | _ \<Rightarrow> True)"

definition getBeaconServices :: "jsval \<Rightarrow> jsval list result" where
  "getBeaconServices didDocument =
     (case js_prop_opt didDocument ''service'' of
        JArr services \<Rightarrow> Inr (filter isBeaconService services)
      | _ \<Rightarrow> type_error)"

definition serviceAddress :: "jsval \<Rightarrow> string result" where
  "serviceAddress service = rbind (js_string (js_prop_opt service ''serviceEndpoint'')) parseBitcoinAddress"

definition generateBeaconServices ::
  "'x method_lib_scheme \<Rightarrow> string \<Rightarrow> bytes \<Rightarrow> string \<Rightarrow> string \<Rightarrow> jsval result" where
  "generateBeaconServices L docId publicKey network beaconType =
     (let service = (\<lambda>name addr. JObj [(''id'', JStr (docId @ ''#initial'' @ name)), (''type'', JStr beaconType),
                                  (''serviceEndpoint'', JStr (''bitcoin:'' @ addr))])
      in case (address_of L ''p2pkh'' publicKey network, address_of L ''p2wpkh'' publicKey network,
               address_of L ''p2tr'' (take 32 (drop 1 publicKey)) network) of
           (Some p2pkhAddr, Some p2wpkhAddr, Some p2trAddr) \<Rightarrow>
             if p2pkhAddr = [] \<or> p2wpkhAddr = [] \<or> p2trAddr = []
             then Inl (Error ''BeaconError'' ''BEACON_SERVICE_ERROR'')
             else Inr (JArr [service ''P2PKH'' p2pkhAddr, service ''P2WPKH'' p2wpkhAddr, service ''P2TR'' p2trAddr])
         | _ \<Rightarrow> Inl (Error ''BeaconError'' ''BEACON_SERVICE_ERROR''))"

definition parseBeaconServiceEndpoint :: "jsval \<Rightarrow> jsval result" where
  "parseBeaconServiceEndpoint service =
     rbind (js_string (js_prop_opt service ''serviceEndpoint'')) (\<lambda>ep.
       Inr (js_set_prop ''serviceEndpoint'' (JStr (replace_first ''bitcoin:'' [] ep)) service))"

section \<open>Signals, needs and sidecar data\<close>

record BlockMetadata =
  bm_height :: int
  bm_time :: int
  bm_confirmations :: int

record BeaconSignal =
  bs_signalBytes :: string
  bs_blockMetadata :: BlockMetadata

datatype data_need =
    NeedGenesisDocument (need_genesisHash: string)
  | NeedBeaconSignals (need_services: "jsval list")
  | NeedCASAnnouncement (need_announcementHash: string) (need_casServiceId: jsval)
  | NeedSignedUpdate (need_updateHash: string) (need_updateServiceId: jsval)
  | NeedSMTProof (need_smtRootHash: string) (need_smtServiceId: jsval)

record SidecarData =
  sd_updateMap :: "(string, jsval) jsmap"
  sd_casMap :: "(string, jsval) jsmap"
  sd_smtMap :: "(string, jsval) jsmap"

type_synonym update_block = "jsval \<times> BlockMetadata"

text \<open>A map lookup used as a condition: an absent or falsy value counts as missing.\<close>

definition lookup_truthy :: "(string, jsval) jsmap \<Rightarrow> string \<Rightarrow> jsval option" where
  "lookup_truthy m k = (case jm_get m k of Some v \<Rightarrow> if truthy v then Some v else None | None \<Rightarrow> None)"

section \<open>The three kinds of beacon\<close>

text \<open>What one signal contributes. The loops of the three \<open>processSignals\<close> methods collect these
  outcomes in the order of the signals.\<close>

datatype outcome = Skipped | Needs data_need | Found jsval

fun signalLoop ::
  "(BeaconSignal \<Rightarrow> outcome result) \<Rightarrow> BeaconSignal list \<Rightarrow> update_block list \<Rightarrow> data_need list
     \<Rightarrow> (update_block list \<times> data_need list) result" where
  "signalLoop step [] updates needs = Inr (updates, needs)"
| "signalLoop step (signal # signals) updates needs =
     rbind (step signal) (\<lambda>oc. case oc of
        Skipped \<Rightarrow> signalLoop step signals updates needs
      | Needs n \<Rightarrow> signalLoop step signals updates (needs @ [n])
      | Found u \<Rightarrow> signalLoop step signals (updates @ [(u, bs_blockMetadata signal)]) needs)"

definition serviceDid :: "jsval \<Rightarrow> string result" where
  "serviceDid service = rbind (js_string (js_prop_opt service ''id'')) (\<lambda>s. Inr (hd (split_char (CHR ''#'') s)))"

definition singletonStep :: "jsval \<Rightarrow> SidecarData \<Rightarrow> BeaconSignal \<Rightarrow> outcome result" where
  "singletonStep service sidecar signal =
     (let updateHash = bs_signalBytes signal in
      case lookup_truthy (sd_updateMap sidecar) updateHash of
        None \<Rightarrow> Inr (Needs (NeedSignedUpdate updateHash (js_prop_opt service ''id'')))
      | Some signedUpdate \<Rightarrow> Inr (Found signedUpdate))"

definition processSingleton ::
  "jsval \<Rightarrow> BeaconSignal list \<Rightarrow> SidecarData \<Rightarrow> (update_block list \<times> data_need list) result" where
  "processSingleton service signals sidecar = signalLoop (singletonStep service sidecar) signals [] []"

definition casStep ::
  "'x method_lib_scheme \<Rightarrow> jsval \<Rightarrow> string \<Rightarrow> SidecarData \<Rightarrow> BeaconSignal \<Rightarrow> outcome result" where
  "casStep L service did sidecar signal =
     (let announcementHash = bs_signalBytes signal in
      case lookup_truthy (sd_casMap sidecar) announcementHash of
        None \<Rightarrow> Inr (Needs (NeedCASAnnouncement announcementHash (js_prop_opt service ''id'')))
      | Some casAnnouncement \<Rightarrow>
         (case js_prop_opt casAnnouncement did of
            JStr updateHashEncoded \<Rightarrow>
              if updateHashEncoded = [] then Inr Skipped
              else rbind (decodeHash L ''base64urlnopad'' updateHashEncoded) (\<lambda>h.
                   rbind (encodeHash L ''hex'' h) (\<lambda>updateHash.
                   case lookup_truthy (sd_updateMap sidecar) updateHash of
                     None \<Rightarrow> Inr (Needs (NeedSignedUpdate updateHash (js_prop_opt service ''id'')))
                   | Some signedUpdate \<Rightarrow> Inr (Found signedUpdate)))
          | v \<Rightarrow> if truthy v then lib_error else Inr Skipped))"

definition processCAS ::
  "'x method_lib_scheme \<Rightarrow> jsval \<Rightarrow> BeaconSignal list \<Rightarrow> SidecarData
     \<Rightarrow> (update_block list \<times> data_need list) result" where
  "processCAS L service signals sidecar =
     rbind (serviceDid service) (\<lambda>did. signalLoop (casStep L service did sidecar) signals [] [])"

text \<open>The proof object as \<open>verifySerializedProof\<close> reads it; decoding a value that is not a string
  throws.\<close>

fun js_strings :: "jsval list \<Rightarrow> string list result" where
  "js_strings [] = Inr []"
| "js_strings (v # vs) = (case v of JStr s \<Rightarrow> rbind (js_strings vs) (\<lambda>ss. Inr (s # ss)) | _ \<Rightarrow> lib_error)"

definition opt_string :: "jsval \<Rightarrow> string option result" where
  "opt_string v = (case v of JStr s \<Rightarrow> Inr (Some s) | _ \<Rightarrow> if truthy v then lib_error else Inr None)"

definition smtProofOf :: "jsval \<Rightarrow> SerializedSMTProof result" where
  "smtProofOf v =
     (case (js_prop_opt v ''id'', js_prop_opt v ''collapsed'', js_prop_opt v ''hashes'') of
        (JStr proofId, JStr collapsed, JArr hashes) \<Rightarrow>
          rbind (js_strings hashes) (\<lambda>hashes.
          rbind (opt_string (js_prop_opt v ''nonce'')) (\<lambda>nonce.
          rbind (opt_string (js_prop_opt v ''updateId'')) (\<lambda>updateId.
            Inr \<lparr>sp_id = proofId, sp_nonce = nonce, sp_updateId = updateId,
                 sp_collapsed = collapsed, sp_hashes = hashes\<rparr>)))
      | _ \<Rightarrow> lib_error)"

definition smtStep ::
  "'x method_lib_scheme \<Rightarrow> jsval \<Rightarrow> string \<Rightarrow> SidecarData \<Rightarrow> BeaconSignal \<Rightarrow> outcome result" where
  "smtStep L service did sidecar signal =
     (let invalid = Inl (Error ''SMTBeaconError'' ''INVALID_SMT_PROOF'') in
      case lookup_truthy (sd_smtMap sidecar) (bs_signalBytes signal) of
        None \<Rightarrow> Inr (Needs (NeedSMTProof (bs_signalBytes signal) (js_prop_opt service ''id'')))
      | Some smtProof \<Rightarrow>
         if \<not> truthy (js_prop_opt smtProof ''nonce'') then invalid
         else rbind (smtProofOf smtProof) (\<lambda>p.
              rbind (didToIndex L did) (\<lambda>index.
              rbind (base64UrlToHash L (the (sp_nonce p))) (\<lambda>nonceHash.
              rbind (if truthy_str (sp_updateId p)
                     then rbind (base64UrlToHash L (the (sp_updateId p))) (\<lambda>u. Inr (blockHash L [blockHash L [nonceHash], u]))
                     else Inr (blockHash L [blockHash L [nonceHash]])) (\<lambda>candidateHash.
              rbind (verifySerializedProof L p index candidateHash) (\<lambda>valid.
              if \<not> valid then invalid
              else if \<not> truthy_str (sp_updateId p) then Inr Skipped
              else rbind (rbind (base64UrlToHash L (the (sp_updateId p))) hashToHex) (\<lambda>updateHashHex.
                   case lookup_truthy (sd_updateMap sidecar) updateHashHex of
                     None \<Rightarrow> Inr (Needs (NeedSignedUpdate updateHashHex (js_prop_opt service ''id'')))
                   | Some signedUpdate \<Rightarrow> Inr (Found signedUpdate))))))))"

definition processSMT ::
  "'x method_lib_scheme \<Rightarrow> jsval \<Rightarrow> BeaconSignal list \<Rightarrow> SidecarData
     \<Rightarrow> (update_block list \<times> data_need list) result" where
  "processSMT L service signals sidecar =
     rbind (serviceDid service) (\<lambda>did. signalLoop (smtStep L service did sidecar) signals [] [])"

text \<open>\<open>BeaconFactory.establish(service).processSignals(signals, sidecar)\<close>.\<close>

definition processSignals ::
  "'x method_lib_scheme \<Rightarrow> jsval \<Rightarrow> BeaconSignal list \<Rightarrow> SidecarData
     \<Rightarrow> (update_block list \<times> data_need list) result" where
  "processSignals L service signals sidecar =
     (let ty = js_prop_opt service ''type'' in
      if ty = JStr ''SingletonBeacon'' then processSingleton service signals sidecar
      else if ty = JStr ''CASBeacon'' then processCAS L service signals sidecar
      else if ty = JStr ''SMTBeacon'' then processSMT L service signals sidecar
      else Inl (Error ''MethodError'' ''INVALID_BEACON_ERROR''))"

section \<open>Signal discovery\<close>

definition is_space :: "char \<Rightarrow> bool" where
  "is_space c = (let n = of_char c :: nat in n = 32 \<or> 9 \<le> n \<and> n \<le> 13)"

text \<open>\<open>s.split(/\s+/)\<close>: the separators are the maximal runs of white space.\<close>

function split_spaces :: "string \<Rightarrow> string list" where
  "split_spaces s =
     (let word = takeWhile (\<lambda>c. \<not> is_space c) s; rest = dropWhile (\<lambda>c. \<not> is_space c) s
      in if rest = [] then [word] else word # split_spaces (dropWhile is_space rest))"
  by pat_completeness auto
termination
proof (relation "measure length")
  fix s :: string and word rest
  assume "rest = dropWhile (\<lambda>c. \<not> is_space c) s" "rest \<noteq> []"
  then have "length rest \<le> length s" "is_space (hd rest)"
    using length_dropWhile_le [of "\<lambda>c. \<not> is_space c" s] hd_dropWhile [of "\<lambda>c. \<not> is_space c" s] by auto
  moreover have "length (dropWhile is_space rest) < length rest"
    using \<open>rest \<noteq> []\<close> \<open>is_space (hd rest)\<close> length_dropWhile_le [of is_space "tl rest"]
    by (cases rest) auto
  ultimately show "(dropWhile is_space rest, s) \<in> measure length" by simp
qed simp

declare split_spaces.simps [simp del]

definition trim :: "string \<Rightarrow> string" where
  "trim s = rev (dropWhile is_space (rev (dropWhile is_space s)))"

definition extractOpReturnSignal :: "string option \<Rightarrow> string option" where
  "extractOpReturnSignal asm =
     (if \<not> truthy_str asm then None
      else case split_spaces (trim (the asm)) of
        [t0, t1, signalHash] \<Rightarrow>
          if t0 \<noteq> ''OP_RETURN'' \<or> t1 \<noteq> ''OP_PUSHBYTES_32'' then None
          else if length signalHash \<noteq> 64 \<or> \<not> list_all is_hex signalHash then None
          else Some (to_lower signalHash)
      | _ \<Rightarrow> None)"

record RestTx =
  rt_voutAsm :: "string option list"
  rt_height :: int
  rt_time :: int

definition restSignal :: "int \<Rightarrow> RestTx \<Rightarrow> BeaconSignal option" where
  "restSignal currentBlockCount tx =
     (if rt_voutAsm tx = [] then None
      else case extractOpReturnSignal (last (rt_voutAsm tx)) of
        None \<Rightarrow> None
      | Some updateHash \<Rightarrow> Some \<lparr>bs_signalBytes = updateHash, bs_blockMetadata =
          \<lparr>bm_height = rt_height tx, bm_time = rt_time tx,
           bm_confirmations = currentBlockCount - rt_height tx + 1\<rparr>\<rparr>)"

text \<open>\<open>txs\<close> is the indexer's answer for an address. The map is keyed by the service objects; they
  are told apart by their position.\<close>

definition indexerSignals ::
  "int \<Rightarrow> (string \<Rightarrow> RestTx list) \<Rightarrow> jsval list \<Rightarrow> ((nat \<times> jsval) \<times> BeaconSignal list) list result" where
  "indexerSignals currentBlockCount txs services =
     mapR (\<lambda>(i, service). rbind (serviceAddress service) (\<lambda>address.
        Inr ((i, service), List.map_filter (restSignal currentBlockCount) (txs address))))
       (enumerate 0 services)"

record RpcVin =
  vin_coinbase :: bool
  vin_txinwitness :: "string list"
  vin_txid :: "string option"
  vin_vout :: "nat option"

record RpcOutput =
  out_address :: "string option"
  out_asm :: "string option"

record RpcBlock =
  rb_height :: int
  rb_time :: int
  rb_confirmations :: int
  rb_txs :: "(string \<times> RpcVin list) list"

type_synonym signal_map = "((nat \<times> jsval), BeaconSignal list) jsmap"

text \<open>The handling of one input: \<open>serviceMap\<close> maps an address to the copy of its service that
  \<open>getBeaconServicesMap\<close> makes; the signals are stored under the original objects.\<close>

definition fullnodeVin ::
  "(string \<Rightarrow> RpcOutput list) \<Rightarrow> string \<Rightarrow> (string, nat \<times> jsval) jsmap \<Rightarrow> RpcBlock \<Rightarrow> RpcVin
     \<Rightarrow> signal_map \<Rightarrow> signal_map" where
  "fullnodeVin getRawTransaction coinbaseWitness serviceMap block vin signals =
     (if vin_coinbase vin then signals
      else if vin_txinwitness vin = [coinbaseWitness] then signals
      else case (vin_txid vin, vin_vout vin) of
        (Some txid, Some n) \<Rightarrow>
          if \<not> truthy_str (Some txid) then signals
          else let outs = getRawTransaction txid in
          if n \<ge> length outs then signals
          else let scriptPubKey = outs ! n in
          if \<not> truthy_str (out_address scriptPubKey) then signals
          else (case jm_get serviceMap (the (out_address scriptPubKey)) of
             None \<Rightarrow> signals
           | Some service \<Rightarrow>
              (case extractOpReturnSignal (out_asm scriptPubKey) of
                 None \<Rightarrow> signals
               | Some updateHash \<Rightarrow>
                  (case jm_get signals service of
                     None \<Rightarrow> signals
                   | Some found \<Rightarrow> jm_set service (found @ [\<lparr>bs_signalBytes = updateHash, bs_blockMetadata =
                       \<lparr>bm_height = rb_height block, bm_time = rb_time block,
                        bm_confirmations = rb_confirmations block\<rparr>\<rparr>]) signals)))
      | _ \<Rightarrow> signals)"

definition fullnodeBlock ::
  "(string \<Rightarrow> RpcOutput list) \<Rightarrow> string \<Rightarrow> string \<Rightarrow> (string, nat \<times> jsval) jsmap \<Rightarrow> RpcBlock
     \<Rightarrow> signal_map \<Rightarrow> signal_map" where
  "fullnodeBlock getRawTransaction genesisTxId coinbaseWitness serviceMap block signals =
     fold (\<lambda>(txid, vins) signals.
       if txid = genesisTxId then signals
       else fold (fullnodeVin getRawTransaction coinbaseWitness serviceMap block) vins signals)
     (rb_txs block) signals"

text \<open>The loop over the heights stops at the first block above the target.\<close>

fun fullnodeLoop :: "(nat \<Rightarrow> RpcBlock) \<Rightarrow> int \<Rightarrow> (RpcBlock \<Rightarrow> signal_map \<Rightarrow> signal_map) \<Rightarrow> nat list
     \<Rightarrow> signal_map \<Rightarrow> signal_map" where
  "fullnodeLoop getBlock targetHeight body [] signals = signals"
| "fullnodeLoop getBlock targetHeight body (h # hs) signals =
     (if rb_height (getBlock h) \<le> targetHeight
      then fullnodeLoop getBlock targetHeight body hs (body (getBlock h) signals) else signals)"

definition fullnodeSignals ::
  "(nat \<Rightarrow> RpcBlock) \<Rightarrow> (string \<Rightarrow> RpcOutput list) \<Rightarrow> string \<Rightarrow> string \<Rightarrow> nat \<Rightarrow> jsval list \<Rightarrow> signal_map result" where
  "fullnodeSignals getBlock getRawTransaction genesisTxId coinbaseWitness targetHeight services =
     (let n = length services;
          signals = map (\<lambda>s. (s, [])) (enumerate 0 services)
      in rbind (mapR (\<lambda>(i, service). rbind (parseBeaconServiceEndpoint service) (\<lambda>copy.
                  rbind (js_string (js_prop_opt copy ''serviceEndpoint'')) (\<lambda>ep. Inr (ep, (n + i, copy)))))
                (enumerate 0 services)) (\<lambda>pairs.
         let serviceMap = fold (\<lambda>(k, v) m. jm_set k v m) pairs []
         in Inr (fullnodeLoop getBlock (int targetHeight)
                   (fullnodeBlock getRawTransaction genesisTxId coinbaseWitness serviceMap)
                   [0..<Suc targetHeight] signals)))"

section \<open>The contract of a beacon\<close>

definition need_missing :: "SidecarData \<Rightarrow> data_need \<Rightarrow> bool" where
  "need_missing sd n = (case n of
      NeedSignedUpdate h _ \<Rightarrow> lookup_truthy (sd_updateMap sd) h = None
    | NeedCASAnnouncement h _ \<Rightarrow> lookup_truthy (sd_casMap sd) h = None
    | NeedSMTProof h _ \<Rightarrow> lookup_truthy (sd_smtMap sd) h = None
    | _ \<Rightarrow> False)"

definition map_le_truthy :: "(string, jsval) jsmap \<Rightarrow> (string, jsval) jsmap \<Rightarrow> bool" where
  "map_le_truthy m m' \<longleftrightarrow> (\<forall>k v. lookup_truthy m k = Some v \<longrightarrow> lookup_truthy m' k = Some v)"

text \<open>The sidecar data has grown: what could be looked up still gives the same value.\<close>

definition sidecar_le :: "SidecarData \<Rightarrow> SidecarData \<Rightarrow> bool" where
  "sidecar_le sd sd' \<longleftrightarrow>
     map_le_truthy (sd_updateMap sd) (sd_updateMap sd') \<and>
     map_le_truthy (sd_casMap sd) (sd_casMap sd') \<and> map_le_truthy (sd_smtMap sd) (sd_smtMap sd')"

definition held_updates :: "SidecarData \<Rightarrow> jsval set" where
  "held_updates sd = {u. \<exists>h. lookup_truthy (sd_updateMap sd) h = Some u}"

locale beacon =
  fixes prepare :: "'c result"
    and step :: "'c \<Rightarrow> SidecarData \<Rightarrow> BeaconSignal \<Rightarrow> outcome result"
    and process :: "BeaconSignal list \<Rightarrow> SidecarData \<Rightarrow> (update_block list \<times> data_need list) result"
  assumes process_loop: "process signals sd = rbind prepare (\<lambda>c. signalLoop (step c sd) signals [] [])"
    and found_held: "step c sd s = Inr (Found u) \<Longrightarrow> u \<in> held_updates sd"
    and needs_missing: "step c sd s = Inr (Needs n) \<Longrightarrow> need_missing sd n"
    and found_stable: "step c sd s = Inr (Found u) \<Longrightarrow> sidecar_le sd sd' \<Longrightarrow> step c sd' s = Inr (Found u)"
    and skipped_stable: "step c sd s = Inr Skipped \<Longrightarrow> sidecar_le sd sd' \<Longrightarrow> step c sd' s = Inr Skipped"
begin

lemma loop_found:
  assumes "signalLoop (step c sd) signals us ns = Inr (us', ns')"
  shows "\<exists>new. us' = us @ new \<and> (\<forall>(u, b) \<in> set new. \<exists>s \<in> set signals.
     b = bs_blockMetadata s \<and> step c sd s = Inr (Found u))"
  using assms
proof (induction signals arbitrary: us ns)
  case (Cons s signals)
  then obtain oc where oc: "step c sd s = Inr oc" by (auto simp: rbind_Inr_iff)
  show ?case
  proof (cases oc)
    case (Found u)
    with Cons oc have "signalLoop (step c sd) signals (us @ [(u, bs_blockMetadata s)]) ns = Inr (us', ns')" by simp
    from Cons.IH [OF this] obtain new where "us' = us @ (u, bs_blockMetadata s) # new"
      "\<forall>(u, b) \<in> set new. \<exists>s \<in> set signals. b = bs_blockMetadata s \<and> step c sd s = Inr (Found u)" by auto
    with oc Found show ?thesis by (intro exI [of _ "(u, bs_blockMetadata s) # new"]) auto
  qed (use Cons oc in \<open>auto dest!: Cons.IH\<close>)
qed simp

lemma loop_needs:
  assumes "signalLoop (step c sd) signals us ns = Inr (us', ns')"
  shows "\<exists>new. ns' = ns @ new \<and> (\<forall>n \<in> set new. need_missing sd n)"
  using assms
proof (induction signals arbitrary: us ns)
  case (Cons s signals)
  then obtain oc where oc: "step c sd s = Inr oc" by (auto simp: rbind_Inr_iff)
  show ?case
  proof (cases oc)
    case (Needs n)
    with Cons oc have "signalLoop (step c sd) signals us (ns @ [n]) = Inr (us', ns')" by simp
    from Cons.IH [OF this] needs_missing [of c sd s n] oc Needs show ?thesis by auto
  qed (use Cons oc in \<open>auto dest!: Cons.IH\<close>)
qed simp

lemma loop_stable:
  assumes "signalLoop (step c sd) signals us ns = Inr (us', ns)" "sidecar_le sd sd'"
  shows "signalLoop (step c sd') signals us ns = Inr (us', ns)"
  using assms(1)
proof (induction signals arbitrary: us)
  case (Cons s signals)
  then obtain oc where oc: "step c sd s = Inr oc" by (auto simp: rbind_Inr_iff)
  show ?case
  proof (cases oc)
    case (Needs n)
    with Cons oc have "signalLoop (step c sd) signals us (ns @ [n]) = Inr (us', ns)" by simp
    from loop_needs [OF this] show ?thesis by simp
  qed (use Cons oc found_stable [OF _ assms(2)] skipped_stable [OF _ assms(2)] in auto)
qed simp

text \<open>The updates are what the signals stand for, come from the sidecar data and carry the block of
  their signal.\<close>

lemma updates_from_signals:
  "process signals sd = Inr (us, ns) \<Longrightarrow> (u, b) \<in> set us \<Longrightarrow>
     \<exists>c. prepare = Inr c \<and> (\<exists>s \<in> set signals. b = bs_blockMetadata s \<and> step c sd s = Inr (Found u))"
  using loop_found by (fastforce simp: process_loop rbind_Inr_iff)

lemma updates_from_sidecar:
  "process signals sd = Inr (us, ns) \<Longrightarrow> (u, b) \<in> set us \<Longrightarrow>
     u \<in> held_updates sd \<and> b \<in> bs_blockMetadata ` set signals"
  by (drule (1) updates_from_signals) (auto intro: found_held)

text \<open>Every need names data that is not held.\<close>

lemma needs_are_missing: "process signals sd = Inr (us, ns) \<Longrightarrow> n \<in> set ns \<Longrightarrow> need_missing sd n"
  using loop_needs by (fastforce simp: process_loop rbind_Inr_iff)

text \<open>Once nothing is needed, more data does not change the updates.\<close>

lemma processed_stable:
  assumes "process signals sd = Inr (us, [])" "sidecar_le sd sd'"
  shows "process signals sd' = Inr (us, [])"
proof -
  from assms(1) obtain c where c: "prepare = Inr c" "signalLoop (step c sd) signals [] [] = Inr (us, [])"
    by (auto simp: process_loop rbind_Inr_iff)
  from loop_stable [OF c(2) assms(2)] c(1) show ?thesis by (simp add: process_loop)
qed

end

lemma lookup_held [intro]: "lookup_truthy (sd_updateMap sd) h = Some u \<Longrightarrow> u \<in> held_updates sd"
  by (auto simp: held_updates_def)

lemma sidecar_le_lookup:
  assumes "sidecar_le sd sd'"
  shows "lookup_truthy (sd_updateMap sd) h = Some v \<Longrightarrow> lookup_truthy (sd_updateMap sd') h = Some v"
    "lookup_truthy (sd_casMap sd) h = Some v \<Longrightarrow> lookup_truthy (sd_casMap sd') h = Some v"
    "lookup_truthy (sd_smtMap sd) h = Some v \<Longrightarrow> lookup_truthy (sd_smtMap sd') h = Some v"
  using assms unfolding sidecar_le_def map_le_truthy_def by blast+

lemma singletonStep_iff:
  "singletonStep service sd s = Inr (Found u) \<longleftrightarrow> lookup_truthy (sd_updateMap sd) (bs_signalBytes s) = Some u"
  "singletonStep service sd s = Inr (Needs n) \<longleftrightarrow>
     n = NeedSignedUpdate (bs_signalBytes s) (js_prop_opt service ''id'') \<and>
     lookup_truthy (sd_updateMap sd) (bs_signalBytes s) = None"
  "singletonStep service sd s \<noteq> Inr Skipped"
  by (auto simp: singletonStep_def Let_def split: option.splits)

interpretation singleton_beacon: beacon "Inr ()" "\<lambda>_. singletonStep service" "processSingleton service"
  for service
  by unfold_locales
     (auto simp: processSingleton_def singletonStep_iff need_missing_def dest: sidecar_le_lookup)

text \<open>The hash a CAS announcement holds for the DID; \<open>None\<close> when it holds none.\<close>

definition casUpdateHash :: "'x method_lib_scheme \<Rightarrow> jsval \<Rightarrow> string \<Rightarrow> string option result" where
  "casUpdateHash L casAnnouncement did = (case js_prop_opt casAnnouncement did of
      JStr enc \<Rightarrow>
        if enc = [] then Inr None
        else rbind (decodeHash L ''base64urlnopad'' enc) (\<lambda>h. rbind (encodeHash L ''hex'' h) (\<lambda>x. Inr (Some x)))
    | v \<Rightarrow> if truthy v then lib_error else Inr None)"

definition updateOutcome :: "jsval \<Rightarrow> SidecarData \<Rightarrow> string option \<Rightarrow> outcome" where
  "updateOutcome service sd h = (case h of
      None \<Rightarrow> Skipped
    | Some updateHash \<Rightarrow>
       (case lookup_truthy (sd_updateMap sd) updateHash of
          None \<Rightarrow> Needs (NeedSignedUpdate updateHash (js_prop_opt service ''id''))
        | Some u \<Rightarrow> Found u))"

lemma casStep_alt:
  "casStep L service did sd s =
     (case lookup_truthy (sd_casMap sd) (bs_signalBytes s) of
        None \<Rightarrow> Inr (Needs (NeedCASAnnouncement (bs_signalBytes s) (js_prop_opt service ''id'')))
      | Some ann \<Rightarrow> rbind (casUpdateHash L ann did) (\<lambda>h. Inr (updateOutcome service sd h)))"
  by (simp add: casStep_def casUpdateHash_def updateOutcome_def Let_def rbind_def
      split: option.split jsval.split sum.split)

text \<open>What the SMT proof for a signal says of the DID: the hash of its update, or none; it throws
  when the proof is not valid.\<close>

definition smtUpdateHash :: "'x method_lib_scheme \<Rightarrow> jsval \<Rightarrow> string \<Rightarrow> string option result" where
  "smtUpdateHash L smtProof did =
     (let invalid = Inl (Error ''SMTBeaconError'' ''INVALID_SMT_PROOF'') in
      if \<not> truthy (js_prop_opt smtProof ''nonce'') then invalid
      else rbind (smtProofOf smtProof) (\<lambda>p.
           rbind (didToIndex L did) (\<lambda>index.
           rbind (base64UrlToHash L (the (sp_nonce p))) (\<lambda>nonceHash.
           rbind (if truthy_str (sp_updateId p)
                  then rbind (base64UrlToHash L (the (sp_updateId p))) (\<lambda>u. Inr (blockHash L [blockHash L [nonceHash], u]))
                  else Inr (blockHash L [blockHash L [nonceHash]])) (\<lambda>candidateHash.
           rbind (verifySerializedProof L p index candidateHash) (\<lambda>valid.
           if \<not> valid then invalid
           else if \<not> truthy_str (sp_updateId p) then Inr None
           else rbind (rbind (base64UrlToHash L (the (sp_updateId p))) hashToHex) (\<lambda>x. Inr (Some x))))))))"

lemma smtStep_alt:
  "smtStep L service did sd s =
     (case lookup_truthy (sd_smtMap sd) (bs_signalBytes s) of
        None \<Rightarrow> Inr (Needs (NeedSMTProof (bs_signalBytes s) (js_prop_opt service ''id'')))
      | Some p \<Rightarrow> rbind (smtUpdateHash L p did) (\<lambda>h. Inr (updateOutcome service sd h)))"
  by (simp add: smtStep_def smtUpdateHash_def updateOutcome_def Let_def rbind_def
      split: option.split sum.split)

lemma updateOutcome_iff:
  "updateOutcome service sd h = Found u \<longleftrightarrow>
     (\<exists>x. h = Some x \<and> lookup_truthy (sd_updateMap sd) x = Some u)"
  "updateOutcome service sd h = Needs n \<longleftrightarrow>
     (\<exists>x. h = Some x \<and> n = NeedSignedUpdate x (js_prop_opt service ''id'') \<and>
          lookup_truthy (sd_updateMap sd) x = None)"
  "updateOutcome service sd h = Skipped \<longleftrightarrow> h = None"
  by (auto simp: updateOutcome_def split: option.splits)

lemma casStep_iff:
  "casStep L service did sd s = Inr (Found u) \<longleftrightarrow>
     (\<exists>ann x. lookup_truthy (sd_casMap sd) (bs_signalBytes s) = Some ann \<and>
        casUpdateHash L ann did = Inr (Some x) \<and> lookup_truthy (sd_updateMap sd) x = Some u)"
  "casStep L service did sd s = Inr Skipped \<longleftrightarrow>
     (\<exists>ann. lookup_truthy (sd_casMap sd) (bs_signalBytes s) = Some ann \<and> casUpdateHash L ann did = Inr None)"
  "casStep L service did sd s = Inr (Needs n) \<Longrightarrow> need_missing sd n"
  unfolding casStep_alt
  by (auto simp: rbind_Inr_iff updateOutcome_iff need_missing_def split: option.splits)

lemma smtStep_iff:
  "smtStep L service did sd s = Inr (Found u) \<longleftrightarrow>
     (\<exists>p x. lookup_truthy (sd_smtMap sd) (bs_signalBytes s) = Some p \<and>
        smtUpdateHash L p did = Inr (Some x) \<and> lookup_truthy (sd_updateMap sd) x = Some u)"
  "smtStep L service did sd s = Inr Skipped \<longleftrightarrow>
     (\<exists>p. lookup_truthy (sd_smtMap sd) (bs_signalBytes s) = Some p \<and> smtUpdateHash L p did = Inr None)"
  "smtStep L service did sd s = Inr (Needs n) \<Longrightarrow> need_missing sd n"
  unfolding smtStep_alt
  by (auto simp: rbind_Inr_iff updateOutcome_iff need_missing_def split: option.splits)

interpretation cas_beacon: beacon "serviceDid service" "casStep L service" "processCAS L service"
  for L service
  by unfold_locales
     (auto simp: processCAS_def casStep_iff(1,2) intro: casStep_iff(3), (blast dest: sidecar_le_lookup)+)

interpretation smt_beacon: beacon "serviceDid service" "smtStep L service" "processSMT L service"
  for L service
  by unfold_locales
     (auto simp: processSMT_def smtStep_iff(1,2) intro: smtStep_iff(3), (blast dest: sidecar_le_lookup)+)

end
