(* ===== verification/DidResolver.thy ===== *)
theory DidResolver
  imports DidBeacons
begin

text \<open>
  The sans-I/O resolver of \<open>packages/method/src/core/resolver.ts\<close>: the state machine of the class
  \<open>Resolver\<close> (\<open>resolve\<close>, \<open>provide\<close>), the establishment of the initial document, the application of
  signed updates (\<open>updates\<close>, \<open>confirmDuplicate\<close>, \<open>applyUpdate\<close>) and \<open>DidBtcr2.resolve\<close>. The record
  \<open>Resolver\<close> has the private fields of the class. An iteration of the loop in \<open>resolve\<close> is
  \<open>resolveStep\<close>; it is total, and \<open>resolveLoop\<close> iterates it with fuel. What an iteration assigns
  before it throws stays assigned.

  The \<open>targetVersionId\<close> of an update is read as an integer, as its type says and as \<open>provide\<close>
  checks; another value counts as not comparable.
\<close>

section \<open>Updates\<close>

record Response =
  rr_didDocument :: jsval
  rr_versionId :: string
  rr_confirmations :: "int option"
  rr_updated :: "string option"
  rr_deactivated :: jsval

abbreviation resolve_error :: "string \<Rightarrow> error + 'a" where
  "resolve_error c \<equiv> Inl (Error ''ResolveError'' c)"

definition targetVersion :: "jsval \<Rightarrow> int option" where
  "targetVersion update = (case js_prop_opt update ''targetVersionId'' of JInt i \<Rightarrow> Some i | _ \<Rightarrow> None)"

definition decodeProperty :: "'x method_lib_scheme \<Rightarrow> jsval \<Rightarrow> bytes result" where
  "decodeProperty L v = (case v of JStr s \<Rightarrow> decodeHash L ''base64urlnopad'' s | _ \<Rightarrow> lib_error)"

definition confirmDuplicate :: "'x method_lib_scheme \<Rightarrow> jsval \<Rightarrow> bytes list \<Rightarrow> unit result" where
  "confirmDuplicate L update updateHashHistory =
     (case targetVersion update of
        None \<Rightarrow> resolve_error ''INVALID_DID_UPDATE''
      | Some target \<Rightarrow>
         if target < 2 then resolve_error ''INVALID_DID_UPDATE''
         else rbind (rest_without ''proof'' update) (\<lambda>unsignedUpdate.
              rbind (canonicalHashBytes L unsignedUpdate) (\<lambda>unsignedUpdateHash.
              let i = nat (target - 2) in
              if i \<ge> length updateHashHistory then resolve_error ''LATE_PUBLISHING_ERROR''
              else if updateHashHistory ! i \<noteq> unsignedUpdateHash then resolve_error ''LATE_PUBLISHING_ERROR''
              else Inr ())))"

definition applyUpdate :: "'x method_lib_scheme \<Rightarrow> jsval \<Rightarrow> jsval \<Rightarrow> jsval result" where
  "applyUpdate L currentDocument update =
     (let proof = js_prop_opt update ''proof'';
          capabilityId = js_prop_opt proof ''capability'';
          verificationMethodId = js_prop_opt proof ''verificationMethod'';
          invalid = resolve_error ''INVALID_DID_UPDATE''
      in if \<not> truthy capabilityId then invalid
         else rbind (js_string capabilityId) (\<lambda>capabilityId.
              rbind (dereferenceZcapId capabilityId) (\<lambda>rootCapability.
              if JStr (rc_invocationTarget rootCapability) \<noteq> js_prop_opt currentDocument ''id'' \<or>
                 JStr (rc_controller rootCapability) \<noteq> js_prop_opt currentDocument ''id'' then invalid
              else if \<not> truthy verificationMethodId then invalid
              else rbind (getSigningMethod L currentDocument verificationMethodId) (\<lambda>vm.
                   rbind (fromVerificationMethod L vm) (\<lambda>multikey.
                   rbind (canonicalize L update) (\<lambda>canonicalUpdate.
                   rbind (verifyProof L multikey canonicalUpdate ''capabilityInvocation'' None DomainAbsent None) (\<lambda>verificationResult.
                   if \<not> vr_verified verificationResult then invalid
                   else rbind (JSONPatch_apply L currentDocument (js_prop_opt update ''patch'')) (\<lambda>updatedDocument.
                        rbind (validateDocument L updatedDocument) (\<lambda>_.
                        rbind (canonicalHashBytes L updatedDocument) (\<lambda>currentDocumentHash.
                        rbind (decodeProperty L (js_prop_opt update ''targetHash'')) (\<lambda>updateTargetHash.
                        if updateTargetHash \<noteq> currentDocumentHash then invalid
                        else Inr updatedDocument)))))))))))"

text \<open>The sort of \<open>updates\<close> is stable; the target version decides before the block height.\<close>

definition sortUpdates :: "update_block list \<Rightarrow> update_block list" where
  "sortUpdates us =
     sort_key (\<lambda>(u, b). case targetVersion u of Some i \<Rightarrow> i | None \<Rightarrow> 0)
       (sort_key (\<lambda>(u, b). bm_height b) us)"

text \<open>One round of the loop over the sorted updates: go on, return the response, or throw. The hash
  history is shared with the caller, so it is part of the result in all three cases.\<close>

datatype 'a control = Continue 'a | Return 'a | Throw error

type_synonym update_state = "nat \<times> bytes list \<times> Response"

definition updateRound ::
  "'x method_lib_scheme \<Rightarrow> string option \<Rightarrow> string option \<Rightarrow> update_block \<Rightarrow> update_state
     \<Rightarrow> bytes list \<times> update_state control" where
  "updateRound L versionTime versionId ub st =
     (let (update, block) = ub; (currentVersionId, history, response) = st;
          blocktime = blocktimeToTimestamp (bm_time block)
      in case canonicalHashBytes L (rr_didDocument response) of
           Inl e \<Rightarrow> (history, Throw e)
         | Inr currentDocumentHash \<Rightarrow>
      (case toISOStringNonFractional blocktime of
         Inl e \<Rightarrow> (history, Throw e)
       | Inr updated \<Rightarrow>
          let response = response\<lparr>rr_updated := Some updated, rr_confirmations := Some (bm_confirmations block)\<rparr> in
          if (case targetVersion update of Some t \<Rightarrow> t \<le> int currentVersionId | None \<Rightarrow> False) then
            (case confirmDuplicate L update history of
               Inl e \<Rightarrow> (history, Throw e)
             | Inr _ \<Rightarrow> (history, Continue (currentVersionId, history, response)))
          else if truthy_str versionTime \<and> dateStringToTimestamp L (the versionTime) < the blocktime
          then (history, Return (currentVersionId, history, response))
          else if targetVersion update = Some (int currentVersionId + 1) then
            (case decodeProperty L (js_prop_opt update ''sourceHash'') of
               Inl e \<Rightarrow> (history, Throw e)
             | Inr sourceHashBytes \<Rightarrow>
                if sourceHashBytes \<noteq> currentDocumentHash
                then (history, Throw (Error ''ResolveError'' ''INVALID_DID_UPDATE''))
                else case applyUpdate L (rr_didDocument response) update of
                  Inl e \<Rightarrow> (history, Throw e)
                | Inr doc \<Rightarrow>
                   (case canonicalHashBytes L (deleteKeys [''proof''] update) of
                      Inl e \<Rightarrow> (history, Throw e)
                    | Inr unsignedHash \<Rightarrow>
                       let history = history @ [unsignedHash];
                           version = currentVersionId + 1;
                           response = response\<lparr>rr_didDocument := doc, rr_versionId := show_nat version\<rparr>;
                           reached = (case versionId of None \<Rightarrow> False | Some s \<Rightarrow> js_number_le s version)
                       in if reached
                          then (history, Return (version, history, response))
                          else if truthy (js_prop_opt doc ''deactivated'')
                          then (history, Return (version, history,
                                  response\<lparr>rr_deactivated := js_prop_opt doc ''deactivated''\<rparr>))
                          else (history, Continue (version, history, response))))
          else (history, Throw (Error ''ResolveError'' ''LATE_PUBLISHING_ERROR''))))"

fun updatesLoop ::
  "'x method_lib_scheme \<Rightarrow> string option \<Rightarrow> string option \<Rightarrow> update_block list \<Rightarrow> update_state
     \<Rightarrow> bytes list \<times> Response result" where
  "updatesLoop L versionTime versionId [] st = (fst (snd st), Inr (snd (snd st)))"
| "updatesLoop L versionTime versionId (ub # ubs) st =
     (case updateRound L versionTime versionId ub st of
        (history, Throw e) \<Rightarrow> (history, Inl e)
      | (history, Return st') \<Rightarrow> (history, Inr (snd (snd st')))
      | (history, Continue st') \<Rightarrow> updatesLoop L versionTime versionId ubs st')"

definition resolverUpdates ::
  "'x method_lib_scheme \<Rightarrow> jsval \<Rightarrow> update_block list \<Rightarrow> string option \<Rightarrow> string option \<Rightarrow> nat \<Rightarrow> bytes list
     \<Rightarrow> bytes list \<times> Response result" where
  "resolverUpdates L currentDocument unsortedUpdates versionTime versionId currentVersionId updateHashHistory =
     updatesLoop L versionTime versionId (sortUpdates unsortedUpdates)
       (currentVersionId, updateHashHistory,
        \<lparr>rr_didDocument = currentDocument, rr_versionId = show_nat currentVersionId,
         rr_confirmations = Some 0, rr_updated = Some [],
         rr_deactivated = js_or (js_prop_opt currentDocument ''deactivated'') (JBool False)\<rparr>)"

section \<open>The initial document and the sidecar data\<close>

definition getNetwork :: "network_name \<Rightarrow> string result" where
  "getNetwork network =
     (case network of
        NetName n \<Rightarrow>
          if n = ''bitcoin'' then Inr ''mainnet''
          else if n \<in> set [''testnet3'', ''testnet4'', ''signet'', ''mutinynet''] then Inr ''testnet''
          else if n = ''regtest'' then Inr ''regtest''
          else Inl (Error ''Error'' '''')
      | NetNumber _ \<Rightarrow> Inl (Error ''Error'' ''''))"

definition deterministic :: "'x method_lib_scheme \<Rightarrow> DidComponents \<Rightarrow> jsval result" where
  "deterministic L didComponents =
     (let genesisBytes = dc_genesisBytes didComponents in
      rbind (encodeIdentifier L genesisBytes (dc_idType didComponents) (dc_version didComponents)
               (dc_network didComponents)) (\<lambda>did.
      rbind (newPublicKey L genesisBytes) (\<lambda>publicKey.
      rbind (getNetwork (dc_network didComponents)) (\<lambda>network.
      rbind (generateBeaconServices L did genesisBytes network ''SingletonBeacon'') (\<lambda>service.
        newDidDocument L (JObj
          [(''id'', JStr did),
           (''verificationMethod'', JArr [JObj
              [(''id'', JStr (did @ ''#initialKey'')), (''type'', JStr ''Multikey''),
               (''controller'', JStr did), (''publicKeyMultibase'', JStr (publicKeyMultibase L publicKey))]]),
           (''service'', service)]))))))"

definition externalDocument :: "'x method_lib_scheme \<Rightarrow> DidComponents \<Rightarrow> jsval \<Rightarrow> jsval result" where
  "externalDocument L didComponents genesisDocument =
     rbind (canonicalHashBytes L genesisDocument) (\<lambda>genesisDocumentHash.
       if dc_genesisBytes didComponents \<noteq> genesisDocumentHash then resolve_error ''INVALID_DID_DOCUMENT''
       else rbind (encodeIdentifier L (dc_genesisBytes didComponents) (dc_idType didComponents)
                     (dc_version didComponents) (dc_network didComponents)) (\<lambda>did.
            newDidDocument L (replaceStrings ID_PLACEHOLDER_VALUE did (jsonRoundTrip genesisDocument))))"

record Sidecar =
  sc_genesisDocument :: "jsval option"
  sc_updates :: "jsval list"
  sc_casUpdates :: "jsval list"
  sc_smtProofs :: "jsval list"

fun keyedBy :: "(jsval \<Rightarrow> string result) \<Rightarrow> jsval list \<Rightarrow> (string, jsval) jsmap \<Rightarrow> (string, jsval) jsmap result" where
  "keyedBy f [] m = Inr m"
| "keyedBy f (v # vs) m = rbind (f v) (\<lambda>k. keyedBy f vs (jm_set k v m))"

definition smtProofKey :: "'x method_lib_scheme \<Rightarrow> jsval \<Rightarrow> string result" where
  "smtProofKey L p = rbind (decodeProperty L (js_prop_opt p ''id'')) (\<lambda>h. encodeHash L ''hex'' h)"

definition sidecarData :: "'x method_lib_scheme \<Rightarrow> Sidecar \<Rightarrow> SidecarData result" where
  "sidecarData L sidecar =
     rbind (keyedBy (canonicalHash L ''hex'') (sc_updates sidecar) []) (\<lambda>updateMap.
     rbind (keyedBy (canonicalHash L ''hex'') (sc_casUpdates sidecar) []) (\<lambda>casMap.
     rbind (keyedBy (smtProofKey L) (sc_smtProofs sidecar) []) (\<lambda>smtMap.
       Inr \<lparr>sd_updateMap = updateMap, sd_casMap = casMap, sd_smtMap = smtMap\<rparr>)))"

section \<open>The state machine\<close>

datatype resolver_phase = GenesisDocument | BeaconDiscovery | BeaconProcess | ApplyUpdates | Complete

record Resolver =
  rs_didComponents :: DidComponents
  rs_versionId :: "string option"
  rs_versionTime :: "string option"
  rs_phase :: resolver_phase
  rs_sidecarData :: SidecarData
  rs_currentDocument :: jsval
  rs_providedGenesisDocument :: "jsval option"
  rs_beaconServicesSignals :: signal_map
  rs_processedServices :: "jsval list"
  rs_requestCache :: "string list"
  rs_unsortedUpdates :: "update_block list"
  rs_resolvedResponse :: "Response option"
  rs_currentVersionId :: nat
  rs_updateHashHistory :: "bytes list"
  rs_maxDiscoveryRounds :: "nat option"
  rs_discoveryRounds :: nat

datatype resolver_state = ActionRequired "data_need list" | Resolved Response

text \<open>The constructor; no document (\<open>null\<close>) and no limit on the rounds (\<open>Infinity\<close>) are \<open>None\<close>.\<close>

definition newResolver ::
  "DidComponents \<Rightarrow> SidecarData \<Rightarrow> jsval option \<Rightarrow> string option \<Rightarrow> string option \<Rightarrow> jsval option \<Rightarrow> int option
     \<Rightarrow> Resolver" where
  "newResolver didComponents sidecar currentDocument versionId versionTime genesisDocument rounds =
     \<lparr>rs_didComponents = didComponents, rs_versionId = versionId, rs_versionTime = versionTime,
      rs_phase = (if currentDocument = None then GenesisDocument else BeaconDiscovery),
      rs_sidecarData = sidecar,
      rs_currentDocument = (case currentDocument of Some d \<Rightarrow> d | None \<Rightarrow> JNull),
      rs_providedGenesisDocument = genesisDocument, rs_beaconServicesSignals = [],
      rs_processedServices = [], rs_requestCache = [], rs_unsortedUpdates = [],
      rs_resolvedResponse = None, rs_currentVersionId = 1, rs_updateHashHistory = [],
      rs_maxDiscoveryRounds = (case rounds of Some r \<Rightarrow> if r > 0 then Some (nat r) else None | None \<Rightarrow> None),
      rs_discoveryRounds = 0\<rparr>"

definition withAddresses :: "jsval list \<Rightarrow> (jsval \<times> string) list result" where
  "withAddresses services = mapR (\<lambda>s. rbind (serviceAddress s) (\<lambda>a. Inr (s, a))) services"

text \<open>The loop of \<open>BeaconProcess\<close> over the services with signals.\<close>

fun beaconProcessLoop ::
  "'x method_lib_scheme \<Rightarrow> ((nat \<times> jsval) \<times> BeaconSignal list) list \<Rightarrow> Resolver \<Rightarrow> data_need list
     \<Rightarrow> Resolver \<times> data_need list result" where
  "beaconProcessLoop L [] s allNeeds = (s, Inr allNeeds)"
| "beaconProcessLoop L (((_, service), signals) # rest) s allNeeds =
     (let sid = js_prop_opt service ''id'' in
      if sid \<in> set (rs_processedServices s) \<or> signals = [] then beaconProcessLoop L rest s allNeeds
      else case processSignals L service signals (rs_sidecarData s) of
        Inl e \<Rightarrow> (s, Inl e)
      | Inr (updates, needs) \<Rightarrow>
          if needs \<noteq> [] then beaconProcessLoop L rest s (allNeeds @ needs)
          else beaconProcessLoop L rest
                 (s\<lparr>rs_unsortedUpdates := rs_unsortedUpdates s @ updates,
                    rs_processedServices := js_add sid (rs_processedServices s)\<rparr>) allNeeds)"

definition newServicesOf :: "Resolver \<Rightarrow> jsval \<Rightarrow> (jsval \<times> string) list result" where
  "newServicesOf s document =
     rbind (getBeaconServices document) (\<lambda>services.
     rbind (withAddresses services) (\<lambda>sas. Inr (filter (\<lambda>(_, a). a \<notin> set (rs_requestCache s)) sas)))"

text \<open>\<open>some\<close> stops at the first new address, before it parses the addresses after it.\<close>

fun hasNewServices :: "string list \<Rightarrow> jsval list \<Rightarrow> bool result" where
  "hasNewServices cache [] = Inr False"
| "hasNewServices cache (v # vs) =
     rbind (serviceAddress v) (\<lambda>a. if a \<notin> set cache then Inr True else hasNewServices cache vs)"

definition resolveStep ::
  "'x method_lib_scheme \<Rightarrow> Resolver \<Rightarrow> Resolver \<times> resolver_state option control" where
  "resolveStep L s =
     (case rs_phase s of
        GenesisDocument \<Rightarrow>
          (case rs_providedGenesisDocument s of
             Some genesisDocument \<Rightarrow>
               (case externalDocument L (rs_didComponents s) genesisDocument of
                  Inl e \<Rightarrow> (s, Throw e)
                | Inr doc \<Rightarrow>
                    (s\<lparr>rs_currentDocument := doc, rs_providedGenesisDocument := None,
                       rs_phase := BeaconDiscovery\<rparr>, Continue None))
           | None \<Rightarrow>
               (case encodeHash L ''hex'' (dc_genesisBytes (rs_didComponents s)) of
                  Inl e \<Rightarrow> (s, Throw e)
                | Inr genesisHash \<Rightarrow> (s, Return (Some (ActionRequired [NeedGenesisDocument genesisHash])))))
      | BeaconDiscovery \<Rightarrow>
          (case newServicesOf s (rs_currentDocument s) of
             Inl e \<Rightarrow> (s, Throw e)
           | Inr newServices \<Rightarrow>
               if newServices \<noteq> [] then
                 (s\<lparr>rs_requestCache := fold js_add (map snd newServices) (rs_requestCache s)\<rparr>,
                  Return (Some (ActionRequired [NeedBeaconSignals (map fst newServices)])))
               else (s\<lparr>rs_phase := BeaconProcess\<rparr>, Continue None))
      | BeaconProcess \<Rightarrow>
          (case beaconProcessLoop L (rs_beaconServicesSignals s) s [] of
             (s, Inl e) \<Rightarrow> (s, Throw e)
           | (s, Inr allNeeds) \<Rightarrow>
               if allNeeds \<noteq> [] then (s, Return (Some (ActionRequired allNeeds)))
               else (s\<lparr>rs_phase := ApplyUpdates\<rparr>, Continue None))
      | ApplyUpdates \<Rightarrow>
          if rs_unsortedUpdates s = [] then (s\<lparr>rs_phase := Complete\<rparr>, Continue None)
          else (case resolverUpdates L (rs_currentDocument s) (rs_unsortedUpdates s) (rs_versionTime s)
                       (rs_versionId s) (rs_currentVersionId s) (rs_updateHashHistory s) of
             (history, Inl e) \<Rightarrow> (s\<lparr>rs_updateHashHistory := history\<rparr>, Throw e)
           | (history, Inr response) \<Rightarrow>
               let s = s\<lparr>rs_updateHashHistory := history, rs_resolvedResponse := Some response,
                         rs_currentVersionId := nat_of_digits (rr_versionId response),
                         rs_currentDocument := rr_didDocument response, rs_unsortedUpdates := []\<rparr>
               in case rbind (getBeaconServices (rs_currentDocument s)) (hasNewServices (rs_requestCache s)) of
                    Inl e \<Rightarrow> (s, Throw e)
                  | Inr hasNew \<Rightarrow>
                      if hasNew then
                        let s = s\<lparr>rs_discoveryRounds := Suc (rs_discoveryRounds s)\<rparr> in
                        if (case rs_maxDiscoveryRounds s of Some m \<Rightarrow> rs_discoveryRounds s > m | None \<Rightarrow> False)
                        then (s, Throw (Error ''ResolveError'' ''INTERNAL_ERROR''))
                        else (s\<lparr>rs_phase := BeaconDiscovery\<rparr>, Continue None)
                      else (s\<lparr>rs_phase := Complete\<rparr>, Continue None))
      | Complete \<Rightarrow>
          (s, Return (Some (Resolved (case rs_resolvedResponse s of
             Some response \<Rightarrow> response
           | None \<Rightarrow>
              \<lparr>rr_didDocument = rs_currentDocument s,
               rr_versionId = (case rs_versionId s of Some v \<Rightarrow> v | None \<Rightarrow> ''1''),
               rr_confirmations = None, rr_updated = None,
               rr_deactivated = js_or (js_prop_opt (rs_currentDocument s) ''deactivated'') (JBool False)\<rparr>)))))"

text \<open>\<open>while(true)\<close>: \<open>None\<close> when the fuel does not suffice.\<close>

fun resolveLoop ::
  "'x method_lib_scheme \<Rightarrow> nat \<Rightarrow> Resolver \<Rightarrow> (Resolver \<times> resolver_state result) option" where
  "resolveLoop L 0 s = None"
| "resolveLoop L (Suc n) s =
     (case resolveStep L s of
        (s', Continue _) \<Rightarrow> resolveLoop L n s'
      | (s', Return (Some r)) \<Rightarrow> Some (s', Inr r)
      | (s', Return None) \<Rightarrow> Some (s', type_error)
      | (s', Throw e) \<Rightarrow> Some (s', Inl e))"

section \<open>Providing data\<close>

definition isRecord :: "jsval \<Rightarrow> bool" where
  "isRecord v \<longleftrightarrow> typeof_object v \<and> v \<noteq> JNull \<and> \<not> is_array v"

definition isCASAnnouncement :: "jsval \<Rightarrow> bool" where
  "isCASAnnouncement v \<longleftrightarrow> isRecord v \<and>
     (case v of JObj kvs \<Rightarrow> list_all (\<lambda>(_, x). is_string x) kvs | JBytes bs \<Rightarrow> bs = [] | _ \<Rightarrow> True)"

definition isSignedBTCR2Update :: "jsval \<Rightarrow> bool" where
  "isSignedBTCR2Update v \<longleftrightarrow> isRecord v \<and> is_array (js_prop_opt v ''patch'') \<and>
     is_string (js_prop_opt v ''sourceHash'') \<and> is_string (js_prop_opt v ''targetHash'') \<and>
     (case targetVersion v of Some i \<Rightarrow> i \<ge> 2 | None \<Rightarrow> False) \<and> isRecord (js_prop_opt v ''proof'')"

definition isSMTProof :: "jsval \<Rightarrow> bool" where
  "isSMTProof v \<longleftrightarrow> isRecord v \<and> is_string (js_prop_opt v ''id'') \<and>
     is_string (js_prop_opt v ''collapsed'') \<and> is_array (js_prop_opt v ''hashes'')"

text \<open>What a caller hands over: a value, or a map from services to signals. A map used as a value
  is an object without own properties.\<close>

datatype provided = ProvidedValue jsval | ProvidedSignals signal_map

definition providedValue :: "provided \<Rightarrow> jsval" where
  "providedValue data = (case data of ProvidedValue v \<Rightarrow> v | ProvidedSignals _ \<Rightarrow> JObj [])"

definition provideData ::
  "'x method_lib_scheme \<Rightarrow> data_need \<Rightarrow> provided \<Rightarrow> Resolver \<Rightarrow> Resolver result" where
  "provideData L need data s =
     (let invalid = resolve_error ''INVALID_DID_UPDATE''; sd = rs_sidecarData s; v = providedValue data in
      case need of
        NeedGenesisDocument _ \<Rightarrow>
          if \<not> isRecord v then invalid else Inr (s\<lparr>rs_providedGenesisDocument := Some v\<rparr>)
      | NeedBeaconSignals _ \<Rightarrow>
          (case data of
             ProvidedValue _ \<Rightarrow> invalid
           | ProvidedSignals m \<Rightarrow>
               Inr (s\<lparr>rs_beaconServicesSignals := fold (\<lambda>(k, v). jm_set k v) m (rs_beaconServicesSignals s)\<rparr>))
      | NeedCASAnnouncement announcementHash _ \<Rightarrow>
          if \<not> isCASAnnouncement v then invalid
          else rbind (canonicalHash L ''hex'' v) (\<lambda>h.
               if h \<noteq> announcementHash then invalid
               else Inr (s\<lparr>rs_sidecarData := sd\<lparr>sd_casMap := jm_set h v (sd_casMap sd)\<rparr>\<rparr>))
      | NeedSignedUpdate updateHash _ \<Rightarrow>
          if \<not> isSignedBTCR2Update v then invalid
          else rbind (canonicalHash L ''hex'' v) (\<lambda>h.
               if h \<noteq> updateHash then invalid
               else Inr (s\<lparr>rs_sidecarData := sd\<lparr>sd_updateMap := jm_set h v (sd_updateMap sd)\<rparr>\<rparr>))
      | NeedSMTProof smtRootHash _ \<Rightarrow>
          if \<not> isSMTProof v then invalid
          else rbind (smtProofKey L v) (\<lambda>h.
               if h \<noteq> smtRootHash then invalid
               else Inr (s\<lparr>rs_sidecarData := sd\<lparr>sd_smtMap := jm_set smtRootHash v (sd_smtMap sd)\<rparr>\<rparr>)))"

section \<open>\<open>DidBtcr2.resolve\<close>\<close>

definition didResolve ::
  "'x method_lib_scheme \<Rightarrow> string \<Rightarrow> Sidecar \<Rightarrow> string option \<Rightarrow> string option \<Rightarrow> int option \<Rightarrow> Resolver result" where
  "didResolve L did sidecar versionId versionTime maxDiscoveryRounds =
     rbind (decodeIdentifier L did) (\<lambda>didComponents.
     rbind (sidecarData L sidecar) (\<lambda>sd.
     rbind (if dc_hrp didComponents = ''k''
            then rbind (deterministic L didComponents) (\<lambda>d. Inr (Some d)) else Inr None) (\<lambda>currentDocument.
       Inr (newResolver didComponents sd currentDocument versionId versionTime
              (sc_genesisDocument sidecar) maxDiscoveryRounds))))"

end
