(* ===== verification/DemoLib.thy ===== *)
theory DemoLib
  imports DidIdentifier SmtTree
begin

text \<open>
  A concrete instance of the libraries, at which the witnesses apply the properties: an injective
  text form of JSON values with sorted keys, hexadecimal codecs, a hash of the length and the first 31
  bytes, signatures that repeat the message, and patches that set top-level properties. The
  lemmas show that it has the documented behaviour of the libraries.
\<close>

section \<open>Hexadecimal text\<close>

definition demo_hex :: "bytes \<Rightarrow> string" where "demo_hex bs = concat (map hex_byte bs)"

fun demo_unhex :: "string \<Rightarrow> bytes" where
  "demo_unhex (a # b # r) = of_nat (hex_to_nat [a, b]) # demo_unhex r"
| "demo_unhex _ = []"

lemma demo_unhex_hex [simp]: "demo_unhex (demo_hex bs) = bs"
proof (induction bs)
  case (Cons b bs)
  obtain x y where xy: "hex_byte b = [x, y]"
    using hex_byte_facts(1) [of b] by (metis length_0_conv length_Suc_conv numeral_2_eq_2)
  with Cons hex_byte_facts(3) [of b] show ?case by (simp add: demo_hex_def)
qed (simp add: demo_hex_def)

lemma demo_hex_chars: "c \<in> set (demo_hex bs) \<Longrightarrow> is_hex c"
  using hex_byte_facts(2) by (auto simp: demo_hex_def list_all_iff)

lemma demo_hex_no_colon: "CHR '':'' \<notin> set (demo_hex bs)"
proof
  assume "CHR '':'' \<in> set (demo_hex bs)"
  then have "is_hex (CHR '':'')" by (rule demo_hex_chars)
  moreover have "\<not> is_hex (CHR '':'')" by code_simp
  ultimately show False by simp
qed

section \<open>A text form of JSON values\<close>

definition enc_nat :: "nat \<Rightarrow> string" where "enc_nat n = show_nat n @ '';''"
definition enc_str :: "string \<Rightarrow> string" where "enc_str s = enc_nat (length s) @ s"

primrec enc_val :: "jsval \<Rightarrow> string" where
  "enc_val JUndef = ''u''"
| "enc_val JNull = ''n''"
| "enc_val (JBool b) = (if b then ''t'' else ''f'')"
| "enc_val (JInt i) = (if i < 0 then ''m'' @ enc_nat (nat (- i)) else ''p'' @ enc_nat (nat i))"
| "enc_val (JFloat w) = ''d'' @ enc_nat (unat w)"
| "enc_val (JStr s) = ''s'' @ enc_str s"
| "enc_val (JBytes bs) = ''b'' @ enc_str (demo_hex bs)"
| "enc_val (JArr xs) = ''a'' @ enc_nat (length xs) @ concat (map enc_val xs)"
| "enc_val (JObj kvs) =
     ''o'' @ enc_nat (length kvs) @ concat (map (\<lambda>(k, s). enc_str k @ s) (map (map_prod id enc_val) kvs))"

definition dec_nat :: "string \<Rightarrow> nat \<times> string" where
  "dec_nat s = (nat_of_digits (takeWhile is_digit s), drop 1 (dropWhile is_digit s))"

definition dec_str :: "string \<Rightarrow> string \<times> string" where
  "dec_str s = (let (n, r) = dec_nat s in (take n r, drop n r))"

text \<open>Fuel bounds the nesting; the number of elements is read before them.\<close>

fun dec_val :: "nat \<Rightarrow> string \<Rightarrow> jsval \<times> string"
and dec_list :: "nat \<Rightarrow> nat \<Rightarrow> string \<Rightarrow> jsval list \<times> string"
and dec_obj :: "nat \<Rightarrow> nat \<Rightarrow> string \<Rightarrow> (string \<times> jsval) list \<times> string" where
  "dec_val 0 s = (JUndef, s)"
| "dec_val (Suc n) s = (case s of
     [] \<Rightarrow> (JUndef, [])
   | c # r \<Rightarrow>
      if c = CHR ''n'' then (JNull, r)
      else if c = CHR ''t'' then (JBool True, r)
      else if c = CHR ''f'' then (JBool False, r)
      else if c = CHR ''m'' then (let (k, r) = dec_nat r in (JInt (- int k), r))
      else if c = CHR ''p'' then (let (k, r) = dec_nat r in (JInt (int k), r))
      else if c = CHR ''d'' then (let (k, r) = dec_nat r in (JFloat (of_nat k), r))
      else if c = CHR ''s'' then (let (t, r) = dec_str r in (JStr t, r))
      else if c = CHR ''b'' then (let (t, r) = dec_str r in (JBytes (demo_unhex t), r))
      else if c = CHR ''a'' then (let (k, r) = dec_nat r; (xs, r) = dec_list n k r in (JArr xs, r))
      else if c = CHR ''o'' then (let (k, r) = dec_nat r; (kvs, r) = dec_obj n k r in (JObj kvs, r))
      else (JUndef, r))"
| "dec_list n 0 s = ([], s)"
| "dec_list n (Suc k) s =
     (let (x, r) = dec_val n s; (xs, r) = dec_list n k r in (x # xs, r))"
| "dec_obj n 0 s = ([], s)"
| "dec_obj n (Suc k) s =
     (let (key, r) = dec_str s; (x, r) = dec_val n r; (kvs, r) = dec_obj n k r in ((key, x) # kvs, r))"

lemma semicolon_no_digit [simp]: "\<not> is_digit (CHR '';'')"
  by code_simp

lemma dec_nat_enc [simp]: "dec_nat (enc_nat n @ r) = (n, r)"
proof -
  have all: "\<forall>c \<in> set (show_nat n). is_digit c" using show_nat_digits [of n] by (simp add: list_all_iff)
  then have "takeWhile is_digit (show_nat n @ '';'' @ r) = show_nat n"
    "dropWhile is_digit (show_nat n @ '';'' @ r) = '';'' @ r"
    by simp_all
  then show ?thesis by (simp add: dec_nat_def enc_nat_def)
qed

lemma dec_str_enc [simp]: "dec_str (enc_str s @ r) = (s, r)"
  by (simp add: dec_str_def enc_str_def)

primrec depth :: "jsval \<Rightarrow> nat" where
  "depth JUndef = 1" | "depth JNull = 1" | "depth (JBool b) = 1" | "depth (JInt i) = 1"
| "depth (JFloat w) = 1" | "depth (JStr s) = 1" | "depth (JBytes bs) = 1"
| "depth (JArr xs) = Suc (foldr max (map depth xs) 0)"
| "depth (JObj kvs) = Suc (foldr max (map snd (map (map_prod id depth) kvs)) 0)"

lemma dec_val_enc: "depth v \<le> n \<Longrightarrow> dec_val n (enc_val v @ r) = (v, r)"
proof (induction v arbitrary: n r)
  case (JArr xs)
  then obtain m where n: "n = Suc m" and m: "foldr max (map depth xs) 0 \<le> m" by (cases n) auto
  have "dec_list m (length ys) (concat (map enc_val ys) @ r) = (ys, r)"
    if "set ys \<subseteq> set xs" "foldr max (map depth ys) 0 \<le> m" for ys
    using that JArr.IH by (induction ys) auto
  from this [of xs] m show ?case by (simp add: n)
next
  case (JObj kvs)
  then obtain m where n: "n = Suc m" and m: "foldr max (map snd (map (map_prod id depth) kvs)) 0 \<le> m"
    by (cases n) auto
  have "dec_obj m (length ys) (concat (map (\<lambda>(k, s). enc_str k @ s) (map (map_prod id enc_val) ys)) @ r) = (ys, r)"
    if "set ys \<subseteq> set kvs" "foldr max (map snd (map (map_prod id depth) ys)) 0 \<le> m" for ys
    using that JObj.IH
  proof (induction ys)
    case (Cons y ys)
    obtain k v where y: "y = (k, v)" by fastforce
    with Cons.prems have "dec_val m (enc_val v @ s) = (v, s)" for s
      by (auto intro!: Cons.prems(3) [of "(k, v)" v])
    with Cons y show ?case by auto
  qed simp
  from this [of kvs] m show ?case by (simp add: n)
qed (auto simp: not_less gr0_conv_Suc dest!: Suc_le_D)

lemma depth_enc: "depth v \<le> length (enc_val v)"
proof (induction v)
  case (JArr xs)
  have "foldr max (map depth xs) 0 \<le> length (concat (map enc_val xs))"
    using JArr by (induction xs) (auto intro: trans_le_add1)
  then show ?case by simp
next
  case (JObj kvs)
  have "foldr max (map snd (map (map_prod id depth) ys)) 0 \<le>
      length (concat (map (\<lambda>(k, s). enc_str k @ s) (map (map_prod id enc_val) ys)))"
    if "set ys \<subseteq> set kvs" for ys
    using that JObj
  proof (induction ys)
    case (Cons y ys)
    obtain k v where y: "y = (k, v)" by fastforce
    with Cons.prems have "depth v \<le> length (enc_val v)" by (auto intro!: Cons.prems(2) [of "(k, v)" v])
    with Cons y show ?case by auto
  qed simp
  from this [of kvs] show ?case by simp
qed (auto simp: enc_nat_def enc_str_def)

lemma insort_key_map_prod:
  fixes xs :: "(string \<times> jsval) list"
  shows "map (map_prod id f) (insort_key fst x xs) = insort_key fst (map_prod id f x) (map (map_prod id f) xs)"
  by (induction xs) auto

lemma sort_key_map_prod:
  fixes xs :: "(string \<times> jsval) list"
  shows "map (map_prod id f) (sort_key fst xs) = sort_key fst (map (map_prod id f) xs)"
  unfolding sort_key_def by (induction xs) (simp_all add: insort_key_map_prod [unfolded id_def] id_def)

lemma sort_keys_idem [simp]: "sort_keys (sort_keys v) = sort_keys v"
proof (induction v)
  case (JObj kvs)
  have "map (map_prod id sort_keys) (map (map_prod id sort_keys) kvs) = map (map_prod id sort_keys) kvs"
    using JObj by (auto simp: prod_set_simps)
  then show ?case by (simp add: sort_key_map_prod sort_key_id_if_sorted del: map_map)
qed auto

section \<open>The instance\<close>

definition demo_jcs :: "jsval \<Rightarrow> string" where "demo_jcs v = enc_val (sort_keys v)"

definition demo_parse :: "string \<Rightarrow> jsval option" where
  "demo_parse s = Some (fst (dec_val (length s) s))"

definition demo_hash :: "bytes \<Rightarrow> bytes" where
  "demo_hash bs = of_nat (length bs) # take 31 (bs @ replicate 31 0)"

definition demo_patch_op :: "jsval \<Rightarrow> jsval \<Rightarrow> jsval" where
  "demo_patch_op op d = (case js_prop_opt op ''path'' of
     JStr (_ # name) \<Rightarrow> js_set_prop name (js_prop_opt op ''value'') d | _ \<Rightarrow> d)"

definition demo_patch :: "jsval \<Rightarrow> jsval \<Rightarrow> jsval option" where
  "demo_patch d p = (case p of JArr ops \<Rightarrow> Some (fold demo_patch_op ops d) | _ \<Rightarrow> None)"

definition demo_bech32m :: "string \<Rightarrow> bytes \<Rightarrow> string" where
  "demo_bech32m hrp bs = hrp @ ''1'' @ demo_hex bs"

definition demo_unbech32m :: "string \<Rightarrow> (string \<times> bytes) option" where
  "demo_unbech32m s = (case s of
     h # CHR ''1'' # r \<Rightarrow> Some ([h], demo_unhex r) | _ \<Rightarrow> None)"

text \<open>Like base58, the form of a multicodec public key starts with \<open>''Q3s''\<close>.\<close>

definition demo_base58 :: "bytes \<Rightarrow> string" where
  "demo_base58 bs = (if take 2 bs = [0xe7, 0x01] then ''Q3s'' @ demo_hex (drop 2 bs) else demo_hex bs)"

definition demo_unbase58 :: "string \<Rightarrow> bytes" where
  "demo_unbase58 s = (if starts_with ''Q3s'' s then [0xe7, 0x01] @ demo_unhex (drop 3 s) else demo_unhex s)"

lemma demo_unbase58_base58 [simp]: "demo_unbase58 (demo_base58 bs) = bs"
proof (cases "take 2 bs = [0xe7, 0x01]")
  case True
  then show ?thesis
    using append_take_drop_id [of 2 bs] by (simp add: demo_unbase58_def demo_base58_def starts_with_def)
next
  case False
  have "\<not> starts_with ''Q3s'' (demo_hex bs)"
  proof
    assume "starts_with ''Q3s'' (demo_hex bs)"
    then have "CHR ''Q'' \<in> set (demo_hex bs)" by (cases "demo_hex bs") (auto simp: starts_with_def)
    then have "is_hex (CHR ''Q'')" by (rule demo_hex_chars)
    moreover have "\<not> is_hex (CHR ''Q'')" by code_simp
    ultimately show False by simp
  qed
  with False show ?thesis by (simp add: demo_unbase58_def demo_base58_def)
qed

definition demo_mlib :: method_lib where
  "demo_mlib = \<lparr>sha256 = demo_hash,
     base64_encode = demo_encode, base64_decode = demo_decode,
     base64url_encode = demo_encode, base64url_decode = demo_decode,
     jcs = demo_jcs, json_parse = demo_parse,
     hex_encode = demo_hex, hex_decode = \<lambda>s. Some (demo_unhex s),
     base58_encode = demo_base58, base58_decode = \<lambda>s. Some (demo_unbase58 s),
     base58btc_encode = \<lambda>bs. CHR ''z'' # demo_base58 bs, base58btc_decode = \<lambda>s. Some (demo_unbase58 (tl s)),
     bech32m_encode = demo_bech32m, bech32m_decode = demo_unbech32m,
     secp_valid = \<lambda>k. hd k \<in> set [2, 3],
     schnorr_verify = \<lambda>signature msg k. Some (signature = msg @ msg),
     apply_patch = demo_patch,
     address_of = \<lambda>kind k network. Some (kind @ demo_hex k),
     did_method_of = \<lambda>did. Some (hd (tl (split_char (CHR '':'') did))),
     web5_isDidService = \<lambda>s. is_string (js_prop_opt s ''id'') \<and> is_string (js_prop_opt s ''type'') \<and>
       is_string (js_prop_opt s ''serviceEndpoint''),
     date_parse = \<lambda>s. None\<rparr>"

lemma demo_mlib_ok [simp]:
  "sha256_ok demo_mlib" "base64_ok demo_mlib" "base64url_ok demo_mlib"
  "jcs_ok demo_mlib" "codecs_ok demo_mlib" "bech32m_ok demo_mlib"
proof -
  show "sha256_ok demo_mlib" by (auto simp: sha256_ok_def demo_mlib_def demo_hash_def min_def)
  show "base64_ok demo_mlib" by (simp add: base64_ok_def demo_mlib_def)
  show "base64url_ok demo_mlib" by (simp add: base64url_ok_def demo_mlib_def demo_encode_def)
      (simp flip: demo_encode_def)
  have "dec_val (length (enc_val v)) (enc_val v) = (v, [])" for v
    using dec_val_enc [OF depth_enc, of v "[]"] by simp
  then show "jcs_ok demo_mlib" by (simp add: jcs_ok_def demo_mlib_def demo_jcs_def demo_parse_def)
  show "codecs_ok demo_mlib" by (simp add: codecs_ok_def demo_mlib_def)
  show "bech32m_ok demo_mlib"
    using demo_hex_no_colon
    by (auto simp: bech32m_ok_def demo_mlib_def demo_bech32m_def demo_unbech32m_def)
qed

end
