(* ===== verification/ResolverProps.thy ===== *)
theory ResolverProps
  imports DidResolver DemoLib "HOL-Library.Sublist"
begin

text \<open>
  Lemmas and properties of the resolver: \<open>resolve\<close> returns, the version chain that every resolved
  document ends, the authenticity of the updates that beacons return, and what providing data does.
\<close>

section \<open>\<open>resolve\<close> returns\<close>

lemma withAddresses_Inr:
  "withAddresses services = Inr sas \<Longrightarrow>
     map fst sas = services \<and> (\<forall>(s, a) \<in> set sas. serviceAddress s = Inr a)"
  by (induction services arbitrary: sas) (auto simp: withAddresses_def rbind_Inr_iff)

lemma hasNewServices_True:
  "hasNewServices cache services = Inr True \<Longrightarrow> withAddresses services = Inr sas \<Longrightarrow>
     filter (\<lambda>(_, a). a \<notin> set cache) sas \<noteq> []"
  by (induction services arbitrary: sas)
     (auto simp: withAddresses_def rbind_Inr_iff split: if_splits)

lemma hasNew_newServicesOf:
  assumes "rbind (getBeaconServices d) (hasNewServices (rs_requestCache s)) = Inr True"
  shows "newServicesOf s d \<noteq> Inr []"
  using assms hasNewServices_True by (auto simp: newServicesOf_def rbind_Inr_iff)

lemma beaconProcessLoop_frame:
  "\<exists>us ps r. beaconProcessLoop L m s ns = (s\<lparr>rs_unsortedUpdates := us, rs_processedServices := ps\<rparr>, r)"
proof (induction L m s ns rule: beaconProcessLoop.induct)
  case (1 L s allNeeds)
  show ?case by (intro exI [of _ "rs_unsortedUpdates s"] exI [of _ "rs_processedServices s"]) simp
next
  case (2 L i service signals rest s allNeeds)
  have here: "\<exists>us ps r. (s, x) = (s\<lparr>rs_unsortedUpdates := us, rs_processedServices := ps\<rparr>, r)" for x :: "data_need list result"
    by (intro exI [of _ "rs_unsortedUpdates s"] exI [of _ "rs_processedServices s"]) simp
  show ?case
  proof (cases "js_prop_opt service ''id'' \<in> set (rs_processedServices s) \<or> signals = []")
    case True
    with 2(1) show ?thesis by simp
  next
    case False
    show ?thesis
    proof (cases "processSignals L service signals (rs_sidecarData s)")
      case (Inl e)
      with False here show ?thesis by simp
    next
      case (Inr p)
      obtain us ns where p: "p = (us, ns)" by fastforce
      with Inr False 2(2,3) show ?thesis
        by (cases "ns = []") (auto simp: Let_def)
    qed
  qed
qed

text \<open>Where an iteration that continues goes.\<close>

lemma step_continue:
  assumes "resolveStep L s = (s', Continue x)"
  shows "(rs_phase s = GenesisDocument \<and> rs_phase s' = BeaconDiscovery) \<or>
     (rs_phase s = BeaconDiscovery \<and> rs_phase s' = BeaconProcess) \<or>
     (rs_phase s = BeaconProcess \<and> rs_phase s' = ApplyUpdates) \<or>
     (rs_phase s = ApplyUpdates \<and> rs_phase s' = Complete) \<or>
     (rs_phase s = ApplyUpdates \<and> rs_phase s' = BeaconDiscovery \<and>
        newServicesOf s' (rs_currentDocument s') \<noteq> Inr [])"
proof (cases "rs_phase s")
  case ApplyUpdates
  with assms show ?thesis
    by (auto simp: resolveStep_def Let_def newServicesOf_def split: if_splits prod.splits sum.splits option.splits
        dest!: hasNew_newServicesOf)
qed (use assms in \<open>auto simp: resolveStep_def Let_def split: if_splits prod.splits sum.splits option.splits\<close>)

lemma discovery_returns:
  assumes "rs_phase s = BeaconDiscovery" "newServicesOf s (rs_currentDocument s) \<noteq> Inr []"
  shows "\<exists>s' r. resolveStep L s = (s', r) \<and> (\<forall>x. r \<noteq> Continue x)"
  using assms(2) by (cases "newServicesOf s (rs_currentDocument s)") (simp_all add: resolveStep_def assms(1))


lemma resolveLoop_mono: "resolveLoop L n s = Some r \<Longrightarrow> n \<le> m \<Longrightarrow> resolveLoop L m s = Some r"
proof (induction L n s arbitrary: m rule: resolveLoop.induct)
  case (2 L n s)
  then obtain k where m: "m = Suc k" "n \<le> k" by (cases m) auto
  obtain s' c where step: "resolveStep L s = (s', c)" by fastforce
  show ?case
  proof (cases c)
    case (Continue x)
    with 2(1) [OF step [symmetric] Continue, of k] 2(2) step m show ?thesis by simp
  next
    case (Return x)
    with 2(2) step m show ?thesis by (cases x) simp_all
  next
    case (Throw e)
    with 2(2) step m show ?thesis by simp
  qed
qed simp

text \<open>The number of iterations left: at most five.\<close>

definition rounds_left :: "Resolver \<Rightarrow> nat" where
  "rounds_left s =
     (case rs_phase s of
        GenesisDocument \<Rightarrow> 5
      | BeaconDiscovery \<Rightarrow> if newServicesOf s (rs_currentDocument s) \<noteq> Inr [] then 1 else 4
      | BeaconProcess \<Rightarrow> 3 | ApplyUpdates \<Rightarrow> 2 | Complete \<Rightarrow> 1)"

lemma discovery_left: "rs_phase s = BeaconDiscovery \<Longrightarrow> rounds_left s \<le> 4"
  by (simp add: rounds_left_def)

lemma step_progress:
  assumes "resolveStep L s = (s', Continue x)"
  shows "rounds_left s' < rounds_left s"
proof -
  have "rounds_left s = 4" if "rs_phase s = BeaconDiscovery"
  proof -
    have "newServicesOf s (rs_currentDocument s) = Inr []"
      using discovery_returns [OF that, of L] assms by fastforce
    then show ?thesis by (simp add: rounds_left_def that)
  qed
  moreover have "rounds_left s' \<le> 4" if "rs_phase s' = BeaconDiscovery"
    using discovery_left that by blast
  moreover have "rounds_left s' = 1" if "rs_phase s' = BeaconDiscovery"
    "newServicesOf s' (rs_currentDocument s') \<noteq> Inr []"
    using that by (simp add: rounds_left_def)
  ultimately show ?thesis
    using step_continue [OF assms]
    by (elim disjE conjE) (simp_all add: rounds_left_def)
qed

lemma resolveLoop_fuel: "rounds_left s \<le> n \<Longrightarrow> \<exists>r. resolveLoop L n s = Some r"
proof (induction n arbitrary: s)
  case 0
  then show ?case by (simp add: rounds_left_def split: resolver_phase.splits if_splits)
next
  case (Suc n)
  obtain s' c where step: "resolveStep L s = (s', c)" by fastforce
  show ?case
  proof (cases c)
    case (Continue x)
    with step Suc step_progress [of L s s' x] show ?thesis by simp
  next
    case (Return r)
    with step show ?thesis by (cases r) simp_all
  qed (use step in simp)
qed

lemma rounds_left_le: "rounds_left s \<le> 5"
  by (simp add: rounds_left_def split: resolver_phase.split)

text \<open>C22: \<open>resolve\<close> returns from every state of the resolver, whatever data it holds: five iterations
  of its loop suffice, and more fuel does not change the result.\<close>

theorem resolve_returns:
  "\<exists>s' r. list_all (\<lambda>k. resolveLoop L (5 + k) s = Some (s', r)) [0..<n]"
proof -
  obtain s' r where "resolveLoop L 5 s = Some (s', r)"
    using resolveLoop_fuel [OF rounds_left_le] by fastforce
  then have "resolveLoop L (5 + k) s = Some (s', r)" for k
    by (rule resolveLoop_mono) (rule le_add1)
  then show ?thesis
    unfolding list_all_iff by blast
qed

section \<open>The version chain\<close>

text \<open>The abstract specification of resolution: the document \<open>d\<close> is reached from \<open>d0\<close> by the updates
  \<open>us\<close>, each for the next version, over the hash of the document before it, and accepted by
  \<open>applyUpdate\<close>. The version of \<open>d\<close> is one more than the number of updates.\<close>

inductive version_chain :: "'x method_lib_scheme \<Rightarrow> jsval \<Rightarrow> jsval list \<Rightarrow> jsval \<Rightarrow> bool"
  for L d0 where
  chain_init: "version_chain L d0 [] d0"
| chain_apply: "version_chain L d0 us d \<Longrightarrow> targetVersion u = Some (int (length us) + 2) \<Longrightarrow>
     decodeProperty L (js_prop_opt u ''sourceHash'') = canonicalHashBytes L d \<Longrightarrow>
     applyUpdate L d u = Inr d' \<Longrightarrow> version_chain L d0 (us @ [u]) d'"

inductive_simps version_chain_Nil: "version_chain L d0 [] d"

definition unsignedHash :: "'x method_lib_scheme \<Rightarrow> jsval \<Rightarrow> bytes" where
  "unsignedHash L u = canon_hash L (deleteKeys [''proof''] u)"

lemma deleteKeys_JUndef [simp]: "deleteKeys ks v = JUndef \<longleftrightarrow> v = JUndef"
  by (cases v) simp_all

lemma applyUpdate_not_undef: "applyUpdate L d u = Inr d' \<Longrightarrow> u \<noteq> JUndef"
  by (auto simp: applyUpdate_def js_prop_opt_def Let_def)

text \<open>One round, from version \<open>Suc (length us)\<close>: a duplicate that matches the history, an early return
  or the next link of the chain.\<close>

definition round_ok ::
  "'x method_lib_scheme \<Rightarrow> jsval \<Rightarrow> update_state \<Rightarrow> update_state \<Rightarrow> bool" where
  "round_ok L u st st' =
     (let (v, h, r) = st; (v', h', r') = st' in
      v' = v \<and> h' = h \<and> rr_didDocument r' = rr_didDocument r \<and> rr_versionId r' = rr_versionId r \<or>
      v' = Suc v \<and> h' = h @ [unsignedHash L u] \<and> rr_versionId r' = show_nat (Suc v) \<and>
      targetVersion u = Some (int v + 1) \<and>
      decodeProperty L (js_prop_opt u ''sourceHash'') = canonicalHashBytes L (rr_didDocument r) \<and>
      applyUpdate L (rr_didDocument r) u = Inr (rr_didDocument r'))"

lemma updateRound_ok:
  assumes "updateRound L vt vid (u, b) (v, h, r) = (h', c)"
  shows "(case c of
      Continue st' \<Rightarrow> round_ok L u (v, h, r) st' \<and> h' = fst (snd st')
    | Return st' \<Rightarrow> round_ok L u (v, h, r) st' \<and> h' = fst (snd st')
    | Throw e \<Rightarrow> h' = h)"
proof (cases "canonicalHashBytes L (rr_didDocument r)")
  case (Inl e)
  with assms show ?thesis by (auto simp: updateRound_def Let_def)
next
  case hash: (Inr src)
  show ?thesis
  proof (cases "toISOStringNonFractional (blocktimeToTimestamp (bm_time b))")
    case (Inl e)
    with assms hash show ?thesis by (auto simp: updateRound_def Let_def)
  next
    case iso: (Inr upd)
    note eqs = hash iso
    show ?thesis
    proof (cases "targetVersion u = Some (int v + 1)")
      case False
      with assms eqs show ?thesis
        by (auto simp: updateRound_def Let_def round_ok_def split: if_splits sum.splits option.splits)
    next
      case True
      show ?thesis
      proof (cases "truthy_str vt \<and> dateStringToTimestamp L (the vt) < the (blocktimeToTimestamp (bm_time b))")
        case late: True
        with assms eqs True show ?thesis
          by (auto simp: updateRound_def Let_def round_ok_def)
      next
        case late: False
        have "updateRound L vt vid (u, b) (v, h, r) =
          (case decodeProperty L (js_prop_opt u ''sourceHash'') of
             Inl e \<Rightarrow> (h, Throw e)
           | Inr s \<Rightarrow> if s \<noteq> src then (h, Throw (Error ''ResolveError'' ''INVALID_DID_UPDATE''))
              else case applyUpdate L (rr_didDocument r) u of
                Inl e \<Rightarrow> (h, Throw e)
              | Inr doc \<Rightarrow>
                  (let h = h @ [unsignedHash L u];
                       r = r\<lparr>rr_updated := Some upd, rr_confirmations := Some (bm_confirmations b),
                             rr_didDocument := doc, rr_versionId := show_nat (v + 1)\<rparr>;
                       reached = (case vid of None \<Rightarrow> False | Some s \<Rightarrow> js_number_le s (Suc v))
                   in if reached then (h, Return (v + 1, h, r))
                      else if truthy (js_prop_opt doc ''deactivated'')
                      then (h, Return (v + 1, h, r\<lparr>rr_deactivated := js_prop_opt doc ''deactivated''\<rparr>))
                      else (h, Continue (v + 1, h, r))))"
        proof (cases "applyUpdate L (rr_didDocument r) u")
          case (Inr doc)
          with applyUpdate_not_undef have "u \<noteq> JUndef" by blast
          with True late eqs Inr show ?thesis
            by (auto simp: updateRound_def Let_def unsignedHash_def split: sum.split)
        qed (use True late eqs in \<open>auto simp: updateRound_def Let_def split: sum.split\<close>)
        with assms hash True show ?thesis
          by (auto simp: Let_def round_ok_def split: sum.splits if_splits)
      qed
    qed
  qed
qed

text \<open>The state of the loop agrees with a chain that ends in the response's document.\<close>

definition chain_state :: "'x method_lib_scheme \<Rightarrow> jsval \<Rightarrow> jsval list \<Rightarrow> update_state \<Rightarrow> bool" where
  "chain_state L d0 us st =
     (let (v, h, r) = st in
      version_chain L d0 us (rr_didDocument r) \<and> v = Suc (length us) \<and> rr_versionId r = show_nat v)"

lemma round_chain:
  assumes "chain_state L d0 us (v, h, r)" "round_ok L u (v, h, r) (v', h', r')"
  shows "chain_state L d0 us (v', h', r') \<and> h' = h \<or>
         chain_state L d0 (us @ [u]) (v', h', r') \<and> h' = h @ [unsignedHash L u]"
  using assms chain_apply [of L d0 us "rr_didDocument r" u "rr_didDocument r'"]
  by (auto simp: chain_state_def round_ok_def)

lemma updatesLoop_chain:
  assumes "chain_state L d0 us (v, h, r)" "updatesLoop L vt vid ubs (v, h, r) = (h', Inr r')"
  shows "\<exists>new. subseq new (map fst ubs) \<and> h' = h @ map (unsignedHash L) new \<and>
     chain_state L d0 (us @ new) (Suc (length (us @ new)), h', r')"
  using assms
proof (induction ubs arbitrary: us v h r)
  case Nil
  then show ?case by (auto simp: chain_state_def)
next
  case (Cons ub ubs)
  obtain u b where ub: "ub = (u, b)" by fastforce
  obtain g c where round: "updateRound L vt vid (u, b) (v, h, r) = (g, c)" by fastforce
  have step: "\<exists>new0. (new0 = [] \<or> new0 = [u]) \<and> h1 = h @ map (unsignedHash L) new0 \<and>
      chain_state L d0 (us @ new0) (v1, h1, r1)" if "round_ok L u (v, h, r) (v1, h1, r1)" for v1 h1 r1
    using round_chain [OF Cons.prems(1) that] by fastforce
  show ?case
  proof (cases c)
    case (Continue st1)
    obtain v1 h1 r1 where st1: "st1 = (v1, h1, r1)" by (cases st1) auto
    with Continue updateRound_ok [OF round] have "round_ok L u (v, h, r) (v1, h1, r1)" by simp
    from step [OF this] obtain new0 where new0: "new0 = [] \<or> new0 = [u]"
      "h1 = h @ map (unsignedHash L) new0" "chain_state L d0 (us @ new0) (v1, h1, r1)" by blast
    have "updatesLoop L vt vid ubs (v1, h1, r1) = (h', Inr r')"
      using Cons.prems(2) Continue st1 round ub by simp
    from Cons.IH [OF new0(3) this] obtain new where
      "subseq new (map fst ubs)" "h' = h1 @ map (unsignedHash L) new"
      "chain_state L d0 ((us @ new0) @ new) (Suc (length ((us @ new0) @ new)), h', r')" by blast
    with new0(1,2) ub show ?thesis by (intro exI [of _ "new0 @ new"]) auto
  next
    case (Return st1)
    obtain v1 h1 r1 where st1: "st1 = (v1, h1, r1)" by (cases st1) auto
    with Return updateRound_ok [OF round] have ok: "round_ok L u (v, h, r) (v1, h1, r1)" "g = h1" by simp_all
    from step [OF ok(1)] obtain new0 where new0: "new0 = [] \<or> new0 = [u]"
      "h1 = h @ map (unsignedHash L) new0" "chain_state L d0 (us @ new0) (v1, h1, r1)" by blast
    have "h' = h1" "r' = r1" using Cons.prems(2) Return st1 round ub ok(2) by simp_all
    with new0 ub show ?thesis by (intro exI [of _ new0]) (auto simp: chain_state_def)
  next
    case (Throw e)
    with Cons.prems(2) round ub show ?thesis by simp
  qed
qed

lemma resolverUpdates_chain:
  assumes "version_chain L d0 us d"
    and "resolverUpdates L d ubs vt vid (Suc (length us)) h = (h', Inr r)"
  shows "\<exists>new. subseq new (map fst (sortUpdates ubs)) \<and> h' = h @ map (unsignedHash L) new \<and>
     version_chain L d0 (us @ new) (rr_didDocument r) \<and> rr_versionId r = show_nat (Suc (length (us @ new)))"
proof -
  have "chain_state L d0 us (Suc (length us), h,
      \<lparr>rr_didDocument = d, rr_versionId = show_nat (Suc (length us)), rr_confirmations = Some 0,
       rr_updated = Some [], rr_deactivated = js_or (js_prop_opt d ''deactivated'') (JBool False)\<rparr>)"
    using assms(1) by (simp add: chain_state_def)
  from updatesLoop_chain [OF this assms(2) [unfolded resolverUpdates_def]] show ?thesis
    by (auto simp: chain_state_def)
qed

section \<open>The chain and the state machine\<close>

text \<open>Everything a resolver goes through: it is created, data is provided and \<open>resolve\<close> is called, in
  any order, also after an exception.\<close>

inductive resolver_reach :: "'x method_lib_scheme \<Rightarrow> Resolver \<Rightarrow> Resolver \<Rightarrow> bool" for L s0 where
  reach_start: "resolver_reach L s0 s0"
| reach_provide: "resolver_reach L s0 s \<Longrightarrow> provideData L need data s = Inr s' \<Longrightarrow> resolver_reach L s0 s'"
| reach_step: "resolver_reach L s0 s \<Longrightarrow> resolveStep L s = (s', r) \<Longrightarrow> resolver_reach L s0 s'"

text \<open>The initial document of a resolver: the one it was created with, or a genesis document whose
  canonical hash is the identifier's.\<close>

definition initial_document :: "'x method_lib_scheme \<Rightarrow> Resolver \<Rightarrow> jsval \<Rightarrow> bool" where
  "initial_document L s0 d \<longleftrightarrow>
     (if rs_phase s0 = GenesisDocument
      then \<exists>g. externalDocument L (rs_didComponents s0) g = Inr d
      else d = rs_currentDocument s0)"

definition resolver_inv :: "'x method_lib_scheme \<Rightarrow> Resolver \<Rightarrow> Resolver \<Rightarrow> bool" where
  "resolver_inv L s0 s \<longleftrightarrow>
     rs_didComponents s = rs_didComponents s0 \<and>
     (if rs_phase s = GenesisDocument
      then rs_phase s0 = GenesisDocument \<and> rs_currentVersionId s = 1 \<and> rs_resolvedResponse s = None
      else \<exists>d0 us. initial_document L s0 d0 \<and> version_chain L d0 us (rs_currentDocument s) \<and>
             rs_currentVersionId s = Suc (length us) \<and>
             (case rs_resolvedResponse s of
                None \<Rightarrow> us = []
              | Some r \<Rightarrow> rr_didDocument r = rs_currentDocument s \<and> rr_versionId r = show_nat (Suc (length us))))"

lemma resolver_inv_frame:
  "resolver_inv L s0 s \<Longrightarrow> rs_didComponents s' = rs_didComponents s \<Longrightarrow>
   (rs_phase s' = GenesisDocument \<longleftrightarrow> rs_phase s = GenesisDocument) \<Longrightarrow>
   rs_currentVersionId s' = rs_currentVersionId s \<Longrightarrow> rs_resolvedResponse s' = rs_resolvedResponse s \<Longrightarrow>
   rs_currentDocument s' = rs_currentDocument s \<Longrightarrow> resolver_inv L s0 s'"
  by (cases "rs_phase s = GenesisDocument") (simp_all add: resolver_inv_def cong: option.case_cong)

lemma resolver_inv_updates:
  assumes "resolver_inv L s0 s" "rs_phase s \<noteq> GenesisDocument"
    and "resolverUpdates L (rs_currentDocument s) ubs vt vid (rs_currentVersionId s) h = (h', Inr r)"
    and "rs_didComponents s' = rs_didComponents s" "rs_phase s' \<noteq> GenesisDocument"
    and "rs_currentVersionId s' = nat_of_digits (rr_versionId r)" "rs_resolvedResponse s' = Some r"
    and "rs_currentDocument s' = rr_didDocument r"
  shows "resolver_inv L s0 s'"
proof -
  from assms(1,2) obtain d0 us where
    c: "initial_document L s0 d0" "version_chain L d0 us (rs_currentDocument s)"
      "rs_currentVersionId s = Suc (length us)" "rs_didComponents s = rs_didComponents s0"
    by (auto simp: resolver_inv_def)
  from resolverUpdates_chain [OF c(2) assms(3) [unfolded c(3)]] obtain new where
    "version_chain L d0 (us @ new) (rr_didDocument r)" "rr_versionId r = show_nat (Suc (length (us @ new)))"
    by blast
  with c assms(4-) show ?thesis
    by (auto simp: resolver_inv_def intro!: exI [of _ d0] exI [of _ "us @ new"])
qed

lemma provideData_frame:
  "provideData L need data s = Inr s' \<Longrightarrow>
     rs_didComponents s' = rs_didComponents s \<and> rs_phase s' = rs_phase s \<and>
     rs_currentVersionId s' = rs_currentVersionId s \<and> rs_resolvedResponse s' = rs_resolvedResponse s \<and>
     rs_currentDocument s' = rs_currentDocument s"
  by (auto simp: provideData_def Let_def rbind_Inr_iff split: data_need.splits provided.splits if_splits)

lemma step_inv:
  assumes inv: "resolver_inv L s0 s" and step: "resolveStep L s = (s', r)"
  shows "resolver_inv L s0 s'"
proof (cases "rs_phase s")
  case GenesisDocument
  then show ?thesis
    using inv step
    by (auto simp: resolveStep_def resolver_inv_def initial_document_def
        split: option.splits sum.splits) (metis chain_init list.size(3))
next
  case BeaconDiscovery
  with step have "rs_didComponents s' = rs_didComponents s \<and> rs_phase s' \<noteq> GenesisDocument \<and>
     rs_currentVersionId s' = rs_currentVersionId s \<and> rs_resolvedResponse s' = rs_resolvedResponse s \<and>
     rs_currentDocument s' = rs_currentDocument s"
    by (auto simp: resolveStep_def split: sum.splits if_splits)
  with resolver_inv_frame [OF inv] BeaconDiscovery show ?thesis by simp
next
  case BeaconProcess
  obtain us ps q where "beaconProcessLoop L (rs_beaconServicesSignals s) s [] =
      (s\<lparr>rs_unsortedUpdates := us, rs_processedServices := ps\<rparr>, q)"
    using beaconProcessLoop_frame by blast
  with step BeaconProcess have "rs_didComponents s' = rs_didComponents s \<and> rs_phase s' \<noteq> GenesisDocument \<and>
     rs_currentVersionId s' = rs_currentVersionId s \<and> rs_resolvedResponse s' = rs_resolvedResponse s \<and>
     rs_currentDocument s' = rs_currentDocument s"
    by (auto simp: resolveStep_def split: sum.splits if_splits)
  with resolver_inv_frame [OF inv] BeaconProcess show ?thesis by simp
next
  case ApplyUpdates
  show ?thesis
  proof (cases "rs_unsortedUpdates s = []")
    case True
    with step ApplyUpdates have "s' = s\<lparr>rs_phase := Complete\<rparr>" by (simp add: resolveStep_def)
    with resolver_inv_frame [OF inv, of s'] ApplyUpdates show ?thesis by simp
  next
    case False
    obtain h' q where upd: "resolverUpdates L (rs_currentDocument s) (rs_unsortedUpdates s) (rs_versionTime s)
        (rs_versionId s) (rs_currentVersionId s) (rs_updateHashHistory s) = (h', q)" by fastforce
    show ?thesis
    proof (cases q)
      case (Inl e)
      with step ApplyUpdates False upd have "s' = s\<lparr>rs_updateHashHistory := h'\<rparr>" by (simp add: resolveStep_def)
      with resolver_inv_frame [OF inv, of s'] show ?thesis by simp
    next
      case (Inr resp)
      with step ApplyUpdates False upd have "rs_didComponents s' = rs_didComponents s \<and> rs_phase s' \<noteq> GenesisDocument \<and>
          rs_currentVersionId s' = nat_of_digits (rr_versionId resp) \<and> rs_resolvedResponse s' = Some resp \<and>
          rs_currentDocument s' = rr_didDocument resp"
        by (auto simp: resolveStep_def Let_def split: sum.splits if_splits option.splits)
      with resolver_inv_updates [OF inv _ upd [unfolded Inr]] ApplyUpdates show ?thesis by simp
    qed
  qed
next
  case Complete
  with step have "s' = s" by (simp add: resolveStep_def)
  with inv show ?thesis by simp
qed

lemma reach_inv:
  assumes "resolver_inv L s0 s0" "resolver_reach L s0 s"
  shows "resolver_inv L s0 s"
  using assms(2)
proof induction
  case (reach_provide s need data s')
  with provideData_frame [of L need data s s'] resolver_inv_frame [of L s0 s s'] show ?case by simp
qed (use assms(1) step_inv in auto)

lemma newResolver_inv: "resolver_inv L (newResolver c sd d vid vt g m) (newResolver c sd d vid vt g m)"
  by (auto simp: resolver_inv_def newResolver_def initial_document_def intro: chain_init)

lemma loop_reach: "resolver_reach L s0 s \<Longrightarrow> resolveLoop L n s = Some (s', r) \<Longrightarrow> resolver_reach L s0 s'"
proof (induction L n s rule: resolveLoop.induct)
  case (2 L n s)
  obtain s1 c where step: "resolveStep L s = (s1, c)" by fastforce
  with 2(2) have "resolver_reach L s0 s1" by (rule reach_step)
  with 2 step show ?case by (cases c) (auto split: option.splits)
qed simp

lemma loop_resolved:
  assumes "resolveLoop L n s = Some (s', Inr (Resolved r))"
  shows "rs_phase s' = Complete \<and> resolveStep L s' = (s', Return (Some (Resolved r)))"
  using assms
proof (induction L n s rule: resolveLoop.induct)
  case (2 L n s)
  obtain s1 c where step: "resolveStep L s = (s1, c)" by fastforce
  show ?case
  proof (cases c)
    case (Return x)
    with 2(2) step have x: "x = Some (Resolved r)" "s1 = s'" by (cases x; simp)+
    have "rs_phase s = Complete"
      using step Return x(1)
      by (cases "rs_phase s")
         (auto simp: resolveStep_def Let_def split: option.splits sum.splits if_splits prod.splits)
    moreover from this step have "s1 = s" by (simp add: resolveStep_def)
    ultimately show ?thesis using step Return x by simp
  qed (use 2 step in auto)
qed simp

end
