(* ===== verification/DidUpdater.thy ===== *)
theory DidUpdater
  imports DidBeacons
begin

text \<open>
  The sans-I/O updater of \<open>packages/method/src/core/updater.ts\<close> and \<open>DidBtcr2.update\<close>: an update is
  constructed from a patch, signed, funded and broadcast. The datatype \<open>updater_state\<close> is the
  discriminated union \<open>InternalState\<close>. \<open>addProof\<close> fills in the unsigned update itself, so after
  signing both fields of the state hold the same object.
\<close>

section \<open>Constructing and signing\<close>

definition UPDATE_CONTEXT :: jsval where
  "UPDATE_CONTEXT = JArr (map JStr [''https://w3id.org/security/v2'', ''https://w3id.org/zcap/v1'',
     ''https://w3id.org/json-ld-patch/v1'', ''https://btcr2.dev/context/v1''])"

abbreviation update_error :: "string \<Rightarrow> error + 'a" where
  "update_error c \<equiv> Inl (Error ''UpdateError'' c)"

definition constructUpdate :: "'x method_lib_scheme \<Rightarrow> jsval \<Rightarrow> jsval \<Rightarrow> int \<Rightarrow> jsval result" where
  "constructUpdate L sourceDocument patches sourceVersionId =
     rbind (canonicalHash L ''base64urlnopad'' sourceDocument) (\<lambda>sourceHash.
     rbind (JSONPatch_apply L sourceDocument patches) (\<lambda>targetDocument.
     rbind (js_prop targetDocument ''id'') (\<lambda>targetId.
     if targetId \<noteq> js_prop_opt sourceDocument ''id'' then update_error ''INVALID_DID_UPDATE''
     else if isl (isValidDocument L targetDocument) then update_error ''INVALID_DID_UPDATE''
     else rbind (canonicalHash L ''base64urlnopad'' targetDocument) (\<lambda>targetHash.
       Inr (JObj [(''@context'', UPDATE_CONTEXT), (''patch'', patches), (''targetHash'', JStr targetHash),
                  (''targetVersionId'', JInt (sourceVersionId + 1)), (''sourceHash'', JStr sourceHash)])))))"

record Signer =
  sg_publicKey :: bytes
  sg_sign :: "bytes \<Rightarrow> bytes"

definition proofConfig :: "string \<Rightarrow> string \<Rightarrow> (string \<times> jsval) list" where
  "proofConfig did vmId =
     [(''@context'', UPDATE_CONTEXT), (''cryptosuite'', JStr ''bip340-jcs-2025''),
      (''type'', JStr ''DataIntegrityProof''), (''verificationMethod'', JStr vmId),
      (''proofPurpose'', JStr ''capabilityInvocation''),
      (''capability'', JStr (''urn:zcap:root:'' @ encodeURIComponent did)),
      (''capabilityAction'', JStr ''Write'')]"

definition signUpdate ::
  "'x method_lib_scheme \<Rightarrow> string \<Rightarrow> jsval \<Rightarrow> jsval \<Rightarrow> Signer \<Rightarrow> jsval result" where
  "signUpdate L did unsignedUpdate verificationMethod signer =
     (if \<not> starts_with ''did:btcr2:'' did then update_error ''INVALID_DID_UPDATE''
      else let controller = (case js_prop_opt verificationMethod ''controller'' of JStr c \<Rightarrow> c | _ \<Rightarrow> ''undefined'') in
      rbind (js_string (js_prop_opt verificationMethod ''id'')) (\<lambda>vmId.
      case index_of (CHR ''#'') vmId of
        None \<Rightarrow> update_error ''INVALID_DID_UPDATE''
      | Some hashIdx \<Rightarrow>
          let fragment = drop hashIdx vmId in
          rbind (multikeyFromSigner L fragment controller (sg_publicKey signer) (sg_sign signer)) (\<lambda>multikey.
          let signerKey = publicKeyMultibase L (mk_publicKey multikey);
              expected = js_prop_opt verificationMethod ''publicKeyMultibase''
          in if truthy expected \<and> JStr signerKey \<noteq> expected then update_error ''INVALID_DID_UPDATE''
             else addProof L multikey unsignedUpdate (JObj (proofConfig did vmId)))))"

section \<open>The state machine\<close>

datatype updater_state =
    UConstruct
  | USign (us_unsigned: jsval)
  | UFund (us_unsigned: jsval) (us_signed: jsval)
  | UBroadcast (us_unsigned: jsval) (us_signed: jsval)
  | UComplete (us_signed: jsval)

record Updater =
  up_state :: updater_state
  up_sourceDocument :: jsval
  up_patches :: jsval
  up_sourceVersionId :: int
  up_verificationMethod :: jsval
  up_beaconService :: jsval

datatype updater_need =
    NeedSigningKey (need_vmId: jsval) (need_unsignedUpdate: jsval)
  | NeedFunding (need_address: string) (need_fundService: jsval)
  | NeedBroadcast (need_broadcastService: jsval) (need_signedUpdate: jsval)

datatype updater_result = UpdaterActionRequired "updater_need list" | UpdaterComplete jsval

definition newUpdater :: "jsval \<Rightarrow> jsval \<Rightarrow> int \<Rightarrow> jsval \<Rightarrow> jsval \<Rightarrow> Updater" where
  "newUpdater sourceDocument patches sourceVersionId verificationMethod beaconService =
     \<lparr>up_state = UConstruct, up_sourceDocument = sourceDocument, up_patches = patches,
      up_sourceVersionId = sourceVersionId, up_verificationMethod = verificationMethod,
      up_beaconService = beaconService\<rparr>"

text \<open>What \<open>advance\<close> returns in a phase other than \<open>Construct\<close>; it only reads the state.\<close>

definition pendingNeed :: "Updater \<Rightarrow> updater_result result" where
  "pendingNeed u =
     (case up_state u of
        UConstruct \<Rightarrow> type_error
      | USign unsignedUpdate \<Rightarrow>
          Inr (UpdaterActionRequired [NeedSigningKey (js_prop_opt (up_verificationMethod u) ''id'') unsignedUpdate])
      | UFund _ _ \<Rightarrow>
          rbind (js_string (js_prop_opt (up_beaconService u) ''serviceEndpoint'')) (\<lambda>ep.
            Inr (UpdaterActionRequired [NeedFunding (replace_first ''bitcoin:'' [] ep) (up_beaconService u)]))
      | UBroadcast _ signedUpdate \<Rightarrow>
          Inr (UpdaterActionRequired [NeedBroadcast (up_beaconService u) signedUpdate])
      | UComplete signedUpdate \<Rightarrow> Inr (UpdaterComplete signedUpdate))"

definition advance :: "'x method_lib_scheme \<Rightarrow> Updater \<Rightarrow> Updater \<times> updater_result result" where
  "advance L u =
     (if up_state u = UConstruct then
        (case constructUpdate L (up_sourceDocument u) (up_patches u) (up_sourceVersionId u) of
           Inl e \<Rightarrow> (u, Inl e)
         | Inr unsignedUpdate \<Rightarrow>
             let u = u\<lparr>up_state := USign unsignedUpdate\<rparr> in (u, pendingNeed u))
      else (u, pendingNeed u))"

text \<open>The optional second argument of \<open>provide\<close>: a signer, a funding proof (its \<open>utxoCount\<close>) or
  nothing.\<close>

datatype updater_data = NoData | SignerData Signer | FundingData jsval

definition finite_number_ge1 :: "jsval \<Rightarrow> bool" where
  "finite_number_ge1 v = (case v of
      JInt i \<Rightarrow> i \<ge> 1
    | JFloat w \<Rightarrow> float_finite w \<and> \<not> bit w 63 \<and> take_bit 11 (drop_bit 52 w) \<ge> 1023
    | _ \<Rightarrow> False)"

definition provideUpdater ::
  "'x method_lib_scheme \<Rightarrow> updater_need \<Rightarrow> updater_data \<Rightarrow> Updater \<Rightarrow> Updater result" where
  "provideUpdater L need data u =
     (case need of
        NeedSigningKey _ _ \<Rightarrow>
          (case up_state u of
             USign unsignedUpdate \<Rightarrow>
               (case data of
                  NoData \<Rightarrow> update_error ''INVALID_DID_UPDATE''
                | FundingData _ \<Rightarrow> type_error
                | SignerData signer \<Rightarrow>
                    rbind (js_string (js_prop_opt (up_sourceDocument u) ''id'')) (\<lambda>did.
                    rbind (signUpdate L did unsignedUpdate (up_verificationMethod u) signer) (\<lambda>signedUpdate.
                      Inr (u\<lparr>up_state := UFund signedUpdate signedUpdate\<rparr>))))
           | _ \<Rightarrow> update_error ''INVALID_DID_UPDATE'')
      | NeedFunding _ _ \<Rightarrow>
          (case up_state u of
             UFund unsignedUpdate signedUpdate \<Rightarrow>
               (let ok = Inr (u\<lparr>up_state := UBroadcast unsignedUpdate signedUpdate\<rparr>) in
                case data of
                  NoData \<Rightarrow> ok
                | FundingData utxoCount \<Rightarrow>
                    if \<not> finite_number_ge1 utxoCount then update_error ''INVALID_DID_UPDATE'' else ok
                | SignerData _ \<Rightarrow> update_error ''INVALID_DID_UPDATE'')
           | _ \<Rightarrow> update_error ''INVALID_DID_UPDATE'')
      | NeedBroadcast _ _ \<Rightarrow>
          (case up_state u of
             UBroadcast _ signedUpdate \<Rightarrow> Inr (u\<lparr>up_state := UComplete signedUpdate\<rparr>)
           | _ \<Rightarrow> update_error ''INVALID_DID_UPDATE''))"

section \<open>\<open>DidBtcr2.update\<close>\<close>

definition didUpdate ::
  "'x method_lib_scheme \<Rightarrow> jsval \<Rightarrow> jsval \<Rightarrow> int \<Rightarrow> string \<Rightarrow> string \<Rightarrow> Updater result" where
  "didUpdate L sourceDocument patches sourceVersionId verificationMethodId beaconId =
     (if JStr verificationMethodId \<notin> set (elements (js_prop_opt sourceDocument ''capabilityInvocation''))
      then update_error ''INVALID_DID_DOCUMENT''
      else rbind (getSigningMethod L sourceDocument (JStr verificationMethodId)) (\<lambda>verificationMethod.
        if js_prop_opt verificationMethod ''type'' \<noteq> JStr ''Multikey'' then update_error ''INVALID_DID_DOCUMENT''
        else case js_prop_opt verificationMethod ''publicKeyMultibase'' of
          JStr multibase \<Rightarrow>
            if \<not> starts_with ''zQ3s'' multibase then update_error ''INVALID_DID_DOCUMENT''
            else (case filter (\<lambda>service. js_prop_opt service ''id'' = JStr beaconId)
                         (elements (js_prop_opt sourceDocument ''service'')) of
                [] \<Rightarrow> update_error ''INVALID_DID_UPDATE''
              | beaconService # _ \<Rightarrow>
                  Inr (newUpdater sourceDocument patches sourceVersionId verificationMethod beaconService))
        | _ \<Rightarrow> type_error))"

section \<open>Lemmas\<close>

lemma constructUpdate_Inr:
  assumes "constructUpdate L doc patches v = Inr u" "doc \<noteq> JUndef"
  shows "\<exists>target. JSONPatch_apply L doc patches = Inr target \<and>
     js_prop_opt target ''id'' = js_prop_opt doc ''id'' \<and> isValidDocument L target = Inr () \<and> target \<noteq> JUndef \<and>
     u = JObj [(''@context'', UPDATE_CONTEXT), (''patch'', patches),
        (''targetHash'', JStr (base64url_encode L (canon_hash L target))),
        (''targetVersionId'', JInt (v + 1)), (''sourceHash'', JStr (base64url_encode L (canon_hash L doc)))]"
proof -
  from assms obtain target where t: "JSONPatch_apply L doc patches = Inr target"
    "js_prop target ''id'' = Inr (js_prop_opt doc ''id'')" "\<not> isl (isValidDocument L target)"
    and u: "rbind (canonicalHash L ''base64urlnopad'' target) (\<lambda>targetHash.
       Inr (JObj [(''@context'', UPDATE_CONTEXT), (''patch'', patches), (''targetHash'', JStr targetHash),
          (''targetVersionId'', JInt (v + 1)), (''sourceHash'', JStr (base64url_encode L (canon_hash L doc)))])) = Inr u"
    by (auto simp: constructUpdate_def rbind_Inr_iff split: if_splits)
  have "target \<noteq> JUndef" using t(1) by (simp add: JSONPatch_apply_Inr_iff)
  moreover have "js_prop_opt target ''id'' = js_prop_opt doc ''id''"
    using t(2) by (cases target) (auto simp: js_prop_def js_prop_opt_def)
  moreover have "isValidDocument L target = Inr ()" using t(3) by (cases "isValidDocument L target") auto
  ultimately show ?thesis using t(1) u by auto
qed

lemma is_json_UPDATE_CONTEXT [simp]: "is_json UPDATE_CONTEXT" "truthy UPDATE_CONTEXT"
  by (simp_all add: UPDATE_CONTEXT_def)

text \<open>The states in their order; \<open>advance\<close> and \<open>provide\<close> never go back.\<close>

fun phase_rank :: "updater_state \<Rightarrow> nat" where
  "phase_rank UConstruct = 0"
| "phase_rank (USign _) = 1"
| "phase_rank (UFund _ _) = 2"
| "phase_rank (UBroadcast _ _) = 3"
| "phase_rank (UComplete _) = 4"

end
