(* ===== verification/IdentifierProps.thy ===== *)
theory IdentifierProps
  imports DemoLib
begin

text \<open>
  Properties of identifiers (\<open>DidIdentifier\<close>) and of data-integrity proofs (\<open>CryptoSuite\<close>), with
  their witnesses at the library instance of \<open>DemoLib\<close>.
\<close>

section \<open>Identifiers\<close>

lemma networkEnumValue_cases:
  "networkEnumValue name =
     (if name \<in> set BitcoinNetworkNames then list_index BitcoinNetworkNames name
      else if name \<in> set (map show_nat [0..<6]) \<union> set objectPrototypeKeys then Some 0 else None)"
proof -
  have "list_index BitcoinNetworkNames name = None" if "name \<notin> set BitcoinNetworkNames"
    using that list_index_Some [of BitcoinNetworkNames name] nth_mem by (cases "list_index BitcoinNetworkNames name") force+
  moreover have "length BitcoinNetworkNames = 6" by (simp add: BitcoinNetworkNames_def)
  ultimately show ?thesis using list_index_mem [of name BitcoinNetworkNames] by (auto simp: networkEnumValue_def)
qed

text \<open>C37: an identifier made for a known type and network name decodes to the components it was made
  from. It is made exactly for version 1 and genesis bytes that fit the type, a valid compressed public
  key or 32 bytes; but for more names than the known ones: the numbers \<open>''0''\<close> to \<open>''5''\<close> and the
  names of inherited properties pass as networks and encode mainnet, and as types they encode an
  external identifier. Everything else is refused.\<close>

theorem identifier_roundtrip:
  assumes "bech32m_ok L"
  shows "(if version = 1 \<and> idType \<in> set IdentifierTypes \<union> set objectPrototypeKeys \<and>
      name \<in> set BitcoinNetworkNames \<union> set (map show_nat [0..<6]) \<union> set objectPrototypeKeys \<and>
      (if idType = ''KEY'' then length gb = 33 \<and> secp_valid L gb else length gb = 32)
    then \<exists>did. encodeIdentifier L gb idType version (NetName name) = Inr did \<and>
       decodeIdentifier L did = Inr \<lparr>dc_idType = (if idType = ''KEY'' then ''KEY'' else ''EXTERNAL''),
         dc_hrp = (if idType = ''KEY'' then ''k'' else ''x''), dc_version = 1,
         dc_network = NetName (if name \<in> set BitcoinNetworkNames then name else ''bitcoin''), dc_genesisBytes = gb\<rparr>
    else encodeIdentifier L gb idType version (NetName name) = invalid_did) \<and>
    encodeIdentifier L gb idType version (NetNumber n) = invalid_did"
proof -
  obtain v where v: "name \<in> set BitcoinNetworkNames \<union> set (map show_nat [0..<6]) \<union> set objectPrototypeKeys \<longrightarrow>
      networkEnumValue name = Some v \<and> v < 6 \<and> BitcoinNetworkNames ! v = (if name \<in> set BitcoinNetworkNames then name else ''bitcoin'')"
  proof (cases "name \<in> set BitcoinNetworkNames")
    case True
    from list_index_mem [OF True] obtain v where v: "list_index BitcoinNetworkNames name = Some v" ..
    then show ?thesis
      using that [of v] list_index_Some [OF v] True by (simp add: networkEnumValue_def BitcoinNetworkNames_def)
  next
    case False
    then show ?thesis using that [of 0] by (auto simp: networkEnumValue_cases) (simp_all add: BitcoinNetworkNames_def)
  qed
  have none: "networkEnumValue name = None"
    if "\<not> name \<in> set BitcoinNetworkNames \<union> set (map show_nat [0..<6]) \<union> set objectPrototypeKeys"
    using that by (auto simp: networkEnumValue_cases)
  have key: "''KEY'' \<in> set IdentifierTypes" by (simp add: IdentifierTypes_def)
  note k = decode_encoded [OF assms, of v "''k''" gb] and x = decode_encoded [OF assms, of v "''x''" gb]
  show ?thesis
  proof (cases "name \<in> set BitcoinNetworkNames \<union> set (map show_nat [0..<6]) \<union> set objectPrototypeKeys")
    case True
    with v have n: "networkEnumValue name = Some v" "v < 6"
      "BitcoinNetworkNames ! v = (if name \<in> set BitcoinNetworkNames then name else ''bitcoin'')" by blast+
    show ?thesis
      using True key k [OF n(2)] x [OF n(2)] unfolding n(3)
      by (cases "idType = ''KEY''") (simp_all add: encodeIdentifier_def newPublicKey_case Let_def n(1) del: set_map)
  next
    case False
    then show ?thesis using none by (auto simp: encodeIdentifier_def)
  qed
qed

definition demo_key :: bytes where "demo_key = 2 # replicate 32 5"

lemma demo_key_ok: "length demo_key = 33" "secp_valid demo_mlib demo_key"
  by (simp_all add: demo_key_def demo_mlib_def)

lemma identifier_roundtrip_witness:
  "\<exists>did. encodeIdentifier demo_mlib demo_key ''KEY'' 1 (NetName ''testnet4'') = Inr did \<and>
     decodeIdentifier demo_mlib did = Inr \<lparr>dc_idType = ''KEY'', dc_hrp = ''k'', dc_version = 1,
       dc_network = NetName ''testnet4'', dc_genesisBytes = demo_key\<rparr>"
  using identifier_roundtrip [of demo_mlib 1 "''KEY''" "''testnet4''" demo_key] demo_key_ok
  by (simp add: IdentifierTypes_def BitcoinNetworkNames_def)

text \<open>Whatever string is decoded, the result is an error or components that are valid: version 1,
  a prefix that agrees with the type, genesis bytes that fit the type, and a known network or one of
  the three user-defined ones; \<open>isValid\<close> and \<open>getPublicKey\<close> agree with it.\<close>

theorem decoded_identifier_valid:
  "case decodeIdentifier L did of
     Inl _ \<Rightarrow> \<not> isValidIdentifier L did \<and> isl (getPublicKey L did)
   | Inr c \<Rightarrow> isValidIdentifier L did \<and> components_ok L c \<and>
       (if dc_idType c = ''KEY'' then getPublicKey L did = Inr (dc_genesisBytes c)
        else getPublicKey L did = invalid_did)"
proof (cases "decodeIdentifier L did")
  case (Inr c)
  then show ?thesis
    using decodeIdentifier_ok [OF Inr]
    by (auto simp: isValidIdentifier_def getPublicKey_def components_ok_def)
qed (simp add: isValidIdentifier_def getPublicKey_def)

text \<open>The number of a network, written as a string, is accepted as a network name and encodes the
  identifier of Bitcoin mainnet, whichever network has that number.\<close>

theorem encode_numeric_network:
  "list_all (\<lambda>n. encodeIdentifier L gb idType version (NetName (show_nat n)) =
                 encodeIdentifier L gb idType version (NetName ''bitcoin'')) [0..<6]"
proof -
  have "list_all (\<lambda>n. networkEnumValue (show_nat n) = networkEnumValue ''bitcoin'') [0..<6]"
    by code_simp
  then show ?thesis by (simp add: list_all_iff encodeIdentifier_def)
qed

section \<open>Data-integrity proofs\<close>








text \<open>C29: a proof reported as verified was found in the parsed document, has the expected purpose and
  the multikey's verification method, and its decoded value is a signature, accepted by the
  multikey's public key, of the hash of the canonical configuration and the canonical document,
  each without what the proof adds.\<close>

theorem verified_proof_means:
  assumes "verifyProof L mk text purpose mediaType edom challenge = Inr r" "vr_verified r" "purpose \<noteq> []"
  shows "\<exists>S pf doc config docText configText multibase signature.
     json_parse L text = Some S \<and> js_prop S ''proof'' = Inr pf \<and>
     js_prop_opt pf ''proofPurpose'' = JStr purpose \<and>
     rest_without ''proof'' S = Inr doc \<and> rest_without ''proofValue'' pf = Inr config \<and>
     canonicalize L doc = Inr docText \<and> canonicalize L config = Inr configText \<and>
     js_prop_opt config ''type'' = suite_type \<and> js_prop_opt config ''cryptosuite'' = suite_name \<and>
     js_prop_opt config ''verificationMethod'' = JStr (fullId mk) \<and>
     js_prop_opt pf ''proofValue'' = JStr multibase \<and> base58btc_decode L multibase = Some signature \<and>
     schnorr_verify L signature (generateHash L configText docText) (xOnly (mk_publicKey mk)) = Some True"
proof -
  from verifyProof_verified [OF assms(1,2)] assms(3) obtain S pf r' where
    S: "json_parse L text = Some S" "js_prop S ''proof'' = Inr pf"
      "js_prop_opt pf ''proofPurpose'' = JStr purpose" "suiteVerifyProof L mk S = Inr r'" "vr_verified r'"
    by blast
  from suiteVerifyProof_verified [OF S(4,5)] S(1-3) show ?thesis
    by (auto simp: transformDocument_Inr_iff proofConfiguration_Inr_iff)
qed


text \<open>The check of an expected list of domains is inverted: a proof made for exactly the expected
  domains is refused, and one made for other domains, as many of them, is accepted.\<close>

theorem domain_list_check_inverted:
  "domain_check (DomainList (d # ds)) (JArr (map JStr (d # ds))) =
     Inl (Error ''DataIntegrityProofError'' ''PROOF_VERIFICATION_ERROR'') \<and>
   domain_check (DomainList (d # ds)) (JArr (replicate (Suc (length ds)) (JStr (CHR ''x'' # d)))) = Inr ()"
  by (auto simp: domain_check_def domain_length_def domain_includes_def list_all_iff Let_def)

end
