(* ===== verification/DemoUpdate.thy ===== *)
theory DemoUpdate
  imports DidUpdater IdentifierProps
begin

text \<open>
  A concrete document with one verification method, a patch of it and a signer, at the library
  instance of \<open>DemoLib\<close>: the inputs at which the witnesses of the updater and the resolver apply the
  properties.
\<close>

section \<open>A concrete update\<close>

definition demo_did :: string where
  "demo_did = ''did:btcr2:'' @ demo_bech32m ''k'' (0 # demo_key)"

definition demo_vm :: jsval where
  "demo_vm = JObj [(''id'', JStr (demo_did @ ''#initialKey'')), (''type'', JStr ''Multikey''),
     (''controller'', JStr demo_did), (''publicKeyMultibase'', JStr (publicKeyMultibase demo_mlib demo_key))]"

text \<open>The document, with a given list of capability invocation methods, and the patch that sets its
  \<open>name\<close> to a given value.\<close>

definition demo_document :: "jsval list \<Rightarrow> jsval" where
  "demo_document invocation = JObj [(''id'', JStr demo_did),
     (''@context'', JArr (map JStr BTCR2_DID_DOCUMENT_CONTEXT)),
     (''verificationMethod'', JArr [demo_vm]), (''capabilityInvocation'', JArr invocation), (''service'', JArr [])]"

definition demo_source :: jsval where
  "demo_source = demo_document [JStr (demo_did @ ''#initialKey'')]"

definition demo_patch_to :: "jsval \<Rightarrow> jsval" where
  "demo_patch_to v = JArr [JObj [(''op'', JStr ''add''), (''path'', JStr ''/name''), (''value'', v)]]"

definition demo_patches :: jsval where "demo_patches = demo_patch_to (JStr ''x'')"

definition demo_signer :: Signer where
  "demo_signer = \<lparr>sg_publicKey = demo_key, sg_sign = \<lambda>h. h @ h\<rparr>"

lemma demo_mlib_bech32m [simp]: "bech32m_encode demo_mlib = demo_bech32m"
  by (simp add: demo_mlib_def)

lemma demo_did_decodes:
  "decodeIdentifier demo_mlib demo_did = Inr \<lparr>dc_idType = ''KEY'', dc_hrp = ''k'', dc_version = 1,
     dc_network = NetName ''bitcoin'', dc_genesisBytes = demo_key\<rparr>"
  using decode_encoded [of demo_mlib 0 "''k''" demo_key] demo_key_ok
  by (simp add: demo_did_def BitcoinNetworkNames_def)

lemma is_hex_ascii: "is_hex c \<Longrightarrow> of_char c < (128 :: nat)"
  by (auto simp: is_hex_def hex_value_def Let_def split: if_splits)

lemma demo_did_ok: "starts_with ''did:btcr2:'' demo_did" "isValidIdentifier demo_mlib demo_did"
  "demo_did \<noteq> ID_PLACEHOLDER_VALUE" "valid_utf8 (map of_char demo_did)"
proof -
  show "starts_with ''did:btcr2:'' demo_did" by (simp add: demo_did_def starts_with_def)
  show "isValidIdentifier demo_mlib demo_did" by (simp add: isValidIdentifier_def demo_did_decodes)
  show "demo_did \<noteq> ID_PLACEHOLDER_VALUE"
    by (simp add: demo_did_def demo_bech32m_def ID_PLACEHOLDER_VALUE_def)
  have "list_all (\<lambda>c. of_char c < (128 :: nat)) (demo_hex bs)" for bs
    using demo_hex_chars is_hex_ascii by (auto simp: list_all_iff)
  then show "valid_utf8 (map of_char demo_did)"
    by (intro valid_utf8_ascii) (simp add: demo_did_def demo_bech32m_def list.pred_map comp_def)
qed

lemma demo_did_method: "did_method_of demo_mlib demo_did = Some ''btcr2''"
  by (simp add: demo_mlib_def demo_did_def)

lemma demo_multibase: "publicKeyMultibase demo_mlib demo_key = ''zQ3s'' @ demo_hex demo_key"
  by (simp add: publicKeyMultibase_def demo_mlib_def demo_base58_def)

lemma demo_vm_valid: "isMultikeyVerificationMethod demo_vm"
  by (simp add: isMultikeyVerificationMethod_def demo_vm_def isDidVerificationMethod_def demo_multibase
      js_prop_opt_def typeof_object_def starts_with_def)

lemma demo_key_valid: "newPublicKey demo_mlib demo_key = Inr demo_key"
  using demo_key_ok by (simp add: newPublicKey_def)


lemma demo_document_facts:
  "js_prop_opt (demo_document ci) ''id'' = JStr demo_did" "demo_document ci \<noteq> JUndef"
  "is_json (demo_document ci) \<longleftrightarrow> list_all is_json ci" "is_json (demo_patch_to v) \<longleftrightarrow> is_json v"
  "js_prop_opt demo_vm ''id'' = JStr (demo_did @ ''#initialKey'')"
  by (simp_all add: demo_document_def demo_patch_to_def demo_vm_def js_prop_opt_def list_all_iff)

lemma demo_source_facts:
  "js_prop_opt demo_source ''id'' = JStr demo_did" "is_json demo_source" "is_json demo_patches"
  "js_prop_opt demo_vm ''id'' = JStr (demo_did @ ''#initialKey'')"
  by (simp_all add: demo_source_def demo_patches_def demo_document_facts)

lemma demo_signing_method:
  "getSigningMethod demo_mlib (demo_document ci) (JStr (demo_did @ ''#initialKey'')) = Inr demo_vm"
  by (simp add: getSigningMethod_def demo_document_def demo_vm_def demo_did_method Let_def extractDidFragment_def
      elements_def js_prop_def demo_multibase js_prop_opt_def)

lemma demo_patched:
  assumes "list_all is_json ci"
  shows "JSONPatch_apply demo_mlib (demo_document ci) (demo_patch_to v) =
    Inr (js_set_prop ''name'' v (demo_document ci))"
proof -
  have "jsonRoundTrip (demo_document ci) = demo_document ci"
    by (rule jsonRoundTrip_idem) (simp add: demo_document_facts assms)
  then show ?thesis
    by (simp add: JSONPatch_apply_Inr_iff demo_patch_to_def validateOperations_def validateOperation_def
        demo_mlib_def demo_patch_def demo_patch_op_def js_prop_opt_def typeof_object_def Let_def)
      (simp add: demo_document_def js_set_prop_def)
qed

lemma demo_target_valid:
  assumes "list_all is_string ci"
  shows "isValidDocument demo_mlib (js_set_prop ''name'' v (demo_document ci)) = Inr ()"
    "js_prop_opt (js_set_prop ''name'' v (demo_document ci)) ''id'' = JStr demo_did"
    "js_prop (js_set_prop ''name'' v (demo_document ci)) ''id'' = Inr (JStr demo_did)"
    "js_set_prop ''name'' v (demo_document ci) \<noteq> JUndef"
  using assms
  by (simp_all add: demo_document_def js_set_prop_def js_prop_opt_def js_prop_def isValidContext_def isValidId_def
      demo_did_ok isValidVerificationMethods_def isValidServices_def isValidVerificationRelationships_def
      BTCR2_DID_DOCUMENT_CONTEXT_def verificationRelationships_def js_has_own_def demo_vm_valid list_all_iff)

lemma demo_document_valid: "list_all is_string ci \<Longrightarrow> isValidDocument demo_mlib (demo_document ci) = Inr ()"
  by (simp add: demo_document_def js_prop_opt_def isValidContext_def isValidId_def
      demo_did_ok isValidVerificationMethods_def isValidServices_def isValidVerificationRelationships_def
      BTCR2_DID_DOCUMENT_CONTEXT_def verificationRelationships_def js_has_own_def demo_vm_valid list_all_iff)

lemma demo_constructed:
  assumes "list_all is_string ci"
  shows "\<exists>kvs. constructUpdate demo_mlib (demo_document ci) (demo_patch_to v) n = Inr (JObj kvs) \<and>
    truthy (own kvs ''@context'')"
proof -
  have "list_all is_json ci" using assms by (rule list.pred_mono_strong) (auto elim: is_stringE)
  then show ?thesis
    using demo_target_valid [OF assms, of v] demo_document_facts(1,2)
    by (simp add: constructUpdate_def demo_patched del: isValidDocument_Inr)
qed

lemma index_of_append: "c \<notin> set s \<Longrightarrow> index_of c (s @ c # r) = Some (length s)"
  by (induction s) auto

lemma demo_hash_index: "index_of (CHR ''#'') (demo_did @ ''#initialKey'') = Some (length demo_did)"
proof -
  have "CHR ''#'' \<notin> set (demo_hex bs)" for bs
  proof
    assume "CHR ''#'' \<in> set (demo_hex bs)"
    then have "is_hex (CHR ''#'')" by (rule demo_hex_chars)
    moreover have "\<not> is_hex (CHR ''#'')" by code_simp
    ultimately show False by simp
  qed
  then have "CHR ''#'' \<notin> set demo_did" by (simp add: demo_did_def demo_bech32m_def)
  then show ?thesis using index_of_append by simp
qed

lemma demo_signed:
  assumes "truthy (own u ''@context'')"
  shows "\<exists>su. signUpdate demo_mlib demo_did (JObj u) demo_vm demo_signer = Inr su"
  using assms demo_did_ok(1) demo_key_ok
  by (simp add: newPublicKey_def signUpdate_def demo_vm_def js_prop_opt_def demo_hash_index demo_signer_def multikeyFromSigner_def
      publicKeyMultibase_def)
    (auto simp: addProof_def createProof_def js_set_prop_def js_prop_opt_def proofConfiguration_def
       transformDocument_def proofSerialization_def multikeySign_def fullId_def starts_with_def
       suite_type_def suite_name_def proofConfig_def Let_def)

lemma demo_signer_verifies:
  "schnorr_verify demo_mlib (sg_sign demo_signer h) h (xOnly (sg_publicKey demo_signer)) = Some True"
  by (simp add: demo_mlib_def demo_signer_def)

text \<open>The update of a document to a given name, signed.\<close>

lemma demo_update:
  assumes "list_all is_string ci"
  obtains u su where "constructUpdate demo_mlib (demo_document ci) (demo_patch_to v) n = Inr u"
    "signUpdate demo_mlib demo_did u demo_vm demo_signer = Inr su"
  using demo_constructed [OF assms] demo_signed by blast

text \<open>The hash tells texts of different lengths apart, modulo 256; sorting the keys of a value keeps
  the length of its text.\<close>

lemma sum_list_sort_key: "sum_list (map f (sort_key g xs)) = sum_list (map (f :: _ \<Rightarrow> nat) xs)"
proof -
  have "sum_list (map f (insort_key g x ys)) = f x + sum_list (map f ys)" for x ys
    by (induction ys) auto
  then show ?thesis unfolding sort_key_def by (induction xs) simp_all
qed

lemma length_enc_sort_keys: "length (enc_val (sort_keys v)) = length (enc_val v)"
proof (induction v)
  case (JArr xs)
  then have "sum_list (map (\<lambda>x. length (enc_val (sort_keys x))) xs) = sum_list (map (\<lambda>x. length (enc_val x)) xs)"
    by (induction xs) auto
  then show ?case by (simp add: length_concat comp_def)
next
  case (JObj kvs)
  let ?f = "\<lambda>(k, v). length (enc_str k @ enc_val v)"
  have len: "length (concat (map (\<lambda>(k, s). enc_str k @ s) (map (map_prod id enc_val) xs))) = sum_list (map ?f xs)" for xs
    by (induction xs) auto
  have "sum_list (map ?f (sort_key fst xs)) = sum_list (map ?f xs)" for xs :: "(string \<times> jsval) list"
    using sum_list_sort_key by blast
  moreover have "length (enc_val (sort_keys v)) = length (enc_val v)" if "(k, v) \<in> set kvs" for k v
    using JObj that by auto
  then have "map ?f (map (map_prod id sort_keys) kvs) = map ?f kvs" by auto
  ultimately show ?case by (simp add: len del: map_map)
qed auto

lemma demo_hash_neq:
  assumes "is_json v" "is_json w" "(of_nat (length (enc_val v)) :: byte) \<noteq> of_nat (length (enc_val w))"
  shows "canon_hash demo_mlib v \<noteq> canon_hash demo_mlib w"
  using assms
  by (simp add: canon_hash_def hash_of_def demo_mlib_def demo_hash_def demo_jcs_def jsonRoundTrip_idem utf8_def
      length_enc_sort_keys)

lemma demo_show0: "length (show_nat 0) = 1"
  by code_simp

lemma demo_hash_nested:
  assumes "su = JObj [(''@context'', UPDATE_CONTEXT), (''patch'', demo_patch_to (JObj [(''proof'', JNull)])),
     (''targetHash'', JStr ts), (''targetVersionId'', JInt 2), (''sourceHash'', JStr ss), (''proof'', pf)]"
  shows "\<exists>w. rest_without ''proof'' su = Inr w \<and> w \<noteq> JUndef \<and>
     canon_hash demo_mlib w \<noteq> canon_hash demo_mlib (deleteKeys [''proof''] su)"
proof -
  let ?s = "\<lambda>p. JObj [(''@context'', UPDATE_CONTEXT), (''patch'', demo_patch_to p), (''targetHash'', JStr ts),
     (''targetVersionId'', JInt 2), (''sourceHash'', JStr ss)]"
  have "rest_without ''proof'' su = Inr (?s (JObj [(''proof'', JNull)]))"
    by (simp add: assms rest_without_def)
  moreover have "deleteKeys [''proof''] su = ?s (JObj [])"
    by (simp add: assms UPDATE_CONTEXT_def demo_patch_to_def)
  moreover have "canon_hash demo_mlib (?s (JObj [(''proof'', JNull)])) \<noteq> canon_hash demo_mlib (?s (JObj []))"
  proof (rule demo_hash_neq)
    have len: "length (enc_val (?s p)) = length (enc_val (?s (JObj []))) + length (enc_val p) - 3" for p
      using demo_show0 by (simp add: demo_patch_to_def enc_nat_def)
    have "length (enc_val (JObj [(''proof'', JNull)])) = 11" by code_simp
    with len [of "JObj [(''proof'', JNull)]"]
    have "length (enc_val (?s (JObj [(''proof'', JNull)]))) = length (enc_val (?s (JObj []))) + 8" by linarith
    then show "(of_nat (length (enc_val (?s (JObj [(''proof'', JNull)])))) :: byte) \<noteq> of_nat (length (enc_val (?s (JObj []))))"
      by simp
  qed (simp_all add: demo_patch_to_def)
  ultimately show ?thesis by simp
qed

end
