(* ===== verification/UpdateProps.thy ===== *)
theory UpdateProps
  imports ResolverProps DemoUpdate
begin

text \<open>
  Properties that span the updater and the resolver: an update that was constructed and signed is
  accepted by the resolver, and what a resolved document, an update or a provided datum stands for.
\<close>

section \<open>A signed update is accepted\<close>

text \<open>What \<open>signUpdate\<close> made.\<close>

lemma signUpdate_Inr:
  assumes "signUpdate L did u vm signer = Inr su"
  shows "\<exists>vmId hashIdx mk. starts_with ''did:btcr2:'' did \<and> js_prop_opt vm ''id'' = JStr vmId \<and>
     index_of (CHR ''#'') vmId = Some hashIdx \<and> newPublicKey L (sg_publicKey signer) = Inr (sg_publicKey signer) \<and>
     mk = \<lparr>mk_id = drop hashIdx vmId,
           mk_controller = (case js_prop_opt vm ''controller'' of JStr c \<Rightarrow> c | _ \<Rightarrow> ''undefined''),
           mk_publicKey = sg_publicKey signer, mk_signing = ExternalSigner (sg_sign signer)\<rparr> \<and>
     (truthy (js_prop_opt vm ''publicKeyMultibase'') \<longrightarrow>
        js_prop_opt vm ''publicKeyMultibase'' = JStr (publicKeyMultibase L (sg_publicKey signer))) \<and>
     addProof L mk u (JObj (proofConfig did vmId)) = Inr su"
proof -
  have key: "newPublicKey L k = Inr p \<Longrightarrow> p = k" for k p
    by (auto simp: newPublicKey_def split: if_splits)
  show ?thesis
    using assms
    by (auto simp: signUpdate_def Let_def rbind_Inr_iff multikeyFromSigner_def
          split: if_splits option.splits jsval.splits dest: key)
qed

lemma is_json_proofConfig: "is_json (JObj (proofConfig did vmId))"
  by (simp add: proofConfig_def)

lemma proofConfig_facts:
  "own (proofConfig did vmId) ''proofPurpose'' = JStr ''capabilityInvocation''"
  "own (proofConfig did vmId) ''capability'' = JStr (rc_id (deriveRootCapability did))"
  "own (proofConfig did vmId) ''verificationMethod'' = JStr vmId"
  "\<not> jm_has (proofConfig did vmId) ''proofValue''"
  by (simp_all add: proofConfig_def deriveRootCapability_def jm_has_def)

lemma addProof_shape:
  assumes "addProof L mk (JObj d) (JObj c) = Inr secured" "truthy (own d ''@context'')"
  shows "\<exists>sig. secured = JObj (jm_set ''proof'' (JObj (jm_set ''proofValue'' (JStr (base58btc_encode L sig))
       (jm_set ''@context'' (own d ''@context'') c))) d) \<and>
     own (jm_set ''@context'' (own d ''@context'') c) ''verificationMethod'' = JStr (fullId mk)"
proof -
  from assms(1) obtain pf where create: "createProof L mk (JObj d) (JObj c) = Inr pf"
    and sdef: "secured = js_set_prop ''proof'' pf (JObj d)"
    by (auto simp: addProof_def rbind_Inr_iff Let_def split: if_splits)
  have ctx: "own d ''@context'' \<noteq> JUndef" "own d ''@context'' \<noteq> JNull" using assms(2) by auto
  from createProof_Inr [OF create, of "own d ''@context''"] ctx sdef show ?thesis
    by (auto simp: Let_def js_set_prop_def)
qed

text \<open>The multikey read from a verification method that names the signer's key.\<close>

lemma fromVerificationMethod_signer:
  assumes "codecs_ok L" "newPublicKey L pub = Inr pub"
    and "js_prop_opt vm ''publicKeyMultibase'' = JStr (publicKeyMultibase L pub)"
    and "js_prop_opt vm ''id'' = JStr vmId"
  shows "\<exists>c. fromVerificationMethod L vm =
     Inr \<lparr>mk_id = vmId, mk_controller = c, mk_publicKey = pub, mk_signing = NoSecret\<rparr> \<and>
     (case js_prop_opt vm ''controller'' of JStr s \<Rightarrow> c = s | _ \<Rightarrow> c = [])"
proof -
  have "length pub = 33" using assms(2) by (auto simp: newPublicKey_def split: if_splits)
  moreover have "base58btc_decode L (publicKeyMultibase L pub) = Some (0xe7 # 0x01 # pub)"
    using codecs_simps(3,5) [OF assms(1), of "0xe7 # 0x01 # pub"] by (simp add: publicKeyMultibase_def)
  ultimately show ?thesis
    using assms(2-4)
    by (cases "js_prop_opt vm ''controller''")
       (simp_all add: fromVerificationMethod_def Let_def of_option_def publicKeyMultibase_def newPublicKey_def)
qed

lemma index_of_drop: "index_of c s = Some i \<Longrightarrow> \<exists>r. drop i s = c # r"
  by (induction s arbitrary: i) (auto split: if_splits)

lemma fullId_fragment:
  assumes "index_of (CHR ''#'') vmId = Some i"
    and "vmId = (case ctl of JStr s \<Rightarrow> s | _ \<Rightarrow> ''undefined'') @ drop i vmId"
    and "(case ctl of JStr s \<Rightarrow> c = s | _ \<Rightarrow> c = [])"
  shows "(if starts_with ''#'' vmId then c @ vmId else vmId) = vmId"
proof (cases "starts_with ''#'' vmId")
  case True
  then obtain r where "vmId = CHR ''#'' # r" by (cases vmId) (auto simp: starts_with_def)
  with assms have "(case ctl of JStr s \<Rightarrow> s | _ \<Rightarrow> ''undefined'') = []" by simp
  with assms(3) show ?thesis by (cases ctl) auto
qed simp

text \<open>The heart of the round trip: the proof that \<open>signUpdate\<close> adds verifies under the verification
  method's key.\<close>

lemma signUpdate_verifies:
  assumes L: "jcs_ok L" "codecs_ok L"
    and u: "is_json (JObj u)" "\<not> jm_has u ''proof''" "truthy (own u ''@context'')"
    and vm: "truthy (js_prop_opt vm ''publicKeyMultibase'')"
    and su: "signUpdate L did (JObj u) vm signer = Inr su"
    and key: "\<And>h. schnorr_verify L (sg_sign signer h) h (xOnly (sg_publicKey signer)) = Some True"
  shows "\<exists>mk r vmId pf. fromVerificationMethod L vm = Inr mk \<and> canonicalize L su = Inr (jcs L su) \<and>
     verifyProof L mk (jcs L su) ''capabilityInvocation'' None DomainAbsent None = Inr r \<and> vr_verified r \<and>
     js_prop_opt vm ''id'' = JStr vmId \<and> vmId \<noteq> [] \<and> su = JObj (jm_set ''proof'' pf u) \<and>
     js_prop_opt pf ''capability'' = JStr (rc_id (deriveRootCapability did)) \<and>
     js_prop_opt pf ''verificationMethod'' = JStr vmId"
proof -
  from signUpdate_Inr [OF su] vm obtain vmId i mk where
    id: "js_prop_opt vm ''id'' = JStr vmId" "index_of (CHR ''#'') vmId = Some i" and
    pub: "newPublicKey L (sg_publicKey signer) = Inr (sg_publicKey signer)"
      "js_prop_opt vm ''publicKeyMultibase'' = JStr (publicKeyMultibase L (sg_publicKey signer))" and
    mk: "mk = \<lparr>mk_id = drop i vmId,
           mk_controller = (case js_prop_opt vm ''controller'' of JStr c \<Rightarrow> c | _ \<Rightarrow> ''undefined''),
           mk_publicKey = sg_publicKey signer, mk_signing = ExternalSigner (sg_sign signer)\<rparr>" and
    add: "addProof L mk (JObj u) (JObj (proofConfig did vmId)) = Inr su" by blast
  obtain r where "drop i vmId = CHR ''#'' # r" using index_of_drop [OF id(2)] by blast
  then have full: "fullId mk = mk_controller mk @ drop i vmId"
    by (simp add: mk fullId_def starts_with_def)
  from addProof_shape [OF add u(3)] obtain sig where
    shape: "su = JObj (jm_set ''proof'' (JObj (jm_set ''proofValue'' (JStr (base58btc_encode L sig))
       (jm_set ''@context'' (own u ''@context'') (proofConfig did vmId)))) u)" and
    vmParts: "vmId = mk_controller mk @ drop i vmId"
    using full by (auto simp: proofConfig_facts)
  from fromVerificationMethod_signer [OF L(2) pub id(1)] obtain c where
    read: "fromVerificationMethod L vm = Inr \<lparr>mk_id = vmId, mk_controller = c,
       mk_publicKey = sg_publicKey signer, mk_signing = NoSecret\<rparr>" (is "_ = Inr ?mk'") and
    c: "case js_prop_opt vm ''controller'' of JStr s \<Rightarrow> c = s | _ \<Rightarrow> c = []" by blast
  have "vmId = (case js_prop_opt vm ''controller'' of JStr s \<Rightarrow> s | _ \<Rightarrow> ''undefined'') @ drop i vmId"
    using vmParts by (simp add: mk)
  from fullId_fragment [OF id(2) this c] have "fullId ?mk' = vmId"
    by (simp add: fullId_def split: if_split_asm)
  then have "fullId ?mk' = fullId mk" using vmParts full by simp
  moreover have "schnorr_verify L sig h (xOnly (mk_publicKey ?mk')) = Some True"
    if "multikeySign mk h = Inr sig" for h sig
    using that key by (auto simp: multikeySign_def mk)
  moreover have "own u ''@context'' \<noteq> JUndef" "own u ''@context'' \<noteq> JNull" using u(3) by auto
  ultimately obtain r where
    "verifyProof L ?mk' (jcs L su) ''capabilityInvocation'' None DomainAbsent None = Inr r" "vr_verified r"
    using verifyProof_addProof [OF L u(1,2) _ _ is_json_proofConfig _ add, where mk' = ?mk'] proofConfig_facts
    by blast
  moreover have "is_json su"
    using is_json_own [OF u(1), of "''@context''"] u(1,3) is_json_proofConfig is_json_jm_set
    by (auto simp: shape simp del: is_json_JObj)
  then have "canonicalize L su = Inr (jcs L su)" by (rule canonicalize_json)
  moreover have "vmId \<noteq> []" using id(2) by auto
  ultimately show ?thesis
    using read id(1) shape proofConfig_facts by (auto simp: js_prop_opt_def)
qed

lemma applyUpdate_signed:
  assumes "jcs_ok L" "codecs_ok L" "base64url_ok L"
    and u: "is_json (JObj u)" "\<not> jm_has u ''proof''" "truthy (own u ''@context'')"
      "own u ''patch'' = patches" "own u ''targetHash'' = JStr (base64url_encode L (canon_hash L target))"
    and doc: "js_prop_opt doc ''id'' = JStr did" "valid_utf8 (map of_char did)"
    and target: "JSONPatch_apply L doc patches = Inr target" "isValidDocument L target = Inr ()"
      "js_prop_opt target ''id'' \<noteq> JStr ID_PLACEHOLDER_VALUE"
    and vm: "getSigningMethod L doc (js_prop_opt vm ''id'') = Inr vm"
    and su: "signUpdate L did (JObj u) vm signer = Inr su"
    and key: "\<And>h. schnorr_verify L (sg_sign signer h) h (xOnly (sg_publicKey signer)) = Some True"
  shows "applyUpdate L doc su = Inr target \<and> (\<exists>pf. su = JObj (jm_set ''proof'' pf u))"
proof -
  from signUpdate_Inr [OF su] obtain vmId i where
    i: "js_prop_opt vm ''id'' = JStr vmId" "index_of (CHR ''#'') vmId = Some i"
    by (elim exE conjE) (rule that)
  from i(2) have "vmId \<noteq> []" by auto
  with getSigningMethod_Inr [OF vm [unfolded i(1)]] have "truthy (js_prop_opt vm ''publicKeyMultibase'')" by blast
  from signUpdate_verifies [OF assms(1,2) u(1-3) this su key]
  obtain mk r vmId pf where
    mk: "fromVerificationMethod L vm = Inr mk" "canonicalize L su = Inr (jcs L su)"
      "verifyProof L mk (jcs L su) ''capabilityInvocation'' None DomainAbsent None = Inr r" "vr_verified r" and
    vmId: "js_prop_opt vm ''id'' = JStr vmId" "vmId \<noteq> []" and
    su_eq: "su = JObj (jm_set ''proof'' pf u)" and
    pf: "js_prop_opt pf ''capability'' = JStr (rc_id (deriveRootCapability did))"
      "js_prop_opt pf ''verificationMethod'' = JStr vmId"
    by (elim exE conjE) (rule that)
  have props: "js_prop_opt su ''proof'' = pf" "js_prop_opt su ''patch'' = patches"
    "js_prop_opt su ''targetHash'' = JStr (base64url_encode L (canon_hash L target))"
    using u(4,5) by (simp_all add: su_eq js_prop_opt_def)
  have "target \<noteq> JUndef" using target(1) by (simp add: JSONPatch_apply_Inr_iff)
  moreover have "decodeProperty L (JStr (base64url_encode L (canon_hash L target))) = Inr (canon_hash L target)"
    using assms(3) by (simp add: decodeProperty_def of_option_def)
  moreover have "validateDocument L target = Inr target"
    using target(2,3) by (simp add: validateDocument_Inr)
  moreover have "rc_id (deriveRootCapability did) \<noteq> []" "rc_invocationTarget (deriveRootCapability did) = did"
    "rc_controller (deriveRootCapability did) = did"
    by (simp_all add: deriveRootCapability_def)
  ultimately have "applyUpdate L doc su = Inr target"
    unfolding applyUpdate_def Let_def props pf doc(1)
    using mk vm [unfolded vmId(1)] vmId(2) target(1) dereference_derived [OF doc(2)]
    by (simp del: JSONPatch_apply_Inr_iff)
  with su_eq show ?thesis by blast
qed

text \<open>Rounds of the loop over the sorted updates, without a version time.\<close>

definition applicable :: "'x method_lib_scheme \<Rightarrow> jsval \<Rightarrow> nat \<Rightarrow> jsval \<Rightarrow> jsval \<Rightarrow> bool" where
  "applicable L doc v su target \<longleftrightarrow>
     doc \<noteq> JUndef \<and> targetVersion su = Some (int v + 1) \<and>
     decodeProperty L (js_prop_opt su ''sourceHash'') = Inr (canon_hash L doc) \<and>
     applyUpdate L doc su = Inr target"

definition valid_time :: "BlockMetadata \<Rightarrow> bool" where
  "valid_time b \<longleftrightarrow> \<bar>bm_time b\<bar> \<le> 8640000000000"

lemma valid_time_timestamp: "valid_time b \<Longrightarrow> blocktimeToTimestamp (bm_time b) = Some (bm_time b * 1000)"
  by (simp add: valid_time_def blocktimeToTimestamp_def make_date_def)

lemma round_applies:
  assumes "applicable L doc v su target" "valid_time b" "rr_didDocument r = doc"
  shows "\<exists>r'. (updateRound L None vid (su, b) (v, h, r) =
       (h @ [unsignedHash L su], Continue (Suc v, h @ [unsignedHash L su], r')) \<or>
     updateRound L None vid (su, b) (v, h, r) =
       (h @ [unsignedHash L su], Return (Suc v, h @ [unsignedHash L su], r'))) \<and>
     rr_didDocument r' = target \<and> rr_versionId r' = show_nat (Suc v)"
  using assms applyUpdate_not_undef [of L doc su target]
  by (simp add: applicable_def updateRound_def Let_def toISOStringNonFractional_def unsignedHash_def
      valid_time_timestamp)

lemma round_continues:
  assumes "applicable L doc v su target" "valid_time b" "rr_didDocument r = doc" "\<not> truthy (js_prop_opt target ''deactivated'')"
  shows "\<exists>r'. updateRound L None None (su, b) (v, h, r) =
       (h @ [unsignedHash L su], Continue (Suc v, h @ [unsignedHash L su], r')) \<and>
     rr_didDocument r' = target \<and> rr_versionId r' = show_nat (Suc v)"
  using assms applyUpdate_not_undef [of L doc su target]
  by (simp add: applicable_def updateRound_def Let_def toISOStringNonFractional_def unsignedHash_def
      valid_time_timestamp)

lemma round_duplicate:
  assumes "targetVersion su = Some t" "t \<le> int v" "valid_time b" "rr_didDocument r \<noteq> JUndef"
  shows "\<exists>r'. updateRound L None vid (su, b) (v, h, r) =
       (case confirmDuplicate L su h of Inl e \<Rightarrow> (h, Throw e) | Inr _ \<Rightarrow> (h, Continue (v, h, r'))) \<and>
     rr_didDocument r' = rr_didDocument r \<and> rr_versionId r' = rr_versionId r"
  using assms
  by (intro exI [of _ "r\<lparr>rr_updated := Some (iso_seconds (bm_time b * 1000)), rr_confirmations := Some (bm_confirmations b)\<rparr>"])
     (simp add: updateRound_def Let_def toISOStringNonFractional_def valid_time_timestamp)

lemma sort_key_const: "sort_key (\<lambda>x. c) xs = xs"
  by (rule sort_key_id_if_sorted) (induction xs; simp)

lemma sort_key_map: "sort_key f (map g xs) = map g (sort_key (f \<circ> g) xs)"
proof -
  have "insort_key f (g x) (map g ys) = map g (insort_key (f \<circ> g) x ys)" for x ys
    by (induction ys) auto
  then show ?thesis unfolding sort_key_def by (induction xs) simp_all
qed

lemma sortUpdates_same: "sortUpdates (map (Pair su) bs) = map (Pair su) (sort_key bm_height bs)"
  by (simp add: sortUpdates_def sort_key_map comp_def sort_key_const)

lemma resolve_one_update:
  assumes "applicable L doc v su target" "valid_time b"
  shows "\<exists>r. resolverUpdates L doc [(su, b)] None vid v h = (h @ [unsignedHash L su], Inr r) \<and>
     rr_didDocument r = target \<and> rr_versionId r = show_nat (Suc v)"
proof -
  let ?r = "\<lparr>rr_didDocument = doc, rr_versionId = show_nat v, rr_confirmations = Some 0, rr_updated = Some [],
    rr_deactivated = js_or (js_prop_opt doc ''deactivated'') (JBool False)\<rparr>"
  have "sortUpdates [(su, b)] = [(su, b)]" by (simp add: sortUpdates_def)
  then show ?thesis
    using round_applies [OF assms, of ?r vid h] by (auto simp: resolverUpdates_def)
qed

text \<open>C1: what \<open>constructUpdate\<close> and \<open>signUpdate\<close> make from a document and a patch, with a signer of
  one of the document's verification methods, the resolver accepts: \<open>applyUpdate\<close> yields the patched
  document, and resolving the announced update from the source document gives that document, the
  next version and its hash in the history, whichever version was asked for.\<close>

theorem constructed_update_resolves:
  assumes "jcs_ok L" "codecs_ok L" "base64url_ok L"
    and "is_json doc" "is_json patches"
    and "js_prop_opt doc ''id'' = JStr did" "did \<noteq> ID_PLACEHOLDER_VALUE" "valid_utf8 (map of_char did)"
    and "constructUpdate L doc patches (int v) = Inr u"
    and "getSigningMethod L doc (js_prop_opt vm ''id'') = Inr vm"
    and "signUpdate L did u vm signer = Inr su"
    and "\<And>h. schnorr_verify L (sg_sign signer h) h (xOnly (sg_publicKey signer)) = Some True"
    and "valid_time block"
  shows "\<exists>target r. JSONPatch_apply L doc patches = Inr target \<and> applyUpdate L doc su = Inr target \<and>
     resolverUpdates L doc [(su, block)] None vid v h = (h @ [unsignedHash L su], Inr r) \<and>
     rr_didDocument r = target \<and> rr_versionId r = show_nat (Suc v)"
proof -
  have undef: "doc \<noteq> JUndef" using assms(4) by auto
  from constructUpdate_Inr [OF assms(9) undef] obtain target where
    target: "JSONPatch_apply L doc patches = Inr target" "isValidDocument L target = Inr ()"
      "js_prop_opt target ''id'' = js_prop_opt doc ''id''" and
    u: "u = JObj [(''@context'', UPDATE_CONTEXT), (''patch'', patches),
        (''targetHash'', JStr (base64url_encode L (canon_hash L target))),
        (''targetVersionId'', JInt (int v + 1)), (''sourceHash'', JStr (base64url_encode L (canon_hash L doc)))]"
      (is "_ = JObj ?u") by blast
  have facts: "is_json (JObj ?u)" "\<not> jm_has ?u ''proof''" "truthy (own ?u ''@context'')"
    "own ?u ''patch'' = patches" "own ?u ''targetHash'' = JStr (base64url_encode L (canon_hash L target))"
    using assms(5) by (simp_all add: jm_has_def)
  have placeholder: "js_prop_opt target ''id'' \<noteq> JStr ID_PLACEHOLDER_VALUE"
    using target(3) assms(6,7) by simp
  have applied: "applyUpdate L doc su = Inr target \<and> (\<exists>pf. su = JObj (jm_set ''proof'' pf ?u))"
    by (rule applyUpdate_signed [OF assms(1-3) facts assms(6,8) target(1,2) placeholder assms(10) assms(11) [unfolded u] assms(12)])
  then obtain pf where su: "su = JObj (jm_set ''proof'' pf ?u)" by blast
  have "applicable L doc v su target"
    using assms(3) applied undef
    by (simp add: su applicable_def targetVersion_def js_prop_opt_def decodeProperty_def of_option_def)
  then have "\<exists>r. resolverUpdates L doc [(su, block)] None vid v h = (h @ [unsignedHash L su], Inr r) \<and>
      rr_didDocument r = target \<and> rr_versionId r = show_nat (Suc v)"
    using assms(13) by (rule resolve_one_update)
  with target(1) applied show ?thesis by blast
qed

lemma constructed_update_resolves_witness:
  "\<exists>u su target r. constructUpdate demo_mlib demo_source demo_patches 1 = Inr u \<and>
     signUpdate demo_mlib demo_did u demo_vm demo_signer = Inr su \<and>
     JSONPatch_apply demo_mlib demo_source demo_patches = Inr target \<and>
     resolverUpdates demo_mlib demo_source [(su, \<lparr>bm_height = 7, bm_time = 1700000000, bm_confirmations = 1\<rparr>)]
       None None 1 [] = ([unsignedHash demo_mlib su], Inr r) \<and>
     rr_didDocument r = target \<and> rr_versionId r = ''2''"
proof -
  obtain u su where u: "constructUpdate demo_mlib demo_source demo_patches (int 1) = Inr u"
    and su: "signUpdate demo_mlib demo_did u demo_vm demo_signer = Inr su"
    using demo_update [of "[JStr (demo_did @ ''#initialKey'')]" "JStr ''x''" 1]
    by (auto simp: demo_source_def demo_patches_def)
  have time: "valid_time \<lparr>bm_height = 7, bm_time = 1700000000, bm_confirmations = 1\<rparr>"
    by (simp add: valid_time_def)
  have signingVm: "getSigningMethod demo_mlib demo_source (js_prop_opt demo_vm ''id'') = Inr demo_vm"
    by (simp add: demo_source_def demo_document_facts demo_signing_method)
  have "show_nat (Suc 1) = ''2''" by code_simp
  then show ?thesis
    using constructed_update_resolves [OF demo_mlib_ok(4,5,3) demo_source_facts(2,3,1) demo_did_ok(3,4) u signingVm su
      demo_signer_verifies time, of None "[]"] u su by auto
qed

section \<open>Versions, duplicates and capabilities\<close>

lemma demo_update_resolves:
  assumes "list_all is_string ci" "is_json w"
  obtains u su where "constructUpdate demo_mlib (demo_document ci) (demo_patch_to w) (int v) = Inr u"
    "signUpdate demo_mlib demo_did u demo_vm demo_signer = Inr su"
    "applyUpdate demo_mlib (demo_document ci) su = Inr (js_set_prop ''name'' w (demo_document ci))"
    "applicable demo_mlib (demo_document ci) v su (js_set_prop ''name'' w (demo_document ci))"
    "\<exists>pf. su = js_set_prop ''proof'' pf u"
proof -
  from assms(1) have json: "list_all is_json ci"
    by (rule list.pred_mono_strong) (auto elim: is_stringE)
  obtain u su where u: "constructUpdate demo_mlib (demo_document ci) (demo_patch_to w) (int v) = Inr u"
    and su: "signUpdate demo_mlib demo_did u demo_vm demo_signer = Inr su"
    using demo_update [OF assms(1)] by metis
  let ?doc = "demo_document ci" and ?t = "js_set_prop ''name'' w (demo_document ci)"
  from constructUpdate_Inr [OF u demo_document_facts(2)] have
    u_eq: "u = JObj [(''@context'', UPDATE_CONTEXT), (''patch'', demo_patch_to w),
        (''targetHash'', JStr (base64url_encode demo_mlib (canon_hash demo_mlib ?t))),
        (''targetVersionId'', JInt (int v + 1)),
        (''sourceHash'', JStr (base64url_encode demo_mlib (canon_hash demo_mlib ?doc)))]" (is "_ = JObj ?u")
    using demo_patched [OF json] by auto
  have facts: "is_json (JObj ?u)" "\<not> jm_has ?u ''proof''" "truthy (own ?u ''@context'')"
    "own ?u ''patch'' = demo_patch_to w"
    "own ?u ''targetHash'' = JStr (base64url_encode demo_mlib (canon_hash demo_mlib ?t))"
    using assms(2) demo_document_facts(4) by (simp_all add: jm_has_def)
  have signingVm: "getSigningMethod demo_mlib ?doc (js_prop_opt demo_vm ''id'') = Inr demo_vm"
    by (simp add: demo_document_facts demo_signing_method)
  have placeholder: "js_prop_opt ?t ''id'' \<noteq> JStr ID_PLACEHOLDER_VALUE"
    using demo_target_valid(2) [OF assms(1)] demo_did_ok(3) by simp
  from applyUpdate_signed [OF demo_mlib_ok(4,5,3) facts demo_document_facts(1) demo_did_ok(4)
      demo_patched [OF json] demo_target_valid(1) [OF assms(1)] placeholder signingVm su [unfolded u_eq] demo_signer_verifies]
  obtain pf where pf: "applyUpdate demo_mlib ?doc su = Inr ?t" "su = JObj (jm_set ''proof'' pf ?u)" by blast
  moreover have "applicable demo_mlib ?doc v su ?t"
    using demo_document_facts(2) pf(1) demo_mlib_ok(3)
    by (simp add: applicable_def pf(2) targetVersion_def js_prop_opt_def decodeProperty_def of_option_def)
  moreover have "su = js_set_prop ''proof'' pf u" by (simp add: pf(2) u_eq js_set_prop_def)
  ultimately show ?thesis using that u su by blast
qed


text \<open>A version is asked for that has already been reached, and the resolver answers with the
  version after it: the requested version is only compared after an update was applied.\<close>

theorem requested_version_overrun:
  "\<exists>doc su b h r. resolverUpdates demo_mlib doc [(su, b)] None (Some ''1'') 1 [] = (h, Inr r) \<and>
     rr_versionId r = ''2''"
proof -
  let ?b = "\<lparr>bm_height = 7, bm_time = 1700000000, bm_confirmations = 1\<rparr>"
  obtain su target where "applicable demo_mlib demo_source 1 su target"
    by (rule demo_update_resolves [of "[JStr (demo_did @ ''#initialKey'')]" "JStr ''x''" 1])
       (auto simp: demo_source_def)
  moreover have "valid_time ?b" by (simp add: valid_time_def)
  ultimately obtain r where
    "resolverUpdates demo_mlib demo_source [(su, ?b)] None (Some ''1'') 1 [] = ([unsignedHash demo_mlib su], Inr r)"
    "rr_versionId r = show_nat (Suc 1)"
    using resolve_one_update [of demo_mlib demo_source 1 su target ?b "Some ''1''" "[]"] by auto
  moreover have "show_nat (Suc 1) = ''2''" by code_simp
  ultimately show ?thesis by metis
qed

text \<open>An announcement of an applied update is ignored when the two ways to remove its proof agree.\<close>

lemma confirmDuplicate_applied:
  assumes "targetVersion su = Some (int v + 1)" "v \<ge> 1" "length h = v - 1"
    and "rest_without ''proof'' su = Inr w" "w \<noteq> JUndef"
  shows "confirmDuplicate L su (h @ [x]) =
    (if x = canon_hash L w then Inr () else Inl (Error ''ResolveError'' ''LATE_PUBLISHING_ERROR''))"
proof -
  have "nat (int v + 1 - 2) = v - 1" using assms(2) by simp
  with assms show ?thesis by (auto simp: confirmDuplicate_def Let_def nth_append)
qed

lemma duplicates_continue:
  assumes "\<And>b. b \<in> set bs \<Longrightarrow> valid_time b" "targetVersion su = Some t" "t \<le> int v"
    and "confirmDuplicate L su h = Inr ()" "rr_didDocument r \<noteq> JUndef"
  shows "\<exists>r'. updatesLoop L None vid (map (Pair su) bs) (v, h, r) = (h, Inr r') \<and>
     rr_didDocument r' = rr_didDocument r \<and> rr_versionId r' = rr_versionId r"
  using assms
proof (induction bs arbitrary: r)
  case (Cons b bs)
  obtain r1 where r1: "updateRound L None vid (su, b) (v, h, r) = (h, Continue (v, h, r1))"
    "rr_didDocument r1 = rr_didDocument r" "rr_versionId r1 = rr_versionId r"
    using round_duplicate [of su t v b r L vid h] Cons.prems by auto
  from Cons.IH [of r1] Cons.prems r1 show ?case by simp
qed simp

lemma applicable_target:
  "applicable L doc v su target \<Longrightarrow> target \<noteq> JUndef"
  by (auto simp: applicable_def applyUpdate_def Let_def rbind_Inr_iff JSONPatch_apply_Inr_iff split: if_splits)

text \<open>However often and in whichever blocks an applicable update is announced, it is applied once;
  the other announcements are confirmed as duplicates and change neither the document nor the
  version nor the history.\<close>

theorem duplicates_ignored:
  assumes "applicable L doc v su target" "rest_without ''proof'' su = Inr (deleteKeys [''proof''] su)"
    and "v \<ge> 1" "length h = v - 1" "bs \<noteq> []" "\<And>b. b \<in> set bs \<Longrightarrow> valid_time b"
  shows "\<exists>r. resolverUpdates L doc (map (Pair su) bs) None vid v h = (h @ [unsignedHash L su], Inr r) \<and>
     rr_didDocument r = target \<and> rr_versionId r = show_nat (Suc v)"
proof -
  obtain b bs' where bs: "sort_key bm_height bs = b # bs'"
    using assms(5) by (cases "sort_key bm_height bs") (auto dest: arg_cong [where f = length])
  then have times: "valid_time b" "\<And>b. b \<in> set bs' \<Longrightarrow> valid_time b"
    using assms(6) set_sort [of bm_height bs] by auto
  let ?r = "\<lparr>rr_didDocument = doc, rr_versionId = show_nat v, rr_confirmations = Some 0, rr_updated = Some [],
    rr_deactivated = js_or (js_prop_opt doc ''deactivated'') (JBool False)\<rparr>"
  let ?h = "h @ [unsignedHash L su]"
  obtain r1 where r1: "updateRound L None vid (su, b) (v, h, ?r) = (?h, Continue (Suc v, ?h, r1)) \<or>
      updateRound L None vid (su, b) (v, h, ?r) = (?h, Return (Suc v, ?h, r1))"
    "rr_didDocument r1 = target" "rr_versionId r1 = show_nat (Suc v)"
    using round_applies [OF assms(1) times(1), of ?r vid h] by auto
  have version: "targetVersion su = Some (int v + 1)" and su: "su \<noteq> JUndef"
    using assms(1) applyUpdate_not_undef by (auto simp: applicable_def)
  have "confirmDuplicate L su ?h = Inr ()"
    using confirmDuplicate_applied [OF version assms(3,4,2), of L "unsignedHash L su"] su by (simp add: unsignedHash_def)
  then obtain r2 where "updatesLoop L None vid (map (Pair su) bs') (Suc v, ?h, r1) = (?h, Inr r2)"
    "rr_didDocument r2 = target" "rr_versionId r2 = show_nat (Suc v)"
    using duplicates_continue [of bs' su "int v + 1" "Suc v" L ?h r1 vid] times(2) version r1(2,3)
      applicable_target [OF assms(1)] by auto
  with r1 show ?thesis by (auto simp: resolverUpdates_def sortUpdates_same bs)
qed

text \<open>The demo update with its shape.\<close>

lemma demo_update_shape:
  assumes "is_json w"
  obtains ts ss pf su target where "applicable demo_mlib demo_source 1 su target"
    "target = js_set_prop ''name'' w demo_source"
    "su = JObj [(''@context'', UPDATE_CONTEXT), (''patch'', demo_patch_to w), (''targetHash'', JStr ts),
       (''targetVersionId'', JInt 2), (''sourceHash'', JStr ss), (''proof'', pf)]"
proof -
  obtain u su pf where u: "constructUpdate demo_mlib demo_source (demo_patch_to w) (int 1) = Inr u"
    and su: "applicable demo_mlib demo_source 1 su (js_set_prop ''name'' w demo_source)" "su = js_set_prop ''proof'' pf u"
    by (rule demo_update_resolves [of "[JStr (demo_did @ ''#initialKey'')]" w 1])
       (auto simp: demo_source_def assms)
  have "demo_source \<noteq> JUndef" by (simp add: demo_source_def demo_document_facts)
  from constructUpdate_Inr [OF u this] su that show ?thesis by (auto simp: js_set_prop_def)
qed

lemma duplicates_ignored_witness:
  "\<exists>su h r. resolverUpdates demo_mlib demo_source
       (map (Pair su) [\<lparr>bm_height = 9, bm_time = 1700000000, bm_confirmations = 1\<rparr>,
                       \<lparr>bm_height = 7, bm_time = 1690000000, bm_confirmations = 3\<rparr>]) None None 1 [] = (h, Inr r) \<and>
     length h = 1 \<and> rr_versionId r = ''2''"
proof -
  let ?bs = "[\<lparr>bm_height = 9, bm_time = 1700000000, bm_confirmations = 1\<rparr>,
              \<lparr>bm_height = 7, bm_time = 1690000000, bm_confirmations = 3\<rparr>]"
  obtain ts ss pf su target where su: "applicable demo_mlib demo_source 1 su target"
    "su = JObj [(''@context'', UPDATE_CONTEXT), (''patch'', demo_patch_to (JStr ''x'')), (''targetHash'', JStr ts),
       (''targetVersionId'', JInt 2), (''sourceHash'', JStr ss), (''proof'', pf)]"
    by (rule demo_update_shape [of "JStr ''x''"]) auto
  have same: "rest_without ''proof'' su = Inr (deleteKeys [''proof''] su)"
    by (simp add: su(2) rest_without_def UPDATE_CONTEXT_def demo_patch_to_def)
  have times: "\<And>b. b \<in> set ?bs \<Longrightarrow> valid_time b" by (auto simp: valid_time_def)
  have one: "(1::nat) \<ge> 1" "length ([] :: bytes list) = 1 - 1" "?bs \<noteq> []" by simp_all
  have "show_nat (Suc 1) = ''2''" by code_simp
  with duplicates_ignored [OF su(1) same one times, of None] show ?thesis by fastforce
qed

text \<open>The resolver removes the proof of an applied update at every depth and that of a duplicate
  at the top only, so an update whose patch sets a property named \<open>proof\<close> is applied once, and its
  second announcement makes resolution fail with \<open>LATE_PUBLISHING_ERROR\<close>.\<close>

theorem nested_proof_duplicate_fails:
  "\<exists>su b r h. resolverUpdates demo_mlib demo_source [(su, b)] None None 1 [] = ([h], Inr r) \<and>
     resolverUpdates demo_mlib demo_source [(su, b), (su, b)] None None 1 [] =
       ([h], Inl (Error ''ResolveError'' ''LATE_PUBLISHING_ERROR''))"
proof -
  let ?b = "\<lparr>bm_height = 7, bm_time = 1700000000, bm_confirmations = 1\<rparr>"
  let ?w = "JObj [(''proof'', JNull)]"
  obtain ts ss pf su target where su: "applicable demo_mlib demo_source 1 su target"
    "target = js_set_prop ''name'' ?w demo_source"
    "su = JObj [(''@context'', UPDATE_CONTEXT), (''patch'', demo_patch_to ?w), (''targetHash'', JStr ts),
       (''targetVersionId'', JInt 2), (''sourceHash'', JStr ss), (''proof'', pf)]"
    by (rule demo_update_shape [of ?w]) auto
  have time: "valid_time ?b" by (simp add: valid_time_def)
  have active: "\<not> truthy (js_prop_opt target ''deactivated'')"
    by (simp add: su(2) demo_source_def demo_document_def js_set_prop_def js_prop_opt_def)
  let ?x = "unsignedHash demo_mlib su"
  let ?r = "\<lparr>rr_didDocument = demo_source, rr_versionId = show_nat 1, rr_confirmations = Some 0, rr_updated = Some [],
    rr_deactivated = js_or (js_prop_opt demo_source ''deactivated'') (JBool False)\<rparr>"
  obtain r1 where r1: "updateRound demo_mlib None None (su, ?b) (1, [], ?r) = ([?x], Continue (2, [?x], r1))"
    "rr_didDocument r1 = target"
    using round_continues [OF su(1) time _ active, of ?r "[]"] by (auto simp: numeral_2_eq_2)
  obtain w where w: "rest_without ''proof'' su = Inr w" "w \<noteq> JUndef"
    "canon_hash demo_mlib w \<noteq> ?x"
    using demo_hash_nested [OF su(3)] by (auto simp: unsignedHash_def)
  have "confirmDuplicate demo_mlib su [?x] = Inl (Error ''ResolveError'' ''LATE_PUBLISHING_ERROR'')"
    using confirmDuplicate_applied [of su 1 "[]" w demo_mlib ?x] w su(3) by (simp add: targetVersion_def js_prop_opt_def)
  then have "updateRound demo_mlib None None (su, ?b) (2, [?x], r1) =
      ([?x], Throw (Error ''ResolveError'' ''LATE_PUBLISHING_ERROR''))"
    using round_duplicate [of su 2 2 ?b r1 demo_mlib None "[?x]"] time su(3) r1(2) applicable_target [OF su(1)]
    by (auto simp: targetVersion_def js_prop_opt_def)
  with r1 have "resolverUpdates demo_mlib demo_source [(su, ?b), (su, ?b)] None None 1 [] =
       ([?x], Inl (Error ''ResolveError'' ''LATE_PUBLISHING_ERROR''))"
    by (simp add: resolverUpdates_def sortUpdates_def)
  moreover have "\<exists>r. resolverUpdates demo_mlib demo_source [(su, ?b)] None None 1 [] = ([?x], Inr r)"
    using resolve_one_update [OF su(1) time, of None "[]"] by auto
  ultimately show ?thesis by blast
qed

section \<open>A patch that changes the identifier\<close>

definition other_did :: string where
  "other_did = ''did:btcr2:'' @ demo_bech32m ''x'' (0 # replicate 32 7)"

definition demo_id_patch :: jsval where
  "demo_id_patch = JArr [JObj [(''op'', JStr ''replace''), (''path'', JStr ''/id''), (''value'', JStr other_did)]]"

definition demo_id_target :: jsval where
  "demo_id_target = js_set_prop ''id'' (JStr other_did) demo_source"

definition demo_id_update :: "(string \<times> jsval) list" where
  "demo_id_update = [(''@context'', UPDATE_CONTEXT), (''patch'', demo_id_patch),
     (''targetHash'', JStr (base64url_encode demo_mlib (canon_hash demo_mlib demo_id_target))),
     (''targetVersionId'', JInt 2),
     (''sourceHash'', JStr (base64url_encode demo_mlib (canon_hash demo_mlib demo_source)))]"

lemma other_did_ok: "isValidIdentifier demo_mlib other_did" "other_did \<noteq> ID_PLACEHOLDER_VALUE" "other_did \<noteq> demo_did"
proof -
  show "isValidIdentifier demo_mlib other_did"
    using decode_encoded [of demo_mlib 0 "''x''" "replicate 32 7"]
    by (simp add: isValidIdentifier_def other_did_def)
  show "other_did \<noteq> ID_PLACEHOLDER_VALUE"
    by (simp add: other_did_def demo_bech32m_def ID_PLACEHOLDER_VALUE_def)
  show "other_did \<noteq> demo_did" by (simp add: other_did_def demo_did_def demo_bech32m_def)
qed

lemma demo_id_patched: "JSONPatch_apply demo_mlib demo_source demo_id_patch = Inr demo_id_target"
proof -
  have "jsonRoundTrip demo_source = demo_source" by (rule jsonRoundTrip_idem) (rule demo_source_facts)
  then show ?thesis
    by (simp add: JSONPatch_apply_Inr_iff demo_id_patch_def validateOperations_def validateOperation_def
        demo_mlib_def demo_patch_def demo_patch_op_def js_prop_opt_def typeof_object_def Let_def demo_id_target_def)
      (simp add: demo_source_def demo_document_def js_set_prop_def)
qed

lemma demo_id_target_valid: "isValidDocument demo_mlib demo_id_target = Inr ()"
  "js_prop_opt demo_id_target ''id'' = JStr other_did"
  "js_prop demo_id_target ''id'' = Inr (JStr other_did)"
  by (simp_all add: demo_id_target_def demo_source_def demo_document_def js_set_prop_def js_prop_opt_def
      js_prop_def isValidContext_def isValidId_def other_did_ok isValidVerificationMethods_def isValidServices_def
      isValidVerificationRelationships_def BTCR2_DID_DOCUMENT_CONTEXT_def verificationRelationships_def
      js_has_own_def demo_vm_valid)

text \<open>C0:\<open>constructUpdate\<close> refuses a patch that changes the document's identifier, but the resolver does
  not check it: a signed update with such a patch is accepted, and the document of another DID is the
  result of resolving this one.\<close>

theorem identifier_change_accepted:
  "constructUpdate demo_mlib demo_source demo_id_patch 1 = update_error ''INVALID_DID_UPDATE'' \<and>
   (\<exists>su b r h. resolverUpdates demo_mlib demo_source [(su, b)] None None 1 [] = (h, Inr r) \<and>
      js_prop_opt demo_source ''id'' = JStr demo_did \<and>
      js_prop_opt (rr_didDocument r) ''id'' = JStr other_did \<and> demo_did \<noteq> other_did)"
proof -
  have "demo_source \<noteq> JUndef" by (simp add: demo_source_def demo_document_facts(2))
  then have refused: "constructUpdate demo_mlib demo_source demo_id_patch 1 = update_error ''INVALID_DID_UPDATE''"
    using other_did_ok(3) demo_source_facts(1) by (simp add: constructUpdate_def demo_id_patched demo_id_target_valid)
  obtain su where su: "signUpdate demo_mlib demo_did (JObj demo_id_update) demo_vm demo_signer = Inr su"
    using demo_signed [of demo_id_update] by (auto simp: demo_id_update_def)
  have facts: "is_json (JObj demo_id_update)" "\<not> jm_has demo_id_update ''proof''" "truthy (own demo_id_update ''@context'')"
    "own demo_id_update ''patch'' = demo_id_patch"
    "own demo_id_update ''targetHash'' = JStr (base64url_encode demo_mlib (canon_hash demo_mlib demo_id_target))"
    by (simp_all add: demo_id_update_def jm_has_def demo_id_patch_def)
  have signingVm: "getSigningMethod demo_mlib demo_source (js_prop_opt demo_vm ''id'') = Inr demo_vm"
    by (simp add: demo_document_facts demo_source_def demo_signing_method)
  have placeholder: "js_prop_opt demo_id_target ''id'' \<noteq> JStr ID_PLACEHOLDER_VALUE"
    using other_did_ok(2) by (simp add: demo_id_target_valid)
  from applyUpdate_signed [OF demo_mlib_ok(4,5,3) facts demo_source_facts(1) demo_did_ok(4)
      demo_id_patched demo_id_target_valid(1) placeholder signingVm su demo_signer_verifies]
  obtain pf where pf: "applyUpdate demo_mlib demo_source su = Inr demo_id_target"
    "su = JObj (jm_set ''proof'' pf demo_id_update)" by blast
  have "applicable demo_mlib demo_source 1 su demo_id_target"
    using pf(1) demo_mlib_ok(3)
    by (simp add: applicable_def pf(2) targetVersion_def js_prop_opt_def decodeProperty_def of_option_def
        demo_id_update_def demo_source_def demo_document_facts(2))
  moreover have "valid_time \<lparr>bm_height = 7, bm_time = 1700000000, bm_confirmations = 1\<rparr>" by (simp add: valid_time_def)
  ultimately obtain h r where "resolverUpdates demo_mlib demo_source
      [(su, \<lparr>bm_height = 7, bm_time = 1700000000, bm_confirmations = 1\<rparr>)] None None 1 [] = (h, Inr r)"
    "rr_didDocument r = demo_id_target"
    using resolve_one_update by blast
  then show ?thesis
    using refused other_did_ok(3) demo_source_facts(1) demo_id_target_valid(2) by metis
qed

end
