(* ===== verification/ResolverGuarantees.thy ===== *)
theory ResolverGuarantees
  imports UpdateProps
begin

text \<open>
  What a caller of the resolver may rely on, whatever it provides and in whichever order: the
  resolved document ends a version chain, an update that is applied was announced by its hash, and
  providing data meets the need it was asked for.
\<close>

section \<open>What the steps leave alone\<close>

lemma step_frame:
  assumes "resolveStep L s = (s', r)"
  shows "rs_versionId s' = rs_versionId s \<and> rs_sidecarData s' = rs_sidecarData s"
proof (cases "rs_phase s")
  case BeaconProcess
  obtain us ps q where "beaconProcessLoop L (rs_beaconServicesSignals s) s [] =
      (s\<lparr>rs_unsortedUpdates := us, rs_processedServices := ps\<rparr>, q)"
    using beaconProcessLoop_frame by blast
  with assms BeaconProcess show ?thesis by (auto simp: resolveStep_def split: sum.splits if_splits)
next
  case ApplyUpdates
  show ?thesis
  proof (cases "rs_unsortedUpdates s = []")
    case True
    with assms ApplyUpdates show ?thesis by (auto simp: resolveStep_def)
  next
    case False
    obtain h' q where "resolverUpdates L (rs_currentDocument s) (rs_unsortedUpdates s) (rs_versionTime s)
        (rs_versionId s) (rs_currentVersionId s) (rs_updateHashHistory s) = (h', q)" by fastforce
    with assms ApplyUpdates False show ?thesis
      by (cases q) (auto simp: resolveStep_def Let_def split: sum.splits if_splits option.splits)
  qed
qed (use assms in \<open>auto simp: resolveStep_def split: sum.splits if_splits option.splits\<close>)

lemma provide_versionId: "provideData L need data s = Inr s' \<Longrightarrow> rs_versionId s' = rs_versionId s"
  by (auto simp: provideData_def Let_def rbind_Inr_iff split: data_need.splits provided.splits if_splits)

lemma reach_versionId: "resolver_reach L s0 s \<Longrightarrow> rs_versionId s = rs_versionId s0"
  by (induction rule: resolver_reach.induct) (auto dest: provide_versionId step_frame)

section \<open>The resolved document\<close>

lemma resolver_inv_chain:
  assumes "resolver_inv L s0 s" "rs_phase s = Complete"
  obtains d0 us where "initial_document L s0 d0" "version_chain L d0 us (rs_currentDocument s)"
    "case rs_resolvedResponse s of None \<Rightarrow> us = []
     | Some r \<Rightarrow> rr_didDocument r = rs_currentDocument s \<and> rr_versionId r = show_nat (Suc (length us))"
  using assms by (auto simp: resolver_inv_def)

text \<open>C2: whatever was provided before, in whichever order and after whichever exceptions, a document
  that \<open>resolve\<close> returns is reached from the initial document by updates that were each for the next
  version, over the hash of the document before, and accepted by \<open>applyUpdate\<close>; the version it
  reports is that of the chain, except that when there was no update to apply, a version that was asked
  for is reported as it is, whether or not it exists.\<close>

theorem resolved_document_has_chain:
  assumes "resolver_reach L (newResolver c sd d vid vt g m) s"
    and "resolveLoop L n s = Some (s', Inr (Resolved r))"
  shows "\<exists>d0 us. initial_document L (newResolver c sd d vid vt g m) d0 \<and>
     version_chain L d0 us (rr_didDocument r) \<and>
     (rr_versionId r = show_nat (Suc (length us)) \<or> us = [] \<and> vid = Some (rr_versionId r))"
proof -
  let ?s0 = "newResolver c sd d vid vt g m"
  have reach: "resolver_reach L ?s0 s'" by (rule loop_reach [OF assms])
  have complete: "rs_phase s' = Complete" "resolveStep L s' = (s', Return (Some (Resolved r)))"
    using loop_resolved [OF assms(2)] by blast+
  have vid: "rs_versionId s' = vid" using reach_versionId [OF reach] by (simp add: newResolver_def)
  obtain d0 us where chain: "initial_document L ?s0 d0" "version_chain L d0 us (rs_currentDocument s')"
    "case rs_resolvedResponse s' of None \<Rightarrow> us = []
     | Some r \<Rightarrow> rr_didDocument r = rs_currentDocument s' \<and> rr_versionId r = show_nat (Suc (length us))"
    using resolver_inv_chain [OF reach_inv [OF newResolver_inv reach] complete(1)] by blast
  show ?thesis
  proof (cases "rs_resolvedResponse s'")
    case None
    have "show_nat 1 = ''1''" by code_simp
    with None complete vid chain show ?thesis
      by (cases vid) (auto simp: resolveStep_def intro!: exI [of _ d0] exI [of _ us])
  next
    case (Some resp)
    with complete chain show ?thesis by (auto simp: resolveStep_def intro!: exI [of _ d0] exI [of _ us])
  qed
qed

definition demo_components :: DidComponents where
  "demo_components = \<lparr>dc_idType = ''KEY'', dc_hrp = ''k'', dc_version = 1, dc_network = NetName ''bitcoin'',
     dc_genesisBytes = demo_key\<rparr>"

definition demo_resolver :: Resolver where
  "demo_resolver = newResolver demo_components \<lparr>sd_updateMap = [], sd_casMap = [], sd_smtMap = []\<rparr>
     (Some demo_source) None None None None"

lemma demo_no_services: "getBeaconServices demo_source = Inr []"
  by (simp add: getBeaconServices_def demo_source_def demo_document_def js_prop_opt_def)

lemma demo_resolver_resolves:
  "resolveLoop demo_mlib 5 demo_resolver =
     Some (demo_resolver\<lparr>rs_phase := Complete\<rparr>,
       Inr (Resolved \<lparr>rr_didDocument = demo_source, rr_versionId = ''1'', rr_confirmations = None,
         rr_updated = None, rr_deactivated = JBool False\<rparr>))"
proof -
  have "js_or (js_prop_opt demo_source ''deactivated'') (JBool False) = JBool False"
    by (simp add: demo_source_def demo_document_def js_prop_opt_def js_or_def)
  then show ?thesis
    by (simp add: demo_resolver_def newResolver_def numeral_eq_Suc resolveStep_def newServicesOf_def demo_no_services
        withAddresses_def)
qed

text \<open>Version 7 of a document without any update resolves, to version 1 under the number 7.\<close>

lemma requested_version_unverified:
  "\<exists>s' r. resolveLoop demo_mlib 5 (demo_resolver\<lparr>rs_versionId := Some ''7''\<rparr>) = Some (s', Inr (Resolved r)) \<and>
     rr_versionId r = ''7'' \<and> rr_didDocument r = demo_source"
  by (simp add: demo_resolver_def newResolver_def numeral_eq_Suc resolveStep_def newServicesOf_def demo_no_services
      withAddresses_def)

lemma resolved_document_has_chain_witness:
  "\<exists>s' r d0 us. resolveLoop demo_mlib 5 demo_resolver = Some (s', Inr (Resolved r)) \<and>
     initial_document demo_mlib demo_resolver d0 \<and> version_chain demo_mlib d0 us (rr_didDocument r)"
  using resolved_document_has_chain [OF reach_start demo_resolver_resolves [unfolded demo_resolver_def]]
    demo_resolver_resolves
  by (metis demo_resolver_def)

section \<open>Announced updates\<close>

text \<open>The sidecar data is keyed by hashes: what is held under a key hashes to it.\<close>

definition sidecar_ok :: "'x method_lib_scheme \<Rightarrow> SidecarData \<Rightarrow> bool" where
  "sidecar_ok L sd \<longleftrightarrow>
     (\<forall>k v. jm_get (sd_updateMap sd) k = Some v \<longrightarrow> canonicalHash L ''hex'' v = Inr k) \<and>
     (\<forall>k v. jm_get (sd_casMap sd) k = Some v \<longrightarrow> canonicalHash L ''hex'' v = Inr k) \<and>
     (\<forall>k v. jm_get (sd_smtMap sd) k = Some v \<longrightarrow> smtProofKey L v = Inr k)"

lemma keyedBy_ok:
  assumes "keyedBy f vs m = Inr m'" "\<And>k v. jm_get m k = Some v \<Longrightarrow> f v = Inr k"
  shows "jm_get m' k = Some v \<Longrightarrow> f v = Inr k"
  using assms
proof (induction f vs m rule: keyedBy.induct)
  case (2 f w vs m)
  from 2(3) obtain x where x: "f w = Inr x" "keyedBy f vs (jm_set x w m) = Inr m'" by (auto simp: rbind_Inr_iff)
  have "f v = Inr k" if "jm_get (jm_set x w m) k = Some v" for k v
    using that 2(4) x(1) by (auto split: if_splits)
  with 2(1) [OF x(1) 2(2) x(2)] show ?case by blast
qed simp

lemma sidecarData_ok: "sidecarData L sidecar = Inr sd \<Longrightarrow> sidecar_ok L sd"
  unfolding sidecarData_def sidecar_ok_def rbind_Inr_iff
  by (elim exE conjE) (auto dest: keyedBy_ok)

lemma provide_sidecar_ok:
  "provideData L need data s = Inr s' \<Longrightarrow> sidecar_ok L (rs_sidecarData s) \<Longrightarrow> sidecar_ok L (rs_sidecarData s')"
  by (cases need; cases data)
     (auto simp: provideData_def Let_def rbind_Inr_iff sidecar_ok_def split: if_splits)

lemma reach_sidecar_ok:
  "resolver_reach L s0 s \<Longrightarrow> sidecar_ok L (rs_sidecarData s0) \<Longrightarrow> sidecar_ok L (rs_sidecarData s)"
  by (induction rule: resolver_reach.induct) (auto dest: provide_sidecar_ok step_frame)

lemma lookup_ok:
  assumes "sidecar_ok L sd"
  shows "lookup_truthy (sd_updateMap sd) k = Some v \<Longrightarrow> canonicalHash L ''hex'' v = Inr k"
    "lookup_truthy (sd_casMap sd) k = Some v \<Longrightarrow> canonicalHash L ''hex'' v = Inr k"
    "lookup_truthy (sd_smtMap sd) k = Some v \<Longrightarrow> smtProofKey L v = Inr k"
  using assms unfolding sidecar_ok_def lookup_truthy_def by (auto split: option.splits if_splits)

text \<open>What the signal of a beacon says of the DID of the service: the hash of its update.\<close>

definition announces :: "'x method_lib_scheme \<Rightarrow> jsval \<Rightarrow> string \<Rightarrow> string \<Rightarrow> bool" where
  "announces L service signal updateHash \<longleftrightarrow>
     (let ty = js_prop_opt service ''type'' in
      ty = JStr ''SingletonBeacon'' \<and> updateHash = signal \<or>
      ty = JStr ''CASBeacon'' \<and> (\<exists>ann did. canonicalHash L ''hex'' ann = Inr signal \<and>
         serviceDid service = Inr did \<and> casUpdateHash L ann did = Inr (Some updateHash)) \<or>
      ty = JStr ''SMTBeacon'' \<and> (\<exists>p did. smtProofKey L p = Inr signal \<and>
         serviceDid service = Inr did \<and> smtUpdateHash L p did = Inr (Some updateHash)))"

lemma processSignals_announced:
  assumes "processSignals L service signals sd = Inr (us, ns)" "sidecar_ok L sd" "(u, b) \<in> set us"
  shows "\<exists>s \<in> set signals. b = bs_blockMetadata s \<and>
     (\<exists>h. announces L service (bs_signalBytes s) h \<and> canonicalHash L ''hex'' u = Inr h)"
proof -
  note ok = lookup_ok [OF assms(2)]
  consider "js_prop_opt service ''type'' = JStr ''SingletonBeacon''" "processSingleton service signals sd = Inr (us, ns)"
    | "js_prop_opt service ''type'' = JStr ''CASBeacon''" "processCAS L service signals sd = Inr (us, ns)"
    | "js_prop_opt service ''type'' = JStr ''SMTBeacon''" "processSMT L service signals sd = Inr (us, ns)"
    using assms(1) by (auto simp: processSignals_def Let_def split: if_splits)
  then show ?thesis
  proof cases
    case 1
    from singleton_beacon.updates_from_signals [OF 1(2) assms(3)] ok(1) 1(1) show ?thesis
      by (auto simp: singletonStep_iff announces_def)
  next
    case 2
    from cas_beacon.updates_from_signals [OF 2(2) assms(3)] obtain did s where
      s: "serviceDid service = Inr did" "s \<in> set signals" "b = bs_blockMetadata s"
        "casStep L service did sd s = Inr (Found u)" by blast
    from s(4) ok(1,2) s(1) 2(1) have "\<exists>h. announces L service (bs_signalBytes s) h \<and> canonicalHash L ''hex'' u = Inr h"
      by (fastforce simp: casStep_iff(1) announces_def)
    with s show ?thesis by blast
  next
    case 3
    from smt_beacon.updates_from_signals [OF 3(2) assms(3)] obtain did s where
      s: "serviceDid service = Inr did" "s \<in> set signals" "b = bs_blockMetadata s"
        "smtStep L service did sd s = Inr (Found u)" by blast
    from s(4) ok(1,3) s(1) 3(1) have "\<exists>h. announces L service (bs_signalBytes s) h \<and> canonicalHash L ''hex'' u = Inr h"
      by (fastforce simp: smtStep_iff(1) announces_def)
    with s show ?thesis by blast
  qed
qed

text \<open>C3: from the sidecar data of the caller on, and whatever is provided later, an update that the
  signals of a beacon give is one whose hash those signals announce: the signal itself for a
  singleton beacon, the entry of an announcement with the signal's hash for a CAS beacon, the leaf of
  a valid proof against the signal's root for an SMT beacon; it carries the block of its signal.\<close>

theorem updates_are_announced:
  assumes "sidecarData L sidecar = Inr (rs_sidecarData s0)" "resolver_reach L s0 s"
    and "processSignals L service signals (rs_sidecarData s) = Inr (us, ns)" "(u, b) \<in> set us"
  shows "\<exists>signal updateHash. signal \<in> set signals \<and> b = bs_blockMetadata signal \<and>
     announces L service (bs_signalBytes signal) updateHash \<and> canonicalHash L ''hex'' u = Inr updateHash"
  using processSignals_announced [OF assms(3) reach_sidecar_ok [OF assms(2) sidecarData_ok [OF assms(1)]] assms(4)]
  by blast

definition demo_service :: jsval where
  "demo_service = JObj [(''id'', JStr ''#s''), (''type'', JStr ''SingletonBeacon'')]"

lemma updates_are_announced_witness:
  "\<exists>sd us ns signal h. sidecarData demo_mlib \<lparr>sc_genesisDocument = None, sc_updates = [demo_source],
       sc_casUpdates = [], sc_smtProofs = []\<rparr> = Inr sd \<and>
     processSignals demo_mlib demo_service [signal] sd = Inr ([(demo_source, bs_blockMetadata signal)], ns) \<and>
     announces demo_mlib demo_service (bs_signalBytes signal) h \<and> canonicalHash demo_mlib ''hex'' demo_source = Inr h"
proof -
  let ?h = "hex_encode demo_mlib (canon_hash demo_mlib demo_source)"
  let ?sd = "\<lparr>sd_updateMap = [(?h, demo_source)], sd_casMap = [], sd_smtMap = []\<rparr>"
  let ?signal = "\<lparr>bs_signalBytes = ?h, bs_blockMetadata = \<lparr>bm_height = 7, bm_time = 1700000000, bm_confirmations = 1\<rparr>\<rparr>"
  have src: "demo_source \<noteq> JUndef" "truthy demo_source" by (simp_all add: demo_source_def demo_document_def)
  have sd: "sidecarData demo_mlib \<lparr>sc_genesisDocument = None, sc_updates = [demo_source],
       sc_casUpdates = [], sc_smtProofs = []\<rparr> = Inr (rs_sidecarData (demo_resolver\<lparr>rs_sidecarData := ?sd\<rparr>))"
    using src by (simp add: sidecarData_def)
  have found: "processSignals demo_mlib demo_service [?signal] (rs_sidecarData (demo_resolver\<lparr>rs_sidecarData := ?sd\<rparr>)) =
      Inr ([(demo_source, bs_blockMetadata ?signal)], [])"
    using src by (simp add: processSignals_def demo_service_def js_prop_opt_def processSingleton_def singletonStep_def
        lookup_truthy_def)
  from updates_are_announced [OF sd reach_start found] sd found show ?thesis by fastforce
qed



end
