(* ===== verification/DiscoveryProps.thy ===== *)
theory DiscoveryProps
  imports DemoUpdate
begin

text \<open>
  Properties of the discovery of beacon signals and of the updater: which outputs are signals, what
  the full-node path records, and how an update gets from its construction to its broadcast.
\<close>

section \<open>Signals in transaction outputs\<close>

lemma split_spaces_word: "list_all (\<lambda>c. \<not> is_space c) w \<Longrightarrow> split_spaces w = [w]"
  by (subst split_spaces.simps)
    (simp add: list_all_iff takeWhile_eq_all_conv [THEN iffD2] dropWhile_eq_Nil_conv [THEN iffD2])

lemma split_spaces_append:
  assumes "list_all (\<lambda>c. \<not> is_space c) w" "s \<noteq> []" "\<not> is_space (hd s)"
  shows "split_spaces (w @ CHR '' '' # s) = w # split_spaces s"
proof -
  have sp: "is_space (CHR '' '')" by code_simp
  have "takeWhile (\<lambda>c. \<not> is_space c) (w @ CHR '' '' # s) = w"
    "dropWhile (\<lambda>c. \<not> is_space c) (w @ CHR '' '' # s) = CHR '' '' # s"
    using assms(1) sp by (simp_all add: list_all_iff)
  moreover have "dropWhile is_space (CHR '' '' # s) = s" using assms(2,3) sp by (cases s) simp_all
  ultimately show ?thesis by (subst split_spaces.simps) simp
qed

lemma hex_not_space: "is_hex c \<Longrightarrow> \<not> is_space c"
  by (auto simp: is_hex_def hex_value_def is_space_def Let_def split: if_splits)

lemma lower_char_cases: "of_char (lower_char c) = (let n = of_char c :: nat in if 65 \<le> n \<and> n \<le> 90 then n + 32 else n)"
  by (auto simp: lower_char_def Let_def)

lemma to_lower_idem [simp]: "to_lower (to_lower s) = to_lower s"
proof -
  have "lower_char (lower_char c) = lower_char c" for c
    using lower_char_cases [of c] by (auto simp: lower_char_def [of "lower_char c"] Let_def split: if_splits)
  then show ?thesis by (simp add: to_lower_def)
qed

lemma is_hex_lower: "is_hex c \<Longrightarrow> is_hex (lower_char c)"
  using lower_char_cases [of c] by (auto simp: is_hex_def hex_value_def Let_def split: if_splits)

lemma hex_byte_lower: "list_all (\<lambda>c. is_hex c \<and> lower_char c = c) (hex_byte b)"
proof -
  have lt: "unat b < 256" using unsigned_less [of b, where ?'a = nat] by simp
  have "list_all (\<lambda>n. is_hex (hex_digit n) \<and> lower_char (hex_digit n) = hex_digit n) [0..<16]"
    by code_simp
  then have "n < 16 \<Longrightarrow> is_hex (hex_digit n) \<and> lower_char (hex_digit n) = hex_digit n" for n
    by (simp add: list_all_iff)
  then show ?thesis using lt by (simp add: hex_byte_two_digits)
qed

lemma to_lower_fixed: "list_all (\<lambda>c. lower_char c = c) s \<Longrightarrow> to_lower s = s"
  by (induction s) (simp_all add: to_lower_def)

lemma trim_id: "\<not> is_space (hd s) \<Longrightarrow> \<not> is_space (last s) \<Longrightarrow> trim s = s"
  by (simp add: trim_def dropWhile_eq_self_iff [THEN iffD2] hd_rev)

text \<open>What is a signal: a push of 32 bytes in hexadecimal.\<close>

lemma extractOpReturnSignal_push:
  assumes "length payload = 64" "list_all is_hex payload"
  shows "extractOpReturnSignal (Some (''OP_RETURN OP_PUSHBYTES_32 '' @ payload)) = Some (to_lower payload)"
proof -
  have words: "list_all (\<lambda>c. \<not> is_space c) ''OP_RETURN''" "list_all (\<lambda>c. \<not> is_space c) ''OP_PUSHBYTES_32''"
    "\<not> is_space (CHR ''O'')" by code_simp+
  have hex: "list_all (\<lambda>c. \<not> is_space c) payload" using assms(2) hex_not_space by (auto simp: list_all_iff)
  obtain c r where payload: "payload = c # r" using assms(1) by (cases payload) auto
  have c: "\<not> is_space c" using hex payload by simp
  let ?s = "''OP_RETURN'' @ CHR '' '' # ''OP_PUSHBYTES_32'' @ CHR '' '' # payload"
  have "split_spaces ?s = [''OP_RETURN'', ''OP_PUSHBYTES_32'', payload]"
    using split_spaces_append [OF words(1), of "''OP_PUSHBYTES_32'' @ CHR '' '' # payload"]
      split_spaces_append [OF words(2), of payload] words(3) c payload split_spaces_word [OF hex]
    by simp
  moreover have "trim ?s = ?s"
  proof -
    have "\<not> is_space (last payload)" using hex payload by (metis last_in_set list.distinct(1) list_all_iff)
    then show ?thesis using words(3) payload by (intro trim_id) simp_all
  qed
  ultimately show ?thesis
    using assms by (simp add: extractOpReturnSignal_def)
qed

text \<open>The output script that pushes the 32 bytes of a hash after \<open>OP_RETURN\<close> is read as the signal
  for exactly that hash, in the lowercase hexadecimal form that keys the sidecar data; and whatever an
  output script holds, what is read from it has that form.\<close>

theorem op_return_signal:
  assumes "isValidHash hash"
  shows "(case hashToHex hash of
       Inr hex \<Rightarrow> extractOpReturnSignal (Some (''OP_RETURN OP_PUSHBYTES_32 '' @ hex)) = Some hex
     | Inl _ \<Rightarrow> False) \<and>
   (case extractOpReturnSignal asm of
       Some h \<Rightarrow> length h = 64 \<and> list_all is_hex h \<and> to_lower h = h
     | None \<Rightarrow> True)"
proof
  have len: "length hash = 32" using assms by (simp add: isValidHash_def HASH_BYTE_LENGTH_def)
  have "list_all (\<lambda>c. is_hex c \<and> lower_char c = c) (concat (map hex_byte hash))"
    using hex_byte_lower by (induction hash) simp_all
  then have hex: "list_all is_hex (concat (map hex_byte hash))" "to_lower (concat (map hex_byte hash)) = concat (map hex_byte hash)"
    by (auto simp: list_all_iff intro!: to_lower_fixed)
  show "case hashToHex hash of
       Inr hex \<Rightarrow> extractOpReturnSignal (Some (''OP_RETURN OP_PUSHBYTES_32 '' @ hex)) = Some hex
     | Inl _ \<Rightarrow> False"
    using extractOpReturnSignal_push [OF _ hex(1)] hex(2) len assms by (simp add: hashToHex_alt length_concat_hex)
  show "case extractOpReturnSignal asm of
       Some h \<Rightarrow> length h = 64 \<and> list_all is_hex h \<and> to_lower h = h
     | None \<Rightarrow> True"
  proof (cases "extractOpReturnSignal asm")
    case (Some h)
    then obtain payload where "h = to_lower payload" "length payload = 64" "list_all is_hex payload"
      by (auto simp: extractOpReturnSignal_def split: if_splits list.splits)
    moreover from this have "list_all is_hex h" using is_hex_lower by (auto simp: to_lower_def list_all_iff)
    moreover have "length h = 64" using calculation(1,2) by (simp add: to_lower_def)
    ultimately show ?thesis using Some by simp
  qed simp
qed

lemma op_return_signal_witness:
  "isValidHash (replicate 32 1) \<and>
   (case hashToHex (replicate 32 1) of
      Inr hex \<Rightarrow> extractOpReturnSignal (Some (''OP_RETURN OP_PUSHBYTES_32 '' @ hex)) = Some hex | Inl _ \<Rightarrow> False)"
proof -
  have "isValidHash (replicate 32 1)" by (simp add: isValidHash_def HASH_BYTE_LENGTH_def)
  then show ?thesis using op_return_signal [of "replicate 32 1" None] by blast
qed

section \<open>The full-node path\<close>

text \<open>The objects the service map refers to are not keys of the signals.\<close>

lemma fold_same: "(\<And>x. x \<in> set xs \<Longrightarrow> f x s = s) \<Longrightarrow> fold f xs s = s"
  by (induction xs) simp_all

lemma fullnodeVin_same:
  assumes "\<And>a k. jm_get serviceMap a = Some k \<Longrightarrow> jm_get signals k = None"
  shows "fullnodeVin getRaw witness serviceMap block vin signals = signals"
  using assms by (auto simp: fullnodeVin_def Let_def split: option.splits)

lemma fullnodeBlock_same:
  assumes "\<And>a k. jm_get serviceMap a = Some k \<Longrightarrow> jm_get signals k = None"
  shows "fullnodeBlock getRaw genesis witness serviceMap block signals = signals"
proof -
  have "fold (fullnodeVin getRaw witness serviceMap block) vins signals = signals" for vins
    by (rule fold_same) (rule fullnodeVin_same [OF assms])
  then show ?thesis unfolding fullnodeBlock_def by (intro fold_same) auto
qed

lemma fullnodeLoop_same:
  "(\<And>b. body b signals = signals) \<Longrightarrow> fullnodeLoop getBlock t body hs signals = signals"
  by (induction hs) simp_all

lemma fold_jm_set_values: "jm_get (fold (\<lambda>(k, v) m. jm_set k v m) ps m) a = Some w \<Longrightarrow>
    w \<in> snd ` set ps \<or> jm_get m a = Some w"
proof (induction ps arbitrary: m)
  case (Cons p ps)
  then show ?case by (cases p) (fastforce split: if_splits)
qed simp

lemma mapR_Inr_set: "mapR f xs = Inr ys \<Longrightarrow> y \<in> set ys \<Longrightarrow> \<exists>x \<in> set xs. f x = Inr y"
  by (induction xs arbitrary: ys) (auto simp: rbind_Inr_iff)

text \<open>Signal discovery on a full node never records a signal, whatever the blocks hold: the result
  has an empty list for every service, because the signals are stored under the service objects and
  looked up under the copies that the service map holds.\<close>

theorem fullnode_records_nothing:
  "case fullnodeSignals getBlock getRaw genesis witness target services of
     Inr m \<Rightarrow> map fst m = enumerate 0 services \<and> list_all (\<lambda>(_, signals). signals = []) m
   | Inl _ \<Rightarrow> True"
proof (cases "fullnodeSignals getBlock getRaw genesis witness target services")
  case (Inr m)
  let ?signals = "map (\<lambda>s. (s, [])) (enumerate 0 services) :: signal_map"
  from Inr obtain pairs where
    pairs: "mapR (\<lambda>(i, service). rbind (parseBeaconServiceEndpoint service) (\<lambda>copy.
        rbind (js_string (js_prop_opt copy ''serviceEndpoint'')) (\<lambda>ep. Inr (ep, (length services + i, copy)))))
      (enumerate 0 services) = Inr pairs" and
    m: "m = fullnodeLoop getBlock (int target) (fullnodeBlock getRaw genesis witness
        (fold (\<lambda>(k, v) m. jm_set k v m) pairs [])) [0..<Suc target] ?signals"
    by (auto simp: fullnodeSignals_def rbind_Inr_iff Let_def)
  have keys: "length services \<le> fst k" if "jm_get (fold (\<lambda>(k, v) m. jm_set k v m) pairs []) a = Some k" for a k
  proof -
    from fold_jm_set_values [OF that] obtain a' where "(a', k) \<in> set pairs" by auto
    from mapR_Inr_set [OF pairs this] show ?thesis by (auto simp: rbind_Inr_iff)
  qed
  have "jm_get ?signals k = None" if "length services \<le> fst k" for k
    using that by (auto simp: map_of_eq_None_iff in_set_enumerate_eq)
  then have "m = ?signals" using keys by (auto simp: m intro!: fullnodeLoop_same fullnodeBlock_same)
  with Inr show ?thesis by (simp add: comp_def list_all_iff)
qed simp

section \<open>The updater\<close>

text \<open>Everything an updater goes through: it is created, advanced and provided with data.\<close>

inductive updater_reach :: "'x method_lib_scheme \<Rightarrow> Updater \<Rightarrow> Updater \<Rightarrow> bool" for L u0 where
  updater_start: "updater_reach L u0 u0"
| updater_advance: "updater_reach L u0 u \<Longrightarrow> advance L u = (u', r) \<Longrightarrow> updater_reach L u0 u'"
| updater_provide: "updater_reach L u0 u \<Longrightarrow> provideUpdater L need data u = Inr u' \<Longrightarrow> updater_reach L u0 u'"

text \<open>What the data of a state stands for.\<close>

definition updater_inv :: "'x method_lib_scheme \<Rightarrow> Updater \<Rightarrow> Updater \<Rightarrow> bool" where
  "updater_inv L u0 u \<longleftrightarrow>
     u = u0\<lparr>up_state := up_state u\<rparr> \<and>
     (let constructed = constructUpdate L (up_sourceDocument u0) (up_patches u0) (up_sourceVersionId u0);
          is_signed = (\<lambda>su. \<exists>unsignedUpdate did signer. constructed = Inr unsignedUpdate \<and>
             js_prop_opt (up_sourceDocument u0) ''id'' = JStr did \<and>
             signUpdate L did unsignedUpdate (up_verificationMethod u0) signer = Inr su)
      in case up_state u of
           UConstruct \<Rightarrow> True
         | USign unsignedUpdate \<Rightarrow> constructed = Inr unsignedUpdate
         | UFund _ su \<Rightarrow> is_signed su
         | UBroadcast _ su \<Rightarrow> is_signed su
         | UComplete su \<Rightarrow> is_signed su)"

lemma advance_cases:
  assumes "advance L u = (u', r)"
  shows "u' = u \<or> up_state u = UConstruct \<and>
     (\<exists>x. constructUpdate L (up_sourceDocument u) (up_patches u) (up_sourceVersionId u) = Inr x \<and>
          u' = u\<lparr>up_state := USign x\<rparr>)"
  using assms by (auto simp: advance_def Let_def split: if_splits sum.splits)

lemma provideUpdater_cases:
  assumes "provideUpdater L need data u = Inr u'"
  shows "(\<exists>x su did signer. up_state u = USign x \<and> js_prop_opt (up_sourceDocument u) ''id'' = JStr did \<and>
        signUpdate L did x (up_verificationMethod u) signer = Inr su \<and> u' = u\<lparr>up_state := UFund su su\<rparr>) \<or>
     (\<exists>x su. up_state u = UFund x su \<and> u' = u\<lparr>up_state := UBroadcast x su\<rparr>) \<or>
     (\<exists>x su. up_state u = UBroadcast x su \<and> u' = u\<lparr>up_state := UComplete su\<rparr>)"
proof (cases need)
  case (NeedSigningKey vmId v)
  with assms show ?thesis
    by (cases "up_state u"; cases data; cases "js_prop_opt (up_sourceDocument u) ''id''")
       (auto simp: provideUpdater_def rbind_Inr_iff)
next
  case (NeedFunding a b)
  with assms show ?thesis
    by (cases "up_state u"; cases data) (auto simp: provideUpdater_def split: if_splits)
next
  case (NeedBroadcast a b)
  with assms show ?thesis
    by (cases "up_state u") (auto simp: provideUpdater_def)
qed

lemma advance_inv: "updater_inv L u0 u \<Longrightarrow> advance L u = (u', r) \<Longrightarrow> updater_inv L u0 u'"
  using advance_cases [of L u u' r] unfolding updater_inv_def Let_def
  by (cases u; cases u0) auto

lemma provide_inv: "updater_inv L u0 u \<Longrightarrow> provideUpdater L need data u = Inr u' \<Longrightarrow> updater_inv L u0 u'"
  using provideUpdater_cases [of L need data u u'] unfolding updater_inv_def Let_def
  by (cases u; cases u0) auto

lemma reach_updater_inv: "updater_reach L u0 u \<Longrightarrow> up_state u0 = UConstruct \<Longrightarrow> updater_inv L u0 u"
proof (induction rule: updater_reach.induct)
  case updater_start
  then show ?case by (simp add: updater_inv_def)
qed (auto intro: advance_inv provide_inv)

text \<open>C33: when the updater reports the update as complete, it is the update constructed from the source
  document and the patch, signed for the document's DID under the verification method chosen at the
  start; no sequence of calls completes it otherwise.\<close>

theorem completed_update_is_signed:
  assumes "updater_reach L (newUpdater doc patches v vm service) u"
    and "advance L u = (u', Inr (UpdaterComplete su))"
  shows "\<exists>unsignedUpdate did signer. constructUpdate L doc patches v = Inr unsignedUpdate \<and>
     js_prop_opt doc ''id'' = JStr did \<and> signUpdate L did unsignedUpdate vm signer = Inr su"
proof -
  let ?u0 = "newUpdater doc patches v vm service"
  have "updater_inv L ?u0 u" by (rule reach_updater_inv [OF assms(1)]) (simp add: newUpdater_def)
  moreover have "up_state u = UComplete su"
    using assms(2)
    by (cases "up_state u") (auto simp: advance_def pendingNeed_def Let_def rbind_Inr_iff split: sum.splits)
  ultimately show ?thesis by (auto simp: updater_inv_def Let_def newUpdater_def)
qed

text \<open>An update passes through its five states in order: \<open>advance\<close> leaves the state of construction
  only, when the update could be constructed; data that is accepted moves the updater on by exactly one
  state, and data that is refused does not change it; nothing is accepted before the construction and
  after the completion.\<close>

theorem updater_states_in_order:
  "(case advance L u of (u', r) \<Rightarrow>
      phase_rank (up_state u') = (if up_state u = UConstruct \<and>
         \<not> isl (constructUpdate L (up_sourceDocument u) (up_patches u) (up_sourceVersionId u)) then 1
       else phase_rank (up_state u))) \<and>
   (case provideUpdater L need data u of
      Inr u' \<Rightarrow> phase_rank (up_state u') = Suc (phase_rank (up_state u)) \<and>
        0 < phase_rank (up_state u) \<and> phase_rank (up_state u) < 4
    | Inl _ \<Rightarrow> True)"
proof
  obtain u' r where adv: "advance L u = (u', r)" by fastforce
  then show "case advance L u of (u', r) \<Rightarrow>
      phase_rank (up_state u') = (if up_state u = UConstruct \<and>
         \<not> isl (constructUpdate L (up_sourceDocument u) (up_patches u) (up_sourceVersionId u)) then 1
       else phase_rank (up_state u))"
    by (auto simp: advance_def Let_def isl_def split: if_splits sum.splits)
  show "case provideUpdater L need data u of
      Inr u' \<Rightarrow> phase_rank (up_state u') = Suc (phase_rank (up_state u)) \<and>
        0 < phase_rank (up_state u) \<and> phase_rank (up_state u) < 4
    | Inl _ \<Rightarrow> True"
    using provideUpdater_cases [of L need data u] by (auto split: sum.split)
qed

lemma completed_update_is_signed_witness:
  "\<exists>u su. updater_reach demo_mlib (newUpdater demo_source demo_patches 1 demo_vm JUndef) u \<and>
     advance demo_mlib u = (u, Inr (UpdaterComplete su)) \<and>
     (\<exists>x did signer. constructUpdate demo_mlib demo_source demo_patches 1 = Inr x \<and>
        signUpdate demo_mlib did x demo_vm signer = Inr su)"
proof -
  let ?u0 = "newUpdater demo_source demo_patches 1 demo_vm JUndef"
  obtain x su where x: "constructUpdate demo_mlib demo_source demo_patches 1 = Inr x"
    "signUpdate demo_mlib demo_did x demo_vm demo_signer = Inr su"
    using demo_update [of "[JStr (demo_did @ ''#initialKey'')]" "JStr ''x''" 1]
    by (auto simp: demo_source_def demo_patches_def)
  let ?u1 = "?u0\<lparr>up_state := USign x\<rparr>" and ?u2 = "?u0\<lparr>up_state := UFund su su\<rparr>"
    and ?u3 = "?u0\<lparr>up_state := UBroadcast su su\<rparr>" and ?u4 = "?u0\<lparr>up_state := UComplete su\<rparr>"
  have "advance demo_mlib ?u0 = (?u1, pendingNeed ?u1)" using x(1) by (simp add: advance_def newUpdater_def Let_def)
  moreover have "provideUpdater demo_mlib (NeedSigningKey JUndef x) (SignerData demo_signer) ?u1 = Inr ?u2"
    using x(2) by (simp add: provideUpdater_def newUpdater_def demo_source_facts)
  moreover have "provideUpdater demo_mlib (NeedFunding [] JUndef) NoData ?u2 = Inr ?u3"
    by (simp add: provideUpdater_def)
  moreover have "provideUpdater demo_mlib (NeedBroadcast JUndef su) NoData ?u3 = Inr ?u4"
    by (simp add: provideUpdater_def)
  ultimately have reach: "updater_reach demo_mlib ?u0 ?u4"
    by (meson updater_start updater_advance updater_provide)
  have done_now: "advance demo_mlib ?u4 = (?u4, Inr (UpdaterComplete su))" by (simp add: advance_def pendingNeed_def)
  from completed_update_is_signed [OF reach done_now] reach done_now show ?thesis by blast
qed

end
