(* ===== verification/AggLimits.thy ===== *)
theory AggLimits
  imports Prelude Complex_Main
begin

text \<open>
  The counters that protect the HTTP server of the aggregation service:
  \<open>packages/aggregation/src/service/rate-limiter.ts\<close> (a token bucket per key behind a pluggable
  store), \<open>inbox-buffer.ts\<close> (the replay window of an event stream) and \<open>nonce-cache.ts\<close> (the
  anti-replay cache). The interface \<open>RateLimitStore\<close> is the locale \<open>rate_limit_store\<close>, interpreted
  on the in-memory store. A JavaScript number is read as a rational; rounding is not modelled.
\<close>

section \<open>\<open>rate-limiter.ts\<close>\<close>

record BucketState =
  b_tokens :: rat
  b_lastRefillMs :: rat

type_synonym InMemoryRateLimitStore = "(string, BucketState) jsmap"

definition store_get :: "InMemoryRateLimitStore \<Rightarrow> string \<Rightarrow> BucketState option" where
  "store_get m key = jm_get m key"

definition store_set :: "string \<Rightarrow> BucketState \<Rightarrow> InMemoryRateLimitStore \<Rightarrow> InMemoryRateLimitStore" where
  "store_set key state m = jm_set key state m"

record 's RateLimiter =
  rl_rps :: rat
  rl_burst :: rat
  rl_store :: 's

definition newRateLimiter :: "rat option \<Rightarrow> rat option \<Rightarrow> 's \<Rightarrow> 's RateLimiter" where
  "newRateLimiter rps burst store =
     \<lparr>rl_rps = (case rps of None \<Rightarrow> 10 | Some r \<Rightarrow> r),
      rl_burst = (case burst of None \<Rightarrow> 30 | Some b \<Rightarrow> b), rl_store = store\<rparr>"

text \<open>The two assignments to the state of a bucket that exists, at the start of \<open>consume\<close>.\<close>

definition refilled :: "'s RateLimiter \<Rightarrow> BucketState option \<Rightarrow> rat \<Rightarrow> BucketState" where
  "refilled rl existing nowMs =
     (case existing of
        None \<Rightarrow> \<lparr>b_tokens = rl_burst rl, b_lastRefillMs = nowMs\<rparr>
      | Some b \<Rightarrow>
          let elapsedSec = max 0 ((nowMs - b_lastRefillMs b) / 1000)
          in \<lparr>b_tokens = min (rl_burst rl) (b_tokens b + elapsedSec * rl_rps rl), b_lastRefillMs = nowMs\<rparr>)"

definition consume ::
  "('s \<Rightarrow> string \<Rightarrow> BucketState option) \<Rightarrow> (string \<Rightarrow> BucketState \<Rightarrow> 's \<Rightarrow> 's) \<Rightarrow>
   string \<Rightarrow> rat \<Rightarrow> 's RateLimiter \<Rightarrow> 's RateLimiter \<times> bool" where
  "consume get put key nowMs rl =
     (let state = refilled rl (get (rl_store rl) key) nowMs
      in if b_tokens state < 1 then (rl\<lparr>rl_store := put key state (rl_store rl)\<rparr>, False)
         else (rl\<lparr>rl_store := put key (state\<lparr>b_tokens := b_tokens state - 1\<rparr>) (rl_store rl)\<rparr>, True))"

text \<open>The answers to a sequence of requests, each a key and the time it arrives.\<close>

fun consumeAll ::
  "('s \<Rightarrow> string \<Rightarrow> BucketState option) \<Rightarrow> (string \<Rightarrow> BucketState \<Rightarrow> 's \<Rightarrow> 's) \<Rightarrow>
   's RateLimiter \<Rightarrow> (string \<times> rat) list \<Rightarrow> bool list" where
  "consumeAll get put rl [] = []"
| "consumeAll get put rl ((key, now) # evs) =
     (let (rl', ok) = consume get put key now rl in ok # consumeAll get put rl' evs)"

definition accepted_count :: "string \<Rightarrow> (string \<times> rat) list \<Rightarrow> bool list \<Rightarrow> nat" where
  "accepted_count key evs oks = length (filter (\<lambda>((k, _), ok). k = key \<and> ok) (zip evs oks))"

lemma accepted_count_simps [simp]:
  "accepted_count key [] oks = 0"
  "accepted_count key ((k, t) # evs) (ok # oks) =
     (if k = key \<and> ok then 1 else 0) + accepted_count key evs oks"
  by (simp_all add: accepted_count_def)

locale rate_limit_store =
  fixes get :: "'s \<Rightarrow> string \<Rightarrow> BucketState option"
    and put :: "string \<Rightarrow> BucketState \<Rightarrow> 's \<Rightarrow> 's"
  assumes get_put: "get (put k b s) k' = (if k' = k then Some b else get s k')"
begin

text \<open>Tokens that the bucket of a key holds at a time.\<close>

definition potential :: "'s RateLimiter \<Rightarrow> string \<Rightarrow> rat \<Rightarrow> rat" where
  "potential rl key now = b_tokens (refilled rl (get (rl_store rl) key) now)"

definition settled :: "'s RateLimiter \<Rightarrow> string \<Rightarrow> rat \<Rightarrow> bool" where
  "settled rl key now \<longleftrightarrow> 0 \<le> rl_rps rl \<and> 0 \<le> rl_burst rl \<and>
     (case get (rl_store rl) key of None \<Rightarrow> True
      | Some b \<Rightarrow> 0 \<le> b_tokens b \<and> b_tokens b \<le> rl_burst rl \<and> b_lastRefillMs b \<le> now)"

lemma potential_le_burst: "settled rl key now \<Longrightarrow> potential rl key now \<le> rl_burst rl"
  by (auto simp: potential_def settled_def refilled_def Let_def split: option.splits)

lemma potential_nonneg: "settled rl key now \<Longrightarrow> 0 \<le> potential rl key now"
  by (auto simp: potential_def settled_def refilled_def Let_def split: option.splits)

lemma consume_accepts: "snd (consume get put key now rl) \<longleftrightarrow> 1 \<le> potential rl key now"
  by (simp add: consume_def potential_def Let_def not_less)

lemma consume_config [simp]:
  "rl_rps (fst (consume get put key now rl)) = rl_rps rl"
  "rl_burst (fst (consume get put key now rl)) = rl_burst rl"
  by (simp_all add: consume_def Let_def)

lemma consume_get:
  "get (rl_store (fst (consume get put key now rl))) k =
     (if k = key then Some \<lparr>b_tokens = potential rl key now - (if snd (consume get put key now rl) then 1 else 0),
                            b_lastRefillMs = now\<rparr>
      else get (rl_store rl) k)"
  by (auto simp: consume_def potential_def Let_def get_put refilled_def split: option.splits)

lemma other_key_unchanged:
  "k \<noteq> key \<Longrightarrow> potential (fst (consume get put key now rl)) k t = potential rl k t"
  by (simp add: potential_def consume_get refilled_def split: option.split)

lemma settled_later: "settled rl k now \<Longrightarrow> now \<le> t \<Longrightarrow> settled rl k t"
  by (auto simp: settled_def split: option.splits)

lemma settled_consume:
  "settled rl key now \<Longrightarrow> settled (fst (consume get put k now rl)) key now"
  using potential_le_burst [of rl key now] potential_nonneg [of rl key now] consume_accepts [of key now rl]
  by (auto simp: settled_def consume_get split: option.splits)

text \<open>Waiting adds at most the refill.\<close>

lemma potential_later:
  assumes "settled rl k now" "now \<le> t"
  shows "potential rl k t \<le> potential rl k now + (t - now) / 1000 * rl_rps rl"
proof (cases "get (rl_store rl) k")
  case None
  then show ?thesis using assms by (simp add: potential_def refilled_def settled_def)
next
  case (Some b)
  then have le: "b_lastRefillMs b \<le> now" and r: "0 \<le> rl_rps rl" using assms(1) by (simp_all add: settled_def)
  have "(t - b_lastRefillMs b) / 1000 * rl_rps rl =
      (now - b_lastRefillMs b) / 1000 * rl_rps rl + (t - now) / 1000 * rl_rps rl"
    by (simp add: field_simps)
  moreover have "0 \<le> (t - now) / 1000 * rl_rps rl" using r assms(2) by simp
  moreover have "potential rl k t = min (rl_burst rl) (b_tokens b + (t - b_lastRefillMs b) / 1000 * rl_rps rl)"
    using le assms(2) Some by (simp add: potential_def refilled_def max_absorb2)
  moreover have "potential rl k now = min (rl_burst rl) (b_tokens b + (now - b_lastRefillMs b) / 1000 * rl_rps rl)"
    using le Some by (simp add: potential_def refilled_def max_absorb2)
  ultimately show ?thesis by linarith
qed

lemma potential_after:
  assumes "settled rl key now"
  shows "potential (fst (consume get put key now rl)) key now =
     potential rl key now - (if snd (consume get put key now rl) then 1 else 0)"
proof -
  have "potential rl key now - (if b then 1 else 0) \<le> rl_burst rl" for b
    using potential_le_burst [OF assms] by simp
  then show ?thesis
    by (subst potential_def) (simp add: consume_get refilled_def min_absorb2)
qed

text \<open>The accepted requests of a key never exceed what the bucket holds and what it gains.\<close>

lemma accepted_bound:
  assumes "sorted (map snd evs)" "settled rl key t0" "\<forall>e \<in> set evs. t0 \<le> snd e \<and> snd e \<le> t1" "t0 \<le> t1"
  shows "of_nat (accepted_count key evs (consumeAll get put rl evs)) \<le>
     potential rl key t0 + (t1 - t0) / 1000 * rl_rps rl"
  using assms
proof (induction evs arbitrary: rl t0)
  case Nil
  then show ?case
    using potential_nonneg [of rl key t0] by (simp add: settled_def)
next
  case (Cons e evs)
  obtain k now where e: "e = (k, now)" by force
  define rl' where "rl' = fst (consume get put k now rl)"
  define ok where "ok = snd (consume get put k now rl)"
  have now: "settled rl key now" using Cons.prems e settled_later by auto
  have s': "settled rl' key now" using settled_consume [OF now] by (simp add: rl'_def)
  have step: "potential rl' key now + (if k = key \<and> ok then 1 else 0) \<le> potential rl key now"
  proof (cases "k = key")
    case True
    then show ?thesis using potential_after [OF now] by (simp add: rl'_def ok_def)
  qed (simp add: rl'_def other_key_unchanged)
  have rps: "rl_rps rl' = rl_rps rl" by (simp add: rl'_def)
  have "of_nat (accepted_count key evs (consumeAll get put rl' evs)) \<le>
      potential rl' key now + (t1 - now) / 1000 * rl_rps rl"
    unfolding rps [symmetric] using Cons.prems e by (intro Cons.IH s') (auto simp: e)
  moreover have "potential rl key now \<le> potential rl key t0 + (now - t0) / 1000 * rl_rps rl"
    using Cons.prems e by (intro potential_later) auto
  moreover have "(t1 - now) / 1000 * rl_rps rl + (now - t0) / 1000 * rl_rps rl = (t1 - t0) / 1000 * rl_rps rl"
    by (simp add: field_simps)
  moreover have "of_nat (accepted_count key (e # evs) (consumeAll get put rl (e # evs))) =
      (if k = key \<and> ok then 1 else 0) + (of_nat (accepted_count key evs (consumeAll get put rl' evs)) :: rat)"
    by (cases "consume get put k now rl") (simp add: e rl'_def ok_def)
  ultimately show ?case using step by linarith
qed

text \<open>The limiter after a sequence of requests.\<close>

fun consumeRun :: "'s RateLimiter \<Rightarrow> (string \<times> rat) list \<Rightarrow> 's RateLimiter" where
  "consumeRun rl [] = rl"
| "consumeRun rl ((key, now) # evs) = consumeRun (fst (consume get put key now rl)) evs"

lemma consumeAll_append:
  "consumeAll get put rl (xs @ ys) = consumeAll get put rl xs @ consumeAll get put (consumeRun rl xs) ys"
  by (induction xs arbitrary: rl) (auto split: prod.split)

lemma length_consumeAll [simp]: "length (consumeAll get put rl xs) = length xs"
  by (induction get put rl xs rule: consumeAll.induct) (auto split: prod.split)

lemma consumeRun_config [simp]:
  "rl_rps (consumeRun rl xs) = rl_rps rl" "rl_burst (consumeRun rl xs) = rl_burst rl"
  by (induction xs arbitrary: rl) auto

lemma settled_run:
  "settled rl key t \<Longrightarrow> sorted (map snd xs) \<Longrightarrow> \<forall>e \<in> set xs. t \<le> snd e \<and> snd e \<le> t' \<Longrightarrow> t \<le> t' \<Longrightarrow>
     settled (consumeRun rl xs) key t'"
proof (induction xs arbitrary: rl t)
  case Nil
  then show ?case by (auto intro: settled_later)
next
  case (Cons e xs)
  obtain k now where e: "e = (k, now)" by force
  have now: "t \<le> now" "now \<le> t'" "\<forall>e \<in> set xs. now \<le> snd e \<and> snd e \<le> t'" "sorted (map snd xs)"
    using Cons.prems(2,3) by (simp_all add: e)
  have "settled (fst (consume get put k now rl)) key now"
    by (rule settled_consume [OF settled_later [OF Cons.prems(1) now(1)]])
  then show ?case using Cons.IH [OF _ now(4,3,2)] by (simp add: e)
qed

text \<open>In every window of a run, from a bucket that does not exist yet.\<close>

lemma window_bound:
  assumes sorted: "sorted (map snd (before @ window))"
    and window: "\<forall>e \<in> set window. t0 \<le> snd e \<and> snd e \<le> t1" "\<forall>e \<in> set before. snd e \<le> t0" "t0 \<le> t1"
    and cfg: "0 \<le> rl_rps rl" "0 \<le> rl_burst rl" "get (rl_store rl) key = None"
  shows "of_nat (accepted_count key window (drop (length before) (consumeAll get put rl (before @ window)))) \<le>
     rl_burst rl + (t1 - t0) / 1000 * rl_rps rl"
proof -
  let ?rl = "consumeRun rl before"
  obtain t where t: "\<forall>e \<in> set before. t \<le> snd e" "t \<le> t0"
  proof (cases before)
    case Nil
    then show ?thesis by (intro that [of t0]) auto
  next
    case (Cons e es)
    then show ?thesis using sorted window(2) by (intro that [of "snd e"]) auto
  qed
  have "settled rl key t" using cfg by (simp add: settled_def)
  then have s: "settled ?rl key t0"
    using t sorted window by (intro settled_run) (auto simp: sorted_append)
  have "of_nat (accepted_count key window (consumeAll get put ?rl window)) \<le>
      potential ?rl key t0 + (t1 - t0) / 1000 * rl_rps ?rl"
    using sorted window s by (intro accepted_bound) (auto simp: sorted_append)
  then show ?thesis using potential_le_burst [OF s] by (simp add: consumeAll_append)
qed

end

interpretation mem: rate_limit_store store_get store_set
  by unfold_locales (simp add: store_get_def store_set_def)

section \<open>\<open>inbox-buffer.ts\<close>\<close>

record StoredEvent =
  se_id :: string
  se_event :: string
  se_data :: string

record InboxBuffer =
  ib_capacity :: int
  ib_entries :: "StoredEvent list"
  ib_nextId :: nat

definition newInboxBuffer :: "int option \<Rightarrow> InboxBuffer result" where
  "newInboxBuffer capacity =
     (let capacity = (case capacity of None \<Rightarrow> 100 | Some c \<Rightarrow> c)
      in if capacity < 1 then Inl (Error ''AggregationServiceError'' ''INVALID_INBOX_CAPACITY'')
         else Inr \<lparr>ib_capacity = capacity, ib_entries = [], ib_nextId = 1\<rparr>)"

definition inboxAppend :: "string \<Rightarrow> string \<Rightarrow> InboxBuffer \<Rightarrow> InboxBuffer \<times> StoredEvent" where
  "inboxAppend event d ib =
     (let stored = \<lparr>se_id = show_nat (ib_nextId ib), se_event = event, se_data = d\<rparr>;
          entries = ib_entries ib @ [stored]
      in (ib\<lparr>ib_entries := (if ib_capacity ib < int (length entries) then tl entries else entries),
             ib_nextId := Suc (ib_nextId ib)\<rparr>, stored))"

text \<open>\<open>Number(s)\<close> of a string that is not empty. \<open>None\<close> stands for \<open>NaN\<close> and the infinities,
  which the caller does not tell apart.\<close>

definition radix_number :: "nat \<Rightarrow> string \<Rightarrow> rat option" where
  "radix_number b s =
     map_option of_nat (radix_nat b s)"

definition unsigned_decimal :: "string \<Rightarrow> rat option" where
  "unsigned_decimal s =
     map_option (\<lambda>(m, e). if 0 \<le> e then of_nat m * 10 ^ nat e else of_nat m / 10 ^ nat (- e)) (decimal_parts s)"

definition string_to_number :: "string \<Rightarrow> rat option" where
  "string_to_number str =
     (let s = js_trim str
      in if s = [] then Some 0
         else if starts_with ''0x'' s \<or> starts_with ''0X'' s then radix_number 16 (drop 2 s)
         else if starts_with ''0o'' s \<or> starts_with ''0O'' s then radix_number 8 (drop 2 s)
         else if starts_with ''0b'' s \<or> starts_with ''0B'' s then radix_number 2 (drop 2 s)
         else if hd s = CHR ''-'' then map_option uminus (unsigned_decimal (tl s))
         else if hd s = CHR ''+'' then unsigned_decimal (tl s)
         else unsigned_decimal s)"

definition event_number :: "StoredEvent \<Rightarrow> rat" where
  "event_number e = (case string_to_number (se_id e) of Some n \<Rightarrow> n | None \<Rightarrow> 0)"

definition inboxSince :: "string option \<Rightarrow> InboxBuffer \<Rightarrow> StoredEvent list" where
  "inboxSince lastEventId ib =
     (case lastEventId of
        None \<Rightarrow> ib_entries ib
      | Some s \<Rightarrow>
          if s = [] then ib_entries ib
          else (case string_to_number s of
                  None \<Rightarrow> ib_entries ib
                | Some boundary \<Rightarrow> filter (\<lambda>e. boundary < event_number e) (ib_entries ib)))"

text \<open>An identifier that was assigned reads back as its number.\<close>

lemma string_to_number_digits:
  assumes "list_all is_digit s" "s \<noteq> []"
  shows "string_to_number s = Some (of_nat (nat_of_digits s))"
proof -
  have "unsigned_decimal s = Some (of_nat (nat_of_digits s))"
  proof -
    have eq: "takeWhile is_digit s = s" "dropWhile is_digit s = []"
      using assms(1) by (simp_all add: list_all_iff)
    show ?thesis unfolding unsigned_decimal_def decimal_parts_def eq using assms(2) by simp
  qed
  then show ?thesis using assms digits_no_radix [OF assms(1)]
    by (simp add: string_to_number_def js_trim_digits)
qed

lemma string_to_number_show_nat [simp]: "string_to_number (show_nat n) = Some (of_nat n)"
  by (simp add: string_to_number_digits)

text \<open>Appending a list of events; the identifiers of the retained ones are the last numbers.\<close>

fun inboxAppends :: "(string \<times> string) list \<Rightarrow> InboxBuffer \<Rightarrow> InboxBuffer" where
  "inboxAppends [] ib = ib"
| "inboxAppends ((event, d) # evs) ib = inboxAppends evs (fst (inboxAppend event d ib))"

definition numbered :: "nat \<Rightarrow> (string \<times> string) list \<Rightarrow> StoredEvent list" where
  "numbered k evs = map (\<lambda>(i, (event, d)). \<lparr>se_id = show_nat i, se_event = event, se_data = d\<rparr>) (enumerate k evs)"

lemma numbered_simps [simp]:
  "numbered k [] = []"
  "numbered k (e # evs) = \<lparr>se_id = show_nat k, se_event = fst e, se_data = snd e\<rparr> # numbered (Suc k) evs"
  "length (numbered k evs) = length evs"
  by (simp_all add: numbered_def split: prod.split)

lemma numbered_snoc: "numbered k (evs @ [e]) = numbered k evs @ [\<lparr>se_id = show_nat (k + length evs), se_event = fst e, se_data = snd e\<rparr>]"
  by (induction evs arbitrary: k) simp_all

lemma inboxAppends_snoc: "inboxAppends (evs @ [e]) ib = fst (inboxAppend (fst e) (snd e) (inboxAppends evs ib))"
  by (induction evs ib rule: inboxAppends.induct) (cases e; simp)+

lemma inbox_window:
  assumes "newInboxBuffer capacity = Inr ib"
  shows "inboxAppends evs ib = ib\<lparr>ib_entries := drop (length evs - nat (ib_capacity ib)) (numbered 1 evs),
     ib_nextId := Suc (length evs)\<rparr>"
proof (induction evs rule: rev_induct)
  case Nil
  then show ?case using assms by (auto simp: newInboxBuffer_def Let_def split: if_splits)
next
  case (snoc e evs)
  have "1 \<le> ib_capacity ib" using assms by (auto simp: newInboxBuffer_def Let_def split: if_splits)
  then have "tl (drop (length evs - nat (ib_capacity ib)) xs @ [x]) = drop (Suc (length evs) - nat (ib_capacity ib)) (xs @ [x])"
    if "nat (ib_capacity ib) \<le> length evs" "length xs = length evs" for xs :: "StoredEvent list" and x
  proof -
    let ?m = "length evs - nat (ib_capacity ib)"
    have "drop (Suc ?m) (xs @ [x]) = tl (drop ?m (xs @ [x]))"
      by (simp only: drop_Suc tl_drop)
    also have "drop ?m (xs @ [x]) = drop ?m xs @ [x]" using that by simp
    finally show ?thesis using Suc_diff_le [OF that(1)] by simp
  qed
  then show ?case
    by (auto simp: inboxAppends_snoc snoc inboxAppend_def numbered_snoc Let_def)
qed

lemma filter_numbered: "filter (\<lambda>e. of_nat i < event_number e) (numbered k evs) = drop (Suc i - k) (numbered k evs)"
  by (induction evs arbitrary: k) (auto simp: event_number_def Suc_diff_le filter_id_conv split: nat_diff_split)

section \<open>\<open>nonce-cache.ts\<close>\<close>

record NonceCache =
  nc_maxEntries :: int
  nc_entries :: "(string, rat) jsmap"

definition newNonceCache :: "int option \<Rightarrow> NonceCache" where
  "newNonceCache maxEntries =
     \<lparr>nc_maxEntries = (case maxEntries of None \<Rightarrow> 10000 | Some n \<Rightarrow> n), nc_entries = []\<rparr>"

definition nonceKey :: "string \<Rightarrow> string \<Rightarrow> string" where
  "nonceKey did nonce = did @ '':'' @ nonce"

definition nonceStore :: "string \<Rightarrow> string \<Rightarrow> rat \<Rightarrow> NonceCache \<Rightarrow> NonceCache \<times> bool" where
  "nonceStore did nonce timestampSec nc =
     (let key = nonceKey did nonce
      in if jm_has (nc_entries nc) key then (nc, False)
         else
           let entries = jm_set key timestampSec (nc_entries nc)
           in (nc\<lparr>nc_entries :=
                 (if nc_maxEntries nc < int (length entries)
                  then jm_delete (fst (hd entries)) entries else entries)\<rparr>, True))"

fun nonceStores :: "(string \<times> string \<times> rat) list \<Rightarrow> NonceCache \<Rightarrow> NonceCache \<times> bool list" where
  "nonceStores [] nc = (nc, [])"
| "nonceStores ((did, nonce, t) # reqs) nc =
     (let (nc1, ok) = nonceStore did nonce t nc; (nc2, oks) = nonceStores reqs nc1 in (nc2, ok # oks))"

text \<open>The cache holds the keys accepted last, in the order they were accepted.\<close>

definition nonce_keys :: "NonceCache \<Rightarrow> string list" where
  "nonce_keys nc = map fst (nc_entries nc)"

definition nonce_inv :: "NonceCache \<Rightarrow> bool" where
  "nonce_inv nc \<longleftrightarrow> 0 < nc_maxEntries nc \<and> distinct (nonce_keys nc) \<and> int (length (nonce_keys nc)) \<le> nc_maxEntries nc"

lemma jm_delete_hd: "distinct (map fst m) \<Longrightarrow> m \<noteq> [] \<Longrightarrow> jm_delete (fst (hd m)) m = tl m"
  by (cases m) (force simp: AList.delete_eq filter_id_conv)+

lemma nonceStores_Cons:
  "nonceStores ((did, nonce, t) # reqs) nc =
     (fst (nonceStores reqs (fst (nonceStore did nonce t nc))),
      snd (nonceStore did nonce t nc) # snd (nonceStores reqs (fst (nonceStore did nonce t nc))))"
  by (simp split: prod.split)

declare nonceStores.simps(2) [simp del]

lemma nonceStore_cases:
  assumes "nonce_inv nc"
  shows "if nonceKey did nonce \<in> set (nonce_keys nc)
    then nonceStore did nonce t nc = (nc, False)
    else snd (nonceStore did nonce t nc) \<and>
      nonce_keys (fst (nonceStore did nonce t nc)) =
        (let ks = nonce_keys nc @ [nonceKey did nonce] in
         if nc_maxEntries nc < int (length ks) then tl ks else ks)"
proof (cases "nonceKey did nonce \<in> set (nonce_keys nc)")
  case True
  then show ?thesis by (simp add: nonceStore_def jm_has_iff nonce_keys_def)
next
  case False
  let ?es = "nc_entries nc @ [(nonceKey did nonce, t)]"
  have "\<not> jm_has (nc_entries nc) (nonceKey did nonce)" using False by (simp add: jm_has_iff nonce_keys_def)
  moreover have "jm_delete (fst (hd ?es)) ?es = tl ?es"
    using assms False by (intro jm_delete_hd) (auto simp: nonce_inv_def nonce_keys_def)
  ultimately show ?thesis
    using False by (simp add: nonceStore_def jm_set_fresh' nonce_keys_def Let_def map_tl)
qed

lemma nonceStore_max [simp]: "nc_maxEntries (fst (nonceStore did nonce t nc)) = nc_maxEntries nc"
  by (simp add: nonceStore_def Let_def)

lemma nonce_inv_store: "nonce_inv nc \<Longrightarrow> nonce_inv (fst (nonceStore did nonce t nc))"
  using nonceStore_cases [of nc did nonce t]
  by (cases "nonce_keys nc") (auto simp: nonce_inv_def Let_def distinct_tl split: if_splits)

lemma nonceStores_inv: "nonce_inv nc \<Longrightarrow> nonce_inv (fst (nonceStores reqs nc)) \<and>
    nc_maxEntries (fst (nonceStores reqs nc)) = nc_maxEntries nc"
proof (induction reqs arbitrary: nc)
  case (Cons r reqs)
  then show ?case by (cases r) (simp add: nonceStores_Cons nonce_inv_store)
qed simp

text \<open>A key with \<open>j\<close> keys after it stays while fewer than \<open>max - j\<close> keys are added.\<close>

lemma key_stays:
  assumes "nonce_inv nc" "nonce_keys nc = xs @ key # ys"
    "int (length ys + length (filter (\<lambda>ok. ok) (snd (nonceStores reqs nc)))) < nc_maxEntries nc"
  shows "key \<in> set (nonce_keys (fst (nonceStores reqs nc)))"
  using assms
proof (induction reqs arbitrary: nc xs ys)
  case (Cons r reqs)
  obtain did nonce t where r: "r = (did, nonce, t)" by (cases r)
  let ?nc = "fst (nonceStore did nonce t nc)" and ?k = "nonceKey did nonce"
  have inv: "nonce_inv ?nc" using nonce_inv_store [OF Cons.prems(1)] .
  show ?case
  proof (cases "?k \<in> set (nonce_keys nc)")
    case True
    then have "nonceStore did nonce t nc = (nc, False)"
      using nonceStore_cases [OF Cons.prems(1), of did nonce t] by simp
    then show ?thesis using Cons.IH [OF Cons.prems(1,2)] Cons.prems(3) by (simp add: r nonceStores_Cons)
  next
    case False
    then have ok: "snd (nonceStore did nonce t nc)"
      and ks: "nonce_keys ?nc = (let ks = nonce_keys nc @ [?k] in
         if nc_maxEntries nc < int (length ks) then tl ks else ks)"
      using nonceStore_cases [OF Cons.prems(1), of did nonce t] by simp_all
    have len: "int (length (ys @ [?k]) + length (filter (\<lambda>ok. ok) (snd (nonceStores reqs ?nc)))) < nc_maxEntries ?nc"
      using Cons.prems(3) ok by (simp add: r nonceStores_Cons)
    have "\<exists>xs'. nonce_keys ?nc = xs' @ key # ys @ [?k]"
      using ks Cons.prems(2) len by (cases xs) (auto simp: Let_def split: if_splits)
    then obtain xs' where "nonce_keys ?nc = xs' @ key # ys @ [?k]" ..
    from Cons.IH [OF inv this len] show ?thesis by (simp add: r nonceStores_Cons)
  qed
qed simp

section \<open>Properties\<close>

lemma numbered_drop: "drop m (numbered k evs) = numbered (k + m) (drop m evs)"
  by (induction evs arbitrary: k m) (simp_all add: drop_Cons split: nat.split)

text \<open>C40: as long as the clock does not go back, a key is accepted in every window of a run of requests at
  most \<open>burst\<close> times plus \<open>rps\<close> times the seconds of the window, whatever the other keys do; each
  key has a bucket of its own.\<close>

theorem rate_limited:
  assumes "sorted (map snd (before @ window))"
    and "\<forall>e \<in> set window. t0 \<le> snd e \<and> snd e \<le> t1" "\<forall>e \<in> set before. snd e \<le> t0" "t0 \<le> t1"
    and "0 \<le> rps" "0 \<le> burst"
  shows "of_nat (accepted_count key window
      (drop (length before)
        (consumeAll store_get store_set (newRateLimiter (Some rps) (Some burst) []) (before @ window)))) \<le>
     burst + (t1 - t0) / 1000 * rps"
  using mem.window_bound [OF assms(1-4), of "newRateLimiter (Some rps) (Some burst) []" key] assms(5,6)
  by (simp add: newRateLimiter_def store_get_def)

text \<open>When the clock goes back, the time of the last refill goes back with it, and the same second refills
  the bucket again: three requests within one second pass where two are allowed.\<close>

lemma clock_step_refills:
  "consumeAll store_get store_set (newRateLimiter (Some 1) (Some 1) [])
     [(''a'', 1000), (''a'', 0), (''a'', 1000), (''a'', 0), (''a'', 1000)] = [True, False, True, False, True]"
  by code_simp

theorem rate_limited_witness:
  "of_nat (accepted_count ''a'' [(''a'', 1000), (''a'', 1001), (''a'', 1001)]
      (drop 1 (consumeAll store_get store_set (newRateLimiter (Some 1) (Some 2) [])
        ([(''b'', 0)] @ [(''a'', 1000), (''a'', 1001), (''a'', 1001)])))) \<le> 2 + (2000 - 1000) / 1000 * (1 :: rat) \<and>
   consumeAll store_get store_set (newRateLimiter (Some 1) (Some 2) [])
        [(''b'', 0), (''a'', 1000), (''a'', 1001), (''a'', 1001)] = [True, True, True, False]"
proof (rule conjI)
  show "of_nat (accepted_count ''a'' [(''a'', 1000), (''a'', 1001), (''a'', 1001)]
      (drop 1 (consumeAll store_get store_set (newRateLimiter (Some 1) (Some 2) [])
        ([(''b'', 0)] @ [(''a'', 1000), (''a'', 1001), (''a'', 1001)])))) \<le> 2 + (2000 - 1000) / 1000 * (1 :: rat)"
    using rate_limited [of "[(''b'', 0)]" "[(''a'', 1000), (''a'', 1001), (''a'', 1001)]" 1000 2000 1 2 "''a''"]
    by simp
qed (code_simp)

text \<open>A reconnecting subscriber that names the last event it saw gets the events after it, in
  order, less those that the capacity has evicted; with nothing evicted, all of them.\<close>

theorem inbox_since_replays:
  assumes "newInboxBuffer capacity = Inr ib"
  shows "inboxSince (Some (show_nat k)) (inboxAppends evs ib) =
     drop (max k (length evs - nat (ib_capacity ib))) (numbered 1 evs)"
proof -
  have "filter (\<lambda>e. of_nat k < event_number e) (drop m (numbered 1 evs)) = drop (max k m) (numbered 1 evs)" for m
    by (simp add: numbered_drop filter_numbered max_def)
  then show ?thesis by (simp add: inboxSince_def inbox_window [OF assms])
qed

theorem inbox_since_replays_witness:
  "inboxSince (Some (show_nat 1)) (inboxAppends [(''a'', ''1''), (''b'', ''2''), (''c'', ''3'')]
      \<lparr>ib_capacity = 2, ib_entries = [], ib_nextId = 1\<rparr>) =
   drop (max 1 (3 - nat 2)) (numbered 1 [(''a'', ''1''), (''b'', ''2''), (''c'', ''3'')])"
  using inbox_since_replays [of "Some 2" "\<lparr>ib_capacity = 2, ib_entries = [], ib_nextId = 1\<rparr>" 1
      "[(''a'', ''1''), (''b'', ''2''), (''c'', ''3'')]"]
  by (simp add: newInboxBuffer_def)

text \<open>a nonce that was accepted is refused again as long as fewer than \<open>maxEntries\<close> other
  nonces have been accepted since, and the cache never holds more than \<open>maxEntries\<close>.\<close>

theorem nonce_not_replayed:
  assumes "nc = fst (nonceStores reqs (newNonceCache (Some n)))" "0 < n"
    and "nonceStore did nonce t nc = (nc1, True)"
    and "nonceStores reqs' nc1 = (nc2, oks)" "int (length (filter (\<lambda>ok. ok) oks)) < n"
  shows "nonceStore did nonce t' nc2 = (nc2, False) \<and> int (length (nc_entries nc2)) \<le> n"
proof -
  have "nonce_inv (newNonceCache (Some n))"
    using assms(2) by (simp add: nonce_inv_def newNonceCache_def nonce_keys_def)
  then have inv: "nonce_inv nc" "nc_maxEntries nc = n"
    using nonceStores_inv assms(1) by (auto simp: newNonceCache_def)
  then have inv1: "nonce_inv nc1" "nc_maxEntries nc1 = n"
    using nonce_inv_store [of nc did nonce t] nonceStore_max [of did nonce t nc] assms(3) by simp_all
  have inv2: "nonce_inv nc2" "nc_maxEntries nc2 = n"
    using nonceStores_inv [OF inv1(1), of reqs'] assms(4) inv1 by simp_all
  have "\<exists>xs. nonce_keys nc1 = xs @ nonceKey did nonce # []"
    using nonceStore_cases [OF inv(1), of did nonce t] assms(2,3) inv
    by (cases "nonce_keys nc") (auto simp: Let_def split: if_splits)
  then obtain xs where "nonce_keys nc1 = xs @ nonceKey did nonce # []" ..
  from key_stays [OF inv1(1) this, of reqs'] have "nonceKey did nonce \<in> set (nonce_keys nc2)"
    using assms(4,5) inv1(2) by simp
  then show ?thesis
    using nonceStore_cases [OF inv2(1), of did nonce t'] inv2 by (simp add: nonce_inv_def nonce_keys_def)
qed

theorem nonce_not_replayed_witness:
  "nonceStore ''d'' ''1'' 7 (fst (nonceStores [(''d'', ''2'', 6)] (fst (nonceStore ''d'' ''1'' 5 (newNonceCache (Some 2)))))) =
     (fst (nonceStores [(''d'', ''2'', 6)] (fst (nonceStore ''d'' ''1'' 5 (newNonceCache (Some 2))))), False)"
proof -
  let ?nc1 = "fst (nonceStore ''d'' ''1'' 5 (newNonceCache (Some 2)))"
  have a: "nonceStore ''d'' ''1'' 5 (newNonceCache (Some 2)) = (?nc1, True)" by code_simp
  have b: "nonceStores [(''d'', ''2'', 6)] ?nc1 = (fst (nonceStores [(''d'', ''2'', 6)] ?nc1), [True])"
    by code_simp
  show ?thesis
    using nonce_not_replayed [of "newNonceCache (Some 2)" "[]" 2, OF _ _ a b] by simp
qed

end
