(* ===== verification/AggRecovery.thy ===== *)
theory AggRecovery
  imports DidResolver "HOL-Library.Multiset"
begin

text \<open>
  What the aggregation package calls outside the repository, as the record \<open>agg_lib\<close>, and the
  script tree of an aggregate beacon output: \<open>packages/aggregation/src/core/recovery-policy.ts\<close>.

  Fields of \<open>agg_lib\<close>: \<open>musig_*\<close> are \<open>@scure/btc-signer/musig2\<close> (sorting and aggregating keys,
  nonces, the signing session), \<open>p2tr\<close>, \<open>p2tr_ms\<close>, \<open>script_*\<close> and \<open>tx_*\<close> are
  \<open>@scure/btc-signer\<close> with its class \<open>Transaction\<close> as the type variable \<open>'tx\<close>, \<open>tagged_hash\<close>,
  \<open>bip340_sign\<close> and \<open>bip340_public\<close> are \<open>schnorr\<close> of \<open>@noble/curves\<close>. \<open>tx_recoverySpend\<close> is the chain
  of calls that makes, signs and finalizes the transaction of \<open>buildRecoverySpend\<close>: the outpoint, the
  script and amount it spends, the leaf scripts, the sequence, the destination and amount, the
  network and the secret key. A call that throws is \<open>None\<close>.

  A number of an advertised condition is a \<open>jsval\<close>, because the code checks that it is an integer.
\<close>

section \<open>The libraries\<close>

datatype script_item = OpNum int | OpCode string | OpData bytes

record TaprootPayment =
  tp_script :: bytes
  tp_address :: "string option"
  tp_tapMerkleRoot :: bytes
  tp_tapLeafScript :: "(bytes \<times> bytes) list option"

record MusigSession =
  ms_aggNonce :: bytes
  ms_publicKeys :: "bytes list"
  ms_message :: bytes
  ms_tweak :: bytes

record 'tx agg_lib = method_lib +
  musig_sort_keys :: "bytes list \<Rightarrow> bytes list option"
  musig_key_agg :: "bytes list \<Rightarrow> bytes option"
  musig_nonce_agg :: "bytes list \<Rightarrow> bytes option"
  musig_nonce_gen :: "bytes \<Rightarrow> bytes \<Rightarrow> bytes \<Rightarrow> bytes \<Rightarrow> (bytes \<times> bytes) option"
  musig_session_ok :: "MusigSession \<Rightarrow> bool"
  musig_sign :: "MusigSession \<Rightarrow> bytes \<Rightarrow> bytes \<Rightarrow> bytes option"
  musig_partial_verify :: "MusigSession \<Rightarrow> bytes \<Rightarrow> bytes option list \<Rightarrow> nat \<Rightarrow> bool option"
  musig_partial_agg :: "MusigSession \<Rightarrow> bytes list \<Rightarrow> bytes option"
  tagged_hash :: "string \<Rightarrow> bytes \<Rightarrow> bytes"
  bip340_sign :: "bytes \<Rightarrow> bytes \<Rightarrow> bytes \<Rightarrow> bytes option"
  bip340_public :: "bytes \<Rightarrow> bytes option"
  script_encode :: "script_item list \<Rightarrow> bytes option"
  script_decode :: "bytes \<Rightarrow> script_item list option"
  p2tr_ms :: "int \<Rightarrow> bytes list \<Rightarrow> bytes option"
  p2tr :: "bytes \<Rightarrow> bytes list \<Rightarrow> string \<Rightarrow> TaprootPayment option"
  tx_hex :: "'tx \<Rightarrow> string"
  tx_fromRaw :: "bytes \<Rightarrow> 'tx option"
  tx_outputScripts :: "'tx \<Rightarrow> bytes option list"
  tx_preimageWitnessV1 :: "'tx \<Rightarrow> nat \<Rightarrow> bytes list \<Rightarrow> int list \<Rightarrow> bytes option \<Rightarrow> bytes option"
  tx_setFinalScriptWitness :: "'tx \<Rightarrow> nat \<Rightarrow> bytes list \<Rightarrow> 'tx option"
  tx_setTapScriptSigs :: "'tx \<Rightarrow> nat \<Rightarrow> bytes \<times> bytes \<Rightarrow> ((bytes \<times> bytes) \<times> bytes) list \<Rightarrow> 'tx option"
  tx_finalize :: "'tx \<Rightarrow> 'tx option"
  tx_recoverySpend :: "string \<times> int \<Rightarrow> bytes \<times> int \<Rightarrow> (bytes \<times> bytes) list option \<Rightarrow> int \<Rightarrow> string \<times> int \<Rightarrow> string \<Rightarrow> bytes \<Rightarrow> 'tx option"

text \<open>BIP-327: sorting permutes the keys, and the result depends only on which keys they are.\<close>

definition sort_keys_ok :: "('tx, 'x) agg_lib_scheme \<Rightarrow> bool" where
  "sort_keys_ok L \<longleftrightarrow>
     (\<forall>ks ks'. musig_sort_keys L ks = Some ks' \<longrightarrow> mset ks' = mset ks) \<and>
     (\<forall>ks ks'. mset ks = mset ks' \<longrightarrow> musig_sort_keys L ks = musig_sort_keys L ks')"

section \<open>Numbers\<close>

text \<open>\<open>Number.isInteger(v)\<close>, the value of an integer, and \<open>x !== undefined\<close>.\<close>

definition is_int :: "jsval \<Rightarrow> bool" where
  "is_int v = (case v of JInt _ \<Rightarrow> True | _ \<Rightarrow> False)"

definition int_of :: "jsval \<Rightarrow> int" where
  "int_of v = (case v of JInt i \<Rightarrow> i | _ \<Rightarrow> 0)"

lemma is_int_simps [simp]: "is_int (JInt i)" "int_of (JInt i) = i" "\<not> is_int JUndef"
  by (simp_all add: is_int_def int_of_def)

lemma is_intE: "is_int v \<Longrightarrow> (\<And>i. v = JInt i \<Longrightarrow> P) \<Longrightarrow> P"
  by (cases v) (simp_all add: is_int_def)

section \<open>\<open>recovery-policy.ts\<close>\<close>

definition DEFAULT_FUNDING_MODEL :: string where "DEFAULT_FUNDING_MODEL = ''operator-funded''"
definition DEFAULT_RECOVERY_SEQUENCE :: int where "DEFAULT_RECOVERY_SEQUENCE = 144"
definition MAX_RECOVERY_SEQUENCE :: int where "MAX_RECOVERY_SEQUENCE = 0xffff"
definition TAPROOT_LEAF_VERSION :: byte where "TAPROOT_LEAF_VERSION = 0xc0"

definition cohort_error :: "string \<Rightarrow> error + 'a" where
  "cohort_error code = Inl (Error ''AggregationCohortError'' code)"

definition compactSize :: "nat \<Rightarrow> bytes" where
  "compactSize n =
     (let b = (\<lambda>k. word_of_nat (n div 2 ^ k mod 256) :: byte)
      in if n < 0xfd then [word_of_nat n]
         else if n \<le> 0xffff then [0xfd, b 0, b 8]
         else [0xfe, b 0, b 8, b 16, b 24])"

definition tapLeafHash :: "('tx, 'x) agg_lib_scheme \<Rightarrow> bytes \<Rightarrow> byte \<Rightarrow> bytes" where
  "tapLeafHash L script leafVersion =
     tagged_hash L ''TapLeaf'' ([leafVersion] @ compactSize (length script) @ script)"

definition resolveFallbackThreshold :: "jsval \<Rightarrow> nat \<Rightarrow> jsval" where
  "resolveFallbackThreshold advertised n =
     (if advertised = JUndef \<or> advertised = JNull then JInt (max 1 (int n - 1)) else advertised)"

definition assertFallbackParams :: "bytes list \<Rightarrow> jsval \<Rightarrow> unit result" where
  "assertFallbackParams cohortKeys fallbackThreshold =
     (let n = length cohortKeys
      in if n = 0 then cohort_error ''NO_COHORT_KEYS''
         else if \<not> list_all (\<lambda>key. length key = 33) cohortKeys then cohort_error ''INVALID_COHORT_KEY''
         else if \<not> is_int fallbackThreshold \<or> int_of fallbackThreshold < 1 \<or> int n < int_of fallbackThreshold
         then cohort_error ''INVALID_FALLBACK_THRESHOLD''
         else Inr ())"

definition buildFallbackLeaf :: "('tx, 'x) agg_lib_scheme \<Rightarrow> bytes list \<Rightarrow> jsval \<Rightarrow> bytes result" where
  "buildFallbackLeaf L cohortKeys fallbackThreshold =
     rbind (assertFallbackParams cohortKeys fallbackThreshold) (\<lambda>_.
     rbind (of_option (musig_sort_keys L cohortKeys)) (\<lambda>sorted.
       of_option (p2tr_ms L (int_of fallbackThreshold) (map (drop 1) sorted))))"

definition assertRecoveryParams :: "bytes \<Rightarrow> jsval \<Rightarrow> unit result" where
  "assertRecoveryParams recoveryKey recoverySequence =
     (if length recoveryKey \<noteq> 32 then cohort_error ''INVALID_RECOVERY_KEY''
      else if \<not> is_int recoverySequence \<or> int_of recoverySequence < 1 \<or>
              MAX_RECOVERY_SEQUENCE < int_of recoverySequence
      then cohort_error ''INVALID_RECOVERY_SEQUENCE''
      else Inr ())"

definition buildRecoveryScript :: "('tx, 'x) agg_lib_scheme \<Rightarrow> bytes \<Rightarrow> jsval \<Rightarrow> bytes result" where
  "buildRecoveryScript L recoveryKey recoverySequence =
     rbind (assertRecoveryParams recoveryKey recoverySequence) (\<lambda>_.
       of_option (script_encode L
         [OpNum (int_of recoverySequence), OpCode ''CHECKSEQUENCEVERIFY'', OpCode ''DROP'',
          OpData recoveryKey, OpCode ''CHECKSIG'']))"

record BeaconLeafParams =
  lp_recoveryKey :: bytes
  lp_recoverySequence :: jsval
  lp_cohortKeys :: "bytes list"
  lp_fallbackThreshold :: jsval

definition buildRecoveryLeaves :: "('tx, 'x) agg_lib_scheme \<Rightarrow> string \<Rightarrow> BeaconLeafParams \<Rightarrow> bytes list result" where
  "buildRecoveryLeaves L fundingModel params =
     (if fundingModel = ''operator-funded'' then
        rbind (buildFallbackLeaf L (lp_cohortKeys params) (lp_fallbackThreshold params)) (\<lambda>fallbackLeaf.
        rbind (buildRecoveryScript L (lp_recoveryKey params) (lp_recoverySequence params)) (\<lambda>recoveryLeaf.
          Inr [fallbackLeaf, recoveryLeaf]))
      else if fundingModel = ''participant-funded'' then cohort_error ''UNSUPPORTED_FUNDING_MODEL''
      else cohort_error ''UNKNOWN_FUNDING_MODEL'')"

text \<open>The output an aggregate key, a script tree and a network make: the calls that
  \<open>computeBeaconAddress\<close>, \<open>buildFallbackSpend\<close> and \<open>buildRecoverySpend\<close> share.\<close>

definition beaconPayment ::
  "('tx, 'x) agg_lib_scheme \<Rightarrow> bytes \<Rightarrow> bytes list \<Rightarrow> string \<Rightarrow> TaprootPayment result" where
  "beaconPayment L internalKey leaves network =
     rbind (getNetwork (NetName network)) (\<lambda>net. of_option (p2tr L internalKey leaves net))"

section \<open>Lemmas\<close>

lemma cohort_error_simps [simp]: "cohort_error c \<noteq> Inr a" "Inr a \<noteq> cohort_error c"
  by (simp_all add: cohort_error_def)

lemma assertFallbackParams_Inr_iff:
  "assertFallbackParams keys k = Inr () \<longleftrightarrow>
     keys \<noteq> [] \<and> list_all (\<lambda>key. length key = 33) keys \<and> is_int k \<and>
     1 \<le> int_of k \<and> int_of k \<le> int (length keys)"
  by (auto simp: assertFallbackParams_def Let_def cohort_error_def not_less)

lemma assertRecoveryParams_Inr_iff:
  "assertRecoveryParams key s = Inr () \<longleftrightarrow>
     length key = 32 \<and> is_int s \<and> 1 \<le> int_of s \<and> int_of s \<le> MAX_RECOVERY_SEQUENCE"
  by (auto simp: assertRecoveryParams_def cohort_error_def not_less)

lemma buildFallbackLeaf_Inr_iff:
  "buildFallbackLeaf L keys k = Inr leaf \<longleftrightarrow>
     assertFallbackParams keys k = Inr () \<and>
     (\<exists>sorted. musig_sort_keys L keys = Some sorted \<and> p2tr_ms L (int_of k) (map (drop 1) sorted) = Some leaf)"
  by (auto simp: buildFallbackLeaf_def rbind_Inr_iff)

text \<open>Whoever builds the leaf builds the same one, in whatever order the keys arrive.\<close>

lemma buildFallbackLeaf_mset:
  assumes "sort_keys_ok L" "mset keys = mset keys'"
  shows "buildFallbackLeaf L keys k = buildFallbackLeaf L keys' k"
proof -
  have "length keys = length keys'" using assms(2) by (metis size_mset)
  moreover have "set keys = set keys'" using assms(2) by (metis set_mset_mset)
  moreover have "musig_sort_keys L keys = musig_sort_keys L keys'"
    using assms unfolding sort_keys_ok_def by blast
  ultimately show ?thesis by (simp add: buildFallbackLeaf_def assertFallbackParams_def list_all_iff Let_def)
qed

end
