(* ===== verification/AggConditions.thy ===== *)
theory AggConditions
  imports AggRecovery
begin

text \<open>
  Cohort conditions: \<open>packages/aggregation/src/core/conditions.ts\<close>. The fields that the code
  checks for being numbers are JavaScript values; the fields \<open>amount\<close>, \<open>unit\<close> and \<open>basis\<close> of a
  cost too. \<open>validateCohortConditions\<close> returns the list of problems, here by the start of the text
  of each. The lemmas relate an empty list to what building the beacon output requires.
\<close>

record CohortCost =
  cc_amount :: jsval
  cc_unit :: jsval
  cc_basis :: jsval

record CohortConditions =
  co_beaconType :: string
  co_minParticipants :: jsval
  co_maxParticipants :: jsval
  co_minDidsPerParticipant :: jsval
  co_maxDidsPerParticipant :: jsval
  co_costOfEnrollment :: "CohortCost option"
  co_costPerAnnouncement :: "CohortCost option"
  co_minSecondsBetweenAnnouncements :: jsval
  co_maxSecondsBetweenAnnouncements :: jsval
  co_pendingUpdateTrigger :: jsval
  co_fundingModel :: "string option"
  co_recoveryKey :: jsval
  co_recoverySequence :: jsval
  co_fallbackThreshold :: jsval

definition KNOWN_BEACON_TYPES :: "string list" where
  "KNOWN_BEACON_TYPES = [''CASBeacon'', ''SMTBeacon'']"

definition KNOWN_FUNDING_MODELS :: "string list" where
  "KNOWN_FUNDING_MODELS = [''operator-funded'', ''participant-funded'']"

definition when_problem :: "bool \<Rightarrow> string \<Rightarrow> string list" where
  "when_problem c p = (if c then [p] else [])"

definition checkPair :: "string \<Rightarrow> jsval \<Rightarrow> jsval \<Rightarrow> string list" where
  "checkPair label mn mx =
     when_problem (mn \<noteq> JUndef \<and> (\<not> is_int mn \<or> int_of mn < 0)) (''min'' @ label @ '' must be an integer >= 0'') @
     when_problem (mx \<noteq> JUndef \<and> (\<not> is_int mx \<or> int_of mx < 0)) (''max'' @ label @ '' must be an integer >= 0'') @
     when_problem (mn \<noteq> JUndef \<and> mx \<noteq> JUndef \<and> is_int mn \<and> is_int mx \<and> int_of mx < int_of mn)
       (''max'' @ label @ '' must be >= min'' @ label)"

text \<open>\<open>Number.isFinite(v) && v >= 0\<close>: the sign bit of a finite double that is not integral.\<close>

definition finite_nonneg :: "jsval \<Rightarrow> bool" where
  "finite_nonneg v = (case v of
      JInt i \<Rightarrow> 0 \<le> i
    | JFloat w \<Rightarrow> float_finite w \<and> \<not> bit w 63
    | _ \<Rightarrow> False)"

definition checkCost :: "string \<Rightarrow> CohortCost option \<Rightarrow> string list" where
  "checkCost label cost =
     (case cost of
        None \<Rightarrow> []
      | Some cost \<Rightarrow>
          when_problem (\<not> finite_nonneg (cc_amount cost)) (label @ ''.amount must be a finite number >= 0'') @
          when_problem (\<not> is_string (cc_unit cost) \<or> cc_unit cost = JStr []) (label @ ''.unit must be a non-empty string'') @
          when_problem (cc_basis cost \<noteq> JUndef \<and> cc_basis cost \<noteq> JStr ''per-did'' \<and> cc_basis cost \<noteq> JStr ''per-participant'')
            (label @ ''.basis must be 'per-did' or 'per-participant''))"

definition is_hex64 :: "jsval \<Rightarrow> bool" where
  "is_hex64 v = (case v of JStr s \<Rightarrow> length s = 64 \<and> list_all is_hex s | _ \<Rightarrow> False)"

definition validateCohortConditions :: "CohortConditions \<Rightarrow> string list" where
  "validateCohortConditions c =
     when_problem (co_beaconType c \<notin> set KNOWN_BEACON_TYPES) ''beaconType'' @
     when_problem (\<not> is_int (co_minParticipants c) \<or> int_of (co_minParticipants c) < 1) ''minParticipants'' @
     (if co_maxParticipants c = JUndef then []
      else if \<not> is_int (co_maxParticipants c) \<or> int_of (co_maxParticipants c) < 1 then [''maxParticipants must be an integer >= 1'']
      else when_problem (is_int (co_minParticipants c) \<and> int_of (co_maxParticipants c) < int_of (co_minParticipants c))
             ''maxParticipants must be >= minParticipants'') @
     checkPair ''DidsPerParticipant'' (co_minDidsPerParticipant c) (co_maxDidsPerParticipant c) @
     checkPair ''SecondsBetweenAnnouncements'' (co_minSecondsBetweenAnnouncements c) (co_maxSecondsBetweenAnnouncements c) @
     when_problem (co_pendingUpdateTrigger c \<noteq> JUndef \<and>
        (\<not> is_int (co_pendingUpdateTrigger c) \<or> int_of (co_pendingUpdateTrigger c) < 1)) ''pendingUpdateTrigger'' @
     (if co_fallbackThreshold c = JUndef then []
      else if \<not> is_int (co_fallbackThreshold c) \<or> int_of (co_fallbackThreshold c) < 1 then [''fallbackThreshold must be an integer >= 1'']
      else when_problem (co_maxParticipants c \<noteq> JUndef \<and> is_int (co_maxParticipants c) \<and>
             int_of (co_maxParticipants c) < int_of (co_fallbackThreshold c)) ''fallbackThreshold must be <= maxParticipants'') @
     checkCost ''costOfEnrollment'' (co_costOfEnrollment c) @
     checkCost ''costPerAnnouncement'' (co_costPerAnnouncement c) @
     when_problem (\<not> is_hex64 (co_recoveryKey c)) ''recoveryKey'' @
     when_problem (\<not> is_int (co_recoverySequence c) \<or> int_of (co_recoverySequence c) < 1 \<or>
        MAX_RECOVERY_SEQUENCE < int_of (co_recoverySequence c)) ''recoverySequence'' @
     when_problem (case co_fundingModel c of None \<Rightarrow> False | Some m \<Rightarrow> m \<notin> set KNOWN_FUNDING_MODELS) ''fundingModel''"

section \<open>What valid conditions guarantee\<close>

lemma when_problem_Nil [simp]: "when_problem c p = [] \<longleftrightarrow> \<not> c"
  by (simp add: when_problem_def)

definition opt_int_ge :: "int \<Rightarrow> jsval \<Rightarrow> bool" where
  "opt_int_ge k v \<longleftrightarrow> v = JUndef \<or> is_int v \<and> k \<le> int_of v"

lemma validate_bounds:
  assumes "validateCohortConditions c = []"
  shows "co_beaconType c \<in> set KNOWN_BEACON_TYPES"
    "is_int (co_minParticipants c)" "1 \<le> int_of (co_minParticipants c)"
    "opt_int_ge (int_of (co_minParticipants c)) (co_maxParticipants c)"
    "opt_int_ge 1 (co_fallbackThreshold c)"
    "co_maxParticipants c \<noteq> JUndef \<Longrightarrow> co_fallbackThreshold c \<noteq> JUndef \<Longrightarrow>
       int_of (co_fallbackThreshold c) \<le> int_of (co_maxParticipants c)"
    "is_hex64 (co_recoveryKey c)" "is_int (co_recoverySequence c)"
    "1 \<le> int_of (co_recoverySequence c)" "int_of (co_recoverySequence c) \<le> MAX_RECOVERY_SEQUENCE"
    "\<And>m. co_fundingModel c = Some m \<Longrightarrow> m \<in> set KNOWN_FUNDING_MODELS"
  using assms unfolding validateCohortConditions_def
  by (auto simp: opt_int_ge_def split: if_splits)

text \<open>The threshold that applies to a cohort of \<open>n\<close> members lies between 1 and \<open>n\<close>, except when the
  conditions advertise a threshold that the cohort does not reach.\<close>

lemma resolved_threshold:
  assumes "validateCohortConditions c = []" "0 < n"
    "co_fallbackThreshold c = JUndef \<or> int_of (co_fallbackThreshold c) \<le> int n"
  shows "is_int (resolveFallbackThreshold (co_fallbackThreshold c) n) \<and>
    1 \<le> int_of (resolveFallbackThreshold (co_fallbackThreshold c) n) \<and>
    int_of (resolveFallbackThreshold (co_fallbackThreshold c) n) \<le> int n"
  using validate_bounds(5) [OF assms(1)] assms(2,3)
  by (cases "co_fallbackThreshold c") (auto simp: resolveFallbackThreshold_def opt_int_ge_def)

end
