(* ===== verification/AggMessages.thy ===== *)
theory AggMessages
  imports AggConditions
begin

text \<open>
  The messages of the aggregation protocol: \<open>packages/aggregation/src/core/messages\<close>
  (\<open>base.ts\<close>, \<open>constants.ts\<close>, \<open>factories.ts\<close>, the type guards of \<open>bodies.ts\<close> and \<open>guards.ts\<close>).
  The body of a message is a JavaScript value; the handlers read a field at the type that
  \<open>BaseBody\<close> declares for it, and a field of another type reads as absent. The sender \<open>from\<close> is
  what the transport has authenticated.
\<close>

section \<open>\<open>base.ts\<close> and \<open>constants.ts\<close>\<close>

definition AGGREGATION_WIRE_VERSION :: int where "AGGREGATION_WIRE_VERSION = 1"

record BaseMessage =
  m_type :: string
  m_version :: jsval
  m_to :: "string option"
  m_from :: string
  m_body :: jsval

definition newBaseMessage :: "string \<Rightarrow> jsval \<Rightarrow> string option \<Rightarrow> string \<Rightarrow> jsval \<Rightarrow> BaseMessage" where
  "newBaseMessage type version to sender body =
     \<lparr>m_type = type,
      m_version = (if version = JUndef \<or> version = JNull then JInt AGGREGATION_WIRE_VERSION else version),
      m_to = to, m_from = sender, m_body = body\<rparr>"

definition messageJSON :: "BaseMessage \<Rightarrow> jsval" where
  "messageJSON m = JObj
     [(''type'', JStr (m_type m)), (''version'', m_version m),
      (''to'', case m_to m of None \<Rightarrow> JUndef | Some to \<Rightarrow> JStr to), (''from'', JStr (m_from m)), (''body'', m_body m)]"

definition AGGREGATION_MESSAGE_PREFIX :: string where
  "AGGREGATION_MESSAGE_PREFIX = ''https://btcr2.dev/aggregation''"

definition COHORT_ADVERT :: string where "COHORT_ADVERT = AGGREGATION_MESSAGE_PREFIX @ ''/keygen/cohort_advert''"
definition COHORT_OPT_IN :: string where "COHORT_OPT_IN = AGGREGATION_MESSAGE_PREFIX @ ''/keygen/cohort_opt_in''"
definition COHORT_OPT_IN_ACCEPT :: string where
  "COHORT_OPT_IN_ACCEPT = AGGREGATION_MESSAGE_PREFIX @ ''/keygen/cohort_opt_in_accept''"
definition COHORT_READY :: string where "COHORT_READY = AGGREGATION_MESSAGE_PREFIX @ ''/keygen/cohort_ready''"
definition SUBMIT_UPDATE :: string where "SUBMIT_UPDATE = AGGREGATION_MESSAGE_PREFIX @ ''/update/submit_update''"
definition SUBMIT_NONINCLUDED :: string where
  "SUBMIT_NONINCLUDED = AGGREGATION_MESSAGE_PREFIX @ ''/update/submit_nonincluded''"
definition DISTRIBUTE_AGGREGATED_DATA :: string where
  "DISTRIBUTE_AGGREGATED_DATA = AGGREGATION_MESSAGE_PREFIX @ ''/update/distribute_aggregated_data''"
definition VALIDATION_ACK :: string where "VALIDATION_ACK = AGGREGATION_MESSAGE_PREFIX @ ''/update/validation_ack''"
definition AUTHORIZATION_REQUEST :: string where
  "AUTHORIZATION_REQUEST = AGGREGATION_MESSAGE_PREFIX @ ''/sign/authorization_request''"
definition NONCE_CONTRIBUTION :: string where
  "NONCE_CONTRIBUTION = AGGREGATION_MESSAGE_PREFIX @ ''/sign/nonce_contribution''"
definition AGGREGATED_NONCE :: string where "AGGREGATED_NONCE = AGGREGATION_MESSAGE_PREFIX @ ''/sign/aggregated_nonce''"
definition SIGNATURE_AUTHORIZATION :: string where
  "SIGNATURE_AUTHORIZATION = AGGREGATION_MESSAGE_PREFIX @ ''/sign/signature_authorization''"
definition FALLBACK_AUTHORIZATION_REQUEST :: string where
  "FALLBACK_AUTHORIZATION_REQUEST = AGGREGATION_MESSAGE_PREFIX @ ''/sign/fallback_authorization_request''"
definition FALLBACK_SIGNATURE :: string where
  "FALLBACK_SIGNATURE = AGGREGATION_MESSAGE_PREFIX @ ''/sign/fallback_signature''"

lemmas message_types = COHORT_ADVERT_def COHORT_OPT_IN_def COHORT_OPT_IN_ACCEPT_def COHORT_READY_def
  SUBMIT_UPDATE_def SUBMIT_NONINCLUDED_def DISTRIBUTE_AGGREGATED_DATA_def VALIDATION_ACK_def
  AUTHORIZATION_REQUEST_def NONCE_CONTRIBUTION_def AGGREGATED_NONCE_def SIGNATURE_AUTHORIZATION_def
  FALLBACK_AUTHORIZATION_REQUEST_def FALLBACK_SIGNATURE_def

section \<open>Reading a body\<close>

definition body_str :: "jsval \<Rightarrow> string \<Rightarrow> string option" where
  "body_str body k = (case js_prop_opt body k of JStr s \<Rightarrow> Some s | _ \<Rightarrow> None)"

definition body_bytes :: "jsval \<Rightarrow> string \<Rightarrow> bytes option" where
  "body_bytes body k = (case js_prop_opt body k of JBytes b \<Rightarrow> Some b | _ \<Rightarrow> None)"

definition body_bool :: "jsval \<Rightarrow> string \<Rightarrow> bool option" where
  "body_bool body k = (case js_prop_opt body k of JBool b \<Rightarrow> Some b | _ \<Rightarrow> None)"

definition as_bytes :: "jsval \<Rightarrow> bytes option" where
  "as_bytes v = (case v of JBytes b \<Rightarrow> Some b | _ \<Rightarrow> None)"

definition body_bytesArray :: "jsval \<Rightarrow> string \<Rightarrow> bytes list option" where
  "body_bytesArray body k =
     (case js_prop_opt body k of
        JArr vs \<Rightarrow> if list_all (\<lambda>v. as_bytes v \<noteq> None) vs then Some (map (\<lambda>v. the (as_bytes v)) vs) else None
      | _ \<Rightarrow> None)"

definition opt_val :: "('a \<Rightarrow> jsval) \<Rightarrow> 'a option \<Rightarrow> jsval" where
  "opt_val f x = (case x of None \<Rightarrow> JUndef | Some y \<Rightarrow> f y)"

lemma opt_val_simps [simp]: "opt_val f None = JUndef" "opt_val f (Some y) = f y"
  by (simp_all add: opt_val_def)

lemma body_read [simp]:
  "body_str (JObj kvs) k = (case own kvs k of JStr s \<Rightarrow> Some s | _ \<Rightarrow> None)"
  "body_bytes (JObj kvs) k = (case own kvs k of JBytes b \<Rightarrow> Some b | _ \<Rightarrow> None)"
  "body_bool (JObj kvs) k = (case own kvs k of JBool b \<Rightarrow> Some b | _ \<Rightarrow> None)"
  by (simp_all add: body_str_def body_bytes_def body_bool_def)

lemma body_bytesArray_map [simp]:
  "own kvs k = JArr (map JBytes bs) \<Longrightarrow> body_bytesArray (JObj kvs) k = Some bs"
  by (simp add: body_bytesArray_def list_all_iff as_bytes_def comp_def)

section \<open>\<open>factories.ts\<close>\<close>

definition costValue :: "CohortCost \<Rightarrow> jsval" where
  "costValue c = JObj [(''amount'', cc_amount c), (''unit'', cc_unit c), (''basis'', cc_basis c)]"

definition conditionProps :: "CohortConditions \<Rightarrow> (string \<times> jsval) list" where
  "conditionProps c =
     [(''beaconType'', JStr (co_beaconType c)), (''minParticipants'', co_minParticipants c),
      (''maxParticipants'', co_maxParticipants c), (''minDidsPerParticipant'', co_minDidsPerParticipant c),
      (''maxDidsPerParticipant'', co_maxDidsPerParticipant c),
      (''costOfEnrollment'', opt_val costValue (co_costOfEnrollment c)),
      (''costPerAnnouncement'', opt_val costValue (co_costPerAnnouncement c)),
      (''minSecondsBetweenAnnouncements'', co_minSecondsBetweenAnnouncements c),
      (''maxSecondsBetweenAnnouncements'', co_maxSecondsBetweenAnnouncements c),
      (''pendingUpdateTrigger'', co_pendingUpdateTrigger c), (''fundingModel'', opt_val JStr (co_fundingModel c)),
      (''recoveryKey'', co_recoveryKey c), (''recoverySequence'', co_recoverySequence c),
      (''fallbackThreshold'', co_fallbackThreshold c)]"

definition createCohortAdvertMessage ::
  "string \<Rightarrow> string \<Rightarrow> string \<Rightarrow> bytes \<Rightarrow> CohortConditions \<Rightarrow> BaseMessage" where
  "createCohortAdvertMessage sender cohortId network communicationPk conditions =
     newBaseMessage COHORT_ADVERT JUndef None sender
       (JObj ([(''cohortId'', JStr cohortId), (''network'', JStr network), (''communicationPk'', JBytes communicationPk)]
              @ conditionProps conditions))"

definition createCohortOptInMessage ::
  "string \<Rightarrow> string \<Rightarrow> string \<Rightarrow> bytes \<Rightarrow> bytes \<Rightarrow> jsval \<Rightarrow> BaseMessage" where
  "createCohortOptInMessage sender to cohortId participantPk communicationPk genesisDocument =
     newBaseMessage COHORT_OPT_IN JUndef (Some to) sender
       (JObj ([(''cohortId'', JStr cohortId), (''participantPk'', JBytes participantPk),
               (''communicationPk'', JBytes communicationPk)] @
              (if truthy genesisDocument then [(''genesisDocument'', genesisDocument)] else [])))"

definition createCohortOptInAcceptMessage :: "string \<Rightarrow> string \<Rightarrow> string \<Rightarrow> BaseMessage" where
  "createCohortOptInAcceptMessage sender to cohortId =
     newBaseMessage COHORT_OPT_IN_ACCEPT JUndef (Some to) sender (JObj [(''cohortId'', JStr cohortId)])"

definition createCohortReadyMessage :: "string \<Rightarrow> string \<Rightarrow> string \<Rightarrow> string \<Rightarrow> bytes list \<Rightarrow> BaseMessage" where
  "createCohortReadyMessage sender to cohortId beaconAddress cohortKeys =
     newBaseMessage COHORT_READY JUndef (Some to) sender
       (JObj [(''cohortId'', JStr cohortId), (''beaconAddress'', JStr beaconAddress),
              (''cohortKeys'', JArr (map JBytes cohortKeys))])"

definition createSubmitUpdateMessage :: "string \<Rightarrow> string \<Rightarrow> string \<Rightarrow> jsval \<Rightarrow> BaseMessage" where
  "createSubmitUpdateMessage sender to cohortId signedUpdate =
     newBaseMessage SUBMIT_UPDATE JUndef (Some to) sender
       (JObj [(''cohortId'', JStr cohortId), (''signedUpdate'', signedUpdate)])"

definition createSubmitNonIncludedMessage :: "string \<Rightarrow> string \<Rightarrow> string \<Rightarrow> BaseMessage" where
  "createSubmitNonIncludedMessage sender to cohortId =
     newBaseMessage SUBMIT_NONINCLUDED JUndef (Some to) sender (JObj [(''cohortId'', JStr cohortId)])"

definition createDistributeAggregatedDataMessage ::
  "string \<Rightarrow> string \<Rightarrow> string \<Rightarrow> string \<Rightarrow> string \<Rightarrow> jsval \<Rightarrow> jsval \<Rightarrow> BaseMessage" where
  "createDistributeAggregatedDataMessage sender to cohortId beaconType signalBytesHex casAnnouncement smtProof =
     newBaseMessage DISTRIBUTE_AGGREGATED_DATA JUndef (Some to) sender
       (JObj [(''cohortId'', JStr cohortId), (''beaconType'', JStr beaconType),
              (''signalBytesHex'', JStr signalBytesHex), (''casAnnouncement'', casAnnouncement),
              (''smtProof'', smtProof)])"

definition createValidationAckMessage :: "string \<Rightarrow> string \<Rightarrow> string \<Rightarrow> bool \<Rightarrow> BaseMessage" where
  "createValidationAckMessage sender to cohortId approved =
     newBaseMessage VALIDATION_ACK JUndef (Some to) sender
       (JObj [(''cohortId'', JStr cohortId), (''approved'', JBool approved)])"

definition createAuthorizationRequestMessage ::
  "string \<Rightarrow> string \<Rightarrow> string \<Rightarrow> string \<Rightarrow> string \<Rightarrow> string \<Rightarrow> string \<Rightarrow> BaseMessage" where
  "createAuthorizationRequestMessage sender to cohortId sessionId pendingTx prevOutScriptHex prevOutValue =
     newBaseMessage AUTHORIZATION_REQUEST JUndef (Some to) sender
       (JObj [(''cohortId'', JStr cohortId), (''sessionId'', JStr sessionId), (''pendingTx'', JStr pendingTx),
              (''prevOutScriptHex'', JStr prevOutScriptHex), (''prevOutValue'', JStr prevOutValue)])"

definition createNonceContributionMessage ::
  "string \<Rightarrow> string \<Rightarrow> string \<Rightarrow> string \<Rightarrow> bytes \<Rightarrow> BaseMessage" where
  "createNonceContributionMessage sender to cohortId sessionId nonceContribution =
     newBaseMessage NONCE_CONTRIBUTION JUndef (Some to) sender
       (JObj [(''cohortId'', JStr cohortId), (''sessionId'', JStr sessionId),
              (''nonceContribution'', JBytes nonceContribution)])"

definition createAggregatedNonceMessage ::
  "string \<Rightarrow> string \<Rightarrow> string \<Rightarrow> string \<Rightarrow> bytes \<Rightarrow> BaseMessage" where
  "createAggregatedNonceMessage sender to cohortId sessionId aggregatedNonce =
     newBaseMessage AGGREGATED_NONCE JUndef (Some to) sender
       (JObj [(''cohortId'', JStr cohortId), (''sessionId'', JStr sessionId),
              (''aggregatedNonce'', JBytes aggregatedNonce)])"

definition createSignatureAuthorizationMessage ::
  "string \<Rightarrow> string \<Rightarrow> string \<Rightarrow> string \<Rightarrow> bytes \<Rightarrow> BaseMessage" where
  "createSignatureAuthorizationMessage sender to cohortId sessionId partialSignature =
     newBaseMessage SIGNATURE_AUTHORIZATION JUndef (Some to) sender
       (JObj [(''cohortId'', JStr cohortId), (''sessionId'', JStr sessionId),
              (''partialSignature'', JBytes partialSignature)])"

definition createFallbackAuthorizationRequestMessage ::
  "string \<Rightarrow> string \<Rightarrow> string \<Rightarrow> string \<Rightarrow> string \<Rightarrow> string \<Rightarrow> string \<Rightarrow> string \<Rightarrow> BaseMessage" where
  "createFallbackAuthorizationRequestMessage sender to cohortId sessionId pendingTx prevOutScriptHex
       prevOutValue fallbackLeafScriptHex =
     newBaseMessage FALLBACK_AUTHORIZATION_REQUEST JUndef (Some to) sender
       (JObj [(''cohortId'', JStr cohortId), (''sessionId'', JStr sessionId), (''pendingTx'', JStr pendingTx),
              (''prevOutScriptHex'', JStr prevOutScriptHex), (''prevOutValue'', JStr prevOutValue),
              (''fallbackLeafScriptHex'', JStr fallbackLeafScriptHex)])"

definition createFallbackSignatureMessage ::
  "string \<Rightarrow> string \<Rightarrow> string \<Rightarrow> string \<Rightarrow> bytes \<Rightarrow> bytes \<Rightarrow> BaseMessage" where
  "createFallbackSignatureMessage sender to cohortId sessionId signerPk fallbackSignature =
     newBaseMessage FALLBACK_SIGNATURE JUndef (Some to) sender
       (JObj [(''cohortId'', JStr cohortId), (''sessionId'', JStr sessionId), (''signerPk'', JBytes signerPk),
              (''fallbackSignature'', JBytes fallbackSignature)])"

lemmas factory_defs = createCohortAdvertMessage_def createCohortOptInMessage_def createCohortOptInAcceptMessage_def
  createCohortReadyMessage_def createSubmitUpdateMessage_def createSubmitNonIncludedMessage_def
  createDistributeAggregatedDataMessage_def createValidationAckMessage_def createAuthorizationRequestMessage_def
  createNonceContributionMessage_def createAggregatedNonceMessage_def createSignatureAuthorizationMessage_def
  createFallbackAuthorizationRequestMessage_def createFallbackSignatureMessage_def newBaseMessage_def

section \<open>\<open>guards.ts\<close>\<close>

definition KEYGEN_VALUES :: "string list" where
  "KEYGEN_VALUES = [COHORT_ADVERT, COHORT_OPT_IN, COHORT_OPT_IN_ACCEPT, COHORT_READY]"

definition UPDATE_VALUES :: "string list" where
  "UPDATE_VALUES = [SUBMIT_UPDATE, SUBMIT_NONINCLUDED, DISTRIBUTE_AGGREGATED_DATA, VALIDATION_ACK]"

definition SIGN_VALUES :: "string list" where
  "SIGN_VALUES = [AUTHORIZATION_REQUEST, NONCE_CONTRIBUTION, AGGREGATED_NONCE, SIGNATURE_AUTHORIZATION,
     FALLBACK_AUTHORIZATION_REQUEST, FALLBACK_SIGNATURE]"

definition isKeygenMessageType :: "string \<Rightarrow> bool" where
  "isKeygenMessageType type \<longleftrightarrow> type \<in> set KEYGEN_VALUES"

definition isUpdateMessageType :: "string \<Rightarrow> bool" where
  "isUpdateMessageType type \<longleftrightarrow> type \<in> set UPDATE_VALUES"

definition isSignMessageType :: "string \<Rightarrow> bool" where
  "isSignMessageType type \<longleftrightarrow> type \<in> set SIGN_VALUES"

definition isAggregationMessageType :: "string \<Rightarrow> bool" where
  "isAggregationMessageType type \<longleftrightarrow>
     type \<in> set KEYGEN_VALUES \<or> type \<in> set UPDATE_VALUES \<or> type \<in> set SIGN_VALUES"

section \<open>The guards of \<open>bodies.ts\<close>\<close>

definition hasStr :: "jsval \<Rightarrow> string \<Rightarrow> bool" where
  "hasStr b k \<longleftrightarrow> truthy b \<and> is_string (js_prop_opt b k)"

definition hasIntMin :: "jsval \<Rightarrow> string \<Rightarrow> int \<Rightarrow> bool" where
  "hasIntMin b k mn = (let v = js_prop_opt b k in is_int v \<and> mn \<le> int_of v)"

definition optIntMin :: "jsval \<Rightarrow> string \<Rightarrow> int \<Rightarrow> bool" where
  "optIntMin b k mn = (let v = js_prop_opt b k in v = JUndef \<or> is_int v \<and> mn \<le> int_of v)"

definition intInRange :: "jsval \<Rightarrow> string \<Rightarrow> int \<Rightarrow> int \<Rightarrow> bool" where
  "intInRange b k mn mx = (let v = js_prop_opt b k in is_int v \<and> mn \<le> int_of v \<and> int_of v \<le> mx)"

definition optStrOneOf :: "jsval \<Rightarrow> string \<Rightarrow> string list \<Rightarrow> bool" where
  "optStrOneOf b k allowed = (let v = js_prop_opt b k in v = JUndef \<or> v \<in> set (map JStr allowed))"

definition hasBool :: "jsval \<Rightarrow> string \<Rightarrow> bool" where
  "hasBool b k \<longleftrightarrow> truthy b \<and> (case js_prop_opt b k of JBool _ \<Rightarrow> True | _ \<Rightarrow> False)"

definition hasBytes :: "jsval \<Rightarrow> string \<Rightarrow> bool" where
  "hasBytes b k \<longleftrightarrow> truthy b \<and> as_bytes (js_prop_opt b k) \<noteq> None"

definition hasBytesArray :: "jsval \<Rightarrow> string \<Rightarrow> bool" where
  "hasBytesArray b k = (case js_prop_opt b k of JArr vs \<Rightarrow> list_all (\<lambda>v. as_bytes v \<noteq> None) vs | _ \<Rightarrow> False)"

definition isCohortAdvertMessage :: "BaseMessage \<Rightarrow> bool" where
  "isCohortAdvertMessage m \<longleftrightarrow>
     m_type m = COHORT_ADVERT \<and> hasStr (m_body m) ''cohortId'' \<and>
     hasIntMin (m_body m) ''minParticipants'' 1 \<and> optIntMin (m_body m) ''maxParticipants'' 1 \<and>
     hasStr (m_body m) ''beaconType'' \<and> hasStr (m_body m) ''network'' \<and> hasStr (m_body m) ''recoveryKey'' \<and>
     intInRange (m_body m) ''recoverySequence'' 1 MAX_RECOVERY_SEQUENCE \<and>
     optStrOneOf (m_body m) ''fundingModel'' KNOWN_FUNDING_MODELS \<and>
     optIntMin (m_body m) ''fallbackThreshold'' 1 \<and> hasBytes (m_body m) ''communicationPk''"

definition isCohortOptInMessage :: "BaseMessage \<Rightarrow> bool" where
  "isCohortOptInMessage m \<longleftrightarrow>
     m_type m = COHORT_OPT_IN \<and> hasStr (m_body m) ''cohortId'' \<and> hasBytes (m_body m) ''participantPk'' \<and>
     hasBytes (m_body m) ''communicationPk''"

definition isCohortOptInAcceptMessage :: "BaseMessage \<Rightarrow> bool" where
  "isCohortOptInAcceptMessage m \<longleftrightarrow> m_type m = COHORT_OPT_IN_ACCEPT \<and> hasStr (m_body m) ''cohortId''"

definition isCohortReadyMessage :: "BaseMessage \<Rightarrow> bool" where
  "isCohortReadyMessage m \<longleftrightarrow>
     m_type m = COHORT_READY \<and> hasStr (m_body m) ''cohortId'' \<and> hasStr (m_body m) ''beaconAddress'' \<and>
     hasBytesArray (m_body m) ''cohortKeys''"

definition isSubmitUpdateMessage :: "BaseMessage \<Rightarrow> bool" where
  "isSubmitUpdateMessage m \<longleftrightarrow>
     m_type m = SUBMIT_UPDATE \<and> hasStr (m_body m) ''cohortId'' \<and> truthy (m_body m) \<and>
     typeof_object (js_prop_opt (m_body m) ''signedUpdate'')"

definition isSubmitNonIncludedMessage :: "BaseMessage \<Rightarrow> bool" where
  "isSubmitNonIncludedMessage m \<longleftrightarrow> m_type m = SUBMIT_NONINCLUDED \<and> hasStr (m_body m) ''cohortId''"

definition isDistributeAggregatedDataMessage :: "BaseMessage \<Rightarrow> bool" where
  "isDistributeAggregatedDataMessage m \<longleftrightarrow>
     m_type m = DISTRIBUTE_AGGREGATED_DATA \<and> hasStr (m_body m) ''cohortId'' \<and>
     hasStr (m_body m) ''beaconType'' \<and> hasStr (m_body m) ''signalBytesHex''"

definition isValidationAckMessage :: "BaseMessage \<Rightarrow> bool" where
  "isValidationAckMessage m \<longleftrightarrow>
     m_type m = VALIDATION_ACK \<and> hasStr (m_body m) ''cohortId'' \<and> hasBool (m_body m) ''approved''"

definition isAuthorizationRequestMessage :: "BaseMessage \<Rightarrow> bool" where
  "isAuthorizationRequestMessage m \<longleftrightarrow>
     m_type m = AUTHORIZATION_REQUEST \<and> hasStr (m_body m) ''cohortId'' \<and> hasStr (m_body m) ''sessionId'' \<and>
     hasStr (m_body m) ''pendingTx'' \<and> hasStr (m_body m) ''prevOutScriptHex'' \<and> hasStr (m_body m) ''prevOutValue''"

definition isNonceContributionMessage :: "BaseMessage \<Rightarrow> bool" where
  "isNonceContributionMessage m \<longleftrightarrow>
     m_type m = NONCE_CONTRIBUTION \<and> hasStr (m_body m) ''cohortId'' \<and> hasStr (m_body m) ''sessionId'' \<and>
     hasBytes (m_body m) ''nonceContribution''"

definition isAggregatedNonceMessage :: "BaseMessage \<Rightarrow> bool" where
  "isAggregatedNonceMessage m \<longleftrightarrow>
     m_type m = AGGREGATED_NONCE \<and> hasStr (m_body m) ''cohortId'' \<and> hasStr (m_body m) ''sessionId'' \<and>
     hasBytes (m_body m) ''aggregatedNonce''"

definition isSignatureAuthorizationMessage :: "BaseMessage \<Rightarrow> bool" where
  "isSignatureAuthorizationMessage m \<longleftrightarrow>
     m_type m = SIGNATURE_AUTHORIZATION \<and> hasStr (m_body m) ''cohortId'' \<and> hasStr (m_body m) ''sessionId'' \<and>
     hasBytes (m_body m) ''partialSignature''"

definition isFallbackAuthorizationRequestMessage :: "BaseMessage \<Rightarrow> bool" where
  "isFallbackAuthorizationRequestMessage m \<longleftrightarrow>
     m_type m = FALLBACK_AUTHORIZATION_REQUEST \<and> hasStr (m_body m) ''cohortId'' \<and>
     hasStr (m_body m) ''sessionId'' \<and> hasStr (m_body m) ''pendingTx'' \<and>
     hasStr (m_body m) ''prevOutScriptHex'' \<and> hasStr (m_body m) ''prevOutValue'' \<and>
     hasStr (m_body m) ''fallbackLeafScriptHex''"

definition isFallbackSignatureMessage :: "BaseMessage \<Rightarrow> bool" where
  "isFallbackSignatureMessage m \<longleftrightarrow>
     m_type m = FALLBACK_SIGNATURE \<and> hasStr (m_body m) ''cohortId'' \<and> hasStr (m_body m) ''sessionId'' \<and>
     hasBytes (m_body m) ''signerPk'' \<and> hasBytes (m_body m) ''fallbackSignature''"

lemmas guard_defs = hasStr_def hasIntMin_def optIntMin_def intInRange_def optStrOneOf_def hasBool_def
  hasBytes_def hasBytesArray_def as_bytes_def isCohortAdvertMessage_def isCohortOptInMessage_def
  isCohortOptInAcceptMessage_def isCohortReadyMessage_def isSubmitUpdateMessage_def isSubmitNonIncludedMessage_def
  isDistributeAggregatedDataMessage_def isValidationAckMessage_def isAuthorizationRequestMessage_def
  isNonceContributionMessage_def isAggregatedNonceMessage_def isSignatureAuthorizationMessage_def
  isFallbackAuthorizationRequestMessage_def isFallbackSignatureMessage_def

text \<open>The advert of valid conditions, made by the service, passes the guard of the participant.\<close>

lemma advert_accepted:
  assumes "validateCohortConditions c = []"
  shows "isCohortAdvertMessage (createCohortAdvertMessage sender cohortId network pk c)"
proof -
  note v = validate_bounds [OF assms]
  have "is_string (co_recoveryKey c)" using v(7) by (cases "co_recoveryKey c") (simp_all add: is_hex64_def)
  moreover have "co_maxParticipants c = JUndef \<or> is_int (co_maxParticipants c) \<and> 1 \<le> int_of (co_maxParticipants c)"
    using v(3,4) by (auto simp: opt_int_ge_def)
  moreover have "opt_val JStr (co_fundingModel c) = JUndef \<or>
      opt_val JStr (co_fundingModel c) \<in> set (map JStr KNOWN_FUNDING_MODELS)"
    using v(11) by (cases "co_fundingModel c") auto
  ultimately show ?thesis
    using v(2,3,5,8,9,10)
    by (simp add: guard_defs createCohortAdvertMessage_def newBaseMessage_def conditionProps_def opt_int_ge_def Let_def)
qed

end
