(* ===== verification/AggCohort.thy ===== *)
theory AggCohort
  imports AggRecovery
begin

text \<open>
  The state of a cohort: the class \<open>AggregationCohort\<close> of
  \<open>packages/aggregation/src/core/cohort.ts\<close>. A method returns the new cohort and its result; what
  it assigned before a \<open>throw\<close> stays assigned. Random values (the identifier, the leaf nonces) are
  arguments.
\<close>

record AggregationCohort =
  ch_id :: string
  ch_serviceDid :: string
  ch_minParticipants :: jsval
  ch_network :: string
  ch_beaconType :: string
  ch_participants :: "string list"
  ch_participantKeys :: "(string, bytes) jsmap"
  ch_cohortKeys :: "bytes list"
  ch_tapTweak :: bytes
  ch_internalKey :: bytes
  ch_tapMerkleRoot :: bytes
  ch_recoveryKey :: "bytes option"
  ch_recoverySequence :: jsval
  ch_fundingModel :: string
  ch_fallbackThreshold :: jsval
  ch_beaconAddress :: string
  ch_pendingUpdates :: "(string, jsval) jsmap"
  ch_nonIncluded :: "string list"
  ch_casAnnouncement :: "jsval option"
  ch_smtProofs :: "(string, SerializedSMTProof) jsmap option"
  ch_signalBytes :: "bytes option"
  ch_validationAcks :: "string list"
  ch_validationRejections :: "string list"

record AggregationCohortParams =
  cp_id :: "string option"
  cp_serviceDid :: "string option"
  cp_minParticipants :: jsval
  cp_network :: string
  cp_beaconType :: "string option"
  cp_recoveryKey :: "bytes option"
  cp_recoverySequence :: jsval
  cp_fundingModel :: "string option"
  cp_fallbackThreshold :: jsval

definition newCohort :: "string \<Rightarrow> AggregationCohortParams \<Rightarrow> AggregationCohort" where
  "newCohort uuid p =
     \<lparr>ch_id = (if truthy_str (cp_id p) then the (cp_id p) else uuid),
      ch_serviceDid = (if truthy_str (cp_serviceDid p) then the (cp_serviceDid p) else []),
      ch_minParticipants = (if cp_minParticipants p = JUndef \<or> cp_minParticipants p = JNull then JInt 2
                            else cp_minParticipants p),
      ch_network = cp_network p,
      ch_beaconType = (if truthy_str (cp_beaconType p) then the (cp_beaconType p) else ''CASBeacon''),
      ch_participants = [], ch_participantKeys = [], ch_cohortKeys = [], ch_tapTweak = [],
      ch_internalKey = [], ch_tapMerkleRoot = [], ch_recoveryKey = cp_recoveryKey p,
      ch_recoverySequence = cp_recoverySequence p,
      ch_fundingModel = (case cp_fundingModel p of None \<Rightarrow> DEFAULT_FUNDING_MODEL | Some m \<Rightarrow> m),
      ch_fallbackThreshold = cp_fallbackThreshold p, ch_beaconAddress = [], ch_pendingUpdates = [],
      ch_nonIncluded = [], ch_casAnnouncement = None, ch_smtProofs = None, ch_signalBytes = None,
      ch_validationAcks = [], ch_validationRejections = []\<rparr>"

section \<open>Keys and address\<close>

definition setCohortKeys ::
  "('tx, 'x) agg_lib_scheme \<Rightarrow> bytes list \<Rightarrow> AggregationCohort \<Rightarrow> AggregationCohort \<times> unit result" where
  "setCohortKeys L keys ch =
     (case musig_sort_keys L keys of
        None \<Rightarrow> (ch, lib_error)
      | Some sortedKeys \<Rightarrow> (ch\<lparr>ch_cohortKeys := sortedKeys\<rparr>, Inr ()))"

definition effectiveFallbackThreshold :: "AggregationCohort \<Rightarrow> jsval" where
  "effectiveFallbackThreshold ch =
     (if ch_cohortKeys ch = [] then JInt 0
      else resolveFallbackThreshold (ch_fallbackThreshold ch) (length (ch_cohortKeys ch)))"

text \<open>What \<open>computeBeaconAddress\<close> computes before it assigns a field.\<close>

definition cohortPayment :: "('tx, 'x) agg_lib_scheme \<Rightarrow> AggregationCohort \<Rightarrow> (bytes \<times> TaprootPayment) result" where
  "cohortPayment L ch =
     (if ch_cohortKeys ch = [] then cohort_error ''NO_COHORT_KEYS''
      else case ch_recoveryKey ch of
        None \<Rightarrow> cohort_error ''NO_RECOVERY_PARAMS''
      | Some recoveryKey \<Rightarrow>
          if recoveryKey = [] \<or> ch_recoverySequence ch = JUndef then cohort_error ''NO_RECOVERY_PARAMS''
          else rbind (of_option (musig_key_agg L (ch_cohortKeys ch))) (\<lambda>aggPubkey.
               rbind (buildRecoveryLeaves L (ch_fundingModel ch)
                        \<lparr>lp_recoveryKey = recoveryKey, lp_recoverySequence = ch_recoverySequence ch,
                         lp_cohortKeys = ch_cohortKeys ch,
                         lp_fallbackThreshold = resolveFallbackThreshold (ch_fallbackThreshold ch)
                                                  (length (ch_cohortKeys ch))\<rparr>) (\<lambda>leaves.
               rbind (beaconPayment L aggPubkey leaves (ch_network ch)) (\<lambda>payment.
                 Inr (aggPubkey, payment)))))"

definition computeBeaconAddress ::
  "('tx, 'x) agg_lib_scheme \<Rightarrow> AggregationCohort \<Rightarrow> AggregationCohort \<times> string result" where
  "computeBeaconAddress L ch =
     (case cohortPayment L ch of
        Inl e \<Rightarrow> (ch, Inl e)
      | Inr (aggPubkey, payment) \<Rightarrow>
          let ch = ch\<lparr>ch_internalKey := aggPubkey, ch_tapMerkleRoot := tp_tapMerkleRoot payment,
                     ch_tapTweak := tagged_hash L ''TapTweak'' (aggPubkey @ tp_tapMerkleRoot payment)\<rparr>
          in if \<not> truthy_str (tp_address payment) then (ch, cohort_error ''BEACON_ADDRESS_ERROR'')
             else (ch\<lparr>ch_beaconAddress := the (tp_address payment)\<rparr>, Inr (the (tp_address payment))))"

definition validateMembership ::
  "('tx, 'x) agg_lib_scheme \<Rightarrow> string \<Rightarrow> string list \<Rightarrow> string \<Rightarrow> AggregationCohort
     \<Rightarrow> AggregationCohort \<times> unit result" where
  "validateMembership L participantPkHex cohortKeysHex expectedBeaconAddress ch =
     (if participantPkHex \<notin> set cohortKeysHex then (ch, cohort_error ''COHORT_VALIDATION_ERROR'')
      else case mapR (\<lambda>k. of_option (hex_decode L k)) cohortKeysHex of
        Inl e \<Rightarrow> (ch, Inl e)
      | Inr keys \<Rightarrow>
         (case setCohortKeys L keys ch of
            (ch, Inl e) \<Rightarrow> (ch, Inl e)
          | (ch, Inr _) \<Rightarrow>
             (case computeBeaconAddress L ch of
                (ch, Inl e) \<Rightarrow> (ch, Inl e)
              | (ch, Inr computed) \<Rightarrow>
                  if computed \<noteq> expectedBeaconAddress then (ch, cohort_error ''BEACON_ADDRESS_MISMATCH'')
                  else (ch, Inr ()))))"

text \<open>The index of a key, or \<open>-1\<close> (\<open>None\<close>).\<close>

definition indexOfParticipant :: "AggregationCohort \<Rightarrow> string \<Rightarrow> nat option" where
  "indexOfParticipant ch did =
     (case jm_get (ch_participantKeys ch) did of
        None \<Rightarrow> None
      | Some pk \<Rightarrow> list_index (ch_cohortKeys ch) pk)"

section \<open>Updates\<close>

definition addUpdate :: "string \<Rightarrow> jsval \<Rightarrow> AggregationCohort \<Rightarrow> AggregationCohort \<times> unit result" where
  "addUpdate participantDid signedUpdate ch =
     (if participantDid \<notin> set (ch_participants ch) then (ch, cohort_error ''UNKNOWN_PARTICIPANT'')
      else (ch\<lparr>ch_pendingUpdates := jm_set participantDid signedUpdate (ch_pendingUpdates ch)\<rparr>, Inr ()))"

definition addNonInclusion :: "string \<Rightarrow> AggregationCohort \<Rightarrow> AggregationCohort \<times> unit result" where
  "addNonInclusion participantDid ch =
     (if participantDid \<notin> set (ch_participants ch) then (ch, cohort_error ''UNKNOWN_PARTICIPANT'')
      else if jm_has (ch_pendingUpdates ch) participantDid then (ch, cohort_error ''CONFLICTING_RESPONSE'')
      else (ch\<lparr>ch_nonIncluded := js_add participantDid (ch_nonIncluded ch)\<rparr>, Inr ()))"

definition hasAllUpdates :: "AggregationCohort \<Rightarrow> bool" where
  "hasAllUpdates ch \<longleftrightarrow> length (ch_pendingUpdates ch) = length (ch_participants ch)"

definition hasAllResponses :: "AggregationCohort \<Rightarrow> bool" where
  "hasAllResponses ch \<longleftrightarrow>
     length (ch_pendingUpdates ch) + length (ch_nonIncluded ch) = length (ch_participants ch)"

section \<open>Aggregation\<close>

definition announcementEntry :: "'x method_lib_scheme \<Rightarrow> string \<times> jsval \<Rightarrow> (string \<times> jsval) result" where
  "announcementEntry L = (\<lambda>(did, signedUpdate).
     rbind (canonicalHash L ''base64urlnopad'' signedUpdate) (\<lambda>h. Inr (did, JStr h)))"

definition buildCASAnnouncement ::
  "'x method_lib_scheme \<Rightarrow> AggregationCohort \<Rightarrow> AggregationCohort \<times> jsval result" where
  "buildCASAnnouncement L ch =
     (if \<not> hasAllResponses ch then (ch, cohort_error ''INCOMPLETE_RESPONSES'')
      else case mapR (announcementEntry L) (ch_pendingUpdates ch) of
        Inl e \<Rightarrow> (ch, Inl e)
      | Inr kvs \<Rightarrow>
          let announcement = JObj kvs; ch = ch\<lparr>ch_casAnnouncement := Some announcement\<rparr>
          in (case canonicalize L announcement of
                Inl e \<Rightarrow> (ch, Inl e)
              | Inr c \<Rightarrow> (ch\<lparr>ch_signalBytes := Some (hash_of L c)\<rparr>, Inr announcement)))"

text \<open>The entry of one participant: an inclusion leaf for a submitter, a non-inclusion leaf for a
  decliner.\<close>

definition cohortEntry ::
  "'x method_lib_scheme \<Rightarrow> (nat \<Rightarrow> bytes) \<Rightarrow> AggregationCohort \<Rightarrow> nat \<times> string \<Rightarrow> TreeEntry result" where
  "cohortEntry L nonce ch = (\<lambda>(i, did).
     case jm_get (ch_pendingUpdates ch) did of
       None \<Rightarrow> Inr \<lparr>te_did = did, te_nonce = nonce i, te_signedUpdate = None\<rparr>
     | Some signedUpdate \<Rightarrow>
         rbind (canonicalize L signedUpdate) (\<lambda>c.
           Inr \<lparr>te_did = did, te_nonce = nonce i, te_signedUpdate = Some (utf8 c)\<rparr>))"

fun proofsLoop ::
  "'x method_lib_scheme \<Rightarrow> BTCR2MerkleTree \<Rightarrow> string list \<Rightarrow> (string, SerializedSMTProof) jsmap
     \<Rightarrow> (string, SerializedSMTProof) jsmap \<times> unit result" where
  "proofsLoop L tree [] proofs = (proofs, Inr ())"
| "proofsLoop L tree (did # dids) proofs =
     (case treeProof L did tree of
        Inl e \<Rightarrow> (proofs, Inl e)
      | Inr p \<Rightarrow> proofsLoop L tree dids (jm_set did p proofs))"

definition buildSMTTree ::
  "'x method_lib_scheme \<Rightarrow> (nat \<Rightarrow> bytes) \<Rightarrow> AggregationCohort
     \<Rightarrow> AggregationCohort \<times> (string, SerializedSMTProof) jsmap result" where
  "buildSMTTree L nonce ch =
     (if \<not> hasAllResponses ch then (ch, cohort_error ''INCOMPLETE_RESPONSES'')
      else case mapR (cohortEntry L nonce ch) (enumerate 0 (ch_participants ch)) of
        Inl e \<Rightarrow> (ch, Inl e)
      | Inr entries \<Rightarrow>
         (case addEntries L entries newMerkleTree of
            (_, Inl e) \<Rightarrow> (ch, Inl e)
          | (tree, Inr _) \<Rightarrow>
              let tree = finalizeTree L tree
              in (case rootHash tree of
                    Inl e \<Rightarrow> (ch, Inl e)
                  | Inr root \<Rightarrow>
                      let (proofs, r) = proofsLoop L tree (ch_participants ch) [];
                          ch = ch\<lparr>ch_signalBytes := Some root, ch_smtProofs := Some proofs\<rparr>
                      in (ch, rbind r (\<lambda>_. Inr proofs)))))"

section \<open>Validation\<close>

definition addValidation :: "string \<Rightarrow> bool \<Rightarrow> AggregationCohort \<Rightarrow> AggregationCohort \<times> unit result" where
  "addValidation participantDid approved ch =
     (if participantDid \<notin> set (ch_participants ch) then (ch, cohort_error ''UNKNOWN_PARTICIPANT'')
      else if approved
      then (ch\<lparr>ch_validationAcks := js_add participantDid (ch_validationAcks ch)\<rparr>, Inr ())
      else (ch\<lparr>ch_validationRejections := js_add participantDid (ch_validationRejections ch)\<rparr>, Inr ()))"

definition hasAllValidationResponses :: "AggregationCohort \<Rightarrow> bool" where
  "hasAllValidationResponses ch \<longleftrightarrow>
     length (ch_validationAcks ch) + length (ch_validationRejections ch) = length (ch_participants ch)"

definition isFullyValidated :: "AggregationCohort \<Rightarrow> bool" where
  "isFullyValidated ch \<longleftrightarrow>
     ch_validationRejections ch = [] \<and> length (ch_validationAcks ch) = length (ch_participants ch)"

section \<open>The invariant\<close>

text \<open>Every collection is about members and without repetition; nobody both submits and declines.\<close>

definition cohort_inv :: "AggregationCohort \<Rightarrow> bool" where
  "cohort_inv ch \<longleftrightarrow>
     distinct (ch_participants ch) \<and>
     distinct (map fst (ch_participantKeys ch)) \<and> fst ` set (ch_participantKeys ch) = set (ch_participants ch) \<and>
     distinct (map fst (ch_pendingUpdates ch)) \<and> fst ` set (ch_pendingUpdates ch) \<subseteq> set (ch_participants ch) \<and>
     distinct (ch_nonIncluded ch) \<and> set (ch_nonIncluded ch) \<subseteq> set (ch_participants ch) \<and>
     fst ` set (ch_pendingUpdates ch) \<inter> set (ch_nonIncluded ch) = {} \<and>
     distinct (ch_validationAcks ch) \<and> set (ch_validationAcks ch) \<subseteq> set (ch_participants ch) \<and>
     distinct (ch_validationRejections ch) \<and> set (ch_validationRejections ch) \<subseteq> set (ch_participants ch)"

lemma cohort_inv_new [intro, simp]: "cohort_inv (newCohort uuid p)"
  by (simp add: cohort_inv_def newCohort_def)

lemma cohort_inv_addNonInclusion [intro]: "cohort_inv ch \<Longrightarrow> cohort_inv (fst (addNonInclusion did ch))"
  by (auto simp: cohort_inv_def addNonInclusion_def jm_has_iff)

lemma cohort_inv_addValidation [intro]: "cohort_inv ch \<Longrightarrow> cohort_inv (fst (addValidation did ok ch))"
  by (auto simp: cohort_inv_def addValidation_def)

text \<open>\<open>addUpdate\<close> does not look at the decliners; its caller does.\<close>

lemma cohort_inv_addUpdate [intro]:
  "cohort_inv ch \<Longrightarrow> did \<notin> set (ch_nonIncluded ch) \<Longrightarrow> cohort_inv (fst (addUpdate did u ch))"
  by (auto simp: cohort_inv_def addUpdate_def)

text \<open>All have responded: everybody submitted or declined.\<close>

lemma all_responded:
  assumes "cohort_inv ch" "hasAllResponses ch"
  shows "fst ` set (ch_pendingUpdates ch) \<union> set (ch_nonIncluded ch) = set (ch_participants ch)"
proof -
  let ?xs = "map fst (ch_pendingUpdates ch) @ ch_nonIncluded ch"
  have "distinct ?xs" "set ?xs \<subseteq> set (ch_participants ch)" "length ?xs = length (ch_participants ch)"
    using assms by (auto simp: cohort_inv_def hasAllResponses_def)
  then have "set ?xs = set (ch_participants ch)"
    using distinct_subset_eq_length [of ?xs "ch_participants ch"] assms(1) by (simp add: cohort_inv_def)
  then show ?thesis by simp
qed

lemma fully_validated:
  assumes "cohort_inv ch" "isFullyValidated ch"
  shows "set (ch_validationAcks ch) = set (ch_participants ch)"
  using assms by (intro distinct_subset_eq_length) (auto simp: cohort_inv_def isFullyValidated_def)

end
