(* ===== verification/AggStrategy.thy ===== *)
theory AggStrategy
  imports AggCohort
begin

text \<open>
  The aggregate beacon strategies: \<open>packages/aggregation/src/core/beacon-strategy.ts\<close>. A strategy
  builds the aggregated data of a cohort, gives each participant its part, and lets the participant
  check it. The locale \<open>beacon_strategy\<close> states the agreement of the three functions, and is
  interpreted on the strategies for the two kinds of aggregate beacon.
\<close>

section \<open>Strategies\<close>

record BeaconValidationResult =
  bv_matches :: bool
  bv_casAnnouncement :: jsval
  bv_smtProof :: jsval

record BeaconDistributePayload =
  dp_casAnnouncement :: jsval
  dp_smtProof :: jsval

record ParticipantView =
  pv_participantDid :: string
  pv_included :: bool
  pv_submittedUpdate :: jsval
  pv_expectedHash :: "string option"
  pv_body :: jsval

record AggregateBeaconStrategy =
  st_type :: string
  st_buildAggregatedData :: "(nat \<Rightarrow> bytes) \<Rightarrow> AggregationCohort \<Rightarrow> AggregationCohort \<times> unit result"
  st_getDistributePayload :: "AggregationCohort \<Rightarrow> string \<Rightarrow> BeaconDistributePayload"
  st_validateParticipantView :: "ParticipantView \<Rightarrow> BeaconValidationResult result"

definition validation_result :: "bool \<Rightarrow> jsval \<Rightarrow> jsval \<Rightarrow> BeaconValidationResult" where
  "validation_result matches cas smt = \<lparr>bv_matches = matches, bv_casAnnouncement = cas, bv_smtProof = smt\<rparr>"

lemma validation_result_simps [simp]:
  "bv_matches (validation_result m c s) = m" "bv_casAnnouncement (validation_result m c s) = c"
  "bv_smtProof (validation_result m c s) = s"
  by (simp_all add: validation_result_def)

text \<open>\<open>k in v\<close>: an object also has the properties every object inherits.\<close>

definition js_in :: "string \<Rightarrow> jsval \<Rightarrow> bool result" where
  "js_in k v = (case v of
      JObj kvs \<Rightarrow> Inr (map_of kvs k \<noteq> None \<or> k \<in> set objectPrototypeKeys)
    | JArr _ \<Rightarrow> Inr (k \<in> set objectPrototypeKeys)
    | JBytes _ \<Rightarrow> Inr (k \<in> set objectPrototypeKeys)
    | _ \<Rightarrow> type_error)"

definition casValidateView :: "ParticipantView \<Rightarrow> BeaconValidationResult result" where
  "casValidateView view =
     (let casAnnouncement = js_prop_opt (pv_body view) ''casAnnouncement''
      in if \<not> truthy casAnnouncement then Inr (validation_result False JUndef JUndef)
         else if \<not> pv_included view then
           rbind (js_in (pv_participantDid view) casAnnouncement) (\<lambda>present.
             Inr (validation_result (\<not> present) casAnnouncement JUndef))
         else Inr (validation_result
                (js_prop_opt casAnnouncement (pv_participantDid view) = (case pv_expectedHash view of None \<Rightarrow> JUndef | Some h \<Rightarrow> JStr h))
                casAnnouncement JUndef))"

definition CAS_STRATEGY :: "'x method_lib_scheme \<Rightarrow> AggregateBeaconStrategy" where
  "CAS_STRATEGY L =
     \<lparr>st_type = ''CASBeacon'',
      st_buildAggregatedData = (\<lambda>_ ch. let (ch, r) = buildCASAnnouncement L ch in (ch, rbind r (\<lambda>_. Inr ()))),
      st_getDistributePayload = (\<lambda>ch _. \<lparr>dp_casAnnouncement = (case ch_casAnnouncement ch of None \<Rightarrow> JUndef | Some a \<Rightarrow> a),
                                         dp_smtProof = JUndef\<rparr>),
      st_validateParticipantView = casValidateView\<rparr>"

text \<open>A serialized proof as the object it is; absent fields are absent.\<close>

definition proofValue :: "SerializedSMTProof \<Rightarrow> jsval" where
  "proofValue p = JObj
     ([(''id'', JStr (sp_id p))] @
      (case sp_nonce p of None \<Rightarrow> [] | Some n \<Rightarrow> [(''nonce'', JStr n)]) @
      (case sp_updateId p of None \<Rightarrow> [] | Some u \<Rightarrow> [(''updateId'', JStr u)]) @
      [(''collapsed'', JStr (sp_collapsed p)), (''hashes'', JArr (map JStr (sp_hashes p)))])"

definition hash_of_value :: "'x hash_lib_scheme \<Rightarrow> jsval \<Rightarrow> bytes result" where
  "hash_of_value L v = (case v of JStr s \<Rightarrow> base64UrlToHash L s | _ \<Rightarrow> lib_error)"

definition smtValidateView :: "'x method_lib_scheme \<Rightarrow> ParticipantView \<Rightarrow> BeaconValidationResult result" where
  "smtValidateView L view =
     (let smtProof = js_prop_opt (pv_body view) ''smtProof'';
          nonce = js_prop_opt smtProof ''nonce''; updateId = js_prop_opt smtProof ''updateId'';
          verify = (\<lambda>index candidateHash. rbind (smtProofOf smtProof) (\<lambda>p.
             rbind (verifySerializedProof L p index candidateHash) (\<lambda>ok.
               Inr (validation_result ok JUndef smtProof))))
      in rbind (didToIndex L (pv_participantDid view)) (\<lambda>index.
         if \<not> pv_included view then
           if \<not> truthy nonce \<or> truthy updateId then Inr (validation_result False JUndef smtProof)
           else rbind (hash_of_value L nonce) (\<lambda>nonceHash.
                verify index (blockHash L [blockHash L [nonceHash]]))
         else if \<not> truthy updateId \<or> \<not> truthy nonce \<or> \<not> truthy (pv_submittedUpdate view)
         then Inr (validation_result False JUndef smtProof)
         else rbind (canonicalize L (pv_submittedUpdate view)) (\<lambda>c.
              rbind (hashToBase64Url L (blockHash L [utf8 c])) (\<lambda>expectedUpdateId.
              if updateId \<noteq> JStr expectedUpdateId then Inr (validation_result False JUndef smtProof)
              else rbind (hash_of_value L nonce) (\<lambda>nonceHash.
                   rbind (hash_of_value L updateId) (\<lambda>updateHash.
                     verify index (blockHash L [blockHash L [nonceHash], updateHash])))))))"

definition SMT_STRATEGY :: "'x method_lib_scheme \<Rightarrow> AggregateBeaconStrategy" where
  "SMT_STRATEGY L =
     \<lparr>st_type = ''SMTBeacon'',
      st_buildAggregatedData = (\<lambda>nonce ch. let (ch, r) = buildSMTTree L nonce ch in (ch, rbind r (\<lambda>_. Inr ()))),
      st_getDistributePayload = (\<lambda>ch did. \<lparr>dp_casAnnouncement = JUndef,
         dp_smtProof = (case ch_smtProofs ch of None \<Rightarrow> JUndef
                        | Some ps \<Rightarrow> (case jm_get ps did of None \<Rightarrow> JUndef | Some p \<Rightarrow> proofValue p))\<rparr>),
      st_validateParticipantView = smtValidateView L\<rparr>"

definition STRATEGIES :: "'x method_lib_scheme \<Rightarrow> (string, AggregateBeaconStrategy) jsmap" where
  "STRATEGIES L = [(''CASBeacon'', CAS_STRATEGY L), (''SMTBeacon'', SMT_STRATEGY L)]"

definition registerBeaconStrategy ::
  "AggregateBeaconStrategy \<Rightarrow> (string, AggregateBeaconStrategy) jsmap \<Rightarrow> (string, AggregateBeaconStrategy) jsmap" where
  "registerBeaconStrategy strategy reg = jm_set (st_type strategy) strategy reg"

definition getBeaconStrategy :: "(string, AggregateBeaconStrategy) jsmap \<Rightarrow> string \<Rightarrow> AggregateBeaconStrategy option" where
  "getBeaconStrategy reg type = jm_get reg type"

lemma strategies_get:
  "getBeaconStrategy (STRATEGIES L) t = (if t = ''CASBeacon'' then Some (CAS_STRATEGY L)
     else if t = ''SMTBeacon'' then Some (SMT_STRATEGY L) else None)"
  by (auto simp: getBeaconStrategy_def STRATEGIES_def)

section \<open>The contract\<close>

text \<open>What an honest participant looks at: its own part of the data, and its own update if it has
  submitted one.\<close>

definition honest_view :: "'x method_lib_scheme \<Rightarrow> AggregateBeaconStrategy \<Rightarrow> AggregationCohort \<Rightarrow> string \<Rightarrow> jsval \<Rightarrow> ParticipantView" where
  "honest_view L s ch did body =
     \<lparr>pv_participantDid = did, pv_included = jm_has (ch_pendingUpdates ch) did,
      pv_submittedUpdate = (case jm_get (ch_pendingUpdates ch) did of None \<Rightarrow> JUndef | Some u \<Rightarrow> u),
      pv_expectedHash = (case jm_get (ch_pendingUpdates ch) did of None \<Rightarrow> None
                         | Some u \<Rightarrow> Some (base64url_encode L (canon_hash L u))),
      pv_body = body\<rparr>"

text \<open>The cohort as it is when the data is built: the invariant, responses that are JSON objects, no
  participant named as a property that every object has, and leaf nonces of 32 bytes.\<close>

definition ready_cohort :: "(nat \<Rightarrow> bytes) \<Rightarrow> AggregationCohort \<Rightarrow> bool" where
  "ready_cohort nonce ch \<longleftrightarrow>
     cohort_inv ch \<and> (\<forall>(d, u) \<in> set (ch_pendingUpdates ch). truthy u) \<and>
     set (ch_participants ch) \<inter> set objectPrototypeKeys = {} \<and> (\<forall>i. length (nonce i) = 32)"

locale beacon_strategy =
  fixes L :: "'x method_lib_scheme" and strategy :: AggregateBeaconStrategy
  assumes build_frame: "st_buildAggregatedData strategy nonce ch = (ch', r) \<Longrightarrow>
      \<exists>cas smt sig. ch' = ch\<lparr>ch_casAnnouncement := cas, ch_smtProofs := smt, ch_signalBytes := sig\<rparr>"
    and build_signal: "st_buildAggregatedData strategy nonce ch = (ch', Inr ()) \<Longrightarrow> sha256_ok L \<Longrightarrow>
      \<exists>sig. ch_signalBytes ch' = Some sig \<and> length sig = 32"
    and view_matches: "st_buildAggregatedData strategy nonce ch = (ch', Inr ()) \<Longrightarrow>
      sha256_ok L \<Longrightarrow> base64url_ok L \<Longrightarrow> ready_cohort nonce ch \<Longrightarrow> did \<in> set (ch_participants ch) \<Longrightarrow>
      js_prop_opt body ''casAnnouncement'' = dp_casAnnouncement (st_getDistributePayload strategy ch' did) \<Longrightarrow>
      js_prop_opt body ''smtProof'' = dp_smtProof (st_getDistributePayload strategy ch' did) \<Longrightarrow>
      \<exists>r. st_validateParticipantView strategy (honest_view L strategy ch did body) = Inr r \<and> bv_matches r"
begin

lemma build_keeps:
  assumes "st_buildAggregatedData strategy nonce ch = (ch', r)"
  shows "ch_participants ch' = ch_participants ch" "ch_pendingUpdates ch' = ch_pendingUpdates ch"
    "ch_cohortKeys ch' = ch_cohortKeys ch" "ch_participantKeys ch' = ch_participantKeys ch"
    "cohort_inv ch' = cohort_inv ch"
proof -
  obtain cas smt sig where
    "ch' = ch\<lparr>ch_casAnnouncement := cas, ch_smtProofs := smt, ch_signalBytes := sig\<rparr>"
    using build_frame [OF assms] by blast
  then show "ch_participants ch' = ch_participants ch" "ch_pendingUpdates ch' = ch_pendingUpdates ch"
    "ch_cohortKeys ch' = ch_cohortKeys ch" "ch_participantKeys ch' = ch_participantKeys ch"
    "cohort_inv ch' = cohort_inv ch"
    by (simp_all add: cohort_inv_def)
qed

end

lemma objectPrototype_codes: "k \<in> set objectPrototypeKeys \<Longrightarrow> \<not> starts_with ''did:'' k"
  by (auto simp: objectPrototypeKeys_def starts_with_def)

section \<open>CAS announcements\<close>

definition announcement_of :: "'x method_lib_scheme \<Rightarrow> (string, jsval) jsmap \<Rightarrow> (string \<times> jsval) list" where
  "announcement_of L ups = map (\<lambda>(did, u). (did, JStr (base64url_encode L (canon_hash L u)))) ups"

lemma announcement_of_get:
  "map_of (announcement_of L ups) did = map_option (\<lambda>u. JStr (base64url_encode L (canon_hash L u))) (map_of ups did)"
  by (induction ups) (auto simp: announcement_of_def)

lemma truthy_not_undef: "truthy v \<Longrightarrow> v \<noteq> JUndef"
  by auto

lemma announcement_entries:
  assumes "\<forall>(d, u) \<in> set ups. truthy u"
  shows "mapR (announcementEntry L) ups = Inr (announcement_of L ups)"
  unfolding announcement_of_def
proof (rule mapR_Inr)
  fix x assume x: "x \<in> set ups"
  have "truthy (snd x)" using bspec [OF assms x] by (simp add: case_prod_beta)
  then have "x = (fst x, snd x)" "snd x \<noteq> JUndef" by auto
  then show "announcementEntry L x = Inr (case x of (did, u) \<Rightarrow> (did, JStr (base64url_encode L (canon_hash L u))))"
    by (simp add: announcementEntry_def case_prod_beta)
qed

text \<open>What \<open>buildCASAnnouncement\<close> makes of a cohort whose members have all responded.\<close>

lemma cas_built:
  assumes "buildCASAnnouncement L ch = (ch', Inr a)" "\<forall>(d, u) \<in> set (ch_pendingUpdates ch). truthy u"
  shows "hasAllResponses ch \<and> a = JObj (announcement_of L (ch_pendingUpdates ch)) \<and>
    ch' = ch\<lparr>ch_casAnnouncement := Some a, ch_signalBytes := Some (canon_hash L a)\<rparr>"
  using assms
  by (auto simp: buildCASAnnouncement_def announcement_entries canon_hash_def Let_def split: if_splits)

lemma cas_frame:
  "buildCASAnnouncement L ch = (ch', r) \<Longrightarrow>
     \<exists>cas sig. ch' = ch\<lparr>ch_casAnnouncement := cas, ch_signalBytes := sig\<rparr>"
proof -
  assume "buildCASAnnouncement L ch = (ch', r)"
  then have "ch' = ch \<or> (\<exists>cas. ch' = ch\<lparr>ch_casAnnouncement := cas\<rparr>) \<or>
      (\<exists>cas sig. ch' = ch\<lparr>ch_casAnnouncement := cas, ch_signalBytes := sig\<rparr>)"
    by (auto simp: buildCASAnnouncement_def Let_def split: if_splits sum.splits)
  then show ?thesis
  proof (elim disjE exE)
    assume "ch' = ch"
    then show ?thesis
      by (intro exI [of _ "ch_casAnnouncement ch"] exI [of _ "ch_signalBytes ch"]) simp
  next
    fix cas assume "ch' = ch\<lparr>ch_casAnnouncement := cas\<rparr>"
    then show ?thesis by (intro exI [of _ cas] exI [of _ "ch_signalBytes ch"]) simp
  qed blast
qed

interpretation cas: beacon_strategy L "CAS_STRATEGY L" for L :: "'x method_lib_scheme"
proof
  fix nonce and ch ch' :: AggregationCohort and r :: "unit result"
  assume "st_buildAggregatedData (CAS_STRATEGY L) nonce ch = (ch', r)"
  then obtain q where "buildCASAnnouncement L ch = (ch', q)"
    by (auto simp: CAS_STRATEGY_def split: prod.splits)
  then obtain cas sig where "ch' = ch\<lparr>ch_casAnnouncement := cas, ch_signalBytes := sig\<rparr>"
    using cas_frame by blast
  then show "\<exists>cas smt sig. ch' = ch\<lparr>ch_casAnnouncement := cas, ch_smtProofs := smt, ch_signalBytes := sig\<rparr>"
    by (intro exI [of _ cas] exI [of _ "ch_smtProofs ch"] exI [of _ sig]) simp
next
  fix nonce and ch ch' :: AggregationCohort
  assume "st_buildAggregatedData (CAS_STRATEGY L) nonce ch = (ch', Inr ())" "sha256_ok L"
  then obtain a where "buildCASAnnouncement L ch = (ch', Inr a)"
    by (auto simp: CAS_STRATEGY_def rbind_Inr_iff split: prod.splits)
  then obtain c where "ch_signalBytes ch' = Some (hash_of L c)"
    by (auto simp: buildCASAnnouncement_def Let_def split: if_splits sum.splits)
  with \<open>sha256_ok L\<close> show "\<exists>sig. ch_signalBytes ch' = Some sig \<and> length sig = 32"
    by (simp add: hash_of_def)
next
  fix nonce and ch ch' :: AggregationCohort and did body
  assume build: "st_buildAggregatedData (CAS_STRATEGY L) nonce ch = (ch', Inr ())"
    and ready: "ready_cohort nonce ch" and did: "did \<in> set (ch_participants ch)"
    and body: "js_prop_opt body ''casAnnouncement'' =
        dp_casAnnouncement (st_getDistributePayload (CAS_STRATEGY L) ch' did)"
  let ?a = "announcement_of L (ch_pendingUpdates ch)"
  from build obtain a where "buildCASAnnouncement L ch = (ch', Inr a)"
    by (auto simp: CAS_STRATEGY_def rbind_Inr_iff split: prod.splits)
  then have "ch_casAnnouncement ch' = Some (JObj ?a)"
    using cas_built ready by (fastforce simp: ready_cohort_def)
  then have b: "js_prop_opt body ''casAnnouncement'' = JObj ?a" using body by (simp add: CAS_STRATEGY_def)
  have "did \<notin> set objectPrototypeKeys" using ready did by (auto simp: ready_cohort_def)
  then show "\<exists>r. st_validateParticipantView (CAS_STRATEGY L) (honest_view L (CAS_STRATEGY L) ch did body) = Inr r \<and> bv_matches r"
    using b by (cases "jm_get (ch_pendingUpdates ch) did")
      (simp_all add: CAS_STRATEGY_def casValidateView_def honest_view_def jm_has_def js_in_def own_def announcement_of_get)
qed

section \<open>Sparse Merkle trees\<close>

lemma proofsLoop_get:
  assumes "proofsLoop L t dids ps = (ps', Inr ())"
  shows "(\<forall>d \<in> set dids. \<exists>p. treeProof L d t = Inr p \<and> jm_get ps' d = Some p) \<and>
    (\<forall>d. d \<notin> set dids \<longrightarrow> jm_get ps' d = jm_get ps d)"
  using assms
proof (induction dids arbitrary: ps)
  case (Cons did dids)
  then obtain p where p: "treeProof L did t = Inr p" "proofsLoop L t dids (jm_set did p ps) = (ps', Inr ())"
    by (auto split: sum.splits)
  from Cons.IH [OF p(2)] p(1) show ?case by (cases "did \<in> set dids") auto
qed simp

lemma mapR_Inr_mem: "mapR f xs = Inr ys \<Longrightarrow> x \<in> set xs \<Longrightarrow> \<exists>y \<in> set ys. f x = Inr y"
  by (induction xs arbitrary: ys) (auto simp: rbind_Inr_iff)

definition update_bytes :: "'x method_lib_scheme \<Rightarrow> jsval \<Rightarrow> bytes" where
  "update_bytes L u = utf8 (jcs L (jsonRoundTrip u))"

lemma canon_hash_update_bytes: "canon_hash L u = sha256 L (update_bytes L u)"
  by (simp add: canon_hash_def hash_of_def update_bytes_def)

text \<open>The tree that \<open>buildSMTTree\<close> makes has an entry for every participant.\<close>

lemma smt_built:
  assumes "buildSMTTree L nonce ch = (ch', Inr ps)" "\<forall>(d, u) \<in> set (ch_pendingUpdates ch). truthy u"
  shows "\<exists>entries t. addEntries L entries newMerkleTree = (t, Inr ()) \<and> hasAllResponses ch \<and>
    ch' = ch\<lparr>ch_signalBytes := Some (zeroHashRoot L (tree_leaves L t)), ch_smtProofs := Some ps\<rparr> \<and>
    (\<forall>did \<in> set (ch_participants ch). \<exists>e \<in> set entries. \<exists>i. te_did e = did \<and> te_nonce e = nonce i \<and>
       te_signedUpdate e = map_option (update_bytes L) (jm_get (ch_pendingUpdates ch) did) \<and>
       (\<exists>p. treeProof L did (finalizeTree L t) = Inr p \<and> jm_get ps did = Some p))"
proof -
  have all: "hasAllResponses ch" using assms(1) by (auto simp: buildSMTTree_def split: if_splits)
  obtain entries where entries: "mapR (cohortEntry L nonce ch) (enumerate 0 (ch_participants ch)) = Inr entries"
    using assms(1) all by (auto simp: buildSMTTree_def split: sum.splits)
  obtain t where t: "addEntries L entries newMerkleTree = (t, Inr ())"
    using assms(1) all entries by (auto simp: buildSMTTree_def split: prod.splits sum.splits)
  have root: "rootHash (finalizeTree L t) = Inr (zeroHashRoot L (tree_leaves L t))"
    by (simp add: rootHash_def finalizeTree_def Let_def tree_leaves_def)
  from assms(1) all entries t root have loop: "proofsLoop L (finalizeTree L t) (ch_participants ch) [] = (ps, Inr ())"
    and ch': "ch' = ch\<lparr>ch_signalBytes := Some (zeroHashRoot L (tree_leaves L t)), ch_smtProofs := Some ps\<rparr>"
    by (auto simp: buildSMTTree_def Let_def rbind_Inr_iff split: prod.splits)
  have "\<exists>e \<in> set entries. \<exists>i. te_did e = did \<and> te_nonce e = nonce i \<and>
       te_signedUpdate e = map_option (update_bytes L) (jm_get (ch_pendingUpdates ch) did) \<and>
       (\<exists>p. treeProof L did (finalizeTree L t) = Inr p \<and> jm_get ps did = Some p)"
    if did: "did \<in> set (ch_participants ch)" for did
  proof -
    from did obtain i where "i < length (ch_participants ch)" "ch_participants ch ! i = did"
      by (auto simp: in_set_conv_nth)
    then have "(i, did) \<in> set (enumerate 0 (ch_participants ch))" by (auto simp: in_set_enumerate_eq)
    from mapR_Inr_mem [OF entries this] obtain e where e: "e \<in> set entries" "cohortEntry L nonce ch (i, did) = Inr e"
      by blast
    have "u \<noteq> JUndef" if "jm_get (ch_pendingUpdates ch) did = Some u" for u
      using bspec [OF assms(2) map_of_SomeD [OF that]] by auto
    with e(2) have "te_did e = did \<and> te_nonce e = nonce i \<and>
        te_signedUpdate e = map_option (update_bytes L) (jm_get (ch_pendingUpdates ch) did)"
      by (cases "jm_get (ch_pendingUpdates ch) did") (auto simp: cohortEntry_def update_bytes_def)
    with e(1) proofsLoop_get [OF loop] did show ?thesis by blast
  qed
  with all t ch' show ?thesis by blast
qed

lemma smt_frame:
  assumes "buildSMTTree L nonce ch = (ch', r)"
  shows "\<exists>smt sig. ch' = ch\<lparr>ch_signalBytes := sig, ch_smtProofs := smt\<rparr>"
proof -
  have "ch' = ch \<or> (\<exists>smt sig. ch' = ch\<lparr>ch_signalBytes := sig, ch_smtProofs := smt\<rparr>)"
    using assms by (auto simp: buildSMTTree_def Let_def split: if_splits sum.splits prod.splits)
  then show ?thesis
  proof
    assume "ch' = ch"
    then show ?thesis by (intro exI [of _ "ch_smtProofs ch"] exI [of _ "ch_signalBytes ch"]) simp
  qed
qed

lemma js_strings_map [simp]: "js_strings (map JStr ss) = Inr ss"
  by (induction ss) simp_all

lemma smtProofOf_proofValue [simp]: "smtProofOf (proofValue p) = Inr p"
  by (simp add: smtProofOf_def proofValue_def opt_string_def split: option.split)

lemma proofValue_fields [simp]:
  "js_prop_opt (proofValue p) ''nonce'' = (case sp_nonce p of None \<Rightarrow> JUndef | Some s \<Rightarrow> JStr s)"
  "js_prop_opt (proofValue p) ''updateId'' = (case sp_updateId p of None \<Rightarrow> JUndef | Some s \<Rightarrow> JStr s)"
  by (simp_all add: proofValue_def split: option.split)

text \<open>A proof with the leaf of a submitter, or of a decliner, is what the view expects.\<close>

lemma smt_view_included:
  assumes "sha256_ok L" "base64url_ok L" "didToIndex L did = Inr i"
    and proof': "js_prop_opt body ''smtProof'' = proofValue p" "truthy u"
    and p: "sp_nonce p = Some (base64url_encode L n)" "length n = 32"
      "sp_updateId p = Some (base64url_encode L (sha256 L (update_bytes L u)))"
    and ok: "verifySerializedProof L p i (inclusionLeafHash L n (update_bytes L u)) = Inr True"
  shows "\<exists>r. smtValidateView L \<lparr>pv_participantDid = did, pv_included = True, pv_submittedUpdate = u,
     pv_expectedHash = h, pv_body = body\<rparr> = Inr r \<and> bv_matches r"
proof -
  have h32: "isValidHash n" "isValidHash (sha256 L (update_bytes L u))"
    using p(2) assms(1) by (simp_all add: isValidHash_def HASH_BYTE_LENGTH_def)
  have ne: "base64url_encode L n \<noteq> []" "base64url_encode L (sha256 L (update_bytes L u)) \<noteq> []"
    using h32 base64url_encode_hash [OF assms(2)] by auto
  have "canonicalize L u = Inr (jcs L (jsonRoundTrip u))" using proof'(2) by (intro canonicalize_object) auto
  with h32 ne show ?thesis using assms
    by (simp add: smtValidateView_def hash_of_value_def base64UrlToHash_encode hashToBase64Url_valid
        inclusionLeafHash_def blockHash_def update_bytes_def)
qed

lemma smt_view_declined:
  assumes "sha256_ok L" "base64url_ok L" "didToIndex L did = Inr i"
    and proof': "js_prop_opt body ''smtProof'' = proofValue p"
    and p: "sp_nonce p = Some (base64url_encode L n)" "length n = 32" "sp_updateId p = None"
    and ok: "verifySerializedProof L p i (nonInclusionLeafHash L n) = Inr True"
  shows "\<exists>r. smtValidateView L \<lparr>pv_participantDid = did, pv_included = False, pv_submittedUpdate = JUndef,
     pv_expectedHash = h, pv_body = body\<rparr> = Inr r \<and> bv_matches r"
proof -
  have h32: "isValidHash n" using p(2) by (simp add: isValidHash_def HASH_BYTE_LENGTH_def)
  then have ne: "base64url_encode L n \<noteq> []" using base64url_encode_hash [OF assms(2)] by auto
  with h32 show ?thesis using assms
    by (simp add: smtValidateView_def hash_of_value_def base64UrlToHash_encode nonInclusionLeafHash_def blockHash_def)
qed

text \<open>The proof that a member gets: it verifies for the leaf of the member, and names the root, the
  nonce and the update of the member.\<close>

lemma smt_member_proof:
  assumes L: "sha256_ok L" "base64url_ok L" and build: "st_buildAggregatedData (SMT_STRATEGY L) nonce ch = (ch', Inr ())"
    and ready: "ready_cohort nonce ch" and did: "did \<in> set (ch_participants ch)"
  obtains p j n root where
    "dp_smtProof (st_getDistributePayload (SMT_STRATEGY L) ch' did) = proofValue p" "ch_signalBytes ch' = Some root"
    "didToIndex L did = Inr j" "length n = 32" "sp_id p = base64url_encode L root" "isValidHash root"
    "sp_nonce p = Some (base64url_encode L n)"
    "sp_updateId p = map_option (\<lambda>u. base64url_encode L (sha256 L (update_bytes L u))) (jm_get (ch_pendingUpdates ch) did)"
    "verifySerializedProof L p j (case jm_get (ch_pendingUpdates ch) did of
       None \<Rightarrow> nonInclusionLeafHash L n | Some u \<Rightarrow> inclusionLeafHash L n (update_bytes L u)) = Inr True"
proof -
  from build obtain ps where "buildSMTTree L nonce ch = (ch', Inr ps)"
    by (auto simp: SMT_STRATEGY_def rbind_Inr_iff split: prod.splits)
  moreover have "\<forall>(d, u) \<in> set (ch_pendingUpdates ch). truthy u" using ready by (simp add: ready_cohort_def)
  ultimately obtain entries t where t: "addEntries L entries newMerkleTree = (t, Inr ())"
    and ch': "ch' = ch\<lparr>ch_signalBytes := Some (zeroHashRoot L (tree_leaves L t)), ch_smtProofs := Some ps\<rparr>"
    and entries: "\<forall>did \<in> set (ch_participants ch). \<exists>e \<in> set entries. \<exists>i. te_did e = did \<and> te_nonce e = nonce i \<and>
       te_signedUpdate e = map_option (update_bytes L) (jm_get (ch_pendingUpdates ch) did) \<and>
       (\<exists>p. treeProof L did (finalizeTree L t) = Inr p \<and> jm_get ps did = Some p)"
    using smt_built by metis
  from bspec [OF entries did] obtain e p i where e: "e \<in> set entries" "te_did e = did" "te_nonce e = nonce i"
      "te_signedUpdate e = map_option (update_bytes L) (jm_get (ch_pendingUpdates ch) did)"
    and p: "treeProof L did (finalizeTree L t) = Inr p" "jm_get ps did = Some p" by blast
  have n: "length (te_nonce e) = 32" using e(3) ready by (simp add: ready_cohort_def)
  obtain j where j: "didToIndex L did = Inr j" using didToIndex_Inr [OF L(1)] by blast
  then have "jm_get (mt_entries t) j = Some e" using t e by (simp add: addEntries_entries)
  from treeProof_finalized [OF L addEntries_inv [OF tree_inv_new t] this n] p(1) e(2)
  have ok: "verifySerializedProof L p j (entryLeaf L e) = Inr True"
    "sp_id p = base64url_encode L (zeroHashRoot L (tree_leaves L t))" "sp_nonce p = Some (base64url_encode L (te_nonce e))"
    "sp_updateId p = map_option (\<lambda>u. base64url_encode L (sha256 L u)) (te_signedUpdate e)" by auto
  show ?thesis
    by (rule that [of p "zeroHashRoot L (tree_leaves L t)" j "te_nonce e"])
       (use ok e j n p(2) ch' isValidHash_zeroHashRoot [OF L(1)] in
         \<open>auto simp: SMT_STRATEGY_def entryLeaf_def option.map_comp comp_def split: option.splits\<close>)
qed

interpretation smt: beacon_strategy L "SMT_STRATEGY L" for L :: "'x method_lib_scheme"
proof
  fix nonce and ch ch' :: AggregationCohort and r :: "unit result"
  assume "st_buildAggregatedData (SMT_STRATEGY L) nonce ch = (ch', r)"
  then obtain q where "buildSMTTree L nonce ch = (ch', q)"
    by (auto simp: SMT_STRATEGY_def split: prod.splits)
  then obtain smt sig where "ch' = ch\<lparr>ch_signalBytes := sig, ch_smtProofs := smt\<rparr>"
    using smt_frame by blast
  then show "\<exists>cas smt sig. ch' = ch\<lparr>ch_casAnnouncement := cas, ch_smtProofs := smt, ch_signalBytes := sig\<rparr>"
    by (intro exI [of _ "ch_casAnnouncement ch"] exI [of _ smt] exI [of _ sig]) simp
next
  fix nonce and ch ch' :: AggregationCohort
  assume b: "st_buildAggregatedData (SMT_STRATEGY L) nonce ch = (ch', Inr ())" and L: "sha256_ok L"
  then obtain ps where "buildSMTTree L nonce ch = (ch', Inr ps)"
    by (auto simp: SMT_STRATEGY_def rbind_Inr_iff split: prod.splits)
  then obtain t where "ch_signalBytes ch' = Some (zeroHashRoot L (tree_leaves L t))"
    by (auto simp: buildSMTTree_def Let_def rootHash_def finalizeTree_def tree_leaves_def
        split: if_splits sum.splits prod.splits)
  with L show "\<exists>sig. ch_signalBytes ch' = Some sig \<and> length sig = 32"
    using isValidHash_zeroHashRoot [OF L] by (simp add: isValidHash_def HASH_BYTE_LENGTH_def)
next
  fix nonce and ch ch' :: AggregationCohort and did body
  assume build: "st_buildAggregatedData (SMT_STRATEGY L) nonce ch = (ch', Inr ())"
    and L: "sha256_ok L" "base64url_ok L"
    and ready: "ready_cohort nonce ch" and did: "did \<in> set (ch_participants ch)"
    and body: "js_prop_opt body ''smtProof'' =
        dp_smtProof (st_getDistributePayload (SMT_STRATEGY L) ch' did)"
  obtain p j n root where p: "dp_smtProof (st_getDistributePayload (SMT_STRATEGY L) ch' did) = proofValue p"
    and j: "didToIndex L did = Inr j" and n: "sp_nonce p = Some (base64url_encode L n)" "length n = 32"
    and ok: "sp_updateId p = map_option (\<lambda>u. base64url_encode L (sha256 L (update_bytes L u))) (jm_get (ch_pendingUpdates ch) did)"
      "verifySerializedProof L p j (case jm_get (ch_pendingUpdates ch) did of
         None \<Rightarrow> nonInclusionLeafHash L n | Some u \<Rightarrow> inclusionLeafHash L n (update_bytes L u)) = Inr True"
    by (rule smt_member_proof [OF L build ready did])
  have b: "js_prop_opt body ''smtProof'' = proofValue p" using body p by simp
  show "\<exists>r. st_validateParticipantView (SMT_STRATEGY L) (honest_view L (SMT_STRATEGY L) ch did body) = Inr r \<and> bv_matches r"
  proof (cases "jm_get (ch_pendingUpdates ch) did")
    case None
    then show ?thesis
      using smt_view_declined [OF L j b n] ok by (simp add: SMT_STRATEGY_def honest_view_def jm_has_def)
  next
    case (Some u)
    have "truthy u" using ready map_of_SomeD [OF Some] by (auto simp: ready_cohort_def)
    then show ?thesis
      using smt_view_included [OF L j b _ n] ok Some by (simp add: SMT_STRATEGY_def honest_view_def jm_has_def)
  qed
qed

end
