(* ===== verification/AggSession.thy ===== *)
theory AggSession
  imports AggCohort
begin

text \<open>
  The MuSig2 signing session: the class \<open>BeaconSigningSession\<close> of
  \<open>packages/aggregation/src/core/signing-session.ts\<close>, with the signing capability of \<open>signer.ts\<close>
  and the phases of \<open>phases.ts\<close>. The field \<open>cohort\<close> of the class is the cohort object its owner
  also holds, so the methods take the cohort as it is when they are called.
\<close>

section \<open>Phases\<close>

datatype session_phase =
    AwaitingNonceContributions | NonceContributionsReceived | AwaitingPartialSignatures
  | PartialSignaturesReceived | SessionComplete | SessionFailed

record AggregationSigner =
  sg_publicKey :: bytes
  sg_secretKey :: bytes

text \<open>\<open>withSecret\<close> runs a function on a copy of the secret that is wiped afterwards.\<close>

definition withSecret :: "AggregationSigner \<Rightarrow> (bytes \<Rightarrow> 'a) \<Rightarrow> 'a" where
  "withSecret signer fn = fn (sg_secretKey signer)"

section \<open>The session\<close>

record 'tx BeaconSigningSession =
  ss_id :: string
  ss_pendingTx :: 'tx
  ss_prevOutScripts :: "bytes list"
  ss_prevOutValues :: "int list"
  ss_nonceContributions :: "(string, bytes) jsmap"
  ss_aggregatedNonce :: "bytes option"
  ss_partialSignatures :: "(string, bytes) jsmap"
  ss_signature :: "bytes option"
  ss_phase :: session_phase
  ss_secretNonce :: "bytes option"

definition session_error :: "string \<Rightarrow> error + 'a" where
  "session_error code = Inl (Error ''SigningSessionError'' code)"

lemma session_error_simps [simp]: "session_error c \<noteq> Inr a" "Inr a \<noteq> session_error c"
  by (simp_all add: session_error_def)

definition newSession ::
  "string \<Rightarrow> string option \<Rightarrow> 'tx \<Rightarrow> bytes list \<Rightarrow> int list \<Rightarrow> 'tx BeaconSigningSession" where
  "newSession uuid sid pendingTx prevOutScripts prevOutValues =
     \<lparr>ss_id = (if truthy_str sid then the sid else uuid), ss_pendingTx = pendingTx,
      ss_prevOutScripts = prevOutScripts, ss_prevOutValues = prevOutValues, ss_nonceContributions = [],
      ss_aggregatedNonce = None, ss_partialSignatures = [], ss_signature = None,
      ss_phase = AwaitingNonceContributions, ss_secretNonce = None\<rparr>"

definition sigHash :: "('tx, 'x) agg_lib_scheme \<Rightarrow> 'tx BeaconSigningSession \<Rightarrow> bytes result" where
  "sigHash L s =
     (if ss_prevOutScripts s = [] \<or> ss_prevOutValues s = [] then session_error ''SIGHASH_ERROR''
      else of_option (tx_preimageWitnessV1 L (ss_pendingTx s) 0 (ss_prevOutScripts s) (ss_prevOutValues s) None))"

definition addNonceContribution ::
  "AggregationCohort \<Rightarrow> string \<Rightarrow> bytes \<Rightarrow> 'tx BeaconSigningSession \<Rightarrow> 'tx BeaconSigningSession \<times> unit result" where
  "addNonceContribution ch participantDid nonceContribution s =
     (if ss_phase s \<noteq> AwaitingNonceContributions then (s, session_error ''INVALID_PHASE'')
      else if participantDid \<notin> set (ch_participants ch) then (s, session_error ''UNKNOWN_PARTICIPANT'')
      else if length nonceContribution \<noteq> 66 then (s, session_error ''INVALID_NONCE_LENGTH'')
      else if jm_has (ss_nonceContributions s) participantDid then (s, session_error ''DUPLICATE_NONCE'')
      else let s = s\<lparr>ss_nonceContributions := jm_set participantDid nonceContribution (ss_nonceContributions s)\<rparr>
           in (if length (ss_nonceContributions s) = length (ch_participants ch)
               then s\<lparr>ss_phase := NonceContributionsReceived\<rparr> else s, Inr ()))"

definition generateAggregatedNonce ::
  "('tx, 'x) agg_lib_scheme \<Rightarrow> 'tx BeaconSigningSession \<Rightarrow> 'tx BeaconSigningSession \<times> bytes result" where
  "generateAggregatedNonce L s =
     (if ss_phase s \<noteq> NonceContributionsReceived then (s, session_error ''INVALID_PHASE'')
      else case musig_nonce_agg L (map snd (ss_nonceContributions s)) of
        None \<Rightarrow> (s, lib_error)
      | Some n \<Rightarrow> (s\<lparr>ss_aggregatedNonce := Some n, ss_phase := AwaitingPartialSignatures\<rparr>, Inr n))"

definition addPartialSignature ::
  "AggregationCohort \<Rightarrow> string \<Rightarrow> bytes \<Rightarrow> 'tx BeaconSigningSession \<Rightarrow> 'tx BeaconSigningSession \<times> unit result" where
  "addPartialSignature ch participantDid partialSig s =
     (if ss_phase s \<noteq> AwaitingPartialSignatures then (s, session_error ''INVALID_PHASE'')
      else if participantDid \<notin> set (ch_participants ch) then (s, session_error ''UNKNOWN_PARTICIPANT'')
      else if jm_has (ss_partialSignatures s) participantDid then (s, session_error ''DUPLICATE_PARTIAL_SIG'')
      else let s = s\<lparr>ss_partialSignatures := jm_set participantDid partialSig (ss_partialSignatures s)\<rparr>
           in (if length (ss_partialSignatures s) = length (ch_participants ch)
               then s\<lparr>ss_phase := PartialSignaturesReceived\<rparr> else s, Inr ()))"

text \<open>\<open>new musig2.Session(...)\<close> with the tweak of the beacon output.\<close>

definition musigSession ::
  "('tx, 'x) agg_lib_scheme \<Rightarrow> AggregationCohort \<Rightarrow> bytes \<Rightarrow> 'tx BeaconSigningSession \<Rightarrow> MusigSession result" where
  "musigSession L ch aggregatedNonce s =
     rbind (sigHash L s) (\<lambda>msg.
       let ms = \<lparr>ms_aggNonce = aggregatedNonce, ms_publicKeys = ch_cohortKeys ch, ms_message = msg,
                 ms_tweak = ch_tapTweak ch\<rparr>
       in if musig_session_ok L ms then Inr ms else lib_error)"

text \<open>The public nonces at the positions of the keys of their senders.\<close>

fun noncesByIndex :: "AggregationCohort \<Rightarrow> (string, bytes) jsmap \<Rightarrow> bytes option list \<Rightarrow> bytes option list result" where
  "noncesByIndex ch [] arr = Inr arr"
| "noncesByIndex ch ((did, nonce) # rest) arr =
     (case indexOfParticipant ch did of
        None \<Rightarrow> session_error ''UNKNOWN_PARTICIPANT_KEY''
      | Some idx \<Rightarrow> noncesByIndex ch rest (arr[idx := Some nonce]))"

fun verifyPartials ::
  "('tx, 'x) agg_lib_scheme \<Rightarrow> AggregationCohort \<Rightarrow> MusigSession \<Rightarrow> bytes option list \<Rightarrow> (string, bytes) jsmap \<Rightarrow> unit result" where
  "verifyPartials L ch ms nonces [] = Inr ()"
| "verifyPartials L ch ms nonces ((did, partialSig) # rest) =
     (case indexOfParticipant ch did of
        None \<Rightarrow> session_error ''UNKNOWN_PARTICIPANT_KEY''
      | Some idx \<Rightarrow>
         (case musig_partial_verify L ms partialSig nonces idx of
            None \<Rightarrow> lib_error
          | Some ok \<Rightarrow> if \<not> ok then session_error ''BAD_PARTIAL_SIG'' else verifyPartials L ch ms nonces rest))"

definition finalSignature ::
  "('tx, 'x) agg_lib_scheme \<Rightarrow> AggregationCohort \<Rightarrow> 'tx BeaconSigningSession \<Rightarrow> bytes result" where
  "finalSignature L ch s =
     (if ss_phase s \<noteq> PartialSignaturesReceived then session_error ''INVALID_PHASE''
      else case ss_aggregatedNonce s of
        None \<Rightarrow> session_error ''MISSING_AGGREGATED_NONCE''
      | Some n \<Rightarrow>
          rbind (musigSession L ch n s) (\<lambda>ms.
          rbind (noncesByIndex ch (ss_nonceContributions s) (replicate (length (ch_cohortKeys ch)) None)) (\<lambda>nonces.
          rbind (verifyPartials L ch ms nonces (ss_partialSignatures s)) (\<lambda>_.
            of_option (musig_partial_agg L ms (map snd (ss_partialSignatures s)))))))"

definition generateFinalSignature ::
  "('tx, 'x) agg_lib_scheme \<Rightarrow> AggregationCohort \<Rightarrow> 'tx BeaconSigningSession \<Rightarrow> 'tx BeaconSigningSession \<times> bytes result" where
  "generateFinalSignature L ch s =
     (case finalSignature L ch s of
        Inl e \<Rightarrow> (s, Inl e)
      | Inr sig \<Rightarrow> (s\<lparr>ss_signature := Some sig, ss_phase := SessionComplete\<rparr>, Inr sig))"

definition generateNonceContribution ::
  "('tx, 'x) agg_lib_scheme \<Rightarrow> AggregationCohort \<Rightarrow> bytes \<Rightarrow> bytes \<Rightarrow> bytes \<Rightarrow> 'tx BeaconSigningSession
     \<Rightarrow> 'tx BeaconSigningSession \<times> bytes result" where
  "generateNonceContribution L ch rand participantPublicKey participantSecretKey s =
     (case musig_key_agg L (ch_cohortKeys ch) of
        None \<Rightarrow> (s, lib_error)
      | Some aggPublicKey \<Rightarrow>
         (case musig_nonce_gen L participantPublicKey participantSecretKey aggPublicKey rand of
            None \<Rightarrow> (s, lib_error)
          | Some (pub, secret) \<Rightarrow> (s\<lparr>ss_secretNonce := Some secret\<rparr>, Inr pub)))"

definition clearSecrets :: "'tx BeaconSigningSession \<Rightarrow> 'tx BeaconSigningSession" where
  "clearSecrets s = s\<lparr>ss_secretNonce := None\<rparr>"

definition sessionPartialSignature ::
  "('tx, 'x) agg_lib_scheme \<Rightarrow> AggregationCohort \<Rightarrow> bytes \<Rightarrow> 'tx BeaconSigningSession
     \<Rightarrow> 'tx BeaconSigningSession \<times> bytes result" where
  "sessionPartialSignature L ch participantSecretKey s =
     (case ss_aggregatedNonce s of
        None \<Rightarrow> (s, session_error ''MISSING_AGGREGATED_NONCE'')
      | Some n \<Rightarrow>
         (case ss_secretNonce s of
            None \<Rightarrow> (s, session_error ''MISSING_SECRET_NONCE'')
          | Some secret \<Rightarrow>
             (case musigSession L ch n s of
                Inl e \<Rightarrow> (s, Inl e)
              | Inr ms \<Rightarrow> (clearSecrets s, of_option (musig_sign L ms secret participantSecretKey)))))"

definition isComplete :: "'tx BeaconSigningSession \<Rightarrow> bool" where "isComplete s \<longleftrightarrow> ss_phase s = SessionComplete"
definition isFailed :: "'tx BeaconSigningSession \<Rightarrow> bool" where "isFailed s \<longleftrightarrow> ss_phase s = SessionFailed"

section \<open>Lemmas\<close>

text \<open>A secret nonce that made a signature is gone, so the next call refuses.\<close>

lemma partial_clears:
  assumes "sessionPartialSignature L ch sk s = (s', Inr sig)"
  shows "ss_secretNonce s' = None \<and>
    sessionPartialSignature L ch' sk' s' = (s', session_error ''MISSING_SECRET_NONCE'')"
  using assms
  by (auto simp: sessionPartialSignature_def clearSecrets_def split: option.splits sum.splits)

text \<open>What holds of the partial signatures and nonces of a session run for a cohort.\<close>

definition session_inv :: "AggregationCohort \<Rightarrow> 'tx BeaconSigningSession \<Rightarrow> bool" where
  "session_inv ch s \<longleftrightarrow>
     distinct (map fst (ss_nonceContributions s)) \<and> fst ` set (ss_nonceContributions s) \<subseteq> set (ch_participants ch) \<and>
     (\<forall>(d, n) \<in> set (ss_nonceContributions s). length n = 66) \<and>
     distinct (map fst (ss_partialSignatures s)) \<and> fst ` set (ss_partialSignatures s) \<subseteq> set (ch_participants ch)"

lemma session_inv_new [simp, intro]: "session_inv ch (newSession uuid i tx ss vs)"
  by (simp add: session_inv_def newSession_def)

lemma session_inv_nonce [intro]: "session_inv ch s \<Longrightarrow> session_inv ch (fst (addNonceContribution ch did n s))"
  by (auto simp: session_inv_def addNonceContribution_def Let_def dest!: set_jm_set_subset [THEN subsetD])

lemma session_inv_partial [intro]: "session_inv ch s \<Longrightarrow> session_inv ch (fst (addPartialSignature ch did n s))"
  by (auto simp: session_inv_def addPartialSignature_def Let_def)

lemma session_inv_agg [intro]: "session_inv ch s \<Longrightarrow> session_inv ch (fst (generateAggregatedNonce L s))"
  by (auto simp: session_inv_def generateAggregatedNonce_def split: option.split)

lemma session_inv_final [intro]: "session_inv ch s \<Longrightarrow> session_inv ch (fst (generateFinalSignature L ch s))"
  by (auto simp: session_inv_def generateFinalSignature_def split: sum.split)

text \<open>Every partial signature of a final signature was verified at the position of its sender.\<close>

lemma verifyPartials_Inr:
  "verifyPartials L ch ms nonces ps = Inr () \<Longrightarrow> (did, sig) \<in> set ps \<Longrightarrow>
     \<exists>idx. indexOfParticipant ch did = Some idx \<and> musig_partial_verify L ms sig nonces idx = Some True"
  by (induction ps) (auto split: option.splits if_splits)

lemma finalSignature_verified:
  assumes "finalSignature L ch s = Inr sig"
  shows "\<exists>n ms nonces. ss_aggregatedNonce s = Some n \<and> musigSession L ch n s = Inr ms \<and>
    noncesByIndex ch (ss_nonceContributions s) (replicate (length (ch_cohortKeys ch)) None) = Inr nonces \<and>
    (\<forall>(did, partialSig) \<in> set (ss_partialSignatures s). \<exists>idx. indexOfParticipant ch did = Some idx \<and>
       musig_partial_verify L ms partialSig nonces idx = Some True) \<and>
    musig_partial_agg L ms (map snd (ss_partialSignatures s)) = Some sig"
  using assms verifyPartials_Inr
  by (fastforce simp: finalSignature_def rbind_Inr_iff split: if_splits option.splits)

end
