(* ===== verification/AggFallback.thy ===== *)
theory AggFallback
  imports AggCohort
begin

text \<open>
  Spending an aggregate beacon output through its script tree:
  \<open>packages/aggregation/src/core/fallback-spend.ts\<close> (any k members push the announcement) and
  \<open>recovery-spend.ts\<close> (the operator reclaims the funds after the timelock). The transaction passed
  in is the one returned: \<open>buildFallbackSpend\<close> mutates it, so its new value is part of the result
  on every path.
\<close>

section \<open>The fallback spend\<close>

record FallbackSignature =
  fs_pubKey :: bytes
  fs_signature :: bytes

record 'tx FallbackSpendParams =
  fp_pendingTx :: 'tx
  fp_inputIndex :: "nat option"
  fp_cohortKeys :: "bytes list"
  fp_fallbackThreshold :: jsval
  fp_recoveryKey :: bytes
  fp_recoverySequence :: jsval
  fp_fundingModel :: "string option"
  fp_network :: string
  fp_prevOutScript :: bytes
  fp_prevOutValue :: int
  fp_signatures :: "FallbackSignature list"

definition fallbackSighash ::
  "('tx, 'x) agg_lib_scheme \<Rightarrow> 'tx \<Rightarrow> nat \<Rightarrow> bytes \<Rightarrow> int \<Rightarrow> bytes \<Rightarrow> bytes result" where
  "fallbackSighash L tx inputIndex prevOutScript prevOutValue fallbackLeafScript =
     of_option (tx_preimageWitnessV1 L tx inputIndex [prevOutScript] [prevOutValue] (Some fallbackLeafScript))"

definition key_hex :: "bytes \<Rightarrow> string" where "key_hex k = concat (map hex_byte k)"

text \<open>One step of the loop that keeps the distinct valid signatures.\<close>

definition acceptSignature ::
  "('tx, 'x) agg_lib_scheme \<Rightarrow> bytes list \<Rightarrow> bytes \<Rightarrow> FallbackSignature \<Rightarrow> (string, bytes) jsmap \<Rightarrow> (string, bytes) jsmap" where
  "acceptSignature L cohortXOnly sighash s accepted =
     (if length (fs_pubKey s) \<noteq> 32 \<or> length (fs_signature s) \<noteq> 64 then accepted
      else if fs_pubKey s \<notin> set cohortXOnly then accepted
      else if jm_has accepted (key_hex (fs_pubKey s)) then accepted
      else if schnorr_verify L (fs_signature s) sighash (fs_pubKey s) = Some True
           then jm_set (key_hex (fs_pubKey s)) (fs_signature s) accepted
           else accepted)"

definition acceptedSignatures ::
  "('tx, 'x) agg_lib_scheme \<Rightarrow> bytes list \<Rightarrow> bytes \<Rightarrow> FallbackSignature list \<Rightarrow> (string, bytes) jsmap" where
  "acceptedSignatures L cohortXOnly sighash signatures =
     foldl (\<lambda>acc s. acceptSignature L cohortXOnly sighash s acc) [] signatures"

definition leafEntry :: "TaprootPayment \<Rightarrow> bytes \<Rightarrow> (bytes \<times> bytes) option" where
  "leafEntry payment leaf =
     (case tp_tapLeafScript payment of
        None \<Rightarrow> None
      | Some entries \<Rightarrow> List.find (\<lambda>(_, scriptVer). take (length scriptVer - 1) scriptVer = leaf) entries)"

text \<open>What is computed before the transaction is touched: the entry of the fallback leaf, its
  sighash, and the signatures that go into the witness.\<close>

definition fallbackWitness ::
  "('tx, 'x) agg_lib_scheme \<Rightarrow> 'tx FallbackSpendParams
     \<Rightarrow> ((bytes \<times> bytes) \<times> ((bytes \<times> bytes) \<times> bytes) list) result" where
  "fallbackWitness L p =
     (let inputIndex = (case fp_inputIndex p of None \<Rightarrow> 0 | Some i \<Rightarrow> i); cohortKeys = fp_cohortKeys p
      in if cohortKeys = [] then cohort_error ''NO_COHORT_KEYS''
         else let fallbackThreshold = resolveFallbackThreshold (fp_fallbackThreshold p) (length cohortKeys) in
         rbind (of_option (musig_sort_keys L cohortKeys)) (\<lambda>sortedKeys.
         rbind (of_option (musig_key_agg L sortedKeys)) (\<lambda>internalKey.
         rbind (buildRecoveryLeaves L (case fp_fundingModel p of None \<Rightarrow> DEFAULT_FUNDING_MODEL | Some m \<Rightarrow> m)
                  \<lparr>lp_recoveryKey = fp_recoveryKey p, lp_recoverySequence = fp_recoverySequence p,
                   lp_cohortKeys = cohortKeys, lp_fallbackThreshold = fallbackThreshold\<rparr>) (\<lambda>leaves.
         rbind (beaconPayment L internalKey leaves (fp_network p)) (\<lambda>payment.
         if tp_script payment \<noteq> fp_prevOutScript p then cohort_error ''PREVOUT_SCRIPT_MISMATCH''
         else rbind (buildFallbackLeaf L cohortKeys fallbackThreshold) (\<lambda>fallbackLeaf.
         case leafEntry payment fallbackLeaf of
           None \<Rightarrow> cohort_error ''FALLBACK_LEAF_NOT_FOUND''
         | Some entry \<Rightarrow>
             let cohortXOnly = map (drop 1) sortedKeys in
             rbind (fallbackSighash L (fp_pendingTx p) inputIndex (fp_prevOutScript p) (fp_prevOutValue p) fallbackLeaf) (\<lambda>sighash.
             let leafHash = tapLeafHash L fallbackLeaf TAPROOT_LEAF_VERSION;
                 accepted = acceptedSignatures L cohortXOnly sighash (fp_signatures p)
             in if int (length accepted) < int_of fallbackThreshold
                then cohort_error ''NOT_ENOUGH_FALLBACK_SIGNATURES''
                else let chosen = take (nat (int_of fallbackThreshold))
                           (filter (\<lambda>k. jm_has accepted (key_hex k)) cohortXOnly)
                     in Inr (entry, map (\<lambda>pubKey. ((pubKey, leafHash), the (jm_get accepted (key_hex pubKey)))) chosen))))))))"

definition buildFallbackSpend :: "('tx, 'x) agg_lib_scheme \<Rightarrow> 'tx FallbackSpendParams \<Rightarrow> 'tx \<times> 'tx result" where
  "buildFallbackSpend L p =
     (let inputIndex = (case fp_inputIndex p of None \<Rightarrow> 0 | Some i \<Rightarrow> i); tx = fp_pendingTx p
      in case fallbackWitness L p of
        Inl e \<Rightarrow> (tx, Inl e)
      | Inr (entry, scriptSigs) \<Rightarrow>
         (case tx_setTapScriptSigs L tx inputIndex entry scriptSigs of
            None \<Rightarrow> (tx, lib_error)
          | Some tx \<Rightarrow>
             (case tx_finalize L tx of
                None \<Rightarrow> (tx, lib_error)
              | Some tx \<Rightarrow> (tx, Inr tx))))"

section \<open>The recovery spend\<close>

record BeaconUtxoRef =
  ur_txid :: string
  ur_vout :: int
  ur_value :: int

record RecoverySpendParams =
  rp_cohortKeys :: "bytes list"
  rp_recoverySecretKey :: bytes
  rp_recoveryKey :: bytes
  rp_recoverySequence :: jsval
  rp_fallbackThreshold :: jsval
  rp_fundingModel :: "string option"
  rp_network :: string
  rp_utxo :: BeaconUtxoRef
  rp_destinationAddress :: string
  rp_fee :: int
  rp_beaconAddress :: "string option"

definition DUST_LIMIT_SATS :: int where "DUST_LIMIT_SATS = 546"

definition buildRecoverySpend :: "('tx, 'x) agg_lib_scheme \<Rightarrow> RecoverySpendParams \<Rightarrow> 'tx result" where
  "buildRecoverySpend L p =
     (if rp_cohortKeys p = [] then cohort_error ''NO_COHORT_KEYS''
      else rbind (of_option (bip340_public L (rp_recoverySecretKey p))) (\<lambda>derivedPub.
      if derivedPub \<noteq> rp_recoveryKey p then cohort_error ''RECOVERY_KEY_MISMATCH''
      else let out = ur_value (rp_utxo p) - rp_fee p
      in if out \<le> 0 then cohort_error ''FEE_EXCEEDS_VALUE''
         else if out < DUST_LIMIT_SATS then cohort_error ''DUST_OUTPUT''
         else rbind (of_option (musig_sort_keys L (rp_cohortKeys p))) (\<lambda>sortedKeys.
              rbind (of_option (musig_key_agg L sortedKeys)) (\<lambda>internalKey.
              rbind (buildRecoveryLeaves L (case rp_fundingModel p of None \<Rightarrow> DEFAULT_FUNDING_MODEL | Some m \<Rightarrow> m)
                       \<lparr>lp_recoveryKey = rp_recoveryKey p, lp_recoverySequence = rp_recoverySequence p,
                        lp_cohortKeys = rp_cohortKeys p,
                        lp_fallbackThreshold = resolveFallbackThreshold (rp_fallbackThreshold p) (length (rp_cohortKeys p))\<rparr>) (\<lambda>leaves.
              rbind (getNetwork (NetName (rp_network p))) (\<lambda>net.
              rbind (beaconPayment L internalKey leaves (rp_network p)) (\<lambda>payment.
              if rp_beaconAddress p \<noteq> None \<and> tp_address payment \<noteq> rp_beaconAddress p
              then cohort_error ''BEACON_ADDRESS_MISMATCH''
              else of_option (tx_recoverySpend L (ur_txid (rp_utxo p), ur_vout (rp_utxo p))
                     (tp_script payment, ur_value (rp_utxo p)) (tp_tapLeafScript payment)
                     (int_of (rp_recoverySequence p)) (rp_destinationAddress p, out) net
                     (rp_recoverySecretKey p)))))))))"

section \<open>What the witness holds\<close>

lemma hex_byte_inj: "hex_byte a = hex_byte b \<longleftrightarrow> a = b"
  by (metis hex_byte_facts(3) word_unat_eq_iff)

lemma key_hex_inj: "key_hex a = key_hex b \<longleftrightarrow> a = b"
proof
  assume "key_hex a = key_hex b"
  then show "a = b"
  proof (induction a arbitrary: b)
    case Nil
    then show ?case
      by (cases b) (auto simp: key_hex_def hex_byte_two_digits)
  next
    case (Cons x a)
    obtain y c where b: "b = y # c" using Cons.prems by (cases b) (auto simp: key_hex_def hex_byte_two_digits)
    have "hex_byte x = hex_byte y \<and> key_hex a = key_hex c"
      using Cons.prems by (simp add: b key_hex_def)
    then show ?case using Cons.IH [of c] by (simp add: b hex_byte_inj)
  qed
qed simp

text \<open>A signature that was accepted verifies for a cohort key; no key counts twice.\<close>

definition good_signature :: "('tx, 'x) agg_lib_scheme \<Rightarrow> bytes list \<Rightarrow> bytes \<Rightarrow> FallbackSignature list \<Rightarrow> bytes \<Rightarrow> bytes \<Rightarrow> bool" where
  "good_signature L cohortXOnly sighash signatures pk sig \<longleftrightarrow>
     pk \<in> set cohortXOnly \<and> length pk = 32 \<and> length sig = 64 \<and> schnorr_verify L sig sighash pk = Some True \<and>
     \<lparr>fs_pubKey = pk, fs_signature = sig\<rparr> \<in> set signatures"

lemma accepted_good:
  "distinct (map fst (acceptedSignatures L keys h sigs)) \<and>
   (\<forall>(x, sig) \<in> set (acceptedSignatures L keys h sigs). \<exists>pk. x = key_hex pk \<and> good_signature L keys h sigs pk sig)"
proof (induction sigs rule: rev_induct)
  case Nil
  then show ?case by (simp add: acceptedSignatures_def)
next
  case (snoc s sigs)
  let ?acc = "acceptedSignatures L keys h sigs"
  have step: "acceptedSignatures L keys h (sigs @ [s]) = acceptSignature L keys h s ?acc"
    by (simp add: acceptedSignatures_def)
  have mono: "good_signature L keys h sigs pk sig \<Longrightarrow> good_signature L keys h (sigs @ [s]) pk sig" for pk sig
    by (simp add: good_signature_def)
  have old: "\<forall>(x, sig) \<in> set ?acc. \<exists>pk. x = key_hex pk \<and> good_signature L keys h (sigs @ [s]) pk sig"
    using snoc mono by fast
  show ?case
  proof (cases "acceptSignature L keys h s ?acc = ?acc")
    case True
    then show ?thesis using snoc old by (simp add: step)
  next
    case False
    then have fresh: "\<not> jm_has ?acc (key_hex (fs_pubKey s))"
      and good: "good_signature L keys h (sigs @ [s]) (fs_pubKey s) (fs_signature s)"
      and eq: "acceptSignature L keys h s ?acc = jm_set (key_hex (fs_pubKey s)) (fs_signature s) ?acc"
      by (auto simp: acceptSignature_def good_signature_def split: if_splits)
    then show ?thesis using snoc old by (auto simp: step jm_set_fresh' jm_has_iff)
  qed
qed

lemma length_filter_ge:
  assumes "distinct xs" "set xs \<subseteq> f ` {y \<in> set ys. P y}"
  shows "length xs \<le> length (filter P ys)"
proof -
  have "length xs = card (set xs)" using assms(1) by (simp add: distinct_card)
  also have "\<dots> \<le> card (f ` {y \<in> set ys. P y})" using assms(2) by (intro card_mono) auto
  also have "\<dots> \<le> card (set (filter P ys))" using card_image_le [of "set (filter P ys)" f] by simp
  also have "\<dots> \<le> length (filter P ys)" by (rule card_length)
  finally show ?thesis .
qed

lemma chosen_signatures:
  fixes k :: nat
  assumes "k \<le> length (acceptedSignatures L keys h sigs)"
  defines "chosen \<equiv> take k (filter (\<lambda>x. jm_has (acceptedSignatures L keys h sigs) (key_hex x)) keys)"
  shows "length chosen = k"
    "x \<in> set chosen \<Longrightarrow> good_signature L keys h sigs x (the (jm_get (acceptedSignatures L keys h sigs) (key_hex x)))"
proof -
  let ?acc = "acceptedSignatures L keys h sigs"
  have "fst ` set ?acc \<subseteq> key_hex ` {y \<in> set keys. jm_has ?acc (key_hex y)}"
  proof
    fix x assume x: "x \<in> fst ` set ?acc"
    then obtain sig where "(x, sig) \<in> set ?acc" by auto
    then obtain pk where "x = key_hex pk" "good_signature L keys h sigs pk sig" using accepted_good by fast
    then show "x \<in> key_hex ` {y \<in> set keys. jm_has ?acc (key_hex y)}"
      using x by (auto simp: good_signature_def jm_has_iff)
  qed
  then have "length (map fst ?acc) \<le> length (filter (\<lambda>x. jm_has ?acc (key_hex x)) keys)"
    using accepted_good [of L keys h sigs] by (intro length_filter_ge [where f = key_hex]) auto
  then show "length chosen = k" using assms(1) by (simp add: chosen_def)
  assume "x \<in> set chosen"
  then have "jm_has ?acc (key_hex x)" by (auto simp: chosen_def dest: in_set_takeD)
  then obtain sig where sig: "jm_get ?acc (key_hex x) = Some sig" by (auto simp: jm_has_def)
  then obtain pk where "key_hex x = key_hex pk" "good_signature L keys h sigs pk sig"
    using accepted_good map_of_SomeD [OF sig] by fast
  then show "good_signature L keys h sigs x (the (jm_get ?acc (key_hex x)))"
    using sig by (simp add: key_hex_inj)
qed

text \<open>A fallback witness: as many signatures as the threshold asks for, each valid for a member.\<close>

lemma fallbackWitness_good:
  assumes "fallbackWitness L p = Inr (entry, sigs)"
  shows "\<exists>sortedKeys leaf sighash k.
     musig_sort_keys L (fp_cohortKeys p) = Some sortedKeys \<and>
     resolveFallbackThreshold (fp_fallbackThreshold p) (length (fp_cohortKeys p)) = JInt k \<and> 1 \<le> k \<and>
     buildFallbackLeaf L (fp_cohortKeys p) (JInt k) = Inr leaf \<and>
     fallbackSighash L (fp_pendingTx p) (case fp_inputIndex p of None \<Rightarrow> 0 | Some i \<Rightarrow> i)
       (fp_prevOutScript p) (fp_prevOutValue p) leaf = Inr sighash \<and>
     take (length (snd entry) - 1) (snd entry) = leaf \<and>
     int (length sigs) = k \<and>
     (\<forall>((pk, leafHash), sig) \<in> set sigs. leafHash = tapLeafHash L leaf TAPROOT_LEAF_VERSION \<and>
        good_signature L (map (drop 1) sortedKeys) sighash (fp_signatures p) pk sig)"
proof -
  let ?t = "resolveFallbackThreshold (fp_fallbackThreshold p) (length (fp_cohortKeys p))"
  obtain sortedKeys leaf payment sighash where
    sort: "musig_sort_keys L (fp_cohortKeys p) = Some sortedKeys"
    and leaf: "buildFallbackLeaf L (fp_cohortKeys p) ?t = Inr leaf"
    and entry: "leafEntry payment leaf = Some entry"
    and sighash: "fallbackSighash L (fp_pendingTx p) (case fp_inputIndex p of None \<Rightarrow> 0 | Some i \<Rightarrow> i)
       (fp_prevOutScript p) (fp_prevOutValue p) leaf = Inr sighash"
    and enough: "int_of ?t \<le> int (length (acceptedSignatures L (map (drop 1) sortedKeys) sighash (fp_signatures p)))"
    and sigs: "sigs = map (\<lambda>pk. ((pk, tapLeafHash L leaf TAPROOT_LEAF_VERSION),
        the (jm_get (acceptedSignatures L (map (drop 1) sortedKeys) sighash (fp_signatures p)) (key_hex pk))))
      (take (nat (int_of ?t)) (filter (\<lambda>k. jm_has (acceptedSignatures L (map (drop 1) sortedKeys) sighash (fp_signatures p)) (key_hex k))
        (map (drop 1) sortedKeys)))"
    using assms by (auto simp: fallbackWitness_def Let_def rbind_Inr_iff not_less split: if_splits option.splits)
  obtain k where k: "?t = JInt k" "1 \<le> k"
    using leaf by (auto simp: buildFallbackLeaf_Inr_iff assertFallbackParams_Inr_iff elim: is_intE)
  have "nat k \<le> length (acceptedSignatures L (map (drop 1) sortedKeys) sighash (fp_signatures p))"
    using enough k by simp
  note chosen = chosen_signatures [OF this]
  have "take (length (snd entry) - 1) (snd entry) = leaf"
    using entry by (auto simp: leafEntry_def find_Some_iff split: option.splits)
  moreover have "int (length sigs) = k" using chosen(1) k by (simp add: sigs)
  moreover have "\<forall>((pk, leafHash), sig) \<in> set sigs. leafHash = tapLeafHash L leaf TAPROOT_LEAF_VERSION \<and>
        good_signature L (map (drop 1) sortedKeys) sighash (fp_signatures p) pk sig"
    using chosen(2) k by (auto simp: sigs)
  ultimately show ?thesis using sort leaf sighash k by metis
qed

end
