(* ===== verification/AggService.thy ===== *)
theory AggService
  imports AggMessages AggStrategy AggSession AggFallback
begin

text \<open>
  The state machine of the aggregation service: the class \<open>AggregationService\<close> of
  \<open>packages/aggregation/src/service/service.ts\<close>. A method returns the new service and its result:
  the messages to send, or the error it throws; what it assigned before a \<open>throw\<close> stays assigned.
  A handler takes the state of the cohort the message names. Random identifiers and leaf nonces are
  arguments. A rejection is recorded by its sender and code, without the text for humans.
\<close>

section \<open>State\<close>

datatype service_phase =
    Created | Advertised | CohortSet | CollectingUpdates | UpdatesCollected | DataDistributed | Validated
  | SigningStarted | NoncesCollected | AwaitingPartialSigs | FallbackRequested | ServiceComplete | ServiceFailed

record CohortConfig = CohortConditions +
  cf_network :: string

record PendingOptIn =
  po_cohortId :: string
  po_participantDid :: string
  po_participantPk :: bytes
  po_communicationPk :: bytes

record ValidationProgress =
  vp_approved :: "string list"
  vp_rejected :: "string list"
  vp_pending :: "string list"
  vp_total :: nat

record 'tx AggregationResult =
  ar_cohortId :: string
  ar_signature :: bytes
  ar_signedTx :: 'tx
  ar_path :: string

record 'tx SigningTxData =
  td_tx :: 'tx
  td_prevOutScripts :: "bytes list"
  td_prevOutValues :: "int list"

record Rejection =
  rj_from :: string
  rj_code :: string

record 'tx ServiceCohortState =
  cs_phase :: service_phase
  cs_cohort :: AggregationCohort
  cs_config :: CohortConfig
  cs_pendingOptIns :: "(string, PendingOptIn) jsmap"
  cs_acceptedParticipants :: "string list"
  cs_signingSession :: "'tx BeaconSigningSession option"
  cs_result :: "'tx AggregationResult option"
  cs_fallbackSignatures :: "(string, FallbackSignature) jsmap option"
  cs_rejections :: "Rejection list"

record 'tx AggregationService =
  as_did :: string
  as_publicKey :: bytes
  as_maxUpdateSizeBytes :: int
  as_cohortStates :: "(string, 'tx ServiceCohortState) jsmap"

definition DEFAULT_MAX_UPDATE_SIZE_BYTES :: int where "DEFAULT_MAX_UPDATE_SIZE_BYTES = 256 * 1024"

definition newAggregationService :: "string \<Rightarrow> bytes \<Rightarrow> int option \<Rightarrow> 'tx AggregationService" where
  "newAggregationService did publicKey maxUpdateSizeBytes =
     \<lparr>as_did = did, as_publicKey = publicKey,
      as_maxUpdateSizeBytes = (case maxUpdateSizeBytes of None \<Rightarrow> DEFAULT_MAX_UPDATE_SIZE_BYTES | Some n \<Rightarrow> n),
      as_cohortStates = []\<rparr>"

definition service_error :: "string \<Rightarrow> error + 'a" where
  "service_error code = Inl (Error ''AggregationServiceError'' code)"

lemma service_error_simps [simp]: "service_error c \<noteq> Inr a" "Inr a \<noteq> service_error c"
  by (simp_all add: service_error_def)

definition reject :: "string \<Rightarrow> string \<Rightarrow> 'tx ServiceCohortState \<Rightarrow> 'tx ServiceCohortState" where
  "reject sender code st = st\<lparr>cs_rejections := cs_rejections st @ [\<lparr>rj_from = sender, rj_code = code\<rparr>]\<rparr>"

text \<open>An action on the state of a cohort that must exist, and a handler that ignores a message about
  an unknown one.\<close>

definition onCohort ::
  "string \<Rightarrow> ('tx ServiceCohortState \<Rightarrow> 'tx ServiceCohortState \<times> 'a result) \<Rightarrow> 'tx AggregationService
     \<Rightarrow> 'tx AggregationService \<times> 'a result" where
  "onCohort cohortId f svc =
     (case jm_get (as_cohortStates svc) cohortId of
        None \<Rightarrow> (svc, service_error ''COHORT_NOT_FOUND'')
      | Some st \<Rightarrow> let (st, r) = f st
                   in (svc\<lparr>as_cohortStates := jm_set cohortId st (as_cohortStates svc)\<rparr>, r))"

definition handleWith ::
  "BaseMessage \<Rightarrow> ('tx ServiceCohortState \<Rightarrow> 'tx ServiceCohortState \<times> unit result) \<Rightarrow> 'tx AggregationService
     \<Rightarrow> 'tx AggregationService \<times> unit result" where
  "handleWith m f svc =
     (case body_str (m_body m) ''cohortId'' of
        None \<Rightarrow> (svc, Inr ())
      | Some cohortId \<Rightarrow>
          if cohortId = [] then (svc, Inr ())
          else (case jm_get (as_cohortStates svc) cohortId of
                  None \<Rightarrow> (svc, Inr ())
                | Some st \<Rightarrow> let (st, r) = f st
                             in (svc\<lparr>as_cohortStates := jm_set cohortId st (as_cohortStates svc)\<rparr>, r)))"

section \<open>Cohort formation\<close>

definition createCohort ::
  "('tx, 'x) agg_lib_scheme \<Rightarrow> string \<Rightarrow> CohortConfig \<Rightarrow> 'tx AggregationService
     \<Rightarrow> 'tx AggregationService \<times> string result" where
  "createCohort L uuid config svc =
     (if validateCohortConditions (CohortConditions.truncate config) \<noteq> []
      then (svc, service_error ''INVALID_COHORT_CONDITIONS'')
      else case hex_decode L (case co_recoveryKey config of JStr s \<Rightarrow> s | _ \<Rightarrow> []) of
        None \<Rightarrow> (svc, lib_error)
      | Some recoveryKey \<Rightarrow>
          let cohort = newCohort uuid
                \<lparr>cp_id = None, cp_serviceDid = Some (as_did svc), cp_minParticipants = co_minParticipants config,
                 cp_network = cf_network config, cp_beaconType = Some (co_beaconType config),
                 cp_recoveryKey = Some recoveryKey, cp_recoverySequence = co_recoverySequence config,
                 cp_fundingModel = co_fundingModel config, cp_fallbackThreshold = co_fallbackThreshold config\<rparr>;
              st = \<lparr>cs_phase = Created, cs_cohort = cohort, cs_config = config, cs_pendingOptIns = [],
                    cs_acceptedParticipants = [], cs_signingSession = None, cs_result = None,
                    cs_fallbackSignatures = None, cs_rejections = []\<rparr>
          in (svc\<lparr>as_cohortStates := jm_set (ch_id cohort) st (as_cohortStates svc)\<rparr>, Inr (ch_id cohort)))"

definition advertiseState ::
  "'tx AggregationService \<Rightarrow> string \<Rightarrow> 'tx ServiceCohortState \<Rightarrow> 'tx ServiceCohortState \<times> BaseMessage list result" where
  "advertiseState svc cohortId st =
     (if cs_phase st \<noteq> Created then (st, service_error ''INVALID_PHASE'')
      else (st\<lparr>cs_phase := Advertised\<rparr>,
            Inr [createCohortAdvertMessage (as_did svc) cohortId (cf_network (cs_config st)) (as_publicKey svc)
                   (CohortConditions.truncate (cs_config st))]))"

definition advertise :: "string \<Rightarrow> 'tx AggregationService \<Rightarrow> 'tx AggregationService \<times> BaseMessage list result" where
  "advertise cohortId svc = onCohort cohortId (advertiseState svc cohortId) svc"

definition pendingOptIns :: "string \<Rightarrow> 'tx AggregationService \<Rightarrow> (string, PendingOptIn) jsmap" where
  "pendingOptIns cohortId svc =
     (case jm_get (as_cohortStates svc) cohortId of
        None \<Rightarrow> []
      | Some st \<Rightarrow> filter (\<lambda>(did, _). did \<notin> set (cs_acceptedParticipants st)) (cs_pendingOptIns st))"

definition handleOptIn :: "BaseMessage \<Rightarrow> 'tx ServiceCohortState \<Rightarrow> 'tx ServiceCohortState \<times> unit result" where
  "handleOptIn m st =
     (let participantDid = m_from m;
          cohortId = the (body_str (m_body m) ''cohortId'')
      in if cs_phase st \<noteq> Advertised then (st, Inr ())
         else case (body_bytes (m_body m) ''participantPk'', body_bytes (m_body m) ''communicationPk'') of
           (Some participantPk, Some communicationPk) \<Rightarrow>
             if participantDid \<in> set (cs_acceptedParticipants st) then (st, Inr ())
             else (st\<lparr>cs_pendingOptIns := jm_set participantDid
                     \<lparr>po_cohortId = cohortId, po_participantDid = participantDid,
                      po_participantPk = participantPk, po_communicationPk = communicationPk\<rparr>
                     (cs_pendingOptIns st)\<rparr>, Inr ())
         | _ \<Rightarrow> (st, Inr ()))"

definition acceptState ::
  "('tx, 'x) agg_lib_scheme \<Rightarrow> 'tx AggregationService \<Rightarrow> string \<Rightarrow> string \<Rightarrow> 'tx ServiceCohortState
     \<Rightarrow> 'tx ServiceCohortState \<times> BaseMessage list result" where
  "acceptState L svc cohortId participantDid st =
     (case jm_get (cs_pendingOptIns st) participantDid of
        None \<Rightarrow> (st, service_error ''NO_OPT_IN'')
      | Some optIn \<Rightarrow>
          if participantDid \<in> set (cs_acceptedParticipants st) then (st, service_error ''ALREADY_ACCEPTED'')
          else if co_maxParticipants (cs_config st) \<noteq> JUndef \<and>
                  int_of (co_maxParticipants (cs_config st)) \<le> int (length (cs_acceptedParticipants st))
          then (st, service_error ''COHORT_FULL'')
          else
            let ch = cs_cohort st;
                ch1 = ch\<lparr>ch_participants := ch_participants ch @ [participantDid],
                        ch_participantKeys := jm_set participantDid (po_participantPk optIn) (ch_participantKeys ch)\<rparr>;
                (ch2, r) = setCohortKeys L (ch_cohortKeys ch1 @ [po_participantPk optIn]) ch1
            in (st\<lparr>cs_acceptedParticipants := js_add participantDid (cs_acceptedParticipants st), cs_cohort := ch2\<rparr>,
                rbind r (\<lambda>_. Inr [createCohortOptInAcceptMessage (as_did svc) participantDid cohortId])))"

definition acceptParticipant ::
  "('tx, 'x) agg_lib_scheme \<Rightarrow> string \<Rightarrow> string \<Rightarrow> 'tx AggregationService
     \<Rightarrow> 'tx AggregationService \<times> BaseMessage list result" where
  "acceptParticipant L cohortId participantDid svc =
     onCohort cohortId (acceptState L svc cohortId participantDid) svc"

definition finalizeState ::
  "('tx, 'x) agg_lib_scheme \<Rightarrow> 'tx AggregationService \<Rightarrow> string \<Rightarrow> 'tx ServiceCohortState
     \<Rightarrow> 'tx ServiceCohortState \<times> BaseMessage list result" where
  "finalizeState L svc cohortId st =
     (let accepted = int (length (cs_acceptedParticipants st))
      in if cs_phase st \<noteq> Advertised then (st, service_error ''INVALID_PHASE'')
         else if accepted < int_of (co_minParticipants (cs_config st)) then (st, service_error ''NOT_ENOUGH_PARTICIPANTS'')
         else if co_maxParticipants (cs_config st) \<noteq> JUndef \<and> int_of (co_maxParticipants (cs_config st)) < accepted
         then (st, service_error ''TOO_MANY_PARTICIPANTS'')
         else case computeBeaconAddress L (cs_cohort st) of
           (ch, Inl e) \<Rightarrow> (st\<lparr>cs_cohort := ch\<rparr>, Inl e)
         | (ch, Inr beaconAddress) \<Rightarrow>
             (st\<lparr>cs_cohort := ch, cs_phase := CohortSet\<rparr>,
              Inr (map (\<lambda>did. createCohortReadyMessage (as_did svc) did cohortId beaconAddress (ch_cohortKeys ch))
                     (ch_participants ch))))"

definition finalizeKeygen ::
  "('tx, 'x) agg_lib_scheme \<Rightarrow> string \<Rightarrow> 'tx AggregationService \<Rightarrow> 'tx AggregationService \<times> BaseMessage list result" where
  "finalizeKeygen L cohortId svc = onCohort cohortId (finalizeState L svc cohortId) svc"

section \<open>Updates\<close>

definition collectedUpdates :: "string \<Rightarrow> 'tx AggregationService \<Rightarrow> (string, jsval) jsmap" where
  "collectedUpdates cohortId svc =
     (case jm_get (as_cohortStates svc) cohortId of None \<Rightarrow> [] | Some st \<Rightarrow> ch_pendingUpdates (cs_cohort st))"

text \<open>\<open>length\<close> of a JavaScript string, whose characters here are the bytes of its UTF-8 form: one unit
  for every byte that starts a code point, two for those that need four bytes.\<close>

definition utf16_length :: "string \<Rightarrow> nat" where
  "utf16_length s =
     length (filter (\<lambda>c. let n = of_char c :: nat in n < 128 \<or> 192 \<le> n) s) +
     length (filter (\<lambda>c. 240 \<le> (of_char c :: nat)) s)"

definition verifySubmittedUpdate ::
  "'x method_lib_scheme \<Rightarrow> 'tx ServiceCohortState \<Rightarrow> string \<Rightarrow> jsval \<Rightarrow> bool result" where
  "verifySubmittedUpdate L st sender signedUpdate =
     (let proof = js_prop_opt signedUpdate ''proof'';
          vm = js_prop_opt proof ''verificationMethod''
      in if \<not> truthy vm \<or> \<not> truthy (js_prop_opt proof ''proofValue'') then Inr False
         else case vm of
           JStr vmId \<Rightarrow>
             if hd (split_char (CHR ''#'') vmId) \<noteq> sender then Inr False
             else (case jm_get (cs_pendingOptIns st) sender of
                     None \<Rightarrow> Inr False
                   | Some optIn \<Rightarrow>
                      (case newPublicKey L (po_participantPk optIn) of
                         Inl _ \<Rightarrow> Inr False
                       | Inr publicKey \<Rightarrow>
                          (case suiteVerifyProof L \<lparr>mk_id = vmId, mk_controller = sender, mk_publicKey = publicKey,
                                                    mk_signing = NoSecret\<rparr> signedUpdate of
                             Inl _ \<Rightarrow> Inr False
                           | Inr v \<Rightarrow> Inr (vr_verified v))))
         | _ \<Rightarrow> type_error)"

text \<open>The last steps of the two handlers of a response.\<close>

definition responded :: "'tx ServiceCohortState \<Rightarrow> 'tx ServiceCohortState" where
  "responded st =
     (let st = (if cs_phase st = CohortSet then st\<lparr>cs_phase := CollectingUpdates\<rparr> else st)
      in if hasAllResponses (cs_cohort st) then st\<lparr>cs_phase := UpdatesCollected\<rparr> else st)"

definition handleSubmitUpdate ::
  "'x method_lib_scheme \<Rightarrow> int \<Rightarrow> BaseMessage \<Rightarrow> 'tx ServiceCohortState \<Rightarrow> 'tx ServiceCohortState \<times> unit result" where
  "handleSubmitUpdate L maxUpdateSizeBytes m st =
     (let sender = m_from m; signedUpdate = js_prop_opt (m_body m) ''signedUpdate''
      in if cs_phase st \<notin> set [CohortSet, CollectingUpdates] then (st, Inr ())
         else if \<not> truthy signedUpdate then (reject sender ''UPDATE_MALFORMED'' st, Inr ())
         else case canonicalize L signedUpdate of
           Inl e \<Rightarrow> (st, Inl e)
         | Inr canonical \<Rightarrow>
            if maxUpdateSizeBytes < int (utf16_length canonical) then (reject sender ''UPDATE_TOO_LARGE'' st, Inr ())
            else case verifySubmittedUpdate L st sender signedUpdate of
              Inl e \<Rightarrow> (st, Inl e)
            | Inr ok \<Rightarrow>
               if \<not> ok then (reject sender ''UPDATE_VERIFICATION_FAILED'' st, Inr ())
               else if sender \<in> set (ch_nonIncluded (cs_cohort st)) then (reject sender ''UPDATE_MALFORMED'' st, Inr ())
               else if jm_has (ch_pendingUpdates (cs_cohort st)) sender then (reject sender ''UPDATE_MALFORMED'' st, Inr ())
               else case addUpdate sender signedUpdate (cs_cohort st) of
                 (ch, Inl e) \<Rightarrow> (st\<lparr>cs_cohort := ch\<rparr>, Inl e)
               | (ch, Inr _) \<Rightarrow> (responded (st\<lparr>cs_cohort := ch\<rparr>), Inr ()))"

definition handleSubmitNonInclusion ::
  "BaseMessage \<Rightarrow> 'tx ServiceCohortState \<Rightarrow> 'tx ServiceCohortState \<times> unit result" where
  "handleSubmitNonInclusion m st =
     (let sender = m_from m; ch = cs_cohort st
      in if cs_phase st \<notin> set [CohortSet, CollectingUpdates] then (st, Inr ())
         else if sender \<notin> set (ch_participants ch) then (reject sender ''UPDATE_MALFORMED'' st, Inr ())
         else if jm_has (ch_pendingUpdates ch) sender \<or> sender \<in> set (ch_nonIncluded ch)
         then (reject sender ''UPDATE_MALFORMED'' st, Inr ())
         else case addNonInclusion sender ch of
           (ch, Inl e) \<Rightarrow> (st\<lparr>cs_cohort := ch\<rparr>, Inl e)
         | (ch, Inr _) \<Rightarrow> (responded (st\<lparr>cs_cohort := ch\<rparr>), Inr ()))"

section \<open>Aggregation and validation\<close>

definition distributeState ::
  "('tx, 'x) agg_lib_scheme \<Rightarrow> (nat \<Rightarrow> bytes) \<Rightarrow> 'tx AggregationService \<Rightarrow> string \<Rightarrow> 'tx ServiceCohortState
     \<Rightarrow> 'tx ServiceCohortState \<times> BaseMessage list result" where
  "distributeState L nonce svc cohortId st =
     (if cs_phase st \<noteq> UpdatesCollected then (st, service_error ''INVALID_PHASE'')
      else case getBeaconStrategy (STRATEGIES L) (co_beaconType (cs_config st)) of
        None \<Rightarrow> (st, service_error ''UNSUPPORTED_BEACON_TYPE'')
      | Some strategy \<Rightarrow>
         (case st_buildAggregatedData strategy nonce (cs_cohort st) of
            (ch, Inl e) \<Rightarrow> (st\<lparr>cs_cohort := ch\<rparr>, Inl e)
          | (ch, Inr _) \<Rightarrow>
             (case ch_signalBytes ch of
                None \<Rightarrow> (st\<lparr>cs_cohort := ch\<rparr>, type_error)
              | Some signalBytes \<Rightarrow>
                  (st\<lparr>cs_cohort := ch, cs_phase := DataDistributed\<rparr>,
                   Inr (map (\<lambda>did. let payload = st_getDistributePayload strategy ch did
                          in createDistributeAggregatedDataMessage (as_did svc) did cohortId (co_beaconType (cs_config st))
                               (hex_encode L signalBytes) (dp_casAnnouncement payload) (dp_smtProof payload))
                        (ch_participants ch))))))"

definition buildAndDistribute ::
  "('tx, 'x) agg_lib_scheme \<Rightarrow> (nat \<Rightarrow> bytes) \<Rightarrow> string \<Rightarrow> 'tx AggregationService
     \<Rightarrow> 'tx AggregationService \<times> BaseMessage list result" where
  "buildAndDistribute L nonce cohortId svc = onCohort cohortId (distributeState L nonce svc cohortId) svc"

definition validationProgress :: "string \<Rightarrow> 'tx AggregationService \<Rightarrow> ValidationProgress" where
  "validationProgress cohortId svc =
     (case jm_get (as_cohortStates svc) cohortId of
        None \<Rightarrow> \<lparr>vp_approved = [], vp_rejected = [], vp_pending = [], vp_total = 0\<rparr>
      | Some st \<Rightarrow>
          let approved = ch_validationAcks (cs_cohort st); rejected = ch_validationRejections (cs_cohort st);
              allParticipants = rev (remdups (rev (ch_participants (cs_cohort st))))
          in \<lparr>vp_approved = approved, vp_rejected = rejected,
              vp_pending = filter (\<lambda>p. p \<notin> set approved \<and> p \<notin> set rejected) allParticipants,
              vp_total = length allParticipants\<rparr>)"

definition handleValidationAck :: "BaseMessage \<Rightarrow> 'tx ServiceCohortState \<Rightarrow> 'tx ServiceCohortState \<times> unit result" where
  "handleValidationAck m st =
     (if cs_phase st \<noteq> DataDistributed then (st, Inr ())
      else case body_bool (m_body m) ''approved'' of
        None \<Rightarrow> (st, Inr ())
      | Some approved \<Rightarrow>
         (case addValidation (m_from m) approved (cs_cohort st) of
            (ch, Inl e) \<Rightarrow> (st\<lparr>cs_cohort := ch\<rparr>, Inl e)
          | (ch, Inr _) \<Rightarrow>
              (st\<lparr>cs_cohort := ch,
                  cs_phase := (if isFullyValidated ch then Validated
                               else if hasAllValidationResponses ch then ServiceFailed else cs_phase st)\<rparr>, Inr ())))"

section \<open>Signing\<close>

definition startSigningState ::
  "('tx, 'x) agg_lib_scheme \<Rightarrow> 'tx AggregationService \<Rightarrow> string \<Rightarrow> string \<Rightarrow> 'tx SigningTxData \<Rightarrow> 'tx ServiceCohortState
     \<Rightarrow> 'tx ServiceCohortState \<times> BaseMessage list result" where
  "startSigningState L svc uuid cohortId txData st =
     (if cs_phase st \<noteq> Validated then (st, service_error ''INVALID_PHASE'')
      else
        let session = newSession uuid None (td_tx txData) (td_prevOutScripts txData) (td_prevOutValues txData);
            st = st\<lparr>cs_signingSession := Some session, cs_phase := SigningStarted\<rparr>
        in (case td_prevOutScripts txData of
              [] \<Rightarrow> (st, service_error ''MISSING_PREV_OUT_SCRIPT'')
            | prevOutScript # _ \<Rightarrow>
                (st, Inr (map (\<lambda>did. createAuthorizationRequestMessage (as_did svc) did cohortId (ss_id session)
                         (tx_hex L (td_tx txData)) (hex_encode L prevOutScript)
                         (case td_prevOutValues txData of [] \<Rightarrow> ''0'' | v # _ \<Rightarrow> show_int v))
                       (ch_participants (cs_cohort st))))))"

definition startSigning ::
  "('tx, 'x) agg_lib_scheme \<Rightarrow> string \<Rightarrow> string \<Rightarrow> 'tx SigningTxData \<Rightarrow> 'tx AggregationService
     \<Rightarrow> 'tx AggregationService \<times> BaseMessage list result" where
  "startSigning L uuid cohortId txData svc = onCohort cohortId (startSigningState L svc uuid cohortId txData) svc"

definition handleNonceContribution :: "BaseMessage \<Rightarrow> 'tx ServiceCohortState \<Rightarrow> 'tx ServiceCohortState \<times> unit result" where
  "handleNonceContribution m st =
     (case cs_signingSession st of
        None \<Rightarrow> (st, Inr ())
      | Some session \<Rightarrow>
          if cs_phase st \<noteq> SigningStarted then (st, Inr ())
          else if body_str (m_body m) ''sessionId'' \<noteq> Some (ss_id session) then (st, Inr ())
          else case body_bytes (m_body m) ''nonceContribution'' of
            None \<Rightarrow> (st, Inr ())
          | Some nonceContribution \<Rightarrow>
             (case addNonceContribution (cs_cohort st) (m_from m) nonceContribution session of
                (session, Inl e) \<Rightarrow> (st\<lparr>cs_signingSession := Some session\<rparr>, Inl e)
              | (session, Inr _) \<Rightarrow>
                  (st\<lparr>cs_signingSession := Some session,
                      cs_phase := (if length (ss_nonceContributions session) = length (ch_participants (cs_cohort st))
                                   then NoncesCollected else cs_phase st)\<rparr>, Inr ())))"

definition aggregatedNonceState ::
  "('tx, 'x) agg_lib_scheme \<Rightarrow> 'tx AggregationService \<Rightarrow> string \<Rightarrow> 'tx ServiceCohortState
     \<Rightarrow> 'tx ServiceCohortState \<times> BaseMessage list result" where
  "aggregatedNonceState L svc cohortId st =
     (case cs_signingSession st of
        None \<Rightarrow> (st, service_error ''INVALID_PHASE'')
      | Some session \<Rightarrow>
          if cs_phase st \<noteq> NoncesCollected then (st, service_error ''INVALID_PHASE'')
          else case generateAggregatedNonce L session of
            (session, Inl e) \<Rightarrow> (st\<lparr>cs_signingSession := Some session\<rparr>, Inl e)
          | (session, Inr aggregatedNonce) \<Rightarrow>
              (st\<lparr>cs_signingSession := Some session, cs_phase := AwaitingPartialSigs\<rparr>,
               Inr (map (\<lambda>did. createAggregatedNonceMessage (as_did svc) did cohortId (ss_id session) aggregatedNonce)
                      (ch_participants (cs_cohort st)))))"

definition sendAggregatedNonce ::
  "('tx, 'x) agg_lib_scheme \<Rightarrow> string \<Rightarrow> 'tx AggregationService \<Rightarrow> 'tx AggregationService \<times> BaseMessage list result" where
  "sendAggregatedNonce L cohortId svc = onCohort cohortId (aggregatedNonceState L svc cohortId) svc"

text \<open>The end of the key path: the final signature goes into the witness.\<close>

definition completeKeyPath ::
  "('tx, 'x) agg_lib_scheme \<Rightarrow> string \<Rightarrow> 'tx BeaconSigningSession \<Rightarrow> 'tx ServiceCohortState
     \<Rightarrow> 'tx ServiceCohortState \<times> unit result" where
  "completeKeyPath L cohortId session st =
     (case generateFinalSignature L (cs_cohort st) session of
        (session, Inl e) \<Rightarrow> (st\<lparr>cs_signingSession := Some session\<rparr>, Inl e)
      | (session, Inr signature) \<Rightarrow>
         (case tx_setFinalScriptWitness L (ss_pendingTx session) 0 [signature] of
            None \<Rightarrow> (st\<lparr>cs_signingSession := Some session\<rparr>, lib_error)
          | Some tx \<Rightarrow>
              (st\<lparr>cs_signingSession := Some (session\<lparr>ss_pendingTx := tx\<rparr>),
                  cs_result := Some \<lparr>ar_cohortId = cohortId, ar_signature = signature, ar_signedTx = tx,
                                     ar_path = ''key-path''\<rparr>,
                  cs_phase := ServiceComplete\<rparr>, Inr ())))"

definition handleSignatureAuthorization ::
  "('tx, 'x) agg_lib_scheme \<Rightarrow> BaseMessage \<Rightarrow> 'tx ServiceCohortState \<Rightarrow> 'tx ServiceCohortState \<times> unit result" where
  "handleSignatureAuthorization L m st =
     (case cs_signingSession st of
        None \<Rightarrow> (st, Inr ())
      | Some session \<Rightarrow>
          if cs_phase st \<noteq> AwaitingPartialSigs then (st, Inr ())
          else if body_str (m_body m) ''sessionId'' \<noteq> Some (ss_id session) then (st, Inr ())
          else case body_bytes (m_body m) ''partialSignature'' of
            None \<Rightarrow> (st, Inr ())
          | Some partialSignature \<Rightarrow>
             (case addPartialSignature (cs_cohort st) (m_from m) partialSignature session of
                (session, Inl e) \<Rightarrow> (st\<lparr>cs_signingSession := Some session\<rparr>, Inl e)
              | (session, Inr _) \<Rightarrow>
                  if length (ss_partialSignatures session) = length (ch_participants (cs_cohort st))
                  then completeKeyPath L (the (body_str (m_body m) ''cohortId'')) session st
                  else (st\<lparr>cs_signingSession := Some session\<rparr>, Inr ())))"

section \<open>The fallback\<close>

definition startFallbackState ::
  "('tx, 'x) agg_lib_scheme \<Rightarrow> 'tx AggregationService \<Rightarrow> string \<Rightarrow> 'tx ServiceCohortState
     \<Rightarrow> 'tx ServiceCohortState \<times> BaseMessage list result" where
  "startFallbackState L svc cohortId st =
     (case cs_signingSession st of
        None \<Rightarrow> (st, service_error ''NO_SIGNING_SESSION'')
      | Some session \<Rightarrow>
          if cs_phase st \<notin> set [SigningStarted, NoncesCollected, AwaitingPartialSigs]
          then (st, service_error ''INVALID_PHASE'')
          else case (ss_prevOutScripts session, ss_prevOutValues session) of
            (prevOutScript # _, prevOutValue # _) \<Rightarrow>
             (case buildFallbackLeaf L (ch_cohortKeys (cs_cohort st)) (effectiveFallbackThreshold (cs_cohort st)) of
                Inl e \<Rightarrow> (st, Inl e)
              | Inr fallbackLeaf \<Rightarrow>
                  (st\<lparr>cs_fallbackSignatures := Some [], cs_phase := FallbackRequested\<rparr>,
                   Inr (map (\<lambda>did. createFallbackAuthorizationRequestMessage (as_did svc) did cohortId (ss_id session)
                              (tx_hex L (ss_pendingTx session)) (hex_encode L prevOutScript) (show_int prevOutValue)
                              (hex_encode L fallbackLeaf))
                          (ch_participants (cs_cohort st)))))
          | _ \<Rightarrow> (st, service_error ''MISSING_PREV_OUT''))"

definition startFallbackSigning ::
  "('tx, 'x) agg_lib_scheme \<Rightarrow> string \<Rightarrow> 'tx AggregationService \<Rightarrow> 'tx AggregationService \<times> BaseMessage list result" where
  "startFallbackSigning L cohortId svc = onCohort cohortId (startFallbackState L svc cohortId) svc"

text \<open>The spend is assembled once enough signatures have been collected.\<close>

definition fallbackParams ::
  "'tx ServiceCohortState \<Rightarrow> 'tx BeaconSigningSession \<Rightarrow> bytes \<Rightarrow> bytes \<Rightarrow> int \<Rightarrow> (string, FallbackSignature) jsmap
     \<Rightarrow> 'tx FallbackSpendParams" where
  "fallbackParams st session recoveryKey prevOutScript prevOutValue sigs =
     (let ch = cs_cohort st in
      \<lparr>fp_pendingTx = ss_pendingTx session, fp_inputIndex = None, fp_cohortKeys = ch_cohortKeys ch,
       fp_fallbackThreshold = effectiveFallbackThreshold ch, fp_recoveryKey = recoveryKey,
       fp_recoverySequence = ch_recoverySequence ch, fp_fundingModel = Some (ch_fundingModel ch),
       fp_network = ch_network ch, fp_prevOutScript = prevOutScript, fp_prevOutValue = prevOutValue,
       fp_signatures = map snd sigs\<rparr>)"

definition completeScriptPath ::
  "('tx, 'x) agg_lib_scheme \<Rightarrow> string \<Rightarrow> 'tx BeaconSigningSession \<Rightarrow> bytes \<Rightarrow> int \<Rightarrow> (string, FallbackSignature) jsmap
     \<Rightarrow> 'tx ServiceCohortState \<Rightarrow> 'tx ServiceCohortState \<times> unit result" where
  "completeScriptPath L cohortId session prevOutScript prevOutValue sigs st =
     (case ch_recoveryKey (cs_cohort st) of
        None \<Rightarrow> (st, type_error)
      | Some recoveryKey \<Rightarrow>
         (case buildFallbackSpend L (fallbackParams st session recoveryKey prevOutScript prevOutValue sigs) of
            (tx, Inl e) \<Rightarrow> (st\<lparr>cs_signingSession := Some (session\<lparr>ss_pendingTx := tx\<rparr>)\<rparr>, Inl e)
          | (tx, Inr signedTx) \<Rightarrow>
              (st\<lparr>cs_signingSession := Some (session\<lparr>ss_pendingTx := tx\<rparr>),
                  cs_result := Some \<lparr>ar_cohortId = cohortId, ar_signature = [], ar_signedTx = signedTx,
                                     ar_path = ''script-path''\<rparr>,
                  cs_phase := ServiceComplete\<rparr>, Inr ())))"

definition verifiedFallback ::
  "('tx, 'x) agg_lib_scheme \<Rightarrow> AggregationCohort \<Rightarrow> 'tx BeaconSigningSession \<Rightarrow> bytes \<Rightarrow> int \<Rightarrow> bytes \<Rightarrow> bytes \<Rightarrow> bool result" where
  "verifiedFallback L ch session prevOutScript prevOutValue signerPk fallbackSignature =
     rbind (buildFallbackLeaf L (ch_cohortKeys ch) (effectiveFallbackThreshold ch)) (\<lambda>fallbackLeaf.
     rbind (fallbackSighash L (ss_pendingTx session) 0 prevOutScript prevOutValue fallbackLeaf) (\<lambda>sighash.
       Inr (length fallbackSignature = 64 \<and> schnorr_verify L fallbackSignature sighash signerPk = Some True)))"

definition handleFallbackSignature ::
  "('tx, 'x) agg_lib_scheme \<Rightarrow> BaseMessage \<Rightarrow> 'tx ServiceCohortState \<Rightarrow> 'tx ServiceCohortState \<times> unit result" where
  "handleFallbackSignature L m st =
     (case (cs_signingSession st, cs_fallbackSignatures st) of
        (Some session, Some sigs) \<Rightarrow>
          if cs_phase st \<noteq> FallbackRequested then (st, Inr ())
          else if body_str (m_body m) ''sessionId'' \<noteq> Some (ss_id session) then (st, Inr ())
          else case (body_bytes (m_body m) ''signerPk'', body_bytes (m_body m) ''fallbackSignature'',
                     ss_prevOutScripts session, ss_prevOutValues session) of
            (Some signerPk, Some fallbackSignature, prevOutScript # _, prevOutValue # _) \<Rightarrow>
             (case jm_get (ch_participantKeys (cs_cohort st)) (m_from m) of
                None \<Rightarrow> (reject (m_from m) ''UPDATE_MALFORMED'' st, Inr ())
              | Some memberKey \<Rightarrow>
                  let memberXOnly = drop 1 memberKey in
                  if length signerPk \<noteq> 32 \<or> memberXOnly \<noteq> take (length memberXOnly) signerPk
                  then (reject (m_from m) ''UPDATE_MALFORMED'' st, Inr ())
                  else case verifiedFallback L (cs_cohort st) session prevOutScript prevOutValue signerPk fallbackSignature of
                    Inl e \<Rightarrow> (st, Inl e)
                  | Inr valid \<Rightarrow>
                      if \<not> valid then (reject (m_from m) ''UPDATE_VERIFICATION_FAILED'' st, Inr ())
                      else
                        let sigs = jm_set (m_from m) \<lparr>fs_pubKey = signerPk, fs_signature = fallbackSignature\<rparr> sigs;
                            st = st\<lparr>cs_fallbackSignatures := Some sigs\<rparr>
                        in if int_of (effectiveFallbackThreshold (cs_cohort st)) \<le> int (length sigs)
                           then completeScriptPath L (the (body_str (m_body m) ''cohortId'')) session prevOutScript
                                  prevOutValue sigs st
                           else (st, Inr ()))
          | _ \<Rightarrow> (st, Inr ())
      | _ \<Rightarrow> (st, Inr ()))"

section \<open>Messages and getters\<close>

definition messageHandler ::
  "('tx, 'x) agg_lib_scheme \<Rightarrow> int \<Rightarrow> BaseMessage \<Rightarrow> 'tx ServiceCohortState \<Rightarrow> 'tx ServiceCohortState \<times> unit result" where
  "messageHandler L maxUpdateSizeBytes m st =
     (if m_type m = COHORT_OPT_IN then handleOptIn m st
      else if m_type m = SUBMIT_UPDATE then handleSubmitUpdate L maxUpdateSizeBytes m st
      else if m_type m = SUBMIT_NONINCLUDED then handleSubmitNonInclusion m st
      else if m_type m = VALIDATION_ACK then handleValidationAck m st
      else if m_type m = NONCE_CONTRIBUTION then handleNonceContribution m st
      else if m_type m = SIGNATURE_AUTHORIZATION then handleSignatureAuthorization L m st
      else if m_type m = FALLBACK_SIGNATURE then handleFallbackSignature L m st
      else (st, Inr ()))"

definition serviceReceive ::
  "('tx, 'x) agg_lib_scheme \<Rightarrow> BaseMessage \<Rightarrow> 'tx AggregationService \<Rightarrow> 'tx AggregationService \<times> unit result" where
  "serviceReceive L m svc =
     (if m_version m \<noteq> JInt AGGREGATION_WIRE_VERSION
      then handleWith m (\<lambda>st. (reject (m_from m) ''WRONG_VERSION'' st, Inr ())) svc
      else handleWith m (messageHandler L (as_maxUpdateSizeBytes svc) m) svc)"

definition drainRejections :: "string \<Rightarrow> 'tx AggregationService \<Rightarrow> 'tx AggregationService \<times> Rejection list" where
  "drainRejections cohortId svc =
     (case jm_get (as_cohortStates svc) cohortId of
        None \<Rightarrow> (svc, [])
      | Some st \<Rightarrow> (svc\<lparr>as_cohortStates := jm_set cohortId (st\<lparr>cs_rejections := []\<rparr>) (as_cohortStates svc)\<rparr>,
                    cs_rejections st))"

definition getResult :: "string \<Rightarrow> 'tx AggregationService \<Rightarrow> 'tx AggregationResult option" where
  "getResult cohortId svc = Option.bind (jm_get (as_cohortStates svc) cohortId) cs_result"

definition getCohortPhase :: "string \<Rightarrow> 'tx AggregationService \<Rightarrow> service_phase option" where
  "getCohortPhase cohortId svc = map_option cs_phase (jm_get (as_cohortStates svc) cohortId)"

definition getCohort :: "string \<Rightarrow> 'tx AggregationService \<Rightarrow> AggregationCohort option" where
  "getCohort cohortId svc = map_option cs_cohort (jm_get (as_cohortStates svc) cohortId)"

definition getSigningSessionId :: "string \<Rightarrow> 'tx AggregationService \<Rightarrow> string option" where
  "getSigningSessionId cohortId svc =
     Option.bind (jm_get (as_cohortStates svc) cohortId) (\<lambda>st. map_option ss_id (cs_signingSession st))"

definition serviceCohorts :: "'tx AggregationService \<Rightarrow> AggregationCohort list" where
  "serviceCohorts svc = map (\<lambda>(_, st). cs_cohort st) (as_cohortStates svc)"

definition removeCohort :: "string \<Rightarrow> 'tx AggregationService \<Rightarrow> 'tx AggregationService" where
  "removeCohort cohortId svc = svc\<lparr>as_cohortStates := jm_delete cohortId (as_cohortStates svc)\<rparr>"

end
