(* ===== verification/AggServiceProps.thy ===== *)
theory AggServiceProps
  imports AggService
begin

text \<open>
  Properties of the aggregation service: the invariant of the state of a cohort and that every
  operation of the class keeps it, the order of the phases, what a completed cohort guarantees, and
  what the code lets through.
\<close>

section \<open>The invariant of a cohort\<close>

text \<open>The accepted participants are the members; the key of a member is the key of its opt-in on
  record; every update was verified against that key.\<close>

definition update_verified :: "'x method_lib_scheme \<Rightarrow> 'tx ServiceCohortState \<Rightarrow> string \<Rightarrow> jsval \<Rightarrow> bool" where
  "update_verified L st did u \<longleftrightarrow> truthy u \<and> verifySubmittedUpdate L st did u = Inr True"

definition service_inv :: "'x method_lib_scheme \<Rightarrow> 'tx ServiceCohortState \<Rightarrow> bool" where
  "service_inv L st \<longleftrightarrow>
     cohort_inv (cs_cohort st) \<and> distinct (cs_acceptedParticipants st) \<and>
     set (cs_acceptedParticipants st) = set (ch_participants (cs_cohort st)) \<and>
     (\<forall>did pk. jm_get (ch_participantKeys (cs_cohort st)) did = Some pk \<longrightarrow>
        (\<exists>o'. jm_get (cs_pendingOptIns st) did = Some o' \<and> po_participantPk o' = pk)) \<and>
     (\<forall>did u. jm_get (ch_pendingUpdates (cs_cohort st)) did = Some u \<longrightarrow> update_verified L st did u) \<and>
     (\<forall>s. cs_signingSession st = Some s \<longrightarrow> session_inv (cs_cohort st) s)"

lemma service_invD:
  assumes "service_inv L st"
  shows "cohort_inv (cs_cohort st)" "set (cs_acceptedParticipants st) = set (ch_participants (cs_cohort st))"
    "\<And>did u. jm_get (ch_pendingUpdates (cs_cohort st)) did = Some u \<Longrightarrow> update_verified L st did u"
    "\<And>s. cs_signingSession st = Some s \<Longrightarrow> session_inv (cs_cohort st) s"
  using assms by (auto simp: service_inv_def)

text \<open>Verification reads the opt-in of the sender, and nothing else of the state.\<close>

lemma verify_cong:
  assumes "jm_get (cs_pendingOptIns st') did = jm_get (cs_pendingOptIns st) did"
  shows "update_verified L st' did u = update_verified L st did u"
  unfolding update_verified_def verifySubmittedUpdate_def assms ..

lemma verified_updates [simp]:
  "update_verified L (st\<lparr>cs_cohort := ch\<rparr>) did u = update_verified L st did u"
  "update_verified L (st\<lparr>cs_signingSession := ss\<rparr>) did u = update_verified L st did u"
  by (rule verify_cong, simp)+

text \<open>What the invariant looks at.\<close>

lemma service_inv_cong:
  assumes "cs_cohort st' = cs_cohort st" "cs_acceptedParticipants st' = cs_acceptedParticipants st"
    "cs_pendingOptIns st' = cs_pendingOptIns st" "cs_signingSession st' = cs_signingSession st"
  shows "service_inv L st' = service_inv L st"
  using assms verify_cong [of st' _ st L] by (simp add: service_inv_def)

text \<open>Changing the cohort in what its own invariant covers.\<close>

lemma service_inv_cohort:
  assumes "service_inv L st" "cohort_inv ch" "ch_participants ch = ch_participants (cs_cohort st)"
    "ch_participantKeys ch = ch_participantKeys (cs_cohort st)"
    "\<And>did u. jm_get (ch_pendingUpdates ch) did = Some u \<Longrightarrow>
       jm_get (ch_pendingUpdates (cs_cohort st)) did = Some u \<or> update_verified L st did u"
  shows "service_inv L (st\<lparr>cs_cohort := ch\<rparr>)"
  using assms
  by (auto simp: service_inv_def session_inv_def) blast

lemma service_inv_session:
  assumes "service_inv L st" "session_inv (cs_cohort st) s"
  shows "service_inv L (st\<lparr>cs_signingSession := Some s\<rparr>)"
  using assms by (auto simp: service_inv_def)

lemma service_inv_fields [simp]:
  "service_inv L (st\<lparr>cs_phase := p\<rparr>) = service_inv L st"
  "service_inv L (st\<lparr>cs_result := r\<rparr>) = service_inv L st"
  "service_inv L (st\<lparr>cs_fallbackSignatures := f\<rparr>) = service_inv L st"
  "service_inv L (st\<lparr>cs_rejections := j\<rparr>) = service_inv L st"
  "service_inv L (reject s c st) = service_inv L st"
  by (rule service_inv_cong; simp add: reject_def)+

lemma service_inv_responded [simp]: "service_inv L (responded st) = service_inv L st"
  by (simp add: responded_def Let_def)

section \<open>Every handler keeps it\<close>

lemma optIn_inv: "service_inv L st \<Longrightarrow> service_inv L (fst (handleOptIn m st))"
proof -
  assume inv: "service_inv L st"
  show ?thesis
  proof (cases "fst (handleOptIn m st) = st")
    case False
    then obtain o' where st': "fst (handleOptIn m st) = st\<lparr>cs_pendingOptIns := jm_set (m_from m) o' (cs_pendingOptIns st)\<rparr>"
      and fresh: "m_from m \<notin> set (cs_acceptedParticipants st)"
      by (auto simp: handleOptIn_def Let_def split: option.splits if_splits)
    have keys: "fst ` set (ch_participantKeys (cs_cohort st)) = set (cs_acceptedParticipants st)"
      and ups: "fst ` set (ch_pendingUpdates (cs_cohort st)) \<subseteq> set (cs_acceptedParticipants st)"
      using inv by (auto simp: service_inv_def cohort_inv_def)
    have "did \<noteq> m_from m" if "jm_get (ch_participantKeys (cs_cohort st)) did = Some pk" for did pk
      using map_of_SomeD [OF that] keys fresh by force
    moreover have "did \<noteq> m_from m" if "jm_get (ch_pendingUpdates (cs_cohort st)) did = Some u" for did u
      using map_of_SomeD [OF that] ups fresh by force
    moreover have "update_verified L (st\<lparr>cs_pendingOptIns := jm_set (m_from m) o' (cs_pendingOptIns st)\<rparr>) did u =
        update_verified L st did u" if "did \<noteq> m_from m" for did u
      using that by (intro verify_cong) simp
    ultimately show ?thesis using inv
      by (auto simp: st' service_inv_def)
  qed (simp add: inv)
qed

lemma addUpdate_ch:
  "addUpdate did u ch = (ch', r) \<Longrightarrow> ch_participants ch' = ch_participants ch \<and>
     ch_participantKeys ch' = ch_participantKeys ch \<and>
     (\<forall>d v. jm_get (ch_pendingUpdates ch') d = Some v \<longrightarrow> jm_get (ch_pendingUpdates ch) d = Some v \<or> d = did \<and> v = u)"
  by (auto simp: addUpdate_def split: if_splits)

lemma submitUpdate_inv: "service_inv L st \<Longrightarrow> service_inv L (fst (handleSubmitUpdate L mx m st))"
proof -
  assume inv: "service_inv L st"
  let ?u = "js_prop_opt (m_body m) ''signedUpdate''" and ?d = "m_from m"
  have "service_inv L (st\<lparr>cs_cohort := ch\<rparr>)"
    if "addUpdate ?d ?u (cs_cohort st) = (ch, r)" "truthy ?u" "verifySubmittedUpdate L st ?d ?u = Inr True"
      "?d \<notin> set (ch_nonIncluded (cs_cohort st))" for ch and r :: "unit result"
  proof (rule service_inv_cohort [OF inv])
    show "cohort_inv ch"
      using cohort_inv_addUpdate [OF service_invD(1) [OF inv] that(4), of ?u] that(1) by simp
    show "jm_get (ch_pendingUpdates ch) did = Some u \<Longrightarrow>
        jm_get (ch_pendingUpdates (cs_cohort st)) did = Some u \<or> update_verified L st did u" for did u
      using addUpdate_ch [OF that(1)] that(2,3) by (auto simp: update_verified_def)
  qed (use addUpdate_ch [OF that(1)] in simp_all)
  then show ?thesis using inv
    by (auto simp: handleSubmitUpdate_def Let_def split: sum.splits prod.splits)
qed

lemma nonInclusion_inv: "service_inv L st \<Longrightarrow> service_inv L (fst (handleSubmitNonInclusion m st))"
proof -
  assume inv: "service_inv L st"
  have "service_inv L (st\<lparr>cs_cohort := ch\<rparr>)"
    if "addNonInclusion (m_from m) (cs_cohort st) = (ch, r)" for ch and r :: "unit result"
  proof (rule service_inv_cohort [OF inv])
    show "cohort_inv ch"
      using cohort_inv_addNonInclusion [OF service_invD(1) [OF inv], of "m_from m"] that by simp
  qed (use that in \<open>auto simp: addNonInclusion_def split: if_splits\<close>)
  then show ?thesis using inv
    by (auto simp: handleSubmitNonInclusion_def Let_def split: sum.splits prod.splits)
qed

lemma ack_inv: "service_inv L st \<Longrightarrow> service_inv L (fst (handleValidationAck m st))"
proof -
  assume inv: "service_inv L st"
  have "service_inv L (st\<lparr>cs_cohort := ch\<rparr>)"
    if "addValidation (m_from m) ok (cs_cohort st) = (ch, r)" for ch ok and r :: "unit result"
  proof (rule service_inv_cohort [OF inv])
    show "cohort_inv ch"
      using cohort_inv_addValidation [OF service_invD(1) [OF inv], of "m_from m" ok] that by simp
  qed (use that in \<open>auto simp: addValidation_def split: if_splits\<close>)
  then have "service_inv L (st\<lparr>cs_cohort := ch, cs_phase := p\<rparr>)"
    if "addValidation (m_from m) ok (cs_cohort st) = (ch, r)" for ch ok p and r :: "unit result"
    using that by simp
  moreover have "service_inv L (st\<lparr>cs_cohort := ch\<rparr>)"
    if "addValidation (m_from m) ok (cs_cohort st) = (ch, r)" for ch ok and r :: "unit result"
    using calculation [OF that, where p = "cs_phase st"] by simp
  ultimately show ?thesis using inv
    by (auto simp: handleValidationAck_def split: option.splits sum.splits prod.splits)
qed

lemma nonce_inv_handler: "service_inv L st \<Longrightarrow> service_inv L (fst (handleNonceContribution m st))"
proof -
  assume inv: "service_inv L st"
  have "service_inv L (st\<lparr>cs_signingSession := Some s'\<rparr>)"
    if "cs_signingSession st = Some s" "addNonceContribution (cs_cohort st) (m_from m) n s = (s', r)"
    for s s' n and r :: "unit result"
    using service_inv_session [OF inv] session_inv_nonce [OF service_invD(4) [OF inv that(1)], of "m_from m" n] that(2)
    by simp
  then show ?thesis using inv
    by (auto simp: handleNonceContribution_def split: option.splits sum.splits prod.splits)
qed

lemma completeKeyPath_inv:
  assumes inv: "service_inv L' st" and s: "session_inv (cs_cohort st) session"
  shows "service_inv L' (fst (completeKeyPath L cohortId session st))"
proof -
  have "service_inv L' (st\<lparr>cs_signingSession := Some s'\<rparr>)" "service_inv L' (st\<lparr>cs_signingSession := Some (s'\<lparr>ss_pendingTx := tx\<rparr>)\<rparr>)"
    if "generateFinalSignature L (cs_cohort st) session = (s', r)" for s' tx and r :: "bytes result"
    using service_inv_session [OF inv] session_inv_final [OF s, of L] that by (simp_all add: session_inv_def)
  then show ?thesis
    by (auto simp: completeKeyPath_def split: option.splits sum.splits prod.splits)
qed

lemma signature_inv: "service_inv L' st \<Longrightarrow> service_inv L' (fst (handleSignatureAuthorization L m st))"
proof -
  assume inv: "service_inv L' st"
  have s': "session_inv (cs_cohort st) s'"
    if "cs_signingSession st = Some s" "addPartialSignature (cs_cohort st) (m_from m) n s = (s', r)"
    for s s' n and r :: "unit result"
    using session_inv_partial [OF service_invD(4) [OF inv that(1)], of "m_from m" n] that(2) by simp
  have "service_inv L' (fst (completeKeyPath L cid s' st))" "service_inv L' (st\<lparr>cs_signingSession := Some s'\<rparr>)"
    if "cs_signingSession st = Some s" "addPartialSignature (cs_cohort st) (m_from m) n s = (s', r)"
    for s s' n cid and r :: "unit result"
    using completeKeyPath_inv [OF inv s' [OF that]] service_inv_session [OF inv s' [OF that]] by simp_all
  then show ?thesis using inv
    by (auto simp: handleSignatureAuthorization_def split: option.splits sum.splits prod.splits)
qed

lemma completeScriptPath_inv:
  assumes inv: "service_inv L' st" and s: "session_inv (cs_cohort st) session"
  shows "service_inv L' (fst (completeScriptPath L cohortId session script v sigs st))"
proof -
  have "service_inv L' (st\<lparr>cs_signingSession := Some (session\<lparr>ss_pendingTx := tx\<rparr>)\<rparr>)" for tx
    using service_inv_session [OF inv] s by (simp add: session_inv_def)
  then show ?thesis using inv
    by (auto simp: completeScriptPath_def split: option.splits sum.splits prod.splits)
qed

lemma fallback_inv: "service_inv L' st \<Longrightarrow> service_inv L' (fst (handleFallbackSignature L m st))"
proof -
  assume inv: "service_inv L' st"
  have "service_inv L' (fst (completeScriptPath L cid s script v sigs (st\<lparr>cs_fallbackSignatures := f\<rparr>)))"
    if "cs_signingSession st = Some s" for cid s script v sigs f
    using inv service_invD(4) [OF inv that] by (intro completeScriptPath_inv) simp_all
  then show ?thesis using inv
    by (auto simp: handleFallbackSignature_def Let_def split: option.splits sum.splits prod.splits list.splits)
qed

lemma handler_inv: "service_inv L st \<Longrightarrow> service_inv L (fst (messageHandler L mx m st))"
  by (simp add: messageHandler_def optIn_inv submitUpdate_inv nonInclusion_inv ack_inv nonce_inv_handler
      signature_inv fallback_inv)

section \<open>Every action keeps it\<close>

lemma accept_inv:
  fixes st :: "'tx ServiceCohortState"
  assumes inv: "service_inv L' st"
  shows "service_inv L' (fst (acceptState L svc cohortId did st))"
proof -
  let ?ch = "cs_cohort st"
  have main: "service_inv L' (st\<lparr>cs_acceptedParticipants := js_add did (cs_acceptedParticipants st), cs_cohort := ch2\<rparr>)"
    if o': "jm_get (cs_pendingOptIns st) did = Some o'" and fresh: "did \<notin> set (cs_acceptedParticipants st)"
      and ch2: "setCohortKeys L ks (?ch\<lparr>ch_participants := ch_participants ?ch @ [did],
          ch_participantKeys := jm_set did (po_participantPk o') (ch_participantKeys ?ch)\<rparr>) = (ch2, r)"
    for o' ch2 ks and r :: "unit result"
  proof -
    have np: "did \<notin> set (ch_participants ?ch)" using inv fresh by (simp add: service_inv_def)
    obtain keys where ch2': "ch2 = ?ch\<lparr>ch_participants := ch_participants ?ch @ [did],
        ch_participantKeys := jm_set did (po_participantPk o') (ch_participantKeys ?ch), ch_cohortKeys := keys\<rparr>"
    proof (cases "musig_sort_keys L ks")
      case None
      then show ?thesis using ch2 by (intro that [of "ch_cohortKeys ?ch"]) (auto simp: setCohortKeys_def)
    next
      case (Some keys)
      then show ?thesis using ch2 by (intro that [of keys]) (auto simp: setCohortKeys_def)
    qed
    have "cohort_inv ch2" using service_invD(1) [OF inv] np by (auto simp: cohort_inv_def ch2')
    moreover have "update_verified L' (st\<lparr>cs_acceptedParticipants := js_add did (cs_acceptedParticipants st), cs_cohort := ch2\<rparr>) d u
        = update_verified L' st d u" for d u
      by (rule verify_cong) simp
    moreover have "session_inv ch2 s" if "session_inv ?ch s" for s :: "'tx BeaconSigningSession"
      using that by (auto simp: session_inv_def ch2')
    ultimately show ?thesis using inv o' fresh by (auto simp: service_inv_def ch2')
  qed
  show ?thesis using inv main
    by (auto simp: acceptState_def Let_def split: option.splits prod.splits)
qed

lemma address_frame:
  "computeBeaconAddress L ch = (ch', r) \<Longrightarrow>
     ch_participants ch' = ch_participants ch \<and> ch_participantKeys ch' = ch_participantKeys ch \<and>
     ch_pendingUpdates ch' = ch_pendingUpdates ch \<and> ch_cohortKeys ch' = ch_cohortKeys ch \<and> cohort_inv ch' = cohort_inv ch"
proof (cases "cohortPayment L ch")
  case (Inr p)
  obtain a payment where p: "p = (a, payment)" by (cases p)
  assume "computeBeaconAddress L ch = (ch', r)"
  then have "ch' = ch\<lparr>ch_internalKey := a, ch_tapMerkleRoot := tp_tapMerkleRoot payment,
               ch_tapTweak := tagged_hash L ''TapTweak'' (a @ tp_tapMerkleRoot payment)\<rparr> \<or>
    (\<exists>b. ch' = ch\<lparr>ch_internalKey := a, ch_tapMerkleRoot := tp_tapMerkleRoot payment,
               ch_tapTweak := tagged_hash L ''TapTweak'' (a @ tp_tapMerkleRoot payment), ch_beaconAddress := b\<rparr>)"
    by (auto simp: computeBeaconAddress_def Inr p Let_def split: if_split_asm)
  then show ?thesis by (elim disjE exE) (simp_all add: cohort_inv_def)
qed (simp add: computeBeaconAddress_def)

lemma finalize_inv: "service_inv L' st \<Longrightarrow> service_inv L' (fst (finalizeState L svc cohortId st))"
proof -
  assume inv: "service_inv L' st"
  obtain ch r where addr: "computeBeaconAddress L (cs_cohort st) = (ch, r)" by force
  have "service_inv L' (st\<lparr>cs_cohort := ch\<rparr>)"
    using address_frame [OF addr] service_invD(1) [OF inv] by (intro service_inv_cohort [OF inv]) simp_all
  then have "service_inv L' (st\<lparr>cs_cohort := ch\<rparr>)" "service_inv L' (st\<lparr>cs_cohort := ch, cs_phase := p\<rparr>)" for p
    by simp_all
  then show ?thesis using inv
    by (cases r) (simp_all add: finalizeState_def addr Let_def)
qed

lemma strategy_frame:
  assumes "getBeaconStrategy (STRATEGIES L) t = Some strategy" "st_buildAggregatedData strategy nonce ch = (ch', r)"
  shows "ch_participants ch' = ch_participants ch" "ch_participantKeys ch' = ch_participantKeys ch"
    "ch_pendingUpdates ch' = ch_pendingUpdates ch" "ch_cohortKeys ch' = ch_cohortKeys ch" "cohort_inv ch' = cohort_inv ch"
  using assms cas.build_keeps [of L nonce ch ch' r] smt.build_keeps [of L nonce ch ch' r]
  by (auto simp: strategies_get split: if_splits)

lemma distribute_inv: "service_inv L' st \<Longrightarrow> service_inv L' (fst (distributeState L nonce svc cohortId st))"
proof -
  assume inv: "service_inv L' st"
  have "service_inv L' (st\<lparr>cs_cohort := ch\<rparr>)"
    if "getBeaconStrategy (STRATEGIES L) t = Some strategy" "st_buildAggregatedData strategy nonce (cs_cohort st) = (ch, r)"
    for ch t strategy and r :: "unit result"
    using strategy_frame [OF that] service_invD(1) [OF inv] by (intro service_inv_cohort [OF inv]) simp_all
  then have step: "service_inv L' (st\<lparr>cs_cohort := ch\<rparr>) \<and> service_inv L' (st\<lparr>cs_cohort := ch, cs_phase := p\<rparr>)"
    if "getBeaconStrategy (STRATEGIES L) t = Some strategy" "st_buildAggregatedData strategy nonce (cs_cohort st) = (ch, r)"
    for ch t strategy p and r :: "unit result"
    using that by simp
  show ?thesis
  proof (cases "getBeaconStrategy (STRATEGIES L) (co_beaconType (cs_config st))")
    case None
    then show ?thesis using inv by (simp add: distributeState_def)
  next
    case (Some strategy)
    obtain ch r where b: "st_buildAggregatedData strategy nonce (cs_cohort st) = (ch, r)" by force
    show ?thesis using inv step [OF Some b]
      by (cases r; cases "ch_signalBytes ch") (simp_all add: distributeState_def Some b)
  qed
qed

lemma signing_inv:
  fixes st :: "'tx ServiceCohortState"
  shows
  "service_inv L' st \<Longrightarrow> service_inv L' (fst (startSigningState L svc uuid cohortId txData st))"
  "service_inv L' st \<Longrightarrow> service_inv L' (fst (aggregatedNonceState L svc cohortId st))"
  "service_inv L' st \<Longrightarrow> service_inv L' (fst (startFallbackState L svc cohortId st))"
  "service_inv L' st \<Longrightarrow> service_inv L' (fst (advertiseState svc cohortId st))"
proof -
  assume inv: "service_inv L' st"
  have new: "service_inv L' (st\<lparr>cs_signingSession := Some (newSession uuid None tx ss vs)\<rparr>)" for tx :: 'tx and ss vs
    using service_inv_session [OF inv] by simp
  then have "service_inv L' (st\<lparr>cs_signingSession := Some (newSession uuid None tx ss vs), cs_phase := p\<rparr>)" for tx :: 'tx and ss vs p
    by simp
  then show "service_inv L' (fst (startSigningState L svc uuid cohortId txData st))" using inv
    by (auto simp: startSigningState_def Let_def split: list.splits)
  have "service_inv L' (st\<lparr>cs_signingSession := Some s'\<rparr>)" "service_inv L' (st\<lparr>cs_signingSession := Some s', cs_phase := p\<rparr>)"
    if "cs_signingSession st = Some s" "generateAggregatedNonce L s = (s', r)" for s s' p and r :: "bytes result"
    using service_inv_session [OF inv] session_inv_agg [OF service_invD(4) [OF inv that(1)], of L] that(2) by simp_all
  then show "service_inv L' (fst (aggregatedNonceState L svc cohortId st))" using inv
    by (auto simp: aggregatedNonceState_def split: option.splits sum.splits prod.splits)
  have "service_inv L' (st\<lparr>cs_fallbackSignatures := f, cs_phase := p\<rparr>)" for f p using inv by simp
  then show "service_inv L' (fst (startFallbackState L svc cohortId st))" using inv
    by (auto simp: startFallbackState_def split: option.splits list.splits sum.splits)
  show "service_inv L' (fst (advertiseState svc cohortId st))" using inv by (simp add: advertiseState_def)
qed

end
