(* ===== verification/AggServiceRun.thy ===== *)
theory AggServiceRun
  imports AggServiceProps
begin

text \<open>
  Runs of the aggregation service: a call of a method with its arguments, the services a sequence of
  calls can reach, and what one call does to the state of one cohort (\<open>cohort_step\<close>). The invariant
  of \<open>AggServiceProps\<close> holds in every reachable service; the lemmas on single steps say when the
  phases \<open>UpdatesCollected\<close>, \<open>Validated\<close> and \<open>ServiceComplete\<close> are entered.
\<close>

section \<open>Calls\<close>

datatype 'tx service_call =
    ReceiveMessage BaseMessage
  | CreateCohort string CohortConfig
  | Advertise string
  | AcceptParticipant string string
  | FinalizeKeygen string
  | BuildAndDistribute "nat \<Rightarrow> bytes" string
  | StartSigning string string "'tx SigningTxData"
  | SendAggregatedNonce string
  | StartFallbackSigning string
  | DrainRejections string
  | RemoveCohort string

fun serviceCall :: "('tx, 'x) agg_lib_scheme \<Rightarrow> 'tx service_call \<Rightarrow> 'tx AggregationService \<Rightarrow> 'tx AggregationService" where
  "serviceCall L (ReceiveMessage m) svc = fst (serviceReceive L m svc)"
| "serviceCall L (CreateCohort uuid config) svc = fst (createCohort L uuid config svc)"
| "serviceCall L (Advertise cid) svc = fst (advertise cid svc)"
| "serviceCall L (AcceptParticipant cid did) svc = fst (acceptParticipant L cid did svc)"
| "serviceCall L (FinalizeKeygen cid) svc = fst (finalizeKeygen L cid svc)"
| "serviceCall L (BuildAndDistribute nonce cid) svc = fst (buildAndDistribute L nonce cid svc)"
| "serviceCall L (StartSigning uuid cid txData) svc = fst (startSigning L uuid cid txData svc)"
| "serviceCall L (SendAggregatedNonce cid) svc = fst (sendAggregatedNonce L cid svc)"
| "serviceCall L (StartFallbackSigning cid) svc = fst (startFallbackSigning L cid svc)"
| "serviceCall L (DrainRejections cid) svc = fst (drainRejections cid svc)"
| "serviceCall L (RemoveCohort cid) svc = removeCohort cid svc"

inductive service_reach :: "('tx, 'x) agg_lib_scheme \<Rightarrow> 'tx AggregationService \<Rightarrow> bool" for L where
  start: "service_reach L (newAggregationService did publicKey maxUpdateSizeBytes)"
| call: "service_reach L svc \<Longrightarrow> service_reach L (serviceCall L c svc)"

text \<open>What a call can do to the state of a cohort.\<close>

inductive cohort_step ::
  "('tx, 'x) agg_lib_scheme \<Rightarrow> 'tx ServiceCohortState \<Rightarrow> 'tx ServiceCohortState \<Rightarrow> bool" for L where
  message: "cohort_step L st (fst (messageHandler L mx m st))"
| rejected: "cohort_step L st (reject sender code st)"
| advertised: "cohort_step L st (fst (advertiseState svc cid st))"
| accepted: "cohort_step L st (fst (acceptState L svc cid did st))"
| finalized: "cohort_step L st (fst (finalizeState L svc cid st))"
| distributed: "cohort_step L st (fst (distributeState L nonce svc cid st))"
| signing: "cohort_step L st (fst (startSigningState L svc uuid cid txData st))"
| nonces: "cohort_step L st (fst (aggregatedNonceState L svc cid st))"
| fallback: "cohort_step L st (fst (startFallbackState L svc cid st))"
| drained: "cohort_step L st (st\<lparr>cs_rejections := []\<rparr>)"

text \<open>The terms of a cohort that its address depends on are those of its valid configuration, and its
  keys are sorted.\<close>

definition agreed_terms :: "('tx, 'x) agg_lib_scheme \<Rightarrow> 'tx ServiceCohortState \<Rightarrow> bool" where
  "agreed_terms L st \<longleftrightarrow>
     validateCohortConditions (CohortConditions.truncate (cs_config st)) = [] \<and>
     (\<exists>key. hex_decode L (case co_recoveryKey (cs_config st) of JStr s \<Rightarrow> s | _ \<Rightarrow> []) = Some key \<and>
        ch_recoveryKey (cs_cohort st) = Some key) \<and>
     ch_recoverySequence (cs_cohort st) = co_recoverySequence (cs_config st) \<and>
     ch_fundingModel (cs_cohort st) =
       (case co_fundingModel (cs_config st) of None \<Rightarrow> DEFAULT_FUNDING_MODEL | Some m \<Rightarrow> m) \<and>
     ch_fallbackThreshold (cs_cohort st) = co_fallbackThreshold (cs_config st) \<and>
     ch_network (cs_cohort st) = cf_network (cs_config st) \<and>
     (ch_cohortKeys (cs_cohort st) = [] \<or> (\<exists>ks. musig_sort_keys L ks = Some (ch_cohortKeys (cs_cohort st))))"

definition fresh_state :: "('tx, 'x) agg_lib_scheme \<Rightarrow> 'tx ServiceCohortState \<Rightarrow> bool" where
  "fresh_state L st \<longleftrightarrow> (\<exists>uuid p. cs_cohort st = newCohort uuid p) \<and> cs_phase st = Created \<and>
     cs_pendingOptIns st = [] \<and> cs_acceptedParticipants st = [] \<and> cs_signingSession st = None \<and>
     cs_result st = None \<and> agreed_terms L st"

lemma onCohort_get:
  "jm_get (as_cohortStates (fst (onCohort c f svc))) cid =
     (if cid = c then map_option (\<lambda>st. fst (f st)) (jm_get (as_cohortStates svc) c) else jm_get (as_cohortStates svc) cid)"
  by (simp add: onCohort_def Let_def split: option.split prod.split)

lemma handleWith_get:
  assumes "jm_get (as_cohortStates (fst (handleWith m f svc))) cid = Some st'"
  obtains st where "jm_get (as_cohortStates svc) cid = Some st" "st' = st \<or> st' = fst (f st)"
  using assms
  by (auto simp: handleWith_def Let_def split: option.splits prod.splits if_splits)

lemma createCohort_get:
  assumes "jm_get (as_cohortStates (fst (createCohort L uuid config svc))) cid = Some st'"
  shows "jm_get (as_cohortStates svc) cid = Some st' \<or> fresh_state L st'"
proof (cases "validateCohortConditions (CohortConditions.truncate config) = [] \<and>
    hex_decode L (case co_recoveryKey config of JStr s \<Rightarrow> s | _ \<Rightarrow> []) \<noteq> None")
  case True
  then obtain key where key: "hex_decode L (case co_recoveryKey config of JStr s \<Rightarrow> s | _ \<Rightarrow> []) = Some key" by blast
  define ch where "ch = newCohort uuid
    \<lparr>cp_id = None, cp_serviceDid = Some (as_did svc), cp_minParticipants = co_minParticipants config,
     cp_network = cf_network config, cp_beaconType = Some (co_beaconType config), cp_recoveryKey = Some key,
     cp_recoverySequence = co_recoverySequence config, cp_fundingModel = co_fundingModel config,
     cp_fallbackThreshold = co_fallbackThreshold config\<rparr>"
  let ?st = "\<lparr>cs_phase = Created, cs_cohort = ch, cs_config = config, cs_pendingOptIns = [], cs_acceptedParticipants = [],
     cs_signingSession = None, cs_result = None, cs_fallbackSignatures = None, cs_rejections = []\<rparr>"
  have "fst (createCohort L uuid config svc) = svc\<lparr>as_cohortStates := jm_set (ch_id ch) ?st (as_cohortStates svc)\<rparr>"
    using True key by (simp add: createCohort_def ch_def Let_def)
  moreover have "agreed_terms L ?st" using True key by (simp add: agreed_terms_def ch_def newCohort_def)
  then have "fresh_state L ?st" by (auto simp: fresh_state_def ch_def)
  ultimately show ?thesis using assms by (cases "cid = ch_id ch") auto
next
  case False
  then have "fst (createCohort L uuid config svc) = svc"
    by (auto simp: createCohort_def)
  then show ?thesis using assms by simp
qed

lemma serviceCall_step:
  fixes L :: "('tx, 'x) agg_lib_scheme"
  assumes "jm_get (as_cohortStates (serviceCall L c svc)) cid = Some st'"
  shows "fresh_state L st' \<or> (\<exists>st. jm_get (as_cohortStates svc) cid = Some st \<and> (st' = st \<or> cohort_step L st st'))"
proof (cases c)
  case (ReceiveMessage m)
  then show ?thesis using assms
    by (auto simp: serviceReceive_def elim!: handleWith_get intro: cohort_step.intros split: if_splits)
next
  case (CreateCohort uuid config)
  then show ?thesis using assms createCohort_get by fastforce
next
  case (DrainRejections k)
  then show ?thesis using assms
    by (auto simp: drainRejections_def intro: cohort_step.intros split: option.splits if_splits)
next
  case (RemoveCohort k)
  then show ?thesis using assms by (auto simp: removeCohort_def split: if_splits)
qed (use assms in \<open>auto simp: onCohort_get advertise_def acceptParticipant_def finalizeKeygen_def buildAndDistribute_def
  startSigning_def sendAggregatedNonce_def startFallbackSigning_def intro: cohort_step.intros split: if_splits\<close>)

lemma fresh_state_inv: "fresh_state L' st \<Longrightarrow> service_inv L st"
  by (auto simp: fresh_state_def service_inv_def newCohort_def cohort_inv_def)

lemma cohort_step_inv: "cohort_step L st st' \<Longrightarrow> service_inv L st \<Longrightarrow> service_inv L st'"
proof (induction rule: cohort_step.induct)
  case (drained st)
  then show ?case by simp
qed (simp_all add: handler_inv signing_inv accept_inv finalize_inv distribute_inv)

lemma service_reach_inv:
  assumes "service_reach L svc" "jm_get (as_cohortStates svc) cid = Some st"
  shows "service_inv L st"
  using assms
proof (induction arbitrary: st)
  case (start did publicKey maxUpdateSizeBytes)
  then show ?case by (simp add: newAggregationService_def)
next
  case (call svc c)
  from serviceCall_step [OF call.prems] show ?case
    using fresh_state_inv cohort_step_inv call.IH by blast
qed

section \<open>The terms\<close>

definition cohort_terms ::
  "'tx ServiceCohortState \<Rightarrow> CohortConfig \<times> bytes option \<times> jsval \<times> string \<times> jsval \<times> string \<times> bytes list" where
  "cohort_terms st = (let ch = cs_cohort st in
     (cs_config st, ch_recoveryKey ch, ch_recoverySequence ch, ch_fundingModel ch, ch_fallbackThreshold ch, ch_network ch, ch_cohortKeys ch))"

lemma agreed_terms_cong: "cohort_terms st' = cohort_terms st \<Longrightarrow> agreed_terms L st' = agreed_terms L st"
  by (simp add: cohort_terms_def agreed_terms_def Let_def)

lemma cohort_terms_simps [simp]:
  "cohort_terms (reject s c st) = cohort_terms st" "cohort_terms (responded st) = cohort_terms st"
  "cohort_terms (st\<lparr>cs_phase := p\<rparr>) = cohort_terms st" "cohort_terms (st\<lparr>cs_result := r\<rparr>) = cohort_terms st"
  "cohort_terms (st\<lparr>cs_signingSession := ss\<rparr>) = cohort_terms st"
  "cohort_terms (st\<lparr>cs_fallbackSignatures := f\<rparr>) = cohort_terms st"
  "cohort_terms (st\<lparr>cs_rejections := j\<rparr>) = cohort_terms st"
  "cohort_terms (st\<lparr>cs_pendingOptIns := o'\<rparr>) = cohort_terms st"
  "cohort_terms (st\<lparr>cs_acceptedParticipants := ps\<rparr>) = cohort_terms st"
  by (simp_all add: cohort_terms_def reject_def responded_def Let_def)

text \<open>What the operations of the cohort keep.\<close>

definition same_terms :: "AggregationCohort \<Rightarrow> AggregationCohort \<Rightarrow> bool" where
  "same_terms ch ch' \<longleftrightarrow> ch_recoveryKey ch' = ch_recoveryKey ch \<and> ch_recoverySequence ch' = ch_recoverySequence ch \<and>
     ch_fundingModel ch' = ch_fundingModel ch \<and> ch_fallbackThreshold ch' = ch_fallbackThreshold ch \<and>
     ch_network ch' = ch_network ch \<and> ch_cohortKeys ch' = ch_cohortKeys ch"

lemma same_terms_simps [simp]:
  "same_terms (ch\<lparr>ch_participants := ps\<rparr>) ch' = same_terms ch ch'"
  "same_terms (ch\<lparr>ch_participantKeys := ks\<rparr>) ch' = same_terms ch ch'"
  by (simp_all add: same_terms_def)

lemma cohort_terms_cohort [simp]:
  "same_terms (cs_cohort st) ch \<Longrightarrow> cohort_terms (st\<lparr>cs_cohort := ch\<rparr>) = cohort_terms st"
  by (simp add: cohort_terms_def same_terms_def Let_def)

lemma cohort_ops_terms:
  "addUpdate d u ch = (ch', r) \<Longrightarrow> same_terms ch ch'" "addNonInclusion d ch = (ch', r) \<Longrightarrow> same_terms ch ch'"
  "addValidation d ok ch = (ch', r) \<Longrightarrow> same_terms ch ch'"
  "computeBeaconAddress L ch = (ch', a) \<Longrightarrow> same_terms ch ch'"
  by (auto simp: same_terms_def addUpdate_def addNonInclusion_def addValidation_def
      computeBeaconAddress_def Let_def split: if_splits option.splits sum.splits)

lemma build_terms:
  assumes "getBeaconStrategy (STRATEGIES L) t = Some strategy" "st_buildAggregatedData strategy nonce ch = (ch', r)"
  shows "same_terms ch ch'"
proof -
  have "\<exists>cas smt sig. ch' = ch\<lparr>ch_casAnnouncement := cas, ch_smtProofs := smt, ch_signalBytes := sig\<rparr>"
    using assms cas.build_frame [of L nonce ch ch' r] smt.build_frame [of L nonce ch ch' r]
    by (auto simp only: strategies_get option.inject option.distinct split: if_splits)
  then show ?thesis by (auto simp: same_terms_def)
qed

lemma optIn_terms: "cohort_terms (fst (handleOptIn m st)) = cohort_terms st"
  by (simp add: handleOptIn_def Let_def split: option.split)

lemma submitUpdate_terms: "cohort_terms (fst (handleSubmitUpdate L mx m st)) = cohort_terms st"
  by (auto simp: handleSubmitUpdate_def Let_def dest: cohort_ops_terms split: sum.split prod.split)

lemma nonInclusion_terms: "cohort_terms (fst (handleSubmitNonInclusion m st)) = cohort_terms st"
  by (auto simp: handleSubmitNonInclusion_def Let_def dest: cohort_ops_terms split: sum.split prod.split)

lemma ack_terms: "cohort_terms (fst (handleValidationAck m st)) = cohort_terms st"
  by (auto simp: handleValidationAck_def dest: cohort_ops_terms split: sum.split prod.split option.split)

lemma nonce_terms: "cohort_terms (fst (handleNonceContribution m st)) = cohort_terms st"
  by (auto simp: handleNonceContribution_def split: sum.split prod.split option.split)

lemmas handler_terms = optIn_terms submitUpdate_terms nonInclusion_terms ack_terms nonce_terms

lemma completion_terms:
  "cohort_terms (fst (completeKeyPath L cid s st)) = cohort_terms st"
  "cohort_terms (fst (completeScriptPath L cid s sc v sigs st)) = cohort_terms st"
  by (auto simp: completeKeyPath_def completeScriptPath_def split: sum.split prod.split option.split)

lemma signing_terms:
  "cohort_terms (fst (handleSignatureAuthorization L m st)) = cohort_terms st"
  "cohort_terms (fst (handleFallbackSignature L m st)) = cohort_terms st"
  by (auto simp: handleSignatureAuthorization_def handleFallbackSignature_def completion_terms Let_def
      split: sum.split prod.split option.split list.split)

lemma action_terms:
  "cohort_terms (fst (advertiseState svc cid st)) = cohort_terms st"
  "cohort_terms (fst (finalizeState L svc cid st)) = cohort_terms st"
  "cohort_terms (fst (distributeState L nonce svc cid st)) = cohort_terms st"
  "cohort_terms (fst (startSigningState L svc uuid cid txData st)) = cohort_terms st"
  "cohort_terms (fst (aggregatedNonceState L svc cid st)) = cohort_terms st"
  "cohort_terms (fst (startFallbackState L svc cid st)) = cohort_terms st"
  by (auto simp: advertiseState_def finalizeState_def distributeState_def startSigningState_def
      aggregatedNonceState_def startFallbackState_def Let_def dest: cohort_ops_terms build_terms
      split: sum.split prod.split option.split list.split)

text \<open>Acceptance alone changes the keys, and sorts them.\<close>

definition rekeyed :: "('tx, 'x) agg_lib_scheme \<Rightarrow> 'tx ServiceCohortState \<Rightarrow> 'tx ServiceCohortState \<Rightarrow> bool" where
  "rekeyed L st st' \<longleftrightarrow> (\<exists>ks keys. musig_sort_keys L ks = Some keys \<and>
     cohort_terms st' = cohort_terms (st\<lparr>cs_cohort := (cs_cohort st)\<lparr>ch_cohortKeys := keys\<rparr>\<rparr>))"

lemma accept_terms:
  "cohort_terms (fst (acceptState L svc cid did st)) = cohort_terms st \<or> rekeyed L st (fst (acceptState L svc cid did st))"
proof (cases "fst (acceptState L svc cid did st) = st")
  case False
  then obtain optIn where optIn: "jm_get (cs_pendingOptIns st) did = Some optIn" "did \<notin> set (cs_acceptedParticipants st)"
    "\<not> (co_maxParticipants (cs_config st) \<noteq> JUndef \<and>
        int_of (co_maxParticipants (cs_config st)) \<le> int (length (cs_acceptedParticipants st)))"
    by (auto simp: acceptState_def split: option.splits if_splits)
  then have s: "fst (acceptState L svc cid did st) =
      st\<lparr>cs_acceptedParticipants := js_add did (cs_acceptedParticipants st),
         cs_cohort := fst (setCohortKeys L (ch_cohortKeys (cs_cohort st) @ [po_participantPk optIn]) (cs_cohort st
           \<lparr>ch_participants := ch_participants (cs_cohort st) @ [did],
            ch_participantKeys := jm_set did (po_participantPk optIn) (ch_participantKeys (cs_cohort st))\<rparr>))\<rparr>"
    unfolding acceptState_def by (auto simp: Let_def split: prod.split)
  show ?thesis
  proof (cases "musig_sort_keys L (ch_cohortKeys (cs_cohort st) @ [po_participantPk optIn])")
    case None
    then show ?thesis by (simp add: s setCohortKeys_def same_terms_def)
  next
    case (Some keys)
    then have "rekeyed L st (fst (acceptState L svc cid did st))"
      unfolding rekeyed_def by (intro exI conjI) (assumption, simp add: s setCohortKeys_def cohort_terms_def Let_def)
    then show ?thesis ..
  qed
qed simp

text \<open>A property of the results of all handlers holds of that of \<open>receive\<close>.\<close>

lemma messageHandler_cases:
  "P (handleOptIn m st) \<Longrightarrow> P (handleSubmitUpdate L mx m st) \<Longrightarrow> P (handleSubmitNonInclusion m st) \<Longrightarrow>
   P (handleValidationAck m st) \<Longrightarrow> P (handleNonceContribution m st) \<Longrightarrow> P (handleSignatureAuthorization L m st) \<Longrightarrow>
   P (handleFallbackSignature L m st) \<Longrightarrow> P (st, Inr ()) \<Longrightarrow> P (messageHandler L mx m st)"
  unfolding messageHandler_def by presburger

lemma step_terms: "cohort_step L st st' \<Longrightarrow> cohort_terms st' = cohort_terms st \<or> rekeyed L st st'"
proof (induction rule: cohort_step.induct)
  case (message st mx m)
  show ?case by (rule messageHandler_cases) (simp_all add: handler_terms signing_terms)
qed (simp_all add: action_terms accept_terms)

lemma rekeyed_agreed: "rekeyed L st st' \<Longrightarrow> agreed_terms L st \<Longrightarrow> agreed_terms L st'"
  by (auto simp: rekeyed_def cohort_terms_def agreed_terms_def Let_def)

lemma service_reach_terms:
  assumes "service_reach L svc" "jm_get (as_cohortStates svc) cid = Some st"
  shows "agreed_terms L st"
  using assms
proof (induction arbitrary: st)
  case (start did publicKey maxUpdateSizeBytes)
  then show ?case by (simp add: newAggregationService_def)
next
  case (call svc c)
  from serviceCall_step [OF call.prems] show ?case
    using agreed_terms_cong step_terms rekeyed_agreed call.IH unfolding fresh_state_def by metis
qed

section \<open>The order of the phases\<close>

text \<open>The abstract protocol: the phases a cohort can pass to. \<open>ServiceComplete\<close> and \<open>ServiceFailed\<close>
  are final.\<close>

definition phase_edges :: "(service_phase \<times> service_phase) list" where
  "phase_edges =
     [(Created, Advertised), (Advertised, CohortSet), (CohortSet, CollectingUpdates), (CohortSet, UpdatesCollected),
      (CollectingUpdates, UpdatesCollected), (UpdatesCollected, DataDistributed), (DataDistributed, Validated),
      (DataDistributed, ServiceFailed), (Validated, SigningStarted), (SigningStarted, NoncesCollected),
      (NoncesCollected, AwaitingPartialSigs), (AwaitingPartialSigs, ServiceComplete),
      (SigningStarted, FallbackRequested), (NoncesCollected, FallbackRequested),
      (AwaitingPartialSigs, FallbackRequested), (FallbackRequested, ServiceComplete)]"

abbreviation phase_ok :: "'tx ServiceCohortState \<Rightarrow> 'tx ServiceCohortState \<Rightarrow> bool" where
  "phase_ok st st' \<equiv> cs_phase st' = cs_phase st \<or> (cs_phase st, cs_phase st') \<in> set phase_edges"

lemma phase_reject [simp]: "cs_phase (reject s c st) = cs_phase st"
  by (simp add: reject_def)

lemma phase_responded:
  "cs_phase (responded st) = (if hasAllResponses (cs_cohort st) then UpdatesCollected
     else if cs_phase st = CohortSet then CollectingUpdates else cs_phase st)"
  by (simp add: responded_def Let_def)

lemma completeKeyPath_phase:
  "cs_phase (fst (completeKeyPath L cid s st)) = cs_phase st \<or> cs_phase (fst (completeKeyPath L cid s st)) = ServiceComplete"
  by (auto simp: completeKeyPath_def split: sum.split prod.split option.split)

lemma completeScriptPath_phase:
  "cs_phase (fst (completeScriptPath L cid s sc v sigs st)) = cs_phase st \<or>
   cs_phase (fst (completeScriptPath L cid s sc v sigs st)) = ServiceComplete"
  by (auto simp: completeScriptPath_def split: sum.split prod.split option.split)

lemma optIn_phase: "phase_ok st (fst (handleOptIn m st))"
  by (simp add: handleOptIn_def Let_def split: option.split)

lemma submitUpdate_phase: "phase_ok st (fst (handleSubmitUpdate L mx m st))"
  by (auto simp: handleSubmitUpdate_def Let_def phase_responded phase_edges_def split: sum.split prod.split)

lemma nonInclusion_phase: "phase_ok st (fst (handleSubmitNonInclusion m st))"
  by (auto simp: handleSubmitNonInclusion_def Let_def phase_responded phase_edges_def split: sum.split prod.split)

lemma ack_phase: "phase_ok st (fst (handleValidationAck m st))"
  by (auto simp: handleValidationAck_def phase_edges_def split: sum.split prod.split option.split)

lemma nonce_phase: "phase_ok st (fst (handleNonceContribution m st))"
  by (auto simp: handleNonceContribution_def phase_edges_def split: sum.split prod.split option.split)

lemma signature_phase: "phase_ok st (fst (handleSignatureAuthorization L m st))"
proof (cases "cs_phase st = AwaitingPartialSigs")
  case True
  have "cs_phase (fst (completeKeyPath L cid s st)) = AwaitingPartialSigs \<or>
      cs_phase (fst (completeKeyPath L cid s st)) = ServiceComplete" for cid s
    using completeKeyPath_phase [of L cid s st] True by simp
  then have "cs_phase (fst (handleSignatureAuthorization L m st)) = AwaitingPartialSigs \<or>
      cs_phase (fst (handleSignatureAuthorization L m st)) = ServiceComplete"
    by (simp add: handleSignatureAuthorization_def True split: sum.split prod.split option.split)
  with True show ?thesis by (auto simp: phase_edges_def)
qed (simp add: handleSignatureAuthorization_def split: option.split)

lemma fallback_phase: "phase_ok st (fst (handleFallbackSignature L m st))"
proof (cases "cs_phase st = FallbackRequested")
  case True
  have "cs_phase (fst (completeScriptPath L cid s sc v sigs (st\<lparr>cs_fallbackSignatures := f\<rparr>))) = FallbackRequested \<or>
      cs_phase (fst (completeScriptPath L cid s sc v sigs (st\<lparr>cs_fallbackSignatures := f\<rparr>))) = ServiceComplete"
    for cid s sc v sigs f
    using completeScriptPath_phase [of L cid s sc v sigs "st\<lparr>cs_fallbackSignatures := f\<rparr>"] True by simp
  then have "cs_phase (fst (handleFallbackSignature L m st)) = FallbackRequested \<or>
      cs_phase (fst (handleFallbackSignature L m st)) = ServiceComplete"
    by (simp add: handleFallbackSignature_def Let_def True split: sum.split prod.split option.split list.split)
  with True show ?thesis by (auto simp: phase_edges_def)
qed (simp add: handleFallbackSignature_def split: option.split)

lemmas handler_phases = optIn_phase submitUpdate_phase nonInclusion_phase ack_phase nonce_phase signature_phase fallback_phase

lemma action_phases:
  "phase_ok st (fst (advertiseState svc cid st))"
  "phase_ok st (fst (acceptState L svc cid did st))"
  "phase_ok st (fst (finalizeState L svc cid st))"
  "phase_ok st (fst (distributeState L nonce svc cid st))"
  "phase_ok st (fst (startSigningState L svc uuid cid txData st))"
  "phase_ok st (fst (aggregatedNonceState L svc cid st))"
  "phase_ok st (fst (startFallbackState L svc cid st))"
  by (auto simp: advertiseState_def acceptState_def finalizeState_def distributeState_def startSigningState_def
      aggregatedNonceState_def startFallbackState_def Let_def phase_edges_def
      split: sum.split prod.split option.split list.split)

lemma step_phase: "cohort_step L st st' \<Longrightarrow> phase_ok st st'"
proof (induction rule: cohort_step.induct)
  case (message st mx m)
  show ?case by (rule messageHandler_cases) (rule handler_phases | simp)+
qed (use action_phases in simp_all)

end
