(* ===== verification/DemoAgg.thy ===== *)
theory DemoAgg
  imports DemoLib AggServiceRun "HOL-Library.List_Lexorder"
begin

text \<open>
  A concrete instance of the libraries of the aggregation package, at which its witnesses apply the
  properties: keys sorted by their bytes, a MuSig2 whose partial and final signatures are the
  message, scripts that encode to short byte strings, and transactions of one output script and a
  witness. Then a run of the service for a cohort of one member that declines and signs.
\<close>

section \<open>The libraries\<close>

type_synonym demo_tx = "bytes \<times> bytes list"

definition demo_sighash :: "demo_tx \<Rightarrow> bytes" where "demo_sighash tx = demo_hash (fst tx)"

definition demo_alib :: "demo_tx agg_lib" where
  "demo_alib = method_lib.extend demo_mlib
     \<lparr>musig_sort_keys = \<lambda>ks. Some (sort_key (map unat) ks),
      musig_key_agg = \<lambda>ks. if ks = [] then None else Some (drop 1 (hd ks)),
      musig_nonce_agg = \<lambda>ns. if ns = [] then None else Some (hd ns),
      musig_nonce_gen = \<lambda>pk sk agg rand. Some (take 66 (rand @ pk @ pk), rand),
      musig_session_ok = \<lambda>ms. True,
      musig_sign = \<lambda>ms secret sk. Some (ms_message ms),
      musig_partial_verify = \<lambda>ms sig ns i. Some (sig = ms_message ms),
      musig_partial_agg = \<lambda>ms sigs. Some (ms_message ms),
      tagged_hash = \<lambda>t bs. demo_hash bs,
      bip340_sign = \<lambda>h sk rand. Some (h @ h),
      bip340_public = \<lambda>sk. Some sk,
      script_encode = \<lambda>items. Some [of_nat (length items)],
      script_decode = \<lambda>bs. (case bs of b # r \<Rightarrow> if b = 0x6a then Some [OpCode ''RETURN'', OpData r] else None | _ \<Rightarrow> None),
      p2tr_ms = \<lambda>k keys. Some (of_int k # concat keys),
      p2tr = \<lambda>key leaves net. Some \<lparr>tp_script = key, tp_address = Some (CHR ''b'' # demo_hex key),
        tp_tapMerkleRoot = concat leaves, tp_tapLeafScript = Some (map (\<lambda>l. ([], l @ [0xc0])) leaves)\<rparr>,
      tx_hex = \<lambda>tx. demo_hex (fst tx),
      tx_fromRaw = \<lambda>raw. Some (raw, []),
      tx_outputScripts = \<lambda>tx. [Some (fst tx)],
      tx_preimageWitnessV1 = \<lambda>tx i scripts values leaf. Some (demo_sighash tx),
      tx_setFinalScriptWitness = \<lambda>tx i w. Some (fst tx, w),
      tx_setTapScriptSigs = \<lambda>tx i entry sigs. Some (fst tx, map snd sigs),
      tx_finalize = \<lambda>tx. Some tx,
      tx_recoverySpend = \<lambda>outpoint spent leaves sequence dest net sk. Some ([], [sk])\<rparr>"

lemma demo_alib_base [simp]:
  "sha256 demo_alib = demo_hash" "hex_encode demo_alib = demo_hex" "hex_decode demo_alib = (\<lambda>s. Some (demo_unhex s))"
  "base64url_encode demo_alib = demo_encode" "base64url_decode demo_alib = demo_decode"
  "schnorr_verify demo_alib = (\<lambda>signature msg k. Some (signature = msg @ msg))"
  "jcs demo_alib = demo_jcs" "secp_valid demo_alib = (\<lambda>k. hd k \<in> set [2, 3])"
  by (simp_all add: demo_alib_def demo_mlib_def method_lib.defs)

lemma demo_alib_musig [simp]:
  "musig_sort_keys demo_alib ks = Some (sort_key (map unat) ks)"
  "musig_key_agg demo_alib ks = (if ks = [] then None else Some (drop 1 (hd ks)))"
  "musig_nonce_agg demo_alib ns = (if ns = [] then None else Some (hd ns))"
  "musig_nonce_gen demo_alib pk sk agg rand = Some (take 66 (rand @ pk @ pk), rand)"
  "musig_session_ok demo_alib ms" "musig_sign demo_alib ms secret sk = Some (ms_message ms)"
  "musig_partial_verify demo_alib ms sig nonces i = Some (sig = ms_message ms)"
  "musig_partial_agg demo_alib ms sigs = Some (ms_message ms)"
  "tagged_hash demo_alib t bs = demo_hash bs" "bip340_sign demo_alib h sk rand = Some (h @ h)"
  "bip340_public demo_alib sk = Some sk"
  by (simp_all add: demo_alib_def method_lib.defs)

lemma demo_alib_tx [simp]:
  "script_encode demo_alib items = Some [of_nat (length items)]"
  "script_decode demo_alib bs = (case bs of b # r \<Rightarrow> if b = 0x6a then Some [OpCode ''RETURN'', OpData r] else None | _ \<Rightarrow> None)"
  "p2tr_ms demo_alib k keys = Some (of_int k # concat keys)"
  "p2tr demo_alib key leaves net = Some \<lparr>tp_script = key, tp_address = Some (CHR ''b'' # demo_hex key),
      tp_tapMerkleRoot = concat leaves, tp_tapLeafScript = Some (map (\<lambda>l. ([], l @ [0xc0])) leaves)\<rparr>"
  "tx_hex demo_alib tx = demo_hex (fst tx)" "tx_fromRaw demo_alib raw = Some (raw, [])"
  "tx_outputScripts demo_alib tx = [Some (fst tx)]"
  "tx_preimageWitnessV1 demo_alib tx i scripts vals leaf = Some (demo_sighash tx)"
  "tx_setFinalScriptWitness demo_alib tx i w = Some (fst tx, w)"
  "tx_setTapScriptSigs demo_alib tx i entry sigs = Some (fst tx, map snd sigs)"
  "tx_finalize demo_alib tx = Some tx"
  by (simp_all add: demo_alib_def method_lib.defs)

lemma sort_key_unique:
  fixes ks ks' :: "bytes list"
  assumes "mset ks = mset ks'"
  shows "sort_key (map unat) ks = sort_key (map unat) ks'"
proof (rule properties_for_sort_key)
  show "mset (sort_key (map unat) ks') = mset ks" using assms by simp
  have "inj (unat :: byte \<Rightarrow> nat)" by (rule injI) (simp add: word_unat_eq_iff)
  then have eq: "(\<lambda>x. map unat k = map unat x) = (\<lambda>x. k = x)" for k :: bytes
    by (rule ext [OF inj_map_eq_map])
  have count: "filter (\<lambda>x. k = x) xs = replicate (count (mset xs) k) k" for k and xs :: "bytes list"
    by (induction xs) auto
  show "filter (\<lambda>x. map unat k = map unat x) (sort_key (map unat) ks') = filter (\<lambda>x. map unat k = map unat x) ks" for k :: bytes
    unfolding eq count mset_sort assms ..
qed simp

lemma demo_alib_ok: "sha256_ok demo_alib" "base64url_ok demo_alib" "jcs_ok demo_alib" "codecs_ok demo_alib"
  "sort_keys_ok demo_alib"
proof -
  have fields: "sha256 demo_alib = sha256 demo_mlib" "base64url_encode demo_alib = base64url_encode demo_mlib"
    "base64url_decode demo_alib = base64url_decode demo_mlib" "jcs demo_alib = jcs demo_mlib"
    "json_parse demo_alib = json_parse demo_mlib" "hex_encode demo_alib = hex_encode demo_mlib"
    "hex_decode demo_alib = hex_decode demo_mlib" "base58_encode demo_alib = base58_encode demo_mlib"
    "base58_decode demo_alib = base58_decode demo_mlib" "base58btc_encode demo_alib = base58btc_encode demo_mlib"
    "base58btc_decode demo_alib = base58btc_decode demo_mlib"
    by (simp_all only: demo_alib_def method_lib.defs demo_mlib_def method_lib.simps hash_lib.simps)
  show "sha256_ok demo_alib" using demo_mlib_ok(1) unfolding sha256_ok_def fields .
  show "base64url_ok demo_alib" using demo_mlib_ok(3) unfolding base64url_ok_def fields .
  show "jcs_ok demo_alib" using demo_mlib_ok(4) unfolding jcs_ok_def fields .
  show "codecs_ok demo_alib" using demo_mlib_ok(5) unfolding codecs_ok_def fields .
  show "sort_keys_ok demo_alib" unfolding sort_keys_ok_def demo_alib_musig
    by (intro conjI allI impI arg_cong [where f = Some] sort_key_unique) (auto simp: mset_sort)
qed

section \<open>A run of the service\<close>

text \<open>
  Three participants ask to join; two are accepted, decline, validate and sign, and the opt-in of the
  third stays pending. The last call completes the cohort.
\<close>

definition demo_config :: CohortConfig where
  "demo_config = \<lparr>co_beaconType = ''CASBeacon'', co_minParticipants = JInt 2, co_maxParticipants = JUndef,
     co_minDidsPerParticipant = JUndef, co_maxDidsPerParticipant = JUndef, co_costOfEnrollment = None,
     co_costPerAnnouncement = None, co_minSecondsBetweenAnnouncements = JUndef,
     co_maxSecondsBetweenAnnouncements = JUndef, co_pendingUpdateTrigger = JUndef, co_fundingModel = None,
     co_recoveryKey = JStr (demo_hex (replicate 32 0)), co_recoverySequence = JInt 144,
     co_fallbackThreshold = JUndef, cf_network = ''bitcoin''\<rparr>"

definition demo_pk :: "byte \<Rightarrow> bytes" where "demo_pk b = 2 # replicate 32 b"

definition demo_members :: "(string \<times> bytes) list" where
  "demo_members = [(''did:m'', demo_pk 1), (''did:n'', demo_pk 2)]"

text \<open>The transaction anchors the hash of the announcement of a cohort in which all decline.\<close>

definition demo_signal :: bytes where "demo_signal = canon_hash demo_alib (JObj [])"

definition demo_beacon_tx :: demo_tx where "demo_beacon_tx = (0x6a # demo_signal, [])"

definition demo_txData :: "demo_tx SigningTxData" where
  "demo_txData = \<lparr>td_tx = demo_beacon_tx, td_prevOutScripts = [replicate 32 1], td_prevOutValues = [5]\<rparr>"

definition demo_calls :: "demo_tx service_call list" where
  "demo_calls =
    [CreateCohort ''c'' demo_config, Advertise ''c''] @
    map (\<lambda>(did, pk). ReceiveMessage (createCohortOptInMessage did ''did:s'' ''c'' pk pk JUndef))
      (demo_members @ [(''did:o'', demo_pk 3)]) @
    map (\<lambda>(did, pk). AcceptParticipant ''c'' did) demo_members @
    [FinalizeKeygen ''c''] @
    map (\<lambda>(did, pk). ReceiveMessage (createSubmitNonIncludedMessage did ''did:s'' ''c'')) demo_members @
    [BuildAndDistribute (\<lambda>_. replicate 32 0) ''c''] @
    map (\<lambda>(did, pk). ReceiveMessage (createValidationAckMessage did ''did:s'' ''c'' True)) demo_members @
    [StartSigning ''u'' ''c'' demo_txData] @
    map (\<lambda>(did, pk). ReceiveMessage (createNonceContributionMessage did ''did:s'' ''c'' ''u'' (replicate 66 2))) demo_members @
    [SendAggregatedNonce ''c''] @
    map (\<lambda>(did, pk). ReceiveMessage (createSignatureAuthorizationMessage did ''did:s'' ''c'' ''u''
      (demo_sighash demo_beacon_tx))) demo_members"

text \<open>The service after the first \<open>n\<close> calls, and the state of its cohort.\<close>

definition demo_run :: "nat \<Rightarrow> demo_tx AggregationService" where
  "demo_run n = foldl (\<lambda>s c. serviceCall demo_alib c s) (newAggregationService ''did:s'' [] None) (take n demo_calls)"

definition demo_cohort :: "nat \<Rightarrow> demo_tx ServiceCohortState option" where
  "demo_cohort n = jm_get (as_cohortStates (demo_run n)) ''c''"

lemma demo_run_reach: "service_reach demo_alib (demo_run n)"
proof -
  have "service_reach demo_alib (foldl (\<lambda>s c. serviceCall demo_alib c s) svc cs)"
    if "service_reach demo_alib svc" for svc cs
    using that by (induction cs arbitrary: svc) (auto intro: service_reach.call)
  then show ?thesis by (simp add: demo_run_def service_reach.start)
qed

lemma demo_run_Suc: "n < length demo_calls \<Longrightarrow> demo_run (Suc n) = serviceCall demo_alib (demo_calls ! n) (demo_run n)"
  by (simp add: demo_run_def take_Suc_conv_app_nth)

text \<open>
  What the witnesses read off the states of the run. One evaluation goes through the run and checks
  every state on the way.
\<close>

definition demo_expect :: "nat \<Rightarrow> demo_tx ServiceCohortState \<Rightarrow> bool" where
  "demo_expect n st =
    (if n = 7 then cs_phase st = Advertised \<and> cs_config st = demo_config \<and> ch_participants (cs_cohort st) = [''did:m'', ''did:n''] \<and>
       ch_cohortKeys (cs_cohort st) = [demo_pk 1, demo_pk 2] \<and>
       (case finalizeState demo_alib (newAggregationService ''did:s'' [] None) ''c'' st of (_, Inl _) \<Rightarrow> False | (_, Inr _) \<Rightarrow> True)
     else if n = 8 then cs_phase st = CohortSet \<and> ch_participants (cs_cohort st) = [''did:m'', ''did:n''] \<and>
       ch_pendingUpdates (cs_cohort st) = [] \<and> ch_nonIncluded (cs_cohort st) = [] \<and>
       ch_validationAcks (cs_cohort st) = [] \<and> ch_validationRejections (cs_cohort st) = []
     else if n = 10 then cs_phase st = UpdatesCollected \<and> ch_participants (cs_cohort st) = [''did:m'', ''did:n''] \<and>
       ch_pendingUpdates (cs_cohort st) = [] \<and> hasAllResponses (cs_cohort st) \<and>
       co_beaconType (cs_config st) = ''CASBeacon'' \<and> jm_get (cs_pendingOptIns st) ''did:o'' \<noteq> None \<and>
       ''did:o'' \<notin> set (cs_acceptedParticipants st) \<and> co_maxParticipants (cs_config st) = JUndef \<and>
       (case distributeState demo_alib (\<lambda>_. replicate 32 0) (newAggregationService ''did:s'' [] None) ''c'' st of
          (_, Inl _) \<Rightarrow> False | (_, Inr _) \<Rightarrow> True)
     else if n = 11 \<or> n = 12 then cs_phase st = DataDistributed \<and> ''did:x'' \<notin> set (ch_participants (cs_cohort st))
     else if n = 13 then cs_phase st = Validated \<and> ch_participants (cs_cohort st) = [''did:m'', ''did:n''] \<and>
       ch_cohortKeys (cs_cohort st) = [demo_pk 1, demo_pk 2] \<and>
       ch_participantKeys (cs_cohort st) = [(''did:m'', demo_pk 1), (''did:n'', demo_pk 2)]
     else if n = 14 then cs_phase st = SigningStarted \<and> ch_cohortKeys (cs_cohort st) = [demo_pk 1, demo_pk 2] \<and>
       ch_participantKeys (cs_cohort st) = [(''did:m'', demo_pk 1), (''did:n'', demo_pk 2)] \<and>
       ch_recoveryKey (cs_cohort st) = Some (replicate 32 0) \<and> ch_recoverySequence (cs_cohort st) = JInt 144 \<and>
       ch_fundingModel (cs_cohort st) = ''operator-funded'' \<and> ch_fallbackThreshold (cs_cohort st) = JUndef \<and>
       ch_network (cs_cohort st) = ''bitcoin'' \<and>
       (case cs_signingSession st of None \<Rightarrow> False
        | Some s \<Rightarrow> ss_id s = ''u'' \<and> ss_pendingTx s = demo_beacon_tx \<and> ss_prevOutScripts s = [replicate 32 1] \<and>
            ss_prevOutValues s = [5])
     else if n = 18 then cs_phase st = AwaitingPartialSigs \<and> cs_signingSession st \<noteq> None \<and>
       ch_participants (cs_cohort st) = [''did:m'', ''did:n'']
     else if n = 19 then cs_phase st = ServiceComplete
     else True)"

fun demo_holds :: "nat \<Rightarrow> demo_tx AggregationService \<Rightarrow> demo_tx service_call list \<Rightarrow> bool" where
  "demo_holds n svc cs \<longleftrightarrow>
     as_did svc = ''did:s'' \<and>
     (case jm_get (as_cohortStates svc) ''c'' of None \<Rightarrow> n = 0 | Some st \<Rightarrow> demo_expect n st) \<and>
     (case cs of [] \<Rightarrow> True | c # cs \<Rightarrow> demo_holds (Suc n) (serviceCall demo_alib c svc) cs)"

declare demo_holds.simps [simp del]

lemma demo_holds_take:
  assumes "demo_holds k svc cs" "n \<le> length cs"
  shows "as_did (foldl (\<lambda>s c. serviceCall demo_alib c s) svc (take n cs)) = ''did:s'' \<and>
    (case jm_get (as_cohortStates (foldl (\<lambda>s c. serviceCall demo_alib c s) svc (take n cs))) ''c'' of
       None \<Rightarrow> k + n = 0 | Some st \<Rightarrow> demo_expect (k + n) st)"
  using assms
proof (induction n arbitrary: k svc cs)
  case 0
  then show ?case by (simp add: demo_holds.simps [of k svc cs] split: option.splits)
next
  case (Suc n)
  then obtain c cs' where cs: "cs = c # cs'" by (cases cs) auto
  with Suc.prems have "demo_holds (Suc k) (serviceCall demo_alib c svc) cs'" by (simp add: demo_holds.simps [of k svc "c # cs'"])
  from Suc.IH [OF this] Suc.prems(2) show ?case by (simp add: cs split: option.splits)
qed

lemma demo_run_holds: "demo_holds 0 (newAggregationService ''did:s'' [] None) demo_calls"
  by code_simp

lemma demo_run_facts:
  assumes "0 < n" "n \<le> 19"
  obtains st where "demo_cohort n = Some st" "demo_expect n st" "as_did (demo_run n) = ''did:s''"
proof -
  have "length demo_calls = 19" by (simp add: demo_calls_def demo_members_def)
  then show ?thesis
    using demo_holds_take [OF demo_run_holds, of n] assms that
    by (auto simp: demo_cohort_def demo_run_def split: option.splits)
qed

text \<open>The actions of the service that the witnesses take at a state of the run succeed there.\<close>

lemma demo_distributes:
  obtains msgs where "snd (buildAndDistribute demo_alib (\<lambda>_. replicate 32 0) ''c'' (demo_run 10)) = Inr msgs"
proof -
  obtain st msgs where "demo_cohort 10 = Some st"
    "snd (distributeState demo_alib (\<lambda>_. replicate 32 0) (newAggregationService ''did:s'' [] None) ''c'' st) = Inr msgs"
    and did: "as_did (demo_run 10) = ''did:s''"
    by (rule demo_run_facts [of 10]) (auto simp: demo_expect_def split: prod.splits sum.splits)
  moreover have "distributeState demo_alib (\<lambda>_. replicate 32 0) (demo_run 10) =
      distributeState demo_alib (\<lambda>_. replicate 32 0) (newAggregationService ''did:s'' [] None)"
    unfolding distributeState_def did newAggregationService_def AggregationService.simps ..
  ultimately show ?thesis
    by (intro that [of msgs]) (auto simp: buildAndDistribute_def onCohort_def demo_cohort_def split: prod.split)
qed

lemma demo_finalizes:
  obtains msgs where "snd (finalizeKeygen demo_alib ''c'' (demo_run 7)) = Inr msgs"
proof -
  obtain st msgs where "demo_cohort 7 = Some st"
    "snd (finalizeState demo_alib (newAggregationService ''did:s'' [] None) ''c'' st) = Inr msgs"
    and did: "as_did (demo_run 7) = ''did:s''"
    by (rule demo_run_facts [of 7]) (auto simp: demo_expect_def split: prod.splits sum.splits)
  moreover have "finalizeState demo_alib (demo_run 7) = finalizeState demo_alib (newAggregationService ''did:s'' [] None)"
    unfolding finalizeState_def did newAggregationService_def AggregationService.simps ..
  ultimately show ?thesis
    by (intro that [of msgs]) (auto simp: finalizeKeygen_def onCohort_def demo_cohort_def split: prod.split)
qed

end
