(* ===== verification/AggServiceClaims.thy ===== *)
theory AggServiceClaims
  imports DemoAgg
begin

text \<open>
  The properties of the aggregation service over its reachable states, with their witnesses at the
  run of \<open>DemoAgg\<close>: the invariant, the order of the phases, what a validated and a completed cohort
  guarantee, that the protocol completes when the members respond, and what the code lets through.
\<close>

section \<open>Entering a phase\<close>

text \<open>A cohort is validated, or failed, by the acknowledgement that completes the responses.\<close>

lemma ack_phase_entered:
  assumes "cs_phase (fst (handleValidationAck m st)) \<noteq> cs_phase st"
  shows "cs_phase st = DataDistributed \<and>
    (isFullyValidated (cs_cohort (fst (handleValidationAck m st))) \<and>
       cs_phase (fst (handleValidationAck m st)) = Validated \<or>
     \<not> isFullyValidated (cs_cohort (fst (handleValidationAck m st))) \<and>
       hasAllValidationResponses (cs_cohort (fst (handleValidationAck m st))) \<and>
       cs_phase (fst (handleValidationAck m st)) = ServiceFailed)"
  using assms
  by (cases "cs_phase st = DataDistributed")
     (auto simp: handleValidationAck_def split: option.splits sum.splits prod.splits if_splits)

text \<open>The other steps do not enter these phases.\<close>

lemma edges_into [simp]:
  "(p, Validated) \<in> set phase_edges \<longleftrightarrow> p = DataDistributed"
  "(p, ServiceComplete) \<in> set phase_edges \<longleftrightarrow> p = AwaitingPartialSigs \<or> p = FallbackRequested"
  by (auto simp: phase_edges_def)

lemma handler_other_phase:
  assumes "cs_phase st = DataDistributed" "m_type m \<noteq> VALIDATION_ACK"
  shows "cs_phase (fst (messageHandler L mx m st)) = DataDistributed"
  using assms
  by (auto simp: messageHandler_def handleOptIn_def handleSubmitUpdate_def handleSubmitNonInclusion_def
      handleNonceContribution_def handleSignatureAuthorization_def handleFallbackSignature_def Let_def
      split: option.split)

lemma validated_step:
  assumes "cohort_step L st st'" "cs_phase st \<noteq> Validated" "cs_phase st' = Validated"
  shows "isFullyValidated (cs_cohort st')"
  using assms
proof (induction rule: cohort_step.induct)
  case (message st mx m)
  have p: "cs_phase st = DataDistributed"
    using step_phase [OF cohort_step.message [where L = L and st = st and mx = mx and m = m]] message by auto
  then have "m_type m = VALIDATION_ACK" using handler_other_phase [OF p, of m L mx] message by auto
  then have "messageHandler L mx m st = handleValidationAck m st"
    by (simp add: messageHandler_def message_types)
  then show ?case using ack_phase_entered [of m st] message by simp
qed (auto simp: advertiseState_def acceptState_def finalizeState_def distributeState_def startSigningState_def
      aggregatedNonceState_def startFallbackState_def Let_def
      split: sum.splits prod.splits option.splits list.splits if_splits)

section \<open>What a completed cohort holds\<close>

text \<open>A result of the key path: the session had a partial signature of every member, each verified at
  the position of its key for the message that the transaction and the output it spends determine.\<close>

definition key_path_result ::
  "('tx, 'x) agg_lib_scheme \<Rightarrow> 'tx ServiceCohortState \<Rightarrow> 'tx AggregationResult \<Rightarrow> bool" where
  "key_path_result L st r \<longleftrightarrow>
     (\<exists>s0 (s :: 'tx BeaconSigningSession) n msg ms nonces. cs_signingSession st = Some s0 \<and> ss_pendingTx s = ss_pendingTx s0 \<and>
        tx_preimageWitnessV1 L (ss_pendingTx s0) 0 (ss_prevOutScripts s0) (ss_prevOutValues s0) None = Some msg \<and>
        ss_aggregatedNonce s0 = Some n \<and>
        ms = \<lparr>ms_aggNonce = n, ms_publicKeys = ch_cohortKeys (cs_cohort st), ms_message = msg,
              ms_tweak = ch_tapTweak (cs_cohort st)\<rparr> \<and>
        noncesByIndex (cs_cohort st) (ss_nonceContributions s0)
          (replicate (length (ch_cohortKeys (cs_cohort st))) None) = Inr nonces \<and>
        distinct (map fst (ss_partialSignatures s)) \<and>
        fst ` set (ss_partialSignatures s) = set (ch_participants (cs_cohort st)) \<and>
        (\<forall>(did, partialSig) \<in> set (ss_partialSignatures s). \<exists>idx. indexOfParticipant (cs_cohort st) did = Some idx \<and>
           musig_partial_verify L ms partialSig nonces idx = Some True) \<and>
        musig_partial_agg L ms (map snd (ss_partialSignatures s)) = Some (ar_signature r) \<and>
        tx_setFinalScriptWitness L (ss_pendingTx s0) 0 [ar_signature r] = Some (ar_signedTx r) \<and>
        ar_path r = ''key-path'')"

text \<open>A result of the script path: exactly the threshold of signatures, each valid for a key of the
  cohort and for the fallback leaf.\<close>

definition script_path_result ::
  "('tx, 'x) agg_lib_scheme \<Rightarrow> 'tx ServiceCohortState \<Rightarrow> 'tx AggregationResult \<Rightarrow> bool" where
  "script_path_result L st r \<longleftrightarrow>
     (\<exists>s0 script scripts v vs k leaf sighash entry sigs tx. cs_signingSession st = Some s0 \<and>
        ss_prevOutScripts s0 = script # scripts \<and> ss_prevOutValues s0 = v # vs \<and>
        effectiveFallbackThreshold (cs_cohort st) = JInt k \<and> 1 \<le> k \<and>
        buildFallbackLeaf L (ch_cohortKeys (cs_cohort st)) (JInt k) = Inr leaf \<and>
        tx_preimageWitnessV1 L (ss_pendingTx s0) 0 [script] [v] (Some leaf) = Some sighash \<and>
        take (length (snd entry) - 1) (snd entry) = leaf \<and> int (length sigs) = k \<and>
        (\<forall>((pk, leafHash), sig) \<in> set sigs. leafHash = tapLeafHash L leaf TAPROOT_LEAF_VERSION \<and>
           length sig = 64 \<and> schnorr_verify L sig sighash pk = Some True \<and>
           (\<exists>sorted. musig_sort_keys L (ch_cohortKeys (cs_cohort st)) = Some sorted \<and> pk \<in> drop 1 ` set sorted)) \<and>
        tx_setTapScriptSigs L (ss_pendingTx s0) 0 entry sigs = Some tx \<and> tx_finalize L tx = Some (ar_signedTx r) \<and>
        ar_path r = ''script-path'')"

lemma addPartial_cases:
  assumes "addPartialSignature ch did p s = (s', Inr ())"
  shows "ss_pendingTx s' = ss_pendingTx s" "ss_prevOutScripts s' = ss_prevOutScripts s"
    "ss_prevOutValues s' = ss_prevOutValues s" "ss_aggregatedNonce s' = ss_aggregatedNonce s"
    "ss_nonceContributions s' = ss_nonceContributions s"
  using assms by (auto simp: addPartialSignature_def Let_def split: if_splits)

lemma musigSession_Inr:
  "musigSession L ch n s = Inr ms \<longleftrightarrow> (\<exists>msg. ss_prevOutScripts s \<noteq> [] \<and> ss_prevOutValues s \<noteq> [] \<and>
     tx_preimageWitnessV1 L (ss_pendingTx s) 0 (ss_prevOutScripts s) (ss_prevOutValues s) None = Some msg \<and>
     ms = \<lparr>ms_aggNonce = n, ms_publicKeys = ch_cohortKeys ch, ms_message = msg, ms_tweak = ch_tapTweak ch\<rparr> \<and>
     musig_session_ok L ms)"
  by (auto simp: musigSession_def sigHash_def rbind_Inr_iff Let_def)

lemma key_path_entered:
  assumes inv: "service_inv L' st" and "cs_phase st \<noteq> ServiceComplete"
    and complete: "cs_phase (fst (handleSignatureAuthorization L m st)) = ServiceComplete"
  shows "\<exists>r. cs_result (fst (handleSignatureAuthorization L m st)) = Some r \<and> key_path_result L st r"
proof -
  obtain s0 p s where s0: "cs_signingSession st = Some s0"
    and add: "addPartialSignature (cs_cohort st) (m_from m) p s0 = (s, Inr ())"
    and all: "length (ss_partialSignatures s) = length (ch_participants (cs_cohort st))"
    and st': "handleSignatureAuthorization L m st = completeKeyPath L (the (body_str (m_body m) ''cohortId'')) s st"
    using assms(2,3)
    by (auto simp: handleSignatureAuthorization_def split: option.splits sum.splits prod.splits if_splits)
  obtain sig tx where fin: "finalSignature L (cs_cohort st) s = Inr sig"
    and tx: "tx_setFinalScriptWitness L (ss_pendingTx s) 0 [sig] = Some tx"
    and r: "cs_result (fst (handleSignatureAuthorization L m st)) =
      Some \<lparr>ar_cohortId = the (body_str (m_body m) ''cohortId''), ar_signature = sig, ar_signedTx = tx, ar_path = ''key-path''\<rparr>"
    using complete assms(2)
    by (auto simp: st' completeKeyPath_def generateFinalSignature_def split: option.splits sum.splits prod.splits)
  obtain n ms nonces where v: "ss_aggregatedNonce s = Some n" "musigSession L (cs_cohort st) n s = Inr ms"
    "noncesByIndex (cs_cohort st) (ss_nonceContributions s) (replicate (length (ch_cohortKeys (cs_cohort st))) None) = Inr nonces"
    "\<forall>(did, partialSig) \<in> set (ss_partialSignatures s). \<exists>idx. indexOfParticipant (cs_cohort st) did = Some idx \<and>
       musig_partial_verify L ms partialSig nonces idx = Some True"
    "musig_partial_agg L ms (map snd (ss_partialSignatures s)) = Some sig"
    using finalSignature_verified [OF fin] by blast
  have si: "session_inv (cs_cohort st) s"
    using session_inv_partial [OF service_invD(4) [OF inv s0], of "m_from m" p] add by simp
  have "set (map fst (ss_partialSignatures s)) = set (ch_participants (cs_cohort st))"
    using si service_invD(1) [OF inv] all
    by (intro distinct_subset_eq_length) (auto simp: session_inv_def cohort_inv_def)
  then have part: "fst ` set (ss_partialSignatures s) = set (ch_participants (cs_cohort st))" by simp
  obtain msg where msg: "tx_preimageWitnessV1 L (ss_pendingTx s0) 0 (ss_prevOutScripts s0) (ss_prevOutValues s0) None = Some msg"
    "ms = \<lparr>ms_aggNonce = n, ms_publicKeys = ch_cohortKeys (cs_cohort st), ms_message = msg,
           ms_tweak = ch_tapTweak (cs_cohort st)\<rparr>"
    using v(2) addPartial_cases [OF add] by (auto simp: musigSession_Inr)
  have "distinct (map fst (ss_partialSignatures s))" using si by (simp add: session_inv_def)
  then have "key_path_result L st \<lparr>ar_cohortId = the (body_str (m_body m) ''cohortId''), ar_signature = sig,
      ar_signedTx = tx, ar_path = ''key-path''\<rparr>"
    unfolding key_path_result_def using s0 v part msg tx addPartial_cases [OF add]
    by (intro exI [of _ s0] exI [of _ s] exI [of _ n] exI [of _ msg] exI [of _ ms] exI [of _ nonces] conjI) simp_all
  then show ?thesis unfolding r by blast
qed

lemma resolve_effective:
  assumes "ch_cohortKeys ch \<noteq> []"
  shows "resolveFallbackThreshold (effectiveFallbackThreshold ch) (length (ch_cohortKeys ch)) = effectiveFallbackThreshold ch"
  using assms by (simp add: effectiveFallbackThreshold_def resolveFallbackThreshold_def)

lemma script_path_entered:
  assumes "cs_phase st \<noteq> ServiceComplete"
    and complete: "cs_phase (fst (handleFallbackSignature L m st)) = ServiceComplete"
  shows "\<exists>r. cs_result (fst (handleFallbackSignature L m st)) = Some r \<and> script_path_result L st r"
proof -
  obtain s0 script scripts v vs sigs f cid where s0: "cs_signingSession st = Some s0"
    "ss_prevOutScripts s0 = script # scripts" "ss_prevOutValues s0 = v # vs"
    and st': "handleFallbackSignature L m st = completeScriptPath L cid s0 script v sigs (st\<lparr>cs_fallbackSignatures := f\<rparr>)"
    using assms
    by (auto simp: handleFallbackSignature_def Let_def split: option.splits list.splits sum.splits if_splits)
  obtain rk tx stx where b: "buildFallbackSpend L (fallbackParams (st\<lparr>cs_fallbackSignatures := f\<rparr>) s0 rk script v sigs) = (tx, Inr stx)"
    and r: "cs_result (fst (handleFallbackSignature L m st)) =
      Some \<lparr>ar_cohortId = cid, ar_signature = [], ar_signedTx = stx, ar_path = ''script-path''\<rparr>"
    using complete assms(1) by (auto simp: st' completeScriptPath_def split: option.splits sum.splits prod.splits)
  let ?p = "fallbackParams (st\<lparr>cs_fallbackSignatures := f\<rparr>) s0 rk script v sigs"
  obtain entry ss tx' where w: "fallbackWitness L ?p = Inr (entry, ss)"
    and tx: "tx_setTapScriptSigs L (ss_pendingTx s0) 0 entry ss = Some tx'" "tx_finalize L tx' = Some stx"
    using b by (auto simp: buildFallbackSpend_def fallbackParams_def Let_def split: sum.splits prod.splits option.splits)
  have ne: "ch_cohortKeys (cs_cohort st) \<noteq> []"
    using w by (auto simp: fallbackWitness_def fallbackParams_def Let_def)
  obtain sortedKeys leaf sighash k where
    g: "musig_sort_keys L (ch_cohortKeys (cs_cohort st)) = Some sortedKeys"
     "effectiveFallbackThreshold (cs_cohort st) = JInt k" "1 \<le> k"
     "buildFallbackLeaf L (ch_cohortKeys (cs_cohort st)) (JInt k) = Inr leaf"
     "fallbackSighash L (ss_pendingTx s0) 0 script v leaf = Inr sighash"
     "take (length (snd entry) - 1) (snd entry) = leaf" "int (length ss) = k"
     "\<forall>((pk, leafHash), sig) \<in> set ss. leafHash = tapLeafHash L leaf TAPROOT_LEAF_VERSION \<and>
        good_signature L (map (drop 1) sortedKeys) sighash (fp_signatures ?p) pk sig"
    using fallbackWitness_good [OF w] resolve_effective [OF ne] by (auto simp: fallbackParams_def Let_def)
  have "script_path_result L st \<lparr>ar_cohortId = cid, ar_signature = [], ar_signedTx = stx, ar_path = ''script-path''\<rparr>"
  proof -
    have good: "\<forall>((pk, leafHash), sig) \<in> set ss. leafHash = tapLeafHash L leaf TAPROOT_LEAF_VERSION \<and>
        length sig = 64 \<and> schnorr_verify L sig sighash pk = Some True \<and>
        (\<exists>sorted. musig_sort_keys L (ch_cohortKeys (cs_cohort st)) = Some sorted \<and> pk \<in> drop 1 ` set sorted)"
      using g(8) unfolding good_signature_def g(1) by fastforce
    have h: "tx_preimageWitnessV1 L (ss_pendingTx s0) 0 [script] [v] (Some leaf) = Some sighash"
      using g(5) by (simp add: fallbackSighash_def)
    let ?r = "\<lparr>ar_cohortId = cid, ar_signature = [], ar_signedTx = stx, ar_path = ''script-path''\<rparr> :: 'a AggregationResult"
    have "tx_finalize L tx' = Some (ar_signedTx ?r)" "ar_path ?r = ''script-path''" using tx by simp_all
    with s0 g(2-4) h g(6,7) good tx show ?thesis
      unfolding script_path_result_def
      by (intro exI [of _ s0] exI [of _ script] exI [of _ scripts] exI [of _ v] exI [of _ vs] exI [of _ k] exI [of _ leaf]
            exI [of _ sighash] exI [of _ entry] exI [of _ ss] exI [of _ tx'] conjI)
  qed
  with r show ?thesis by blast
qed

lemma handler_signing_phase:
  assumes "cs_phase st = AwaitingPartialSigs \<or> cs_phase st = FallbackRequested"
    "m_type m \<noteq> SIGNATURE_AUTHORIZATION" "m_type m \<noteq> FALLBACK_SIGNATURE"
  shows "cs_phase (fst (messageHandler L mx m st)) = cs_phase st"
proof -
  have "fst (handleOptIn m st) = st" "fst (handleSubmitUpdate L mx m st) = st" "fst (handleSubmitNonInclusion m st) = st"
    "fst (handleValidationAck m st) = st" using assms(1)
    by (auto simp: handleOptIn_def handleSubmitUpdate_def handleSubmitNonInclusion_def handleValidationAck_def)
  moreover have "fst (handleNonceContribution m st) = st"
    using assms(1) by (auto simp: handleNonceContribution_def split: option.split)
  ultimately show ?thesis using assms(2,3) by (simp add: messageHandler_def)
qed

lemma completed_step:
  assumes "cohort_step L st st'" "service_inv L' st" "cs_phase st \<noteq> ServiceComplete" "cs_phase st' = ServiceComplete"
  shows "\<exists>r. cs_result st' = Some r \<and> (key_path_result L st r \<or> script_path_result L st r)"
  using assms
proof (induction rule: cohort_step.induct)
  case (message st mx m)
  have p: "cs_phase st = AwaitingPartialSigs \<or> cs_phase st = FallbackRequested"
    using step_phase [OF cohort_step.message [where L = L and st = st and mx = mx and m = m]] message by auto
  have "messageHandler L mx m st = handleSignatureAuthorization L m st \<or>
      messageHandler L mx m st = handleFallbackSignature L m st"
    using handler_signing_phase [OF p, of m L mx] message.prems
    by (cases "m_type m = SIGNATURE_AUTHORIZATION"; cases "m_type m = FALLBACK_SIGNATURE")
       (simp_all add: messageHandler_def message_types)
  then show ?case using key_path_entered [of L' st L m] script_path_entered [of st L m] message.prems by auto
qed (auto simp: advertiseState_def acceptState_def finalizeState_def distributeState_def startSigningState_def
      aggregatedNonceState_def startFallbackState_def Let_def
      split: sum.splits prod.splits option.splits list.splits if_splits)

section \<open>The properties\<close>

lemma call_step:
  assumes "jm_get (as_cohortStates svc) cid = Some st" "jm_get (as_cohortStates (serviceCall L c svc)) cid = Some st'"
    "cs_phase st' \<noteq> Created" "cs_phase st' \<noteq> cs_phase st"
  shows "cohort_step L st st'"
  using serviceCall_step [OF assms(2)] assms by (auto simp: fresh_state_def)

text \<open>C5: In every service that calls can reach, the state of a cohort is consistent: its members are the
  accepted participants, without repetition, each with the key of its own opt-in; every update on
  record is by a member and verified against that member's key; nobody both submits and declines; only
  members decline, approve and reject, and nobody is on record twice as declining, as approving or
  as rejecting, though a member may have approved and rejected; and only members contribute a nonce (of
  66 bytes) or a partial signature, once each.\<close>

theorem service_state_invariant:
  assumes "service_reach L svc" "jm_get (as_cohortStates svc) cid = Some st"
  shows "distinct (ch_participants (cs_cohort st)) \<and>
    set (cs_acceptedParticipants st) = set (ch_participants (cs_cohort st)) \<and>
    (\<forall>did \<in> set (ch_participants (cs_cohort st)). \<exists>optIn. jm_get (cs_pendingOptIns st) did = Some optIn \<and>
       jm_get (ch_participantKeys (cs_cohort st)) did = Some (po_participantPk optIn)) \<and>
    (\<forall>did u. jm_get (ch_pendingUpdates (cs_cohort st)) did = Some u \<longrightarrow>
       did \<in> set (ch_participants (cs_cohort st)) \<and> did \<notin> set (ch_nonIncluded (cs_cohort st)) \<and>
       verifySubmittedUpdate L st did u = Inr True) \<and>
    set (ch_nonIncluded (cs_cohort st)) \<union> set (ch_validationAcks (cs_cohort st)) \<union>
      set (ch_validationRejections (cs_cohort st)) \<subseteq> set (ch_participants (cs_cohort st)) \<and>
    distinct (ch_nonIncluded (cs_cohort st)) \<and> distinct (ch_validationAcks (cs_cohort st)) \<and>
    distinct (ch_validationRejections (cs_cohort st)) \<and>
    (\<forall>s. cs_signingSession st = Some s \<longrightarrow>
       distinct (map fst (ss_nonceContributions s)) \<and> distinct (map fst (ss_partialSignatures s)) \<and>
       fst ` set (ss_nonceContributions s) \<union> fst ` set (ss_partialSignatures s) \<subseteq> set (ch_participants (cs_cohort st)) \<and>
       (\<forall>(did, nonce) \<in> set (ss_nonceContributions s). length nonce = 66))"
proof -
  let ?ch = "cs_cohort st"
  have inv: "service_inv L st" by (rule service_reach_inv [OF assms])
  have c: "distinct (ch_participants ?ch)" "fst ` set (ch_participantKeys ?ch) = set (ch_participants ?ch)"
    "fst ` set (ch_pendingUpdates ?ch) \<subseteq> set (ch_participants ?ch)"
    "fst ` set (ch_pendingUpdates ?ch) \<inter> set (ch_nonIncluded ?ch) = {}"
    "set (ch_nonIncluded ?ch) \<union> set (ch_validationAcks ?ch) \<union> set (ch_validationRejections ?ch) \<subseteq> set (ch_participants ?ch)"
    "distinct (ch_nonIncluded ?ch)" "distinct (ch_validationAcks ?ch)" "distinct (ch_validationRejections ?ch)"
    using service_invD(1) [OF inv] unfolding cohort_inv_def by blast+
  have keys: "\<exists>optIn. jm_get (cs_pendingOptIns st) did = Some optIn \<and>
      jm_get (ch_participantKeys ?ch) did = Some (po_participantPk optIn)" if "did \<in> set (ch_participants ?ch)" for did
  proof -
    have "jm_has (ch_participantKeys ?ch) did" using that unfolding jm_has_iff c(2) .
    then obtain pk where "jm_get (ch_participantKeys ?ch) did = Some pk" by (auto simp: jm_has_def)
    then show ?thesis using inv unfolding service_inv_def by blast
  qed
  have ups: "did \<in> set (ch_participants ?ch) \<and> did \<notin> set (ch_nonIncluded ?ch) \<and> verifySubmittedUpdate L st did u = Inr True"
    if "jm_get (ch_pendingUpdates ?ch) did = Some u" for did u
  proof -
    have "did \<in> fst ` set (ch_pendingUpdates ?ch)" using map_of_SomeD [OF that] by force
    then show ?thesis using c(3,4) service_invD(3) [OF inv that] unfolding update_verified_def by blast
  qed
  have ses: "distinct (map fst (ss_nonceContributions s)) \<and> distinct (map fst (ss_partialSignatures s)) \<and>
       fst ` set (ss_nonceContributions s) \<union> fst ` set (ss_partialSignatures s) \<subseteq> set (ch_participants ?ch) \<and>
       (\<forall>(did, nonce) \<in> set (ss_nonceContributions s). length nonce = 66)" if "cs_signingSession st = Some s" for s
    using service_invD(4) [OF inv that] unfolding session_inv_def by blast
  show ?thesis using c(1,5-8) keys ups ses service_invD(2) [OF inv] by blast
qed

text \<open>A member that approves and then rejects counts for two responses: in a cohort of two, all responses
  are taken to be in although the other member has not answered.\<close>

lemma answer_counted_twice:
  assumes "did \<in> set (ch_participants ch)" "length (ch_participants ch) = 2" "ch_validationAcks ch = []" "ch_validationRejections ch = []"
  shows "hasAllValidationResponses (fst (addValidation did False (fst (addValidation did True ch))))"
  using assms by (simp add: addValidation_def hasAllValidationResponses_def js_add_def)

theorem service_state_invariant_witness:
  "\<exists>st s. demo_cohort 18 = Some st \<and> cs_signingSession st = Some s \<and>
     set (ch_participants (cs_cohort st)) = {''did:m'', ''did:n''} \<and>
     fst ` set (ss_partialSignatures s) \<subseteq> {''did:m'', ''did:n''}"
proof -
  obtain st s where st: "demo_cohort 18 = Some st" "cs_signingSession st = Some s"
    "ch_participants (cs_cohort st) = [''did:m'', ''did:n'']"
    by (rule demo_run_facts [of 18]) (auto simp: demo_expect_def)
  have "fst ` set (ss_partialSignatures s) \<subseteq> set (ch_participants (cs_cohort st))"
    using service_state_invariant [OF demo_run_reach, of 18 "''c''" st] st by (simp add: demo_cohort_def)
  then show ?thesis using st by simp
qed

text \<open>C26: The phases of a cohort follow the protocol: one call takes a cohort nowhere, or along one edge of
  \<^const>\<open>phase_edges\<close>. Only creating a cohort under its identifier again starts over, so a completed or
  failed cohort stays as it is.\<close>

theorem phases_follow_protocol:
  assumes "jm_get (as_cohortStates svc) cid = Some st" "jm_get (as_cohortStates (serviceCall L c svc)) cid = Some st'"
  shows "cs_phase st' = cs_phase st \<or> (cs_phase st, cs_phase st') \<in> set phase_edges \<or>
    cs_phase st' = Created \<and> cs_signingSession st' = None \<and> cs_result st' = None"
  using serviceCall_step [OF assms(2)] step_phase assms(1) by (fastforce simp: fresh_state_def)

theorem phases_follow_protocol_witness:
  "\<exists>st st'. demo_cohort 18 = Some st \<and> demo_cohort 19 = Some st' \<and>
     (cs_phase st' = cs_phase st \<or> (cs_phase st, cs_phase st') \<in> set phase_edges \<or>
      cs_phase st' = Created \<and> cs_signingSession st' = None \<and> cs_result st' = None)"
proof -
  obtain st st' where st: "demo_cohort 18 = Some st" "demo_cohort 19 = Some st'"
    by (rule demo_run_facts [of 18], simp, simp, rule demo_run_facts [of 19]) auto
  have "demo_run 19 = serviceCall demo_alib (demo_calls ! 18) (demo_run 18)"
    using demo_run_Suc [of 18] by (simp add: demo_calls_def demo_members_def)
  then show ?thesis
    using st phases_follow_protocol [of "demo_run 18" "''c''" st demo_alib "demo_calls ! 18" st'] by (simp add: demo_cohort_def)
qed

text \<open>A call that takes a cohort to \<open>Validated\<close> finds the approval of every member on record and the
  rejection of none.\<close>

theorem validated_means_all_approved:
  assumes "service_reach L svc" "jm_get (as_cohortStates svc) cid = Some st"
    "jm_get (as_cohortStates (serviceCall L c svc)) cid = Some st'"
    "cs_phase st \<noteq> Validated" "cs_phase st' = Validated"
  shows "set (ch_validationAcks (cs_cohort st')) = set (ch_participants (cs_cohort st')) \<and>
    ch_validationRejections (cs_cohort st') = []"
proof -
  have "isFullyValidated (cs_cohort st')"
    using validated_step [OF call_step [OF assms(2,3)]] assms(4,5) by simp
  moreover have "service_inv L st'" using service_reach_inv [OF service_reach.call [OF assms(1)] assms(3)] .
  ultimately show ?thesis
    using fully_validated [OF service_invD(1)] unfolding isFullyValidated_def by blast
qed

theorem validated_means_all_approved_witness:
  "\<exists>st. demo_cohort 13 = Some st \<and> cs_phase st = Validated \<and>
     set (ch_validationAcks (cs_cohort st)) = set (ch_participants (cs_cohort st))"
proof -
  obtain st st' where st: "demo_cohort 12 = Some st" "cs_phase st = DataDistributed"
    "demo_cohort 13 = Some st'" "cs_phase st' = Validated"
    by (rule demo_run_facts [of 12], simp, simp, rule demo_run_facts [of 13]) (auto simp: demo_expect_def)
  have "demo_run 13 = serviceCall demo_alib (demo_calls ! 12) (demo_run 12)"
    using demo_run_Suc [of 12] by (simp add: demo_calls_def demo_members_def)
  then show ?thesis
    using st validated_means_all_approved [OF demo_run_reach, of 12 "''c''" st "demo_calls ! 12" st'] by (simp add: demo_cohort_def)
qed

text \<open>C6: A call that completes a cohort leaves a result of one of two kinds: the key path, where the signature
  aggregates partial signatures of all members, each verified for the message of the transaction; or
  the script path, where the witness holds exactly the threshold of signatures that verify for the
  fallback leaf and keys of the cohort.\<close>

theorem completed_means:
  assumes "service_reach L svc" "jm_get (as_cohortStates svc) cid = Some st"
    "jm_get (as_cohortStates (serviceCall L c svc)) cid = Some st'"
    "cs_phase st \<noteq> ServiceComplete" "cs_phase st' = ServiceComplete"
  shows "\<exists>r. cs_result st' = Some r \<and> (key_path_result L st r \<or> script_path_result L st r)"
  using completed_step [OF call_step [OF assms(2,3)] service_reach_inv [OF assms(1,2)]] assms(4,5) by simp

theorem completed_means_witness:
  "\<exists>st st' r. demo_cohort 18 = Some st \<and> demo_cohort 19 = Some st' \<and> cs_result st' = Some r \<and>
     (key_path_result demo_alib st r \<or> script_path_result demo_alib st r)"
proof -
  obtain st st' where st: "demo_cohort 18 = Some st" "cs_phase st = AwaitingPartialSigs"
    "demo_cohort 19 = Some st'" "cs_phase st' = ServiceComplete"
    by (rule demo_run_facts [of 18], simp, simp, rule demo_run_facts [of 19]) (auto simp: demo_expect_def)
  have "demo_run 19 = serviceCall demo_alib (demo_calls ! 18) (demo_run 18)"
    using demo_run_Suc [of 18] by (simp add: demo_calls_def demo_members_def)
  then show ?thesis
    using st completed_means [OF demo_run_reach, of 18 "''c''" st "demo_calls ! 18" st'] by (simp add: demo_cohort_def)
qed

section \<open>What the code lets through\<close>

text \<open>Anyone can make \<open>receive\<close> throw. An acknowledgement of a cohort that has distributed its data,
  by a sender that is not a member, is not recorded as a rejection, as a response by an outsider is:
  \<open>receive\<close> throws \<open>UNKNOWN_PARTICIPANT\<close>, which the runner turns into the failure of the cohort.\<close>

theorem outsider_ack_throws:
  assumes "jm_get (as_cohortStates svc) cid = Some st" "cid \<noteq> []" "did \<notin> set (ch_participants (cs_cohort st))"
  shows "(cs_phase st = DataDistributed \<longrightarrow>
      snd (serviceReceive L (createValidationAckMessage did to cid ok) svc) =
        Inl (Error ''AggregationCohortError'' ''UNKNOWN_PARTICIPANT'')) \<and>
    (cs_phase st = CohortSet \<or> cs_phase st = CollectingUpdates \<longrightarrow>
      snd (serviceReceive L (createSubmitNonIncludedMessage did to cid) svc) = Inr () \<and>
      jm_get (as_cohortStates (fst (serviceReceive L (createSubmitNonIncludedMessage did to cid) svc))) cid =
        Some (reject did ''UPDATE_MALFORMED'' st))"
  using assms
  by (auto simp: serviceReceive_def handleWith_def factory_defs own_def messageHandler_def message_types
      handleValidationAck_def addValidation_def handleSubmitNonInclusion_def cohort_error_def Let_def)

theorem outsider_ack_throws_witness:
  "snd (serviceReceive demo_alib (createValidationAckMessage ''did:x'' ''did:s'' ''c'' True) (demo_run 11)) =
     Inl (Error ''AggregationCohortError'' ''UNKNOWN_PARTICIPANT'')"
proof -
  obtain st where st: "demo_cohort 11 = Some st" "cs_phase st = DataDistributed"
    "''did:x'' \<notin> set (ch_participants (cs_cohort st))"
    by (rule demo_run_facts [of 11]) (auto simp: demo_expect_def)
  show ?thesis
    using outsider_ack_throws [of "demo_run 11" "''c''" st "''did:x''" demo_alib "''did:s''" True] st by (simp add: demo_cohort_def)
qed

text \<open>A late acceptance stalls a cohort. \<open>acceptParticipant\<close> does not look at the phase: a pending
  opt-in accepted when all responses are in succeeds, changes the members and keys behind the
  published address, and leaves a cohort whose data can no longer be built and that ignores the
  response of the new member.\<close>

theorem late_accept_stalls:
  assumes "jm_get (as_cohortStates svc) cid = Some st" "cid \<noteq> []" "cs_phase st = UpdatesCollected"
    "hasAllResponses (cs_cohort st)" "co_beaconType (cs_config st) = ''CASBeacon''"
    "jm_get (cs_pendingOptIns st) did = Some optIn" "did \<notin> set (cs_acceptedParticipants st)"
    "co_maxParticipants (cs_config st) = JUndef"
    "musig_sort_keys L (ch_cohortKeys (cs_cohort st) @ [po_participantPk optIn]) = Some keys"
  defines "svc1 \<equiv> fst (acceptParticipant L cid did svc)"
  shows "snd (acceptParticipant L cid did svc) = Inr [createCohortOptInAcceptMessage (as_did svc) did cid] \<and>
    map_option ch_beaconAddress (getCohort cid svc1) = Some (ch_beaconAddress (cs_cohort st)) \<and>
    map_option ch_cohortKeys (getCohort cid svc1) = Some keys \<and>
    snd (buildAndDistribute L nonce cid svc1) = Inl (Error ''AggregationCohortError'' ''INCOMPLETE_RESPONSES'') \<and>
    getCohortPhase cid (fst (serviceReceive L (createSubmitNonIncludedMessage did to cid) svc1)) = Some UpdatesCollected \<and>
    getCohort cid (fst (serviceReceive L (createSubmitNonIncludedMessage did to cid) svc1)) = getCohort cid svc1"
proof -
  let ?ch = "(cs_cohort st)\<lparr>ch_participants := ch_participants (cs_cohort st) @ [did],
      ch_participantKeys := jm_set did (po_participantPk optIn) (ch_participantKeys (cs_cohort st)), ch_cohortKeys := keys\<rparr>"
  let ?st = "st\<lparr>cs_acceptedParticipants := js_add did (cs_acceptedParticipants st), cs_cohort := ?ch\<rparr>"
  have a: "acceptState L svc cid did st = (?st, Inr [createCohortOptInAcceptMessage (as_did svc) did cid])"
    using assms(6-9) by (simp add: acceptState_def Let_def setCohortKeys_def)
  then have get: "jm_get (as_cohortStates svc1) cid = Some ?st"
    using assms(1) by (simp add: svc1_def acceptParticipant_def onCohort_def)
  have incomplete: "\<not> hasAllResponses ?ch" using assms(4) by (simp add: hasAllResponses_def)
  have "distributeState L nonce svc1 cid ?st = (?st\<lparr>cs_cohort := ?ch\<rparr>, cohort_error ''INCOMPLETE_RESPONSES'')"
    using assms(3,5) incomplete
    by (simp add: distributeState_def strategies_get CAS_STRATEGY_def buildCASAnnouncement_def cohort_error_def)
  then have "snd (buildAndDistribute L nonce cid svc1) = Inl (Error ''AggregationCohortError'' ''INCOMPLETE_RESPONSES'')"
    using get by (simp add: buildAndDistribute_def onCohort_def cohort_error_def)
  moreover have "handleSubmitNonInclusion (createSubmitNonIncludedMessage did to cid) ?st = (?st, Inr ())"
    using assms(3) by (simp add: handleSubmitNonInclusion_def Let_def)
  then have "jm_get (as_cohortStates (fst (serviceReceive L (createSubmitNonIncludedMessage did to cid) svc1))) cid = Some ?st"
    using get assms(2) by (simp add: serviceReceive_def handleWith_def factory_defs own_def messageHandler_def message_types)
  ultimately show ?thesis
    using a get assms(1,3) by (simp add: acceptParticipant_def onCohort_def getCohort_def getCohortPhase_def)
qed

theorem late_accept_stalls_witness:
  "snd (buildAndDistribute demo_alib (\<lambda>_. []) ''c'' (fst (acceptParticipant demo_alib ''c'' ''did:o'' (demo_run 10)))) =
     Inl (Error ''AggregationCohortError'' ''INCOMPLETE_RESPONSES'')"
proof -
  obtain st optIn where st: "jm_get (as_cohortStates (demo_run 10)) ''c'' = Some st" "cs_phase st = UpdatesCollected"
    "hasAllResponses (cs_cohort st)" "co_beaconType (cs_config st) = ''CASBeacon''"
    "jm_get (cs_pendingOptIns st) ''did:o'' = Some optIn" "''did:o'' \<notin> set (cs_acceptedParticipants st)"
    "co_maxParticipants (cs_config st) = JUndef"
    by (rule demo_run_facts [of 10]) (auto simp: demo_expect_def demo_cohort_def)
  from late_accept_stalls [OF st(1) _ st(2-) demo_alib_musig(1)] show ?thesis by simp
qed

end
