(* ===== verification/AggHonest.thy ===== *)
theory AggHonest
  imports DemoAgg
begin

text \<open>
  Honest runs of the aggregation service: when every member sends its response, its approval, its
  nonce and its partial signature once, in whatever order, the cohort is validated and completed.
\<close>

section \<open>Messages of a cohort\<close>

text \<open>Messages of the current version about a cohort act on its state alone.\<close>

definition about :: "string \<Rightarrow> BaseMessage \<Rightarrow> bool" where
  "about cid m \<longleftrightarrow> cid \<noteq> [] \<and> m_version m = JInt AGGREGATION_WIRE_VERSION \<and> body_str (m_body m) ''cohortId'' = Some cid"

definition receiveAll :: "('tx, 'x) agg_lib_scheme \<Rightarrow> BaseMessage list \<Rightarrow> 'tx AggregationService \<Rightarrow> 'tx AggregationService" where
  "receiveAll L ms svc = foldl (\<lambda>svc m. fst (serviceReceive L m svc)) svc ms"

definition handleAll :: "('tx, 'x) agg_lib_scheme \<Rightarrow> int \<Rightarrow> BaseMessage list \<Rightarrow> 'tx ServiceCohortState \<Rightarrow> 'tx ServiceCohortState" where
  "handleAll L mx ms st = foldl (\<lambda>st m. fst (messageHandler L mx m st)) st ms"

lemma handleAll_simps [simp]:
  "handleAll L mx [] st = st"
  "handleAll L mx (m # ms) st = handleAll L mx ms (fst (messageHandler L mx m st))"
  by (simp_all add: handleAll_def)

lemma serviceReceive_about:
  assumes "about cid m" "jm_get (as_cohortStates svc) cid = Some st"
  shows "jm_get (as_cohortStates (fst (serviceReceive L m svc))) cid =
      Some (fst (messageHandler L (as_maxUpdateSizeBytes svc) m st))"
    "as_maxUpdateSizeBytes (fst (serviceReceive L m svc)) = as_maxUpdateSizeBytes svc"
    "as_did (fst (serviceReceive L m svc)) = as_did svc"
  using assms by (simp_all add: about_def serviceReceive_def handleWith_def Let_def split: prod.split)

lemma receiveAll_about:
  assumes "\<forall>m \<in> set ms. about cid m" "jm_get (as_cohortStates svc) cid = Some st"
  shows "jm_get (as_cohortStates (receiveAll L ms svc)) cid = Some (handleAll L (as_maxUpdateSizeBytes svc) ms st) \<and>
    as_maxUpdateSizeBytes (receiveAll L ms svc) = as_maxUpdateSizeBytes svc \<and> as_did (receiveAll L ms svc) = as_did svc"
  using assms
proof (induction ms arbitrary: svc st)
  case (Cons m ms)
  note step = serviceReceive_about [of cid m svc st L]
  show ?case
    using Cons.IH [of "fst (serviceReceive L m svc)" "fst (messageHandler L (as_maxUpdateSizeBytes svc) m st)"] step Cons.prems
    by (simp add: receiveAll_def)
qed (simp add: receiveAll_def)

lemma about_messages [simp]:
  "cid \<noteq> [] \<Longrightarrow> about cid (createSubmitUpdateMessage did to cid u)"
  "cid \<noteq> [] \<Longrightarrow> about cid (createSubmitNonIncludedMessage did to cid)"
  "cid \<noteq> [] \<Longrightarrow> about cid (createValidationAckMessage did to cid ok)"
  "cid \<noteq> [] \<Longrightarrow> about cid (createNonceContributionMessage did to cid sid n)"
  "cid \<noteq> [] \<Longrightarrow> about cid (createSignatureAuthorizationMessage did to cid sid sig)"
  "cid \<noteq> [] \<Longrightarrow> about cid (createFallbackSignatureMessage did to cid sid pk sig)"
  by (simp_all add: about_def factory_defs own_def)

lemma handler_of [simp]:
  "messageHandler L mx (createSubmitUpdateMessage did to cid u) st = handleSubmitUpdate L mx (createSubmitUpdateMessage did to cid u) st"
  "messageHandler L mx (createSubmitNonIncludedMessage did to cid) st = handleSubmitNonInclusion (createSubmitNonIncludedMessage did to cid) st"
  "messageHandler L mx (createValidationAckMessage did to cid ok) st = handleValidationAck (createValidationAckMessage did to cid ok) st"
  "messageHandler L mx (createNonceContributionMessage did to cid sid n) st =
     handleNonceContribution (createNonceContributionMessage did to cid sid n) st"
  "messageHandler L mx (createSignatureAuthorizationMessage did to cid sid sig) st =
     handleSignatureAuthorization L (createSignatureAuthorizationMessage did to cid sid sig) st"
  "messageHandler L mx (createFallbackSignatureMessage did to cid sid pk sig) st =
     handleFallbackSignature L (createFallbackSignatureMessage did to cid sid pk sig) st"
  by (simp_all add: messageHandler_def factory_defs message_types)

lemma body_of [simp]:
  "m_from (createSubmitUpdateMessage did to cid u) = did"
  "js_prop_opt (m_body (createSubmitUpdateMessage did to cid u)) ''signedUpdate'' = u"
  "m_from (createSubmitNonIncludedMessage did to cid) = did"
  "m_from (createValidationAckMessage did to cid ok) = did"
  "body_bool (m_body (createValidationAckMessage did to cid ok)) ''approved'' = Some ok"
  "m_from (createNonceContributionMessage did to cid sid n) = did"
  "body_str (m_body (createNonceContributionMessage did to cid sid n)) ''sessionId'' = Some sid"
  "body_bytes (m_body (createNonceContributionMessage did to cid sid n)) ''nonceContribution'' = Some n"
  "m_from (createSignatureAuthorizationMessage did to cid sid sig) = did"
  "body_str (m_body (createSignatureAuthorizationMessage did to cid sid sig)) ''sessionId'' = Some sid"
  "body_str (m_body (createSignatureAuthorizationMessage did to cid sid sig)) ''cohortId'' = Some cid"
  "body_bytes (m_body (createSignatureAuthorizationMessage did to cid sid sig)) ''partialSignature'' = Some sig"
  "m_from (createFallbackSignatureMessage did to cid sid pk sig) = did"
  "body_str (m_body (createFallbackSignatureMessage did to cid sid pk sig)) ''sessionId'' = Some sid"
  "body_str (m_body (createFallbackSignatureMessage did to cid sid pk sig)) ''cohortId'' = Some cid"
  "body_bytes (m_body (createFallbackSignatureMessage did to cid sid pk sig)) ''signerPk'' = Some pk"
  "body_bytes (m_body (createFallbackSignatureMessage did to cid sid pk sig)) ''fallbackSignature'' = Some sig"
  by (simp_all add: factory_defs own_def)

section \<open>Collecting nonces\<close>

lemma nonces_collected:
  assumes "cs_phase st = SigningStarted" "cs_signingSession st = Some s" "ss_phase s = AwaitingNonceContributions"
    "ss_nonceContributions s = map (\<lambda>d. (d, nonce d)) ds" "distinct (ds @ es)" "es \<noteq> []"
    "set (ds @ es) = set (ch_participants (cs_cohort st))" "distinct (ch_participants (cs_cohort st))"
    "\<forall>d. length (nonce d) = 66" "sid = ss_id s"
  shows "handleAll L mx (map (\<lambda>d. createNonceContributionMessage d to cid sid (nonce d)) es) st =
    st\<lparr>cs_signingSession := Some (s\<lparr>ss_nonceContributions := map (\<lambda>d. (d, nonce d)) (ds @ es),
         ss_phase := NonceContributionsReceived\<rparr>), cs_phase := NoncesCollected\<rparr>"
  using assms
proof (induction es arbitrary: st s ds)
  case (Cons e es)
  have len: "length (ds @ e # es) = length (ch_participants (cs_cohort st))"
    using Cons.prems(5,7,8) by (metis distinct_card)
  have e: "e \<in> set (ch_participants (cs_cohort st))" "\<not> jm_has (ss_nonceContributions s) e"
    using Cons.prems(4,5,7) by (auto simp: jm_has_iff)
  have upd: "jm_set e (nonce e) (ss_nonceContributions s) = map (\<lambda>d. (d, nonce d)) (ds @ [e])"
    using jm_set_fresh' [OF e(2)] Cons.prems(4) by simp
  show ?case
  proof (cases "es = []")
    case True
    have "addNonceContribution (cs_cohort st) e (nonce e) s =
        (s\<lparr>ss_nonceContributions := map (\<lambda>d. (d, nonce d)) (ds @ [e]), ss_phase := NonceContributionsReceived\<rparr>, Inr ())"
      using Cons.prems(3,9) e len True upd by (simp add: addNonceContribution_def Let_def)
    then show ?thesis using Cons.prems len True by (simp add: handleNonceContribution_def)
  next
    case False
    let ?s = "s\<lparr>ss_nonceContributions := map (\<lambda>d. (d, nonce d)) (ds @ [e])\<rparr>"
    have len: "Suc (length ds) \<noteq> length (ch_participants (cs_cohort st))" using len False by (cases es) auto
    have "addNonceContribution (cs_cohort st) e (nonce e) s = (?s, Inr ())"
      using Cons.prems(3,9) e len False upd by (simp add: addNonceContribution_def Let_def)
    then have step: "handleNonceContribution (createNonceContributionMessage e to cid sid (nonce e)) st =
        (st\<lparr>cs_signingSession := Some ?s\<rparr>, Inr ())"
      using Cons.prems len False by (simp add: handleNonceContribution_def)
    have "handleAll L mx (map (\<lambda>d. createNonceContributionMessage d to cid sid (nonce d)) es) (st\<lparr>cs_signingSession := Some ?s\<rparr>) =
        (st\<lparr>cs_signingSession := Some ?s\<rparr>)\<lparr>cs_signingSession := Some (?s\<lparr>ss_nonceContributions := map (\<lambda>d. (d, nonce d)) ((ds @ [e]) @ es),
         ss_phase := NonceContributionsReceived\<rparr>), cs_phase := NoncesCollected\<rparr>"
      by (rule Cons.IH) (use Cons.prems False in simp_all)
    then show ?thesis using step by simp
  qed
qed simp

section \<open>Collecting partial signatures\<close>

lemma partials_collected:
  assumes "cs_phase st = AwaitingPartialSigs" "cs_signingSession st = Some s" "ss_phase s = AwaitingPartialSignatures"
    "ss_partialSignatures s = map (\<lambda>d. (d, psig d)) ds" "distinct (ds @ es)" "es \<noteq> []"
    "set (ds @ es) = set (ch_participants (cs_cohort st))" "distinct (ch_participants (cs_cohort st))"
    "sid = ss_id s"
    "finalSignature L (cs_cohort st) (s\<lparr>ss_partialSignatures := map (\<lambda>d. (d, psig d)) (ds @ es),
       ss_phase := PartialSignaturesReceived\<rparr>) = Inr sig"
    "tx_setFinalScriptWitness L (ss_pendingTx s) 0 [sig] = Some tx"
  shows "cs_phase (handleAll L mx (map (\<lambda>d. createSignatureAuthorizationMessage d to cid sid (psig d)) es) st) = ServiceComplete \<and>
    cs_result (handleAll L mx (map (\<lambda>d. createSignatureAuthorizationMessage d to cid sid (psig d)) es) st) =
      Some \<lparr>ar_cohortId = cid, ar_signature = sig, ar_signedTx = tx, ar_path = ''key-path''\<rparr>"
  using assms
proof (induction es arbitrary: st s ds)
  case (Cons e es)
  have len: "length (ds @ e # es) = length (ch_participants (cs_cohort st))"
    using Cons.prems(5,7,8) by (metis distinct_card)
  have e: "e \<in> set (ch_participants (cs_cohort st))" "\<not> jm_has (ss_partialSignatures s) e"
    using Cons.prems(4,5,7) by (auto simp: jm_has_iff)
  have upd: "jm_set e (psig e) (ss_partialSignatures s) = map (\<lambda>d. (d, psig d)) (ds @ [e])"
    using jm_set_fresh' [OF e(2)] Cons.prems(4) by simp
  show ?case
  proof (cases "es = []")
    case True
    let ?s = "s\<lparr>ss_partialSignatures := map (\<lambda>d. (d, psig d)) (ds @ [e]), ss_phase := PartialSignaturesReceived\<rparr>"
    have "addPartialSignature (cs_cohort st) e (psig e) s = (?s, Inr ())"
      using Cons.prems(3) e len True upd by (simp add: addPartialSignature_def Let_def)
    moreover have "generateFinalSignature L (cs_cohort st) ?s = (?s\<lparr>ss_signature := Some sig, ss_phase := SessionComplete\<rparr>, Inr sig)"
      using Cons.prems(10) True by (simp add: generateFinalSignature_def)
    ultimately show ?thesis using Cons.prems len True
      by (simp add: handleSignatureAuthorization_def completeKeyPath_def)
  next
    case False
    let ?s = "s\<lparr>ss_partialSignatures := map (\<lambda>d. (d, psig d)) (ds @ [e])\<rparr>"
    have len: "Suc (length ds) \<noteq> length (ch_participants (cs_cohort st))" using len False by (cases es) auto
    have "addPartialSignature (cs_cohort st) e (psig e) s = (?s, Inr ())"
      using Cons.prems(3) e len upd by (simp add: addPartialSignature_def Let_def)
    then have step: "handleSignatureAuthorization L (createSignatureAuthorizationMessage e to cid sid (psig e)) st =
        (st\<lparr>cs_signingSession := Some ?s\<rparr>, Inr ())"
      using Cons.prems len by (simp add: handleSignatureAuthorization_def)
    have "cs_phase (handleAll L mx (map (\<lambda>d. createSignatureAuthorizationMessage d to cid sid (psig d)) es)
          (st\<lparr>cs_signingSession := Some ?s\<rparr>)) = ServiceComplete \<and>
        cs_result (handleAll L mx (map (\<lambda>d. createSignatureAuthorizationMessage d to cid sid (psig d)) es)
          (st\<lparr>cs_signingSession := Some ?s\<rparr>)) =
        Some \<lparr>ar_cohortId = cid, ar_signature = sig, ar_signedTx = tx, ar_path = ''key-path''\<rparr>"
      by (rule Cons.IH [where ds = "ds @ [e]" and s = ?s]) (use Cons.prems False in simp_all)
    then show ?thesis using step by simp
  qed
qed simp

section \<open>Signing completes\<close>

lemma onCohort_some:
  assumes "jm_get (as_cohortStates svc) cid = Some st"
  shows "jm_get (as_cohortStates (fst (onCohort cid f svc))) cid = Some (fst (f st))"
    "as_maxUpdateSizeBytes (fst (onCohort cid f svc)) = as_maxUpdateSizeBytes svc" "as_did (fst (onCohort cid f svc)) = as_did svc"
  using assms by (simp_all add: onCohort_def Let_def split: prod.split)

text \<open>C11: Signing completes. Once a cohort is validated, if every member sends one nonce and, after the
  aggregated nonce, one partial signature, in whatever orders, and the MuSig2 library aggregates the
  nonces, accepts every partial signature and aggregates them, then the cohort completes with the
  aggregated signature in the witness of the transaction.\<close>

theorem signing_completes:
  fixes L :: "('tx, 'x) agg_lib_scheme" and nonce psig :: "string \<Rightarrow> bytes" and sid :: string
  assumes st: "jm_get (as_cohortStates svc) cid = Some st" "cid \<noteq> []" "cs_phase st = Validated" "cs_cohort st = ch"
    and members: "cohort_inv ch" "ch_participants ch \<noteq> []"
      "distinct ds" "set ds = set (ch_participants ch)" "distinct es" "set es = set (ch_participants ch)"
    and nonces: "\<forall>d. length (nonce d) = 66" "musig_nonce_agg L (map nonce ds) = Some n"
      "noncesByIndex ch (map (\<lambda>d. (d, nonce d)) ds) (replicate (length (ch_cohortKeys ch)) None) = Inr ns"
    and tx: "td_prevOutScripts txData = script # scripts" "td_prevOutValues txData = v # vs"
      "tx_preimageWitnessV1 L (td_tx txData) 0 (td_prevOutScripts txData) (td_prevOutValues txData) None = Some msg"
    and ms: "ms = \<lparr>ms_aggNonce = n, ms_publicKeys = ch_cohortKeys ch, ms_message = msg, ms_tweak = ch_tapTweak ch\<rparr>"
      "musig_session_ok L ms"
    and sigs: "\<forall>d \<in> set es. \<exists>i. indexOfParticipant ch d = Some i \<and> musig_partial_verify L ms (psig d) ns i = Some True"
      "musig_partial_agg L ms (map psig es) = Some sig"
      "tx_setFinalScriptWitness L (td_tx txData) 0 [sig] = Some signedTx"
  defines "svc1 \<equiv> fst (startSigning L sid cid txData svc)"
  defines "svc2 \<equiv> receiveAll L (map (\<lambda>d. createNonceContributionMessage d (as_did svc) cid sid (nonce d)) ds) svc1"
  defines "svc3 \<equiv> fst (sendAggregatedNonce L cid svc2)"
  defines "svc4 \<equiv> receiveAll L (map (\<lambda>d. createSignatureAuthorizationMessage d (as_did svc) cid sid (psig d)) es) svc3"
  shows "getCohortPhase cid svc4 = Some ServiceComplete \<and>
    getResult cid svc4 = Some \<lparr>ar_cohortId = cid, ar_signature = sig, ar_signedTx = signedTx, ar_path = ''key-path''\<rparr>"
proof -
  let ?mx = "as_maxUpdateSizeBytes svc"
  let ?s1 = "newSession sid None (td_tx txData) (td_prevOutScripts txData) (td_prevOutValues txData) :: 'tx BeaconSigningSession"
  let ?st1 = "st\<lparr>cs_signingSession := Some ?s1, cs_phase := SigningStarted\<rparr>"
  let ?s2 = "?s1\<lparr>ss_nonceContributions := map (\<lambda>d. (d, nonce d)) ds, ss_phase := NonceContributionsReceived\<rparr>"
  let ?st2 = "?st1\<lparr>cs_signingSession := Some ?s2, cs_phase := NoncesCollected\<rparr>"
  let ?s3 = "?s2\<lparr>ss_aggregatedNonce := Some n, ss_phase := AwaitingPartialSignatures\<rparr>"
  let ?st3 = "?st2\<lparr>cs_signingSession := Some ?s3, cs_phase := AwaitingPartialSigs\<rparr>"
  let ?m1 = "map (\<lambda>d. createNonceContributionMessage d (as_did svc) cid sid (nonce d)) ds"
  let ?m2 = "map (\<lambda>d. createSignatureAuthorizationMessage d (as_did svc) cid sid (psig d)) es"
  have ne: "ds \<noteq> []" "es \<noteq> []" using members by auto
  have dist: "distinct (ch_participants ch)" using members(1) by (simp add: cohort_inv_def)
  have 1: "jm_get (as_cohortStates svc1) cid = Some ?st1" "as_maxUpdateSizeBytes svc1 = ?mx" "as_did svc1 = as_did svc"
    using st(3) tx by (simp_all add: svc1_def startSigning_def onCohort_some [OF st(1)] startSigningState_def Let_def)
  have "handleAll L ?mx ?m1 ?st1 = ?st2"
    using nonces_collected [where st = ?st1 and s = ?s1 and ds = "[]" and es = ds and nonce = nonce and sid = sid
        and L = L and mx = ?mx and to = "as_did svc" and cid = cid]
      ne dist members nonces(1) st(4) by (simp add: newSession_def)
  then have 2: "jm_get (as_cohortStates svc2) cid = Some ?st2" "as_maxUpdateSizeBytes svc2 = ?mx" "as_did svc2 = as_did svc"
    using receiveAll_about [of ?m1 cid svc1 ?st1 L] 1 st(2) by (simp_all add: svc2_def)
  have "generateAggregatedNonce L ?s2 = (?s3, Inr n)"
    using nonces(2) by (simp add: generateAggregatedNonce_def comp_def)
  then have 3: "jm_get (as_cohortStates svc3) cid = Some ?st3" "as_maxUpdateSizeBytes svc3 = ?mx" "as_did svc3 = as_did svc"
    using 2(2,3) by (simp_all add: svc3_def sendAggregatedNonce_def onCohort_some [OF 2(1)] aggregatedNonceState_def)
  let ?s4 = "?s3\<lparr>ss_partialSignatures := map (\<lambda>d. (d, psig d)) es, ss_phase := PartialSignaturesReceived\<rparr>"
  have ms4: "musigSession L ch n ?s4 = Inr ms"
    using tx ms by (simp add: musigSession_def sigHash_def newSession_def)
  have "verifyPartials L ch ms ns (map (\<lambda>d. (d, psig d)) xs) = Inr ()" if "set xs \<subseteq> set es" for xs
    using that sigs(1) by (induction xs) auto
  then have fin: "finalSignature L ch ?s4 = Inr sig"
    using ms4 nonces(3) sigs(2) by (simp add: finalSignature_def comp_def)
  have "cs_phase (handleAll L ?mx ?m2 ?st3) = ServiceComplete \<and> cs_result (handleAll L ?mx ?m2 ?st3) =
      Some \<lparr>ar_cohortId = cid, ar_signature = sig, ar_signedTx = signedTx, ar_path = ''key-path''\<rparr>"
    using partials_collected [where st = ?st3 and s = ?s3 and ds = "[]" and es = es and psig = psig and sid = sid
        and L = L and mx = ?mx and to = "as_did svc" and cid = cid and sig = sig and tx = signedTx]
      ne dist members fin sigs(3) st(4) by (simp add: newSession_def)
  then show ?thesis
    using receiveAll_about [of ?m2 cid svc3 ?st3 L] 3 st(2) by (simp add: svc4_def getCohortPhase_def getResult_def)
qed

text \<open>The demo cohort once it is validated.\<close>

lemma demo_validated:
  obtains st where "demo_cohort 13 = Some st" "cs_phase st = Validated" "cohort_inv (cs_cohort st)"
    "ch_participants (cs_cohort st) = [''did:m'', ''did:n'']" "ch_cohortKeys (cs_cohort st) = [demo_pk 1, demo_pk 2]"
    "ch_participantKeys (cs_cohort st) = [(''did:m'', demo_pk 1), (''did:n'', demo_pk 2)]" "as_did (demo_run 13) = ''did:s''"
proof -
  obtain st where st: "demo_cohort 13 = Some st" "cs_phase st = Validated"
    "ch_participants (cs_cohort st) = [''did:m'', ''did:n'']" "ch_cohortKeys (cs_cohort st) = [demo_pk 1, demo_pk 2]"
    "ch_participantKeys (cs_cohort st) = [(''did:m'', demo_pk 1), (''did:n'', demo_pk 2)]" "as_did (demo_run 13) = ''did:s''"
    by (rule demo_run_facts [of 13]) (auto simp: demo_expect_def)
  have "service_inv demo_alib st" using service_reach_inv [OF demo_run_reach] st(1) by (simp add: demo_cohort_def)
  from that [OF st(1,2) service_invD(1) [OF this] st(3-)] show ?thesis .
qed

lemma demo_index:
  assumes "ch_cohortKeys ch = [demo_pk 1, demo_pk 2]"
    "ch_participantKeys ch = [(''did:m'', demo_pk 1), (''did:n'', demo_pk 2)]"
  shows "indexOfParticipant ch ''did:m'' = Some 0" "indexOfParticipant ch ''did:n'' = Some 1"
proof -
  have ne: "demo_pk 1 \<noteq> demo_pk 2" by (simp add: demo_pk_def)
  have "list_index [demo_pk 1, demo_pk 2] (demo_pk 1) = Some 0" "list_index [demo_pk 1, demo_pk 2] (demo_pk 2) = Some 1"
    using ne by simp_all
  then show "indexOfParticipant ch ''did:m'' = Some 0" "indexOfParticipant ch ''did:n'' = Some 1"
    by (simp_all add: indexOfParticipant_def assms)
qed

theorem signing_completes_witness:
  "let ds = [''did:n'', ''did:m'']; es = [''did:m'', ''did:n''];
       nonce = (\<lambda>d. replicate 66 2); psig = (\<lambda>d. demo_sighash demo_beacon_tx);
       svc1 = fst (startSigning demo_alib ''u'' ''c'' demo_txData (demo_run 13));
       svc2 = receiveAll demo_alib (map (\<lambda>d. createNonceContributionMessage d ''did:s'' ''c'' ''u'' (nonce d)) ds) svc1;
       svc3 = fst (sendAggregatedNonce demo_alib ''c'' svc2);
       svc4 = receiveAll demo_alib (map (\<lambda>d. createSignatureAuthorizationMessage d ''did:s'' ''c'' ''u'' (psig d)) es) svc3
   in getCohortPhase ''c'' svc4 = Some ServiceComplete"
proof -
  obtain st where st: "demo_cohort 13 = Some st" "cs_phase st = Validated" "cohort_inv (cs_cohort st)"
    "ch_participants (cs_cohort st) = [''did:m'', ''did:n'']" "ch_cohortKeys (cs_cohort st) = [demo_pk 1, demo_pk 2]"
    "ch_participantKeys (cs_cohort st) = [(''did:m'', demo_pk 1), (''did:n'', demo_pk 2)]" "as_did (demo_run 13) = ''did:s''"
    by (rule demo_validated)
  let ?n = "replicate 66 2 :: bytes" and ?h = "demo_sighash demo_beacon_tx"
  let ?ms = "\<lparr>ms_aggNonce = ?n, ms_publicKeys = ch_cohortKeys (cs_cohort st), ms_message = ?h, ms_tweak = ch_tapTweak (cs_cohort st)\<rparr>"
  note idx = demo_index [OF st(5,6)]
  have "getCohortPhase ''c''
      (receiveAll demo_alib (map (\<lambda>d. createSignatureAuthorizationMessage d (as_did (demo_run 13)) ''c'' ''u'' ?h) [''did:m'', ''did:n''])
        (fst (sendAggregatedNonce demo_alib ''c''
          (receiveAll demo_alib (map (\<lambda>d. createNonceContributionMessage d (as_did (demo_run 13)) ''c'' ''u'' ?n) [''did:n'', ''did:m''])
            (fst (startSigning demo_alib ''u'' ''c'' demo_txData (demo_run 13))))))) = Some ServiceComplete"
    by (rule signing_completes [where st = st and ch = "cs_cohort st" and ms = ?ms and n = ?n and ns = "[Some ?n, Some ?n]" and
          script = "replicate 32 1" and scripts = "[]" and v = 5 and vs = "[]" and msg = ?h and sig = ?h and signedTx = "(fst demo_beacon_tx, [?h])",
          THEN conjunct1])
       (use st idx in \<open>auto simp: demo_cohort_def demo_txData_def demo_members_def numeral_2_eq_2\<close>)
  then show ?thesis by (simp only: Let_def st(7))
qed

section \<open>Collecting responses\<close>

text \<open>A response: a signed update, or nothing for a member that declines.\<close>

definition respond :: "(string \<Rightarrow> jsval option) \<Rightarrow> string \<Rightarrow> string \<Rightarrow> string \<Rightarrow> BaseMessage" where
  "respond resp to cid d =
     (case resp d of None \<Rightarrow> createSubmitNonIncludedMessage d to cid | Some u \<Rightarrow> createSubmitUpdateMessage d to cid u)"

definition submitted :: "(string \<Rightarrow> jsval option) \<Rightarrow> string list \<Rightarrow> (string, jsval) jsmap" where
  "submitted resp ds = map (\<lambda>d. (d, the (resp d))) (filter (\<lambda>d. resp d \<noteq> None) ds)"

definition declined :: "(string \<Rightarrow> jsval option) \<Rightarrow> string list \<Rightarrow> string list" where
  "declined resp ds = filter (\<lambda>d. resp d = None) ds"

text \<open>An update that the service accepts from its sender.\<close>

definition acceptable :: "'x method_lib_scheme \<Rightarrow> int \<Rightarrow> 'tx ServiceCohortState \<Rightarrow> string \<Rightarrow> jsval \<Rightarrow> bool" where
  "acceptable L mx st d u \<longleftrightarrow> truthy u \<and> (\<exists>c. canonicalize L u = Inr c \<and> int (utf16_length c) \<le> mx) \<and>
     verifySubmittedUpdate L st d u = Inr True"

lemma acceptable_cong:
  assumes "cs_pendingOptIns st' = cs_pendingOptIns st"
  shows "acceptable L mx st' d u = acceptable L mx st d u"
  unfolding acceptable_def verifySubmittedUpdate_def assms ..

lemma responses_split: "length (submitted resp ds) + length (declined resp ds) = length ds"
  by (induction ds) (auto simp: submitted_def declined_def)

lemma responses_snoc:
  "submitted resp (ds @ [d]) = submitted resp ds @ (case resp d of None \<Rightarrow> [] | Some u \<Rightarrow> [(d, u)])"
  "declined resp (ds @ [d]) = declined resp ds @ (case resp d of None \<Rightarrow> [d] | Some u \<Rightarrow> [])"
  by (simp_all add: submitted_def declined_def split: option.split)

lemma responses_mem: "fst ` set (submitted resp ds) \<subseteq> set ds" "set (declined resp ds) \<subseteq> set ds"
  by (auto simp: submitted_def declined_def)

lemma response_step:
  assumes "cs_phase st = CohortSet \<or> cs_phase st = CollectingUpdates"
    "ch_pendingUpdates (cs_cohort st) = submitted resp ds" "ch_nonIncluded (cs_cohort st) = declined resp ds"
    "d \<notin> set ds" "d \<in> set (ch_participants (cs_cohort st))"
    "\<forall>u. resp d = Some u \<longrightarrow> acceptable L mx st d u"
  shows "fst (messageHandler L mx (respond resp to cid d) st) =
    st\<lparr>cs_cohort := (cs_cohort st)\<lparr>ch_pendingUpdates := submitted resp (ds @ [d]), ch_nonIncluded := declined resp (ds @ [d])\<rparr>,
       cs_phase := (if Suc (length ds) = length (ch_participants (cs_cohort st)) then UpdatesCollected else CollectingUpdates)\<rparr>"
proof -
  have fresh: "d \<notin> fst ` set (submitted resp ds)" "d \<notin> set (declined resp ds)"
    using responses_mem [of resp ds] assms(4) by auto
  have len: "hasAllResponses ((cs_cohort st)\<lparr>ch_pendingUpdates := submitted resp (ds @ [d]), ch_nonIncluded := declined resp (ds @ [d])\<rparr>) \<longleftrightarrow>
      Suc (length ds) = length (ch_participants (cs_cohort st))"
    using responses_split [of resp "ds @ [d]"] by (simp add: hasAllResponses_def)
  show ?thesis
  proof (cases "resp d")
    case None
    have "addNonInclusion d (cs_cohort st) = ((cs_cohort st)\<lparr>ch_pendingUpdates := submitted resp (ds @ [d]),
        ch_nonIncluded := declined resp (ds @ [d])\<rparr>, Inr ())"
      using assms(2,3,5) fresh None by (simp add: addNonInclusion_def jm_has_iff js_add_def responses_snoc)
    then show ?thesis using assms fresh len None
      by (auto simp: respond_def handleSubmitNonInclusion_def responded_def Let_def jm_has_iff)
  next
    case (Some u)
    have "addUpdate d u (cs_cohort st) = ((cs_cohort st)\<lparr>ch_pendingUpdates := submitted resp (ds @ [d]),
        ch_nonIncluded := declined resp (ds @ [d])\<rparr>, Inr ())"
      using assms(2,3,5) fresh Some by (simp add: addUpdate_def jm_set_fresh responses_snoc)
    moreover have "acceptable L mx st d u" using assms(6) Some by simp
    ultimately show ?thesis using assms(1-5) fresh len Some
      by (auto simp: respond_def acceptable_def handleSubmitUpdate_def responded_def Let_def jm_has_iff)
  qed
qed

lemma responses_collected:
  assumes "cs_phase st = CohortSet \<or> cs_phase st = CollectingUpdates"
    "cs_cohort st = ch\<lparr>ch_pendingUpdates := submitted resp ds, ch_nonIncluded := declined resp ds\<rparr>"
    "distinct (ds @ es)" "es \<noteq> []" "set (ds @ es) = set (ch_participants ch)" "distinct (ch_participants ch)"
    "\<forall>d u. resp d = Some u \<longrightarrow> acceptable L mx st d u"
  shows "handleAll L mx (map (respond resp to cid) es) st =
    st\<lparr>cs_cohort := ch\<lparr>ch_pendingUpdates := submitted resp (ds @ es), ch_nonIncluded := declined resp (ds @ es)\<rparr>,
       cs_phase := UpdatesCollected\<rparr>"
  using assms
proof (induction es arbitrary: st ds)
  case (Cons e es)
  have len: "length (ds @ e # es) = length (ch_participants ch)"
    using Cons.prems(3,5,6) by (metis distinct_card)
  let ?st = "st\<lparr>cs_cohort := ch\<lparr>ch_pendingUpdates := submitted resp (ds @ [e]), ch_nonIncluded := declined resp (ds @ [e])\<rparr>,
       cs_phase := (if Suc (length ds) = length (ch_participants ch) then UpdatesCollected else CollectingUpdates)\<rparr>"
  have "e \<notin> set ds" "e \<in> set (ch_participants ch)" using Cons.prems(3,5) by auto
  then have step: "fst (messageHandler L mx (respond resp to cid e) st) = ?st"
    using response_step [of st resp ds e L mx to cid] Cons.prems(1,2,7) by simp
  show ?case
  proof (cases "es = []")
    case True
    then show ?thesis using step len by simp
  next
    case False
    then have "Suc (length ds) \<noteq> length (ch_participants ch)" using len by (cases es) auto
    moreover have "\<forall>d u. resp d = Some u \<longrightarrow> acceptable L mx ?st d u"
      using Cons.prems(7) acceptable_cong [of ?st st L mx] by simp
    ultimately show ?thesis
      using Cons.IH [of ?st "ds @ [e]"] Cons.prems False step by simp
  qed
qed simp

text \<open>All members approve.\<close>

lemma approvals_collected:
  assumes "cs_phase st = DataDistributed" "ch_validationAcks (cs_cohort st) = ds" "ch_validationRejections (cs_cohort st) = []"
    "distinct (ds @ es)" "es \<noteq> []" "set (ds @ es) = set (ch_participants (cs_cohort st))"
    "distinct (ch_participants (cs_cohort st))"
  shows "handleAll L mx (map (\<lambda>d. createValidationAckMessage d to cid True) es) st =
    st\<lparr>cs_cohort := (cs_cohort st)\<lparr>ch_validationAcks := ds @ es\<rparr>, cs_phase := Validated\<rparr>"
  using assms
proof (induction es arbitrary: st ds)
  case (Cons e es)
  have len: "length (ds @ e # es) = length (ch_participants (cs_cohort st))"
    using Cons.prems(4,6,7) by (metis distinct_card)
  have e: "e \<notin> set ds" "e \<in> set (ch_participants (cs_cohort st))" using Cons.prems(4,6) by auto
  let ?st = "st\<lparr>cs_cohort := (cs_cohort st)\<lparr>ch_validationAcks := ds @ [e]\<rparr>\<rparr>"
  have add: "addValidation e True (cs_cohort st) = ((cs_cohort st)\<lparr>ch_validationAcks := ds @ [e]\<rparr>, Inr ())"
    using e Cons.prems(2) by (simp add: addValidation_def js_add_def)
  show ?case
  proof (cases "es = []")
    case True
    then show ?thesis using add len Cons.prems by (simp add: handleValidationAck_def isFullyValidated_def)
  next
    case False
    then have "Suc (length ds) \<noteq> length (ch_participants (cs_cohort st))" using len by (cases es) auto
    then have "fst (handleValidationAck (createValidationAckMessage e to cid True) st) = ?st"
      using add Cons.prems by (simp add: handleValidationAck_def isFullyValidated_def hasAllValidationResponses_def)
    then show ?thesis using Cons.IH [of ?st "ds @ [e]"] Cons.prems False by simp
  qed
qed simp

text \<open>C27: A cohort whose members all respond gets validated. From \<open>CohortSet\<close>, if every member either
  declines or submits an update that the service accepts, in whatever order, the data can be built;
  once it is distributed, one message for each member, and every member approves, in whatever order,
  the cohort is validated.\<close>

theorem responses_lead_to_validation:
  fixes L :: "('tx, 'x) agg_lib_scheme" and resp :: "string \<Rightarrow> jsval option" and nonce :: "nat \<Rightarrow> bytes"
    and msgs :: "BaseMessage list"
  assumes st: "jm_get (as_cohortStates svc) cid = Some st" "cid \<noteq> []" "cs_phase st = CohortSet" "cs_cohort st = ch"
    and fresh: "ch_pendingUpdates ch = []" "ch_nonIncluded ch = []" "ch_validationAcks ch = []" "ch_validationRejections ch = []"
    and members: "distinct (ch_participants ch)" "ch_participants ch \<noteq> []"
      "distinct ds" "set ds = set (ch_participants ch)" "distinct es" "set es = set (ch_participants ch)"
    and resp: "\<forall>d u. resp d = Some u \<longrightarrow> acceptable L (as_maxUpdateSizeBytes svc) st d u"
  defines "svc1 \<equiv> receiveAll L (map (respond resp (as_did svc) cid) ds) svc"
  assumes build: "snd (buildAndDistribute L nonce cid svc1) = Inr msgs"
  defines "svc2 \<equiv> fst (buildAndDistribute L nonce cid svc1)"
  defines "svc3 \<equiv> receiveAll L (map (\<lambda>d. createValidationAckMessage d (as_did svc) cid True) es) svc2"
  shows "getCohortPhase cid svc1 = Some UpdatesCollected \<and> map m_to msgs = map Some (ch_participants ch) \<and>
    getCohortPhase cid svc3 = Some Validated"
proof -
  let ?mx = "as_maxUpdateSizeBytes svc"
  let ?m1 = "map (respond resp (as_did svc) cid) ds"
  let ?m3 = "map (\<lambda>d. createValidationAckMessage d (as_did svc) cid True) es"
  let ?ch1 = "ch\<lparr>ch_pendingUpdates := submitted resp ds, ch_nonIncluded := declined resp ds\<rparr>"
  let ?st1 = "st\<lparr>cs_cohort := ?ch1, cs_phase := UpdatesCollected\<rparr>"
  have ne: "ds \<noteq> []" "es \<noteq> []" using members by auto
  have "ch = ch\<lparr>ch_pendingUpdates := submitted resp [], ch_nonIncluded := declined resp []\<rparr>"
    using fresh by (simp add: submitted_def declined_def)
  then have "handleAll L ?mx ?m1 st = ?st1"
    using responses_collected [where st = st and ch = ch and resp = resp and ds = "[]" and es = ds and L = L and mx = ?mx and to = "as_did svc" and cid = cid] st members ne resp by simp
  moreover have about1: "\<forall>m \<in> set ?m1. about cid m" using st(2) by (auto simp: respond_def split: option.split)
  ultimately have 1: "jm_get (as_cohortStates svc1) cid = Some ?st1" "as_maxUpdateSizeBytes svc1 = ?mx" "as_did svc1 = as_did svc"
    using receiveAll_about [OF about1 st(1), of L] by (simp_all add: svc1_def)
  have dist: "snd (distributeState L nonce svc1 cid ?st1) = Inr msgs"
    using build 1(1) by (simp add: buildAndDistribute_def onCohort_def Let_def split: prod.splits)
  obtain strategy ch2 sig where s: "getBeaconStrategy (STRATEGIES L) (co_beaconType (cs_config st)) = Some strategy"
    "st_buildAggregatedData strategy nonce ?ch1 = (ch2, Inr ())" "ch_signalBytes ch2 = Some sig"
    using dist by (auto simp: distributeState_def split: option.splits prod.splits sum.splits)
  obtain cas smt sg where "ch2 = ?ch1\<lparr>ch_casAnnouncement := cas, ch_smtProofs := smt, ch_signalBytes := sg\<rparr>"
    using s(1) cas.build_frame [of L nonce ?ch1 ch2 "Inr ()"] smt.build_frame [of L nonce ?ch1 ch2 "Inr ()"] s(2)
    by (auto simp: strategies_get split: if_splits)
  then have ch2: "ch_participants ch2 = ch_participants ch" "ch_validationAcks ch2 = []" "ch_validationRejections ch2 = []"
    using fresh by simp_all
  let ?st2 = "?st1\<lparr>cs_cohort := ch2, cs_phase := DataDistributed\<rparr>"
  have "fst (distributeState L nonce svc1 cid ?st1) = ?st2" and to: "map m_to msgs = map Some (ch_participants ch)"
    using dist s ch2 by (auto simp: distributeState_def Let_def createDistributeAggregatedDataMessage_def newBaseMessage_def)
  then have 2: "jm_get (as_cohortStates svc2) cid = Some ?st2" "as_maxUpdateSizeBytes svc2 = ?mx" "as_did svc2 = as_did svc"
    using 1(2,3) by (simp_all add: svc2_def buildAndDistribute_def onCohort_some [OF 1(1)])
  have "handleAll L ?mx ?m3 ?st2 = ?st2\<lparr>cs_cohort := ch2\<lparr>ch_validationAcks := es\<rparr>, cs_phase := Validated\<rparr>"
    using approvals_collected [of ?st2 "[]" es L ?mx "as_did svc" cid] ch2 members ne by simp
  then have "getCohortPhase cid svc3 = Some Validated"
    using receiveAll_about [of ?m3 cid svc2 ?st2 L] 2 st(2) by (simp add: svc3_def getCohortPhase_def)
  then show ?thesis using 1(1) to by (simp add: getCohortPhase_def)
qed

theorem responses_lead_to_validation_witness:
  "let svc = demo_run 8; ds = [''did:m'', ''did:n'']; es = [''did:n'', ''did:m''];
       svc1 = receiveAll demo_alib (map (respond (\<lambda>d. None) ''did:s'' ''c'') ds) svc;
       svc2 = fst (buildAndDistribute demo_alib (\<lambda>_. replicate 32 0) ''c'' svc1);
       svc3 = receiveAll demo_alib (map (\<lambda>d. createValidationAckMessage d ''did:s'' ''c'' True) es) svc2
   in getCohortPhase ''c'' svc3 = Some Validated"
proof -
  let ?r = "\<lambda>d :: string. None :: jsval option"
  obtain st where st: "demo_cohort 8 = Some st" "cs_phase st = CohortSet" "as_did (demo_run 8) = ''did:s''"
    "ch_participants (cs_cohort st) = [''did:m'', ''did:n'']"
    "ch_pendingUpdates (cs_cohort st) = []" "ch_nonIncluded (cs_cohort st) = []"
    "ch_validationAcks (cs_cohort st) = []" "ch_validationRejections (cs_cohort st) = []"
    by (rule demo_run_facts [of 8]) (auto simp: demo_expect_def)
  have late: "receiveAll demo_alib (map (respond ?r (as_did (demo_run 8)) ''c'') [''did:m'', ''did:n'']) (demo_run 8) = demo_run 10"
    using demo_run_Suc [of 8] demo_run_Suc [of 9]
    by (simp add: receiveAll_def respond_def st(3) demo_calls_def demo_members_def)
  obtain msgs where "snd (buildAndDistribute demo_alib (\<lambda>_. replicate 32 0) ''c'' (demo_run 10)) = Inr msgs"
    by (rule demo_distributes)
  then have msgs: "snd (buildAndDistribute demo_alib (\<lambda>_. replicate 32 0) ''c''
      (receiveAll demo_alib (map (respond ?r (as_did (demo_run 8)) ''c'') [''did:m'', ''did:n'']) (demo_run 8))) = Inr msgs"
    unfolding late .
  have "getCohortPhase ''c'' (receiveAll demo_alib
      (map (\<lambda>d. createValidationAckMessage d (as_did (demo_run 8)) ''c'' True) [''did:n'', ''did:m''])
      (fst (buildAndDistribute demo_alib (\<lambda>_. replicate 32 0) ''c''
        (receiveAll demo_alib (map (respond ?r (as_did (demo_run 8)) ''c'') [''did:m'', ''did:n'']) (demo_run 8))))) = Some Validated"
    by (rule responses_lead_to_validation [where st = st and ch = "cs_cohort st" and resp = ?r and msgs = msgs,
          THEN conjunct2, THEN conjunct2])
       (use st msgs in \<open>auto simp: demo_cohort_def\<close>)
  then show ?thesis by (simp only: Let_def st(3))
qed

end
