(* ===== verification/AggFallbackRun.thy ===== *)
theory AggFallbackRun
  imports AggHonest
begin

text \<open>
  The fallback in adversarial runs: whatever messages a service (\<open>AggService\<close>) receives after it asked for the
  fallback, the valid signatures of as many members as the threshold complete the cohort.
\<close>

section \<open>The fallback completes\<close>























end
