(* ===== verification/AggParticipant.thy ===== *)
theory AggParticipant
  imports AggMessages AggStrategy AggSession AggFallback
begin

text \<open>
  The state machine of a participant: the class \<open>AggregationParticipant\<close> of
  \<open>packages/aggregation/src/participant/participant.ts\<close>. As in the service, a method returns the new
  participant and its result, and random values are arguments. The cohort of a signing session is
  the cohort of the state that holds the session.
\<close>

section \<open>State\<close>

datatype participant_phase =
    Discovered | OptedIn | CohortReady | UpdateSubmitted | NonIncluded | AwaitingValidation | ValidationSent
  | AwaitingSigning | NonceSent | AwaitingPartialSig | AwaitingFallbackSig | ParticipantComplete | ParticipantFailed

record CohortAdvert = CohortConditions +
  ca_cohortId :: string
  ca_serviceDid :: string
  ca_network :: string
  ca_serviceCommunicationPk :: bytes

record JoinedCohortInfo =
  ji_cohortId :: string
  ji_serviceDid :: string
  ji_beaconAddress :: string
  ji_cohortKeys :: "bytes list"

record PendingValidation =
  pn_cohortId :: string
  pn_beaconType :: string
  pn_signalBytesHex :: string
  pn_casAnnouncement :: jsval
  pn_smtProof :: jsval
  pn_expectedHash :: string
  pn_matches :: bool
  pn_included :: bool

record PendingSigningRequest =
  pr_cohortId :: string
  pr_sessionId :: string
  pr_pendingTxHex :: string
  pr_prevOutScriptHex :: string
  pr_prevOutValue :: string

record PendingFallbackRequest = PendingSigningRequest +
  pr_fallbackLeafScriptHex :: string

record 'tx ParticipantCohortState =
  pc_phase :: participant_phase
  pc_cohortId :: string
  pc_serviceDid :: string
  pc_advert :: "CohortAdvert option"
  pc_cohort :: "AggregationCohort option"
  pc_submittedUpdate :: jsval
  pc_included :: "bool option"
  pc_validation :: "PendingValidation option"
  pc_signingRequest :: "PendingSigningRequest option"
  pc_fallbackRequest :: "PendingFallbackRequest option"
  pc_signingSession :: "'tx BeaconSigningSession option"

record 'tx AggregationParticipant =
  ap_did :: string
  ap_signer :: AggregationSigner
  ap_genesisDocument :: jsval
  ap_cohortStates :: "(string, 'tx ParticipantCohortState) jsmap"

definition newAggregationParticipant :: "string \<Rightarrow> AggregationSigner \<Rightarrow> jsval \<Rightarrow> 'tx AggregationParticipant" where
  "newAggregationParticipant did signer genesisDocument =
     \<lparr>ap_did = did, ap_signer = signer, ap_genesisDocument = genesisDocument, ap_cohortStates = []\<rparr>"

definition participant_publicKey :: "'tx AggregationParticipant \<Rightarrow> bytes" where
  "participant_publicKey p = sg_publicKey (ap_signer p)"

definition participant_error :: "string \<Rightarrow> error + 'a" where
  "participant_error code = Inl (Error ''AggregationParticipantError'' code)"

lemma participant_error_simps [simp]: "participant_error c \<noteq> Inr a" "Inr a \<noteq> participant_error c"
  by (simp_all add: participant_error_def)

text \<open>A user action requires a phase; a handler ignores what it does not expect.\<close>

definition actionIn ::
  "participant_phase \<Rightarrow> string
     \<Rightarrow> ('tx ParticipantCohortState \<Rightarrow> 'tx ParticipantCohortState \<times> BaseMessage list result)
     \<Rightarrow> 'tx AggregationParticipant \<Rightarrow> 'tx AggregationParticipant \<times> BaseMessage list result" where
  "actionIn phase cohortId f p =
     (case jm_get (ap_cohortStates p) cohortId of
        None \<Rightarrow> (p, participant_error ''INVALID_PHASE'')
      | Some st \<Rightarrow>
          if pc_phase st \<noteq> phase then (p, participant_error ''INVALID_PHASE'')
          else let (st, r) = f st in (p\<lparr>ap_cohortStates := jm_set cohortId st (ap_cohortStates p)\<rparr>, r))"

definition handleIn ::
  "BaseMessage \<Rightarrow> (string \<Rightarrow> 'tx ParticipantCohortState \<Rightarrow> 'tx ParticipantCohortState \<times> unit result)
     \<Rightarrow> 'tx AggregationParticipant \<Rightarrow> 'tx AggregationParticipant \<times> unit result" where
  "handleIn m f p =
     (case body_str (m_body m) ''cohortId'' of
        None \<Rightarrow> (p, Inr ())
      | Some cohortId \<Rightarrow>
          if cohortId = [] then (p, Inr ())
          else (case jm_get (ap_cohortStates p) cohortId of
                  None \<Rightarrow> (p, Inr ())
                | Some st \<Rightarrow> let (st, r) = f cohortId st
                             in (p\<lparr>ap_cohortStates := jm_set cohortId st (ap_cohortStates p)\<rparr>, r)))"

section \<open>Joining\<close>

definition discoveredCohorts :: "'tx AggregationParticipant \<Rightarrow> (string, CohortAdvert) jsmap" where
  "discoveredCohorts p =
     map (\<lambda>(cid, st). (cid, the (pc_advert st)))
       (filter (\<lambda>(_, st). pc_phase st = Discovered \<and> pc_advert st \<noteq> None) (ap_cohortStates p))"

definition costOf :: "jsval \<Rightarrow> CohortCost option" where
  "costOf v = (case v of
      JObj _ \<Rightarrow> Some \<lparr>cc_amount = js_prop_opt v ''amount'', cc_unit = js_prop_opt v ''unit'', cc_basis = js_prop_opt v ''basis''\<rparr>
    | _ \<Rightarrow> None)"

definition advertOf :: "string \<Rightarrow> jsval \<Rightarrow> CohortAdvert" where
  "advertOf sender body =
     (let str = (\<lambda>k. case body_str body k of None \<Rightarrow> [] | Some s \<Rightarrow> s); val = js_prop_opt body in
      \<lparr>co_beaconType = str ''beaconType'', co_minParticipants = val ''minParticipants'',
       co_maxParticipants = val ''maxParticipants'', co_minDidsPerParticipant = val ''minDidsPerParticipant'',
       co_maxDidsPerParticipant = val ''maxDidsPerParticipant'',
       co_costOfEnrollment = costOf (val ''costOfEnrollment''),
       co_costPerAnnouncement = costOf (val ''costPerAnnouncement''),
       co_minSecondsBetweenAnnouncements = val ''minSecondsBetweenAnnouncements'',
       co_maxSecondsBetweenAnnouncements = val ''maxSecondsBetweenAnnouncements'',
       co_pendingUpdateTrigger = val ''pendingUpdateTrigger'', co_fundingModel = body_str body ''fundingModel'',
       co_recoveryKey = val ''recoveryKey'', co_recoverySequence = val ''recoverySequence'',
       co_fallbackThreshold = val ''fallbackThreshold'',
       ca_cohortId = str ''cohortId'', ca_serviceDid = sender, ca_network = str ''network'',
       ca_serviceCommunicationPk = (case body_bytes body ''communicationPk'' of None \<Rightarrow> [] | Some b \<Rightarrow> b)\<rparr>)"

definition handleCohortAdvert :: "BaseMessage \<Rightarrow> 'tx AggregationParticipant \<Rightarrow> 'tx AggregationParticipant \<times> unit result" where
  "handleCohortAdvert m p =
     (if \<not> isCohortAdvertMessage m then (p, Inr ())
      else let advert = advertOf (m_from m) (m_body m); cohortId = ca_cohortId advert
      in if jm_has (ap_cohortStates p) cohortId then (p, Inr ())
         else (p\<lparr>ap_cohortStates := jm_set cohortId
                 \<lparr>pc_phase = Discovered, pc_cohortId = cohortId, pc_serviceDid = m_from m, pc_advert = Some advert,
                  pc_cohort = None, pc_submittedUpdate = JUndef, pc_included = None, pc_validation = None,
                  pc_signingRequest = None, pc_fallbackRequest = None, pc_signingSession = None\<rparr>
                 (ap_cohortStates p)\<rparr>, Inr ()))"

definition joinState ::
  "('tx, 'x) agg_lib_scheme \<Rightarrow> 'tx AggregationParticipant \<Rightarrow> string \<Rightarrow> string \<Rightarrow> 'tx ParticipantCohortState
     \<Rightarrow> 'tx ParticipantCohortState \<times> BaseMessage list result" where
  "joinState L p uuid cohortId st =
     (case pc_advert st of
        None \<Rightarrow> (st, type_error)
      | Some advert \<Rightarrow>
          (case (case co_recoveryKey advert of
                   JStr s \<Rightarrow> if s = [] then Inr None else rbind (of_option (hex_decode L s)) (\<lambda>k. Inr (Some k))
                 | _ \<Rightarrow> Inr None) of
             Inl e \<Rightarrow> (st, Inl e)
           | Inr recoveryKey \<Rightarrow>
               let cohort = newCohort uuid
                     \<lparr>cp_id = Some cohortId, cp_serviceDid = Some (pc_serviceDid st),
                      cp_minParticipants = co_minParticipants advert, cp_network = ca_network advert,
                      cp_beaconType = Some (co_beaconType advert), cp_recoveryKey = recoveryKey,
                      cp_recoverySequence = co_recoverySequence advert, cp_fundingModel = co_fundingModel advert,
                      cp_fallbackThreshold = co_fallbackThreshold advert\<rparr>
               in (st\<lparr>pc_cohort := Some cohort, pc_phase := OptedIn\<rparr>,
                   Inr [createCohortOptInMessage (ap_did p) (pc_serviceDid st) cohortId (participant_publicKey p)
                          (participant_publicKey p) (ap_genesisDocument p)])))"

definition joinCohort ::
  "('tx, 'x) agg_lib_scheme \<Rightarrow> string \<Rightarrow> string \<Rightarrow> 'tx AggregationParticipant
     \<Rightarrow> 'tx AggregationParticipant \<times> BaseMessage list result" where
  "joinCohort L uuid cohortId p = actionIn Discovered cohortId (joinState L p uuid cohortId) p"

definition joinedCohorts :: "'tx AggregationParticipant \<Rightarrow> (string, JoinedCohortInfo) jsmap" where
  "joinedCohorts p =
     map (\<lambda>(cid, st). (cid, \<lparr>ji_cohortId = cid, ji_serviceDid = pc_serviceDid st,
                             ji_beaconAddress = ch_beaconAddress (the (pc_cohort st)),
                             ji_cohortKeys = ch_cohortKeys (the (pc_cohort st))\<rparr>))
       (filter (\<lambda>(_, st). case pc_cohort st of None \<Rightarrow> False | Some ch \<Rightarrow> ch_beaconAddress ch \<noteq> []) (ap_cohortStates p))"

definition handleCohortReady ::
  "('tx, 'x) agg_lib_scheme \<Rightarrow> bytes \<Rightarrow> BaseMessage \<Rightarrow> string \<Rightarrow> 'tx ParticipantCohortState
     \<Rightarrow> 'tx ParticipantCohortState \<times> unit result" where
  "handleCohortReady L publicKey m cohortId st =
     (case pc_cohort st of
        None \<Rightarrow> (st, Inr ())
      | Some ch \<Rightarrow>
          if pc_phase st \<noteq> OptedIn then (st, Inr ())
          else case (body_str (m_body m) ''beaconAddress'', body_bytesArray (m_body m) ''cohortKeys'') of
            (Some beaconAddress, Some cohortKeys) \<Rightarrow>
              if beaconAddress = [] then (st, Inr ())
              else (case validateMembership L (hex_encode L publicKey) (map (hex_encode L) cohortKeys) beaconAddress ch of
                      (ch, Inl e) \<Rightarrow> (st\<lparr>pc_cohort := Some ch\<rparr>, Inl e)
                    | (ch, Inr _) \<Rightarrow> (st\<lparr>pc_cohort := Some ch, pc_phase := CohortReady\<rparr>, Inr ()))
          | _ \<Rightarrow> (st, Inr ()))"

section \<open>Responding\<close>

definition submitUpdate ::
  "string \<Rightarrow> jsval \<Rightarrow> 'tx AggregationParticipant \<Rightarrow> 'tx AggregationParticipant \<times> BaseMessage list result" where
  "submitUpdate cohortId signedUpdate p =
     actionIn CohortReady cohortId (\<lambda>st.
       (st\<lparr>pc_submittedUpdate := signedUpdate, pc_included := Some True, pc_phase := UpdateSubmitted\<rparr>,
        Inr [createSubmitUpdateMessage (ap_did p) (pc_serviceDid st) cohortId signedUpdate])) p"

definition declineUpdate ::
  "string \<Rightarrow> 'tx AggregationParticipant \<Rightarrow> 'tx AggregationParticipant \<times> BaseMessage list result" where
  "declineUpdate cohortId p =
     actionIn CohortReady cohortId (\<lambda>st.
       (st\<lparr>pc_included := Some False, pc_phase := NonIncluded\<rparr>,
        Inr [createSubmitNonIncludedMessage (ap_did p) (pc_serviceDid st) cohortId])) p"

section \<open>Validation\<close>

definition pendingValidations :: "'tx AggregationParticipant \<Rightarrow> (string, PendingValidation) jsmap" where
  "pendingValidations p =
     map (\<lambda>(cid, st). (cid, the (pc_validation st)))
       (filter (\<lambda>(_, st). pc_phase st = AwaitingValidation \<and> pc_validation st \<noteq> None) (ap_cohortStates p))"

definition getValidation :: "string \<Rightarrow> 'tx AggregationParticipant \<Rightarrow> PendingValidation option" where
  "getValidation cohortId p = Option.bind (jm_get (ap_cohortStates p) cohortId) pc_validation"

definition handleDistributeAggregatedData ::
  "('tx, 'x) agg_lib_scheme \<Rightarrow> string \<Rightarrow> BaseMessage \<Rightarrow> string \<Rightarrow> 'tx ParticipantCohortState
     \<Rightarrow> 'tx ParticipantCohortState \<times> unit result" where
  "handleDistributeAggregatedData L did m cohortId st =
     (let declined = (pc_included st = Some False); body = m_body m
      in if pc_phase st \<notin> set [UpdateSubmitted, NonIncluded] then (st, Inr ())
         else if \<not> declined \<and> \<not> truthy (pc_submittedUpdate st) then (st, Inr ())
         else if \<not> truthy_str (body_str body ''beaconType'') then (st, Inr ())
         else let beaconType = the (body_str body ''beaconType'') in
         case getBeaconStrategy (STRATEGIES L) beaconType of
           None \<Rightarrow> (st, Inr ())
         | Some strategy \<Rightarrow>
            (let signalBytesHex = (case body_str body ''signalBytesHex'' of None \<Rightarrow> [] | Some s \<Rightarrow> s)
             in case (if declined then Inr [] else canonicalHash L ''base64urlnopad'' (pc_submittedUpdate st)) of
                Inl e \<Rightarrow> (st, Inl e)
              | Inr expectedHash \<Rightarrow>
                 (case st_validateParticipantView strategy
                    \<lparr>pv_participantDid = did, pv_included = \<not> declined,
                     pv_submittedUpdate = (if declined then JUndef else pc_submittedUpdate st),
                     pv_expectedHash = (if declined then None else Some expectedHash), pv_body = body\<rparr> of
                    Inl e \<Rightarrow> (st, Inl e)
                  | Inr result \<Rightarrow>
                      (st\<lparr>pc_validation := Some \<lparr>pn_cohortId = cohortId, pn_beaconType = beaconType,
                           pn_signalBytesHex = signalBytesHex, pn_casAnnouncement = bv_casAnnouncement result,
                           pn_smtProof = bv_smtProof result, pn_expectedHash = expectedHash,
                           pn_matches = bv_matches result, pn_included = \<not> declined\<rparr>,
                          pc_phase := AwaitingValidation\<rparr>, Inr ()))))"

definition approveValidation ::
  "string \<Rightarrow> 'tx AggregationParticipant \<Rightarrow> 'tx AggregationParticipant \<times> BaseMessage list result" where
  "approveValidation cohortId p =
     actionIn AwaitingValidation cohortId (\<lambda>st.
       (st\<lparr>pc_phase := ValidationSent\<rparr>,
        Inr [createValidationAckMessage (ap_did p) (pc_serviceDid st) cohortId True])) p"

definition rejectValidation ::
  "string \<Rightarrow> 'tx AggregationParticipant \<Rightarrow> 'tx AggregationParticipant \<times> BaseMessage list result" where
  "rejectValidation cohortId p =
     actionIn AwaitingValidation cohortId (\<lambda>st.
       (st\<lparr>pc_phase := ParticipantFailed\<rparr>,
        Inr [createValidationAckMessage (ap_did p) (pc_serviceDid st) cohortId False])) p"

section \<open>Signing\<close>

text \<open>An output that pushes exactly the signal after \<open>OP_RETURN\<close>.\<close>

definition txEmbedsSignal :: "('tx, 'x) agg_lib_scheme \<Rightarrow> 'tx \<Rightarrow> string \<Rightarrow> bool" where
  "txEmbedsSignal L tx signalHex =
     (case hex_decode L signalHex of
        None \<Rightarrow> False
      | Some expected \<Rightarrow>
          if expected = [] then False
          else list_ex (\<lambda>script. case script of
                 None \<Rightarrow> False
               | Some script \<Rightarrow> script_decode L script = Some [OpCode ''RETURN'', OpData expected])
               (tx_outputScripts L tx))"

definition pendingSigningRequests :: "'tx AggregationParticipant \<Rightarrow> (string, PendingSigningRequest) jsmap" where
  "pendingSigningRequests p =
     map (\<lambda>(cid, st). (cid, the (pc_signingRequest st)))
       (filter (\<lambda>(_, st). pc_phase st = AwaitingSigning \<and> pc_signingRequest st \<noteq> None) (ap_cohortStates p))"

text \<open>The fields of an authorization request, which are all required.\<close>

definition signingRequestOf :: "string \<Rightarrow> jsval \<Rightarrow> PendingSigningRequest option" where
  "signingRequestOf cohortId body =
     (let sessionId = body_str body ''sessionId''; pendingTxHex = body_str body ''pendingTx'';
          prevOutScriptHex = body_str body ''prevOutScriptHex''; prevOutValue = body_str body ''prevOutValue''
      in if \<not> truthy_str sessionId \<or> \<not> truthy_str pendingTxHex \<or> \<not> truthy_str prevOutScriptHex \<or>
            \<not> truthy_str prevOutValue then None
         else Some \<lparr>pr_cohortId = cohortId, pr_sessionId = the sessionId, pr_pendingTxHex = the pendingTxHex,
                    pr_prevOutScriptHex = the prevOutScriptHex, pr_prevOutValue = the prevOutValue\<rparr>)"

definition handleAuthorizationRequest ::
  "BaseMessage \<Rightarrow> string \<Rightarrow> 'tx ParticipantCohortState \<Rightarrow> 'tx ParticipantCohortState \<times> unit result" where
  "handleAuthorizationRequest m cohortId st =
     (if pc_cohort st = None \<or> pc_phase st \<noteq> ValidationSent then (st, Inr ())
      else case signingRequestOf cohortId (m_body m) of
        None \<Rightarrow> (st, Inr ())
      | Some req \<Rightarrow> (st\<lparr>pc_signingRequest := Some req, pc_phase := AwaitingSigning\<rparr>, Inr ()))"

definition assertTxAnchorsValidatedSignal ::
  "('tx, 'x) agg_lib_scheme \<Rightarrow> 'tx ParticipantCohortState \<Rightarrow> 'tx \<Rightarrow> unit result" where
  "assertTxAnchorsValidatedSignal L st tx =
     (case pc_validation st of
        None \<Rightarrow> participant_error ''MISSING_STATE''
      | Some v \<Rightarrow>
          if pn_signalBytesHex v = [] then participant_error ''MISSING_STATE''
          else if \<not> txEmbedsSignal L tx (pn_signalBytesHex v) then participant_error ''SIGNAL_MISMATCH''
          else Inr ())"

text \<open>What an approval reads of the request: the transaction, which must anchor the signal, and the
  script and value of the output it spends.\<close>

definition requestedTx ::
  "('tx, 'x) agg_lib_scheme \<Rightarrow> 'tx ParticipantCohortState \<Rightarrow> 'a PendingSigningRequest_scheme \<Rightarrow> ('tx \<times> bytes \<times> int) result" where
  "requestedTx L st req =
     rbind (of_option (hex_decode L (pr_pendingTxHex req))) (\<lambda>raw.
     rbind (of_option (tx_fromRaw L raw)) (\<lambda>tx.
     rbind (assertTxAnchorsValidatedSignal L st tx) (\<lambda>_.
     rbind (of_option (hex_decode L (pr_prevOutScriptHex req))) (\<lambda>prevOutScript.
     case bigint_of_string (pr_prevOutValue req) of
       None \<Rightarrow> syntax_error
     | Some prevOutValue \<Rightarrow> Inr (tx, prevOutScript, prevOutValue)))))"

definition approveNonceState ::
  "('tx, 'x) agg_lib_scheme \<Rightarrow> 'tx AggregationParticipant \<Rightarrow> bytes \<Rightarrow> string \<Rightarrow> string \<Rightarrow> 'tx ParticipantCohortState
     \<Rightarrow> 'tx ParticipantCohortState \<times> BaseMessage list result" where
  "approveNonceState L p rand uuid cohortId st =
     (case (pc_signingRequest st, pc_cohort st) of
        (Some req, Some ch) \<Rightarrow>
         (case requestedTx L st req of
            Inl e \<Rightarrow> (st, Inl e)
          | Inr (tx, prevOutScript, prevOutValue) \<Rightarrow>
              let session = newSession uuid (Some (pr_sessionId req)) tx [prevOutScript] [prevOutValue]
              in (case withSecret (ap_signer p) (\<lambda>sk.
                        generateNonceContribution L ch rand (participant_publicKey p) sk session) of
                    (session, Inl e) \<Rightarrow> (st\<lparr>pc_signingSession := Some session\<rparr>, Inl e)
                  | (session, Inr nonceContribution) \<Rightarrow>
                      (st\<lparr>pc_signingSession := Some session, pc_phase := NonceSent\<rparr>,
                       Inr [createNonceContributionMessage (ap_did p) (pc_serviceDid st) cohortId (ss_id session)
                              nonceContribution])))
      | _ \<Rightarrow> (st, participant_error ''MISSING_STATE''))"

definition approveNonce ::
  "('tx, 'x) agg_lib_scheme \<Rightarrow> bytes \<Rightarrow> string \<Rightarrow> string \<Rightarrow> 'tx AggregationParticipant
     \<Rightarrow> 'tx AggregationParticipant \<times> BaseMessage list result" where
  "approveNonce L rand uuid cohortId p =
     actionIn AwaitingSigning cohortId (approveNonceState L p rand uuid cohortId) p"

definition handleAggregatedNonce ::
  "BaseMessage \<Rightarrow> string \<Rightarrow> 'tx ParticipantCohortState \<Rightarrow> 'tx ParticipantCohortState \<times> unit result" where
  "handleAggregatedNonce m cohortId st =
     (case pc_signingSession st of
        None \<Rightarrow> (st, Inr ())
      | Some session \<Rightarrow>
          if pc_phase st \<noteq> NonceSent then (st, Inr ())
          else case body_bytes (m_body m) ''aggregatedNonce'' of
            None \<Rightarrow> (st, Inr ())
          | Some aggregatedNonce \<Rightarrow>
              (st\<lparr>pc_signingSession := Some (session\<lparr>ss_aggregatedNonce := Some aggregatedNonce\<rparr>),
                  pc_phase := AwaitingPartialSig\<rparr>, Inr ()))"

definition partialSignatureState ::
  "('tx, 'x) agg_lib_scheme \<Rightarrow> 'tx AggregationParticipant \<Rightarrow> string \<Rightarrow> 'tx ParticipantCohortState
     \<Rightarrow> 'tx ParticipantCohortState \<times> BaseMessage list result" where
  "partialSignatureState L p cohortId st =
     (case (pc_signingSession st, pc_cohort st) of
        (Some session, Some ch) \<Rightarrow>
         (case withSecret (ap_signer p) (\<lambda>sk. sessionPartialSignature L ch sk session) of
            (session, Inl e) \<Rightarrow> (st\<lparr>pc_signingSession := Some session\<rparr>, Inl e)
          | (session, Inr partialSig) \<Rightarrow>
              (st\<lparr>pc_signingSession := Some session, pc_phase := ParticipantComplete\<rparr>,
               Inr [createSignatureAuthorizationMessage (ap_did p) (pc_serviceDid st) cohortId (ss_id session) partialSig]))
      | _ \<Rightarrow> (st, participant_error ''MISSING_STATE''))"

definition participantPartialSignature ::
  "('tx, 'x) agg_lib_scheme \<Rightarrow> string \<Rightarrow> 'tx AggregationParticipant
     \<Rightarrow> 'tx AggregationParticipant \<times> BaseMessage list result" where
  "participantPartialSignature L cohortId p =
     actionIn AwaitingPartialSig cohortId (partialSignatureState L p cohortId) p"

section \<open>The fallback\<close>

definition pendingFallbackRequests :: "'tx AggregationParticipant \<Rightarrow> (string, PendingFallbackRequest) jsmap" where
  "pendingFallbackRequests p =
     map (\<lambda>(cid, st). (cid, the (pc_fallbackRequest st)))
       (filter (\<lambda>(_, st). pc_phase st = AwaitingFallbackSig \<and> pc_fallbackRequest st \<noteq> None) (ap_cohortStates p))"

definition handleFallbackAuthorizationRequest ::
  "BaseMessage \<Rightarrow> string \<Rightarrow> 'tx ParticipantCohortState \<Rightarrow> 'tx ParticipantCohortState \<times> unit result" where
  "handleFallbackAuthorizationRequest m cohortId st =
     (if pc_cohort st = None \<or>
         pc_phase st \<notin> set [ValidationSent, AwaitingSigning, NonceSent, AwaitingPartialSig, ParticipantComplete]
      then (st, Inr ())
      else case (signingRequestOf cohortId (m_body m), body_str (m_body m) ''fallbackLeafScriptHex'') of
        (Some req, Some leafHex) \<Rightarrow>
          if leafHex = [] then (st, Inr ())
          else (st\<lparr>pc_fallbackRequest := Some (PendingSigningRequest.extend req \<lparr>pr_fallbackLeafScriptHex = leafHex\<rparr>),
                   pc_signingSession := map_option clearSecrets (pc_signingSession st),
                   pc_phase := AwaitingFallbackSig\<rparr>, Inr ())
      | _ \<Rightarrow> (st, Inr ()))"

definition approveFallbackState ::
  "('tx, 'x) agg_lib_scheme \<Rightarrow> 'tx AggregationParticipant \<Rightarrow> bytes \<Rightarrow> string \<Rightarrow> 'tx ParticipantCohortState
     \<Rightarrow> 'tx ParticipantCohortState \<times> BaseMessage list result" where
  "approveFallbackState L p rand cohortId st =
     (case (pc_fallbackRequest st, pc_cohort st) of
        (Some req, Some ch) \<Rightarrow>
         (case (rbind (of_option (hex_decode L (pr_pendingTxHex req))) (\<lambda>raw.
                rbind (of_option (tx_fromRaw L raw)) (\<lambda>tx.
                rbind (of_option (hex_decode L (pr_prevOutScriptHex req))) (\<lambda>prevOutScript.
                rbind (case bigint_of_string (pr_prevOutValue req) of None \<Rightarrow> syntax_error | Some v \<Rightarrow> Inr v) (\<lambda>prevOutValue.
                rbind (assertTxAnchorsValidatedSignal L st tx) (\<lambda>_.
                rbind (buildFallbackLeaf L (ch_cohortKeys ch) (effectiveFallbackThreshold ch)) (\<lambda>fallbackLeaf.
                rbind (fallbackSighash L tx 0 prevOutScript prevOutValue fallbackLeaf) (\<lambda>sighash.
                  of_option (withSecret (ap_signer p) (\<lambda>sk. bip340_sign L sighash sk rand)))))))))) of
            Inl e \<Rightarrow> (st, Inl e)
          | Inr signature \<Rightarrow>
              (st\<lparr>pc_phase := ParticipantComplete\<rparr>,
               Inr [createFallbackSignatureMessage (ap_did p) (pc_serviceDid st) cohortId (pr_sessionId req)
                      (drop 1 (participant_publicKey p)) signature]))
      | _ \<Rightarrow> (st, participant_error ''MISSING_STATE''))"

definition approveFallback ::
  "('tx, 'x) agg_lib_scheme \<Rightarrow> bytes \<Rightarrow> string \<Rightarrow> 'tx AggregationParticipant
     \<Rightarrow> 'tx AggregationParticipant \<times> BaseMessage list result" where
  "approveFallback L rand cohortId p = actionIn AwaitingFallbackSig cohortId (approveFallbackState L p rand cohortId) p"

section \<open>Messages and teardown\<close>

definition participantReceive ::
  "('tx, 'x) agg_lib_scheme \<Rightarrow> BaseMessage \<Rightarrow> 'tx AggregationParticipant \<Rightarrow> 'tx AggregationParticipant \<times> unit result" where
  "participantReceive L m p =
     (if m_version m \<noteq> JInt AGGREGATION_WIRE_VERSION then (p, Inr ())
      else if m_type m = COHORT_ADVERT then handleCohortAdvert m p
      else if m_type m = COHORT_OPT_IN_ACCEPT then (p, Inr ())
      else if m_type m = COHORT_READY then handleIn m (handleCohortReady L (participant_publicKey p) m) p
      else if m_type m = DISTRIBUTE_AGGREGATED_DATA then handleIn m (handleDistributeAggregatedData L (ap_did p) m) p
      else if m_type m = AUTHORIZATION_REQUEST then handleIn m (handleAuthorizationRequest m) p
      else if m_type m = AGGREGATED_NONCE then handleIn m (handleAggregatedNonce m) p
      else if m_type m = FALLBACK_AUTHORIZATION_REQUEST then handleIn m (handleFallbackAuthorizationRequest m) p
      else (p, Inr ()))"

definition participantPhase :: "string \<Rightarrow> 'tx AggregationParticipant \<Rightarrow> participant_phase option" where
  "participantPhase cohortId p = map_option pc_phase (jm_get (ap_cohortStates p) cohortId)"

definition participantClearSecrets :: "'tx AggregationParticipant \<Rightarrow> 'tx AggregationParticipant" where
  "participantClearSecrets p =
     p\<lparr>ap_cohortStates := map (\<lambda>(cid, st). (cid, st\<lparr>pc_signingSession := map_option clearSecrets (pc_signingSession st)\<rparr>))
         (ap_cohortStates p)\<rparr>"

end
