(* ===== verification/AggParticipantRun.thy ===== *)
theory AggParticipantRun
  imports AggParticipant
begin

text \<open>
  Runs of the aggregation participant: a call of a method with its arguments, the messages it sends,
  the participants that calls can reach, and what one call does to the state of one cohort
  (\<open>member_step\<close>). The invariant \<open>member_inv\<close> ties a signing session to the signal the member
  validated.
\<close>

section \<open>Calls\<close>

datatype participant_call =
    ReceiveFrom BaseMessage
  | JoinCohort string string
  | SubmitUpdate string jsval
  | DeclineUpdate string
  | ApproveValidation string
  | RejectValidation string
  | ApproveNonce bytes string string
  | GeneratePartialSignature string
  | ApproveFallback bytes string
  | ClearSecrets

definition sent :: "'p \<times> BaseMessage list result \<Rightarrow> 'p \<times> BaseMessage list" where
  "sent r = (fst r, case snd r of Inl _ \<Rightarrow> [] | Inr ms \<Rightarrow> ms)"

fun participantCall ::
  "('tx, 'x) agg_lib_scheme \<Rightarrow> participant_call \<Rightarrow> 'tx AggregationParticipant \<Rightarrow> 'tx AggregationParticipant \<times> BaseMessage list" where
  "participantCall L (ReceiveFrom m) p = (fst (participantReceive L m p), [])"
| "participantCall L (JoinCohort uuid cid) p = sent (joinCohort L uuid cid p)"
| "participantCall L (SubmitUpdate cid u) p = sent (submitUpdate cid u p)"
| "participantCall L (DeclineUpdate cid) p = sent (declineUpdate cid p)"
| "participantCall L (ApproveValidation cid) p = sent (approveValidation cid p)"
| "participantCall L (RejectValidation cid) p = sent (rejectValidation cid p)"
| "participantCall L (ApproveNonce rand uuid cid) p = sent (approveNonce L rand uuid cid p)"
| "participantCall L (GeneratePartialSignature cid) p = sent (participantPartialSignature L cid p)"
| "participantCall L (ApproveFallback rand cid) p = sent (approveFallback L rand cid p)"
| "participantCall L ClearSecrets p = (participantClearSecrets p, [])"

inductive participant_reach ::
  "('tx, 'x) agg_lib_scheme \<Rightarrow> 'tx AggregationParticipant \<Rightarrow> 'tx AggregationParticipant \<Rightarrow> bool" for L p where
  start: "participant_reach L p p"
| call: "participant_reach L p q \<Longrightarrow> participant_reach L p (fst (participantCall L c q))"

text \<open>What a call can do to the state of a cohort; \<open>p\<close> is the participant, for its identity and key.\<close>

inductive member_step ::
  "('tx, 'x) agg_lib_scheme \<Rightarrow> 'tx ParticipantCohortState \<Rightarrow> 'tx ParticipantCohortState \<Rightarrow> bool" for L where
  joined: "pc_phase st = Discovered \<Longrightarrow> member_step L st (fst (joinState L p uuid cid st))"
| ready: "member_step L st (fst (handleCohortReady L pk m cid st))"
| submitted: "pc_phase st = CohortReady \<Longrightarrow>
    member_step L st (st\<lparr>pc_submittedUpdate := u, pc_included := Some True, pc_phase := UpdateSubmitted\<rparr>)"
| declined: "pc_phase st = CohortReady \<Longrightarrow> member_step L st (st\<lparr>pc_included := Some False, pc_phase := NonIncluded\<rparr>)"
| distributed: "member_step L st (fst (handleDistributeAggregatedData L did m cid st))"
| approved: "pc_phase st = AwaitingValidation \<Longrightarrow> member_step L st (st\<lparr>pc_phase := ValidationSent\<rparr>)"
| refused: "pc_phase st = AwaitingValidation \<Longrightarrow> member_step L st (st\<lparr>pc_phase := ParticipantFailed\<rparr>)"
| requested: "member_step L st (fst (handleAuthorizationRequest m cid st))"
| nonce: "pc_phase st = AwaitingSigning \<Longrightarrow> member_step L st (fst (approveNonceState L p rand uuid cid st))"
| aggregated: "member_step L st (fst (handleAggregatedNonce m cid st))"
| signed': "pc_phase st = AwaitingPartialSig \<Longrightarrow> member_step L st (fst (partialSignatureState L p cid st))"
| fallback: "member_step L st (fst (handleFallbackAuthorizationRequest m cid st))"
| fallbackSigned: "pc_phase st = AwaitingFallbackSig \<Longrightarrow> member_step L st (fst (approveFallbackState L p rand cid st))"
| cleared: "member_step L st (st\<lparr>pc_signingSession := map_option clearSecrets (pc_signingSession st)\<rparr>)"

lemma actionIn_get:
  assumes "jm_get (ap_cohortStates (fst (actionIn ph c f p))) cid = Some st'"
  obtains st where "jm_get (ap_cohortStates p) cid = Some st"
    "st' = st \<or> cid = c \<and> pc_phase st = ph \<and> st' = fst (f st)"
  using assms by (auto simp: actionIn_def Let_def split: option.splits prod.splits if_splits)

lemma handleIn_get:
  assumes "jm_get (ap_cohortStates (fst (handleIn m f p))) cid = Some st'"
  obtains st where "jm_get (ap_cohortStates p) cid = Some st" "st' = st \<or> st' = fst (f cid st)"
  using assms by (auto simp: handleIn_def Let_def split: option.splits prod.splits if_splits)

lemma advert_get:
  assumes "jm_get (ap_cohortStates (fst (handleCohortAdvert m p))) cid = Some st'"
  shows "jm_get (ap_cohortStates p) cid = Some st' \<or> jm_get (ap_cohortStates p) cid = None \<and>
    pc_phase st' = Discovered \<and> pc_signingSession st' = None"
  using assms by (auto simp: handleCohortAdvert_def Let_def jm_has_def split: if_splits)

lemma participantReceive_step:
  assumes "jm_get (ap_cohortStates (fst (participantReceive L m p))) cid = Some st'"
  shows "(\<exists>st. jm_get (ap_cohortStates p) cid = Some st \<and> (st' = st \<or> member_step L st st')) \<or>
    jm_get (ap_cohortStates p) cid = None \<and> pc_phase st' = Discovered \<and> pc_signingSession st' = None"
  using assms advert_get [of m p cid st']
  by (auto simp: participantReceive_def elim!: handleIn_get intro: member_step.intros split: if_splits)

lemma fst_sent [simp]: "fst (sent r) = fst r"
  by (simp add: sent_def)

lemma participantCall_step:
  fixes L :: "('tx, 'x) agg_lib_scheme"
  assumes "jm_get (ap_cohortStates (fst (participantCall L c p))) cid = Some st'"
  shows "(\<exists>st. jm_get (ap_cohortStates p) cid = Some st \<and> (st' = st \<or> member_step L st st')) \<or>
    jm_get (ap_cohortStates p) cid = None \<and> pc_phase st' = Discovered \<and> pc_signingSession st' = None"
proof (cases c)
  case (ReceiveFrom m)
  then show ?thesis using assms participantReceive_step [of L m p cid st'] by simp
next
  case ClearSecrets
  have "map_of (map (\<lambda>(c, st). (c, f st)) xs) cid = map_option f (map_of xs cid)"
    for xs :: "(string \<times> 'tx ParticipantCohortState) list" and f :: "'tx ParticipantCohortState \<Rightarrow> 'tx ParticipantCohortState"
    by (induction xs) auto
  with ClearSecrets show ?thesis using assms
    by (auto simp: participantClearSecrets_def intro: member_step.cleared)
qed (use assms in \<open>auto simp: joinCohort_def submitUpdate_def declineUpdate_def approveValidation_def rejectValidation_def
  approveNonce_def participantPartialSignature_def approveFallback_def elim!: actionIn_get intro: member_step.intros\<close>)

section \<open>A session is bound to the validated signal\<close>

definition member_inv :: "('tx, 'x) agg_lib_scheme \<Rightarrow> 'tx ParticipantCohortState \<Rightarrow> bool" where
  "member_inv L st \<longleftrightarrow> (\<forall>s. pc_signingSession st = Some s \<longrightarrow>
     pc_phase st \<in> set [AwaitingSigning, NonceSent, AwaitingPartialSig, AwaitingFallbackSig, ParticipantComplete] \<and>
     (\<exists>v. pc_validation st = Some v \<and> txEmbedsSignal L (ss_pendingTx s) (pn_signalBytesHex v)))"

lemma requestedTx_anchors:
  assumes "requestedTx L st req = Inr (tx, script, value)"
  shows "\<exists>v. pc_validation st = Some v \<and> txEmbedsSignal L tx (pn_signalBytesHex v)"
  using assms
  by (auto simp: requestedTx_def rbind_Inr_iff assertTxAnchorsValidatedSignal_def split: option.splits if_splits)

lemma generateNonce_tx:
  "generateNonceContribution L ch rand pk sk s = (s', r) \<Longrightarrow> ss_pendingTx s' = ss_pendingTx s"
  by (auto simp: generateNonceContribution_def split: option.splits)

lemma partial_tx: "sessionPartialSignature L ch sk s = (s', r) \<Longrightarrow> ss_pendingTx s' = ss_pendingTx s"
  by (auto simp: sessionPartialSignature_def clearSecrets_def split: option.splits sum.splits)

lemma member_step_inv: "member_step L st st' \<Longrightarrow> member_inv L st \<Longrightarrow> member_inv L st'"
proof (induction rule: member_step.induct)
  case (joined st p uuid cid)
  then show ?case by (auto simp: joinState_def member_inv_def Let_def split: option.splits sum.splits)
next
  case (ready st pk m cid)
  then show ?case
    by (auto simp: handleCohortReady_def member_inv_def split: option.splits prod.splits sum.splits)
next
  case (distributed st did m cid)
  then show ?case
    by (auto simp: handleDistributeAggregatedData_def member_inv_def Let_def split: option.splits sum.splits)
next
  case (nonce st p rand uuid cid)
  show ?case
  proof (cases "fst (approveNonceState L p rand uuid cid st) = st")
    case False
    then obtain req ch tx script v where req: "pc_signingRequest st = Some req" "pc_cohort st = Some ch"
      "requestedTx L st req = Inr (tx, script, v)"
      by (auto simp: approveNonceState_def split: option.splits sum.splits)
    obtain s r where s: "generateNonceContribution L ch rand (participant_publicKey p) (sg_secretKey (ap_signer p))
        (newSession uuid (Some (pr_sessionId req)) tx [script] [v]) = (s, r)" by force
    have "ss_pendingTx s = tx" using generateNonce_tx [OF s] by (simp add: newSession_def)
    then show ?thesis using req requestedTx_anchors [OF req(3)] s nonce
      by (cases r) (auto simp: approveNonceState_def member_inv_def withSecret_def)
  qed (use nonce in simp)
next
  case (signed' st p cid)
  show ?case
  proof (cases "pc_signingSession st")
    case (Some s)
    obtain s' r where s': "sessionPartialSignature L ch (sg_secretKey (ap_signer p)) s = (s', r)"
      if "pc_cohort st = Some ch" for ch by (cases "pc_cohort st") (auto, force)
    then have "ss_pendingTx s' = ss_pendingTx s" if "pc_cohort st = Some ch" for ch
      using partial_tx [OF s' [OF that]] by simp
    then show ?thesis using Some signed' s'
      by (cases r; cases "pc_cohort st") (auto simp: partialSignatureState_def member_inv_def withSecret_def)
  qed (use signed' in \<open>simp add: partialSignatureState_def\<close>)
next
  case (fallbackSigned st p rand cid)
  then show ?case
    by (auto simp: approveFallbackState_def member_inv_def split: option.splits sum.splits)
qed (auto simp: member_inv_def handleAuthorizationRequest_def handleAggregatedNonce_def
    handleFallbackAuthorizationRequest_def clearSecrets_def split: option.splits)

lemma participantCall_inv:
  assumes "\<forall>cid st. jm_get (ap_cohortStates p) cid = Some st \<longrightarrow> member_inv L st"
    "jm_get (ap_cohortStates (fst (participantCall L c p))) cid = Some st'"
  shows "member_inv L st'"
  using participantCall_step [OF assms(2)]
proof (elim disjE exE conjE)
  assume "pc_signingSession st' = None"
  then show ?thesis by (simp add: member_inv_def)
qed (use assms(1) member_step_inv in blast)+

lemma participant_reach_inv:
  assumes "participant_reach L (newAggregationParticipant did signer genesis) p" "jm_get (ap_cohortStates p) cid = Some st"
  shows "member_inv L st"
  using assms
proof (induction arbitrary: cid st)
  case start
  then show ?case by (simp add: newAggregationParticipant_def)
next
  case (call q c)
  then show ?case using participantCall_inv by blast
qed

end
