(* ===== verification/DemoMember.thy ===== *)
theory DemoMember
  imports DemoAgg AggParticipantRun
begin

text \<open>
  A run of one member, \<open>did:n\<close>, of the cohort that \<open>DemoAgg\<close> runs on the side of the service, at which
  the properties of the participant and of the protocol are applied.
\<close>

section \<open>A run of a member\<close>

definition demo_member :: "demo_tx AggregationParticipant" where
  "demo_member = newAggregationParticipant ''did:n'' \<lparr>sg_publicKey = demo_pk 2, sg_secretKey = replicate 32 9\<rparr> JUndef"

definition demo_advert :: BaseMessage where
  "demo_advert = createCohortAdvertMessage ''did:s'' ''c'' ''bitcoin'' (demo_pk 0) (CohortConditions.truncate demo_config)"

definition demo_distribute :: "string \<Rightarrow> BaseMessage" where
  "demo_distribute signal = createDistributeAggregatedDataMessage ''did:s'' ''did:n'' ''c'' ''CASBeacon'' signal (JObj []) JUndef"

definition demo_member_calls :: "participant_call list" where
  "demo_member_calls =
    [ReceiveFrom demo_advert, JoinCohort ''v'' ''c'',
     ReceiveFrom (createCohortReadyMessage ''did:s'' ''did:n'' ''c'' (CHR ''b'' # demo_hex (replicate 32 1)) [demo_pk 1, demo_pk 2]),
     DeclineUpdate ''c'', ReceiveFrom (demo_distribute (demo_hex demo_signal)), ApproveValidation ''c'',
     ReceiveFrom (createAuthorizationRequestMessage ''did:s'' ''did:n'' ''c'' ''u'' (demo_hex (fst demo_beacon_tx))
       (demo_hex (replicate 32 1)) ''5''),
     ApproveNonce (replicate 66 2) ''w'' ''c'',
     ReceiveFrom (createAggregatedNonceMessage ''did:s'' ''did:n'' ''c'' ''u'' (replicate 66 2)),
     GeneratePartialSignature ''c'']"

definition demo_member_run :: "nat \<Rightarrow> demo_tx AggregationParticipant" where
  "demo_member_run n = foldl (\<lambda>p c. fst (participantCall demo_alib c p)) demo_member (take n demo_member_calls)"

lemma demo_member_reach: "participant_reach demo_alib demo_member (demo_member_run n)"
proof -
  have "participant_reach demo_alib demo_member (foldl (\<lambda>p c. fst (participantCall demo_alib c p)) p cs)"
    if "participant_reach demo_alib demo_member p" for p cs
    using that by (induction cs arbitrary: p) (auto intro: participant_reach.call)
  then show ?thesis by (simp add: demo_member_run_def participant_reach.start)
qed

lemma demo_member_run_Suc:
  "n < length demo_member_calls \<Longrightarrow>
     demo_member_run (Suc n) = fst (participantCall demo_alib (demo_member_calls ! n) (demo_member_run n))"
  by (simp add: demo_member_run_def take_Suc_conv_app_nth)

text \<open>What the witnesses read off this run; one evaluation checks all of it.\<close>

lemma demo_member_facts:
  "let p4 = demo_member_run 4; p5 = fst (participantCall demo_alib (demo_member_calls ! 4) p4);
       p9 = foldl (\<lambda>p c. fst (participantCall demo_alib c p)) p5 (take 4 (drop 5 demo_member_calls))
   in ap_did p4 = ''did:n'' \<and> map_option pc_phase (jm_get (ap_cohortStates p4) ''c'') = Some NonIncluded \<and>
     map_option pc_included (jm_get (ap_cohortStates p4) ''c'') = Some (Some False) \<and>
     map_option pn_matches (getValidation ''c'' p5) = Some True \<and> participantPhase ''c'' p5 = Some AwaitingValidation \<and>
     isl (snd (participantPartialSignature demo_alib ''c'' p9)) = False"
  by code_simp

lemma demo_member_4: "ap_did (demo_member_run 4) = ''did:n''"
  "map_option pc_phase (jm_get (ap_cohortStates (demo_member_run 4)) ''c'') = Some NonIncluded"
  "map_option pc_included (jm_get (ap_cohortStates (demo_member_run 4)) ''c'') = Some (Some False)"
  using demo_member_facts by (simp_all only: Let_def)

lemma demo_member_5: "map_option pn_matches (getValidation ''c'' (demo_member_run 5)) = Some True"
  "participantPhase ''c'' (demo_member_run 5) = Some AwaitingValidation"
  using demo_member_facts demo_member_run_Suc [of 4] by (simp_all only: Let_def) (simp_all add: demo_member_calls_def)

lemma demo_member_9: "isl (snd (participantPartialSignature demo_alib ''c'' (demo_member_run 9))) = False"
proof -
  have run: "demo_member_run n = foldl (\<lambda>p c. fst (participantCall demo_alib c p)) (demo_member_run k) (take (n - k) (drop k demo_member_calls))"
    if "k \<le> n" for n k
    using that by (simp add: demo_member_run_def flip: foldl_append take_add)
  have "demo_member_run 5 = fst (participantCall demo_alib (demo_member_calls ! 4) (demo_member_run 4))"
    using demo_member_run_Suc [of 4] by (simp add: demo_member_calls_def)
  then show ?thesis using demo_member_facts run [of 5 9] by (simp only: Let_def) simp
qed

end
