(* ===== verification/AggParticipantProps.thy ===== *)
theory AggParticipantProps
  imports DemoMember
begin

text \<open>
  The properties of the aggregation participant, with their witnesses at a run of one member of the
  cohort of \<open>DemoAgg\<close>: what it signs anchors the signal it validated, a secret nonce signs once,
  and what the validation does not look at.
\<close>

section \<open>What a member signs\<close>

definition signing_types :: "string list" where
  "signing_types = [NONCE_CONTRIBUTION, SIGNATURE_AUTHORIZATION, FALLBACK_SIGNATURE]"

lemma factory_type [simp]:
  "m_type (createNonceContributionMessage a b c d n) = NONCE_CONTRIBUTION"
  "m_type (createSignatureAuthorizationMessage a b c d n) = SIGNATURE_AUTHORIZATION"
  "m_type (createFallbackSignatureMessage a b c d n n2) = FALLBACK_SIGNATURE"
  "m_type (createCohortOptInMessage a b c k k2 g) \<notin> set signing_types"
  "m_type (createSubmitUpdateMessage a b c u) \<notin> set signing_types"
  "m_type (createSubmitNonIncludedMessage a b c) \<notin> set signing_types"
  "m_type (createValidationAckMessage a b c ok) \<notin> set signing_types"
  by (simp_all add: factory_defs message_types signing_types_def)

lemma sent_mem: "m \<in> set (snd (sent r)) \<longleftrightarrow> (\<exists>ms. snd r = Inr ms \<and> m \<in> set ms)"
  by (cases "snd r") (simp_all add: sent_def)

lemma actionIn_sent:
  assumes "snd (actionIn ph cid f p) = Inr ms"
  obtains st where "jm_get (ap_cohortStates p) cid = Some st" "pc_phase st = ph" "snd (f st) = Inr ms"
    "jm_get (ap_cohortStates (fst (actionIn ph cid f p))) cid = Some (fst (f st))"
  using assms by (auto simp: actionIn_def Let_def split: option.splits prod.splits if_splits)

lemma approveNonce_anchors:
  assumes "snd (approveNonceState L p rand uuid cid st) = Inr ms"
  shows "\<exists>s v. pc_signingSession (fst (approveNonceState L p rand uuid cid st)) = Some s \<and>
    pc_validation (fst (approveNonceState L p rand uuid cid st)) = Some v \<and> txEmbedsSignal L (ss_pendingTx s) (pn_signalBytesHex v)"
proof -
  obtain req ch tx script v s n where req: "pc_signingRequest st = Some req" "pc_cohort st = Some ch"
    "requestedTx L st req = Inr (tx, script, v)"
    and s: "generateNonceContribution L ch rand (participant_publicKey p) (sg_secretKey (ap_signer p))
        (newSession uuid (Some (pr_sessionId req)) tx [script] [v]) = (s, Inr n)"
    using assms by (auto simp: approveNonceState_def withSecret_def split: option.splits sum.splits prod.splits)
  have "ss_pendingTx s = tx" using generateNonce_tx [OF s] by (simp add: newSession_def)
  then show ?thesis using req requestedTx_anchors [OF req(3)] s
    by (auto simp: approveNonceState_def withSecret_def)
qed

lemma partial_signs:
  assumes "snd (partialSignatureState L p cid st) = Inr ms" "member_inv L st"
  shows "\<exists>s v ms' sig. ms = [createSignatureAuthorizationMessage (ap_did p) (pc_serviceDid st) cid (ss_id s) sig] \<and>
    pc_signingSession st = Some s \<and> pc_validation st = Some v \<and> txEmbedsSignal L (ss_pendingTx s) (pn_signalBytesHex v) \<and>
    tx_preimageWitnessV1 L (ss_pendingTx s) 0 (ss_prevOutScripts s) (ss_prevOutValues s) None = Some (ms_message ms') \<and>
    (\<exists>secret. musig_sign L ms' secret (sg_secretKey (ap_signer p)) = Some sig)"
proof -
  obtain s ch where s: "pc_signingSession st = Some s" "pc_cohort st = Some ch"
    using assms(1) by (auto simp: partialSignatureState_def split: option.splits)
  obtain s' sig where sg: "sessionPartialSignature L ch (sg_secretKey (ap_signer p)) s = (s', Inr sig)"
    and ms: "ms = [createSignatureAuthorizationMessage (ap_did p) (pc_serviceDid st) cid (ss_id s') sig]"
    using assms(1) s by (auto simp: partialSignatureState_def withSecret_def split: prod.splits sum.splits)
  obtain n secret ms' where q: "musigSession L ch n s = Inr ms'" "s' = clearSecrets s"
    "musig_sign L ms' secret (sg_secretKey (ap_signer p)) = Some sig"
    using sg by (auto simp: sessionPartialSignature_def split: option.splits sum.splits)
  have "tx_preimageWitnessV1 L (ss_pendingTx s) 0 (ss_prevOutScripts s) (ss_prevOutValues s) None = Some (ms_message ms')"
    using q(1) by (auto simp: musigSession_def sigHash_def rbind_Inr_iff Let_def split: if_splits)
  moreover obtain v where "pc_validation st = Some v" "txEmbedsSignal L (ss_pendingTx s) (pn_signalBytesHex v)"
    using assms(2) s by (auto simp: member_inv_def)
  moreover have "ss_id s' = ss_id s" by (simp add: q clearSecrets_def)
  ultimately show ?thesis using ms s q by auto
qed

lemma fallback_signs:
  assumes "snd (approveFallbackState L p rand cid st) = Inr ms"
  shows "\<exists>req tx v sighash sig. pc_fallbackRequest st = Some req \<and> pc_validation st = Some v \<and>
    ms = [createFallbackSignatureMessage (ap_did p) (pc_serviceDid st) cid (pr_sessionId req) (drop 1 (participant_publicKey p)) sig] \<and>
    txEmbedsSignal L tx (pn_signalBytesHex v) \<and>
    (\<exists>script amount leaf ch. pc_cohort st = Some ch \<and>
      buildFallbackLeaf L (ch_cohortKeys ch) (effectiveFallbackThreshold ch) = Inr leaf \<and>
      tx_preimageWitnessV1 L tx 0 [script] [amount] (Some leaf) = Some sighash) \<and>
    bip340_sign L sighash (sg_secretKey (ap_signer p)) rand = Some sig"
  using assms
  by (auto simp: approveFallbackState_def rbind_Inr_iff assertTxAnchorsValidatedSignal_def fallbackSighash_def withSecret_def
      split: option.splits sum.splits if_splits) blast

text \<open>C23: What a member signs anchors the signal it validated. After any sequence of calls, a message with
  a nonce, a partial signature or a fallback signature is sent only from a state that holds a
  validation, and the transaction of the session, the one whose message the partial signature
  signs, or the one whose fallback message is signed, has an output that pushes exactly the validated
  signal.\<close>

theorem signatures_anchor_signal:
  assumes "participant_reach L (newAggregationParticipant did signer genesis) p"
    "m \<in> set (snd (participantCall L c p))" "m_type m \<in> set signing_types"
  shows "\<exists>cid st v tx. jm_get (ap_cohortStates (fst (participantCall L c p))) cid = Some st \<and>
    pc_validation st = Some v \<and> txEmbedsSignal L tx (pn_signalBytesHex v) \<and>
    (m_type m = NONCE_CONTRIBUTION \<longrightarrow> (\<exists>s. pc_signingSession st = Some s \<and> ss_pendingTx s = tx)) \<and>
    (m_type m = SIGNATURE_AUTHORIZATION \<longrightarrow>
      (\<exists>s ms sig secret. pc_signingSession st = Some s \<and> ss_pendingTx s = tx \<and>
         body_bytes (m_body m) ''partialSignature'' = Some sig \<and>
         tx_preimageWitnessV1 L tx 0 (ss_prevOutScripts s) (ss_prevOutValues s) None = Some (ms_message ms) \<and>
         musig_sign L ms secret (sg_secretKey (ap_signer p)) = Some sig)) \<and>
    (m_type m = FALLBACK_SIGNATURE \<longrightarrow>
      (\<exists>ch leaf script amount sighash sig rand. pc_cohort st = Some ch \<and>
         body_bytes (m_body m) ''fallbackSignature'' = Some sig \<and>
         buildFallbackLeaf L (ch_cohortKeys ch) (effectiveFallbackThreshold ch) = Inr leaf \<and>
         tx_preimageWitnessV1 L tx 0 [script] [amount] (Some leaf) = Some sighash \<and>
         bip340_sign L sighash (sg_secretKey (ap_signer p)) rand = Some sig))"
proof (cases c)
  case (ApproveNonce rand uuid cid)
  then obtain ms where ms: "snd (approveNonce L rand uuid cid p) = Inr ms" "m \<in> set ms"
    using assms(2) by (auto simp: sent_mem)
  obtain st where st: "snd (approveNonceState L p rand uuid cid st) = Inr ms"
    "jm_get (ap_cohortStates (fst (participantCall L c p))) cid = Some (fst (approveNonceState L p rand uuid cid st))"
    using ms(1) ApproveNonce unfolding approveNonce_def by (elim actionIn_sent) (simp add: approveNonce_def)
  have "m_type m = NONCE_CONTRIBUTION"
    using st(1) ms(2) by (auto simp: approveNonceState_def split: option.splits sum.splits prod.splits)
  with approveNonce_anchors [OF st(1)] st(2) show ?thesis by (fastforce simp: message_types)
next
  case (GeneratePartialSignature cid)
  then obtain ms where ms: "snd (participantPartialSignature L cid p) = Inr ms" "m \<in> set ms"
    using assms(2) by (auto simp: sent_mem)
  obtain st where st: "jm_get (ap_cohortStates p) cid = Some st" "snd (partialSignatureState L p cid st) = Inr ms"
    "jm_get (ap_cohortStates (fst (participantCall L c p))) cid = Some (fst (partialSignatureState L p cid st))"
    using ms(1) GeneratePartialSignature unfolding participantPartialSignature_def
    by (elim actionIn_sent) (simp add: participantPartialSignature_def)
  obtain s v ms' sig secret where q: "ms = [createSignatureAuthorizationMessage (ap_did p) (pc_serviceDid st) cid (ss_id s) sig]"
    "pc_signingSession st = Some s" "pc_validation st = Some v" "txEmbedsSignal L (ss_pendingTx s) (pn_signalBytesHex v)"
    "tx_preimageWitnessV1 L (ss_pendingTx s) 0 (ss_prevOutScripts s) (ss_prevOutValues s) None = Some (ms_message ms')"
    "musig_sign L ms' secret (sg_secretKey (ap_signer p)) = Some sig"
    using partial_signs [OF st(2) participant_reach_inv [OF assms(1) st(1)]] by blast
  have m: "m = createSignatureAuthorizationMessage (ap_did p) (pc_serviceDid st) cid (ss_id s) sig" using ms(2) q(1) by simp
  let ?st = "fst (partialSignatureState L p cid st)"
  obtain s' where "pc_signingSession ?st = Some s'" "ss_pendingTx s' = ss_pendingTx s"
    "ss_prevOutScripts s' = ss_prevOutScripts s" "ss_prevOutValues s' = ss_prevOutValues s" "pc_validation ?st = Some v"
    using st(2) q(2,3)
    by (auto simp: partialSignatureState_def sessionPartialSignature_def withSecret_def clearSecrets_def
        split: option.splits prod.splits sum.splits)
  then show ?thesis using st(3) q m
    by (intro exI [of _ cid] exI [of _ ?st] exI [of _ v] exI [of _ "ss_pendingTx s"])
       (auto simp: message_types createSignatureAuthorizationMessage_def newBaseMessage_def own_def)
next
  case (ApproveFallback rand cid)
  then obtain ms where ms: "snd (approveFallback L rand cid p) = Inr ms" "m \<in> set ms"
    using assms(2) by (auto simp: sent_mem)
  obtain st where st: "snd (approveFallbackState L p rand cid st) = Inr ms"
    "jm_get (ap_cohortStates (fst (participantCall L c p))) cid = Some (fst (approveFallbackState L p rand cid st))"
    using ms(1) ApproveFallback unfolding approveFallback_def by (elim actionIn_sent) (simp add: approveFallback_def)
  obtain req :: PendingFallbackRequest and tx v sighash sig script amount leaf ch where q: "pc_validation st = Some v"
    "ms = [createFallbackSignatureMessage (ap_did p) (pc_serviceDid st) cid (pr_sessionId req) (drop 1 (participant_publicKey p)) sig]"
    "txEmbedsSignal L tx (pn_signalBytesHex v)" "pc_cohort st = Some ch"
    "buildFallbackLeaf L (ch_cohortKeys ch) (effectiveFallbackThreshold ch) = Inr leaf"
    "tx_preimageWitnessV1 L tx 0 [script] [amount] (Some leaf) = Some sighash"
    "bip340_sign L sighash (sg_secretKey (ap_signer p)) rand = Some sig"
    using fallback_signs [OF st(1)] by blast
  have m: "m = createFallbackSignatureMessage (ap_did p) (pc_serviceDid st) cid (pr_sessionId req) (drop 1 (participant_publicKey p)) sig"
    using ms(2) q(2) by simp
  let ?st = "fst (approveFallbackState L p rand cid st)"
  have "pc_validation ?st = Some v" "pc_cohort ?st = Some ch" using q(1,4)
    by (auto simp: approveFallbackState_def split: option.splits sum.splits)
  then show ?thesis using st(2) q m
    by (intro exI [of _ cid] exI [of _ ?st] exI [of _ v] exI [of _ tx])
       (auto simp: message_types createFallbackSignatureMessage_def newBaseMessage_def own_def)
qed (use assms(2,3) in \<open>auto simp: sent_mem joinCohort_def submitUpdate_def declineUpdate_def approveValidation_def
    rejectValidation_def joinState_def split: option.splits sum.splits elim!: actionIn_sent\<close>)

lemma demo_partial:
  obtains m where "snd (participantPartialSignature demo_alib ''c'' (demo_member_run 9)) = Inr [m]"
    "m_type m = SIGNATURE_AUTHORIZATION"
proof -
  obtain ms where ms: "snd (participantPartialSignature demo_alib ''c'' (demo_member_run 9)) = Inr ms"
    using demo_member_9 sum.collapse(2) by metis
  then obtain st where "snd (partialSignatureState demo_alib (demo_member_run 9) ''c'' st) = Inr ms"
    unfolding participantPartialSignature_def by (elim actionIn_sent)
  then obtain m where "ms = [m]" "m_type m = SIGNATURE_AUTHORIZATION"
    by (auto simp: partialSignatureState_def split: option.splits prod.splits sum.splits)
  with ms that show ?thesis by blast
qed

theorem signatures_anchor_signal_witness:
  "\<exists>m cid st v tx. snd (participantCall demo_alib (GeneratePartialSignature ''c'') (demo_member_run 9)) = [m] \<and>
     jm_get (ap_cohortStates (demo_member_run 10)) cid = Some st \<and> pc_validation st = Some v \<and>
     txEmbedsSignal demo_alib tx (pn_signalBytesHex v)"
proof -
  let ?c = "GeneratePartialSignature ''c''"
  obtain m where p: "snd (participantPartialSignature demo_alib ''c'' (demo_member_run 9)) = Inr [m]"
    "m_type m = SIGNATURE_AUTHORIZATION"
    by (rule demo_partial)
  have m: "snd (participantCall demo_alib ?c (demo_member_run 9)) = [m]"
    by (simp only: participantCall.simps sent_def snd_conv prod.case_eq_if p(1) sum.case)
  have step: "demo_member_run 10 = fst (participantCall demo_alib ?c (demo_member_run 9))"
    using demo_member_run_Suc [of 9] by (simp add: demo_member_calls_def)
  have mem: "m \<in> set (snd (participantCall demo_alib ?c (demo_member_run 9)))" "m_type m \<in> set signing_types"
    unfolding m using p(2) by (simp_all only: signing_types_def list.set insert_iff simp_thms)
  note signed = signatures_anchor_signal [OF demo_member_reach [of 9, unfolded demo_member_def] mem]
  show ?thesis
    unfolding step using signed m by (elim exE conjE) (intro exI conjI, assumption+)
qed

section \<open>A secret nonce signs once\<close>

definition finished :: "'tx ParticipantCohortState \<Rightarrow> bool" where
  "finished st \<longleftrightarrow> pc_phase st = ParticipantComplete \<or> pc_phase st = AwaitingFallbackSig"

lemma member_step_finished: "member_step L st st' \<Longrightarrow> finished st \<Longrightarrow> finished st'"
proof (induction rule: member_step.induct)
  case (ready st pk m cid)
  then show ?case by (auto simp: finished_def handleCohortReady_def split: option.split)
next
  case (distributed st did m cid)
  then show ?case by (auto simp: finished_def handleDistributeAggregatedData_def)
next
  case (requested st m cid)
  then show ?case by (auto simp: finished_def handleAuthorizationRequest_def)
next
  case (aggregated st m cid)
  then show ?case by (auto simp: finished_def handleAggregatedNonce_def split: option.split)
next
  case (fallback st m cid)
  then show ?case by (auto simp: finished_def handleFallbackAuthorizationRequest_def split: option.split)
next
  case (fallbackSigned st p rand cid)
  then show ?case by (auto simp: finished_def approveFallbackState_def split: option.split sum.split)
qed (simp_all add: finished_def)

lemma receive_keeps_cohorts:
  assumes "jm_get (ap_cohortStates p) cid = Some st"
  shows "\<exists>st'. jm_get (ap_cohortStates (fst (participantCall L c p))) cid = Some st'"
proof -
  have a: "\<exists>st'. jm_get (ap_cohortStates (fst (actionIn ph k f p))) cid = Some st'" for ph k f
    using assms by (auto simp: actionIn_def Let_def split: option.split prod.split)
  have h: "\<exists>st'. jm_get (ap_cohortStates (fst (handleIn m f p))) cid = Some st'" for m f
    using assms by (auto simp: handleIn_def Let_def split: option.split prod.split)
  show ?thesis
  proof (cases c)
    case (ReceiveFrom m)
    have "\<exists>st'. jm_get (ap_cohortStates (fst (handleCohortAdvert m p))) cid = Some st'"
      using assms by (auto simp: handleCohortAdvert_def Let_def)
    then show ?thesis using ReceiveFrom h assms by (simp add: participantReceive_def)
  next
    case ClearSecrets
    have "map_of (map (\<lambda>(c, st). (c, f st)) xs) cid = map_option f (map_of xs cid)"
      for xs :: "(string \<times> 'a ParticipantCohortState) list" and f :: "'a ParticipantCohortState \<Rightarrow> 'a ParticipantCohortState"
      by (induction xs) auto
    then show ?thesis using ClearSecrets assms by (simp add: participantClearSecrets_def)
  qed (simp_all add: a joinCohort_def submitUpdate_def declineUpdate_def approveValidation_def rejectValidation_def
      approveNonce_def participantPartialSignature_def approveFallback_def)
qed

lemma finished_stays:
  assumes "participant_reach L p q" "jm_get (ap_cohortStates p) cid = Some st" "finished st"
  shows "\<exists>st'. jm_get (ap_cohortStates q) cid = Some st' \<and> finished st'"
  using assms
proof (induction rule: participant_reach.induct)
  case (call q c)
  then obtain st1 where st1: "jm_get (ap_cohortStates q) cid = Some st1" "finished st1" by blast
  obtain st2 where st2: "jm_get (ap_cohortStates (fst (participantCall L c q))) cid = Some st2"
    using receive_keeps_cohorts [OF st1(1)] by blast
  have "finished st2" using participantCall_step [OF st2] st1 member_step_finished by auto
  with st2 show ?case by blast
qed blast

text \<open>C35: A secret nonce signs once. When a member has sent its partial signature for a cohort, the secret
  nonce is gone, and however it is called afterwards it never sends a partial signature for that
  cohort again.\<close>

theorem nonce_used_once:
  assumes "participantPartialSignature L cid p = (p1, Inr ms)" "participant_reach L p1 q"
  shows "(\<exists>st s. jm_get (ap_cohortStates p1) cid = Some st \<and> pc_signingSession st = Some s \<and> ss_secretNonce s = None) \<and>
    participantPartialSignature L cid q = (q, Inl (Error ''AggregationParticipantError'' ''INVALID_PHASE''))"
proof -
  obtain st where st: "snd (partialSignatureState L p cid st) = Inr ms"
    "jm_get (ap_cohortStates p1) cid = Some (fst (partialSignatureState L p cid st))"
    using assms(1) actionIn_sent [of AwaitingPartialSig cid "partialSignatureState L p cid" p ms]
    unfolding participantPartialSignature_def by (metis fst_conv snd_conv)
  obtain s where s: "pc_signingSession (fst (partialSignatureState L p cid st)) = Some s" "ss_secretNonce s = None"
    and fin: "finished (fst (partialSignatureState L p cid st))"
    using st(1) by (auto simp: partialSignatureState_def sessionPartialSignature_def withSecret_def clearSecrets_def finished_def
        split: option.splits prod.splits sum.splits)
  obtain st' where st': "jm_get (ap_cohortStates q) cid = Some st'" "finished st'"
    using finished_stays [OF assms(2) st(2) fin] by blast
  have "participantPartialSignature L cid q = (q, Inl (Error ''AggregationParticipantError'' ''INVALID_PHASE''))"
    using st' by (auto simp: participantPartialSignature_def actionIn_def finished_def participant_error_def)
  with st(2) s show ?thesis by blast
qed

theorem nonce_used_once_witness:
  "participantPartialSignature demo_alib ''c'' (demo_member_run 10) =
     (demo_member_run 10, Inl (Error ''AggregationParticipantError'' ''INVALID_PHASE''))"
proof -
  obtain m where ms: "snd (participantPartialSignature demo_alib ''c'' (demo_member_run 9)) = Inr [m]"
    by (rule demo_partial)
  have "demo_member_run 10 = fst (participantPartialSignature demo_alib ''c'' (demo_member_run 9))"
    using demo_member_run_Suc [of 9] by (simp add: demo_member_calls_def)
  with ms have "participantPartialSignature demo_alib ''c'' (demo_member_run 9) = (demo_member_run 10, Inr [m])"
    by (simp add: prod_eq_iff)
  from nonce_used_once [OF this participant_reach.start] show ?thesis by blast
qed

section \<open>The signal is not validated\<close>

text \<open>The validation does not look at the signal. Whatever signal the message with the aggregated data
  names, a member records it, finds that its part of the data matches or not in the same way, and
  later only compares the transaction with the recorded signal: nothing ties the signal to the
  announcement or the tree that the member checked.\<close>

theorem validated_signal_unchecked:
  fixes L :: "('tx, 'x) agg_lib_scheme" and did service cid beaconType :: string and cas smt :: jsval
    and st :: "'tx ParticipantCohortState"
  assumes "pc_phase st = UpdateSubmitted \<or> pc_phase st = NonIncluded"
  defines "after \<equiv> \<lambda>signal. fst (handleDistributeAggregatedData L did
      (createDistributeAggregatedDataMessage service did cid beaconType signal cas smt) cid st)"
  shows "pc_phase (after signal) = pc_phase (after signal') \<and>
    (pc_phase (after signal) = AwaitingValidation \<longrightarrow>
      (\<exists>v v'. pc_validation (after signal) = Some v \<and> pc_validation (after signal') = Some v' \<and>
         pn_signalBytesHex v = signal \<and> pn_signalBytesHex v' = signal' \<and> pn_matches v = pn_matches v'))"
proof -
  let ?m = "\<lambda>signal. createDistributeAggregatedDataMessage service did cid beaconType signal cas smt"
  let ?view = "\<lambda>signal h. \<lparr>pv_participantDid = did, pv_included = pc_included st \<noteq> Some False,
      pv_submittedUpdate = (if pc_included st = Some False then JUndef else pc_submittedUpdate st),
      pv_expectedHash = (if pc_included st = Some False then None else Some h), pv_body = m_body (?m signal)\<rparr>"
  have fields: "js_prop_opt (m_body (?m s)) ''casAnnouncement'' = cas" "js_prop_opt (m_body (?m s)) ''smtProof'' = smt"
    "body_str (m_body (?m s)) ''beaconType'' = Some beaconType" "body_str (m_body (?m s)) ''signalBytesHex'' = Some s" for s
    by (simp_all add: createDistributeAggregatedDataMessage_def newBaseMessage_def own_def)
  have cas: "casValidateView (?view signal h) = casValidateView (?view signal' h)" for h
    by (simp add: casValidateView_def fields Let_def)
  have smt: "smtValidateView L (?view signal h) = smtValidateView L (?view signal' h)" for h
    by (cases "pc_included st = Some False") (simp_all add: smtValidateView_def fields cong: if_cong)
  have same: "st_validateParticipantView strategy (?view signal h) = st_validateParticipantView strategy (?view signal' h)"
    if "getBeaconStrategy (STRATEGIES L) beaconType = Some strategy" for strategy h
  proof -
    have "st_validateParticipantView strategy = casValidateView \<or> st_validateParticipantView strategy = smtValidateView L"
      using that by (auto simp: strategies_get CAS_STRATEGY_def SMT_STRATEGY_def split: if_splits)
    with cas smt show ?thesis by auto
  qed
  show ?thesis
  proof (cases "getBeaconStrategy (STRATEGIES L) beaconType")
    case None
    then show ?thesis using assms(1) by (auto simp: after_def handleDistributeAggregatedData_def fields Let_def)
  next
    case (Some strategy)
    then show ?thesis using assms(1) same [OF Some]
      by (auto simp: after_def handleDistributeAggregatedData_def fields Let_def split: sum.splits)
  qed
qed

theorem validated_signal_unchecked_witness:
  "\<exists>v. getValidation ''c'' (fst (participantReceive demo_alib (demo_distribute ''ff'') (demo_member_run 4))) = Some v \<and>
     pn_signalBytesHex v = ''ff'' \<and> pn_matches v"
proof -
  have five: "demo_member_run 5 = fst (participantReceive demo_alib (demo_distribute (demo_hex demo_signal)) (demo_member_run 4))"
    using demo_member_run_Suc [of 4] by (simp add: demo_member_calls_def)
  obtain st where st: "jm_get (ap_cohortStates (demo_member_run 4)) ''c'' = Some st" "pc_phase st = NonIncluded"
    using demo_member_4(2) by auto
  have ok: "\<exists>v. getValidation ''c'' (fst (participantReceive demo_alib (demo_distribute (demo_hex demo_signal)) (demo_member_run 4))) = Some v \<and> pn_matches v"
      "participantPhase ''c'' (fst (participantReceive demo_alib (demo_distribute (demo_hex demo_signal)) (demo_member_run 4))) =
        Some AwaitingValidation"
    using demo_member_5 unfolding five by (auto simp: map_option_eq_Some)
  have did: "ap_did (demo_member_run 4) = ''did:n''" by (rule demo_member_4)
  have get: "jm_get (ap_cohortStates (fst (participantReceive demo_alib (demo_distribute s) (demo_member_run 4)))) ''c'' =
      Some (fst (handleDistributeAggregatedData demo_alib ''did:n'' (demo_distribute s) ''c'' st))" for s
    using st did by (simp add: participantReceive_def handleIn_def demo_distribute_def factory_defs own_def message_types Let_def
        split: prod.split)
  show ?thesis
    using validated_signal_unchecked [of st demo_alib "''did:n''" "''did:s''" "''c''" "''CASBeacon''" "demo_hex demo_signal" "JObj []" JUndef "''ff''"]
      st(2) ok get by (auto simp: getValidation_def participantPhase_def demo_distribute_def)
qed

end
