(* ===== verification/AggProtocol.thy ===== *)
theory AggProtocol
  imports DemoMember
begin

text \<open>
  The two sides of the aggregation protocol and the resolver together: what the service distributes
  passes the check of every member, what it anchors makes the resolver find exactly the update of
  every member, and the members derive the same address from the same terms. The locale
  \<open>announced_strategy\<close> extends \<open>beacon_strategy\<close> by the promise to the resolver, and is interpreted
  on both strategies.
\<close>

section \<open>The resolver finds what the service announced\<close>

text \<open>\<open>bytesToHex\<close> writes two lowercase digits per byte.\<close>

definition hex_ok :: "'x method_lib_scheme \<Rightarrow> bool" where
  "hex_ok L \<longleftrightarrow> (\<forall>bs. hex_encode L bs = concat (map hex_byte bs))"

text \<open>The sidecar of a member: its update if it made one, and its part of the aggregated data.\<close>

definition member_sidecar :: "BeaconDistributePayload \<Rightarrow> jsval option \<Rightarrow> Sidecar" where
  "member_sidecar payload update =
     \<lparr>sc_genesisDocument = None, sc_updates = (case update of None \<Rightarrow> [] | Some u \<Rightarrow> [u]),
      sc_casUpdates = (if dp_casAnnouncement payload = JUndef then [] else [dp_casAnnouncement payload]),
      sc_smtProofs = (if dp_smtProof payload = JUndef then [] else [dp_smtProof payload])\<rparr>"

locale announced_strategy = beacon_strategy L strategy
  for L :: "'x method_lib_scheme" and strategy :: AggregateBeaconStrategy +
  assumes announced: "st_buildAggregatedData strategy nonce ch = (ch', Inr ()) \<Longrightarrow>
      sha256_ok L \<Longrightarrow> base64url_ok L \<Longrightarrow> hex_ok L \<Longrightarrow> ready_cohort nonce ch \<Longrightarrow> did \<in> set (ch_participants ch) \<Longrightarrow>
      ch_signalBytes ch' = Some signal \<Longrightarrow> bs_signalBytes (s :: BeaconSignal) = hex_encode L signal \<Longrightarrow>
      js_prop_opt service ''type'' = JStr (st_type strategy) \<Longrightarrow> serviceDid service = Inr did \<Longrightarrow>
      \<exists>sd. sidecarData L (member_sidecar (st_getDistributePayload strategy ch' did) (jm_get (ch_pendingUpdates ch) did)) = Inr sd \<and>
        processSignals L service [s] sd =
          Inr (case jm_get (ch_pendingUpdates ch) did of None \<Rightarrow> [] | Some u \<Rightarrow> [(u, bs_blockMetadata s)], [])"

lemma lookup_truthy_set [simp]: "truthy v \<Longrightarrow> lookup_truthy [(k, v)] k = Some v"
  by (simp add: lookup_truthy_def)

lemma one_signal:
  "signalLoop step [s] [] [] = Inr (case u of None \<Rightarrow> [] | Some u \<Rightarrow> [(u, bs_blockMetadata s)], [])"
  if "step s = Inr (case u of None \<Rightarrow> Skipped | Some u \<Rightarrow> Found u)"
  using that by (cases u) simp_all

text \<open>The maps that the sidecar of a member makes.\<close>

lemma sidecar_updates:
  assumes "\<forall>u. update = Some u \<longrightarrow> truthy u"
  shows "keyedBy (canonicalHash L ''hex'') (case update of None \<Rightarrow> [] | Some u \<Rightarrow> [u]) [] =
    Inr (case update of None \<Rightarrow> [] | Some u \<Rightarrow> jm_set (hex_encode L (canon_hash L u)) u [])"
  using assms by (cases update) (auto dest: truthy_not_undef)

lemma proof_defined [simp]: "proofValue p \<noteq> JUndef" "truthy (proofValue p)"
  by (simp_all add: proofValue_def)

lemma ready_truthy: "ready_cohort nonce ch \<Longrightarrow> jm_get (ch_pendingUpdates ch) did = Some u \<Longrightarrow> truthy u"
  by (drule map_of_SomeD) (auto simp: ready_cohort_def)

interpretation announced_cas: announced_strategy L "CAS_STRATEGY L" for L :: "'x method_lib_scheme"
proof
  fix nonce ch ch' did signal service and s :: BeaconSignal
  assume build: "st_buildAggregatedData (CAS_STRATEGY L) nonce ch = (ch', Inr ())"
    and L: "sha256_ok L" "base64url_ok L" "hex_ok L"
    and ready: "ready_cohort nonce ch" and sig: "ch_signalBytes ch' = Some signal"
    and s: "bs_signalBytes s = hex_encode L signal"
    and service: "js_prop_opt service ''type'' = JStr (st_type (CAS_STRATEGY L))" "serviceDid service = Inr did"
  let ?u = "jm_get (ch_pendingUpdates ch) did" and ?a = "JObj (announcement_of L (ch_pendingUpdates ch))"
  let ?sd = "\<lparr>sd_updateMap = (case ?u of None \<Rightarrow> [] | Some u \<Rightarrow> jm_set (hex_encode L (canon_hash L u)) u []),
      sd_casMap = jm_set (hex_encode L signal) ?a [], sd_smtMap = []\<rparr>"
  note truthy = ready_truthy [OF ready]
  from build obtain a where "buildCASAnnouncement L ch = (ch', Inr a)"
    by (auto simp: CAS_STRATEGY_def rbind_Inr_iff split: prod.splits)
  then have a: "ch_casAnnouncement ch' = Some ?a" "ch_signalBytes ch' = Some (canon_hash L ?a)"
    using cas_built ready by (fastforce simp: ready_cohort_def)+
  have sd: "sidecarData L (member_sidecar (st_getDistributePayload (CAS_STRATEGY L) ch' did) ?u) = Inr ?sd"
    using a sig truthy by (simp add: sidecarData_def member_sidecar_def CAS_STRATEGY_def sidecar_updates)
  have "casStep L service did ?sd s = Inr (case ?u of None \<Rightarrow> Skipped | Some u \<Rightarrow> Found u)"
  proof (cases ?u)
    case None
    then show ?thesis using s
      by (simp add: casStep_alt casUpdateHash_def own_def announcement_of_get updateOutcome_def)
  next
    case (Some u)
    have "base64url_encode L (canon_hash L u) \<noteq> []" using L by (simp add: canon_hash_def hash_of_def flip: length_greater_0_conv)
    then show ?thesis using s L(2) Some truthy
      by (simp add: casStep_alt casUpdateHash_def own_def announcement_of_get updateOutcome_def)
  qed
  then have "processSignals L service [s] ?sd = Inr (case ?u of None \<Rightarrow> [] | Some u \<Rightarrow> [(u, bs_blockMetadata s)], [])"
    using service by (simp add: processSignals_def processCAS_def CAS_STRATEGY_def one_signal del: signalLoop.simps)
  with sd show "\<exists>sd. sidecarData L (member_sidecar (st_getDistributePayload (CAS_STRATEGY L) ch' did) ?u) = Inr sd \<and>
      processSignals L service [s] sd = Inr (case ?u of None \<Rightarrow> [] | Some u \<Rightarrow> [(u, bs_blockMetadata s)], [])"
    by blast
qed

interpretation announced_smt: announced_strategy L "SMT_STRATEGY L" for L :: "'x method_lib_scheme"
proof
  fix nonce ch ch' did signal service and s :: BeaconSignal
  assume build: "st_buildAggregatedData (SMT_STRATEGY L) nonce ch = (ch', Inr ())"
    and L: "sha256_ok L" "base64url_ok L" "hex_ok L"
    and ready: "ready_cohort nonce ch" and did: "did \<in> set (ch_participants ch)"
    and sig: "ch_signalBytes ch' = Some signal" and s: "bs_signalBytes s = hex_encode L signal"
    and service: "js_prop_opt service ''type'' = JStr (st_type (SMT_STRATEGY L))" "serviceDid service = Inr did"
  let ?u = "jm_get (ch_pendingUpdates ch) did"
  obtain p j n root where p: "dp_smtProof (st_getDistributePayload (SMT_STRATEGY L) ch' did) = proofValue p"
    and root: "ch_signalBytes ch' = Some root" "sp_id p = base64url_encode L root" "isValidHash root"
    and j: "didToIndex L did = Inr j" and n: "sp_nonce p = Some (base64url_encode L n)" "length n = 32"
    and upd: "sp_updateId p = map_option (\<lambda>u. base64url_encode L (sha256 L (update_bytes L u))) ?u"
    and ok: "verifySerializedProof L p j (case ?u of None \<Rightarrow> nonInclusionLeafHash L n
        | Some u \<Rightarrow> inclusionLeafHash L n (update_bytes L u)) = Inr True"
    by (rule smt_member_proof [OF L(1,2) build ready did])
  let ?sd = "\<lparr>sd_updateMap = (case ?u of None \<Rightarrow> [] | Some u \<Rightarrow> jm_set (hex_encode L (canon_hash L u)) u []),
      sd_casMap = [], sd_smtMap = jm_set (hex_encode L signal) (proofValue p) []\<rparr>"
  note truthy = ready_truthy [OF ready]
  have id: "js_prop_opt (proofValue p) ''id'' = JStr (base64url_encode L signal)"
    using root sig by (simp add: proofValue_def own_def)
  have sd: "sidecarData L (member_sidecar (st_getDistributePayload (SMT_STRATEGY L) ch' did) ?u) = Inr ?sd"
    using p id truthy L(2)
    by (simp add: sidecarData_def member_sidecar_def sidecar_updates smtProofKey_def decodeProperty_def SMT_STRATEGY_def)
  have n32: "isValidHash n" using n(2) by (simp add: isValidHash_def HASH_BYTE_LENGTH_def)
  then have ne: "base64url_encode L n \<noteq> []" using base64url_encode_hash [OF L(2)] by auto
  have "smtStep L service did ?sd s = Inr (case ?u of None \<Rightarrow> Skipped | Some u \<Rightarrow> Found u)"
  proof (cases ?u)
    case None
    then show ?thesis using s ne n n32 j ok upd L
      by (simp add: smtStep_alt smtUpdateHash_def updateOutcome_def base64UrlToHash_encode nonInclusionLeafHash_def blockHash_def)
  next
    case (Some u)
    have h32: "isValidHash (sha256 L (update_bytes L u))" using L by (simp add: isValidHash_def HASH_BYTE_LENGTH_def)
    then have "base64url_encode L (sha256 L (update_bytes L u)) \<noteq> []" using base64url_encode_hash [OF L(2)] by auto
    then show ?thesis using s ne n n32 h32 j ok upd L Some truthy
      by (simp add: smtStep_alt smtUpdateHash_def updateOutcome_def base64UrlToHash_encode inclusionLeafHash_def blockHash_def
          hashToHex_alt hex_ok_def canon_hash_update_bytes)
  qed
  then have "processSignals L service [s] ?sd = Inr (case ?u of None \<Rightarrow> [] | Some u \<Rightarrow> [(u, bs_blockMetadata s)], [])"
    using service by (simp add: processSignals_def processSMT_def SMT_STRATEGY_def one_signal del: signalLoop.simps)
  with sd show "\<exists>sd. sidecarData L (member_sidecar (st_getDistributePayload (SMT_STRATEGY L) ch' did) ?u) = Inr sd \<and>
      processSignals L service [s] sd = Inr (case ?u of None \<Rightarrow> [] | Some u \<Rightarrow> [(u, bs_blockMetadata s)], [])"
    by blast
qed

section \<open>What a distribution sends\<close>

text \<open>A reachable cohort is ready, when its leaf nonces have 32 bytes and no member is named like a
  property of every object.\<close>

definition good_names :: "(nat \<Rightarrow> bytes) \<Rightarrow> 'tx ServiceCohortState \<Rightarrow> bool" where
  "good_names nonce st \<longleftrightarrow>
     set (ch_participants (cs_cohort st)) \<inter> set objectPrototypeKeys = {} \<and> (\<forall>i. length (nonce i) = 32)"

lemma reachable_ready:
  assumes "service_reach L svc" "jm_get (as_cohortStates svc) cid = Some st" "good_names nonce st"
  shows "ready_cohort nonce (cs_cohort st)"
proof -
  note inv = service_reach_inv [OF assms(1,2)]
  have "distinct (map fst (ch_pendingUpdates (cs_cohort st)))" using service_invD(1) [OF inv] by (simp add: cohort_inv_def)
  then have "jm_get (ch_pendingUpdates (cs_cohort st)) d = Some u" if "(d, u) \<in> set (ch_pendingUpdates (cs_cohort st))" for d u
    using that by simp
  then have "truthy u" if "(d, u) \<in> set (ch_pendingUpdates (cs_cohort st))" for d u
    using service_invD(3) [OF inv] that unfolding update_verified_def by blast
  then show ?thesis using service_invD(1) [OF inv] assms(3) by (auto simp: ready_cohort_def good_names_def)
qed

lemma distribution:
  fixes L :: "('tx, 'x) agg_lib_scheme"
  assumes "jm_get (as_cohortStates svc) cid = Some st" "snd (buildAndDistribute L nonce cid svc) = Inr msgs"
    "did \<in> set (ch_participants (cs_cohort st))"
  obtains strategy ch' signal where
    "getBeaconStrategy (STRATEGIES L) (co_beaconType (cs_config st)) = Some strategy"
    "st_type strategy = co_beaconType (cs_config st)"
    "st_buildAggregatedData strategy nonce (cs_cohort st) = (ch', Inr ())" "ch_signalBytes ch' = Some signal"
    "map_option ch_signalBytes (getCohort cid (fst (buildAndDistribute L nonce cid svc))) = Some (Some signal)"
    "createDistributeAggregatedDataMessage (as_did svc) did cid (co_beaconType (cs_config st)) (hex_encode L signal)
       (dp_casAnnouncement (st_getDistributePayload strategy ch' did)) (dp_smtProof (st_getDistributePayload strategy ch' did))
     \<in> set msgs"
proof -
  obtain st' where d: "distributeState L nonce svc cid st = (st', Inr msgs)"
    using assms(1,2) by (auto simp: buildAndDistribute_def onCohort_def split: prod.splits)
  then obtain strategy ch' where s: "getBeaconStrategy (STRATEGIES L) (co_beaconType (cs_config st)) = Some strategy"
    "st_buildAggregatedData strategy nonce (cs_cohort st) = (ch', Inr ())"
    by (auto simp: distributeState_def split: if_splits option.splits prod.splits sum.splits)
  with d obtain signal where sig: "ch_signalBytes ch' = Some signal" "cs_cohort st' = ch'"
    and msgs: "msgs = map (\<lambda>did. let payload = st_getDistributePayload strategy ch' did
        in createDistributeAggregatedDataMessage (as_did svc) did cid (co_beaconType (cs_config st))
             (hex_encode L signal) (dp_casAnnouncement payload) (dp_smtProof payload)) (ch_participants ch')"
    by (auto simp: distributeState_def split: if_splits option.splits)
  have t: "st_type strategy = co_beaconType (cs_config st)"
    using s(1) by (auto simp: strategies_get CAS_STRATEGY_def SMT_STRATEGY_def split: if_splits)
  have "ch_participants ch' = ch_participants (cs_cohort st)"
    using s cas.build_keeps(1) smt.build_keeps(1) by (auto simp: strategies_get split: if_splits)
  then have m: "createDistributeAggregatedDataMessage (as_did svc) did cid (co_beaconType (cs_config st)) (hex_encode L signal)
       (dp_casAnnouncement (st_getDistributePayload strategy ch' did)) (dp_smtProof (st_getDistributePayload strategy ch' did)) \<in> set msgs"
    using assms(3) by (auto simp: msgs Let_def)
  have "getCohort cid (fst (buildAndDistribute L nonce cid svc)) = Some ch'"
    using d sig(2) assms(1) by (simp add: getCohort_def buildAndDistribute_def onCohort_def)
  then show ?thesis using that [OF s(1) t s(2) sig(1) _ m] sig(1) by simp
qed

lemma distribute_fields [simp]:
  "js_prop_opt (m_body (createDistributeAggregatedDataMessage a d c t h cas smt)) ''casAnnouncement'' = cas"
  "js_prop_opt (m_body (createDistributeAggregatedDataMessage a d c t h cas smt)) ''smtProof'' = smt"
  "body_str (m_body (createDistributeAggregatedDataMessage a d c t h cas smt)) ''beaconType'' = Some t"
  "body_str (m_body (createDistributeAggregatedDataMessage a d c t h cas smt)) ''cohortId'' = Some c"
  "body_str (m_body (createDistributeAggregatedDataMessage a d c t h cas smt)) ''signalBytesHex'' = Some h"
  "m_to (createDistributeAggregatedDataMessage a d c t h cas smt) = Some d"
  "m_type (createDistributeAggregatedDataMessage a d c t h cas smt) = DISTRIBUTE_AGGREGATED_DATA"
  "m_version (createDistributeAggregatedDataMessage a d c t h cas smt) = JInt AGGREGATION_WIRE_VERSION"
  by (simp_all add: createDistributeAggregatedDataMessage_def newBaseMessage_def own_def)

lemma payload_eta [simp]:
  "\<lparr>dp_casAnnouncement = dp_casAnnouncement p, dp_smtProof = dp_smtProof p\<rparr> = (p :: BeaconDistributePayload)"
  by (cases p) simp

section \<open>Claims\<close>

definition body_sidecar :: "jsval \<Rightarrow> jsval option \<Rightarrow> Sidecar" where
  "body_sidecar body update =
     member_sidecar \<lparr>dp_casAnnouncement = js_prop_opt body ''casAnnouncement'', dp_smtProof = js_prop_opt body ''smtProof''\<rparr> update"

text \<open>C4: What the service announces is what the resolver finds. When a reachable service has built and
  distributed the data of a cohort, of either kind, the message for a member, with its own update if
  it made one, is all the sidecar data that a resolver of the member needs: processing the signal
  that the cohort anchors yields exactly the update of the member, or nothing if it declined, and
  asks for nothing more.\<close>

theorem announced_update_resolves:
  fixes s :: BeaconSignal
  assumes L: "sha256_ok L" "base64url_ok L" "hex_ok L"
    and svc: "service_reach L svc" "jm_get (as_cohortStates svc) cid = Some st" "good_names nonce st"
    and build: "snd (buildAndDistribute L nonce cid svc) = Inr msgs" "did \<in> set (ch_participants (cs_cohort st))"
    and service: "js_prop_opt service ''type'' = JStr (co_beaconType (cs_config st))" "serviceDid service = Inr did"
    and signal: "map_option ch_signalBytes (getCohort cid (fst (buildAndDistribute L nonce cid svc))) = Some (Some signal)"
      "bs_signalBytes s = hex_encode L signal"
  shows "\<exists>m \<in> set msgs. m_to m = Some did \<and>
    (\<exists>sd. sidecarData L (body_sidecar (m_body m) (jm_get (ch_pendingUpdates (cs_cohort st)) did)) = Inr sd \<and>
      processSignals L service [s] sd = Inr (case jm_get (ch_pendingUpdates (cs_cohort st)) did of
        None \<Rightarrow> [] | Some u \<Rightarrow> [(u, bs_blockMetadata s)], []))"
proof -
  note ready = reachable_ready [OF svc]
  obtain strategy ch' where st: "getBeaconStrategy (STRATEGIES L) (co_beaconType (cs_config st)) = Some strategy"
    "st_type strategy = co_beaconType (cs_config st)" "st_buildAggregatedData strategy nonce (cs_cohort st) = (ch', Inr ())"
    "ch_signalBytes ch' = Some signal"
    and m: "createDistributeAggregatedDataMessage (as_did svc) did cid (co_beaconType (cs_config st)) (hex_encode L signal)
       (dp_casAnnouncement (st_getDistributePayload strategy ch' did)) (dp_smtProof (st_getDistributePayload strategy ch' did))
     \<in> set msgs"
    using signal(1) by (auto intro: distribution [OF svc(2) build])
  have "announced_strategy L strategy"
    using st(1) announced_cas.announced_strategy_axioms announced_smt.announced_strategy_axioms
    by (auto simp: strategies_get split: if_splits)
  from announced_strategy.announced [OF this st(3) L ready build(2) st(4) signal(2) _ service(2)] service(1) st(2)
  show ?thesis by (intro bexI [OF _ m]) (simp add: body_sidecar_def)
qed

theorem announced_update_resolves_witness:
  "\<exists>(m :: BaseMessage) sd signal. m_to m = Some ''did:n'' \<and>
    sidecarData demo_alib (body_sidecar (m_body m) None) = Inr sd \<and>
    processSignals demo_alib (JObj [(''id'', JStr ''did:n#beacon''), (''type'', JStr ''CASBeacon'')])
      [\<lparr>bs_signalBytes = hex_encode demo_alib signal, bs_blockMetadata = \<lparr>bm_height = 1, bm_time = 1, bm_confirmations = 1\<rparr>\<rparr>] sd = Inr ([], [])"
proof -
  let ?service = "JObj [(''id'', JStr ''did:n#beacon''), (''type'', JStr ''CASBeacon'')]" and ?nonce = "\<lambda>_. replicate 32 0"
  let ?s = "\<lambda>signal. \<lparr>bs_signalBytes = hex_encode demo_alib signal, bs_blockMetadata = \<lparr>bm_height = 1, bm_time = 1, bm_confirmations = 1\<rparr>\<rparr>"
  obtain st where st: "demo_cohort 10 = Some st" "ch_participants (cs_cohort st) = [''did:m'', ''did:n'']"
    "ch_pendingUpdates (cs_cohort st) = []" "co_beaconType (cs_config st) = ''CASBeacon''"
    by (rule demo_run_facts [of 10]) (auto simp: demo_expect_def)
  obtain msgs where build: "snd (buildAndDistribute demo_alib ?nonce ''c'' (demo_run 10)) = Inr msgs" by (rule demo_distributes)
  note got = st(1) [unfolded demo_cohort_def]
  have "''did:n'' \<in> set (ch_participants (cs_cohort st))" by (simp add: st)
  from distribution [OF got build this] obtain signal where
    signal: "map_option ch_signalBytes (getCohort ''c'' (fst (buildAndDistribute demo_alib ?nonce ''c'' (demo_run 10)))) = Some (Some signal)"
    by blast
  have hex: "hex_ok demo_alib" by (simp add: hex_ok_def demo_hex_def)
  have names: "good_names ?nonce st" by (simp add: good_names_def st objectPrototypeKeys_def)
  have did: "serviceDid ?service = Inr ''did:n''"
    by (simp add: serviceDid_def own_def)
  have "\<exists>m \<in> set msgs. m_to m = Some ''did:n'' \<and>
      (\<exists>sd. sidecarData demo_alib (body_sidecar (m_body m) (jm_get (ch_pendingUpdates (cs_cohort st)) ''did:n'')) = Inr sd \<and>
        processSignals demo_alib ?service [?s signal] sd = Inr (case jm_get (ch_pendingUpdates (cs_cohort st)) ''did:n'' of
          None \<Rightarrow> [] | Some u \<Rightarrow> [(u, bs_blockMetadata (?s signal))], []))"
    by (rule announced_update_resolves [OF demo_alib_ok(1,2) hex demo_run_reach got names build _ _ did signal])
       (simp_all add: st own_def)
  then obtain m :: BaseMessage and sd where "m_to m = Some ''did:n''" "sidecarData demo_alib (body_sidecar (m_body m) None) = Inr sd"
    "processSignals demo_alib ?service [?s signal] sd = Inr ([], [])" by (auto simp: st)
  then show ?thesis by (intro exI [of _ m] exI [of _ sd] exI [of _ signal] conjI) simp_all
qed

text \<open>The state of a member agrees with what the service has on record for it.\<close>

definition in_step :: "AggregationCohort \<Rightarrow> string \<Rightarrow> 'tx ParticipantCohortState \<Rightarrow> bool" where
  "in_step ch did mst \<longleftrightarrow>
     (case jm_get (ch_pendingUpdates ch) did of
        None \<Rightarrow> pc_phase mst = NonIncluded \<and> pc_included mst = Some False
      | Some u \<Rightarrow> pc_phase mst = UpdateSubmitted \<and> pc_included mst = Some True \<and> pc_submittedUpdate mst = u)"

lemma in_step_view:
  assumes "in_step ch did mst" "\<forall>u. jm_get (ch_pendingUpdates ch) did = Some u \<longrightarrow> truthy u"
  shows "pc_phase mst \<in> set [UpdateSubmitted, NonIncluded]"
    "pc_included mst = Some False \<or> truthy (pc_submittedUpdate mst)"
    "honest_view L strategy ch did body =
       \<lparr>pv_participantDid = did, pv_included = pc_included mst \<noteq> Some False,
        pv_submittedUpdate = (if pc_included mst = Some False then JUndef else pc_submittedUpdate mst),
        pv_expectedHash = (if pc_included mst = Some False then None
          else Some (base64url_encode L (canon_hash L (pc_submittedUpdate mst)))), pv_body = body\<rparr>"
  using assms by (auto simp: in_step_def honest_view_def jm_has_def split: option.splits)

text \<open>C20: Every member that is in step approves. When a reachable service distributes the data of a
  cohort, a member whose own record agrees with that of the service, having submitted its update or
  declined, finds a message for it that passes its validation, and then awaits approval holding the
  signal that the service will anchor.\<close>

theorem distributed_view_matches:
  assumes L: "sha256_ok L" "base64url_ok L"
    and svc: "service_reach L svc" "jm_get (as_cohortStates svc) cid = Some st" "good_names nonce st" "cid \<noteq> []"
    and build: "snd (buildAndDistribute L nonce cid svc) = Inr msgs" "ap_did p \<in> set (ch_participants (cs_cohort st))"
    and member: "jm_get (ap_cohortStates p) cid = Some mst" "in_step (cs_cohort st) (ap_did p) mst"
  shows "\<exists>m \<in> set msgs. m_to m = Some (ap_did p) \<and>
    participantPhase cid (fst (participantReceive L m p)) = Some AwaitingValidation \<and>
    (\<exists>v signal. getValidation cid (fst (participantReceive L m p)) = Some v \<and> pn_matches v \<and>
      map_option ch_signalBytes (getCohort cid (fst (buildAndDistribute L nonce cid svc))) = Some (Some signal) \<and>
      pn_signalBytesHex v = hex_encode L signal)"
proof -
  note ready = reachable_ready [OF svc(1-3)]
  obtain strategy ch' signal where st: "getBeaconStrategy (STRATEGIES L) (co_beaconType (cs_config st)) = Some strategy"
    "st_buildAggregatedData strategy nonce (cs_cohort st) = (ch', Inr ())"
    and sig: "map_option ch_signalBytes (getCohort cid (fst (buildAndDistribute L nonce cid svc))) = Some (Some signal)"
    and m: "createDistributeAggregatedDataMessage (as_did svc) (ap_did p) cid (co_beaconType (cs_config st)) (hex_encode L signal)
       (dp_casAnnouncement (st_getDistributePayload strategy ch' (ap_did p)))
       (dp_smtProof (st_getDistributePayload strategy ch' (ap_did p))) \<in> set msgs" (is "?m \<in> _")
    by (rule distribution [OF svc(2) build])
  have "beacon_strategy L strategy"
    using st(1) cas.beacon_strategy_axioms smt.beacon_strategy_axioms by (auto simp: strategies_get split: if_splits)
  from beacon_strategy.view_matches [OF this st(2) L ready build(2), of "m_body ?m"]
  obtain r where r: "st_validateParticipantView strategy (honest_view L strategy (cs_cohort st) (ap_did p) (m_body ?m)) = Inr r"
    "bv_matches r" by auto
  have type: "co_beaconType (cs_config st) \<noteq> []" using st(1) by (auto simp: strategies_get split: if_splits)
  have "\<forall>u. jm_get (ch_pendingUpdates (cs_cohort st)) (ap_did p) = Some u \<longrightarrow> truthy u" using ready_truthy [OF ready] by blast
  note view = in_step_view [OF member(2) this]
  note shown = view(3) [where L = L and strategy = strategy and body = "m_body ?m"]
  let ?st = "fst (handleDistributeAggregatedData L (ap_did p) ?m cid mst)"
  have "pc_phase ?st = AwaitingValidation \<and> (\<exists>v. pc_validation ?st = Some v \<and> pn_matches v \<and> pn_signalBytesHex v = hex_encode L signal)"
    using view(1,2) r st(1) type unfolding shown
    by (cases "pc_included mst = Some False") (auto simp: handleDistributeAggregatedData_def Let_def dest: truthy_not_undef)
  moreover have "fst (participantReceive L ?m p) = p\<lparr>ap_cohortStates := jm_set cid ?st (ap_cohortStates p)\<rparr>"
    using member(1) svc(4) by (simp add: participantReceive_def handleIn_def message_types split: prod.split)
  ultimately show ?thesis
    using sig by (intro bexI [OF _ m]) (auto simp: participantPhase_def getValidation_def)
qed

theorem distributed_view_matches_witness:
  "\<exists>m v. m_to m = Some ''did:n'' \<and> getValidation ''c'' (fst (participantReceive demo_alib m (demo_member_run 4))) = Some v \<and> pn_matches v"
proof -
  obtain st where st: "demo_cohort 10 = Some st" "ch_participants (cs_cohort st) = [''did:m'', ''did:n'']"
    "ch_pendingUpdates (cs_cohort st) = []"
    by (rule demo_run_facts [of 10]) (auto simp: demo_expect_def)
  obtain msgs where build: "snd (buildAndDistribute demo_alib (\<lambda>_. replicate 32 0) ''c'' (demo_run 10)) = Inr msgs"
    by (rule demo_distributes)
  obtain mst where mst: "jm_get (ap_cohortStates (demo_member_run 4)) ''c'' = Some mst" "pc_phase mst = NonIncluded"
    "pc_included mst = Some False" using demo_member_4(2,3) by auto
  have "good_names (\<lambda>_. replicate 32 0) st" by (simp add: good_names_def st objectPrototypeKeys_def)
  moreover have "in_step (cs_cohort st) ''did:n'' mst" by (simp add: in_step_def st mst)
  ultimately have "\<exists>m \<in> set msgs. m_to m = Some (ap_did (demo_member_run 4)) \<and>
      (\<exists>v. getValidation ''c'' (fst (participantReceive demo_alib m (demo_member_run 4))) = Some v \<and> pn_matches v)"
    using distributed_view_matches [OF demo_alib_ok(1,2) demo_run_reach, of 10 "''c''" st "\<lambda>_. replicate 32 0" msgs "demo_member_run 4" mst]
      build mst(1) st by (auto simp: demo_cohort_def demo_member_4(1))
  then show ?thesis unfolding demo_member_4(1) by blast
qed

section \<open>One address\<close>

text \<open>A member that joins on the advertised terms starts from the terms of the cohort.\<close>

lemma advertOf_fields:
  "ca_cohortId (advertOf s b) = (case body_str b ''cohortId'' of None \<Rightarrow> [] | Some s \<Rightarrow> s)"
  "ca_network (advertOf s b) = (case body_str b ''network'' of None \<Rightarrow> [] | Some s \<Rightarrow> s)"
  "co_recoveryKey (advertOf s b) = js_prop_opt b ''recoveryKey''"
  "co_recoverySequence (advertOf s b) = js_prop_opt b ''recoverySequence''"
  "co_fundingModel (advertOf s b) = body_str b ''fundingModel''"
  "co_fallbackThreshold (advertOf s b) = js_prop_opt b ''fallbackThreshold''"
  by (simp_all add: advertOf_def Let_def)

lemma advert_fields:
  fixes c :: CohortConditions and s cid net :: string and pk :: bytes
  defines "a \<equiv> advertOf s (m_body (createCohortAdvertMessage s cid net pk c))"
  shows "ca_cohortId a = cid" "ca_network a = net" "co_recoveryKey a = co_recoveryKey c"
    "co_recoverySequence a = co_recoverySequence c" "co_fundingModel a = co_fundingModel c"
    "co_fallbackThreshold a = co_fallbackThreshold c"
  unfolding a_def advertOf_fields
  by (simp_all add: createCohortAdvertMessage_def newBaseMessage_def conditionProps_def own_def opt_val_def split: option.split)

lemma sorted_again:
  assumes "sort_keys_ok L" "musig_sort_keys L ks = Some keys"
  shows "musig_sort_keys L keys = Some keys"
  using assms unfolding sort_keys_ok_def by metis

text \<open>The payment depends on the terms and the keys.\<close>

lemma payment_cong:
  "same_terms ch ch' \<Longrightarrow> cohortPayment L ch' = cohortPayment L ch"
  unfolding same_terms_def cohortPayment_def by (elim conjE) (simp only:)

lemma address_computed:
  "computeBeaconAddress L ch = (ch', Inr a) \<Longrightarrow> \<exists>k payment. cohortPayment L ch = Inr (k, payment) \<and>
     truthy_str (tp_address payment) \<and> a = the (tp_address payment) \<and>
     ch' = ch\<lparr>ch_internalKey := k, ch_tapMerkleRoot := tp_tapMerkleRoot payment,
              ch_tapTweak := tagged_hash L ''TapTweak'' (k @ tp_tapMerkleRoot payment), ch_beaconAddress := a\<rparr>"
  by (auto simp: computeBeaconAddress_def Let_def split: sum.splits if_splits)

lemma ready_fields [simp]:
  "body_str (m_body (createCohortReadyMessage a d c addr keys)) ''cohortId'' = Some c"
  "body_str (m_body (createCohortReadyMessage a d c addr keys)) ''beaconAddress'' = Some addr"
  "body_bytesArray (m_body (createCohortReadyMessage a d c addr keys)) ''cohortKeys'' = Some keys"
  "m_to (createCohortReadyMessage a d c addr keys) = Some d"
  "m_type (createCohortReadyMessage a d c addr keys) = COHORT_READY"
  "m_version (createCohortReadyMessage a d c addr keys) = JInt AGGREGATION_WIRE_VERSION"
  by (simp_all add: createCohortReadyMessage_def newBaseMessage_def own_def)

text \<open>The cohort of a member that has joined on the advertised terms of a reachable cohort.\<close>

lemma joined_terms:
  fixes L :: "('tx, 'x) agg_lib_scheme" and p :: "'tx AggregationParticipant" and st :: "'tx ServiceCohortState"
    and did cid uuid :: string and pk :: bytes
  assumes "agreed_terms L st" "\<not> jm_has (ap_cohortStates p) cid" "cid \<noteq> []"
  defines "p1 \<equiv> fst (participantReceive L (createCohortAdvertMessage did cid (cf_network (cs_config st)) pk
     (CohortConditions.truncate (cs_config st))) p)"
  defines "p2 \<equiv> fst (joinCohort L uuid cid p1)"
  obtains mst mch where "jm_get (ap_cohortStates p2) cid = Some mst" "pc_phase mst = OptedIn" "pc_cohort mst = Some mch"
    "same_terms (cs_cohort st) (mch\<lparr>ch_cohortKeys := ch_cohortKeys (cs_cohort st)\<rparr>)" "ap_did p2 = ap_did p"
    "ap_signer p2 = ap_signer p"
proof -
  let ?c = "CohortConditions.truncate (cs_config st)" and ?net = "cf_network (cs_config st)"
  let ?m = "createCohortAdvertMessage did cid ?net pk ?c"
  let ?a = "advertOf did (m_body ?m)"
  let ?st1 = "\<lparr>pc_phase = Discovered, pc_cohortId = cid, pc_serviceDid = did, pc_advert = Some ?a,
     pc_cohort = None, pc_submittedUpdate = JUndef, pc_included = None, pc_validation = None,
     pc_signingRequest = None, pc_fallbackRequest = None, pc_signingSession = None\<rparr> :: 'tx ParticipantCohortState"
  note valid = assms(1) [unfolded agreed_terms_def, THEN conjunct1]
  note a = advert_fields [of did cid ?net pk ?c]
  have m: "m_type ?m = COHORT_ADVERT" "m_version ?m = JInt AGGREGATION_WIRE_VERSION" "m_from ?m = did"
    by (simp_all add: createCohortAdvertMessage_def newBaseMessage_def)
  have p1: "p1 = p\<lparr>ap_cohortStates := jm_set cid ?st1 (ap_cohortStates p)\<rparr>"
    using assms(2) m a(1) advert_accepted [OF valid] by (simp add: p1_def participantReceive_def handleCohortAdvert_def Let_def)
  have "is_hex64 (co_recoveryKey (cs_config st))"
    using validate_bounds(7) [OF valid] by (simp add: CohortConditions.defs)
  then have "\<exists>hex. co_recoveryKey (cs_config st) = JStr hex \<and> hex \<noteq> []"
    by (cases "co_recoveryKey (cs_config st)") (auto simp: is_hex64_def)
  then obtain hex where hex: "co_recoveryKey (cs_config st) = JStr hex" "hex \<noteq> []" by blast
  obtain key where key: "hex_decode L hex = Some key" "ch_recoveryKey (cs_cohort st) = Some key"
    using assms(1) hex(1) unfolding agreed_terms_def by auto
  have c: "co_recoveryKey ?c = co_recoveryKey (cs_config st)" "co_recoverySequence ?c = co_recoverySequence (cs_config st)"
    "co_fundingModel ?c = co_fundingModel (cs_config st)" "co_fallbackThreshold ?c = co_fallbackThreshold (cs_config st)"
    by (simp_all add: CohortConditions.defs)
  let ?ch = "newCohort uuid \<lparr>cp_id = Some cid, cp_serviceDid = Some did, cp_minParticipants = co_minParticipants ?a,
     cp_network = ca_network ?a, cp_beaconType = Some (co_beaconType ?a), cp_recoveryKey = Some key,
     cp_recoverySequence = co_recoverySequence ?a, cp_fundingModel = co_fundingModel ?a,
     cp_fallbackThreshold = co_fallbackThreshold ?a\<rparr>"
  have "fst (joinState L p1 uuid cid ?st1) = ?st1\<lparr>pc_cohort := Some ?ch, pc_phase := OptedIn\<rparr>"
    using hex key a c by (simp add: joinState_def Let_def)
  then have p2: "p2 = p1\<lparr>ap_cohortStates := jm_set cid (?st1\<lparr>pc_cohort := Some ?ch, pc_phase := OptedIn\<rparr>) (ap_cohortStates p1)\<rparr>"
    by (simp add: p2_def joinCohort_def actionIn_def p1 Let_def case_prod_beta)
  have "same_terms (cs_cohort st) (?ch\<lparr>ch_cohortKeys := ch_cohortKeys (cs_cohort st)\<rparr>)"
    using assms(1) hex key a c unfolding agreed_terms_def by (simp add: same_terms_def newCohort_def)
  then show ?thesis
    by (intro that [of "?st1\<lparr>pc_cohort := Some ?ch, pc_phase := OptedIn\<rparr>" ?ch]) (simp_all add: p2 p1)
qed

text \<open>The parts of a cohort that its signatures and spends depend on.\<close>

definition derived :: "AggregationCohort \<Rightarrow> string \<times> bytes list \<times> bytes \<times> bytes \<times> bytes" where
  "derived ch = (ch_beaconAddress ch, ch_cohortKeys ch, ch_internalKey ch, ch_tapMerkleRoot ch, ch_tapTweak ch)"

text \<open>C12: Every member derives the address, keys and tweak of the service. When a reachable service
  finalizes the keys of a cohort, a member that has joined on the advert of the cohort and whose key
  is among those of the cohort finds a message for it that it accepts, and then holds the same
  address, sorted keys, internal key, script root and tweak as the service.\<close>

theorem members_derive_same_address:
  fixes L :: "('tx, 'x) agg_lib_scheme" and p :: "'tx AggregationParticipant" and st :: "'tx ServiceCohortState"
    and did cid uuid :: string and pk :: bytes
  assumes L: "sort_keys_ok L" "codecs_ok L"
    and svc: "service_reach L svc" "jm_get (as_cohortStates svc) cid = Some st" "cid \<noteq> []"
      "snd (finalizeKeygen L cid svc) = Inr msgs"
    and member: "\<not> jm_has (ap_cohortStates p) cid" "ap_did p \<in> set (ch_participants (cs_cohort st))"
      "participant_publicKey p \<in> set (ch_cohortKeys (cs_cohort st))"
  defines "p1 \<equiv> fst (participantReceive L (createCohortAdvertMessage did cid (cf_network (cs_config st)) pk
     (CohortConditions.truncate (cs_config st))) p)"
  defines "p2 \<equiv> fst (joinCohort L uuid cid p1)"
  shows "\<exists>m \<in> set msgs. m_to m = Some (ap_did p) \<and>
    (\<exists>mst mch ch. jm_get (ap_cohortStates (fst (participantReceive L m p2))) cid = Some mst \<and>
      pc_phase mst = CohortReady \<and> pc_cohort mst = Some mch \<and>
      getCohort cid (fst (finalizeKeygen L cid svc)) = Some ch \<and> derived mch = derived ch)"
proof -
  note terms = service_reach_terms [OF svc(1,2)]
  obtain ch addr where comp: "computeBeaconAddress L (cs_cohort st) = (ch, Inr addr)"
    and msgs: "msgs = map (\<lambda>did. createCohortReadyMessage (as_did svc) did cid addr (ch_cohortKeys ch)) (ch_participants ch)"
    and got: "getCohort cid (fst (finalizeKeygen L cid svc)) = Some ch"
    using svc(2,4)
    by (auto simp: finalizeKeygen_def onCohort_def finalizeState_def getCohort_def Let_def
        split: if_splits prod.splits sum.splits)
  obtain k payment where pay: "cohortPayment L (cs_cohort st) = Inr (k, payment)" "truthy_str (tp_address payment)"
    "addr = the (tp_address payment)" and ch: "ch = (cs_cohort st)\<lparr>ch_internalKey := k,
      ch_tapMerkleRoot := tp_tapMerkleRoot payment, ch_tapTweak := tagged_hash L ''TapTweak'' (k @ tp_tapMerkleRoot payment),
      ch_beaconAddress := addr\<rparr>"
    using address_computed [OF comp] by blast
  obtain mst mch where m: "jm_get (ap_cohortStates p2) cid = Some mst" "pc_phase mst = OptedIn" "pc_cohort mst = Some mch"
    "same_terms (cs_cohort st) (mch\<lparr>ch_cohortKeys := ch_cohortKeys (cs_cohort st)\<rparr>)" "ap_did p2 = ap_did p" "ap_signer p2 = ap_signer p"
    using joined_terms [OF terms member(1) svc(3), where did = did and pk = pk and uuid = uuid] unfolding p1_def p2_def by blast
  let ?keys = "ch_cohortKeys (cs_cohort st)"
  have "?keys \<noteq> []" using member(3) by auto
  then have srt: "musig_sort_keys L ?keys = Some ?keys"
    using terms sorted_again [OF L(1)] unfolding agreed_terms_def by blast
  let ?mch = "mch\<lparr>ch_cohortKeys := ?keys\<rparr>"
  have pay': "cohortPayment L ?mch = Inr (k, payment)" using payment_cong [OF m(4), of L] pay(1) by simp
  let ?mch' = "?mch\<lparr>ch_internalKey := k, ch_tapMerkleRoot := tp_tapMerkleRoot payment,
      ch_tapTweak := tagged_hash L ''TapTweak'' (k @ tp_tapMerkleRoot payment), ch_beaconAddress := addr\<rparr>"
  have "mapR (\<lambda>k. of_option (hex_decode L k)) (map (hex_encode L) ks) = Inr ks" for ks
    using L(2) by (induction ks) (simp_all add: codecs_simps)
  then have "validateMembership L (hex_encode L (participant_publicKey p)) (map (hex_encode L) ?keys) addr mch = (?mch', Inr ())"
    using member(3) srt pay pay' by (simp add: validateMembership_def setCohortKeys_def computeBeaconAddress_def Let_def)
  moreover have "addr \<noteq> []" using pay(2,3) by (auto simp: truthy_str_def split: option.splits)
  moreover have "participant_publicKey p2 = participant_publicKey p" using m(6) by (simp add: participant_publicKey_def)
  ultimately have "fst (participantReceive L (createCohortReadyMessage (as_did svc) (ap_did p) cid addr ?keys) p2) =
      p2\<lparr>ap_cohortStates := jm_set cid (mst\<lparr>pc_cohort := Some ?mch', pc_phase := CohortReady\<rparr>) (ap_cohortStates p2)\<rparr>"
    using m(1-3) svc(3) by (simp add: participantReceive_def handleIn_def handleCohortReady_def message_types)
  moreover have "derived ?mch' = derived ch" by (simp add: derived_def ch)
  moreover have "createCohortReadyMessage (as_did svc) (ap_did p) cid addr ?keys \<in> set msgs"
    using member(2) by (auto simp: msgs ch)
  ultimately show ?thesis using got
    by (intro bexI [of _ "createCohortReadyMessage (as_did svc) (ap_did p) cid addr ?keys"] conjI
          exI [of _ "mst\<lparr>pc_cohort := Some ?mch', pc_phase := CohortReady\<rparr>"] exI [of _ ?mch'] exI [of _ ch]) simp_all
qed

theorem members_derive_same_address_witness:
  "\<exists>m mst mch ch. m_to m = Some ''did:n'' \<and>
    jm_get (ap_cohortStates (fst (participantReceive demo_alib m (fst (joinCohort demo_alib ''v'' ''c''
      (fst (participantReceive demo_alib (createCohortAdvertMessage ''did:s'' ''c'' ''bitcoin'' [] (CohortConditions.truncate demo_config))
        demo_member))))))) ''c'' = Some mst \<and>
    pc_cohort mst = Some mch \<and> getCohort ''c'' (fst (finalizeKeygen demo_alib ''c'' (demo_run 7))) = Some ch \<and> derived mch = derived ch"
proof -
  obtain st where st: "demo_cohort 7 = Some st" "ch_participants (cs_cohort st) = [''did:m'', ''did:n'']"
    "ch_cohortKeys (cs_cohort st) = [demo_pk 1, demo_pk 2]" "cs_config st = demo_config"
    by (rule demo_run_facts [of 7]) (auto simp: demo_expect_def)
  obtain msgs where "snd (finalizeKeygen demo_alib ''c'' (demo_run 7)) = Inr msgs" by (rule demo_finalizes)
  moreover have "\<not> jm_has (ap_cohortStates demo_member) ''c''" "ap_did demo_member = ''did:n''"
    "participant_publicKey demo_member = demo_pk 2"
    by (simp_all add: demo_member_def newAggregationParticipant_def jm_has_def participant_publicKey_def)
  moreover have "cf_network demo_config = ''bitcoin''" by (simp add: demo_config_def)
  ultimately show ?thesis
    using members_derive_same_address [OF demo_alib_ok(5,4) demo_run_reach, of 7 "''c''" st msgs demo_member,
        where did = "''did:s''" and pk = "[]" and uuid = "''v''"] st
    by (auto simp: demo_cohort_def)
qed

end
