(* ===== verification/SmtOptimized.thy ===== *)
theory SmtOptimized
  imports SmtHash
begin

text \<open>
  The collapsed sparse Merkle tree of the package \<open>smt\<close>, which does not hash empty subtrees:
  \<open>node.ts\<close>, \<open>optimized-smt.ts\<close> and \<open>smt-proof.ts\<close>. A node with a single child is skipped, and its
  level is written into the padding of the hash below. The tree is mutable in the code; here an
  operation returns the new tree and its result. The closure \<open>saveProofs\<close> of \<open>#finalizeStep\<close> is a
  function from the hashes above a node to the proofs it stores.
\<close>

unbundle bit_operations_syntax

section \<open>Nodes\<close>

definition OUTER_BIT :: int where "OUTER_BIT = 2 ^ HASH_BIT_LENGTH"

text \<open>\<open>BITS[i]\<close> for \<open>i\<close> up to 256; the last entry is 0.\<close>

definition BITS :: "nat \<Rightarrow> int" where
  "BITS i = (if i < HASH_BIT_LENGTH then 2 ^ (HASH_BIT_LENGTH - 1 - i) else 0)"

definition NULL_HASH :: bytes where "NULL_HASH = replicate HASH_BYTE_LENGTH 0"

text \<open>A leaf is made with depth 256.\<close>

datatype smt_node = LeafNode int "bytes option" | ParentNode int nat smt_node smt_node

fun smt_index :: "smt_node \<Rightarrow> int" where
  "smt_index (LeafNode i h) = i"
| "smt_index (ParentNode i d l r) = i"

fun smt_depth :: "smt_node \<Rightarrow> nat" where
  "smt_depth (LeafNode i h) = HASH_BIT_LENGTH"
| "smt_depth (ParentNode i d l r) = d"

fun resetNode :: "smt_node \<Rightarrow> smt_node" where
  "resetNode (LeafNode i h) = LeafNode i None"
| "resetNode (ParentNode i d l r) = ParentNode i d (resetNode l) (resetNode r)"

section \<open>Proofs\<close>

record SMTProof =
  pf_converge :: int
  pf_hashes :: "bytes list"

datatype ValidationState = Pending | Valid | Invalid

record PartialProof =
  pp_hash :: bytes
  pp_converge :: int
  pp_hashes :: "bytes list"

text \<open>The local variables of \<open>#validate\<close>, and the cache that \<open>onMerge\<close> works on.\<close>

record 'c validation =
  va_nodeIndex :: int
  va_nodeHash :: bytes
  va_remaining :: int
  va_hashes :: "bytes list"
  va_leftPad :: "nat list"
  va_rightPad :: "nat list"
  va_state :: ValidationState
  va_cache :: 'c

definition pad_bytes :: "nat list \<Rightarrow> bytes" where "pad_bytes ds = map word_of_nat ds"

definition finalizePadding :: "'x hash_lib_scheme \<Rightarrow> ('c, 'y) validation_scheme \<Rightarrow> ('c, 'y) validation_scheme" where
  "finalizePadding L v =
     (if va_leftPad v \<noteq> [] \<or> va_rightPad v \<noteq> []
      then v\<lparr>va_nodeHash := blockHash L [pad_bytes (va_leftPad v), va_nodeHash v, pad_bytes (va_rightPad v)],
             va_leftPad := [], va_rightPad := []\<rparr>
      else v)"

definition validateStep ::
  "'x hash_lib_scheme \<Rightarrow> (int \<Rightarrow> PartialProof \<Rightarrow> 'c \<Rightarrow> ValidationState \<times> 'c) \<Rightarrow> nat \<Rightarrow> 'c validation \<Rightarrow> 'c validation" where
  "validateStep L onMerge i v =
     (if va_state v \<noteq> Pending then v
      else
        let isLeft = (va_nodeIndex v AND 1 = 0);
            v = v\<lparr>va_nodeIndex := drop_bit 1 (va_nodeIndex v)\<rparr>
        in if va_remaining v AND BITS i \<noteq> 0 then
             let v = finalizePadding L (v\<lparr>va_remaining := va_remaining v XOR BITS i\<rparr>)
             in (case va_hashes v of
                   [] \<Rightarrow> v\<lparr>va_state := Invalid\<rparr>
                 | peer # rest \<Rightarrow>
                     let nodeHash = (if isLeft then blockHash L [va_nodeHash v, peer] else blockHash L [peer, va_nodeHash v]);
                         (state, cache) = onMerge (va_nodeIndex v)
                           \<lparr>pp_hash = nodeHash, pp_converge = va_remaining v, pp_hashes = rest\<rparr> (va_cache v)
                     in v\<lparr>va_nodeHash := nodeHash, va_hashes := rest, va_state := state, va_cache := cache\<rparr>)
           else let depth = HASH_BIT_LENGTH - i - 1
             in if isLeft then v\<lparr>va_rightPad := va_rightPad v @ [depth]\<rparr>
                else v\<lparr>va_leftPad := depth # va_leftPad v\<rparr>)"

definition smtValidate ::
  "'x hash_lib_scheme \<Rightarrow> (int \<Rightarrow> PartialProof \<Rightarrow> 'c \<Rightarrow> ValidationState \<times> 'c) \<Rightarrow> 'c \<Rightarrow> SMTProof
     \<Rightarrow> int \<Rightarrow> bytes \<Rightarrow> bytes \<Rightarrow> bool \<times> 'c" where
  "smtValidate L onMerge cache p index candidateHash rootHash =
     (let v = foldl (\<lambda>v i. validateStep L onMerge i v)
                \<lparr>va_nodeIndex = index, va_nodeHash = candidateHash, va_remaining = pf_converge p,
                 va_hashes = pf_hashes p, va_leftPad = [], va_rightPad = [], va_state = Pending, va_cache = cache\<rparr>
                [0..<HASH_BIT_LENGTH];
          v = finalizePadding L v;
          state = (if va_state v = Pending
                   then if va_hashes v = [] \<and> hashesEqual (va_nodeHash v) rootHash then Valid else Invalid
                   else va_state v)
      in (state = Valid, va_cache v))"

definition isValidProof :: "'x hash_lib_scheme \<Rightarrow> SMTProof \<Rightarrow> int \<Rightarrow> bytes \<Rightarrow> bytes \<Rightarrow> bool" where
  "isValidProof L p index candidateHash rootHash =
     fst (smtValidate L (\<lambda>_ _ c. (Pending, c)) () p index candidateHash rootHash)"

text \<open>The batch keeps the partial proofs of the valid candidates so far, and the keys it added for the
  present one.\<close>

type_synonym batch_cache = "(int, PartialProof) jsmap \<times> int list"

definition batchMerge :: "int \<Rightarrow> PartialProof \<Rightarrow> batch_cache \<Rightarrow> ValidationState \<times> batch_cache" where
  "batchMerge nodeIndex partial c =
     (let (cache, added) = c in
      case jm_get cache nodeIndex of
        None \<Rightarrow> (Pending, jm_set nodeIndex partial cache, added @ [nodeIndex])
      | Some cached \<Rightarrow>
          (if hashesEqual (pp_hash partial) (pp_hash cached) \<and> pp_converge partial = pp_converge cached \<and>
              length (pp_hashes partial) = length (pp_hashes cached) \<and>
              list_all (\<lambda>(h, h'). hashesEqual h h') (zip (pp_hashes partial) (pp_hashes cached))
           then Valid else Invalid, cache, added))"

fun isValidBatch ::
  "'x hash_lib_scheme \<Rightarrow> bytes \<Rightarrow> (int \<times> bytes \<times> SMTProof) list \<Rightarrow> (int, PartialProof) jsmap \<Rightarrow> (int \<times> bool) list" where
  "isValidBatch L rootHash [] cache = []"
| "isValidBatch L rootHash ((index, hash, proof') # candidates) cache =
     (let (valid, cache, added) = smtValidate L batchMerge (cache, []) proof' (index OR OUTER_BIT) hash rootHash;
          cache = (if valid then cache else foldl (\<lambda>c k. jm_delete k c) cache added)
      in (index, valid) # isValidBatch L rootHash candidates cache)"

section \<open>The tree\<close>

record OptimizedSMT =
  os_allowNonInclusion :: bool
  os_root :: "smt_node option"
  os_rootHash :: "bytes option"
  os_proofs :: "(int, SMTProof) jsmap"

definition newOptimizedSMT :: "bool \<Rightarrow> OptimizedSMT" where
  "newOptimizedSMT allowNonInclusion =
     \<lparr>os_allowNonInclusion = allowNonInclusion, os_root = None, os_rootHash = None, os_proofs = []\<rparr>"

definition optimizedRootHash :: "OptimizedSMT \<Rightarrow> bytes result" where
  "optimizedRootHash t = (case os_rootHash t of None \<Rightarrow> range_error | Some h \<Rightarrow> Inr h)"

abbreviation finalized_error :: "error + 'a" where
  "finalized_error \<equiv> Inl (Error ''Error'' '''')"

text \<open>The loop of \<open>add\<close> from a node: past the array \<open>BITS\<close> the operator \<open>&\<close> throws.\<close>

function insertNode :: "int \<Rightarrow> int \<Rightarrow> nat \<Rightarrow> smt_node \<Rightarrow> smt_node result" where
  "insertNode index commonIndex commonDepth node =
     (if HASH_BIT_LENGTH < commonDepth then type_error
      else let indexBit = index AND BITS commonDepth; isLeft = (indexBit = 0)
      in if commonDepth = smt_depth node then
           (case node of
              LeafNode _ _ \<Rightarrow> range_error
            | ParentNode i d left right \<Rightarrow>
                if isLeft then rbind (insertNode index commonIndex commonDepth left) (\<lambda>n. Inr (ParentNode i d n right))
                else rbind (insertNode index commonIndex commonDepth right) (\<lambda>n. Inr (ParentNode i d left n)))
         else if smt_index node AND BITS commonDepth = indexBit
         then insertNode index (commonIndex OR indexBit) (Suc commonDepth) node
         else Inr (if isLeft then ParentNode commonIndex commonDepth (LeafNode index None) node
                   else ParentNode commonIndex commonDepth node (LeafNode index None)))"
  by pat_completeness auto
termination
  by (relation "measures [\<lambda>(_, _, d, _). Suc HASH_BIT_LENGTH - d, \<lambda>(_, _, _, n). size n]") auto

declare insertNode.simps [simp del]

fun addLoop :: "int list \<Rightarrow> smt_node option \<Rightarrow> smt_node option \<times> unit result" where
  "addLoop [] root = (root, Inr ())"
| "addLoop (index # indexes) root =
     (if index < 0 \<or> OUTER_BIT \<le> index then (root, range_error)
      else case root of
        None \<Rightarrow> addLoop indexes (Some (LeafNode index None))
      | Some node \<Rightarrow>
         (case insertNode index 0 0 node of
            Inl e \<Rightarrow> (root, Inl e)
          | Inr node \<Rightarrow> addLoop indexes (Some node)))"

definition addIndexes :: "int list \<Rightarrow> OptimizedSMT \<Rightarrow> OptimizedSMT \<times> unit result" where
  "addIndexes indexes t =
     (if os_rootHash t \<noteq> None then (t, finalized_error)
      else let (root, r) = addLoop indexes (os_root t) in (t\<lparr>os_root := root\<rparr>, r))"

fun setLeafHash :: "int \<Rightarrow> bytes \<Rightarrow> smt_node \<Rightarrow> smt_node result" where
  "setLeafHash index hash (LeafNode i h) =
     (if i \<noteq> index then range_error
      else if h \<noteq> None then range_error
      else Inr (LeafNode i (Some hash)))"
| "setLeafHash index hash (ParentNode i d left right) =
     (if index AND BITS d = 0 then rbind (setLeafHash index hash left) (\<lambda>n. Inr (ParentNode i d n right))
      else rbind (setLeafHash index hash right) (\<lambda>n. Inr (ParentNode i d left n)))"

definition setHash :: "int \<Rightarrow> bytes \<Rightarrow> OptimizedSMT \<Rightarrow> OptimizedSMT \<times> unit result" where
  "setHash index hash t =
     (if os_rootHash t \<noteq> None then (t, finalized_error)
      else case validateHash hash of
        Inl e \<Rightarrow> (t, Inl e)
      | Inr _ \<Rightarrow>
         (case os_root t of
            None \<Rightarrow> (t, range_error)
          | Some node \<Rightarrow>
             (case setLeafHash index hash node of
                Inl e \<Rightarrow> (t, Inl e)
              | Inr node \<Rightarrow> (t\<lparr>os_root := Some node\<rparr>, Inr ()))))"

text \<open>The padding of a node of index \<open>index\<close> that sits at depth \<open>hi\<close> instead of \<open>lo\<close>: the depths where
  the path goes right, ascending, and those where it goes left, descending.\<close>

definition leftPad :: "int \<Rightarrow> nat \<Rightarrow> nat \<Rightarrow> nat list" where
  "leftPad index lo hi = filter (\<lambda>i. index AND BITS i \<noteq> 0) [lo..<hi]"

definition rightPad :: "int \<Rightarrow> nat \<Rightarrow> nat \<Rightarrow> nat list" where
  "rightPad index lo hi = rev (filter (\<lambda>i. index AND BITS i = 0) [lo..<hi])"

definition padHash :: "'x hash_lib_scheme \<Rightarrow> int \<Rightarrow> nat \<Rightarrow> nat \<Rightarrow> bytes \<Rightarrow> bytes" where
  "padHash L index depth nodeDepth hash =
     (if nodeDepth \<noteq> depth
      then blockHash L [pad_bytes (leftPad index depth nodeDepth), hash, pad_bytes (rightPad index depth nodeDepth)]
      else hash)"

record step_result =
  sr_node :: smt_node
  sr_hash :: bytes
  sr_saveProofs :: "bytes list \<Rightarrow> (int \<times> SMTProof) list"

fun finalizeStep :: "'x hash_lib_scheme \<Rightarrow> bool \<Rightarrow> smt_node \<Rightarrow> int \<Rightarrow> nat \<Rightarrow> step_result result" where
  "finalizeStep L allow (LeafNode i h) parentConverge depth =
     (let converge = parentConverge OR BITS (HASH_BIT_LENGTH - depth)
      in if h = None \<and> \<not> allow then range_error
         else let hash = (case h of None \<Rightarrow> NULL_HASH | Some h \<Rightarrow> h)
           in Inr \<lparr>sr_node = LeafNode i (Some hash), sr_hash = padHash L i depth HASH_BIT_LENGTH hash,
                   sr_saveProofs = (\<lambda>hashes. [(i, \<lparr>pf_converge = converge, pf_hashes = hashes\<rparr>)])\<rparr>)"
| "finalizeStep L allow (ParentNode i d left right) parentConverge depth =
     (let converge = parentConverge OR BITS (HASH_BIT_LENGTH - depth)
      in rbind (finalizeStep L allow left converge (Suc d)) (\<lambda>l.
         rbind (finalizeStep L allow right converge (Suc d)) (\<lambda>r.
           Inr \<lparr>sr_node = ParentNode i d (sr_node l) (sr_node r),
                sr_hash = padHash L i depth d (blockHash L [sr_hash l, sr_hash r]),
                sr_saveProofs = (\<lambda>hashes. sr_saveProofs l (sr_hash r # hashes) @ sr_saveProofs r (sr_hash l # hashes))\<rparr>)))"

definition finalizeOptimized :: "'x hash_lib_scheme \<Rightarrow> OptimizedSMT \<Rightarrow> OptimizedSMT \<times> unit result" where
  "finalizeOptimized L t =
     (case os_root t of
        None \<Rightarrow> (t\<lparr>os_rootHash := Some NULL_HASH\<rparr>, Inr ())
      | Some node \<Rightarrow>
         (case finalizeStep L (os_allowNonInclusion t) node 0 0 of
            Inl e \<Rightarrow> (t, Inl e)
          | Inr s \<Rightarrow> (t\<lparr>os_root := Some (sr_node s), os_rootHash := Some (sr_hash s),
                        os_proofs := foldl (\<lambda>m (k, p). jm_set k p m) (os_proofs t) (sr_saveProofs s [])\<rparr>, Inr ())))"

definition optimizedProof :: "int \<Rightarrow> OptimizedSMT \<Rightarrow> SMTProof result" where
  "optimizedProof index t = (case jm_get (os_proofs t) index of None \<Rightarrow> range_error | Some p \<Rightarrow> Inr p)"

definition resetOptimized :: "OptimizedSMT \<Rightarrow> OptimizedSMT" where
  "resetOptimized t = t\<lparr>os_root := map_option resetNode (os_root t), os_rootHash := None, os_proofs := []\<rparr>"

section \<open>The encodings of a proof\<close>

text \<open>The object that \<open>toJSON\<close> prints and \<open>fromJSON\<close> parses: the two strings and the list.\<close>

definition proofToJSON :: "'x hash_lib_scheme \<Rightarrow> bool \<Rightarrow> SMTProof \<Rightarrow> (string \<times> string list) result" where
  "proofToJSON L base64 p =
     rbind (if base64 then bigIntToBase64 L (pf_converge p) False else Inr (bigIntToHex (pf_converge p) False)) (\<lambda>convergeStr.
     rbind (mapR (\<lambda>h. if base64 then hashToBase64 L h else hashToHex h) (pf_hashes p)) (\<lambda>hashStrs.
       Inr (convergeStr, hashStrs)))"

definition proofFromJSON :: "'x hash_lib_scheme \<Rightarrow> bool \<Rightarrow> string \<times> string list \<Rightarrow> SMTProof result" where
  "proofFromJSON L base64 raw =
     rbind (if base64 then base64ToBigInt L (fst raw) False else hexToBigInt (fst raw) False) (\<lambda>converge.
     rbind (mapR (\<lambda>h. if base64 then base64ToHash L h else hexToHash h) (snd raw)) (\<lambda>hashes.
       Inr \<lparr>pf_converge = converge, pf_hashes = hashes\<rparr>))"

text \<open>A number written into a byte array is taken modulo 256. The array is as long as its parts, so
  \<open>set\<close> does not throw when every hash has 32 bytes.\<close>

definition proofToBinary :: "SMTProof \<Rightarrow> bytes result" where
  "proofToBinary p = rbind (bigIntToHash (pf_converge p)) (\<lambda>convergeBin.
     let zc = length (takeWhile (\<lambda>b. b = 0) convergeBin)
     in Inr (word_of_nat zc # drop zc convergeBin @ word_of_nat (length (pf_hashes p)) # concat (pf_hashes p)))"

text \<open>\<open>readBytes\<close> takes from the iterator; the rest of the source is not read.\<close>

definition readBytes :: "nat \<Rightarrow> bytes \<Rightarrow> (bytes \<times> bytes) result" where
  "readBytes n bs = (if length bs < n then Inl (Error ''Error'' '''') else Inr (take n bs, drop n bs))"

fun readHashes :: "nat \<Rightarrow> bytes \<Rightarrow> bytes list result" where
  "readHashes 0 bs = Inr []"
| "readHashes (Suc n) bs = rbind (readBytes HASH_BYTE_LENGTH bs) (\<lambda>(h, bs).
     rbind (readHashes n bs) (\<lambda>hs. Inr (h # hs)))"

definition proofFromBinary :: "bytes \<Rightarrow> SMTProof result" where
  "proofFromBinary source =
     rbind (readBytes 1 source) (\<lambda>(z, bs).
       let zc = unat (hd z)
       in if zc > HASH_BYTE_LENGTH then range_error
          else rbind (readBytes (HASH_BYTE_LENGTH - zc) bs) (\<lambda>(c, bs).
          rbind (readBytes 1 bs) (\<lambda>(n, bs).
          rbind (readHashes (unat (hd n)) bs) (\<lambda>hashes.
          rbind (hashToBigInt (replicate zc 0 @ c)) (\<lambda>converge.
            Inr \<lparr>pf_converge = converge, pf_hashes = hashes\<rparr>)))))"

lemma readHashes_concat:
  "n \<le> length hs \<Longrightarrow> \<forall>h \<in> set hs. isValidHash h \<Longrightarrow> readHashes n (concat hs @ rest) = Inr (take n hs)"
proof (induction n arbitrary: hs)
  case (Suc n)
  then obtain h hs' where "hs = h # hs'" by (cases hs) auto
  with Suc show ?case by (simp add: readBytes_def isValidHash_def)
qed simp

text \<open>The binary form of a proof is read back, up to the number of hashes modulo 256.\<close>

lemma proof_binary_roundtrip:
  assumes "0 \<le> pf_converge p" "pf_converge p < 2 ^ 256" "\<forall>h \<in> set (pf_hashes p). isValidHash h"
  shows "rbind (proofToBinary p) proofFromBinary =
    Inr \<lparr>pf_converge = pf_converge p, pf_hashes = take (length (pf_hashes p) mod 256) (pf_hashes p)\<rparr>"
proof -
  obtain h where h: "bigIntToHash (pf_converge p) = Inr h" "isValidHash h" "bytes_to_bigint h = pf_converge p"
    using bigIntToHash_Inr [OF assms(1,2)] by blast
  let ?z = "takeWhile (\<lambda>b. b = 0) h"
  have z: "length ?z \<le> HASH_BYTE_LENGTH" using h(2) length_takeWhile_le [of "\<lambda>b. b = 0" h] by (simp add: isValidHash_def)
  then have u: "unat (word_of_nat (length ?z) :: byte) = length ?z"
    by (simp add: HASH_BYTE_LENGTH_def unat_of_nat)
  have "replicate (length ?z) 0 = ?z" by (rule replicate_length_same) (auto dest: set_takeWhileD)
  then have split: "replicate (length ?z) 0 @ drop (length ?z) h = h"
    by (simp only: takeWhile_eq_take [symmetric] append_take_drop_id) (simp add: dropWhile_eq_drop [symmetric])
  have d: "length (drop (length ?z) h) = HASH_BYTE_LENGTH - length ?z" using h(2) by (simp add: isValidHash_def)
  have n: "unat (word_of_nat (length (pf_hashes p)) :: byte) = length (pf_hashes p) mod 256" by (simp add: unat_of_nat)
  have r: "readHashes (length (pf_hashes p) mod 256) (concat (pf_hashes p)) = Inr (take (length (pf_hashes p) mod 256) (pf_hashes p))"
    using readHashes_concat [OF _ assms(3), of _ "[]"] by simp
  let ?c = "drop (length ?z) h" and ?hs = "pf_hashes p" and ?n = "word_of_nat (length (pf_hashes p)) :: byte"
  have bin: "proofToBinary p = Inr (word_of_nat (length ?z) # ?c @ ?n # concat ?hs)"
    by (simp add: proofToBinary_def h(1) Let_def)
  have reads: "readBytes 1 (b # bs) = Inr ([b], bs)" "readBytes (HASH_BYTE_LENGTH - length ?z) (?c @ bs) = Inr (?c, bs)" for b bs
    using d by (simp_all add: readBytes_def)
  have big: "hashToBigInt (replicate (length ?z) 0 @ ?c) = Inr (pf_converge p)"
    unfolding split using h(2,3) by (simp add: hashToBigInt_def validateHash_valid)
  show ?thesis unfolding bin rbind_simps proofFromBinary_def reads Let_def split_conv list.sel u n r big
    by (rule if_not_P) (simp only: not_less z)
qed

lemma mapR_inverse: "\<forall>x \<in> set xs. rbind (f x) g = Inr x \<Longrightarrow> rbind (mapR f xs) (mapR g) = Inr xs"
  by (induction xs) (auto simp: rbind_def split: sum.splits)

text \<open>So is the JSON form, in both encodings.\<close>

lemma proof_json_roundtrip:
  assumes "base64_ok L" "0 \<le> pf_converge p" "pf_converge p < 2 ^ 256" "\<forall>h \<in> set (pf_hashes p). isValidHash h"
  shows "rbind (proofToJSON L base64 p) (proofFromJSON L base64) = Inr p"
proof -
  define enc where "enc h = (if base64 then hashToBase64 L h else hashToHex h)" for h
  define dec where "dec s = (if base64 then base64ToHash L s else hexToHash s)" for s
  have "rbind (enc h) dec = Inr h" if "isValidHash h" for h
    using hashToBase64_roundtrip [of L h] hexToHash_hashToHex [of h] assms(1) that by (cases base64) (simp_all add: enc_def dec_def [abs_def])
  then have "rbind (mapR enc (pf_hashes p)) (mapR dec) = Inr (pf_hashes p)" using assms(4) by (intro mapR_inverse) simp
  then obtain ss where "mapR enc (pf_hashes p) = Inr ss" "mapR dec ss = Inr (pf_hashes p)" by (auto simp: rbind_Inr_iff)
  moreover have "rbind (if base64 then bigIntToBase64 L (pf_converge p) False else Inr (bigIntToHex (pf_converge p) False))
      (\<lambda>s. if base64 then base64ToBigInt L s False else hexToBigInt s False) = Inr (pf_converge p)"
    using base64ToBigInt_bigIntToBase64 [OF assms(1-3)] hexToBigInt_bigIntToHex [OF assms(2,3)] by (cases base64) simp_all
  ultimately show ?thesis
    by (auto simp: proofToJSON_def proofFromJSON_def rbind_Inr_iff simp flip: enc_def dec_def)
qed

end
