(* ===== verification/SmtOptimizedProps.thy ===== *)
theory SmtOptimizedProps
  imports SmtOptimized SmtTree "HOL-Library.Multiset"
begin

text \<open>
  The collapsed tree against a reference: its root is the hash of the sorted leaves by a recursion on
  the levels that knows no nodes, whatever the order of the insertions, and every proof it makes
  verifies. The invariant \<open>smt_wf\<close> is that of a radix tree.
\<close>

unbundle bit_operations_syntax

section \<open>Directions\<close>

text \<open>The direction of an index at a depth, and indexes that go the same way.\<close>

definition dir :: "int \<Rightarrow> nat \<Rightarrow> bool" where "dir x d \<longleftrightarrow> x AND BITS d \<noteq> 0"

definition agree :: "int \<Rightarrow> int \<Rightarrow> nat \<Rightarrow> bool" where "agree x y n \<longleftrightarrow> (\<forall>k<n. dir x k = dir y k)"

lemma dir_bit: "dir x d \<longleftrightarrow> d < HASH_BIT_LENGTH \<and> bit x (HASH_BIT_LENGTH - 1 - d)"
  by (simp add: dir_def BITS_def and_exp_eq_0_iff_not_bit)

lemma agree_simps [simp]: "agree x y 0" "agree x x n" "agree x y (Suc n) \<longleftrightarrow> agree x y n \<and> dir x n = dir y n"
  by (auto simp: agree_def less_Suc_eq)

lemma agree_sym: "agree x y n \<Longrightarrow> agree y x n"
  by (simp add: agree_def)

lemma agree_trans: "agree x y n \<Longrightarrow> agree y z n \<Longrightarrow> agree x z n"
  by (simp add: agree_def)

lemma agree_mono: "agree x y n \<Longrightarrow> m \<le> n \<Longrightarrow> agree x y m"
  by (simp add: agree_def)

definition in_range :: "int \<Rightarrow> bool" where "in_range x \<longleftrightarrow> 0 \<le> x \<and> x < OUTER_BIT"

lemma in_range_bit: "in_range x \<Longrightarrow> HASH_BIT_LENGTH \<le> n \<Longrightarrow> \<not> bit x n"
proof -
  assume x: "in_range x" and n: "HASH_BIT_LENGTH \<le> n"
  have "(2 :: int) ^ HASH_BIT_LENGTH \<le> 2 ^ n" using n by simp
  then have "x < 2 ^ n" using x unfolding in_range_def OUTER_BIT_def by linarith
  then show ?thesis using x by (simp add: bit_iff_odd in_range_def div_pos_pos_trivial)
qed

lemma agree_eq:
  assumes "in_range x" "in_range y" "agree x y HASH_BIT_LENGTH"
  shows "x = y"
proof (rule bit_eqI)
  fix n
  show "bit x n \<longleftrightarrow> bit y n"
  proof (cases "n < HASH_BIT_LENGTH")
    case True
    then have "HASH_BIT_LENGTH - 1 - n < HASH_BIT_LENGTH" "HASH_BIT_LENGTH - 1 - (HASH_BIT_LENGTH - 1 - n) = n" by simp_all
    then show ?thesis using assms(3) unfolding agree_def dir_bit by metis
  qed (use in_range_bit assms in auto)
qed

text \<open>An index that first differs by going left is the smaller one.\<close>

lemma dir_less:
  assumes "in_range x" "in_range y" "agree x y d" "\<not> dir x d" "dir y d"
  shows "x < y"
proof -
  let ?k = "HASH_BIT_LENGTH - 1 - d"
  have d: "d < HASH_BIT_LENGTH" "\<not> bit x ?k" "bit y ?k" using assms(4,5) by (auto simp: dir_bit)
  have "drop_bit (Suc ?k) x = drop_bit (Suc ?k) y"
  proof (rule bit_eqI)
    fix n
    show "bit (drop_bit (Suc ?k) x) n \<longleftrightarrow> bit (drop_bit (Suc ?k) y) n"
    proof (cases "Suc ?k + n < HASH_BIT_LENGTH")
      case True
      let ?j = "HASH_BIT_LENGTH - 1 - (Suc ?k + n)"
      have "?j < d" "HASH_BIT_LENGTH - 1 - ?j = Suc ?k + n" "?j < HASH_BIT_LENGTH" using True d(1) by simp_all
      then show ?thesis using assms(3) unfolding agree_def dir_bit bit_drop_bit_eq comp_def by metis
    next
      case False
      then show ?thesis using in_range_bit [OF assms(1)] in_range_bit [OF assms(2)] by (simp add: bit_drop_bit_eq)
    qed
  qed
  then have "drop_bit 1 (drop_bit ?k x) = drop_bit 1 (drop_bit ?k y)" by (simp add: drop_bit_drop_bit)
  then have hi: "x div 2 ^ ?k div 2 = y div 2 ^ ?k div 2" by (simp add: drop_bit_eq_div)
  have "even (x div 2 ^ ?k)" "odd (y div 2 ^ ?k)" using d by (simp_all add: bit_iff_odd)
  with hi have "x div 2 ^ ?k < y div 2 ^ ?k" by (elim evenE oddE) simp
  then show ?thesis using zdiv_mono1 [of y x "2 ^ ?k"] by (metis linorder_not_less zero_less_numeral zero_less_power)
qed

section \<open>The invariant\<close>

fun leavesOf :: "smt_node \<Rightarrow> (int \<times> bytes option) list" where
  "leavesOf (LeafNode i h) = [(i, h)]"
| "leavesOf (ParentNode i d l r) = leavesOf l @ leavesOf r"

abbreviation indexesOf :: "smt_node \<Rightarrow> int set" where "indexesOf n \<equiv> fst ` set (leavesOf n)"

text \<open>A node below depth \<open>d\<close>: its leaves agree above its own depth and are parted there.\<close>

fun smt_wf :: "nat \<Rightarrow> smt_node \<Rightarrow> bool" where
  "smt_wf d (LeafNode i h) \<longleftrightarrow> in_range i \<and> d \<le> HASH_BIT_LENGTH"
| "smt_wf d (ParentNode i e l r) \<longleftrightarrow> d \<le> e \<and> e < HASH_BIT_LENGTH \<and> smt_wf (Suc e) l \<and> smt_wf (Suc e) r \<and>
     (\<forall>x \<in> indexesOf l. agree x i e \<and> \<not> dir x e) \<and> (\<forall>x \<in> indexesOf r. agree x i e \<and> dir x e)"

text \<open>All indexes of a set go one way below a common prefix.\<close>

definition one_way :: "bool \<Rightarrow> int \<Rightarrow> nat \<Rightarrow> int set \<Rightarrow> bool" where
  "one_way b i e X \<longleftrightarrow> (\<forall>x \<in> X. agree x i e \<and> dir x e = b)"

lemma one_wayD: "one_way b i e X \<Longrightarrow> x \<in> X \<Longrightarrow> dir x e = b"
  by (simp add: one_way_def)

lemma wf_parent:
  "smt_wf d (ParentNode i e l r) \<longleftrightarrow> d \<le> e \<and> e < HASH_BIT_LENGTH \<and> smt_wf (Suc e) l \<and> smt_wf (Suc e) r \<and>
     one_way False i e (indexesOf l) \<and> one_way True i e (indexesOf r)"
  by (simp add: one_way_def)

lemma leavesOf_nonempty [simp]: "leavesOf n \<noteq> []"
  by (induction n) auto

lemma wf_depth: "smt_wf d n \<Longrightarrow> d \<le> smt_depth n \<and> smt_depth n \<le> HASH_BIT_LENGTH"
  by (cases n) auto

lemma wf_raise: "smt_wf d n \<Longrightarrow> d' \<le> smt_depth n \<Longrightarrow> smt_wf d' n"
  by (cases n) auto

lemma wf_range: "smt_wf d n \<Longrightarrow> x \<in> indexesOf n \<Longrightarrow> in_range x"
  by (induction n arbitrary: d) (auto simp: image_iff)

lemma wf_agree: "smt_wf d n \<Longrightarrow> x \<in> indexesOf n \<Longrightarrow> agree x (smt_index n) (smt_depth n)"
  by (cases n) auto

lemma wf_sorted: "smt_wf d n \<Longrightarrow> sorted_wrt (<) (map fst (leavesOf n))"
proof (induction n arbitrary: d)
  case (ParentNode i e l r)
  have "x < y" if "x \<in> indexesOf l" "y \<in> indexesOf r" for x y
  proof (rule dir_less)
    show "in_range x" "in_range y" using ParentNode.prems wf_range that by auto
    show "agree x y e" using ParentNode.prems that agree_trans [OF _ agree_sym] by (meson smt_wf.simps(2))
  qed (use ParentNode.prems that in auto)
  with ParentNode show ?case by (auto simp: sorted_wrt_append)
qed simp

lemma some_index:
  obtains x where "x \<in> indexesOf n"
  using leavesOf_nonempty [of n] by (cases "leavesOf n") auto

section \<open>Insertion\<close>

lemma same_dir: "dir x d = dir y d \<Longrightarrow> x AND BITS d = y AND BITS d"
  by (rule bit_eqI) (auto simp: dir_bit bit_and_iff BITS_def bit_exp_iff)

lemma dir_or:
  "k < HASH_BIT_LENGTH \<Longrightarrow> dir (c OR (index AND BITS d)) k \<longleftrightarrow> dir c k \<or> k = d \<and> dir index d"
  by (auto simp: dir_bit bit_or_iff bit_and_iff BITS_def bit_exp_iff)

lemma inserted:
  assumes "smt_wf m n" "d \<le> smt_depth n" "in_range index" "\<forall>x \<in> indexesOf n. agree x index d \<and> agree x index m"
    "agree c index d" "\<forall>k. d \<le> k \<longrightarrow> k < HASH_BIT_LENGTH \<longrightarrow> \<not> dir c k"
  shows "if index \<in> indexesOf n then insertNode index c d n = range_error
    else \<exists>n'. insertNode index c d n = Inr n' \<and> smt_wf m n' \<and> set (leavesOf n') = insert (index, None) (set (leavesOf n))"
  using assms
proof (induction index c d n arbitrary: m rule: insertNode.induct)
  case (1 index c d n)
  have d: "d \<le> HASH_BIT_LENGTH" using wf_depth [OF "1.prems"(1)] "1.prems"(2) by simp
  show ?case
  proof (cases "d = smt_depth n")
    case True
    show ?thesis
    proof (cases n)
      case (LeafNode i h)
      then have "i = index" using "1.prems"(1,3,4) True by (intro agree_eq) simp_all
      then show ?thesis using LeafNode True d insertNode.simps [of index c d n] by simp
    next
      case (ParentNode i e l r)
      then have e: "d = e" "e < HASH_BIT_LENGTH" using "1.prems"(1) True by simp_all
      note wf = "1.prems"(1) [unfolded ParentNode smt_wf.simps]
      have i: "agree index i e"
      proof -
        obtain x where x: "x \<in> indexesOf l" by (rule some_index)
        then have "agree x i e" "agree x index e" using wf "1.prems"(4) e(1) ParentNode by auto
        then show ?thesis by (rule agree_trans [OF agree_sym, rotated])
      qed
      show ?thesis
      proof (cases "dir index e")
        case False
        have pre: "smt_wf (Suc e) l" "e \<le> smt_depth l" "\<forall>x \<in> indexesOf l. agree x index e \<and> agree x index (Suc e)"
          using wf "1.prems"(4) wf_depth [of "Suc e" l] e ParentNode False by (auto simp: image_Un)
        have "index \<notin> indexesOf r" using wf False by auto
        moreover have "insertNode index c d n = rbind (insertNode index c d l) (\<lambda>l. Inr (ParentNode i e l r))"
          using False e d ParentNode insertNode.simps [of index c d n] by (simp add: dir_def)
        moreover note IH = "1.IH"(1) [OF _ refl refl True ParentNode, of "Suc e"]
        have "if index \<in> indexesOf l then insertNode index c d l = range_error
            else \<exists>n'. insertNode index c d l = Inr n' \<and> smt_wf (Suc e) n' \<and> set (leavesOf n') = insert (index, None) (set (leavesOf l))"
          using IH pre "1.prems"(3,5,6) False d e by (simp add: dir_def)
        ultimately show ?thesis using wf ParentNode False i by (auto split: if_splits)
      next
        case True
        have pre: "smt_wf (Suc e) r" "e \<le> smt_depth r" "\<forall>x \<in> indexesOf r. agree x index e \<and> agree x index (Suc e)"
          using wf "1.prems"(4) wf_depth [of "Suc e" r] e ParentNode True by (auto simp: image_Un)
        have "index \<notin> indexesOf l" using wf True by auto
        moreover have "insertNode index c d n = rbind (insertNode index c d r) (\<lambda>r. Inr (ParentNode i e l r))"
          using True e d ParentNode insertNode.simps [of index c d n] by (simp add: dir_def)
        moreover note IH = "1.IH"(2) [OF _ refl refl \<open>d = smt_depth n\<close> ParentNode, of "Suc e"]
        have "if index \<in> indexesOf r then insertNode index c d r = range_error
            else \<exists>n'. insertNode index c d r = Inr n' \<and> smt_wf (Suc e) n' \<and> set (leavesOf n') = insert (index, None) (set (leavesOf r))"
          using IH pre "1.prems"(3,5,6) True d e by (simp add: dir_def)
        ultimately show ?thesis using wf ParentNode True i by (auto split: if_splits)
      qed
    qed
  next
    case False
    then have lt: "d < smt_depth n" "d < HASH_BIT_LENGTH" using "1.prems"(2) wf_depth [OF "1.prems"(1)] by simp_all
    have node: "dir x d = dir (smt_index n) d" if "x \<in> indexesOf n" for x
      using wf_agree [OF "1.prems"(1) that] lt by (simp add: agree_def)
    show ?thesis
    proof (cases "smt_index n AND BITS d = index AND BITS d")
      case True
      then have "dir (smt_index n) d = dir index d" by (simp add: dir_def)
      then have "\<forall>x \<in> indexesOf n. agree x index (Suc d) \<and> agree x index m" using node "1.prems"(4) by simp
      moreover have "agree (c OR (index AND BITS d)) index (Suc d)"
        unfolding agree_def using "1.prems"(5,6) lt(2) by (auto simp: dir_or agree_def less_Suc_eq)
      moreover have "\<forall>k. Suc d \<le> k \<longrightarrow> k < HASH_BIT_LENGTH \<longrightarrow> \<not> dir (c OR (index AND BITS d)) k"
        using "1.prems"(6) by (auto simp: dir_or)
      moreover have "insertNode index c d n = insertNode index (c OR (index AND BITS d)) (Suc d) n"
        using True False d insertNode.simps [of index c d n] by simp
      ultimately show ?thesis
        using "1.IH"(3) [OF _ refl refl False, of m] "1.prems"(1,3) True d lt by simp
    next
      case diff: False
      then have ne: "dir (smt_index n) d \<noteq> dir index d" using same_dir by blast
      then have "index \<notin> indexesOf n" using node by blast
      moreover have wf: "smt_wf (Suc d) n" using wf_raise [OF "1.prems"(1)] lt by simp
      moreover have m: "m \<le> d"
      proof (rule ccontr)
        assume "\<not> m \<le> d"
        obtain x where x: "x \<in> indexesOf n" by (rule some_index)
        then have "agree x index m" using "1.prems"(4) by blast
        with \<open>\<not> m \<le> d\<close> have "dir x d = dir index d" by (simp add: agree_def)
        with node [OF x] ne show False by simp
      qed
      moreover have "insertNode index c d n = Inr (if dir index d then ParentNode c d n (LeafNode index None)
          else ParentNode c d (LeafNode index None) n)"
        using diff False d insertNode.simps [of index c d n] by (simp add: dir_def)
      moreover have "agree index c d" using "1.prems"(5) by (rule agree_sym)
      moreover from this "1.prems"(4) have "\<forall>x \<in> indexesOf n. agree x c d" by (auto intro: agree_trans)
      ultimately show ?thesis using lt(2) "1.prems"(3) node ne by auto
    qed
  qed
qed

section \<open>Building\<close>

definition root_ok :: "smt_node option \<Rightarrow> (int \<times> bytes option) set \<Rightarrow> bool" where
  "root_ok root S \<longleftrightarrow> (case root of None \<Rightarrow> S = {} | Some n \<Rightarrow> smt_wf 0 n \<and> set (leavesOf n) = S)"

lemma root_insert:
  assumes "smt_wf 0 n" "in_range i" "i \<notin> indexesOf n"
  shows "\<exists>n'. insertNode i 0 0 n = Inr n' \<and> smt_wf 0 n' \<and> set (leavesOf n') = insert (i, None) (set (leavesOf n))"
  using inserted [OF assms(1) _ assms(2), of 0 0] assms(3) by (simp add: dir_bit)

lemma added:
  assumes "root_ok root S" "distinct is" "\<forall>i \<in> set is. in_range i" "set is \<inter> fst ` S = {}"
  shows "\<exists>root'. addLoop is root = (root', Inr ()) \<and> root_ok root' (S \<union> (\<lambda>i. (i, None)) ` set is)"
  using assms
proof (induction "is" arbitrary: root S)
  case (Cons i "is")
  have i: "\<not> (i < 0 \<or> OUTER_BIT \<le> i)" using Cons.prems(3) by (simp add: in_range_def)
  obtain root' where step: "addLoop (i # is) root = addLoop is (Some root')" "root_ok (Some root') (insert (i, None) S)"
  proof (cases root)
    case None
    then show ?thesis using that [of "LeafNode i None"] Cons.prems(1,3) i by (simp add: root_ok_def)
  next
    case (Some n)
    then have "smt_wf 0 n" "i \<notin> indexesOf n" using Cons.prems(1,4) by (auto simp: root_ok_def)
    from root_insert [OF this(1) _ this(2)] Cons.prems(3) obtain n' where
      "insertNode i 0 0 n = Inr n'" "smt_wf 0 n'" "set (leavesOf n') = insert (i, None) (set (leavesOf n))" by auto
    then show ?thesis using that [of n'] Cons.prems(1) Some i by (simp add: root_ok_def)
  qed
  from Cons.IH [OF step(2)] Cons.prems(2-4) obtain r where
    "addLoop is (Some root') = (r, Inr ())" "root_ok r (insert (i, None) S \<union> (\<lambda>i. (i, None)) ` set is)" by auto
  then show ?case using step(1) by auto
qed simp

text \<open>A duplicate index throws.\<close>

lemma duplicate_throws:
  assumes "root_ok (Some n) S" "in_range i" "i \<in> fst ` S"
  shows "addLoop (i # is) (Some n) = (Some n, range_error)"
  using inserted [of 0 n 0 i 0] assms by (simp add: root_ok_def in_range_def dir_bit)

definition set_leaf :: "int \<Rightarrow> bytes \<Rightarrow> int \<times> bytes option \<Rightarrow> int \<times> bytes option" where
  "set_leaf i hash e = (if fst e = i then (i, Some hash) else e)"

lemma set_leaf_other: "i \<notin> fst ` set es \<Longrightarrow> map (set_leaf i hash) es = es"
  by (induction es) (auto simp: set_leaf_def)

lemma fst_set_leaf [simp]: "map fst (map (set_leaf i hash) es) = map fst es" "fst (set_leaf i hash e) = fst e"
  by (auto simp: set_leaf_def)

lemma hash_set:
  assumes "smt_wf d n" "(i, None) \<in> set (leavesOf n)"
  shows "\<exists>n'. setLeafHash i hash n = Inr n' \<and> smt_wf d n' \<and> leavesOf n' = map (set_leaf i hash) (leavesOf n)"
  using assms
proof (induction n arbitrary: d)
  case (ParentNode j e l r)
  have idx: "fst ` set (map (set_leaf i hash) es) = fst ` set es" for es :: "(int \<times> bytes option) list"
    by (simp add: image_image)
  from ParentNode.prems(1) have wf: "smt_wf (Suc e) l" "smt_wf (Suc e) r"
    and way: "one_way False j e (indexesOf l)" "one_way True j e (indexesOf r)"
    unfolding wf_parent by simp_all
  have side: "x \<in> indexesOf l \<Longrightarrow> \<not> dir x e" "x \<in> indexesOf r \<Longrightarrow> dir x e" for x
    using one_wayD [OF way(1)] one_wayD [OF way(2)] by simp_all
  show ?case
  proof (cases "(i, None) \<in> set (leavesOf l)")
    case True
    then have i: "i \<in> indexesOf l" by force
    from side(1) [OF i] side(2) have n: "\<not> dir i e" "i \<notin> indexesOf r" by blast+
    obtain l' where l: "setLeafHash i hash l = Inr l'" "smt_wf (Suc e) l'" "leavesOf l' = map (set_leaf i hash) (leavesOf l)"
      using ParentNode.IH(1) [OF wf(1) True] by blast
    have "indexesOf l' = indexesOf l" unfolding l(3) by (rule idx)
    then have "smt_wf d (ParentNode j e l' r)" using ParentNode.prems(1) l(2) by (simp only: wf_parent simp_thms)
    moreover have "setLeafHash i hash (ParentNode j e l r) = Inr (ParentNode j e l' r)" using n(1) l(1) by (simp add: dir_def)
    ultimately show ?thesis using l(3) set_leaf_other [OF n(2)] by simp
  next
    case False
    then have r: "(i, None) \<in> set (leavesOf r)" using ParentNode.prems(2) by simp
    then have i: "i \<in> indexesOf r" by force
    from side(2) [OF i] side(1) have n: "dir i e" "i \<notin> indexesOf l" by blast+
    obtain r' where r: "setLeafHash i hash r = Inr r'" "smt_wf (Suc e) r'" "leavesOf r' = map (set_leaf i hash) (leavesOf r)"
      using ParentNode.IH(2) [OF wf(2) r] by blast
    have "indexesOf r' = indexesOf r" unfolding r(3) by (rule idx)
    then have "smt_wf d (ParentNode j e l r')" using ParentNode.prems(1) r(2) by (simp only: wf_parent simp_thms)
    moreover have "setLeafHash i hash (ParentNode j e l r) = Inr (ParentNode j e l r')" using n(1) r(1) by (simp add: dir_def)
    ultimately show ?thesis using r(3) set_leaf_other [OF n(2)] by simp
  qed
qed (auto simp: set_leaf_def)

section \<open>The reference\<close>

text \<open>
  The hash of the subtree below a depth, by the levels: a level that all leaves pass on one side is
  skipped, and a hash that comes from deeper down than the level it is used at is padded with the
  directions of the levels between. \<open>collapsed L k ls\<close> is the depth of the first branching at or below
  depth \<open>256 - k\<close> and the hash there.
\<close>

fun collapsed :: "'x hash_lib_scheme \<Rightarrow> nat \<Rightarrow> (int \<times> bytes) list \<Rightarrow> nat \<times> bytes" where
  "collapsed L 0 ls = (HASH_BIT_LENGTH, snd (hd ls))"
| "collapsed L (Suc k) ls =
     (let d = HASH_BIT_LENGTH - Suc k;
          left = filter (\<lambda>(i, _). \<not> dir i d) ls; right = filter (\<lambda>(i, _). dir i d) ls
      in if left = [] \<or> right = [] then collapsed L k ls
         else (d, blockHash L
                 [case collapsed L k left of (e, h) \<Rightarrow> padHash L (fst (hd left)) (Suc d) e h,
                  case collapsed L k right of (e, h) \<Rightarrow> padHash L (fst (hd right)) (Suc d) e h]))"

definition collapsedAt :: "'x hash_lib_scheme \<Rightarrow> nat \<Rightarrow> (int \<times> bytes) list \<Rightarrow> bytes" where
  "collapsedAt L d ls = (case collapsed L (HASH_BIT_LENGTH - d) ls of (e, h) \<Rightarrow> padHash L (fst (hd ls)) d e h)"

definition collapsedRoot :: "'x hash_lib_scheme \<Rightarrow> (int \<times> bytes) list \<Rightarrow> bytes" where
  "collapsedRoot L kvs = collapsedAt L 0 (sort_key fst kvs)"

lemma padHash_cong: "agree x y e \<Longrightarrow> padHash L x d e h = padHash L y d e h"
proof -
  assume "agree x y e"
  then have "leftPad x d e = leftPad y d e" "rightPad x d e = rightPad y d e"
    by (auto simp: leftPad_def rightPad_def agree_def dir_def intro!: filter_cong)
  then show ?thesis by (simp add: padHash_def)
qed

lemma collapsed_skip:
  assumes "d \<le> e" "e \<le> HASH_BIT_LENGTH" "\<forall>(i, h) \<in> set ls. agree i x e" "ls \<noteq> []"
  shows "collapsed L (HASH_BIT_LENGTH - d) ls = collapsed L (HASH_BIT_LENGTH - e) ls"
  using assms
proof (induction "e - d" arbitrary: d)
  case (Suc m)
  then have d: "d < e" "HASH_BIT_LENGTH - d = Suc (HASH_BIT_LENGTH - Suc d)" by simp_all
  have "filter (\<lambda>(i, _). \<not> dir i d) ls = [] \<or> filter (\<lambda>(i, _). dir i d) ls = []"
    using Suc.prems(3) d(1) by (cases "dir x d") (auto simp: filter_empty_conv agree_def)
  then have "collapsed L (HASH_BIT_LENGTH - d) ls = collapsed L (HASH_BIT_LENGTH - Suc d) ls"
    unfolding d(2) by (simp only: collapsed.simps Let_def) (use d Suc.prems(2) in auto)
  with Suc show ?case by (metis Suc_leI d(1) diff_Suc_Suc diff_Suc_eq_diff_pred minus_nat.diff_0 nat.inject old.nat.exhaust Suc_diff_Suc)
qed simp

text \<open>The hash that \<open>#finalizeStep\<close> computes is that of the reference.\<close>

definition filled :: "(int \<times> bytes option) list \<Rightarrow> (int \<times> bytes) list" where
  "filled es = map (\<lambda>(i, h). (i, case h of None \<Rightarrow> NULL_HASH | Some h \<Rightarrow> h)) es"

lemma filled_simps [simp]: "filled (es @ fs) = filled es @ filled fs" "filled es = [] \<longleftrightarrow> es = []"
  "fst ` set (filled es) = fst ` set es" "map fst (filled es) = map fst es"
proof -
  show f: "map fst (filled es) = map fst es" by (auto simp: filled_def)
  then show "fst ` set (filled es) = fst ` set es" by (metis set_map)
qed (auto simp: filled_def)

lemma filter_filled:
  assumes "one_way b i e (fst ` set es)"
  shows "filter (\<lambda>(i, _). \<not> dir i e) (filled es) = (if b then [] else filled es)"
    "filter (\<lambda>(i, _). dir i e) (filled es) = (if b then filled es else [])"
  using assms by (auto simp: one_way_def filled_def filter_id_conv filter_empty_conv)

lemma finalized_children:
  assumes "finalizeStep L allow (ParentNode i e l r) pc d = Inr s"
  obtains sl sr where "finalizeStep L allow l (pc OR BITS (HASH_BIT_LENGTH - d)) (Suc e) = Inr sl"
    "finalizeStep L allow r (pc OR BITS (HASH_BIT_LENGTH - d)) (Suc e) = Inr sr"
    "s = \<lparr>sr_node = ParentNode i e (sr_node sl) (sr_node sr), sr_hash = padHash L i d e (blockHash L [sr_hash sl, sr_hash sr]),
          sr_saveProofs = (\<lambda>hashes. sr_saveProofs sl (sr_hash sr # hashes) @ sr_saveProofs sr (sr_hash sl # hashes))\<rparr>"
proof -
  let ?pc = "pc OR BITS (HASH_BIT_LENGTH - d)"
  from assms obtain sl where l: "finalizeStep L allow l ?pc (Suc e) = Inr sl"
    by (cases "finalizeStep L allow l ?pc (Suc e)") (simp_all add: Let_def)
  with assms obtain sr where r: "finalizeStep L allow r ?pc (Suc e) = Inr sr"
    by (cases "finalizeStep L allow r ?pc (Suc e)") (simp_all add: Let_def)
  from assms that [OF l r] l r show thesis by (auto simp: Let_def)
qed

lemma finalized_hash:
  assumes "smt_wf d n" "finalizeStep L allow n pc d = Inr s"
  shows "sr_hash s = collapsedAt L d (filled (leavesOf n)) \<and> leavesOf (sr_node s) = map (\<lambda>(i, h). (i, Some h)) (filled (leavesOf n))"
  using assms
proof (induction n arbitrary: d pc s)
  case (LeafNode i h)
  have leaf: "collapsed L k [(i, g)] = (HASH_BIT_LENGTH, g)" for k g by (induction k) (auto simp: Let_def)
  let ?g = "case h of None \<Rightarrow> NULL_HASH | Some h \<Rightarrow> h"
  have "sr_hash s = padHash L i d HASH_BIT_LENGTH ?g" "sr_node s = LeafNode i (Some ?g)"
    using LeafNode.prems(2) by (auto simp: Let_def split: if_splits)
  then show ?case by (simp add: collapsedAt_def filled_def leaf)
next
  case (ParentNode i e l r)
  note wf = ParentNode.prems(1) [unfolded smt_wf.simps]
  let ?l = "filled (leavesOf l)" and ?r = "filled (leavesOf r)"
  obtain sl sr pc' where s: "finalizeStep L allow l pc' (Suc e) = Inr sl" "finalizeStep L allow r pc' (Suc e) = Inr sr"
    "sr_node s = ParentNode i e (sr_node sl) (sr_node sr)" "sr_hash s = padHash L i d e (blockHash L [sr_hash sl, sr_hash sr])"
    using ParentNode.prems(2) by (rule finalized_children) (simp add: that)
  have IH: "sr_hash sl = collapsedAt L (Suc e) ?l" "sr_hash sr = collapsedAt L (Suc e) ?r"
    "leavesOf (sr_node sl) = map (\<lambda>(i, h). (i, Some h)) ?l" "leavesOf (sr_node sr) = map (\<lambda>(i, h). (i, Some h)) ?r"
    using ParentNode.IH(1) [OF _ s(1)] ParentNode.IH(2) [OF _ s(2)] wf by simp_all
  have side: "one_way False i e (indexesOf l)" "one_way True i e (indexesOf r)"
    using ParentNode.prems(1) unfolding wf_parent by simp_all
  have idx: "agree x i e" if "x \<in> fst ` set (?l @ ?r)" for x
    using side that unfolding one_way_def by (simp only: set_append image_Un filled_simps) blast
  have k: "HASH_BIT_LENGTH - e = Suc (HASH_BIT_LENGTH - Suc e)" "HASH_BIT_LENGTH - Suc (HASH_BIT_LENGTH - Suc e) = e"
    using conjunct1 [OF conjunct2 [OF wf]] by simp_all
  have f: "filter (\<lambda>(i, _). \<not> dir i e) (?l @ ?r) = ?l" "filter (\<lambda>(i, _). dir i e) (?l @ ?r) = ?r"
    by (simp_all add: filter_filled [OF side(1)] filter_filled [OF side(2)])
  have "collapsed L (HASH_BIT_LENGTH - d) (?l @ ?r) = collapsed L (HASH_BIT_LENGTH - e) (?l @ ?r)"
  proof (rule collapsed_skip [where x = i])
    show "\<forall>(x, h) \<in> set (?l @ ?r). agree x i e" using idx by force
  qed (use wf in simp_all)
  also have "\<dots> = (e, blockHash L [collapsedAt L (Suc e) ?l, collapsedAt L (Suc e) ?r])"
    unfolding k(1) by (simp add: Let_def k f collapsedAt_def del: filter_append)
  finally have "collapsedAt L d (?l @ ?r) = padHash L (fst (hd (?l @ ?r))) d e
      (blockHash L [collapsedAt L (Suc e) ?l, collapsedAt L (Suc e) ?r])" by (simp add: collapsedAt_def)
  moreover have "agree (fst (hd (?l @ ?r))) i e"
    by (intro idx imageI hd_in_set) simp
  ultimately show ?case using padHash_cong [of "fst (hd (?l @ ?r))" i e L d] s(3,4) IH by simp
qed

section \<open>Validation\<close>

text \<open>The state of a validation that has reached depth \<open>d\<close> on the path of \<open>x\<close>.\<close>

definition reached :: "'x hash_lib_scheme \<Rightarrow> nat \<Rightarrow> int \<Rightarrow> int \<Rightarrow> bytes list \<Rightarrow> bytes \<Rightarrow> unit validation \<Rightarrow> bool" where
  "reached L d x c hs h v \<longleftrightarrow> va_nodeIndex v = drop_bit (HASH_BIT_LENGTH - d) x \<and> va_remaining v = c \<and>
     va_hashes v = hs \<and> va_state v = Pending \<and> va_nodeHash (finalizePadding L v) = h"

abbreviation "keep_pending \<equiv> (\<lambda>_ _ c. (Pending, c)) :: int \<Rightarrow> PartialProof \<Rightarrow> unit \<Rightarrow> ValidationState \<times> unit"

definition levels :: "'x hash_lib_scheme \<Rightarrow> nat \<Rightarrow> nat \<Rightarrow> unit validation \<Rightarrow> unit validation" where
  "levels L a b v = foldl (\<lambda>v i. validateStep L keep_pending i v) v [a..<b]"

lemma levels_simps [simp]: "levels L a a v = v"
  "a \<le> b \<Longrightarrow> levels L a (Suc b) v = validateStep L keep_pending b (levels L a b v)"
  by (simp_all add: levels_def)

lemma levels_append: "a \<le> b \<Longrightarrow> b \<le> c \<Longrightarrow> levels L b c (levels L a b v) = levels L a c v"
  by (auto simp: levels_def simp flip: foldl_append upt_add_eq_append dest!: le_Suc_ex)

definition low_bits :: "int \<Rightarrow> nat \<Rightarrow> bool" where "low_bits c d \<longleftrightarrow> (\<forall>p. bit c p \<longrightarrow> p < d)"

lemma BITS_bit: "c AND BITS i \<noteq> 0 \<longleftrightarrow> i < HASH_BIT_LENGTH \<and> bit c (HASH_BIT_LENGTH - 1 - i)"
  using dir_bit [of c i] by (simp add: dir_def)

lemma isLeft_dir: "d < HASH_BIT_LENGTH \<Longrightarrow> (drop_bit (HASH_BIT_LENGTH - Suc d) x AND 1 = 0) \<longleftrightarrow> \<not> dir x d"
  by (simp add: dir_bit and_one_eq mod2_eq_if bit_iff_odd_drop_bit)

text \<open>Levels without a sibling only collect padding.\<close>

lemma pad_levels:
  assumes "d \<le> D" "D \<le> HASH_BIT_LENGTH" "low_bits c d" "va_nodeIndex v = drop_bit (HASH_BIT_LENGTH - D) x"
    "va_remaining v = c" "va_state v = Pending" "va_leftPad v = []" "va_rightPad v = []"
  shows "levels L (HASH_BIT_LENGTH - D) (HASH_BIT_LENGTH - d) v =
    v\<lparr>va_nodeIndex := drop_bit (HASH_BIT_LENGTH - d) x, va_leftPad := leftPad x d D, va_rightPad := rightPad x d D\<rparr>"
  using assms
proof (induction "D - d" arbitrary: d)
  case 0
  then show ?case by (simp add: leftPad_def rightPad_def)
next
  case (Suc m)
  then have d: "d < D" "d < HASH_BIT_LENGTH" "HASH_BIT_LENGTH - d = Suc (HASH_BIT_LENGTH - Suc d)" by simp_all
  have "low_bits c (Suc d)" using Suc.prems(3) by (auto simp: low_bits_def)
  then have IH: "levels L (HASH_BIT_LENGTH - D) (HASH_BIT_LENGTH - Suc d) v =
      v\<lparr>va_nodeIndex := drop_bit (HASH_BIT_LENGTH - Suc d) x, va_leftPad := leftPad x (Suc d) D, va_rightPad := rightPad x (Suc d) D\<rparr>"
    using Suc d by simp
  have c: "c AND BITS (HASH_BIT_LENGTH - Suc d) = 0"
    using Suc.prems(3) BITS_bit [of c "HASH_BIT_LENGTH - Suc d"] d by (auto simp: low_bits_def)
  have e: "HASH_BIT_LENGTH - (HASH_BIT_LENGTH - Suc d) - 1 = d" using d by simp
  have p: "leftPad x d D = (if dir x d then d # leftPad x (Suc d) D else leftPad x (Suc d) D)"
    "rightPad x d D = (if dir x d then rightPad x (Suc d) D else rightPad x (Suc d) D @ [d])"
    using d(1) by (simp_all add: leftPad_def rightPad_def dir_def upt_conv_Cons)
  have s: "drop_bit 1 (drop_bit (HASH_BIT_LENGTH - Suc d) x) = drop_bit (HASH_BIT_LENGTH - d) x"
    by (simp add: drop_bit_drop_bit d(3))
  show ?case
    unfolding d(3) using Suc.prems(5,6) d(1,2) c e s
    by (subst levels_simps(2)) (auto simp: IH validateStep_def Let_def isLeft_dir p simp flip: d(3))
qed

lemma length_pads: "length (leftPad x d D) + length (rightPad x d D) = D - d"
  using sum_length_filter_compl [of "\<lambda>i. x AND BITS i \<noteq> 0" "[d..<D]"] by (simp add: leftPad_def rightPad_def)

lemma pads_empty: "leftPad x d D = [] \<and> rightPad x d D = [] \<longleftrightarrow> D \<le> d"
  using length_pads [of x d D] by (metis add_is_0 diff_is_0_eq length_0_conv)

lemma padded_hash:
  assumes "d \<le> D"
  shows "va_nodeHash (finalizePadding L (v\<lparr>va_leftPad := leftPad x d D, va_rightPad := rightPad x d D\<rparr>)) = padHash L x d D (va_nodeHash v)"
  using pads_empty [of x d D] assms by (auto simp: finalizePadding_def padHash_def)

lemma finalizePadding_simps [simp]:
  "va_nodeIndex (finalizePadding L v) = va_nodeIndex v" "va_remaining (finalizePadding L v) = va_remaining v"
  "va_hashes (finalizePadding L v) = va_hashes v" "va_state (finalizePadding L v) = va_state v"
  "va_leftPad (finalizePadding L v) = []" "va_rightPad (finalizePadding L v) = []"
  by (auto simp: finalizePadding_def)

lemma finalizePadding_hash_cong:
  "va_nodeHash v = va_nodeHash w \<Longrightarrow> va_leftPad v = va_leftPad w \<Longrightarrow> va_rightPad v = va_rightPad w \<Longrightarrow>
   va_nodeHash (finalizePadding L v) = va_nodeHash (finalizePadding L w)"
  by (simp add: finalizePadding_def)

lemma reached_up:
  assumes "d \<le> D" "D \<le> HASH_BIT_LENGTH" "low_bits c d" "reached L D x c hs h v" "va_leftPad v = []" "va_rightPad v = []"
  shows "reached L d x c hs (padHash L x d D h) (levels L (HASH_BIT_LENGTH - D) (HASH_BIT_LENGTH - d) v)"
proof -
  have v: "va_nodeIndex v = drop_bit (HASH_BIT_LENGTH - D) x" "va_remaining v = c" "va_state v = Pending" "va_hashes v = hs"
    "va_nodeHash v = h"
    using assms(4-6) by (auto simp: reached_def finalizePadding_def)
  have "va_nodeHash (finalizePadding L (v\<lparr>va_nodeIndex := drop_bit (HASH_BIT_LENGTH - d) x,
      va_leftPad := leftPad x d D, va_rightPad := rightPad x d D\<rparr>)) = padHash L x d D h"
    using padded_hash [OF assms(1), where L = L and v = v and x = x]
    by (subst finalizePadding_hash_cong [where w = "v\<lparr>va_leftPad := leftPad x d D, va_rightPad := rightPad x d D\<rparr>"]) (simp_all add: v(5))
  then show ?thesis
    unfolding pad_levels [OF assms(1-3) v(1-3) assms(5,6)] by (simp add: reached_def v)
qed

text \<open>A level with a sibling merges with the next hash of the proof.\<close>

lemma reached_merge:
  assumes "reached L (Suc e) x c (peer # hs) h v" "e < HASH_BIT_LENGTH" "bit c e"
  shows "reached L e x (c XOR 2 ^ e) hs (if dir x e then blockHash L [peer, h] else blockHash L [h, peer])
      (validateStep L keep_pending (HASH_BIT_LENGTH - Suc e) v)"
    "va_leftPad (validateStep L keep_pending (HASH_BIT_LENGTH - Suc e) v) = []"
    "va_rightPad (validateStep L keep_pending (HASH_BIT_LENGTH - Suc e) v) = []"
proof -
  have e: "HASH_BIT_LENGTH - 1 - (HASH_BIT_LENGTH - Suc e) = e" "HASH_BIT_LENGTH - Suc e < HASH_BIT_LENGTH" using assms(2) by simp_all
  then have b: "c AND BITS (HASH_BIT_LENGTH - Suc e) \<noteq> 0" "BITS (HASH_BIT_LENGTH - Suc e) = 2 ^ e"
    using assms(3) by (auto simp: BITS_bit) (simp add: BITS_def)
  let ?w = "v\<lparr>va_nodeIndex := drop_bit 1 (va_nodeIndex v), va_remaining := c XOR 2 ^ e\<rparr>"
  have h: "va_nodeHash (finalizePadding L ?w) = h"
    using assms(1) by (subst finalizePadding_hash_cong [where w = v]) (simp_all add: reached_def)
  have s: "drop_bit 1 (drop_bit (HASH_BIT_LENGTH - Suc e) x) = drop_bit (HASH_BIT_LENGTH - e) x"
    using assms(2) by (simp add: drop_bit_drop_bit Suc_diff_Suc)
  have step: "validateStep L keep_pending (HASH_BIT_LENGTH - Suc e) v = (finalizePadding L ?w)
      \<lparr>va_nodeHash := (if dir x e then blockHash L [peer, h] else blockHash L [h, peer]), va_hashes := hs,
       va_state := Pending, va_cache := ()\<rparr>"
  proof -
    have v: "va_nodeIndex v = drop_bit (HASH_BIT_LENGTH - Suc e) x" "va_remaining v = c" "va_state v = Pending" "va_hashes v = peer # hs"
      using assms(1) by (simp_all add: reached_def)
    have w: "v\<lparr>va_nodeIndex := drop_bit 1 (va_nodeIndex v), va_remaining := va_remaining v XOR BITS (HASH_BIT_LENGTH - Suc e)\<rparr> = ?w"
      using b(2) v(2) by simp
    show ?thesis
      using b(1) h v isLeft_dir [OF assms(2), of x] unfolding validateStep_def Let_def
      by (simp add: w v(2) b(2) del: drop_bit_drop_bit)
  qed
  show "va_leftPad (validateStep L keep_pending (HASH_BIT_LENGTH - Suc e) v) = []"
    "va_rightPad (validateStep L keep_pending (HASH_BIT_LENGTH - Suc e) v) = []" by (simp_all add: step)
  show "reached L e x (c XOR 2 ^ e) hs (if dir x e then blockHash L [peer, h] else blockHash L [h, peer])
      (validateStep L keep_pending (HASH_BIT_LENGTH - Suc e) v)"
    using assms(1) s unfolding step reached_def by simp (simp add: finalizePadding_def)
qed

section \<open>The proofs verify\<close>

definition start :: "SMTProof \<Rightarrow> int \<Rightarrow> bytes \<Rightarrow> unit validation" where
  "start p x h = \<lparr>va_nodeIndex = x, va_nodeHash = h, va_remaining = pf_converge p, va_hashes = pf_hashes p,
     va_leftPad = [], va_rightPad = [], va_state = Pending, va_cache = ()\<rparr>"

lemma low_bits_Suc: "low_bits c d \<Longrightarrow> d \<le> e \<Longrightarrow> low_bits (c OR 2 ^ e) (Suc e)"
  by (auto simp: low_bits_def bit_or_iff bit_exp_iff less_Suc_eq)

lemma xor_merge:
  fixes c :: int
  assumes "low_bits c d" "d \<le> e"
  shows "(c OR 2 ^ e) XOR 2 ^ e = c" "bit (c OR 2 ^ e) e"
proof -
  have "\<not> bit c e" using assms by (auto simp: low_bits_def)
  then show "(c OR 2 ^ e) XOR 2 ^ e = c" by (intro bit_eqI) (auto simp: bit_or_iff bit_xor_iff bit_exp_iff)
qed (simp add: bit_or_iff bit_exp_iff)

lemma saved_keys: "finalizeStep L allow n pc d = Inr s \<Longrightarrow> map fst (sr_saveProofs s hashes) = map fst (leavesOf n)"
proof (induction n arbitrary: pc d s hashes)
  case (ParentNode i e l r)
  from ParentNode.prems show ?case by (rule finalized_children) (use ParentNode.IH in simp)
qed (auto simp: Let_def split: if_splits)

text \<open>A merge at the depth of a parent, and the levels above it up to depth \<open>d\<close>.\<close>

lemma reached_parent:
  assumes "reached L (Suc e) x (c OR 2 ^ e) (peer # hs) h (levels L 0 (HASH_BIT_LENGTH - Suc e) v)"
    "low_bits c d" "d \<le> e" "e < HASH_BIT_LENGTH"
  shows "reached L d x c hs (padHash L x d e (if dir x e then blockHash L [peer, h] else blockHash L [h, peer]))
      (levels L 0 (HASH_BIT_LENGTH - d) v)"
proof -
  have e: "HASH_BIT_LENGTH - e = Suc (HASH_BIT_LENGTH - Suc e)" using assms(4) by simp
  note m = reached_merge [OF assms(1,4) xor_merge(2) [OF assms(2,3)], unfolded xor_merge(1) [OF assms(2,3)]]
  have "levels L 0 (HASH_BIT_LENGTH - e) v = validateStep L keep_pending (HASH_BIT_LENGTH - Suc e) (levels L 0 (HASH_BIT_LENGTH - Suc e) v)"
    unfolding e by simp
  note m = m [folded this]
  from reached_up [OF assms(3) less_imp_le [OF assms(4)] assms(2) m]
  have "reached L d x c hs (padHash L x d e (if dir x e then blockHash L [peer, h] else blockHash L [h, peer]))
      (levels L (HASH_BIT_LENGTH - e) (HASH_BIT_LENGTH - d) (levels L 0 (HASH_BIT_LENGTH - e) v))" .
  then show ?thesis using assms(3) by (simp add: levels_append)
qed

lemma saved_reach:
  assumes "smt_wf d n" "finalizeStep L allow n pc d = Inr s" "low_bits (pc OR BITS (HASH_BIT_LENGTH - d)) d"
    "(x, p) \<in> set (sr_saveProofs s hashes)"
  shows "\<exists>h. (x, Some h) \<in> set (leavesOf (sr_node s)) \<and>
    reached L d x (pc OR BITS (HASH_BIT_LENGTH - d)) hashes (sr_hash s) (levels L 0 (HASH_BIT_LENGTH - d) (start p x h))"
  using assms
proof (induction n arbitrary: d pc s hashes)
  case (LeafNode i h)
  let ?c = "pc OR BITS (HASH_BIT_LENGTH - d)" and ?h = "case h of None \<Rightarrow> NULL_HASH | Some h \<Rightarrow> h"
  have s: "sr_node s = LeafNode i (Some ?h)" "sr_hash s = padHash L i d HASH_BIT_LENGTH ?h"
    "x = i" "p = \<lparr>pf_converge = ?c, pf_hashes = hashes\<rparr>"
    using LeafNode.prems(2,4) by (auto simp: Let_def split: if_splits)
  have "reached L HASH_BIT_LENGTH x ?c hashes ?h (start p x ?h)"
    by (simp add: reached_def start_def s finalizePadding_def)
  from reached_up [OF _ _ LeafNode.prems(3) this] LeafNode.prems(1)
  have "reached L d x ?c hashes (sr_hash s) (levels L 0 (HASH_BIT_LENGTH - d) (start p x ?h))"
    by (simp add: start_def s)
  then show ?case using s by auto
next
  case (ParentNode i e l r)
  let ?c = "pc OR BITS (HASH_BIT_LENGTH - d)"
  from ParentNode.prems(1) have wf: "d \<le> e" "e < HASH_BIT_LENGTH" "smt_wf (Suc e) l" "smt_wf (Suc e) r"
    "one_way False i e (indexesOf l)" "one_way True i e (indexesOf r)" unfolding wf_parent by simp_all
  have "BITS (HASH_BIT_LENGTH - Suc e) = 2 ^ e" using wf(2) by (simp add: BITS_def)
  then have c: "?c OR BITS (HASH_BIT_LENGTH - Suc e) = ?c OR 2 ^ e" by simp
  then have low: "low_bits (?c OR BITS (HASH_BIT_LENGTH - Suc e)) (Suc e)"
    using low_bits_Suc [OF ParentNode.prems(3) wf(1)] by simp
  have pad: "padHash L x d e g = padHash L i d e g" if "one_way b i e X" "x \<in> X" for b X g
    using that by (intro padHash_cong) (simp add: one_way_def)
  from ParentNode.prems(2) show ?case
  proof (rule finalized_children)
    fix sl sr
    assume l: "finalizeStep L allow l ?c (Suc e) = Inr sl" and r: "finalizeStep L allow r ?c (Suc e) = Inr sr"
      and s: "s = \<lparr>sr_node = ParentNode i e (sr_node sl) (sr_node sr), sr_hash = padHash L i d e (blockHash L [sr_hash sl, sr_hash sr]),
          sr_saveProofs = (\<lambda>hashes. sr_saveProofs sl (sr_hash sr # hashes) @ sr_saveProofs sr (sr_hash sl # hashes))\<rparr>"
    from ParentNode.prems(4) s consider "(x, p) \<in> set (sr_saveProofs sl (sr_hash sr # hashes))"
      | "(x, p) \<in> set (sr_saveProofs sr (sr_hash sl # hashes))" by auto
    then show ?thesis
    proof cases
      case 1
      then have "x \<in> indexesOf l" using saved_keys [OF l, of "sr_hash sr # hashes"] by (metis fst_conv image_eqI set_map)
      then have side: "\<not> dir x e" "padHash L x d e g = padHash L i d e g" for g
        using one_wayD [OF wf(5)] pad [OF wf(5)] by simp_all
      from ParentNode.IH(1) [OF wf(3) l low 1] obtain h where h: "(x, Some h) \<in> set (leavesOf (sr_node sl))"
        "reached L (Suc e) x (?c OR 2 ^ e) (sr_hash sr # hashes) (sr_hash sl) (levels L 0 (HASH_BIT_LENGTH - Suc e) (start p x h))"
        unfolding c by blast
      from reached_parent [OF h(2) ParentNode.prems(3) wf(1,2)] h(1) show ?thesis by (intro exI [of _ h]) (simp add: s side)
    next
      case 2
      then have "x \<in> indexesOf r" using saved_keys [OF r, of "sr_hash sl # hashes"] by (metis fst_conv image_eqI set_map)
      then have side: "dir x e" "padHash L x d e g = padHash L i d e g" for g
        using one_wayD [OF wf(6)] pad [OF wf(6)] by simp_all
      from ParentNode.IH(2) [OF wf(4) r low 2] obtain h where h: "(x, Some h) \<in> set (leavesOf (sr_node sr))"
        "reached L (Suc e) x (?c OR 2 ^ e) (sr_hash sl # hashes) (sr_hash sr) (levels L 0 (HASH_BIT_LENGTH - Suc e) (start p x h))"
        unfolding c by blast
      from reached_parent [OF h(2) ParentNode.prems(3) wf(1,2)] h(1) show ?thesis by (intro exI [of _ h]) (simp add: s side)
    qed
  qed
qed

lemma finalizes:
  "\<forall>(i, h) \<in> set (leavesOf n). h \<noteq> None \<Longrightarrow> \<exists>s. finalizeStep L allow n pc d = Inr s"
proof (induction n arbitrary: pc d)
  case (ParentNode i e l r)
  let ?pc = "pc OR BITS (HASH_BIT_LENGTH - d)"
  from ParentNode obtain sl sr where "finalizeStep L allow l ?pc (Suc e) = Inr sl" "finalizeStep L allow r ?pc (Suc e) = Inr sr"
    by (metis leavesOf.simps(2) set_append UnI1 UnI2)
  then show ?case by (simp add: Let_def)
qed (auto simp: Let_def)

text \<open>The proof made for a leaf verifies it against the root hash.\<close>

lemma saved_valid:
  assumes "smt_wf 0 n" "finalizeStep L allow n 0 0 = Inr s" "(x, p) \<in> set (sr_saveProofs s [])"
    "(x, Some h) \<in> set (leavesOf (sr_node s))" "distinct (map fst (leavesOf (sr_node s)))" "isValidHash (sr_hash s)"
  shows "isValidProof L p x h (sr_hash s)"
proof -
  have "0 OR BITS HASH_BIT_LENGTH = 0" by (simp add: BITS_def)
  with saved_reach [OF assms(1,2) _ assms(3)] obtain h' where h': "(x, Some h') \<in> set (leavesOf (sr_node s))"
    and v: "reached L 0 x 0 [] (sr_hash s) (levels L 0 HASH_BIT_LENGTH (start p x h'))" by (auto simp: low_bits_def)
  have "h' = h" using h' assms(4,5) by (auto dest: eq_key_imp_eq_value)
  with v assms(6) show ?thesis
    by (simp add: isValidProof_def smtValidate_def Let_def reached_def levels_def start_def hashesEqual_def)
qed

lemma saved_get:
  "distinct (map fst ps) \<Longrightarrow> (i, p) \<in> set ps \<Longrightarrow> jm_get (foldl (\<lambda>m (k, p). jm_set k p m) m ps) i = Some p"
proof -
  have other: "i \<notin> fst ` set ps \<Longrightarrow> jm_get (foldl (\<lambda>m (k, p). jm_set k p m) m ps) i = jm_get m i" for ps m
    by (induction ps arbitrary: m) auto
  show "distinct (map fst ps) \<Longrightarrow> (i, p) \<in> set ps \<Longrightarrow> jm_get (foldl (\<lambda>m (k, p). jm_set k p m) m ps) i = Some p"
    by (induction ps arbitrary: m) (auto simp: other)
qed

section \<open>The whole run\<close>

fun setHashes :: "(int \<times> bytes) list \<Rightarrow> OptimizedSMT \<Rightarrow> OptimizedSMT \<times> unit result" where
  "setHashes [] t = (t, Inr ())"
| "setHashes ((i, h) # kvs) t = (case setHash i h t of (t, Inl e) \<Rightarrow> (t, Inl e) | (t, Inr _) \<Rightarrow> setHashes kvs t)"

definition with_hashes :: "(int \<times> bytes) list \<Rightarrow> int \<times> bytes option \<Rightarrow> int \<times> bytes option" where
  "with_hashes kvs e = (case map_of kvs (fst e) of None \<Rightarrow> e | Some h \<Rightarrow> (fst e, Some h))"

lemma hashes_set:
  assumes "os_root t = Some n" "os_rootHash t = None" "smt_wf 0 n" "distinct (map fst kvs)"
    "\<forall>(i, h) \<in> set kvs. (i, None) \<in> set (leavesOf n) \<and> isValidHash h"
  shows "\<exists>n'. setHashes kvs t = (t\<lparr>os_root := Some n'\<rparr>, Inr ()) \<and> smt_wf 0 n' \<and> leavesOf n' = map (with_hashes kvs) (leavesOf n)"
  using assms
proof (induction kvs arbitrary: t n)
  case Nil
  then show ?case by (intro exI [of _ n]) (simp add: with_hashes_def map_idI)
next
  case (Cons kv kvs)
  obtain i h where kv: "kv = (i, h)" by force
  from hash_set [OF Cons.prems(3), of i h] Cons.prems(5) kv obtain n1 where n1: "setLeafHash i h n = Inr n1" "smt_wf 0 n1"
    "leavesOf n1 = map (set_leaf i h) (leavesOf n)" by auto
  have step: "setHash i h t = (t\<lparr>os_root := Some n1\<rparr>, Inr ())"
    using Cons.prems(1,2,5) kv n1(1) by (simp add: setHash_def validateHash_def)
  have "\<forall>(j, g) \<in> set kvs. (j, None) \<in> set (leavesOf n1) \<and> isValidHash g"
  proof
    fix jg assume jg: "jg \<in> set kvs"
    obtain j g where j: "jg = (j, g)" by force
    then have "j \<noteq> i" using Cons.prems(4) jg kv by force
    then have "set_leaf i h (j, None) = (j, None)" by (simp add: set_leaf_def)
    then show "case jg of (j, g) \<Rightarrow> (j, None) \<in> set (leavesOf n1) \<and> isValidHash g"
      using Cons.prems(5) jg j by (force simp: n1(3) image_iff)
  qed
  from Cons.IH [OF _ _ n1(2) _ this, of "t\<lparr>os_root := Some n1\<rparr>"] Cons.prems(2,4) obtain n' where
    n': "setHashes kvs (t\<lparr>os_root := Some n1\<rparr>) = (t\<lparr>os_root := Some n'\<rparr>, Inr ())" "smt_wf 0 n'"
      "leavesOf n' = map (with_hashes kvs) (leavesOf n1)" by auto
  have "with_hashes kvs (set_leaf i h e) = with_hashes (kv # kvs) e" for e
    using Cons.prems(4) kv by (auto simp: with_hashes_def set_leaf_def split: option.splits dest: map_of_SomeD)
       (metis fst_conv image_eqI map_of_SomeD)
  then show ?case using n' step kv by (intro exI [of _ n']) (simp add: n1(3))
qed

lemma sort_unique:
  fixes kvs :: "(int \<times> bytes) list"
  assumes "distinct (map fst kvs)" "set ys = set kvs" "sorted_wrt (<) (map fst ys)"
  shows "ys = sort_key fst kvs"
proof -
  have "distinct (map fst (sort_key fst kvs))"
    using assms(1) by (metis distinct_map distinct_sort set_sort)
  then have "map fst ys = map fst (sort_key fst kvs)"
    using assms(2,3) by (intro sorted_distinct_set_unique) (auto simp: strict_sorted_iff)
  moreover have "inj_on fst (set ys \<union> set (sort_key fst kvs))" using assms(1,2) by (simp add: distinct_map)
  ultimately show ?thesis by (rule map_inj_on)
qed

lemma hashed_leaves:
  assumes "set (leavesOf n1) = (\<lambda>i. (i, None)) ` fst ` set kvs" "distinct (map fst kvs)" "mset kvs' = mset kvs"
    "smt_wf 0 n" "leavesOf n = map (with_hashes kvs') (leavesOf n1)"
  shows "leavesOf n = map (\<lambda>(i, h). (i, Some h)) (sort_key fst kvs)"
proof -
  have "distinct (map fst kvs')" "set kvs' = set kvs"
    using assms(2,3) by (metis mset_eq_imp_distinct_iff mset_map, metis mset_eq_setD)
  then have get: "map_of kvs' (fst kv) = Some (snd kv)" if "kv \<in> set kvs" for kv using that by simp
  define vs where "vs = map (\<lambda>e. (fst e, the (map_of kvs' (fst e)))) (leavesOf n1)"
  have leaf: "with_hashes kvs' e = (\<lambda>(i, h). (i, Some h)) (fst e, the (map_of kvs' (fst e)))"
    if "e \<in> set (leavesOf n1)" for e
  proof -
    from that obtain kv where "kv \<in> set kvs" "fst e = fst kv" unfolding assms(1) by auto
    with get [of kv] show ?thesis by (simp add: with_hashes_def case_prod_beta)
  qed
  have ls: "leavesOf n = map (\<lambda>(i, h). (i, Some h)) vs"
    unfolding assms(5) vs_def map_map comp_def by (rule map_cong [OF refl leaf])
  have "set vs = (\<lambda>kv. (fst kv, the (map_of kvs' (fst kv)))) ` set kvs"
    unfolding vs_def set_map assms(1) image_image fst_conv ..
  also have "\<dots> = set kvs" using get by simp
  finally have "set vs = set kvs" .
  moreover have "map fst vs = map fst (leavesOf n)" unfolding ls by (simp add: comp_def case_prod_beta)
  with wf_sorted [OF assms(4)] have "sorted_wrt (<) (map fst vs)" by (simp only:)
  ultimately have "vs = sort_key fst kvs" by (rule sort_unique [OF assms(2)])
  with ls show ?thesis by (simp only:)
qed

lemma built:
  assumes "distinct (map fst kvs)" "\<forall>(i, h) \<in> set kvs. in_range i \<and> isValidHash h" "kvs \<noteq> []" "mset kvs' = mset kvs"
  obtains t1 t2 n where "addIndexes (map fst kvs) (newOptimizedSMT allow) = (t1, Inr ())" "setHashes kvs' t1 = (t2, Inr ())"
    "os_root t2 = Some n" "os_rootHash t2 = None" "os_proofs t2 = []" "smt_wf 0 n"
    "leavesOf n = map (\<lambda>(i, h). (i, Some h)) (sort_key fst kvs)" "os_allowNonInclusion t2 = allow"
proof -
  have "\<forall>i \<in> set (map fst kvs). in_range i" using assms(2) by auto
  from added [of None "{}", OF _ assms(1) this] obtain root where
    root: "addLoop (map fst kvs) None = (root, Inr ())" "root_ok root ((\<lambda>i. (i, None)) ` fst ` set kvs)"
    by (auto simp: root_ok_def)
  then obtain n1 where n1: "root = Some n1" "smt_wf 0 n1" "set (leavesOf n1) = (\<lambda>i. (i, None)) ` fst ` set kvs"
    using assms(3) by (cases root) (auto simp: root_ok_def)
  let ?t1 = "(newOptimizedSMT allow)\<lparr>os_root := Some n1\<rparr>"
  have t1: "addIndexes (map fst kvs) (newOptimizedSMT allow) = (?t1, Inr ())"
    using root(1) n1(1) by (simp add: addIndexes_def newOptimizedSMT_def)
  have dist: "distinct (map fst kvs')" using assms(1,4) by (metis mset_eq_imp_distinct_iff mset_map)
  have ready: "\<forall>(i, h) \<in> set kvs'. (i, None) \<in> set (leavesOf n1) \<and> isValidHash h"
  proof
    fix kv assume "kv \<in> set kvs'"
    then have "kv \<in> set kvs" using assms(4) by (metis mset_eq_setD)
    then have "(fst kv, None) \<in> set (leavesOf n1)" "isValidHash (snd kv)" using assms(2) unfolding n1(3) by auto
    then show "case kv of (i, h) \<Rightarrow> (i, None) \<in> set (leavesOf n1) \<and> isValidHash h" by (simp add: case_prod_beta)
  qed
  have "os_root ?t1 = Some n1" "os_rootHash ?t1 = None" by (simp_all add: newOptimizedSMT_def)
  from hashes_set [OF this n1(2) dist ready] obtain n where
    n: "setHashes kvs' ?t1 = (?t1\<lparr>os_root := Some n\<rparr>, Inr ())" "smt_wf 0 n" "leavesOf n = map (with_hashes kvs') (leavesOf n1)"
    by blast
  show thesis
    by (rule that [OF t1 n(1) _ _ _ n(2) hashed_leaves [OF n1(3) assms(1,4) n(2,3)]]) (simp_all add: newOptimizedSMT_def)
qed

text \<open>C18: The optimized tree is correct whatever the order of its operations. For distinct in-range
  indexes with valid hashes, added in any order and hashed in any other, no call throws; the root hash
  is that of the reference recursion over the levels of the sorted entries, which knows no nodes; and
  the proof stored for every index verifies that index and hash against the root.\<close>

theorem optimized_tree_correct:
  assumes "sha256_ok L" "distinct (map fst kvs)" "\<forall>(i, h) \<in> set kvs. 0 \<le> i \<and> i < 2 ^ 256 \<and> isValidHash h"
    "kvs \<noteq> []" "mset kvs' = mset kvs"
  shows "\<exists>t1 t2 t3. addIndexes (map fst kvs) (newOptimizedSMT False) = (t1, Inr ()) \<and> setHashes kvs' t1 = (t2, Inr ()) \<and>
    finalizeOptimized L t2 = (t3, Inr ()) \<and> optimizedRootHash t3 = Inr (collapsedRoot L kvs) \<and>
    (\<forall>(i, h) \<in> set kvs. \<exists>p. optimizedProof i t3 = Inr p \<and> isValidProof L p i h (collapsedRoot L kvs))"
proof -
  have range: "\<forall>(i, h) \<in> set kvs. in_range i \<and> isValidHash h"
    using assms(3) by (auto simp: in_range_def OUTER_BIT_def HASH_BIT_LENGTH_def)
  obtain t1 t2 n where
    run: "addIndexes (map fst kvs) (newOptimizedSMT False) = (t1, Inr ())" "setHashes kvs' t1 = (t2, Inr ())"
    and t2: "os_root t2 = Some n" "os_rootHash t2 = None" "os_proofs t2 = []" "os_allowNonInclusion t2 = False"
    and n: "smt_wf 0 n" "leavesOf n = map (\<lambda>(i, h). (i, Some h)) (sort_key fst kvs)"
    by (rule built [OF assms(2) range assms(4,5), where allow = False])
  obtain s where s: "finalizeStep L False n 0 0 = Inr s" using finalizes [of n L False 0 0] n(2) by force
  have "filled (map (\<lambda>(i, h). (i, Some h)) es) = es" for es by (induction es) (auto simp: filled_def)
  then have filled: "filled (leavesOf n) = sort_key fst kvs" unfolding n(2) .
  note fin = finalized_hash [OF n(1) s, unfolded filled]
  then have root: "sr_hash s = collapsedRoot L kvs" by (simp add: collapsedRoot_def)
  have valid: "isValidHash (sr_hash s)"
  proof (cases n)
    case (LeafNode i h)
    then show ?thesis using s assms(1) by (auto simp: Let_def padHash_def HASH_BIT_LENGTH_def split: if_splits)
  next
    case (ParentNode i e l r)
    have "finalizeStep L False (ParentNode i e l r) 0 0 = Inr s" using s ParentNode by simp
    then show ?thesis by (rule finalized_children) (simp add: padHash_def assms(1))
  qed
  have keys: "map fst (sr_saveProofs s []) = map fst (sort_key fst kvs)"
    using saved_keys [OF s, of "[]"] n(2) by (simp add: comp_def case_prod_beta)
  have dist: "distinct (map fst (sort_key fst kvs))"
    using assms(2) by (metis distinct_map distinct_sort set_sort)
  let ?t3 = "t2\<lparr>os_root := Some (sr_node s), os_rootHash := Some (sr_hash s),
    os_proofs := foldl (\<lambda>m (k, p). jm_set k p m) [] (sr_saveProofs s [])\<rparr>"
  have t3: "finalizeOptimized L t2 = (?t3, Inr ())" using s t2 by (simp add: finalizeOptimized_def)
  have proofs: "\<exists>p. optimizedProof i ?t3 = Inr p \<and> isValidProof L p i h (sr_hash s)" if ih: "(i, h) \<in> set kvs" for i h
  proof -
    have "i \<in> set (map fst (sr_saveProofs s []))" using ih unfolding keys by force
    then obtain p where p: "(i, p) \<in> set (sr_saveProofs s [])" by force
    have "isValidProof L p i h (sr_hash s)"
      using saved_valid [OF n(1) s p _ _ valid, of h] fin ih dist by (force simp: comp_def case_prod_beta)
    moreover have "optimizedProof i ?t3 = Inr p" using saved_get [OF _ p] keys dist by (simp add: optimizedProof_def)
    ultimately show ?thesis by blast
  qed
  have "optimizedRootHash ?t3 = Inr (collapsedRoot L kvs)" by (simp add: optimizedRootHash_def root)
  moreover have "\<forall>(i, h) \<in> set kvs. \<exists>p. optimizedProof i ?t3 = Inr p \<and> isValidProof L p i h (collapsedRoot L kvs)"
    using proofs unfolding root by blast
  ultimately show ?thesis using run t3 by blast
qed

lemma optimized_tree_correct_witness:
  "\<exists>t3. optimizedRootHash t3 = Inr (collapsedRoot demo_lib [(5, replicate 32 1), (3, replicate 32 2)]) \<and>
    (\<exists>p. optimizedProof 3 t3 = Inr p \<and>
       isValidProof demo_lib p 3 (replicate 32 2) (collapsedRoot demo_lib [(5, replicate 32 1), (3, replicate 32 2)]))"
  using optimized_tree_correct [of demo_lib "[(5, replicate 32 1), (3, replicate 32 2)]" "[(3, replicate 32 2), (5, replicate 32 1)]"]
  by (auto simp: isValidHash_def HASH_BYTE_LENGTH_def add_mset_commute)

end
