(* ===== verification/MethodBroadcast.thy ===== *)
theory MethodBroadcast
  imports AggRecovery DidUpdater Complex_Main
begin

text \<open>
  Broadcasting a beacon signal: \<open>packages/method/src/core/beacon/beacon.ts\<close> (fee sizing, selection of
  the output to spend, the unsigned transaction of a single party and of an aggregation cohort,
  signing), the three \<open>broadcastSignal\<close> methods, and the static fee estimator of the package
  \<open>bitcoin\<close>.

  Fields of \<open>broadcast_lib\<close>: the calls of \<open>@scure/btc-signer\<close> that the code makes beyond those of
  \<open>agg_lib\<close> (addresses, payments and the class \<open>Transaction\<close>), \<open>String.localeCompare\<close>, whose order is
  implementation-defined, and the rounding of a real number to a double. A call that throws is
  \<open>None\<close>. \<open>tx_inputs\<close> and \<open>tx_outputAmounts\<close> are the getters of a transaction.
\<close>

section \<open>The libraries\<close>

record tx_input =
  ti_txid :: string
  ti_index :: int
  ti_nonWitnessUtxo :: bytes
  ti_witnessUtxo :: "(int \<times> bytes) option"
  ti_tapInternalKey :: "bytes option"

record 'tx broadcast_lib = "'tx agg_lib" +
  address_decode :: "string \<Rightarrow> string \<Rightarrow> (string \<times> bytes) option"
  outscript_encode :: "string \<times> bytes \<Rightarrow> bytes option"
  outscript_decode :: "bytes \<Rightarrow> (string \<times> bytes) option"
  payment_script :: "string \<Rightarrow> bytes \<Rightarrow> string \<Rightarrow> bytes option"
  tx_new :: 'tx
  tx_addInput :: "tx_input \<Rightarrow> 'tx \<Rightarrow> 'tx option"
  tx_addOutputAddress :: "string \<Rightarrow> int \<Rightarrow> string \<Rightarrow> 'tx \<Rightarrow> 'tx option"
  tx_addOutput :: "bytes \<Rightarrow> int \<Rightarrow> 'tx \<Rightarrow> 'tx option"
  tx_inputs :: "'tx \<Rightarrow> (string \<times> int) list"
  tx_outputAmounts :: "'tx \<Rightarrow> int list"
  tx_preimageLegacy :: "'tx \<Rightarrow> nat \<Rightarrow> bytes \<Rightarrow> byte \<Rightarrow> bytes option"
  tx_preimageWitnessV0 :: "'tx \<Rightarrow> nat \<Rightarrow> bytes \<Rightarrow> byte \<Rightarrow> int \<Rightarrow> bytes option"
  tx_setPartialSig :: "'tx \<Rightarrow> nat \<Rightarrow> bytes \<times> bytes \<Rightarrow> 'tx option"
  tx_setTapKeySig :: "'tx \<Rightarrow> nat \<Rightarrow> bytes \<Rightarrow> 'tx option"
  locale_compare :: "string \<Rightarrow> string \<Rightarrow> int"
  round_double :: "rat \<Rightarrow> rat"

text \<open>A transaction lists its inputs and outputs in the order in which they were added.\<close>

definition tx_build_ok :: "('tx, 'x) broadcast_lib_scheme \<Rightarrow> bool" where
  "tx_build_ok L \<longleftrightarrow>
     tx_inputs L (tx_new L) = [] \<and> tx_outputScripts L (tx_new L) = [] \<and> tx_outputAmounts L (tx_new L) = [] \<and>
     (\<forall>i t t'. tx_addInput L i t = Some t' \<longrightarrow> tx_inputs L t' = tx_inputs L t @ [(ti_txid i, ti_index i)] \<and>
        tx_outputScripts L t' = tx_outputScripts L t \<and> tx_outputAmounts L t' = tx_outputAmounts L t) \<and>
     (\<forall>a v n t t'. tx_addOutputAddress L a v n t = Some t' \<longrightarrow> tx_inputs L t' = tx_inputs L t \<and>
        tx_outputScripts L t' = tx_outputScripts L t @ [Option.bind (address_decode L n a) (outscript_encode L)] \<and>
        tx_outputAmounts L t' = tx_outputAmounts L t @ [v]) \<and>
     (\<forall>s v t t'. tx_addOutput L s v t = Some t' \<longrightarrow> tx_inputs L t' = tx_inputs L t \<and>
        tx_outputScripts L t' = tx_outputScripts L t @ [Some s] \<and> tx_outputAmounts L t' = tx_outputAmounts L t @ [v])"

section \<open>Sizes and fees\<close>

datatype SingletonScriptKind = P2pkh | P2wpkh | P2tr

fun SINGLETON_BEACON_TX_VSIZE :: "SingletonScriptKind \<Rightarrow> int" where
  "SINGLETON_BEACON_TX_VSIZE P2pkh = 240"
| "SINGLETON_BEACON_TX_VSIZE P2wpkh = 155"
| "SINGLETON_BEACON_TX_VSIZE P2tr = 160"

fun CHANGE_OUTPUT_VBYTES :: "SingletonScriptKind \<Rightarrow> int" where
  "CHANGE_OUTPUT_VBYTES P2pkh = 34"
| "CHANGE_OUTPUT_VBYTES P2wpkh = 31"
| "CHANGE_OUTPUT_VBYTES P2tr = 43"

fun BEACON_DUST_LIMIT_SATS :: "SingletonScriptKind \<Rightarrow> int" where
  "BEACON_DUST_LIMIT_SATS P2pkh = 546"
| "BEACON_DUST_LIMIT_SATS P2wpkh = 294"
| "BEACON_DUST_LIMIT_SATS P2tr = 330"

definition SPENDABLE_DUST_LIMIT_SATS :: int where "SPENDABLE_DUST_LIMIT_SATS = 546"

definition beaconTxVsize :: "SingletonScriptKind \<Rightarrow> SingletonScriptKind \<Rightarrow> int" where
  "beaconTxVsize beaconKind changeKind =
     (let base = SINGLETON_BEACON_TX_VSIZE beaconKind - CHANGE_OUTPUT_VBYTES beaconKind
      in base + CHANGE_OUTPUT_VBYTES changeKind)"

type_synonym FeeEstimator = "int \<Rightarrow> int result"

text \<open>A rate that is not finite is \<open>None\<close>.\<close>

definition newStaticFeeEstimator :: "rat option \<Rightarrow> rat result" where
  "newStaticFeeEstimator satsPerVbyte =
     (case satsPerVbyte of None \<Rightarrow> lib_error | Some r \<Rightarrow> if r < 0 then lib_error else Inr r)"

definition staticEstimateFee :: "('tx, 'x) broadcast_lib_scheme \<Rightarrow> rat \<Rightarrow> FeeEstimator" where
  "staticEstimateFee L satsPerVbyte vsize =
     (if vsize < 0 then lib_error else Inr (ceiling (round_double L (of_int vsize * satsPerVbyte))))"

definition DEFAULT_FEE_ESTIMATOR :: "('tx, 'x) broadcast_lib_scheme \<Rightarrow> FeeEstimator" where
  "DEFAULT_FEE_ESTIMATOR L = staticEstimateFee L 5"

section \<open>Addresses\<close>

definition beacon_error :: "string \<Rightarrow> error + 'a" where
  "beacon_error code = Inl (Error ''BeaconError'' code)"

definition detectSingletonScriptKind :: "('tx, 'x) broadcast_lib_scheme \<Rightarrow> string \<Rightarrow> string \<Rightarrow> SingletonScriptKind result" where
  "detectSingletonScriptKind L bitcoinAddress network =
     rbind (of_option (address_decode L network bitcoinAddress)) (\<lambda>(ty, _).
       if ty = ''pkh'' then Inr P2pkh
       else if ty = ''wpkh'' then Inr P2wpkh
       else if ty = ''tr'' then Inr P2tr
       else beacon_error ''UNSUPPORTED_BEACON_ADDRESS_TYPE'')"

fun kind_name :: "SingletonScriptKind \<Rightarrow> string" where
  "kind_name P2pkh = ''p2pkh''"
| "kind_name P2wpkh = ''p2wpkh''"
| "kind_name P2tr = ''p2tr''"

text \<open>The x-only internal key of a taproot payment; the other kinds pay to the whole key.\<close>

definition kind_key :: "SingletonScriptKind \<Rightarrow> bytes \<Rightarrow> bytes" where
  "kind_key kind pubkey = (if kind = P2tr then take 32 (drop 1 pubkey) else pubkey)"

definition deriveSingletonAddress ::
  "('tx, 'x) broadcast_lib_scheme \<Rightarrow> SingletonScriptKind \<Rightarrow> bytes \<Rightarrow> string \<Rightarrow> string result" where
  "deriveSingletonAddress L kind pubkey network =
     of_option (address_of L (kind_name kind) (kind_key kind pubkey) network)"

definition resolveChangeAddress ::
  "('tx, 'x) broadcast_lib_scheme \<Rightarrow> string \<Rightarrow> string \<Rightarrow> string option \<Rightarrow> string result" where
  "resolveChangeAddress L beaconAddress network changeAddress =
     (if \<not> truthy_str changeAddress \<or> changeAddress = Some beaconAddress then Inr beaconAddress
      else case address_decode L network (the changeAddress) of
        None \<Rightarrow> beacon_error ''INVALID_CHANGE_ADDRESS''
      | Some _ \<Rightarrow> Inr (the changeAddress))"

definition changeOutputKind :: "('tx, 'x) broadcast_lib_scheme \<Rightarrow> string \<Rightarrow> string \<Rightarrow> SingletonScriptKind" where
  "changeOutputKind L changeAddress network =
     (case detectSingletonScriptKind L changeAddress network of Inl _ \<Rightarrow> P2tr | Inr kind \<Rightarrow> kind)"

section \<open>The output to spend\<close>

text \<open>A height is present when the output is confirmed; only then is it read.\<close>

record AddressUtxo =
  ut_txid :: string
  ut_vout :: int
  ut_confirmed :: bool
  ut_block_height :: int
  ut_value :: int

definition byDepthThenId :: "('tx, 'x) broadcast_lib_scheme \<Rightarrow> AddressUtxo \<Rightarrow> AddressUtxo \<Rightarrow> int" where
  "byDepthThenId L a b =
     (if ut_block_height a \<noteq> ut_block_height b then ut_block_height a - ut_block_height b
      else let txidOrder = locale_compare L (ut_txid a) (ut_txid b)
        in if txidOrder \<noteq> 0 then txidOrder else ut_vout a - ut_vout b)"

text \<open>\<open>Array.sort\<close> with a comparator is stable.\<close>

fun insert_by :: "('a \<Rightarrow> 'a \<Rightarrow> int) \<Rightarrow> 'a \<Rightarrow> 'a list \<Rightarrow> 'a list" where
  "insert_by cmp x [] = [x]"
| "insert_by cmp x (y # ys) = (if cmp x y \<le> 0 then x # y # ys else y # insert_by cmp x ys)"

definition sort_by :: "('a \<Rightarrow> 'a \<Rightarrow> int) \<Rightarrow> 'a list \<Rightarrow> 'a list" where
  "sort_by cmp xs = foldr (insert_by cmp) xs []"

definition selectSpendableUtxo :: "('tx, 'x) broadcast_lib_scheme \<Rightarrow> AddressUtxo list \<Rightarrow> AddressUtxo result" where
  "selectSpendableUtxo L utxos =
     (if utxos = [] then beacon_error ''UNFUNDED_BEACON_ADDRESS''
      else let confirmed = filter ut_confirmed utxos;
               spendable = filter (\<lambda>u. SPENDABLE_DUST_LIMIT_SATS < ut_value u) confirmed
        in if spendable = [] then beacon_error ''NO_SPENDABLE_BEACON_UTXO''
           else Inr (hd (sort_by (byDepthThenId L) spendable)))"

text \<open>The connection: the calls of the REST client, and the network whose parameters it holds.\<close>

record BitcoinConnection =
  bc_getUtxos :: "string \<Rightarrow> AddressUtxo list option"
  bc_getHex :: "string \<Rightarrow> string option"
  bc_send :: "string \<Rightarrow> string option"
  bc_data :: string

definition fetchSpendableUtxo ::
  "('tx, 'x) broadcast_lib_scheme \<Rightarrow> string \<Rightarrow> BitcoinConnection \<Rightarrow> (AddressUtxo \<times> bytes) result" where
  "fetchSpendableUtxo L bitcoinAddress bitcoin =
     rbind (of_option (bc_getUtxos bitcoin bitcoinAddress)) (\<lambda>utxos.
     rbind (selectSpendableUtxo L utxos) (\<lambda>utxo.
     rbind (of_option (bc_getHex bitcoin (ut_txid utxo))) (\<lambda>prevTxHex.
     rbind (of_option (hex_decode L prevTxHex)) (\<lambda>prevTxBytes. Inr (utxo, prevTxBytes)))))"

section \<open>The unsigned transaction\<close>

record 'tx BeaconTxPlan =
  pl_tx :: 'tx
  pl_prevOutScripts :: "bytes list"
  pl_prevOutValues :: "int list"
  pl_beaconAddress :: string
  pl_changeAddress :: string
  pl_utxo :: AddressUtxo
  pl_feeSats :: int
  pl_scriptKind :: SingletonScriptKind

definition opReturnScript :: "('tx, 'x) broadcast_lib_scheme \<Rightarrow> bytes \<Rightarrow> bytes result" where
  "opReturnScript L signalBytes = of_option (script_encode L [OpCode ''RETURN'', OpData signalBytes])"

text \<open>The change output, unless it would be dust, then the signal.\<close>

definition addBeaconOutputs ::
  "('tx, 'x) broadcast_lib_scheme \<Rightarrow> string \<Rightarrow> SingletonScriptKind \<Rightarrow> string \<Rightarrow> int \<Rightarrow> bytes \<Rightarrow> 'tx \<Rightarrow> 'tx result" where
  "addBeaconOutputs L changeAddress changeKind network changeValue signalBytes tx =
     rbind (if BEACON_DUST_LIMIT_SATS changeKind \<le> changeValue
            then of_option (tx_addOutputAddress L changeAddress changeValue network tx)
            else Inr tx) (\<lambda>tx.
     rbind (opReturnScript L signalBytes) (\<lambda>script. of_option (tx_addOutput L script 0 tx)))"

definition buildAggregationBeaconTx ::
  "('tx, 'x) broadcast_lib_scheme \<Rightarrow> string \<Rightarrow> bytes \<Rightarrow> bytes \<Rightarrow> BitcoinConnection \<Rightarrow> string \<Rightarrow> FeeEstimator option
     \<Rightarrow> string option \<Rightarrow> 'tx BeaconTxPlan result" where
  "buildAggregationBeaconTx L beaconAddress internalPubkey signalBytes bitcoin network feeEstimator changeAddress =
     (let feeEstimator = (case feeEstimator of None \<Rightarrow> DEFAULT_FEE_ESTIMATOR L | Some f \<Rightarrow> f) in
      rbind (fetchSpendableUtxo L beaconAddress bitcoin) (\<lambda>(utxo, prevTxBytes).
      rbind (resolveChangeAddress L beaconAddress network changeAddress) (\<lambda>changeAddress.
      rbind (of_option (address_decode L network beaconAddress)) (\<lambda>decoded.
      rbind (of_option (outscript_encode L decoded)) (\<lambda>witnessScript.
      let changeKind = changeOutputKind L changeAddress network in
      rbind (feeEstimator (beaconTxVsize P2tr changeKind)) (\<lambda>feeSats.
      if ut_value utxo \<le> feeSats then beacon_error ''INSUFFICIENT_FUNDS''
      else rbind (of_option (tx_addInput L
             \<lparr>ti_txid = ut_txid utxo, ti_index = ut_vout utxo, ti_nonWitnessUtxo = prevTxBytes,
              ti_witnessUtxo = Some (ut_value utxo, witnessScript), ti_tapInternalKey = Some internalPubkey\<rparr> (tx_new L))) (\<lambda>tx.
           rbind (addBeaconOutputs L changeAddress changeKind network (ut_value utxo - feeSats) signalBytes tx) (\<lambda>tx.
             Inr \<lparr>pl_tx = tx, pl_prevOutScripts = [witnessScript], pl_prevOutValues = [ut_value utxo],
                  pl_beaconAddress = beaconAddress, pl_changeAddress = changeAddress, pl_utxo = utxo,
                  pl_feeSats = feeSats, pl_scriptKind = P2tr\<rparr>))))))))"

text \<open>A signer of the package \<open>keypair\<close>, which signs under a named scheme.\<close>

record TxSigner =
  xs_publicKey :: bytes
  xs_sign :: "bytes \<Rightarrow> string \<Rightarrow> bytes option"

definition buildSinglePartyTx ::
  "('tx, 'x) broadcast_lib_scheme \<Rightarrow> bytes \<Rightarrow> string \<Rightarrow> AddressUtxo \<Rightarrow> bytes \<Rightarrow> TxSigner \<Rightarrow> BitcoinConnection
     \<Rightarrow> FeeEstimator \<Rightarrow> string option \<Rightarrow> 'tx BeaconTxPlan result" where
  "buildSinglePartyTx L signalBytes beaconAddress utxo prevTxBytes signer bitcoin feeEstimator changeAddress =
     (let network = bc_data bitcoin; pubkey = xs_publicKey signer in
      rbind (detectSingletonScriptKind L beaconAddress network) (\<lambda>kind.
      rbind (resolveChangeAddress L beaconAddress network changeAddress) (\<lambda>changeAddress.
      rbind (deriveSingletonAddress L kind pubkey network) (\<lambda>derivedAddress.
      if derivedAddress \<noteq> beaconAddress then beacon_error ''SIGNER_KEY_MISMATCH''
      else let changeKind = changeOutputKind L changeAddress network in
      rbind (feeEstimator (beaconTxVsize kind changeKind)) (\<lambda>feeSats.
      let amount = ut_value utxo in
      if amount \<le> feeSats then beacon_error ''INSUFFICIENT_FUNDS''
      else rbind (of_option (payment_script L (kind_name kind) (kind_key kind pubkey) network)) (\<lambda>prevOutScript.
           rbind (of_option (tx_addInput L
             \<lparr>ti_txid = ut_txid utxo, ti_index = ut_vout utxo, ti_nonWitnessUtxo = prevTxBytes,
              ti_witnessUtxo = (if kind = P2pkh then None else Some (amount, prevOutScript)),
              ti_tapInternalKey = (if kind = P2tr then Some (kind_key kind pubkey) else None)\<rparr> (tx_new L))) (\<lambda>tx.
           rbind (addBeaconOutputs L changeAddress changeKind network (amount - feeSats) signalBytes tx) (\<lambda>tx.
             Inr \<lparr>pl_tx = tx, pl_prevOutScripts = [prevOutScript], pl_prevOutValues = [amount],
                  pl_beaconAddress = beaconAddress, pl_changeAddress = changeAddress, pl_utxo = utxo,
                  pl_feeSats = feeSats, pl_scriptKind = kind\<rparr>))))))))"

section \<open>Signing\<close>

definition SIGHASH_ALL :: byte where "SIGHASH_ALL = 1"

text \<open>\<open>updateInput\<close> with an ECDSA signature, \<open>finalize\<close> and \<open>hex\<close>.\<close>

definition applyEcdsa ::
  "('tx, 'x) broadcast_lib_scheme \<Rightarrow> 'tx \<Rightarrow> nat \<Rightarrow> TxSigner \<Rightarrow> bytes \<Rightarrow> string result" where
  "applyEcdsa L tx inputIdx signer sighash =
     rbind (of_option (xs_sign signer sighash ''ecdsa'')) (\<lambda>sig.
     rbind (of_option (tx_setPartialSig L tx inputIdx (xs_publicKey signer, sig @ [SIGHASH_ALL]))) (\<lambda>tx.
     rbind (of_option (tx_finalize L tx)) (\<lambda>tx. Inr (tx_hex L tx))))"

definition signSingletonInput ::
  "('tx, 'x) broadcast_lib_scheme \<Rightarrow> 'tx \<Rightarrow> nat \<Rightarrow> SingletonScriptKind \<Rightarrow> TxSigner \<Rightarrow> bytes \<Rightarrow> int \<Rightarrow> string result" where
  "signSingletonInput L tx inputIdx kind signer prevOutScript amount =
     (case kind of
        P2pkh \<Rightarrow>
          rbind (of_option (tx_preimageLegacy L tx inputIdx prevOutScript SIGHASH_ALL)) (applyEcdsa L tx inputIdx signer)
      | P2wpkh \<Rightarrow>
          rbind (of_option (outscript_decode L prevOutScript)) (\<lambda>(ty, h).
          if ty \<noteq> ''wpkh'' then beacon_error ''PREVOUT_SCRIPT_MISMATCH''
          else rbind (of_option (outscript_encode L (''pkh'', h))) (\<lambda>sighashScript.
               rbind (of_option (tx_preimageWitnessV0 L tx inputIdx sighashScript SIGHASH_ALL amount))
                 (applyEcdsa L tx inputIdx signer)))
      | P2tr \<Rightarrow>
          rbind (of_option (tx_preimageWitnessV1 L tx inputIdx [prevOutScript] [amount] None)) (\<lambda>sighash.
          rbind (of_option (xs_sign signer sighash ''bip341'')) (\<lambda>sig.
          rbind (of_option (tx_setTapKeySig L tx inputIdx sig)) (\<lambda>tx.
          rbind (of_option (tx_finalize L tx)) (\<lambda>tx. Inr (tx_hex L tx))))))"

definition signSinglePartyTx :: "('tx, 'x) broadcast_lib_scheme \<Rightarrow> 'tx BeaconTxPlan \<Rightarrow> TxSigner \<Rightarrow> string result" where
  "signSinglePartyTx L plan signer =
     signSingletonInput L (pl_tx plan) 0 (pl_scriptKind plan) signer (hd (pl_prevOutScripts plan)) (hd (pl_prevOutValues plan))"

section \<open>Broadcasting\<close>

text \<open>What a broadcast does to the world, in order: publishing an announcement, sending a transaction.\<close>

datatype broadcast_effect = CasPublished jsval | TxSent string

record BroadcastOptions =
  bo_feeEstimator :: "FeeEstimator option"
  bo_changeAddress :: "string option"
  bo_casPublish :: "(jsval \<Rightarrow> unit option) option"

record BroadcastResult =
  br_signedUpdate :: jsval
  br_txid :: string
  br_announcement :: "jsval option"
  br_proof :: "SerializedSMTProof option"

definition broadcastRawTx :: "BitcoinConnection \<Rightarrow> string \<Rightarrow> broadcast_effect list \<times> string result" where
  "broadcastRawTx bitcoin rawHex = ([TxSent rawHex], of_option (bc_send bitcoin rawHex))"

definition beaconTxHex ::
  "('tx, 'x) broadcast_lib_scheme \<Rightarrow> jsval \<Rightarrow> bytes \<Rightarrow> TxSigner \<Rightarrow> BitcoinConnection \<Rightarrow> BroadcastOptions
     \<Rightarrow> ('tx BeaconTxPlan \<times> string) result" where
  "beaconTxHex L service signalBytes signer bitcoin options =
     (let feeEstimator = (case bo_feeEstimator options of None \<Rightarrow> DEFAULT_FEE_ESTIMATOR L | Some f \<Rightarrow> f) in
      rbind (js_string (js_prop_opt service ''serviceEndpoint'')) (\<lambda>serviceEndpoint.
      let beaconAddress = replace_first ''bitcoin:'' [] serviceEndpoint in
      rbind (fetchSpendableUtxo L beaconAddress bitcoin) (\<lambda>(utxo, prevTxBytes).
      rbind (buildSinglePartyTx L signalBytes beaconAddress utxo prevTxBytes signer bitcoin feeEstimator
               (bo_changeAddress options)) (\<lambda>plan.
      rbind (signSinglePartyTx L plan signer) (\<lambda>signedHex. Inr (plan, signedHex))))))"

definition buildSignAndBroadcast ::
  "('tx, 'x) broadcast_lib_scheme \<Rightarrow> jsval \<Rightarrow> bytes \<Rightarrow> TxSigner \<Rightarrow> BitcoinConnection \<Rightarrow> BroadcastOptions
     \<Rightarrow> broadcast_effect list \<times> string result" where
  "buildSignAndBroadcast L service signalBytes signer bitcoin options =
     (case beaconTxHex L service signalBytes signer bitcoin options of
        Inl e \<Rightarrow> ([], Inl e)
      | Inr (_, signedHex) \<Rightarrow> broadcastRawTx bitcoin signedHex)"

text \<open>The common end of the three \<open>broadcastSignal\<close> methods.\<close>

definition finishBroadcast ::
  "broadcast_effect list \<Rightarrow> broadcast_effect list \<times> string result \<Rightarrow> jsval \<Rightarrow> jsval option \<Rightarrow> SerializedSMTProof option
     \<Rightarrow> broadcast_effect list \<times> BroadcastResult result" where
  "finishBroadcast effs sent signedUpdate announcement proof' =
     (effs @ fst sent, rbind (snd sent) (\<lambda>txid.
        Inr \<lparr>br_signedUpdate = signedUpdate, br_txid = txid, br_announcement = announcement, br_proof = proof'\<rparr>))"

definition broadcastSingleton ::
  "('tx, 'x) broadcast_lib_scheme \<Rightarrow> jsval \<Rightarrow> jsval \<Rightarrow> TxSigner \<Rightarrow> BitcoinConnection \<Rightarrow> BroadcastOptions
     \<Rightarrow> broadcast_effect list \<times> BroadcastResult result" where
  "broadcastSingleton L service signedUpdate signer bitcoin options =
     (case canonicalize L signedUpdate of
        Inl e \<Rightarrow> ([], Inl e)
      | Inr c \<Rightarrow> finishBroadcast [] (buildSignAndBroadcast L service (hash_of L c) signer bitcoin options) signedUpdate None None)"

definition casAnnouncementOf :: "('tx, 'x) broadcast_lib_scheme \<Rightarrow> jsval \<Rightarrow> jsval \<Rightarrow> (jsval \<times> bytes) result" where
  "casAnnouncementOf L service signedUpdate =
     rbind (serviceDid service) (\<lambda>did.
     rbind (canonicalHash L ''base64urlnopad'' signedUpdate) (\<lambda>updateHash.
     let casAnnouncement = JObj [(did, JStr updateHash)] in
     rbind (canonicalize L casAnnouncement) (\<lambda>c. Inr (casAnnouncement, hash_of L c))))"

definition broadcastCAS ::
  "('tx, 'x) broadcast_lib_scheme \<Rightarrow> jsval \<Rightarrow> jsval \<Rightarrow> TxSigner \<Rightarrow> BitcoinConnection \<Rightarrow> BroadcastOptions
     \<Rightarrow> broadcast_effect list \<times> BroadcastResult result" where
  "broadcastCAS L service signedUpdate signer bitcoin options =
     (case casAnnouncementOf L service signedUpdate of
        Inl e \<Rightarrow> ([], Inl e)
      | Inr (casAnnouncement, announcementHash) \<Rightarrow>
          let send = (\<lambda>effs. finishBroadcast effs (buildSignAndBroadcast L service announcementHash signer bitcoin options)
                        signedUpdate (Some casAnnouncement) None)
          in case bo_casPublish options of
               None \<Rightarrow> send []
             | Some publish \<Rightarrow>
                 (case publish casAnnouncement of
                    None \<Rightarrow> ([], lib_error)
                  | Some _ \<Rightarrow> send [CasPublished casAnnouncement]))"

definition smtSignalOf ::
  "('tx, 'x) broadcast_lib_scheme \<Rightarrow> bytes \<Rightarrow> jsval \<Rightarrow> jsval \<Rightarrow> (SerializedSMTProof \<times> bytes) result" where
  "smtSignalOf L nonce service signedUpdate =
     rbind (serviceDid service) (\<lambda>did.
     rbind (canonicalize L signedUpdate) (\<lambda>c.
       case addEntries L [\<lparr>te_did = did, te_nonce = nonce, te_signedUpdate = Some (utf8 c)\<rparr>] newMerkleTree of
         (_, Inl e) \<Rightarrow> Inl e
       | (tree, Inr _) \<Rightarrow>
           let tree = finalizeTree L tree in
           rbind (treeProof L did tree) (\<lambda>p. rbind (rootHash tree) (\<lambda>treeRoot. Inr (p, treeRoot)))))"

definition broadcastSMT ::
  "('tx, 'x) broadcast_lib_scheme \<Rightarrow> bytes \<Rightarrow> jsval \<Rightarrow> jsval \<Rightarrow> TxSigner \<Rightarrow> BitcoinConnection \<Rightarrow> BroadcastOptions
     \<Rightarrow> broadcast_effect list \<times> BroadcastResult result" where
  "broadcastSMT L nonce service signedUpdate signer bitcoin options =
     (case smtSignalOf L nonce service signedUpdate of
        Inl e \<Rightarrow> ([], Inl e)
      | Inr (p, treeRoot) \<Rightarrow>
          finishBroadcast [] (buildSignAndBroadcast L service treeRoot signer bitcoin options) signedUpdate None (Some p))"

text \<open>\<open>BeaconFactory.establish(service).broadcastSignal(...)\<close>; the nonce is the random one that an SMT
  beacon draws.\<close>

definition broadcastSignal ::
  "('tx, 'x) broadcast_lib_scheme \<Rightarrow> bytes \<Rightarrow> jsval \<Rightarrow> jsval \<Rightarrow> TxSigner \<Rightarrow> BitcoinConnection \<Rightarrow> BroadcastOptions
     \<Rightarrow> broadcast_effect list \<times> BroadcastResult result" where
  "broadcastSignal L nonce service signedUpdate signer bitcoin options =
     (let ty = js_prop_opt service ''type'' in
      if ty = JStr ''SingletonBeacon'' then broadcastSingleton L service signedUpdate signer bitcoin options
      else if ty = JStr ''CASBeacon'' then broadcastCAS L service signedUpdate signer bitcoin options
      else if ty = JStr ''SMTBeacon'' then broadcastSMT L nonce service signedUpdate signer bitcoin options
      else ([], Inl (Error ''MethodError'' ''INVALID_BEACON_ERROR'')))"

end
