(* ===== verification/DemoBroadcast.thy ===== *)
theory DemoBroadcast
  imports MethodBroadcast DemoLib
begin

text \<open>
  A concrete instance of the libraries of a broadcast, at which its witnesses apply the properties:
  transactions are the lists of their inputs and outputs, an address is the name of its script kind
  and the key in hexadecimal. Then an address with three outputs, and a CAS beacon at that address.
\<close>

type_synonym demo_btx = "(string \<times> int) list \<times> (bytes option \<times> int) list"

definition demo_address :: "string \<Rightarrow> (string \<times> bytes) option" where
  "demo_address a = (if starts_with ''p2pkh'' a then Some (''pkh'', demo_unhex (drop 5 a))
     else if starts_with ''p2wpkh'' a then Some (''wpkh'', demo_unhex (drop 6 a))
     else if starts_with ''p2tr'' a then Some (''tr'', demo_unhex (drop 4 a)) else None)"

definition demo_blib :: "demo_btx broadcast_lib" where
  "demo_blib = method_lib.extend demo_mlib
     \<lparr>musig_sort_keys = \<lambda>ks. None, musig_key_agg = \<lambda>ks. None, musig_nonce_agg = \<lambda>ns. None,
      musig_nonce_gen = \<lambda>pk sk agg rand. None, musig_session_ok = \<lambda>ms. False, musig_sign = \<lambda>ms secret sk. None,
      musig_partial_verify = \<lambda>ms sig ns i. None, musig_partial_agg = \<lambda>ms sigs. None, tagged_hash = \<lambda>t bs. demo_hash bs,
      bip340_sign = \<lambda>h sk rand. None, bip340_public = \<lambda>sk. None,
      script_encode = \<lambda>items. Some [of_nat (length items)], script_decode = \<lambda>bs. None, p2tr_ms = \<lambda>k keys. None,
      p2tr = \<lambda>key leaves net. None,
      tx_hex = \<lambda>tx. ''00'', tx_fromRaw = \<lambda>raw. None, tx_outputScripts = \<lambda>tx. map fst (snd tx),
      tx_preimageWitnessV1 = \<lambda>tx i scripts values leaf. Some (concat scripts),
      tx_setFinalScriptWitness = \<lambda>tx i w. Some tx, tx_setTapScriptSigs = \<lambda>tx i entry sigs. Some tx,
      tx_finalize = \<lambda>tx. Some tx,
      tx_recoverySpend = \<lambda>outpoint spent leaves sequence dest net sk. None,
      address_decode = \<lambda>net a. demo_address a, outscript_encode = \<lambda>(ty, h). Some h,
      outscript_decode = \<lambda>bs. Some (''wpkh'', bs), payment_script = \<lambda>kind key net. Some key,
      tx_new = ([], []), tx_addInput = \<lambda>i tx. Some (fst tx @ [(ti_txid i, ti_index i)], snd tx),
      tx_addOutputAddress = \<lambda>a v net tx. Some (fst tx, snd tx @ [(map_option snd (demo_address a), v)]),
      tx_addOutput = \<lambda>s v tx. Some (fst tx, snd tx @ [(Some s, v)]),
      tx_inputs = fst, tx_outputAmounts = \<lambda>tx. map snd (snd tx),
      tx_preimageLegacy = \<lambda>tx i s t. Some s, tx_preimageWitnessV0 = \<lambda>tx i s t v. Some s,
      tx_setPartialSig = \<lambda>tx i s. Some tx, tx_setTapKeySig = \<lambda>tx i s. Some tx,
      locale_compare = \<lambda>a b. if a = b then 0 else if lexordp_eq (map of_char a :: nat list) (map of_char b) then - 1 else 1,
      round_double = \<lambda>r. r\<rparr>"

lemma demo_blib_base [simp]:
  "sha256 demo_blib = demo_hash" "hex_encode demo_blib = demo_hex" "hex_decode demo_blib = (\<lambda>s. Some (demo_unhex s))"
  "base64url_encode demo_blib = demo_encode" "base64url_decode demo_blib = demo_decode"
  "address_of demo_blib = (\<lambda>kind k network. Some (kind @ demo_hex k))" "jcs demo_blib = demo_jcs"
  by (simp_all add: demo_blib_def demo_mlib_def method_lib.defs)

lemma demo_blib_tx [simp]:
  "script_encode demo_blib items = Some [of_nat (length items)]" "tx_hex demo_blib tx = ''00''"
  "tx_outputScripts demo_blib tx = map fst (snd tx)" "tx_preimageWitnessV1 demo_blib tx i scripts vs leaf = Some (concat scripts)"
  "tx_finalize demo_blib tx = Some tx" "address_decode demo_blib net a = demo_address a"
  "outscript_encode demo_blib = (\<lambda>(ty, h). Some h)" "payment_script demo_blib kind key net = Some key" "tx_new demo_blib = ([], [])"
  "tx_addInput demo_blib inp tx = Some (fst tx @ [(ti_txid inp, ti_index inp)], snd tx)"
  "tx_addOutputAddress demo_blib a v net tx = Some (fst tx, snd tx @ [(map_option snd (demo_address a), v)])"
  "tx_addOutput demo_blib s v tx = Some (fst tx, snd tx @ [(Some s, v)])" "tx_inputs demo_blib = fst"
  "tx_outputAmounts demo_blib tx = map snd (snd tx)" "tx_setTapKeySig demo_blib tx i s = Some tx" "round_double demo_blib r = r"
  "locale_compare demo_blib a b = (if a = b then 0 else if lexordp_eq (map of_char a :: nat list) (map of_char b) then - 1 else 1)"
  by (simp_all add: demo_blib_def method_lib.defs)

lemma demo_blib_ok: "sha256_ok demo_blib" "base64url_ok demo_blib" "tx_build_ok demo_blib"
proof -
  show "sha256_ok demo_blib" using demo_mlib_ok(1) by (simp add: sha256_ok_def demo_mlib_def)
  show "base64url_ok demo_blib" using demo_mlib_ok(3) by (simp add: base64url_ok_def demo_mlib_def)
  have "map_option snd x = Option.bind x (\<lambda>(ty, h). Some h)" for x :: "(string \<times> bytes) option" by (cases x) auto
  then show "tx_build_ok demo_blib" by (auto simp: tx_build_ok_def)
qed

section \<open>A funded beacon\<close>

definition demo_key :: bytes where "demo_key = [2, 5]"
definition demo_baddr :: string where "demo_baddr = ''p2tr'' @ demo_hex [5]"

definition demo_utxo :: "string \<Rightarrow> bool \<Rightarrow> int \<Rightarrow> int \<Rightarrow> AddressUtxo" where
  "demo_utxo txid confirmed height v = \<lparr>ut_txid = txid, ut_vout = 0, ut_confirmed = confirmed, ut_block_height = height, ut_value = v\<rparr>"

definition demo_utxos :: "AddressUtxo list" where
  "demo_utxos = [demo_utxo ''aa'' True 9 5000, demo_utxo ''bb'' True 7 5000, demo_utxo ''cc'' False 0 9000]"

definition demo_conn :: BitcoinConnection where
  "demo_conn = \<lparr>bc_getUtxos = \<lambda>a. if a = demo_baddr then Some demo_utxos else None, bc_getHex = \<lambda>t. Some ''00'',
     bc_send = \<lambda>h. Some ''bb'', bc_data = ''bitcoin''\<rparr>"

definition demo_txSigner :: TxSigner where
  "demo_txSigner = \<lparr>xs_publicKey = demo_key, xs_sign = \<lambda>m scheme. Some m\<rparr>"

definition demo_options :: BroadcastOptions where
  "demo_options = \<lparr>bo_feeEstimator = None, bo_changeAddress = None, bo_casPublish = Some (\<lambda>a. Some ())\<rparr>"

definition demo_uri :: string where "demo_uri = ''bitcoin:'' @ demo_baddr"

definition demo_bservice :: jsval where
  "demo_bservice = JObj [(''id'', JStr ''did:x#b''), (''type'', JStr ''CASBeacon''),
     (''serviceEndpoint'', JStr demo_uri)]"

lemma demo_selected: "selectSpendableUtxo demo_blib demo_utxos = Inr (demo_utxo ''bb'' True 7 5000)"
  by (simp add: selectSpendableUtxo_def demo_utxos_def demo_utxo_def sort_by_def byDepthThenId_def SPENDABLE_DUST_LIMIT_SATS_def)


lemma demo_decoded: "demo_address demo_baddr = Some (''tr'', [5])"
  by code_simp

lemma demo_endpoint: "replace_first ''bitcoin:'' [] demo_uri = demo_baddr"
  by code_simp

definition demo_plan :: "demo_btx BeaconTxPlan" where
  "demo_plan = \<lparr>pl_tx = ([(''bb'', 0)], [(Some [5], 4200), (Some [2], 0)]), pl_prevOutScripts = [[5]], pl_prevOutValues = [5000],
     pl_beaconAddress = demo_baddr, pl_changeAddress = demo_baddr, pl_utxo = demo_utxo ''bb'' True 7 5000, pl_feeSats = 800, pl_scriptKind = P2tr\<rparr>"

lemma demo_built:
  "buildSinglePartyTx demo_blib signal demo_baddr (demo_utxo ''bb'' True 7 5000) prev demo_txSigner demo_conn
     (DEFAULT_FEE_ESTIMATOR demo_blib) None = Inr demo_plan"
proof -
  have k: "detectSingletonScriptKind demo_blib demo_baddr net = Inr P2tr" for net
    by (simp add: detectSingletonScriptKind_def demo_decoded)
  have d: "deriveSingletonAddress demo_blib P2tr [2, 5] net = Inr demo_baddr" for net
    by (simp add: deriveSingletonAddress_def kind_key_def demo_baddr_def)
  have f: "DEFAULT_FEE_ESTIMATOR demo_blib (beaconTxVsize P2tr P2tr) = Inr 800"
    by (simp add: DEFAULT_FEE_ESTIMATOR_def staticEstimateFee_def beaconTxVsize_def)
  show ?thesis
    by (simp add: buildSinglePartyTx_def Let_def k d f changeOutputKind_def resolveChangeAddress_def demo_txSigner_def demo_conn_def
        kind_key_def demo_key_def addBeaconOutputs_def opReturnScript_def demo_decoded demo_plan_def demo_utxo_def)
qed

lemma demo_tx:
  "beaconTxHex demo_blib demo_bservice signal demo_txSigner demo_conn demo_options = Inr (demo_plan, ''00'')"
proof -
  have "fetchSpendableUtxo demo_blib demo_baddr demo_conn = Inr (demo_utxo ''bb'' True 7 5000, demo_unhex ''00'')"
    by (simp add: fetchSpendableUtxo_def demo_conn_def demo_selected)
  moreover have "signSinglePartyTx demo_blib demo_plan demo_txSigner = Inr ''00''"
    by (simp add: signSinglePartyTx_def signSingletonInput_def demo_plan_def demo_txSigner_def)
  ultimately show ?thesis
    by (simp add: beaconTxHex_def Let_def demo_bservice_def own_def demo_endpoint demo_built demo_options_def)
qed

end
