(* ===== verification/BroadcastProps.thy ===== *)
theory BroadcastProps
  imports DemoBroadcast AggProtocol
begin

text \<open>
  Properties of broadcasting: a broadcast update resolves from what the broadcast returns, the
  transactions conserve value and end with the signal, the choice of the output to spend depends on
  the outputs alone, and an announcement is published before anything is spent.
\<close>

section \<open>Sorting with a comparator\<close>

lemma set_insert_by [simp]: "set (insert_by cmp x ys) = insert x (set ys)"
  by (induction ys) auto

lemma set_sort_by [simp]: "set (sort_by cmp xs) = set xs"
  by (induction xs) (auto simp: sort_by_def)

lemma hd_sort_by:
  "hd (sort_by cmp (x # xs)) = (if xs = [] \<or> cmp x (hd (sort_by cmp xs)) \<le> 0 then x else hd (sort_by cmp xs))"
proof -
  have "hd (insert_by cmp x ys) = (if ys = [] \<or> cmp x (hd ys) \<le> 0 then x else hd ys)" for ys by (cases ys) auto
  moreover have "sort_by cmp xs = [] \<longleftrightarrow> xs = []" using set_sort_by [of cmp xs] by (metis set_empty)
  ultimately show ?thesis by (simp add: sort_by_def)
qed

definition preorder_on :: "('a \<Rightarrow> 'a \<Rightarrow> int) \<Rightarrow> 'a set \<Rightarrow> bool" where
  "preorder_on cmp X \<longleftrightarrow> (\<forall>a \<in> X. \<forall>b \<in> X. cmp a b \<le> 0 \<or> cmp b a \<le> 0) \<and>
     (\<forall>a \<in> X. \<forall>b \<in> X. \<forall>c \<in> X. cmp a b \<le> 0 \<longrightarrow> cmp b c \<le> 0 \<longrightarrow> cmp a c \<le> 0)"

lemma preorder_onD:
  assumes "preorder_on cmp X"
  shows "a \<in> X \<Longrightarrow> b \<in> X \<Longrightarrow> cmp a b \<le> 0 \<or> cmp b a \<le> 0"
    "a \<in> X \<Longrightarrow> b \<in> X \<Longrightarrow> c \<in> X \<Longrightarrow> cmp a b \<le> 0 \<Longrightarrow> cmp b c \<le> 0 \<Longrightarrow> cmp a c \<le> 0"
    "Y \<subseteq> X \<Longrightarrow> preorder_on cmp Y"
  using assms unfolding preorder_on_def by blast+

lemma hd_sort_least:
  assumes "preorder_on cmp (set xs)" "y \<in> set xs"
  shows "hd (sort_by cmp xs) \<in> set xs \<and> cmp (hd (sort_by cmp xs)) y \<le> 0"
  using assms
proof (induction xs arbitrary: y)
  case (Cons x xs)
  let ?h = "hd (sort_by cmp xs)"
  note pre = preorder_onD [OF Cons.prems(1)]
  have refl: "cmp x x \<le> 0" using pre(1) [of x x] by simp
  show ?case
  proof (cases "xs = []")
    case True
    then show ?thesis using Cons.prems(2) refl by (simp add: hd_sort_by)
  next
    case False
    then obtain z where "z \<in> set xs" by (meson hd_in_set)
    with Cons.IH [OF pre(3)] have h: "?h \<in> set xs" "\<And>y. y \<in> set xs \<Longrightarrow> cmp ?h y \<le> 0" by auto
    have "cmp x y \<le> 0" if "cmp x ?h \<le> 0" "y \<in> set xs" for y
      by (rule pre(2) [of x ?h y]) (use that h in simp_all)
    moreover have "cmp ?h x \<le> 0" if "\<not> cmp x ?h \<le> 0" using pre(1) [of x ?h] h that by simp
    ultimately show ?thesis using False h Cons.prems(2) refl by (auto simp: hd_sort_by)
  qed
qed simp

section \<open>The choice of the output to spend\<close>

text \<open>\<open>localeCompare\<close> orders the transaction ids, which are lowercase hexadecimal.\<close>

definition locale_order :: "('tx, 'x) broadcast_lib_scheme \<Rightarrow> string set \<Rightarrow> bool" where
  "locale_order L X \<longleftrightarrow> preorder_on (locale_compare L) X \<and>
     (\<forall>a \<in> X. \<forall>b \<in> X. (locale_compare L a b = 0 \<longleftrightarrow> a = b) \<and> (locale_compare L a b < 0 \<longleftrightarrow> 0 < locale_compare L b a))"

lemma byDepth_le:
  "byDepthThenId L a b \<le> 0 \<longleftrightarrow> ut_block_height a < ut_block_height b \<or> ut_block_height a = ut_block_height b \<and>
     (locale_compare L (ut_txid a) (ut_txid b) < 0 \<or> locale_compare L (ut_txid a) (ut_txid b) = 0 \<and> ut_vout a \<le> ut_vout b)"
  by (auto simp: byDepthThenId_def Let_def)

lemma locale_orderD:
  assumes "locale_order L X" "a \<in> X" "b \<in> X"
  shows "locale_compare L a b = 0 \<longleftrightarrow> a = b" "locale_compare L a b < 0 \<longleftrightarrow> 0 < locale_compare L b a"
    "c \<in> X \<Longrightarrow> locale_compare L a b < 0 \<Longrightarrow> locale_compare L b c < 0 \<Longrightarrow> locale_compare L a c < 0"
proof -
  have all: "\<And>a b. a \<in> X \<Longrightarrow> b \<in> X \<Longrightarrow> (locale_compare L a b = 0 \<longleftrightarrow> a = b)"
    "\<And>a b. a \<in> X \<Longrightarrow> b \<in> X \<Longrightarrow> (locale_compare L a b < 0 \<longleftrightarrow> 0 < locale_compare L b a)"
    and pre: "preorder_on (locale_compare L) X"
    using assms(1) unfolding locale_order_def by blast+
  show "locale_compare L a b = 0 \<longleftrightarrow> a = b" "locale_compare L a b < 0 \<longleftrightarrow> 0 < locale_compare L b a"
    using all assms(2,3) by blast+
  assume c: "c \<in> X" and lt: "locale_compare L a b < 0" "locale_compare L b c < 0"
  then have "locale_compare L a c \<le> 0" using preorder_onD(2) [OF pre, of a b c] assms(2,3) by simp
  moreover have "locale_compare L a c \<noteq> 0"
  proof
    assume "locale_compare L a c = 0"
    then have "a = c" using all(1) assms(2) c by blast
    with lt all(2) [of b a] assms(2,3) show False by simp
  qed
  ultimately show "locale_compare L a c < 0" by simp
qed

lemma byDepth_order:
  assumes "locale_order L (ut_txid ` U)"
  shows "preorder_on (byDepthThenId L) U"
    "a \<in> U \<Longrightarrow> b \<in> U \<Longrightarrow> byDepthThenId L a b \<le> 0 \<Longrightarrow> byDepthThenId L b a \<le> 0 \<Longrightarrow> ut_txid a = ut_txid b \<and> ut_vout a = ut_vout b"
proof -
  note o = locale_orderD [OF assms imageI imageI]
  show "preorder_on (byDepthThenId L) U"
    unfolding preorder_on_def
  proof (intro conjI ballI impI)
    fix a b assume ab: "a \<in> U" "b \<in> U"
    have "locale_compare L (ut_txid a) (ut_txid b) = 0 \<longleftrightarrow> locale_compare L (ut_txid b) (ut_txid a) = 0"
      using o(1) [OF ab] o(1) [OF ab(2,1)] by auto
    then show "byDepthThenId L a b \<le> 0 \<or> byDepthThenId L b a \<le> 0"
      using o(2) [OF ab] unfolding byDepth_le by linarith
  next
    fix a b c assume U: "a \<in> U" "b \<in> U" "c \<in> U" and le: "byDepthThenId L a b \<le> 0" "byDepthThenId L b c \<le> 0"
    let ?c = "\<lambda>a b. locale_compare L (ut_txid a) (ut_txid b)"
    have "?c a b = 0 \<Longrightarrow> ?c a c = ?c b c" "?c b c = 0 \<Longrightarrow> ?c a c = ?c a b"
      using o(1) [OF U(1,2)] o(1) [OF U(2,3)] by simp_all
    moreover have "?c a b < 0 \<Longrightarrow> ?c b c < 0 \<Longrightarrow> ?c a c < 0" using o(3) [OF U(1,2) imageI [OF U(3)]] .
    ultimately show "byDepthThenId L a c \<le> 0" using le unfolding byDepth_le by linarith
  qed
  assume ab: "a \<in> U" "b \<in> U" and le: "byDepthThenId L a b \<le> 0" "byDepthThenId L b a \<le> 0"
  from le o(2) [OF ab] o(2) [OF ab(2,1)] have "locale_compare L (ut_txid a) (ut_txid b) = 0" "ut_vout a = ut_vout b"
    unfolding byDepth_le by linarith+
  with o(1) [OF ab] show "ut_txid a = ut_txid b \<and> ut_vout a = ut_vout b" by simp
qed

definition spendable_utxo :: "AddressUtxo \<Rightarrow> bool" where
  "spendable_utxo u \<longleftrightarrow> ut_confirmed u \<and> 546 < ut_value u"

lemma selected:
  assumes "locale_order L (ut_txid ` set utxos)" "selectSpendableUtxo L utxos = Inr u"
  shows "u \<in> set utxos \<and> spendable_utxo u \<and> (\<forall>v \<in> set utxos. spendable_utxo v \<longrightarrow> byDepthThenId L u v \<le> 0)"
proof -
  let ?s = "filter (\<lambda>u. SPENDABLE_DUST_LIMIT_SATS < ut_value u) (filter ut_confirmed utxos)"
  have s: "set ?s = {u \<in> set utxos. spendable_utxo u}"
    by (auto simp: spendable_utxo_def SPENDABLE_DUST_LIMIT_SATS_def)
  from assms(2) have ne: "?s \<noteq> []" and u: "u = hd (sort_by (byDepthThenId L) ?s)"
    by (auto simp: selectSpendableUtxo_def beacon_error_def Let_def split: if_splits)
  have "preorder_on (byDepthThenId L) (set ?s)"
    using byDepth_order(1) [OF assms(1)] unfolding s preorder_on_def by blast
  from hd_sort_least [OF this] have least: "y \<in> set ?s \<Longrightarrow> u \<in> set ?s \<and> byDepthThenId L u y \<le> 0" for y unfolding u by blast
  moreover have "hd ?s \<in> set ?s" using ne by (rule hd_in_set)
  ultimately show ?thesis unfolding s by blast
qed

lemma selects_iff: "(\<exists>u. selectSpendableUtxo L utxos = Inr u) \<longleftrightarrow> (\<exists>u \<in> set utxos. spendable_utxo u)"
  by (auto simp: selectSpendableUtxo_def beacon_error_def Let_def spendable_utxo_def SPENDABLE_DUST_LIMIT_SATS_def filter_empty_conv)

text \<open>The output to spend is a function of the set of outputs at the address: whatever the order
  in which the server lists them, the same one is chosen. It is confirmed, above the dust limit, and
  no other such output is in an earlier block. An error is reported exactly if there is none.\<close>

theorem utxo_selection_deterministic:
  assumes "locale_order L (ut_txid ` set utxos)" "inj_on (\<lambda>u. (ut_txid u, ut_vout u)) (set utxos)" "mset utxos' = mset utxos"
  shows "selectSpendableUtxo L utxos' = selectSpendableUtxo L utxos \<and>
    (case selectSpendableUtxo L utxos of
       Inl e \<Rightarrow> \<not> (\<exists>v \<in> set utxos. ut_confirmed v \<and> 546 < ut_value v)
     | Inr u \<Rightarrow> u \<in> set utxos \<and> ut_confirmed u \<and> 546 < ut_value u \<and>
         (\<forall>v \<in> set utxos. ut_confirmed v \<and> 546 < ut_value v \<longrightarrow> ut_block_height u \<le> ut_block_height v))"
proof -
  have set_eq: "set utxos' = set utxos" using assms(3) by (rule mset_eq_setD)
  have empty: "utxos' = [] \<longleftrightarrow> utxos = []" using set_eq by auto
  have exists: "(\<exists>u. selectSpendableUtxo L us = Inr u) \<longleftrightarrow> (\<exists>u \<in> set us. spendable_utxo u)" for us by (rule selects_iff)
  have height: "ut_block_height u \<le> ut_block_height v" if "byDepthThenId L u v \<le> 0" for u v
    using that by (auto simp: byDepthThenId_def Let_def split: if_splits)
  show ?thesis
  proof (cases "selectSpendableUtxo L utxos")
    case (Inr u)
    note u = selected [OF assms(1) Inr]
    then obtain u' where u': "selectSpendableUtxo L utxos' = Inr u'" using exists set_eq by metis
    note sel = selected [OF _ u', unfolded set_eq, OF assms(1)]
    have "ut_txid u = ut_txid u' \<and> ut_vout u = ut_vout u'"
      using byDepth_order(2) [OF assms(1)] u sel by blast
    then have "u = u'" using inj_onD [OF assms(2), of u u'] u sel by simp
    then show ?thesis using u u' Inr height by (auto simp: spendable_utxo_def)
  next
    case (Inl e)
    then have "\<not> (\<exists>v \<in> set utxos. spendable_utxo v)" using exists by (metis sum.distinct(1))
    moreover from this have "filter (\<lambda>u. SPENDABLE_DUST_LIMIT_SATS < ut_value u) (filter ut_confirmed us) = []"
      if "set us = set utxos" for us
      using that by (auto simp: filter_empty_conv spendable_utxo_def SPENDABLE_DUST_LIMIT_SATS_def)
    ultimately show ?thesis using Inl set_eq empty
      by (auto simp: selectSpendableUtxo_def Let_def spendable_utxo_def split: if_splits)
  qed
qed

lemma utxo_selection_deterministic_witness:
  "selectSpendableUtxo demo_blib (rev demo_utxos) = Inr (demo_utxo ''bb'' True 7 5000)"
proof -
  have "locale_order demo_blib (ut_txid ` set demo_utxos)" by code_simp
  moreover have "inj_on (\<lambda>u. (ut_txid u, ut_vout u)) (set demo_utxos)" by (auto simp: demo_utxos_def demo_utxo_def)
  ultimately show ?thesis using utxo_selection_deterministic [of demo_blib demo_utxos "rev demo_utxos"] demo_selected by simp
qed

section \<open>The transaction\<close>

text \<open>A plan for a signal, made by either builder.\<close>

definition plan_for :: "('tx, 'x) broadcast_lib_scheme \<Rightarrow> string \<Rightarrow> bytes \<Rightarrow> 'tx BeaconTxPlan \<Rightarrow> bool" where
  "plan_for L net signalBytes plan \<longleftrightarrow>
     (\<exists>addr u prev signer bitcoin fee change. bc_data bitcoin = net \<and>
        buildSinglePartyTx L signalBytes addr u prev signer bitcoin fee change = Inr plan) \<or>
     (\<exists>addr key bitcoin fee change. buildAggregationBeaconTx L addr key signalBytes bitcoin net fee change = Inr plan)"

lemma outputs_added:
  assumes "tx_build_ok L" "addBeaconOutputs L change kind net v signal tx = Inr tx'"
  shows "tx_inputs L tx' = tx_inputs L tx \<and>
    (\<exists>script. opReturnScript L signal = Inr script \<and>
       (if BEACON_DUST_LIMIT_SATS kind \<le> v
        then tx_outputScripts L tx' = tx_outputScripts L tx @ [Option.bind (address_decode L net change) (outscript_encode L), Some script] \<and>
          tx_outputAmounts L tx' = tx_outputAmounts L tx @ [v, 0]
        else tx_outputScripts L tx' = tx_outputScripts L tx @ [Some script] \<and> tx_outputAmounts L tx' = tx_outputAmounts L tx @ [0]))"
  using assms by (auto simp: addBeaconOutputs_def rbind_Inr_iff tx_build_ok_def split: if_splits)

lemma plan_parts:
  assumes "plan_for L net signal plan"
  obtains i tx kind where "tx_addInput L i (tx_new L) = Some tx" "ti_txid i = ut_txid (pl_utxo plan)" "ti_index i = ut_vout (pl_utxo plan)"
    "kind = changeOutputKind L (pl_changeAddress plan) net" "pl_feeSats plan < ut_value (pl_utxo plan)"
    "addBeaconOutputs L (pl_changeAddress plan) kind net (ut_value (pl_utxo plan) - pl_feeSats plan) signal tx = Inr (pl_tx plan)"
    "pl_prevOutValues plan = [ut_value (pl_utxo plan)]"
  using assms
  by (auto simp: plan_for_def buildSinglePartyTx_def buildAggregationBeaconTx_def Let_def rbind_Inr_iff beacon_error_def
      split: if_splits)

text \<open>C14: The transaction of a plan, for one party or a cohort, spends exactly the selected output, and
  no value is lost: the outputs and the planned fee add up to the value spent, except that a change
  below the dust limit of its script kind is left to the fee. The signal is in the last output, of
  amount zero, after at most one change output.\<close>

theorem beacon_tx_conserves_value:
  assumes "tx_build_ok L" "plan_for L net signal plan"
  shows "tx_inputs L (pl_tx plan) = [(ut_txid (pl_utxo plan), ut_vout (pl_utxo plan))] \<and>
    (\<exists>script. opReturnScript L signal = Inr script \<and> last (tx_outputScripts L (pl_tx plan)) = Some script) \<and>
    last (tx_outputAmounts L (pl_tx plan)) = 0 \<and> pl_feeSats plan < ut_value (pl_utxo plan) \<and>
    (let change = ut_value (pl_utxo plan) - pl_feeSats plan in
       if BEACON_DUST_LIMIT_SATS (changeOutputKind L (pl_changeAddress plan) net) \<le> change
       then tx_outputAmounts L (pl_tx plan) = [change, 0] \<and>
         hd (tx_outputScripts L (pl_tx plan)) = Option.bind (address_decode L net (pl_changeAddress plan)) (outscript_encode L)
       else tx_outputAmounts L (pl_tx plan) = [0])"
proof -
  obtain i tx kind where p: "tx_addInput L i (tx_new L) = Some tx" "ti_txid i = ut_txid (pl_utxo plan)" "ti_index i = ut_vout (pl_utxo plan)"
    "kind = changeOutputKind L (pl_changeAddress plan) net" "pl_feeSats plan < ut_value (pl_utxo plan)"
    "addBeaconOutputs L (pl_changeAddress plan) kind net (ut_value (pl_utxo plan) - pl_feeSats plan) signal tx = Inr (pl_tx plan)"
    by (rule plan_parts [OF assms(2)])
  have "tx_inputs L tx = [(ut_txid (pl_utxo plan), ut_vout (pl_utxo plan))]" "tx_outputScripts L tx = []" "tx_outputAmounts L tx = []"
    using assms(1) p(1-3) unfolding tx_build_ok_def by auto
  with outputs_added [OF assms(1) p(6)] p(4,5) show ?thesis
    unfolding Let_def by (auto split: if_splits)
qed

lemma beacon_tx_conserves_value_witness:
  "tx_inputs demo_blib (pl_tx demo_plan) = [(''bb'', 0)] \<and> last (tx_outputAmounts demo_blib (pl_tx demo_plan)) = 0"
proof -
  have "bc_data demo_conn = ''bitcoin''" by (simp add: demo_conn_def)
  with demo_built have "plan_for demo_blib ''bitcoin'' [] demo_plan" unfolding plan_for_def by blast
  moreover have "pl_utxo demo_plan = demo_utxo ''bb'' True 7 5000" by (simp add: demo_plan_def)
  ultimately show ?thesis
    using beacon_tx_conserves_value [OF demo_blib_ok(3), of "''bitcoin''" "[]" demo_plan] by (simp only: demo_utxo_def AddressUtxo.simps)
qed

section \<open>What a broadcast returns resolves\<close>

text \<open>The sidecar data that the controller keeps from a broadcast.\<close>

definition broadcast_sidecar :: "BroadcastResult \<Rightarrow> Sidecar" where
  "broadcast_sidecar r =
     \<lparr>sc_genesisDocument = None, sc_updates = [br_signedUpdate r],
      sc_casUpdates = (case br_announcement r of None \<Rightarrow> [] | Some a \<Rightarrow> [a]),
      sc_smtProofs = (case br_proof r of None \<Rightarrow> [] | Some p \<Rightarrow> [proofValue p])\<rparr>"

text \<open>The three ways to a result: the signal, and the two artifacts.\<close>

lemma broadcast_Inr:
  assumes "snd (broadcastSignal L nonce service u signer bitcoin options) = Inr r" "u \<noteq> JUndef"
  obtains signal plan hex a p where
    "beaconTxHex L service signal signer bitcoin options = Inr (plan, hex)"
    "last (fst (broadcastSignal L nonce service u signer bitcoin options)) = TxSent hex"
    "bc_send bitcoin hex = Some (br_txid r)"
    "br_signedUpdate r = u" "br_announcement r = a" "br_proof r = p"
    "js_prop_opt service ''type'' = JStr ''SingletonBeacon'' \<and> signal = canon_hash L u \<and> a = None \<and> p = None \<or>
     js_prop_opt service ''type'' = JStr ''CASBeacon'' \<and> p = None \<and>
       (\<exists>ann. a = Some ann \<and> casAnnouncementOf L service u = Inr (ann, signal)) \<or>
     js_prop_opt service ''type'' = JStr ''SMTBeacon'' \<and> a = None \<and>
       (\<exists>sp. p = Some sp \<and> smtSignalOf L nonce service u = Inr (sp, signal))"
proof -
  have fin: "\<exists>plan hex. beaconTxHex L service signal signer bitcoin options = Inr (plan, hex) \<and>
      fst x = effs @ [TxSent hex] \<and> bc_send bitcoin hex = Some (br_txid r) \<and>
      br_signedUpdate r = u \<and> br_announcement r = a \<and> br_proof r = p"
    if "x = finishBroadcast effs (buildSignAndBroadcast L service signal signer bitcoin options) u a p" "snd x = Inr r"
    for x effs signal a p
    using that by (auto simp: finishBroadcast_def buildSignAndBroadcast_def broadcastRawTx_def rbind_Inr_iff split: sum.splits prod.splits)
  let ?b = "broadcastSignal L nonce service u signer bitcoin options"
  consider (single) "js_prop_opt service ''type'' = JStr ''SingletonBeacon''"
      "?b = finishBroadcast [] (buildSignAndBroadcast L service (canon_hash L u) signer bitcoin options) u None None"
    | (cas) ann effs signal where "js_prop_opt service ''type'' = JStr ''CASBeacon''" "casAnnouncementOf L service u = Inr (ann, signal)"
      "?b = finishBroadcast effs (buildSignAndBroadcast L service signal signer bitcoin options) u (Some ann) None"
    | (smt) sp signal where "js_prop_opt service ''type'' = JStr ''SMTBeacon''" "smtSignalOf L nonce service u = Inr (sp, signal)"
      "?b = finishBroadcast [] (buildSignAndBroadcast L service signal signer bitcoin options) u None (Some sp)"
    using assms
    by (auto simp: broadcastSignal_def broadcastSingleton_def broadcastCAS_def broadcastSMT_def canon_hash_def Let_def
        split: if_splits sum.splits prod.splits option.splits)
  then show thesis
  proof cases
    case single
    from fin [OF single(2) assms(1)] single(1) that [of "canon_hash L u"] show thesis by fastforce
  next
    case cas
    from fin [OF cas(3) assms(1)] cas(1,2) that [of signal] show thesis by fastforce
  next
    case smt
    from fin [OF smt(3) assms(1)] smt(1,2) that [of signal] show thesis by fastforce
  qed
qed

lemma smtSignal_Inr:
  assumes "smtSignalOf L nonce service u = Inr (p, signal)" "sha256_ok L" "base64url_ok L" "u \<noteq> JUndef" "length nonce = 32"
  obtains did j where "serviceDid service = Inr did" "didToIndex L did = Inr j" "sp_id p = base64url_encode L signal"
    "sp_nonce p = Some (base64url_encode L nonce)" "sp_updateId p = Some (base64url_encode L (sha256 L (update_bytes L u)))"
    "verifySerializedProof L p j (inclusionLeafHash L nonce (update_bytes L u)) = Inr True"
proof -
  from assms(1) obtain did where did: "serviceDid service = Inr did" by (auto simp: smtSignalOf_def rbind_Inr_iff)
  let ?e = "\<lparr>te_did = did, te_nonce = nonce, te_signedUpdate = Some (update_bytes L u)\<rparr>"
  from assms(1,4) did obtain t where t: "addEntries L [?e] newMerkleTree = (t, Inr ())"
    and p: "treeProof L did (finalizeTree L t) = Inr p" "rootHash (finalizeTree L t) = Inr signal"
    by (auto simp: smtSignalOf_def rbind_Inr_iff update_bytes_def Let_def split: prod.splits sum.splits)
  obtain j where j: "didToIndex L did = Inr j" using didToIndex_Inr [OF assms(2)] by blast
  then have "jm_get (mt_entries t) j = Some ?e" using t by (simp add: addEntries_entries)
  from treeProof_finalized [OF assms(2,3) addEntries_inv [OF tree_inv_new t] this] assms(5) p
  have "verifySerializedProof L p j (entryLeaf L ?e) = Inr True" "sp_id p = base64url_encode L (zeroHashRoot L (tree_leaves L t))"
    "sp_nonce p = Some (base64url_encode L nonce)" "sp_updateId p = Some (base64url_encode L (sha256 L (update_bytes L u)))" by auto
  moreover have "signal = zeroHashRoot L (tree_leaves L t)"
    using p(2) by (simp add: rootHash_def finalizeTree_def Let_def tree_leaves_def)
  ultimately show thesis using that [OF did j] by (simp add: entryLeaf_def)
qed

text \<open>What each kind of beacon finds in the sidecar of the broadcast.\<close>

lemma singleton_resolves:
  assumes "truthy u" "bs_signalBytes (s :: BeaconSignal) = hex_encode L (canon_hash L u)"
    "sd_updateMap sd = [(hex_encode L (canon_hash L u), u)]"
  shows "singletonStep service sd s = Inr (Found u)"
  using assms by (simp add: singletonStep_def)

lemma cas_resolves:
  assumes "truthy u" "sha256_ok L" "base64url_ok L" "bs_signalBytes (s :: BeaconSignal) = hex_encode L signal"
    "casAnnouncementOf L service u = Inr (ann, signal)"
    "sd_updateMap sd = [(hex_encode L (canon_hash L u), u)]" "sd_casMap sd = [(hex_encode L signal, ann)]"
  shows "\<exists>did. serviceDid service = Inr did \<and> casStep L service did sd s = Inr (Found u) \<and> ann \<noteq> JUndef \<and> signal = canon_hash L ann"
proof -
  have u: "u \<noteq> JUndef" using assms(1) by auto
  from assms(5) u obtain did where did: "serviceDid service = Inr did"
    and ann: "ann = JObj [(did, JStr (base64url_encode L (canon_hash L u)))]" "signal = canon_hash L ann"
    by (auto simp: casAnnouncementOf_def rbind_Inr_iff Let_def canon_hash_def)
  have "base64url_encode L (canon_hash L u) \<noteq> []" using assms(2,3) by (simp add: canon_hash_def hash_of_def flip: length_greater_0_conv)
  then have "casStep L service did sd s = Inr (Found u)"
    using assms by (simp add: casStep_alt casUpdateHash_def own_def updateOutcome_def ann(1))
  with did ann show ?thesis by simp
qed

lemma smt_resolves:
  assumes "truthy u" "sha256_ok L" "base64url_ok L" "hex_ok L" "length nonce = 32" "bs_signalBytes (s :: BeaconSignal) = hex_encode L signal"
    "smtSignalOf L nonce service u = Inr (p, signal)"
    "sd_updateMap sd = [(hex_encode L (canon_hash L u), u)]" "sd_smtMap sd = [(hex_encode L signal, proofValue p)]"
  shows "\<exists>did. serviceDid service = Inr did \<and> smtStep L service did sd s = Inr (Found u) \<and> sp_id p = base64url_encode L signal"
proof -
  have "u \<noteq> JUndef" using assms(1) by auto
  from smtSignal_Inr [OF assms(7,2,3) this assms(5)] obtain did j where
    p: "serviceDid service = Inr did" "didToIndex L did = Inr j" "sp_id p = base64url_encode L signal"
    "sp_nonce p = Some (base64url_encode L nonce)" "sp_updateId p = Some (base64url_encode L (sha256 L (update_bytes L u)))"
    "verifySerializedProof L p j (inclusionLeafHash L nonce (update_bytes L u)) = Inr True" .
  have n32: "isValidHash nonce" "isValidHash (sha256 L (update_bytes L u))"
    using assms(2,5) by (simp_all add: isValidHash_def HASH_BYTE_LENGTH_def)
  then have ne: "base64url_encode L nonce \<noteq> []" "base64url_encode L (sha256 L (update_bytes L u)) \<noteq> []"
    using base64url_encode_hash [OF assms(3)] by auto
  then have "smtStep L service did sd s = Inr (Found u)" using n32 assms p
    by (simp add: smtStep_alt smtUpdateHash_def updateOutcome_def base64UrlToHash_encode inclusionLeafHash_def blockHash_def
        hashToHex_alt hex_ok_def canon_hash_update_bytes)
  with p show ?thesis by blast
qed

text \<open>C10: A broadcast is resolvable from what it returns: when \<open>broadcastSignal\<close> of any kind of beacon
  succeeds, the last thing it did was to send the signed transaction of a plan for a signal, and a
  resolver that sees this signal and is given the update, the announcement and the proof of the result
  finds exactly the update, with nothing left to ask for.\<close>

theorem broadcast_resolves:
  fixes L :: "('tx, 'x) broadcast_lib_scheme"
  assumes "sha256_ok L" "base64url_ok L" "hex_ok L" "truthy u" "length nonce = 32"
    "snd (broadcastSignal L nonce service u signer bitcoin options) = Inr r"
  shows "\<exists>signal plan hex sd. beaconTxHex L service signal signer bitcoin options = Inr (plan, hex) \<and>
    plan_for L (bc_data bitcoin) signal plan \<and>
    last (fst (broadcastSignal L nonce service u signer bitcoin options)) = TxSent hex \<and> bc_send bitcoin hex = Some (br_txid r) \<and>
    sidecarData L (broadcast_sidecar r) = Inr sd \<and>
    (\<forall>s :: BeaconSignal. bs_signalBytes s = hex_encode L signal \<longrightarrow>
       processSignals L service [s] sd = Inr ([(u, bs_blockMetadata s)], []))"
proof -
  have u: "u \<noteq> JUndef" using assms(4) by auto
  from broadcast_Inr [OF assms(6) u] obtain signal plan hex a p where
    tx: "beaconTxHex L service signal signer bitcoin options = Inr (plan, hex)"
      "last (fst (broadcastSignal L nonce service u signer bitcoin options)) = TxSent hex" "bc_send bitcoin hex = Some (br_txid r)"
    and r: "br_signedUpdate r = u" "br_announcement r = a" "br_proof r = p"
    and kinds: "js_prop_opt service ''type'' = JStr ''SingletonBeacon'' \<and> signal = canon_hash L u \<and> a = None \<and> p = None \<or>
     js_prop_opt service ''type'' = JStr ''CASBeacon'' \<and> p = None \<and>
       (\<exists>ann. a = Some ann \<and> casAnnouncementOf L service u = Inr (ann, signal)) \<or>
     js_prop_opt service ''type'' = JStr ''SMTBeacon'' \<and> a = None \<and>
       (\<exists>sp. p = Some sp \<and> smtSignalOf L nonce service u = Inr (sp, signal))" .
  have plan: "plan_for L (bc_data bitcoin) signal plan"
    using tx(1) unfolding plan_for_def by (auto simp: beaconTxHex_def rbind_Inr_iff Let_def)
  let ?m = "[(hex_encode L (canon_hash L u), u)]"
  have "\<exists>sd. sidecarData L (broadcast_sidecar r) = Inr sd \<and>
    (\<forall>s :: BeaconSignal. bs_signalBytes s = hex_encode L signal \<longrightarrow> processSignals L service [s] sd = Inr ([(u, bs_blockMetadata s)], []))"
    using kinds
  proof (elim disjE conjE exE)
    assume k: "js_prop_opt service ''type'' = JStr ''SingletonBeacon''" "signal = canon_hash L u" "a = None" "p = None"
    have "sidecarData L (broadcast_sidecar r) = Inr \<lparr>sd_updateMap = ?m, sd_casMap = [], sd_smtMap = []\<rparr>"
      using u r k by (simp add: sidecarData_def broadcast_sidecar_def)
    moreover have "singletonStep service \<lparr>sd_updateMap = ?m, sd_casMap = [], sd_smtMap = []\<rparr> s = Inr (Found u)"
      if "bs_signalBytes s = hex_encode L signal" for s :: BeaconSignal
      by (rule singleton_resolves [OF assms(4)]) (simp_all add: that k)
    ultimately show ?thesis using k by (fastforce simp: processSignals_def processSingleton_def)
  next
    fix ann assume k: "js_prop_opt service ''type'' = JStr ''CASBeacon''" "p = None" "a = Some ann"
      "casAnnouncementOf L service u = Inr (ann, signal)"
    let ?sd = "\<lparr>sd_updateMap = ?m, sd_casMap = [(hex_encode L signal, ann)], sd_smtMap = []\<rparr>"
    note step = cas_resolves [OF assms(4,1,2) _ k(4), of _ ?sd]
    from step [of "\<lparr>bs_signalBytes = hex_encode L signal, bs_blockMetadata = undefined\<rparr>"]
    have "ann \<noteq> JUndef" "signal = canon_hash L ann" by auto
    then have "sidecarData L (broadcast_sidecar r) = Inr ?sd"
      using u r k by (simp add: sidecarData_def broadcast_sidecar_def)
    then show ?thesis using k step by (fastforce simp: processSignals_def processCAS_def)
  next
    fix sp assume k: "js_prop_opt service ''type'' = JStr ''SMTBeacon''" "a = None" "p = Some sp"
      "smtSignalOf L nonce service u = Inr (sp, signal)"
    let ?sd = "\<lparr>sd_updateMap = ?m, sd_casMap = [], sd_smtMap = [(hex_encode L signal, proofValue sp)]\<rparr>"
    note step = smt_resolves [OF assms(4,1-3,5) _ k(4), of _ ?sd]
    from step [of "\<lparr>bs_signalBytes = hex_encode L signal, bs_blockMetadata = undefined\<rparr>"]
    have "js_prop_opt (proofValue sp) ''id'' = JStr (base64url_encode L signal)"
      by (auto simp: proofValue_def own_def)
    then have "sidecarData L (broadcast_sidecar r) = Inr ?sd"
      using u r k assms(2) by (simp add: sidecarData_def broadcast_sidecar_def smtProofKey_def decodeProperty_def)
    then show ?thesis using k step by (fastforce simp: processSignals_def processSMT_def)
  qed
  with tx plan show ?thesis by blast
qed

lemma demo_announcement:
  "\<exists>ann signal. casAnnouncementOf demo_blib demo_bservice (JObj [(''a'', JInt 1)]) = Inr (ann, signal)"
proof -
  have "serviceDid demo_bservice = Inr ''did:x''" by code_simp
  then show ?thesis by (simp add: casAnnouncementOf_def Let_def)
qed

lemma demo_broadcast:
  "\<exists>ann r. broadcastSignal demo_blib (replicate 32 0) demo_bservice (JObj [(''a'', JInt 1)]) demo_txSigner demo_conn demo_options =
     ([CasPublished ann, TxSent ''00''], Inr r)"
proof -
  have "js_prop_opt demo_bservice ''type'' = JStr ''CASBeacon''" by (simp add: demo_bservice_def own_def)
  moreover have "bo_casPublish demo_options = Some (\<lambda>a. Some ())" "bc_send demo_conn ''00'' = Some ''bb''"
    by (simp_all add: demo_options_def demo_conn_def)
  ultimately show ?thesis using demo_announcement
    by (auto simp: broadcastSignal_def broadcastCAS_def finishBroadcast_def buildSignAndBroadcast_def broadcastRawTx_def demo_tx)
qed

lemma broadcast_resolves_witness:
  "\<exists>r signal sd. snd (broadcastSignal demo_blib (replicate 32 0) demo_bservice (JObj [(''a'', JInt 1)]) demo_txSigner demo_conn demo_options) = Inr r \<and>
    sidecarData demo_blib (broadcast_sidecar r) = Inr sd \<and>
    (\<forall>s :: BeaconSignal. bs_signalBytes s = hex_encode demo_blib signal \<longrightarrow>
       processSignals demo_blib demo_bservice [s] sd = Inr ([(JObj [(''a'', JInt 1)], bs_blockMetadata s)], []))"
proof -
  have hex: "hex_ok demo_blib" by (simp add: hex_ok_def demo_hex_def)
  obtain ann r where "broadcastSignal demo_blib (replicate 32 0) demo_bservice (JObj [(''a'', JInt 1)]) demo_txSigner demo_conn demo_options =
     ([CasPublished ann, TxSent ''00''], Inr r)" using demo_broadcast by blast
  then have "snd (broadcastSignal demo_blib (replicate 32 0) demo_bservice (JObj [(''a'', JInt 1)]) demo_txSigner demo_conn demo_options) = Inr r"
    by (simp only: snd_conv)
  with broadcast_resolves [OF demo_blib_ok(1,2) hex _ _ this] show ?thesis by fastforce
qed

section \<open>What happens before the output is spent\<close>

text \<open>With a \<open>casPublish\<close> callback, a CAS beacon sends its transaction only after the callback has
  published the announcement whose hash is the signal; when the announcement cannot be made or
  published, or the transaction cannot be built and signed, nothing is sent and the output is unspent.\<close>

theorem cas_published_before_spend:
  assumes "js_prop_opt service ''type'' = JStr ''CASBeacon''" "bo_casPublish options = Some publish"
    "broadcastSignal L nonce service u signer bitcoin options = (effs, res)"
  shows "(case casAnnouncementOf L service u of
      Inl e \<Rightarrow> effs = [] \<and> res = Inl e
    | Inr (ann, signal) \<Rightarrow>
        if publish ann = None then effs = [] \<and> isl res
        else case beaconTxHex L service signal signer bitcoin options of
          Inl e \<Rightarrow> effs = [CasPublished ann] \<and> res = Inl e
        | Inr (plan, hex) \<Rightarrow> effs = [CasPublished ann, TxSent hex] \<and> (isl res \<longleftrightarrow> bc_send bitcoin hex = None))"
  using assms
  by (auto simp: broadcastSignal_def broadcastCAS_def finishBroadcast_def buildSignAndBroadcast_def broadcastRawTx_def Let_def of_option_def
      split: sum.splits prod.splits option.splits if_splits)

lemma cas_published_before_spend_witness:
  "\<exists>ann r. broadcastSignal demo_blib (replicate 32 0) demo_bservice (JObj [(''a'', JInt 1)]) demo_txSigner demo_conn demo_options =
     ([CasPublished ann, TxSent ''00''], Inr r) \<and> \<not> isl (casAnnouncementOf demo_blib demo_bservice (JObj [(''a'', JInt 1)]))"
proof -
  obtain ann r where b: "broadcastSignal demo_blib (replicate 32 0) demo_bservice (JObj [(''a'', JInt 1)]) demo_txSigner demo_conn demo_options =
     ([CasPublished ann, TxSent ''00''], Inr r)" using demo_broadcast by blast
  have "js_prop_opt demo_bservice ''type'' = JStr ''CASBeacon''" "bo_casPublish demo_options = Some (\<lambda>a. Some ())"
    by (simp_all add: demo_bservice_def own_def demo_options_def)
  from cas_published_before_spend [OF this b] b show ?thesis by (intro exI [of _ ann] exI [of _ r]) (auto split: sum.splits)
qed

end
