(* ===== verification/KeyPair.thy ===== *)
theory KeyPair
  imports CryptoSuite
begin

text \<open>
  Keys: \<open>packages/keypair/src\<close> (\<open>secret.ts\<close>, \<open>pair.ts\<close>, \<open>signer.ts\<close> and the getters and conversions of
  \<open>public.ts\<close>). A \<open>CompressedSecp256k1PublicKey\<close> is the 33 bytes that its constructor has checked; a
  \<open>Secp256k1SecretKey\<close> is the record of its three private fields, which \<open>destroy\<close> clears.

  The record \<open>curve_lib\<close> has the functions of the elliptic curve library that the keys call, on
  bytes; a call that throws is \<open>None\<close>. Random bytes are an argument of the operation that draws
  them.
\<close>

section \<open>The curve\<close>

record curve_lib =
  curve_order :: int
  secp_valid_secret :: "bytes \<Rightarrow> bool"
  secp_public :: "bytes \<Rightarrow> bytes option"
  secp_uncompressed :: "bytes \<Rightarrow> bytes option"
  ecdsa_sign :: "bytes \<Rightarrow> bytes \<Rightarrow> bytes option"
  ecdsa_verify :: "bytes \<Rightarrow> bytes \<Rightarrow> bytes \<Rightarrow> bool option"
  ecdsa_sign_der :: "bytes \<Rightarrow> bytes \<Rightarrow> bytes option"
  ecdsa_verify_der :: "bytes \<Rightarrow> bytes \<Rightarrow> bytes \<Rightarrow> bool option"
  schnorr_sign :: "bytes \<Rightarrow> bytes \<Rightarrow> bytes \<Rightarrow> bytes option"
  taproot_tweak_secret :: "bytes \<Rightarrow> bytes \<Rightarrow> bytes option"

text \<open>A secret key is 32 bytes of a number from 1 to below the order. A valid secret key has a public
  key; what it signs verifies under that key. The tweak of a valid key, if there is one, is a valid
  key.\<close>

definition curve_ok :: "'x method_lib_scheme \<Rightarrow> curve_lib \<Rightarrow> bool" where
  "curve_ok L K \<longleftrightarrow>
     1 < curve_order K \<and> curve_order K \<le> 2 ^ 256 \<and>
     (\<forall>sk. secp_valid_secret K sk \<longleftrightarrow> length sk = 32 \<and> 1 \<le> bytes_to_bigint sk \<and> bytes_to_bigint sk < curve_order K) \<and>
     (\<forall>sk. secp_valid_secret K sk \<longrightarrow> (\<exists>pk. secp_public K sk = Some pk \<and> length pk = 33 \<and> secp_valid L pk \<and>
        (\<forall>data aux. length aux = 32 \<longrightarrow> (\<exists>s. schnorr_sign K data sk aux = Some s \<and> schnorr_verify L s data (xOnly pk) = Some True)) \<and>
        (\<forall>data. length data = 32 \<longrightarrow> (\<exists>s. ecdsa_sign_der K data sk = Some s \<and> ecdsa_verify_der K s data pk = Some True)))) \<and>
     (\<forall>pk. length pk = 33 \<and> secp_valid L pk \<longrightarrow> hd pk = 2 \<or> hd pk = 3) \<and>
     (\<forall>sk root' sk'. secp_valid_secret K sk \<longrightarrow> taproot_tweak_secret K sk root' = Some sk' \<longrightarrow> secp_valid_secret K sk')"

section \<open>Public keys\<close>

definition publicKeyError :: "string \<Rightarrow> error + 'a" where
  "publicKeyError code = Inl (Error ''PublicKeyError'' code)"

definition parity :: "bytes \<Rightarrow> byte result" where
  "parity pk = (if hd pk \<notin> {2, 3} then publicKeyError ''PARITY_ERROR'' else Inr (hd pk))"

definition isEven :: "bytes \<Rightarrow> bool result" where
  "isEven pk = rbind (parity pk) (\<lambda>p. Inr (p = 2))"

definition uncompressed :: "curve_lib \<Rightarrow> bytes \<Rightarrow> bytes result" where
  "uncompressed K pk = of_option (secp_uncompressed K pk)"

definition yCoordinate :: "curve_lib \<Rightarrow> bytes \<Rightarrow> bytes result" where
  "yCoordinate K pk = rbind (uncompressed K pk) (\<lambda>u. Inr (take 32 (drop 33 u)))"

record MultibaseObject =
  mb_prefix :: bytes
  mb_key :: bytes
  mb_encoded :: string

definition publicMultibase :: "'x method_lib_scheme \<Rightarrow> bytes \<Rightarrow> MultibaseObject" where
  "publicMultibase L pk =
     \<lparr>mb_prefix = [0xe7, 0x01], mb_key = [0xe7, 0x01] @ pk, mb_encoded = publicKeyMultibase L pk\<rparr>"

definition decodePublic :: "'x method_lib_scheme \<Rightarrow> bytes \<Rightarrow> bytes result" where
  "decodePublic L pk = of_option (base58_decode L (drop 1 (mb_encoded (publicMultibase L pk))))"

datatype crypto_scheme = Ecdsa | Schnorr | OtherScheme

definition publicVerify ::
  "'x method_lib_scheme \<Rightarrow> curve_lib \<Rightarrow> bytes \<Rightarrow> bytes \<Rightarrow> bytes \<Rightarrow> crypto_scheme option \<Rightarrow> bool result" where
  "publicVerify L K pk signature data opts =
     (case (case opts of None \<Rightarrow> Schnorr | Some scheme \<Rightarrow> scheme) of
        Ecdsa \<Rightarrow> of_option (ecdsa_verify K signature data pk)
      | Schnorr \<Rightarrow> of_option (schnorr_verify L signature data (xOnly pk))
      | OtherScheme \<Rightarrow> publicKeyError ''VERIFY_SIGNATURE_ERROR'')"

record PublicKeyObject =
  po_hex :: string
  po_multibase :: MultibaseObject
  po_x :: "byte list"
  po_y :: "byte list"
  po_parity :: byte

definition publicToJSON :: "'x method_lib_scheme \<Rightarrow> curve_lib \<Rightarrow> bytes \<Rightarrow> PublicKeyObject result" where
  "publicToJSON L K pk =
     rbind (yCoordinate K pk) (\<lambda>y. rbind (parity pk) (\<lambda>p.
       Inr \<lparr>po_hex = hex_encode L pk, po_multibase = publicMultibase L pk, po_x = xOnly pk, po_y = y, po_parity = p\<rparr>))"

definition publicIsValid :: "'x method_lib_scheme \<Rightarrow> bytes \<Rightarrow> bool" where
  "publicIsValid L pk = (case newPublicKey L pk of Inl _ \<Rightarrow> False | Inr _ \<Rightarrow> True)"

definition publicFromJSON :: "'x method_lib_scheme \<Rightarrow> PublicKeyObject \<Rightarrow> bytes result" where
  "publicFromJSON L json = newPublicKey L (po_parity json # po_x json)"

section \<open>Secret keys\<close>

record Secp256k1SecretKey =
  sk_bytes :: bytes
  sk_seed :: "int option"
  sk_multibase :: string

definition secretKeyError :: "string \<Rightarrow> error + 'a" where
  "secretKeyError code = Inl (Error ''SecretKeyError'' code)"

definition BIP340_SECRET_KEY_MULTIBASE_PREFIX :: bytes where
  "BIP340_SECRET_KEY_MULTIBASE_PREFIX = [0x81, 0x26]"

definition toSecret :: "bytes \<Rightarrow> int" where
  "toSecret bs = foldl (\<lambda>acc byte. push_bit 8 acc OR uint byte) 0 bs"

definition toBytes :: "curve_lib \<Rightarrow> int \<Rightarrow> bytes result" where
  "toBytes K secret =
     (let bs = map (\<lambda>i. word_of_int (drop_bit (8 * (31 - i)) secret AND 0xff)) [0..<32]
      in if \<not> secp_valid_secret K bs then secretKeyError ''SET_PRIVATE_KEY_ERROR'' else Inr bs)"

definition encodeSecret :: "'x method_lib_scheme \<Rightarrow> bytes \<Rightarrow> string" where
  "encodeSecret L bs = CHR ''z'' # base58_encode L (BIP340_SECRET_KEY_MULTIBASE_PREFIX @ bs)"

datatype entropy = EntropyBytes bytes | EntropyBigint int | EntropyOther

definition newSecretKey :: "'x method_lib_scheme \<Rightarrow> curve_lib \<Rightarrow> entropy \<Rightarrow> Secp256k1SecretKey result" where
  "newSecretKey L K entropy =
     rbind (case entropy of
         EntropyOther \<Rightarrow> secretKeyError ''CONSTRUCTOR_ERROR''
       | EntropyBytes bs \<Rightarrow> if length bs = 32 then Inr (Some bs, Some (toSecret bs)) else Inr (None, None)
       | EntropyBigint v \<Rightarrow> if 1 \<le> v \<and> v < curve_order K then rbind (toBytes K v) (\<lambda>bs. Inr (Some bs, Some v)) else Inr (None, None))
       (\<lambda>(bytes, seed).
         case (bytes, seed) of
           (None, _) \<Rightarrow> secretKeyError ''CONSTRUCTOR_ERROR''
         | (Some bs, None) \<Rightarrow> secretKeyError ''CONSTRUCTOR_ERROR''
         | (Some bs, Some v) \<Rightarrow>
             if length bs \<noteq> 32 then secretKeyError ''CONSTRUCTOR_ERROR''
             else if v < 1 \<or> curve_order K \<le> v then secretKeyError ''CONSTRUCTOR_ERROR''
             else Inr \<lparr>sk_bytes = bs, sk_seed = seed, sk_multibase = encodeSecret L bs\<rparr>)"

definition destroySecret :: "Secp256k1SecretKey \<Rightarrow> Secp256k1SecretKey" where
  "destroySecret sk = sk\<lparr>sk_bytes := replicate (length (sk_bytes sk)) 0, sk_seed := None, sk_multibase := []\<rparr>"

definition seed :: "Secp256k1SecretKey \<Rightarrow> int result" where
  "seed sk = (case sk_seed sk of None \<Rightarrow> type_error | Some v \<Rightarrow> Inr v)"

definition secretEquals :: "Secp256k1SecretKey \<Rightarrow> Secp256k1SecretKey \<Rightarrow> bool" where
  "secretEquals sk other = (sk_bytes sk = sk_bytes other)"

definition computePublicKey :: "'x method_lib_scheme \<Rightarrow> curve_lib \<Rightarrow> Secp256k1SecretKey \<Rightarrow> bytes result" where
  "computePublicKey L K sk = rbind (of_option (secp_public K (sk_bytes sk))) (newPublicKey L)"

record SecretKeyObject =
  so_bytes :: "int list"
  so_seed :: "string option"
  so_hex :: "string option"

definition secretExportJSON :: "'x method_lib_scheme \<Rightarrow> Secp256k1SecretKey \<Rightarrow> SecretKeyObject result" where
  "secretExportJSON L sk =
     rbind (seed sk) (\<lambda>v.
       Inr \<lparr>so_bytes = map uint (sk_bytes sk), so_seed = Some (show_int v), so_hex = Some (hex_encode L (sk_bytes sk))\<rparr>)"

definition secretFromJSON :: "'x method_lib_scheme \<Rightarrow> curve_lib \<Rightarrow> SecretKeyObject \<Rightarrow> Secp256k1SecretKey result" where
  "secretFromJSON L K json = newSecretKey L K (EntropyBytes (map word_of_int (so_bytes json)))"

definition secretIsValid :: "curve_lib \<Rightarrow> Secp256k1SecretKey \<Rightarrow> bool" where
  "secretIsValid K sk = secp_valid_secret K (sk_bytes sk)"

definition hasValidPublicKey :: "'x method_lib_scheme \<Rightarrow> curve_lib \<Rightarrow> Secp256k1SecretKey \<Rightarrow> bool" where
  "hasValidPublicKey L K sk = (case computePublicKey L K sk of Inl _ \<Rightarrow> False | Inr _ \<Rightarrow> True)"

text \<open>Without auxiliary bytes of the caller \<open>schnorr.sign\<close> draws its own, \<open>aux\<close>.\<close>

definition secretSign ::
  "curve_lib \<Rightarrow> bytes \<Rightarrow> Secp256k1SecretKey \<Rightarrow> bytes \<Rightarrow> crypto_scheme option \<Rightarrow> bytes result" where
  "secretSign K aux sk data opts =
     (case (case opts of None \<Rightarrow> Schnorr | Some scheme \<Rightarrow> scheme) of
        Ecdsa \<Rightarrow> of_option (ecdsa_sign K data (sk_bytes sk))
      | Schnorr \<Rightarrow> of_option (schnorr_sign K data (sk_bytes sk) aux)
      | OtherScheme \<Rightarrow> secretKeyError ''SIGN_ERROR'')"

definition decodeSecret :: "'x method_lib_scheme \<Rightarrow> string \<Rightarrow> bytes result" where
  "decodeSecret L multibase =
     rbind (of_option (base58_decode L (drop 1 multibase))) (\<lambda>decoded.
       if length decoded \<noteq> 34 then secretKeyError ''DECODE_MULTIBASE_ERROR''
       else if hex_encode L (sha256 L (take 2 decoded)) \<noteq> hex_encode L (sha256 L BIP340_SECRET_KEY_MULTIBASE_PREFIX)
       then secretKeyError ''DECODE_MULTIBASE_ERROR''
       else Inr decoded)"

definition secretFromBigInt :: "'x method_lib_scheme \<Rightarrow> curve_lib \<Rightarrow> int \<Rightarrow> Secp256k1SecretKey result" where
  "secretFromBigInt L K bint = rbind (toBytes K bint) (\<lambda>bs. newSecretKey L K (EntropyBytes bs))"

text \<open>\<open>random\<close> draws until the bytes are a valid key: \<open>draws\<close> are the bytes drawn, in order, and
  \<open>None\<close> means that it is still drawing after them.\<close>

fun randomSecret :: "curve_lib \<Rightarrow> bytes list \<Rightarrow> bytes option" where
  "randomSecret K [] = None"
| "randomSecret K (byteArray # draws) =
     (if secp_valid_secret K byteArray then Some byteArray else randomSecret K draws)"

definition generateSecret :: "'x method_lib_scheme \<Rightarrow> curve_lib \<Rightarrow> bytes list \<Rightarrow> Secp256k1SecretKey result option" where
  "generateSecret L K draws = map_option (\<lambda>bs. newSecretKey L K (EntropyBytes bs)) (randomSecret K draws)"

definition secretGetPublicKey :: "'x method_lib_scheme \<Rightarrow> curve_lib \<Rightarrow> bytes \<Rightarrow> bytes result" where
  "secretGetPublicKey L K bs = rbind (newSecretKey L K (EntropyBytes bs)) (computePublicKey L K)"

section \<open>Key pairs\<close>

record SchnorrKeyPair =
  kp_secretKey :: "Secp256k1SecretKey option"
  kp_publicKey :: bytes

datatype 'a key_param = NoKey | RawKey bytes | KeyObject 'a

definition keyPairError :: "string \<Rightarrow> error + 'a" where
  "keyPairError code = Inl (Error ''KeyPairError'' code)"

definition newKeyPair ::
  "'x method_lib_scheme \<Rightarrow> curve_lib \<Rightarrow> Secp256k1SecretKey key_param \<Rightarrow> bytes key_param \<Rightarrow> SchnorrKeyPair result" where
  "newKeyPair L K secretKey publicKey =
     (if publicKey = NoKey \<and> secretKey = NoKey then keyPairError ''CONSTRUCTOR_ERROR''
      else rbind (case secretKey of
          RawKey bs \<Rightarrow> rbind (newSecretKey L K (EntropyBytes bs)) (\<lambda>sk. Inr (Some sk))
        | KeyObject sk \<Rightarrow> Inr (Some sk)
        | NoKey \<Rightarrow> Inr None) (\<lambda>sk.
      rbind (case publicKey of
          KeyObject pk \<Rightarrow> Inr pk
        | RawKey bs \<Rightarrow> newPublicKey L bs
        | NoKey \<Rightarrow> computePublicKey L K (the sk)) (\<lambda>pk.
      case sk of
        Some sk' \<Rightarrow>
          if publicKey \<noteq> NoKey then
            rbind (computePublicKey L K sk') (\<lambda>derived.
              if pk \<noteq> derived then keyPairError ''CONSTRUCTOR_ERROR''
              else Inr \<lparr>kp_secretKey = sk, kp_publicKey = pk\<rparr>)
          else Inr \<lparr>kp_secretKey = sk, kp_publicKey = pk\<rparr>
      | None \<Rightarrow> Inr \<lparr>kp_secretKey = None, kp_publicKey = pk\<rparr>)))"

definition pairSecretKey :: "curve_lib \<Rightarrow> SchnorrKeyPair \<Rightarrow> Secp256k1SecretKey result" where
  "pairSecretKey K kp =
     (case kp_secretKey kp of
        None \<Rightarrow> keyPairError ''SECRET_KEY_ERROR''
      | Some sk \<Rightarrow> if \<not> secretIsValid K sk then keyPairError ''SECRET_KEY_ERROR'' else Inr sk)"

definition pairSetPublicKey :: "'x method_lib_scheme \<Rightarrow> curve_lib \<Rightarrow> bytes \<Rightarrow> SchnorrKeyPair \<Rightarrow> SchnorrKeyPair result" where
  "pairSetPublicKey L K pk kp =
     rbind (case kp_secretKey kp of
         None \<Rightarrow> Inr ()
       | Some sk \<Rightarrow> rbind (computePublicKey L K sk) (\<lambda>derived.
           if pk \<noteq> derived then keyPairError ''PUBLIC_KEY_ERROR'' else Inr ()))
       (\<lambda>_. Inr (kp\<lparr>kp_publicKey := pk\<rparr>))"

definition hasSecretKey :: "SchnorrKeyPair \<Rightarrow> bool" where
  "hasSecretKey kp = (kp_secretKey kp \<noteq> None)"

definition pairRaw :: "SchnorrKeyPair \<Rightarrow> bytes \<times> bytes option" where
  "pairRaw kp = (kp_publicKey kp, map_option sk_bytes (kp_secretKey kp))"

definition pairHex :: "'x method_lib_scheme \<Rightarrow> SchnorrKeyPair \<Rightarrow> string \<times> string option" where
  "pairHex L kp = (hex_encode L (kp_publicKey kp), map_option (\<lambda>sk. hex_encode L (sk_bytes sk)) (kp_secretKey kp))"

definition pairMultibase :: "'x method_lib_scheme \<Rightarrow> SchnorrKeyPair \<Rightarrow> string \<times> string" where
  "pairMultibase L kp =
     (mb_encoded (publicMultibase L (kp_publicKey kp)), case kp_secretKey kp of None \<Rightarrow> [] | Some sk \<Rightarrow> sk_multibase sk)"

record SchnorrKeyPairObject =
  ko_secretKey :: SecretKeyObject
  ko_publicKey :: PublicKeyObject

definition pairExportJSON :: "'x method_lib_scheme \<Rightarrow> curve_lib \<Rightarrow> SchnorrKeyPair \<Rightarrow> SchnorrKeyPairObject result" where
  "pairExportJSON L K kp =
     (case kp_secretKey kp of
        None \<Rightarrow> keyPairError ''SERIALIZE_ERROR''
      | Some sk \<Rightarrow>
          rbind (secretExportJSON L sk) (\<lambda>s. rbind (publicToJSON L K (kp_publicKey kp)) (\<lambda>p.
            Inr \<lparr>ko_secretKey = s, ko_publicKey = p\<rparr>)))"

definition pairFromJSON :: "'x method_lib_scheme \<Rightarrow> curve_lib \<Rightarrow> SchnorrKeyPairObject \<Rightarrow> SchnorrKeyPair result" where
  "pairFromJSON L K keys =
     rbind (secretFromJSON L K (ko_secretKey keys)) (\<lambda>sk.
     rbind (publicFromJSON L (ko_publicKey keys)) (\<lambda>pk. newKeyPair L K (KeyObject sk) (KeyObject pk)))"

text \<open>A pair of a secret key object and the public key that it computes.\<close>

definition pairOf :: "'x method_lib_scheme \<Rightarrow> curve_lib \<Rightarrow> Secp256k1SecretKey \<Rightarrow> SchnorrKeyPair result" where
  "pairOf L K sk = rbind (computePublicKey L K sk) (\<lambda>pk. newKeyPair L K (KeyObject sk) (KeyObject pk))"

definition fromSecret :: "'x method_lib_scheme \<Rightarrow> curve_lib \<Rightarrow> bytes + string \<Rightarrow> SchnorrKeyPair result" where
  "fromSecret L K data =
     rbind (case data of Inr s \<Rightarrow> of_option (hex_decode L s) | Inl bs \<Rightarrow> Inr bs) (\<lambda>secret.
       if length secret \<noteq> 32 then keyPairError ''FROM_SECRET_KEY_ERROR''
       else rbind (newSecretKey L K (EntropyBytes secret)) (pairOf L K))"

definition fromBigInt :: "'x method_lib_scheme \<Rightarrow> curve_lib \<Rightarrow> int \<Rightarrow> SchnorrKeyPair result" where
  "fromBigInt L K bint = rbind (secretFromBigInt L K bint) (pairOf L K)"

definition pairEquals :: "SchnorrKeyPair \<Rightarrow> SchnorrKeyPair \<Rightarrow> bool" where
  "pairEquals kp otherKp = (kp_publicKey kp = kp_publicKey otherKp)"

definition generatePair :: "'x method_lib_scheme \<Rightarrow> curve_lib \<Rightarrow> bytes list \<Rightarrow> SchnorrKeyPair result option" where
  "generatePair L K draws =
     map_option (\<lambda>sk. rbind (newSecretKey L K (EntropyBytes sk)) (pairOf L K)) (randomSecret K draws)"

section \<open>Signing under a scheme\<close>

definition signWithScheme ::
  "curve_lib \<Rightarrow> bytes \<Rightarrow> bytes \<Rightarrow> bytes \<Rightarrow> string \<Rightarrow> bytes option \<Rightarrow> bytes result" where
  "signWithScheme K aux secretKey data scheme merkleRoot =
     (if scheme = ''ecdsa'' then of_option (ecdsa_sign_der K data secretKey)
      else if scheme = ''bip340'' then of_option (schnorr_sign K data secretKey aux)
      else if scheme = ''bip341'' then
        rbind (of_option (taproot_tweak_secret K secretKey (case merkleRoot of None \<Rightarrow> [] | Some r \<Rightarrow> r)))
          (\<lambda>tweaked. of_option (schnorr_sign K data tweaked aux))
      else keyPairError ''SIGN_ERROR'')"

record LocalSigner =
  ls_secretKey :: Secp256k1SecretKey
  ls_publicKey :: bytes

definition newLocalSigner :: "'x method_lib_scheme \<Rightarrow> curve_lib \<Rightarrow> bytes \<Rightarrow> LocalSigner result" where
  "newLocalSigner L K secretKey =
     (if length secretKey \<noteq> 32 then keyPairError ''CONSTRUCTOR_ERROR''
      else rbind (newSecretKey L K (EntropyBytes secretKey)) (\<lambda>sk.
           rbind (computePublicKey L K sk) (\<lambda>pk. Inr \<lparr>ls_secretKey = sk, ls_publicKey = pk\<rparr>)))"

definition localSign :: "curve_lib \<Rightarrow> bytes \<Rightarrow> LocalSigner \<Rightarrow> bytes \<Rightarrow> string \<Rightarrow> bytes option \<Rightarrow> bytes result" where
  "localSign K aux s data scheme merkleRoot = signWithScheme K aux (sk_bytes (ls_secretKey s)) data scheme merkleRoot"

end
