(* ===== verification/KeyManager.thy ===== *)
theory KeyManager
  imports KeyPair
begin

text \<open>
  The key manager: \<open>packages/key-manager/src\<close>. \<open>LocalKeyManager\<close> is the class with its two private
  fields, the store (\<open>MemoryStore\<close>, a \<open>Map\<close>) and the identifier of the active key. \<open>KeyManagerSigner\<close>
  signs with a key of a manager; the manager is an argument of its methods, because others use and
  change it in between. The locale \<open>key_manager\<close> is what the signer relies on.
\<close>

section \<open>State\<close>

record KeyEntry =
  ke_secretKey :: "bytes option"
  ke_publicKey :: bytes
  ke_tags :: "(string, string) jsmap option"

record LocalKeyManager =
  km_store :: "(string, KeyEntry) jsmap"
  km_activeKeyId :: "string option"

definition newKeyManager :: "(string, KeyEntry) jsmap \<Rightarrow> LocalKeyManager" where
  "newKeyManager store = \<lparr>km_store = store, km_activeKeyId = None\<rparr>"

definition key_manager_error :: "string \<Rightarrow> error + 'a" where
  "key_manager_error code = Inl (Error ''KeyManagerError'' code)"

definition generateUrn :: "'x method_lib_scheme \<Rightarrow> bytes \<Rightarrow> string" where
  "generateUrn L publicKeyBytes =
     (let hash = sha256 L publicKeyBytes;
          fingerprint = concat (map (\<lambda>b. pad_start0 2 (nat_to_hex (unat b))) (take 16 hash))
      in ''urn:kms:secp256k1:'' @ fingerprint)"

definition getEntryOrThrow :: "LocalKeyManager \<Rightarrow> string option \<Rightarrow> KeyEntry result" where
  "getEntryOrThrow km id' =
     (let keyId = (case id' of None \<Rightarrow> km_activeKeyId km | Some i \<Rightarrow> Some i)
      in if \<not> truthy_str keyId then key_manager_error ''ACTIVE_KEY_NOT_SET''
         else case jm_get (km_store km) (the keyId) of
           None \<Rightarrow> key_manager_error ''KEY_NOT_FOUND''
         | Some entry \<Rightarrow> Inr entry)"

section \<open>Operations\<close>

definition setActiveKey :: "string \<Rightarrow> LocalKeyManager \<Rightarrow> LocalKeyManager \<times> unit result" where
  "setActiveKey id' km =
     (case getEntryOrThrow km (Some id') of
        Inl e \<Rightarrow> (km, Inl e)
      | Inr _ \<Rightarrow> (km\<lparr>km_activeKeyId := Some id'\<rparr>, Inr ()))"

definition getPublicKeyOf :: "LocalKeyManager \<Rightarrow> string option \<Rightarrow> bytes result" where
  "getPublicKeyOf km id' = rbind (getEntryOrThrow km id') (\<lambda>entry. Inr (ke_publicKey entry))"

definition getEntry :: "LocalKeyManager \<Rightarrow> string option \<Rightarrow> (bytes \<times> (string, string) jsmap option) result" where
  "getEntry km id' = rbind (getEntryOrThrow km id') (\<lambda>entry. Inr (ke_publicKey entry, ke_tags entry))"

record sign_options =
  so_scheme :: "string option"
  so_merkleRoot :: "bytes option"

definition managerSign ::
  "curve_lib \<Rightarrow> bytes \<Rightarrow> LocalKeyManager \<Rightarrow> bytes \<Rightarrow> string option \<Rightarrow> sign_options \<Rightarrow> bytes result" where
  "managerSign K aux km data id' options =
     rbind (getEntryOrThrow km id') (\<lambda>entry.
       case ke_secretKey entry of
         None \<Rightarrow> key_manager_error ''KEY_NOT_SIGNER''
       | Some secretKey \<Rightarrow>
           signWithScheme K aux secretKey data (case so_scheme options of None \<Rightarrow> ''bip340'' | Some s \<Rightarrow> s) (so_merkleRoot options))"

definition managerVerify ::
  "'x method_lib_scheme \<Rightarrow> curve_lib \<Rightarrow> LocalKeyManager \<Rightarrow> bytes \<Rightarrow> bytes \<Rightarrow> string option \<Rightarrow> string option \<Rightarrow> bool result" where
  "managerVerify L K km signature data id' scheme =
     rbind (getEntryOrThrow km id') (\<lambda>entry.
       let scheme = (case scheme of None \<Rightarrow> ''bip340'' | Some s \<Rightarrow> s) in
       if scheme = ''ecdsa'' then of_option (ecdsa_verify_der K signature data (ke_publicKey entry))
       else if scheme = ''bip340'' then of_option (schnorr_verify L signature data (xOnly (ke_publicKey entry)))
       else key_manager_error ''VERIFY_ERROR'')"

record import_options =
  io_id :: "string option"
  io_setActive :: bool
  io_tags :: "(string, string) jsmap option"

definition importKey ::
  "'x method_lib_scheme \<Rightarrow> curve_lib \<Rightarrow> SchnorrKeyPair \<Rightarrow> import_options \<Rightarrow> LocalKeyManager \<Rightarrow> LocalKeyManager \<times> string result" where
  "importKey L K keyPair options km =
     (let id' = (case io_id options of None \<Rightarrow> generateUrn L (kp_publicKey keyPair) | Some i \<Rightarrow> i) in
      if jm_has (km_store km) id' then (km, key_manager_error ''KEY_FOUND'')
      else case (if hasSecretKey keyPair then rbind (pairSecretKey K keyPair) (\<lambda>sk. Inr (Some (sk_bytes sk))) else Inr None) of
        Inl e \<Rightarrow> (km, Inl e)
      | Inr secretKey \<Rightarrow>
          let entry = \<lparr>ke_secretKey = secretKey, ke_publicKey = kp_publicKey keyPair, ke_tags = io_tags options\<rparr>;
              km = km\<lparr>km_store := jm_set id' entry (km_store km)\<rparr>
          in (if io_setActive options then km\<lparr>km_activeKeyId := Some id'\<rparr> else km, Inr id'))"

definition removeKey :: "string \<Rightarrow> bool \<Rightarrow> LocalKeyManager \<Rightarrow> LocalKeyManager \<times> unit result" where
  "removeKey id' force km =
     (if km_activeKeyId km = Some id' \<and> \<not> force then (km, key_manager_error ''ACTIVE_KEY_DELETE'')
      else if \<not> jm_has (km_store km) id' then (km, key_manager_error ''KEY_NOT_FOUND'')
      else let km = km\<lparr>km_store := jm_delete id' (km_store km)\<rparr>
        in (if km_activeKeyId km = Some id' then km\<lparr>km_activeKeyId := None\<rparr> else km, Inr ()))"

definition listKeys :: "LocalKeyManager \<Rightarrow> string list" where
  "listKeys km = jm_keys (km_store km)"

definition managerDigest :: "'x method_lib_scheme \<Rightarrow> bytes \<Rightarrow> bytes" where
  "managerDigest L data = sha256 L data"

text \<open>\<open>None\<close> while the key generation is still drawing random bytes.\<close>

definition generateKey ::
  "'x method_lib_scheme \<Rightarrow> curve_lib \<Rightarrow> bytes list \<Rightarrow> (string, string) jsmap option \<Rightarrow> bool \<Rightarrow> LocalKeyManager
     \<Rightarrow> (LocalKeyManager \<times> string result) option" where
  "generateKey L K draws tags setActive km =
     (case generatePair L K draws of
        None \<Rightarrow> None
      | Some (Inl e) \<Rightarrow> Some (km, Inl e)
      | Some (Inr kp) \<Rightarrow>
          (case pairSecretKey K kp of
             Inl e \<Rightarrow> Some (km, Inl e)
           | Inr sk \<Rightarrow>
               let id' = generateUrn L (kp_publicKey kp);
                   entry = \<lparr>ke_secretKey = Some (sk_bytes sk), ke_publicKey = kp_publicKey kp, ke_tags = tags\<rparr>;
                   km = km\<lparr>km_store := jm_set id' entry (km_store km)\<rparr>
               in Some (if setActive then km\<lparr>km_activeKeyId := Some id'\<rparr> else km, Inr id')))"

definition exportKey :: "'x method_lib_scheme \<Rightarrow> curve_lib \<Rightarrow> LocalKeyManager \<Rightarrow> string \<Rightarrow> SchnorrKeyPair result" where
  "exportKey L K km id' =
     rbind (getEntryOrThrow km (Some id')) (\<lambda>entry.
       case ke_secretKey entry of
         Some bs \<Rightarrow> newKeyPair L K (RawKey bs) NoKey
       | None \<Rightarrow> newKeyPair L K NoKey (RawKey (ke_publicKey entry)))"

section \<open>A signer over a key manager\<close>

text \<open>The signer works over any implementation of the interface; \<open>pk\<close> and \<open>sign\<close> are the two calls it
  makes.\<close>

record KeyManagerSigner =
  ks_keyId :: "string option"
  ks_cachedPublicKey :: "bytes option"

definition newKeyManagerSigner ::
  "('m \<Rightarrow> string option \<Rightarrow> bytes result) \<Rightarrow> 'm \<Rightarrow> string option \<Rightarrow> KeyManagerSigner result" where
  "newKeyManagerSigner pk km keyId =
     (case keyId of
        None \<Rightarrow> Inr \<lparr>ks_keyId = None, ks_cachedPublicKey = None\<rparr>
      | Some _ \<Rightarrow> rbind (pk km keyId) (\<lambda>key. Inr \<lparr>ks_keyId = keyId, ks_cachedPublicKey = Some key\<rparr>))"

definition signerPublicKey ::
  "('m \<Rightarrow> string option \<Rightarrow> bytes result) \<Rightarrow> 'm \<Rightarrow> KeyManagerSigner \<Rightarrow> KeyManagerSigner \<times> bytes result" where
  "signerPublicKey pk km s =
     (case ks_cachedPublicKey s of
        Some key \<Rightarrow> (s, Inr key)
      | None \<Rightarrow>
          (case pk km (ks_keyId s) of
             Inl e \<Rightarrow> (s, Inl e)
           | Inr key \<Rightarrow> (s\<lparr>ks_cachedPublicKey := Some key\<rparr>, Inr key)))"

definition signerSign ::
  "('m \<Rightarrow> bytes \<Rightarrow> string option \<Rightarrow> sign_options \<Rightarrow> bytes result) \<Rightarrow> 'm \<Rightarrow> KeyManagerSigner \<Rightarrow> bytes \<Rightarrow> string
     \<Rightarrow> bytes option \<Rightarrow> bytes result" where
  "signerSign sign km s data scheme merkleRoot =
     sign km data (ks_keyId s) \<lparr>so_scheme = Some scheme, so_merkleRoot = merkleRoot\<rparr>"

end
