(* ===== verification/KeyProps.thy ===== *)
theory KeyProps
  imports KeyManager DemoLib
begin

text \<open>
  Properties of keys and of the key manager: which values are secret keys and that their forms are
  inverse to each other, what every reachable key manager holds, and that what it signs verifies. The
  witnesses are at a curve whose signatures are the message followed by the key.
\<close>

section \<open>Secret keys\<close>

lemma toSecret_bigint: "toSecret = bytes_to_bigint"
  by (rule ext) (simp add: toSecret_def bytes_to_bigint_def)

lemma bigint_of_bytes:
  "bytes_to_bigint (map (\<lambda>i. word_of_int (drop_bit (8 * (n - Suc i)) v AND 255)) [0..<n]) = v mod 256 ^ n"
proof (induction n)
  case (Suc n)
  have upt: "[0..<Suc n] = 0 # map Suc [0..<n]" by (simp add: map_Suc_upt upt_conv_Cons)
  have "v mod 256 ^ Suc n = 256 ^ n * (v div 256 ^ n mod 256) + v mod 256 ^ n"
    using zmod_zmult2_eq [of 256 v "256 ^ n"] by (simp add: mult.commute)
  moreover have "drop_bit (8 * n) v = v div 256 ^ n" by (simp add: drop_bit_eq_div power_mult)
  moreover have "map (\<lambda>i. word_of_int (drop_bit (8 * (Suc n - Suc i)) v AND 255) :: byte) (map Suc [0..<n]) =
      map (\<lambda>i. word_of_int (drop_bit (8 * (n - Suc i)) v AND 255)) [0..<n]"
    by simp
  ultimately show ?case
    using Suc unfolding upt list.map(2) bytes_to_bigint_simps by (simp only: uint_low_byte length_map length_upt) (simp add: mult.commute)
qed simp

definition bytes_of :: "int \<Rightarrow> bytes" where
  "bytes_of v = map (\<lambda>i. word_of_int (drop_bit (8 * (31 - i)) v AND 255)) [0..<32]"

lemma bytes_of_facts: "length (bytes_of v) = 32" "bytes_to_bigint (bytes_of v) = v mod 2 ^ 256"
proof -
  have "(31::nat) - i = 32 - Suc i" for i by simp
  then show "bytes_to_bigint (bytes_of v) = v mod 2 ^ 256" using bigint_of_bytes [of 32 v] by (simp add: bytes_of_def)
qed (simp add: bytes_of_def)

lemma toBytes_alt:
  "toBytes K v = (if secp_valid_secret K (bytes_of v) then Inr (bytes_of v) else secretKeyError ''SET_PRIVATE_KEY_ERROR'')"
  by (simp add: toBytes_def bytes_of_def Let_def)

lemma curve_okD:
  assumes "curve_ok L K"
  shows "1 < curve_order K" "curve_order K \<le> 2 ^ 256"
    "secp_valid_secret K sk \<longleftrightarrow> length sk = 32 \<and> 1 \<le> bytes_to_bigint sk \<and> bytes_to_bigint sk < curve_order K"
  using assms unfolding curve_ok_def by blast+

lemma curve_public:
  assumes "curve_ok L K" "secp_valid_secret K sk"
  obtains pk where "secp_public K sk = Some pk" "length pk = 33" "secp_valid L pk"
    "\<And>data aux. length aux = 32 \<Longrightarrow> \<exists>s. schnorr_sign K data sk aux = Some s \<and> schnorr_verify L s data (xOnly pk) = Some True"
    "\<And>data. length data = 32 \<Longrightarrow> \<exists>s. ecdsa_sign_der K data sk = Some s \<and> ecdsa_verify_der K s data pk = Some True"
  using assms unfolding curve_ok_def by blast

lemma bytes_of_bytes: "length bs = 32 \<Longrightarrow> bytes_of (bytes_to_bigint bs) = bs"
  using bytes_of_facts [of "bytes_to_bigint bs"] bytes_to_bigint_bound [of bs] bytes_to_bigint_nonneg [of bs]
  by (auto intro!: bytes_to_bigint_inj)

definition secret_of :: "'x method_lib_scheme \<Rightarrow> bytes \<Rightarrow> Secp256k1SecretKey" where
  "secret_of L bs = \<lparr>sk_bytes = bs, sk_seed = Some (bytes_to_bigint bs), sk_multibase = encodeSecret L bs\<rparr>"

lemma newSecretKey_bytes:
  assumes "curve_ok L K"
  shows "newSecretKey L K (EntropyBytes bs) = (if secp_valid_secret K bs then Inr (secret_of L bs) else secretKeyError ''CONSTRUCTOR_ERROR'')"
  by (auto simp: newSecretKey_def curve_okD(3) [OF assms] toSecret_bigint secret_of_def secretKeyError_def)

lemma newSecretKey_bigint:
  assumes "curve_ok L K"
  shows "newSecretKey L K (EntropyBigint v) =
    (if 1 \<le> v \<and> v < curve_order K then Inr (secret_of L (bytes_of v)) else secretKeyError ''CONSTRUCTOR_ERROR'')"
proof -
  have "v mod 2 ^ 256 = v" if "1 \<le> v" "v < curve_order K" using that curve_okD(2) [OF assms] by simp
  then show ?thesis
    using bytes_of_facts [of v]
    by (auto simp: newSecretKey_def toBytes_alt curve_okD(3) [OF assms] secret_of_def secretKeyError_def)
qed

lemma newSecretKey_Inr:
  assumes "curve_ok L K" "newSecretKey L K e = Inr sk"
  shows "secp_valid_secret K (sk_bytes sk)" "sk = secret_of L (sk_bytes sk)"
proof -
  have "\<exists>bs. secp_valid_secret K bs \<and> sk = secret_of L bs"
  proof (cases e)
    case (EntropyBytes bs)
    then show ?thesis using assms(2) unfolding newSecretKey_bytes [OF assms(1)] EntropyBytes
      by (auto simp: secretKeyError_def split: if_splits)
  next
    case (EntropyBigint v)
    have "v mod 2 ^ 256 = v" if "1 \<le> v" "v < curve_order K" using that curve_okD(2) [OF assms(1)] by simp
    then show ?thesis using assms(2) bytes_of_facts [of v] unfolding newSecretKey_bigint [OF assms(1)] EntropyBigint
      by (auto simp: secretKeyError_def curve_okD(3) [OF assms(1)] split: if_splits)
  next
    case EntropyOther
    then show ?thesis using assms(2) by (simp add: newSecretKey_def secretKeyError_def)
  qed
  then show "secp_valid_secret K (sk_bytes sk)" "sk = secret_of L (sk_bytes sk)" by (auto simp: secret_of_def)
qed

text \<open>\<open>fromBigInt\<close> takes the number modulo \<open>2 ^ 256\<close>, also where the constructor refuses it.\<close>

lemma fromBigInt_wraps:
  assumes "curve_ok L K"
  shows "secretFromBigInt L K v =
    (if 1 \<le> v mod 2 ^ 256 \<and> v mod 2 ^ 256 < curve_order K then newSecretKey L K (EntropyBigint (v mod 2 ^ 256))
     else secretKeyError ''SET_PRIVATE_KEY_ERROR'')"
proof -
  have "bytes_of (v mod 2 ^ 256) = bytes_of v"
    using bytes_of_facts [of v] bytes_of_facts [of "v mod 2 ^ 256"] by (auto intro!: bytes_to_bigint_inj)
  then show ?thesis
    using bytes_of_facts [of v]
    by (simp add: secretFromBigInt_def toBytes_alt newSecretKey_bytes [OF assms] newSecretKey_bigint [OF assms]
        curve_okD(3) [OF assms] secretKeyError_def)
qed

lemma decode_encodeSecret: "codecs_ok L \<Longrightarrow> length bs = 32 \<Longrightarrow> decodeSecret L (encodeSecret L bs) = Inr (BIP340_SECRET_KEY_MULTIBASE_PREFIX @ bs)"
  by (simp add: decodeSecret_def encodeSecret_def codecs_simps BIP340_SECRET_KEY_MULTIBASE_PREFIX_def)

lemma export_import_secret:
  assumes "curve_ok L K" "secp_valid_secret K bs"
  shows "rbind (secretExportJSON L (secret_of L bs)) (secretFromJSON L K) = Inr (secret_of L bs)"
proof -
  have "map (word_of_int \<circ> uint) bs = bs" by (induction bs) simp_all
  then show ?thesis
    using assms(2) by (simp add: secretExportJSON_def secretFromJSON_def seed_def newSecretKey_bytes [OF assms(1)] secret_of_def)
qed

text \<open>The constructor of a secret key accepts exactly the valid 32 bytes and the numbers from 1 to
  below the order of the curve, and the forms of a key are inverse to each other: the key is the
  same whether it is made again from its bytes, from its number, or from its exported JSON, and the multibase
  string decodes to the prefix and the bytes. \<open>fromBigInt\<close> agrees with the constructor on the numbers
  that it accepts.\<close>

theorem secret_key_roundtrips:
  assumes "curve_ok L K" "codecs_ok L"
  shows "((\<exists>sk. newSecretKey L K (EntropyBytes bs) = Inr sk) \<longleftrightarrow> secp_valid_secret K bs) \<and>
    ((\<exists>sk. newSecretKey L K (EntropyBigint v) = Inr sk) \<longleftrightarrow> 1 \<le> v \<and> v < curve_order K) \<and>
    (\<forall>e sk. newSecretKey L K e = Inr sk \<longrightarrow>
       seed sk = Inr (toSecret (sk_bytes sk)) \<and>
       newSecretKey L K (EntropyBytes (sk_bytes sk)) = Inr sk \<and>
       newSecretKey L K (EntropyBigint (toSecret (sk_bytes sk))) = Inr sk \<and>
       secretFromBigInt L K (toSecret (sk_bytes sk)) = Inr sk \<and>
       rbind (secretExportJSON L sk) (secretFromJSON L K) = Inr sk \<and>
       decodeSecret L (sk_multibase sk) = Inr (BIP340_SECRET_KEY_MULTIBASE_PREFIX @ sk_bytes sk))"
proof (intro conjI allI impI)
  show "(\<exists>sk. newSecretKey L K (EntropyBytes bs) = Inr sk) \<longleftrightarrow> secp_valid_secret K bs"
    by (auto simp: newSecretKey_bytes [OF assms(1)] secretKeyError_def)
  show "(\<exists>sk. newSecretKey L K (EntropyBigint v) = Inr sk) \<longleftrightarrow> 1 \<le> v \<and> v < curve_order K"
    by (auto simp: newSecretKey_bigint [OF assms(1)] secretKeyError_def)
  fix e sk assume "newSecretKey L K e = Inr sk"
  from newSecretKey_Inr [OF assms(1) this] obtain b where valid: "secp_valid_secret K b" and sk: "sk = secret_of L b" by blast
  note v = valid [unfolded curve_okD(3) [OF assms(1)]]
  have small: "bytes_to_bigint b mod 2 ^ 256 = bytes_to_bigint b"
    using v bytes_to_bigint_bound [of b] bytes_to_bigint_nonneg [of b] by simp
  show "seed sk = Inr (toSecret (sk_bytes sk))" by (simp add: sk secret_of_def seed_def toSecret_bigint)
  show "newSecretKey L K (EntropyBytes (sk_bytes sk)) = Inr sk"
    using valid by (simp add: newSecretKey_bytes [OF assms(1)] sk) (simp add: secret_of_def)
  show big: "newSecretKey L K (EntropyBigint (toSecret (sk_bytes sk))) = Inr sk"
    using v by (simp add: newSecretKey_bigint [OF assms(1)] sk toSecret_bigint secret_of_def bytes_of_bytes)
  show "secretFromBigInt L K (toSecret (sk_bytes sk)) = Inr sk"
    using v big small by (simp add: fromBigInt_wraps [OF assms(1)] sk secret_of_def toSecret_bigint)
  show "rbind (secretExportJSON L sk) (secretFromJSON L K) = Inr sk" unfolding sk by (rule export_import_secret [OF assms(1) valid])
  show "decodeSecret L (sk_multibase sk) = Inr (BIP340_SECRET_KEY_MULTIBASE_PREFIX @ sk_bytes sk)"
    using decode_encodeSecret [OF assms(2)] v by (simp add: sk secret_of_def)
qed

text \<open>A curve whose secret keys are the non-zero strings of 32 bytes; a public key is the secret key
  after the byte 2.\<close>

definition demo_klib :: method_lib where
  "demo_klib = demo_mlib\<lparr>schnorr_verify := \<lambda>signature msg k. Some (signature = msg @ k)\<rparr>"

definition demo_curve :: curve_lib where
  "demo_curve = \<lparr>curve_order = 2 ^ 256,
     secp_valid_secret = \<lambda>sk. length sk = 32 \<and> 1 \<le> bytes_to_bigint sk,
     secp_public = \<lambda>sk. Some (2 # sk), secp_uncompressed = \<lambda>pk. Some (4 # drop 1 pk @ replicate 32 0),
     ecdsa_sign = \<lambda>data sk. Some (data @ 2 # sk), ecdsa_verify = \<lambda>s data pk. Some (s = data @ pk),
     ecdsa_sign_der = \<lambda>data sk. Some (data @ 2 # sk), ecdsa_verify_der = \<lambda>s data pk. Some (s = data @ pk),
     schnorr_sign = \<lambda>data sk aux. Some (data @ sk), taproot_tweak_secret = \<lambda>sk m. Some sk\<rparr>"

lemma demo_curve_ok: "curve_ok demo_klib demo_curve" "codecs_ok demo_klib"
proof -
  have "bytes_to_bigint sk < 2 ^ 256" if "length sk = 32" for sk :: bytes
    using bytes_to_bigint_bound [of sk] that by simp
  moreover have "secp_valid demo_klib = (\<lambda>k. hd k \<in> {2, 3})" by (simp add: demo_klib_def demo_mlib_def)
  ultimately show "curve_ok demo_klib demo_curve"
    unfolding curve_ok_def by (auto simp: demo_curve_def demo_klib_def xOnly_def)
  show "codecs_ok demo_klib" by (simp add: codecs_ok_def demo_klib_def demo_mlib_def)
qed

lemma secret_key_roundtrips_witness:
  "\<exists>sk. newSecretKey demo_klib demo_curve (EntropyBigint 77) = Inr sk \<and>
     rbind (secretExportJSON demo_klib sk) (secretFromJSON demo_klib demo_curve) = Inr sk"
proof -
  have "(1::int) \<le> 77 \<and> 77 < curve_order demo_curve" by (simp add: demo_curve_def)
  then show ?thesis using secret_key_roundtrips [OF demo_curve_ok, of "[]" 77] by blast
qed

section \<open>The key manager\<close>

text \<open>The key pairs a program can hold: made by the constructors from keys that were themselves made by
  constructors, with a public key set later, or with the secret key destroyed.\<close>

inductive pair_reach :: "'x method_lib_scheme \<Rightarrow> curve_lib \<Rightarrow> SchnorrKeyPair \<Rightarrow> bool" for L K where
  pair_new: "(\<And>sk. secretKey = KeyObject sk \<Longrightarrow> \<exists>e. newSecretKey L K e = Inr sk) \<Longrightarrow>
     (\<And>pk. publicKey = KeyObject pk \<Longrightarrow> newPublicKey L pk = Inr pk) \<Longrightarrow>
     newKeyPair L K secretKey publicKey = Inr kp \<Longrightarrow> pair_reach L K kp"
| pair_set: "pair_reach L K kp \<Longrightarrow> newPublicKey L pk = Inr pk \<Longrightarrow> pairSetPublicKey L K pk kp = Inr kp' \<Longrightarrow> pair_reach L K kp'"
| pair_destroy: "pair_reach L K kp \<Longrightarrow> kp_secretKey kp = Some sk \<Longrightarrow>
     pair_reach L K (kp\<lparr>kp_secretKey := Some (destroySecret sk)\<rparr>)"

datatype manager_call =
    ImportKey SchnorrKeyPair import_options
  | GenerateKey "bytes list" "(string, string) jsmap option" bool
  | SetActiveKey string
  | RemoveKey string bool

definition managerCall :: "'x method_lib_scheme \<Rightarrow> curve_lib \<Rightarrow> manager_call \<Rightarrow> LocalKeyManager \<Rightarrow> LocalKeyManager" where
  "managerCall L K c km = (case c of
      ImportKey kp options \<Rightarrow> fst (importKey L K kp options km)
    | GenerateKey draws tags setActive \<Rightarrow> (case generateKey L K draws tags setActive km of None \<Rightarrow> km | Some r \<Rightarrow> fst r)
    | SetActiveKey i \<Rightarrow> fst (setActiveKey i km)
    | RemoveKey i force \<Rightarrow> fst (removeKey i force km))"

inductive manager_reach :: "'x method_lib_scheme \<Rightarrow> curve_lib \<Rightarrow> LocalKeyManager \<Rightarrow> bool" for L K where
  manager_new: "manager_reach L K (newKeyManager [])"
| manager_called: "manager_reach L K km \<Longrightarrow> (\<And>kp options. c = ImportKey kp options \<Longrightarrow> pair_reach L K kp) \<Longrightarrow>
     manager_reach L K (managerCall L K c km)"

definition public_of :: "'x method_lib_scheme \<Rightarrow> curve_lib \<Rightarrow> bytes \<Rightarrow> bytes option \<Rightarrow> bool" where
  "public_of L K pk sk \<longleftrightarrow> length pk = 33 \<and> secp_valid L pk \<and>
     (\<forall>b. sk = Some b \<longrightarrow> secp_valid_secret K b \<and> secp_public K b = Some pk)"

definition store_ok :: "'x method_lib_scheme \<Rightarrow> curve_lib \<Rightarrow> LocalKeyManager \<Rightarrow> bool" where
  "store_ok L K km \<longleftrightarrow> distinct (map fst (km_store km)) \<and>
     (\<forall>e \<in> snd ` set (km_store km). public_of L K (ke_publicKey e) (ke_secretKey e)) \<and>
     (\<forall>i. km_activeKeyId km = Some i \<longrightarrow> jm_has (km_store km) i)"

lemma newPublicKey_valid: "newPublicKey L bs = Inr pk \<Longrightarrow> pk = bs \<and> length bs = 33 \<and> secp_valid L bs"
  by (auto simp: newPublicKey_def split: if_splits)

lemma computePublicKey_Inr:
  "computePublicKey L K sk = Inr pk \<Longrightarrow> secp_public K (sk_bytes sk) = Some pk \<and> length pk = 33 \<and> secp_valid L pk"
  by (auto simp: computePublicKey_def rbind_Inr_iff of_option_Inr_iff dest: newPublicKey_valid)

lemma computed_public:
  assumes "curve_ok L K" "secp_valid_secret K (sk_bytes sk)"
  obtains pk where "computePublicKey L K sk = Inr pk" "secp_public K (sk_bytes sk) = Some pk" "length pk = 33" "secp_valid L pk"
  using curve_public [OF assms] by (metis computePublicKey_def newPublicKey_def of_option_simps(1) rbind_simps(2))

text \<open>A reachable pair whose secret key is still valid has the public key of it.\<close>

lemma reachable_pair:
  assumes "curve_ok L K" "pair_reach L K kp"
  shows "length (kp_publicKey kp) = 33 \<and> secp_valid L (kp_publicKey kp) \<and>
    (\<forall>sk. kp_secretKey kp = Some sk \<longrightarrow> secp_valid_secret K (sk_bytes sk) \<longrightarrow> secp_public K (sk_bytes sk) = Some (kp_publicKey kp))"
  using assms(2)
proof induction
  case (pair_new secretKey publicKey kp)
  then show ?case
    unfolding newKeyPair_def
    by (cases secretKey; cases publicKey)
       (auto simp: keyPairError_def rbind_Inr_iff dest!: computePublicKey_Inr newPublicKey_valid split: if_splits)
next
  case (pair_set kp pk kp')
  then show ?case
    by (auto simp: pairSetPublicKey_def keyPairError_def rbind_Inr_iff dest!: computePublicKey_Inr newPublicKey_valid
        split: if_splits option.splits)
next
  case (pair_destroy kp sk)
  have "bytes_to_bigint (replicate n 0) = 0" for n by (induction n) simp_all
  then show ?case using pair_destroy by (simp add: destroySecret_def curve_okD(3) [OF assms(1)])
qed

lemma store_set:
  assumes "store_ok L K km" "public_of L K (ke_publicKey e) (ke_secretKey e)"
  shows "store_ok L K (km\<lparr>km_store := jm_set i e (km_store km)\<rparr>)"
    "store_ok L K (km\<lparr>km_store := jm_set i e (km_store km), km_activeKeyId := Some i\<rparr>)"
proof -
  have "snd ` set (jm_set i e (km_store km)) \<subseteq> insert e (snd ` set (km_store km))"
    using set_jm_set_subset [of i e "km_store km"] by fastforce
  then have "\<forall>e \<in> snd ` set (jm_set i e (km_store km)). public_of L K (ke_publicKey e) (ke_secretKey e)"
    using assms unfolding store_ok_def by blast
  then show "store_ok L K (km\<lparr>km_store := jm_set i e (km_store km)\<rparr>)"
    "store_ok L K (km\<lparr>km_store := jm_set i e (km_store km), km_activeKeyId := Some i\<rparr>)"
    using assms unfolding store_ok_def by simp_all
qed

lemma pairOf_Inr: "pairOf L K sk = Inr kp \<Longrightarrow> kp_secretKey kp = Some sk \<and> computePublicKey L K sk = Inr (kp_publicKey kp)"
  by (auto simp: pairOf_def newKeyPair_def rbind_Inr_iff keyPairError_def split: if_splits)

lemma jm_has_delete: "jm_has (jm_delete k m) k' \<longleftrightarrow> k' \<noteq> k \<and> jm_has m k'"
  by (simp add: jm_has_def)

lemma manager_call_ok:
  assumes "curve_ok L K" "store_ok L K km" "\<And>kp options. c = ImportKey kp options \<Longrightarrow> pair_reach L K kp"
  shows "store_ok L K (managerCall L K c km)"
proof (cases c)
  case (ImportKey kp options)
  note ok = reachable_pair [OF assms(1) assms(3) [OF ImportKey]]
  let ?secret = "if hasSecretKey kp then rbind (pairSecretKey K kp) (\<lambda>sk. Inr (Some (sk_bytes sk))) else Inr None"
  have public: "public_of L K (kp_publicKey kp) sk" if "?secret = Inr sk" for sk
    using that ok by (auto simp: public_of_def pairSecretKey_def hasSecretKey_def secretIsValid_def keyPairError_def split: if_splits)
  show ?thesis
  proof (cases ?secret)
    case (Inl e)
    then show ?thesis using assms(2) by (simp add: ImportKey managerCall_def importKey_def Let_def)
  next
    case (Inr sk)
    from public [OF this] show ?thesis
      using assms(2) Inr by (auto simp: ImportKey managerCall_def importKey_def Let_def intro!: store_set)
  qed
next
  case (GenerateKey draws tags active)
  have "public_of L K (kp_publicKey kp) (Some (sk_bytes sk))"
    if "generatePair L K draws = Some (Inr kp)" "pairSecretKey K kp = Inr sk" for kp sk
  proof -
    from that obtain b where b: "rbind (newSecretKey L K (EntropyBytes b)) (pairOf L K) = Inr kp" by (auto simp: generatePair_def)
    then obtain sk' where "pairOf L K sk' = Inr kp" by (auto simp: rbind_Inr_iff)
    with pairOf_Inr [OF this] that(2) show ?thesis
      by (auto simp: public_of_def pairSecretKey_def secretIsValid_def keyPairError_def dest: computePublicKey_Inr split: if_splits)
  qed
  then show ?thesis
    using assms(2)
    by (auto simp: GenerateKey managerCall_def generateKey_def Let_def intro!: store_set split: option.split sum.split)
next
  case (SetActiveKey i)
  then show ?thesis
    using assms(2)
    by (auto simp: managerCall_def setActiveKey_def getEntryOrThrow_def key_manager_error_def store_ok_def jm_has_def split: sum.splits if_splits option.splits)
next
  case (RemoveKey i force)
  have "set (jm_delete i (km_store km)) \<subseteq> set (km_store km)" by (auto simp: AList.delete_eq)
  then show ?thesis
    using assms(2) distinct_delete [of "km_store km" i]
    by (auto simp: RemoveKey managerCall_def removeKey_def Let_def store_ok_def jm_has_delete)
qed

lemma manager_reach_ok:
  assumes "curve_ok L K" "manager_reach L K km"
  shows "store_ok L K km"
  using assms(2)
proof induction
  case manager_new
  then show ?case by (simp add: store_ok_def newKeyManager_def)
next
  case (manager_called km c)
  then show ?case using manager_call_ok [OF assms(1)] by blast
qed

text \<open>C31: In every key manager that calls can reach, over every sequence of imports, generations,
  removals and changes of the active key, each identifier has one entry, the public key of an entry
  is a valid point and that of its secret key where it has one, and the active key is held.\<close>

theorem key_manager_invariant:
  assumes "curve_ok L K" "manager_reach L K km"
  shows "distinct (listKeys km) \<and>
    (\<forall>i e. jm_get (km_store km) i = Some e \<longrightarrow> length (ke_publicKey e) = 33 \<and> secp_valid L (ke_publicKey e) \<and>
       (\<forall>sk. ke_secretKey e = Some sk \<longrightarrow> secp_valid_secret K sk \<and> secp_public K sk = Some (ke_publicKey e))) \<and>
    (\<forall>i. km_activeKeyId km = Some i \<longrightarrow> i \<in> set (listKeys km))"
proof -
  note ok = manager_reach_ok [OF assms]
  have "public_of L K (ke_publicKey e) (ke_secretKey e)" if "jm_get (km_store km) i = Some e" for i e
    using ok map_of_SomeD [OF that] unfolding store_ok_def by force
  then show ?thesis
    using ok unfolding store_ok_def public_of_def listKeys_def jm_keys_def by (auto simp: jm_has_iff)
qed

text \<open>A key that is selected: the identifier given, or else the active key.\<close>

definition selectedEntry :: "LocalKeyManager \<Rightarrow> string option \<Rightarrow> KeyEntry option" where
  "selectedEntry km id' =
     (case (if id' = None then km_activeKeyId km else id') of
        None \<Rightarrow> None
      | Some i \<Rightarrow> if i = [] then None else jm_get (km_store km) i)"

lemma getEntry_selected: "(\<exists>e. getEntryOrThrow km id' = Inr e) \<longleftrightarrow> selectedEntry km id' \<noteq> None"
  "getEntryOrThrow km id' = Inr e \<longleftrightarrow> selectedEntry km id' = Some e"
  by (auto simp: getEntryOrThrow_def selectedEntry_def key_manager_error_def Let_def split: option.splits if_splits)

lemma selected_public:
  assumes "curve_ok L K" "store_ok L K km" "selectedEntry km id' = Some e"
  shows "public_of L K (ke_publicKey e) (ke_secretKey e)"
proof -
  from assms(3) obtain i where "jm_get (km_store km) i = Some e"
    by (auto simp: selectedEntry_def split: option.splits if_splits)
  from map_of_SomeD [OF this] show ?thesis using assms(2) unfolding store_ok_def by force
qed

lemma scheme_signs:
  assumes "curve_ok L K" "public_of L K pk (Some sk)" "length aux = 32"
  shows "\<exists>s. signWithScheme K aux sk data ''bip340'' m = Inr s \<and> schnorr_verify L s data (xOnly pk) = Some True"
    "length data = 32 \<Longrightarrow> \<exists>s. signWithScheme K aux sk data ''ecdsa'' m = Inr s \<and> ecdsa_verify_der K s data pk = Some True"
    "taproot_tweak_secret K sk (case m of None \<Rightarrow> [] | Some r \<Rightarrow> r) = Some sk' \<Longrightarrow>
      \<exists>s q. signWithScheme K aux sk data ''bip341'' m = Inr s \<and> secp_public K sk' = Some q \<and> schnorr_verify L s data (xOnly q) = Some True"
proof -
  from assms(2) have valid: "secp_valid_secret K sk" and pk: "secp_public K sk = Some pk" by (simp_all add: public_of_def)
  obtain s where s: "schnorr_sign K data sk aux = Some s" "schnorr_verify L s data (xOnly pk) = Some True"
    using curve_public [OF assms(1) valid] pk assms(3) by (metis option.inject)
  then show "\<exists>s. signWithScheme K aux sk data ''bip340'' m = Inr s \<and> schnorr_verify L s data (xOnly pk) = Some True"
    by (simp add: signWithScheme_def)
  show "\<exists>s. signWithScheme K aux sk data ''ecdsa'' m = Inr s \<and> ecdsa_verify_der K s data pk = Some True" if "length data = 32"
  proof -
    have "\<exists>s. ecdsa_sign_der K data sk = Some s \<and> ecdsa_verify_der K s data pk = Some True"
      by (rule curve_public [OF assms(1) valid]) (use pk that in auto)
    then show ?thesis by (auto simp: signWithScheme_def)
  qed
  assume tweak: "taproot_tweak_secret K sk (case m of None \<Rightarrow> [] | Some r \<Rightarrow> r) = Some sk'"
  then have valid': "secp_valid_secret K sk'" using assms(1) valid unfolding curve_ok_def by blast
  obtain q u where u: "secp_public K sk' = Some q" "schnorr_sign K data sk' aux = Some u" "schnorr_verify L u data (xOnly q) = Some True"
    using curve_public [OF assms(1) valid'] assms(3) by metis
  then show "\<exists>s q. signWithScheme K aux sk data ''bip341'' m = Inr s \<and> secp_public K sk' = Some q \<and> schnorr_verify L s data (xOnly q) = Some True"
    using tweak by (simp add: signWithScheme_def)
qed

text \<open>C32: What a reachable key manager does when it is asked to sign for an identifier, or for the active
  key when none is given. Without identifier and active key, and for the empty identifier even when a
  key is held under it, there is no key set; a key that is not held or has no secret is reported as
  such. In every other case it signs: any data under BIP-340 or by default, data of 32 bytes under
  ECDSA, and verifies the signature itself under the same identifier; a taproot signature verifies under
  the public key of the tweaked secret.\<close>

theorem managed_signature_verifies:
  assumes "curve_ok L K" "manager_reach L K km" "length aux = 32"
  shows "case (if id' = None then km_activeKeyId km else id') of
      None \<Rightarrow> \<forall>options. managerSign K aux km data id' options = key_manager_error ''ACTIVE_KEY_NOT_SET''
    | Some keyId \<Rightarrow>
        if keyId = [] then \<forall>options. managerSign K aux km data id' options = key_manager_error ''ACTIVE_KEY_NOT_SET''
        else case jm_get (km_store km) keyId of
          None \<Rightarrow> \<forall>options. managerSign K aux km data id' options = key_manager_error ''KEY_NOT_FOUND''
        | Some e \<Rightarrow>
            (case ke_secretKey e of
               None \<Rightarrow> \<forall>options. managerSign K aux km data id' options = key_manager_error ''KEY_NOT_SIGNER''
             | Some sk \<Rightarrow>
                 (\<forall>scheme \<in> {None, Some ''bip340''} \<union> (if length data = 32 then {Some ''ecdsa''} else {}). \<exists>s.
                    managerSign K aux km data id' \<lparr>so_scheme = scheme, so_merkleRoot = m\<rparr> = Inr s \<and>
                    managerVerify L K km s data id' scheme = Inr True) \<and>
                 (\<forall>sk'. taproot_tweak_secret K sk (case m of None \<Rightarrow> [] | Some r \<Rightarrow> r) = Some sk' \<longrightarrow>
                    (\<exists>s q. managerSign K aux km data id' \<lparr>so_scheme = Some ''bip341'', so_merkleRoot = m\<rparr> = Inr s \<and>
                       secp_public K sk' = Some q \<and> schnorr_verify L s data (xOnly q) = Some True)))"
proof (cases "selectedEntry km id'")
  case None
  then show ?thesis
    by (auto simp: managerSign_def getEntryOrThrow_def selectedEntry_def key_manager_error_def Let_def
        split: option.splits if_splits)
next
  case (Some e)
  then have entry: "getEntryOrThrow km id' = Inr e" by (simp add: getEntry_selected(2))
  obtain keyId where keyId: "(if id' = None then km_activeKeyId km else id') = Some keyId" "keyId \<noteq> []"
    "jm_get (km_store km) keyId = Some e"
    using Some by (auto simp: selectedEntry_def split: option.splits if_splits)
  have public: "public_of L K (ke_publicKey e) (ke_secretKey e)"
    by (rule selected_public [OF assms(1) manager_reach_ok [OF assms(1,2)] Some])
  show ?thesis
  proof (cases "ke_secretKey e")
    case None
    then show ?thesis by (simp only: keyId option.case if_False) (simp add: managerSign_def entry)
  next
    case (Some sk)
    note signs = scheme_signs [OF assms(1) public [unfolded Some] assms(3), where data = data and m = m]
    from signs(1) obtain s where s: "signWithScheme K aux sk data ''bip340'' m = Inr s" "schnorr_verify L s data (xOnly (ke_publicKey e)) = Some True"
      by blast
    have "managerSign K aux km data id' \<lparr>so_scheme = scheme, so_merkleRoot = m\<rparr> = Inr s \<and> managerVerify L K km s data id' scheme = Inr True"
      if "scheme \<in> {None, Some ''bip340''}" for scheme
      using that s by (auto simp: Some managerSign_def managerVerify_def entry)
    moreover have "\<exists>t. managerSign K aux km data id' \<lparr>so_scheme = Some ''ecdsa'', so_merkleRoot = m\<rparr> = Inr t \<and>
        managerVerify L K km t data id' (Some ''ecdsa'') = Inr True" if "length data = 32"
      using signs(2) [OF that] by (auto simp: Some managerSign_def managerVerify_def entry)
    moreover have "\<exists>s q. managerSign K aux km data id' \<lparr>so_scheme = Some ''bip341'', so_merkleRoot = m\<rparr> = Inr s \<and>
        secp_public K sk' = Some q \<and> schnorr_verify L s data (xOnly q) = Some True"
      if "taproot_tweak_secret K sk (case m of None \<Rightarrow> [] | Some r \<Rightarrow> r) = Some sk'" for sk'
      using signs(3) [OF that] by (simp add: Some managerSign_def entry)
    ultimately show ?thesis
      by (simp only: keyId option.case if_False Some) (auto split: if_splits)
  qed
qed

section \<open>The signer over a key manager\<close>

text \<open>What the signer relies on: a key that signs is one whose public key can be read, and its BIP-340
  signatures verify under that public key. \<open>ok\<close> holds of the managers that can occur.\<close>

locale key_manager =
  fixes L :: "'x method_lib_scheme" and ok :: "'m \<Rightarrow> bool"
    and pk :: "'m \<Rightarrow> string option \<Rightarrow> bytes result"
    and sign :: "'m \<Rightarrow> bytes \<Rightarrow> string option \<Rightarrow> sign_options \<Rightarrow> bytes result"
  assumes signs_readable: "ok km \<Longrightarrow> sign km data i options = Inr s \<Longrightarrow> \<exists>key. pk km i = Inr key"
    and signature_verifies: "ok km \<Longrightarrow> pk km i = Inr key \<Longrightarrow>
      sign km data i \<lparr>so_scheme = Some ''bip340'', so_merkleRoot = m\<rparr> = Inr s \<Longrightarrow> schnorr_verify L s data (xOnly key) = Some True"
begin

lemma signer_keeps_id:
  "newKeyManagerSigner pk km keyId = Inr s \<Longrightarrow> signerPublicKey pk km' s = (s', r) \<Longrightarrow> ks_keyId s' = keyId"
  by (auto simp: newKeyManagerSigner_def signerPublicKey_def rbind_Inr_iff split: option.splits sum.splits)

lemma signer_with_id:
  "newKeyManagerSigner pk km (Some i) = Inr s \<Longrightarrow> pk km (Some i) = Inr key \<Longrightarrow> signerPublicKey pk km' s = (s, Inr key)"
  by (auto simp: newKeyManagerSigner_def signerPublicKey_def rbind_Inr_iff)

lemma signer_sound:
  assumes "newKeyManagerSigner pk km0 keyId = Inr s" "signerPublicKey pk km1 s = (s', Inr key)"
    "ok km" "pk km keyId = Inr key" "signerSign sign km s' data ''bip340'' m = Inr sig"
  shows "schnorr_verify L sig data (xOnly key) = Some True"
  using assms signature_verifies signer_keeps_id [OF assms(1,2)] by (simp add: signerSign_def)

end

interpretation local_manager: key_manager L "\<lambda>km. curve_ok L K \<and> length aux = 32 \<and> manager_reach L K km" getPublicKeyOf "managerSign K aux"
  for L K aux
proof (unfold_locales, goal_cases)
  case (1 km data i options s)
  then show ?case by (auto simp: managerSign_def getPublicKeyOf_def rbind_Inr_iff)
next
  case (2 km i key data m s)
  then obtain e sk where e: "getEntryOrThrow km i = Inr e" "ke_publicKey e = key" "ke_secretKey e = Some sk"
    and s: "of_option (schnorr_sign K data sk aux) = Inr s"
    by (auto simp: managerSign_def getPublicKeyOf_def rbind_Inr_iff signWithScheme_def key_manager_error_def split: option.splits)
  have "public_of L K key (Some sk)"
    using selected_public [of L K km i e] manager_reach_ok [of L K km] 2(1) e by (auto simp: getEntry_selected(2))
  then have valid: "secp_valid_secret K sk" "secp_public K sk = Some key" by (simp_all add: public_of_def)
  from 2(1) have ok: "curve_ok L K" and aux: "length aux = 32" by blast+
  from curve_public [OF ok valid(1)] valid(2) aux s show ?case
    by (metis of_option_Inr_iff option.inject)
qed

text \<open>The signer over a key manager signs under the public key that it reports, as long as the key
  that it selects is still the same when it signs: for a signer with an identifier, whatever is done
  to the other keys and to the active key.\<close>

theorem manager_signer_sound:
  assumes "curve_ok L K" "length aux = 32" "manager_reach L K km"
    "newKeyManagerSigner getPublicKeyOf km0 keyId = Inr s" "signerPublicKey getPublicKeyOf km1 s = (s', Inr key)"
    "getPublicKeyOf km keyId = Inr key" "signerSign (managerSign K aux) km s' data ''bip340'' m = Inr sig"
  shows "schnorr_verify L sig data (xOnly key) = Some True \<and>
    (keyId \<noteq> None \<longrightarrow> getPublicKeyOf km0 keyId = Inr key \<and> s' = s)"
proof
  show "schnorr_verify L sig data (xOnly key) = Some True"
    using local_manager.signer_sound [OF assms(4,5) _ assms(6,7)] assms(1-3) by blast
  show "keyId \<noteq> None \<longrightarrow> getPublicKeyOf km0 keyId = Inr key \<and> s' = s"
    using assms(4,5) by (auto simp: newKeyManagerSigner_def signerPublicKey_def rbind_Inr_iff)
qed

section \<open>A concrete key manager\<close>

definition demo_secret :: "byte \<Rightarrow> bytes" where "demo_secret b = replicate 31 0 @ [b]"

definition demo_pair :: "byte \<Rightarrow> SchnorrKeyPair" where
  "demo_pair b = \<lparr>kp_secretKey = Some (secret_of demo_klib (demo_secret b)), kp_publicKey = 2 # demo_secret b\<rparr>"

definition demo_manager :: LocalKeyManager where
  "demo_manager = managerCall demo_klib demo_curve (ImportKey (demo_pair 9) \<lparr>io_id = Some ''b'', io_setActive = False, io_tags = None\<rparr>)
     (managerCall demo_klib demo_curve (ImportKey (demo_pair 5) \<lparr>io_id = Some ''a'', io_setActive = True, io_tags = None\<rparr>) (newKeyManager []))"

lemma demo_secret_value: "bytes_to_bigint (replicate n 0 @ [b]) = uint b"
  by (induction n) simp_all

lemma demo_pair_reach: "b \<in> {5, 9} \<Longrightarrow> pair_reach demo_klib demo_curve (demo_pair b)"
proof (rule pair_new)
  assume b: "b \<in> {5, 9}"
  have valid: "secp_valid_secret demo_curve (demo_secret b)"
    using b by (auto simp: demo_curve_def demo_secret_def demo_secret_value)
  show "newKeyPair demo_klib demo_curve (RawKey (demo_secret b)) NoKey = Inr (demo_pair b)"
    using valid
    by (simp add: newKeyPair_def newSecretKey_bytes [OF demo_curve_ok(1)])
       (simp add: computePublicKey_def secret_of_def demo_curve_def newPublicKey_def demo_klib_def demo_mlib_def demo_secret_def demo_pair_def)
qed auto

lemma demo_manager_reach: "manager_reach demo_klib demo_curve demo_manager"
  unfolding demo_manager_def
  by (intro manager_called manager_new) (auto intro: demo_pair_reach)

lemma demo_manager_facts:
  "km_store demo_manager = [(''a'', \<lparr>ke_secretKey = Some (demo_secret 5), ke_publicKey = 2 # demo_secret 5, ke_tags = None\<rparr>),
     (''b'', \<lparr>ke_secretKey = Some (demo_secret 9), ke_publicKey = 2 # demo_secret 9, ke_tags = None\<rparr>)]"
  "km_activeKeyId demo_manager = Some ''a''"
  by (simp_all add: demo_manager_def managerCall_def importKey_def newKeyManager_def jm_has_def hasSecretKey_def demo_pair_def
      pairSecretKey_def secretIsValid_def secret_of_def demo_curve_def demo_secret_def demo_secret_value Let_def)

lemma key_manager_invariant_witness: "distinct (listKeys demo_manager) \<and> ''a'' \<in> set (listKeys demo_manager)"
  using key_manager_invariant [OF demo_curve_ok(1) demo_manager_reach] demo_manager_facts by blast

lemma managed_signature_verifies_witness:
  "\<exists>s. managerSign demo_curve (replicate 32 0) demo_manager (replicate 32 7) None \<lparr>so_scheme = Some ''ecdsa'', so_merkleRoot = None\<rparr> = Inr s \<and>
     managerVerify demo_klib demo_curve demo_manager s (replicate 32 7) None (Some ''ecdsa'') = Inr True"
proof -
  show ?thesis
    using managed_signature_verifies [OF demo_curve_ok(1) demo_manager_reach, where aux = "replicate 32 0" and data = "replicate 32 7" and id' = None and m = None]
    by (simp add: demo_manager_facts)
qed

text \<open>A signer without identifier that has reported its public key signs with another key once the active
  key is changed.\<close>

definition demo_switched :: LocalKeyManager where
  "demo_switched = managerCall demo_klib demo_curve (SetActiveKey ''b'') demo_manager"

lemma signer_follows_active_key:
  "\<exists>s s' key sig. newKeyManagerSigner getPublicKeyOf demo_manager None = Inr s \<and>
     signerPublicKey getPublicKeyOf demo_manager s = (s', Inr key) \<and>
     signerSign (managerSign demo_curve aux) demo_switched s' data ''bip340'' None = Inr sig \<and>
     schnorr_verify demo_klib sig data (xOnly key) = Some False"
  by (simp add: newKeyManagerSigner_def signerPublicKey_def getPublicKeyOf_def getEntryOrThrow_def demo_manager_facts
      demo_switched_def managerCall_def setActiveKey_def signerSign_def managerSign_def signWithScheme_def demo_klib_def
      demo_curve_def xOnly_def demo_secret_def)

lemma manager_signer_sound_witness:
  "\<exists>sig. signerSign (managerSign demo_curve (replicate 32 0)) demo_switched \<lparr>ks_keyId = Some ''a'', ks_cachedPublicKey = Some (2 # demo_secret 5)\<rparr>
       [1] ''bip340'' None = Inr sig \<and> schnorr_verify demo_klib sig [1] (xOnly (2 # demo_secret 5)) = Some True"
proof -
  let ?s = "\<lparr>ks_keyId = Some ''a'', ks_cachedPublicKey = Some (2 # demo_secret 5)\<rparr>"
  have reach: "manager_reach demo_klib demo_curve demo_switched"
    unfolding demo_switched_def by (rule manager_called [OF demo_manager_reach]) simp
  have store: "km_store demo_switched = km_store demo_manager"
    by (simp add: demo_switched_def managerCall_def setActiveKey_def getEntryOrThrow_def demo_manager_facts)
  have key: "getPublicKeyOf km (Some ''a'') = Inr (2 # demo_secret 5)" if "km_store km = km_store demo_manager" for km
    by (simp add: getPublicKeyOf_def getEntryOrThrow_def that demo_manager_facts)
  have new: "newKeyManagerSigner getPublicKeyOf demo_manager (Some ''a'') = Inr ?s"
    by (simp add: newKeyManagerSigner_def key)
  have reported: "signerPublicKey getPublicKeyOf demo_manager ?s = (?s, Inr (2 # demo_secret 5))"
    by (simp add: signerPublicKey_def)
  have signs: "signerSign (managerSign demo_curve (replicate 32 0)) demo_switched ?s [1] ''bip340'' None = Inr ([1] @ demo_secret 5)"
    by (simp add: signerSign_def managerSign_def getEntryOrThrow_def store demo_manager_facts signWithScheme_def demo_curve_def)
  show ?thesis
    using manager_signer_sound [OF demo_curve_ok(1) _ reach new reported key [OF store] signs] signs by simp
qed

end
