(* ===== verification/HttpEnvelope.thy ===== *)
theory HttpEnvelope
  imports KeyPair AggLimits
begin

text \<open>
  Signed envelopes and signed requests: \<open>packages/aggregation/src/core/transport/http\<close>
  (\<open>protocol.ts\<close>, \<open>envelope.ts\<close>, \<open>request-auth.ts\<close>). An envelope that is received is any JSON
  value: its fields are read as the code reads them, with the conversions of JavaScript where it
  computes with a field whose type it has not checked.

  Time is in milliseconds, \<open>nowMs\<close>. The own property \<open>__proto__\<close>, which an assignment to a property
  treats in a special way, is a property like any other here.
\<close>

section \<open>\<open>protocol.ts\<close>\<close>

definition HTTP_ENVELOPE_VERSION :: int where "HTTP_ENVELOPE_VERSION = 1"
definition DEFAULT_CLOCK_SKEW_SEC :: int where "DEFAULT_CLOCK_SKEW_SEC = 60"

definition http_error :: "string \<Rightarrow> error + 'a" where
  "http_error code = Inl (Error ''HttpTransportError'' code)"

section \<open>Conversions of JavaScript\<close>

text \<open>The value of a finite double, and numbers with the three values that are not finite in one each
  for \<open>NaN\<close> and the infinities.\<close>

definition float_value :: "64 word \<Rightarrow> rat" where
  "float_value w =
     (let frac = of_nat (unat (take_bit 52 w)); ex = unat (take_bit 11 (drop_bit 52 w));
          magnitude = (if ex = 0 then frac / 2 ^ 1074
                       else if ex < 1075 then (2 ^ 52 + frac) / 2 ^ (1075 - ex) else (2 ^ 52 + frac) * 2 ^ (ex - 1075))
      in if bit w 63 then - magnitude else magnitude)"

datatype js_num = NaN | Infinite | Num rat

definition num_of_string :: "string \<Rightarrow> js_num" where
  "num_of_string s =
     (case string_to_number s of
        Some r \<Rightarrow> Num r
      | None \<Rightarrow> if js_trim s \<in> {''Infinity'', ''+Infinity'', ''-Infinity''} then Infinite else NaN)"

text \<open>\<open>String(v)\<close> and \<open>Number(v)\<close>; how a double that is no integer is written is the parameter \<open>fmt\<close>.
  An array converts through the strings of its elements with commas in between, an object through
  \<open>toString\<close>; an own property \<open>toString\<close> of a JSON object is not a function, and then the conversion
  throws.\<close>

fun js_join :: "string \<Rightarrow> string list \<Rightarrow> string" where
  "js_join sep [] = []"
| "js_join sep [s] = s"
| "js_join sep (s # t # ss) = s @ sep @ js_join sep (t # ss)"

fun string_of :: "(64 word \<Rightarrow> string) \<Rightarrow> jsval \<Rightarrow> string result" where
  "string_of fmt JUndef = Inr ''undefined''"
| "string_of fmt JNull = Inr ''null''"
| "string_of fmt (JBool b) = Inr (if b then ''true'' else ''false'')"
| "string_of fmt (JInt i) = Inr (show_int i)"
| "string_of fmt (JFloat w) = Inr (fmt w)"
| "string_of fmt (JStr s) = Inr s"
| "string_of fmt (JBytes bs) = Inr (js_join '','' (map (\<lambda>b. show_int (uint b)) bs))"
| "string_of fmt (JArr xs) =
     rbind (mapR (\<lambda>x. if x = JUndef \<or> x = JNull then Inr [] else string_of fmt x) xs) (\<lambda>ss. Inr (js_join '','' ss))"
| "string_of fmt (JObj kvs) = (if js_has_own (JObj kvs) ''toString'' then type_error else Inr ''[object Object]'')"

definition num_of :: "(64 word \<Rightarrow> string) \<Rightarrow> jsval \<Rightarrow> js_num result" where
  "num_of fmt v = (case v of
      JUndef \<Rightarrow> Inr NaN
    | JNull \<Rightarrow> Inr (Num 0)
    | JBool b \<Rightarrow> Inr (Num (if b then 1 else 0))
    | JInt i \<Rightarrow> Inr (Num (of_int i))
    | JFloat w \<Rightarrow> Inr (if float_nan w then NaN else if float_finite w then Num (float_value w) else Infinite)
    | _ \<Rightarrow> rbind (string_of fmt v) (\<lambda>s. Inr (num_of_string s)))"

section \<open>\<open>envelope.ts\<close>\<close>

text \<open>What the transport calls besides: \<open>JSON.stringify\<close>, the format of a double, the path of an absolute
  URL and \<open>decodeURIComponent\<close>, which throw on \<open>None\<close>.\<close>

record http_lib =
  json_stringify :: "jsval \<Rightarrow> string"
  format_double :: "64 word \<Rightarrow> string"
  url_pathname :: "string \<Rightarrow> string option"
  decode_uri_component :: "string \<Rightarrow> string option"

definition stringify_ok :: "'x method_lib_scheme \<Rightarrow> http_lib \<Rightarrow> bool" where
  "stringify_ok L H \<longleftrightarrow> (\<forall>v. v \<noteq> JUndef \<longrightarrow> json_parse L (json_stringify H v) = Some (jsonRoundTrip v))"

primrec normalizeForWire :: "'x method_lib_scheme \<Rightarrow> jsval \<Rightarrow> jsval" where
  "normalizeForWire L JUndef = JUndef"
| "normalizeForWire L JNull = JNull"
| "normalizeForWire L (JBool b) = JBool b"
| "normalizeForWire L (JInt i) = JInt i"
| "normalizeForWire L (JFloat w) = JFloat w"
| "normalizeForWire L (JStr s) = JStr s"
| "normalizeForWire L (JBytes bs) = JObj [(''__bytes'', JStr (hex_encode L bs))]"
| "normalizeForWire L (JArr xs) = JArr (map (normalizeForWire L) xs)"
| "normalizeForWire L (JObj kvs) = JObj (map (map_prod id (normalizeForWire L)) kvs)"

text \<open>Reviving is applied to what \<open>JSON.parse\<close> returns, where there are no byte arrays.\<close>

fun reviveFromWire :: "'x method_lib_scheme \<Rightarrow> jsval \<Rightarrow> jsval result" where
  "reviveFromWire L (JObj kvs) =
     (case kvs of
        [(k, JStr h)] \<Rightarrow>
          if k = ''__bytes'' then rbind (of_option (hex_decode L h)) (\<lambda>bs. Inr (JBytes bs))
          else Inr (JObj kvs)
      | _ \<Rightarrow> rbind (mapR (\<lambda>(k, v). rbind (reviveFromWire L v) (\<lambda>w. Inr (k, w))) kvs) (\<lambda>kvs'. Inr (JObj kvs')))"
| "reviveFromWire L (JArr xs) = rbind (mapR (reviveFromWire L) xs) (\<lambda>ys. Inr (JArr ys))"
| "reviveFromWire L v = Inr v"

text \<open>The sender's DID and keys; a message is the form that \<open>toJSON\<close> returns. The nonce is given or
  drawn, the timestamp given or read from the clock: both are arguments.\<close>

definition signEnvelope ::
  "'x method_lib_scheme \<Rightarrow> curve_lib \<Rightarrow> bytes \<Rightarrow> jsval \<Rightarrow> string \<Rightarrow> SchnorrKeyPair \<Rightarrow> string option \<Rightarrow> int \<Rightarrow> string \<Rightarrow> jsval result" where
  "signEnvelope L K aux message did keys recipient timestamp nonce =
     (let messageJson = normalizeForWire L message;
          unsigned' = [(''v'', JInt HTTP_ENVELOPE_VERSION), (''from'', JStr did)] @
            (case recipient of None \<Rightarrow> [] | Some r \<Rightarrow> [(''to'', JStr r)]) @
            [(''timestamp'', JInt timestamp), (''nonce'', JStr nonce), (''message'', messageJson)]
      in rbind (canonicalHashBytes L (JObj unsigned')) (\<lambda>digest.
         rbind (pairSecretKey K keys) (\<lambda>sk.
         rbind (secretSign K aux sk digest (Some Schnorr)) (\<lambda>sig.
           Inr (JObj (unsigned' @ [(''sig'', JStr (hex_encode L sig))]))))))"

record verify_options =
  vo_expectedFrom :: "string option"
  vo_expectedTo :: "string option option"
  vo_clockSkewSec :: "int option"

definition time_skew :: "int \<Rightarrow> js_num \<Rightarrow> int \<Rightarrow> bool" where
  "time_skew nowSec timestamp skewSec =
     (case timestamp of NaN \<Rightarrow> False | Infinite \<Rightarrow> True | Num t \<Rightarrow> of_int skewSec < \<bar>of_int nowSec - t\<bar>)"

definition opt_str :: "string option \<Rightarrow> jsval" where
  "opt_str s = (case s of None \<Rightarrow> JUndef | Some t \<Rightarrow> JStr t)"

definition verifyEnvelope ::
  "'x method_lib_scheme \<Rightarrow> curve_lib \<Rightarrow> http_lib \<Rightarrow> jsval \<Rightarrow> bytes \<Rightarrow> verify_options \<Rightarrow> int \<Rightarrow> unit result" where
  "verifyEnvelope L K H envelope senderPk opts nowMs =
     (if js_prop_opt envelope ''v'' \<noteq> JInt HTTP_ENVELOPE_VERSION then http_error ''ENVELOPE_VERSION_MISMATCH''
      else if vo_expectedFrom opts \<noteq> None \<and> js_prop_opt envelope ''from'' \<noteq> opt_str (vo_expectedFrom opts)
        then http_error ''ENVELOPE_FROM_MISMATCH''
      else if (case vo_expectedTo opts of None \<Rightarrow> False | Some e \<Rightarrow> js_prop_opt envelope ''to'' \<noteq> opt_str e)
        then http_error ''ENVELOPE_TO_MISMATCH''
      else rbind (num_of (format_double H) (js_prop_opt envelope ''timestamp'')) (\<lambda>timestamp.
        let skewSec = (case vo_clockSkewSec opts of None \<Rightarrow> DEFAULT_CLOCK_SKEW_SEC | Some s \<Rightarrow> s);
            nowSec = nowMs div 1000 in
        if time_skew nowSec timestamp skewSec then http_error ''ENVELOPE_TIMESTAMP_SKEW''
        else case (case js_prop_opt envelope ''sig'' of JStr s \<Rightarrow> hex_decode L s | _ \<Rightarrow> None) of
          None \<Rightarrow> http_error ''ENVELOPE_SIG_HEX''
        | Some sigBytes \<Rightarrow>
            if length sigBytes \<noteq> 64 then http_error ''ENVELOPE_SIG_LENGTH''
            else rbind (canonicalHashBytes L (js_delete_prop ''sig'' envelope)) (\<lambda>digest.
              rbind (publicVerify L K senderPk sigBytes digest (Some Schnorr)) (\<lambda>ok.
                if \<not> ok then http_error ''ENVELOPE_SIG_INVALID'' else Inr ()))))"

section \<open>\<open>request-auth.ts\<close>\<close>

definition REQUEST_AUTH_SCHEME :: string where "REQUEST_AUTH_SCHEME = ''BTCR2-Sig''"

record ParsedRequestAuth =
  pa_v :: int
  pa_did :: string
  pa_ts :: int
  pa_nonce :: string
  pa_sig :: string

definition auth_object :: "int \<Rightarrow> string \<Rightarrow> int \<Rightarrow> string \<Rightarrow> string \<Rightarrow> jsval" where
  "auth_object v did ts nonce path =
     JObj [(''v'', JInt v), (''did'', JStr did), (''ts'', JInt ts), (''nonce'', JStr nonce), (''path'', JStr path)]"

definition buildRequestAuth ::
  "'x method_lib_scheme \<Rightarrow> curve_lib \<Rightarrow> bytes \<Rightarrow> string \<Rightarrow> SchnorrKeyPair \<Rightarrow> string \<Rightarrow> int \<Rightarrow> string \<Rightarrow> string result" where
  "buildRequestAuth L K aux did keys path ts nonce =
     rbind (canonicalHashBytes L (auth_object HTTP_ENVELOPE_VERSION did ts nonce path)) (\<lambda>digest.
     rbind (pairSecretKey K keys) (\<lambda>sk.
     rbind (secretSign K aux sk digest (Some Schnorr)) (\<lambda>sig.
       Inr (REQUEST_AUTH_SCHEME @ '' v='' @ show_int HTTP_ENVELOPE_VERSION @ '',did='' @ did @ '',ts='' @ show_int ts @
            '',nonce='' @ nonce @ '',sig='' @ hex_encode L sig))))"

text \<open>The text before and after the first \<open>=\<close>, if there is one.\<close>

fun split_eq :: "string \<Rightarrow> (string \<times> string) option" where
  "split_eq [] = None"
| "split_eq (c # s) = (if c = CHR ''='' then Some ([], s) else map_option (\<lambda>(a, b). (c # a, b)) (split_eq s))"

definition auth_params :: "string \<Rightarrow> (string \<times> string) list" where
  "auth_params s =
     fold (\<lambda>piece params.
       case split_eq piece of
         None \<Rightarrow> params
       | Some (a, b) \<Rightarrow>
           let key = js_trim a; val = js_trim b
           in if key \<noteq> [] then jm_set key val params else params)
       (split_char (CHR '','') s) []"

text \<open>\<open>Number.isInteger(Number(x))\<close> with the integer, of a parameter that may be missing.\<close>

definition integer_param :: "string option \<Rightarrow> int option" where
  "integer_param s =
     (case s of
        None \<Rightarrow> None
      | Some s \<Rightarrow>
          (case num_of_string s of
             Num r \<Rightarrow> if of_int \<lfloor>r\<rfloor> = r then Some \<lfloor>r\<rfloor> else None
           | _ \<Rightarrow> None))"

definition parseRequestAuth :: "string \<Rightarrow> ParsedRequestAuth result" where
  "parseRequestAuth headerValue =
     (let prefix = REQUEST_AUTH_SCHEME @ '' ''
      in if \<not> starts_with prefix headerValue then http_error ''REQUEST_AUTH_SCHEME''
         else
           let params = auth_params (drop (length prefix) headerValue)
           in case (integer_param (map_of params ''v''), integer_param (map_of params ''ts'')) of
                (Some v, Some ts) \<Rightarrow>
                  if \<not> truthy_str (map_of params ''did'') \<or> \<not> truthy_str (map_of params ''nonce'') \<or> \<not> truthy_str (map_of params ''sig'')
                  then http_error ''REQUEST_AUTH_MALFORMED''
                  else Inr \<lparr>pa_v = v, pa_did = the (map_of params ''did''), pa_ts = ts, pa_nonce = the (map_of params ''nonce''),
                            pa_sig = the (map_of params ''sig'')\<rparr>
              | _ \<Rightarrow> http_error ''REQUEST_AUTH_MALFORMED'')"

definition verifyRequestAuth ::
  "'x method_lib_scheme \<Rightarrow> curve_lib \<Rightarrow> string \<Rightarrow> string \<Rightarrow> bytes \<Rightarrow> int option \<Rightarrow> int \<Rightarrow> ParsedRequestAuth result" where
  "verifyRequestAuth L K headerValue expectedPath senderPk clockSkewSec nowMs =
     rbind (parseRequestAuth headerValue) (\<lambda>parsed.
       if pa_v parsed \<noteq> HTTP_ENVELOPE_VERSION then http_error ''REQUEST_AUTH_VERSION_MISMATCH''
       else if (case clockSkewSec of None \<Rightarrow> DEFAULT_CLOCK_SKEW_SEC | Some s \<Rightarrow> s) < \<bar>nowMs div 1000 - pa_ts parsed\<bar>
         then http_error ''REQUEST_AUTH_TIMESTAMP_SKEW''
       else case hex_decode L (pa_sig parsed) of
           None \<Rightarrow> http_error ''REQUEST_AUTH_SIG_HEX''
         | Some sigBytes \<Rightarrow>
             if length sigBytes \<noteq> 64 then http_error ''REQUEST_AUTH_SIG_LENGTH''
             else rbind (canonicalHashBytes L (auth_object (pa_v parsed) (pa_did parsed) (pa_ts parsed) (pa_nonce parsed) expectedPath)) (\<lambda>digest.
               rbind (publicVerify L K senderPk sigBytes digest (Some Schnorr)) (\<lambda>ok.
                 if \<not> ok then http_error ''REQUEST_AUTH_SIG_INVALID'' else Inr parsed)))"

end
