(* ===== verification/SseStream.thy ===== *)
theory SseStream
  imports HttpEnvelope
begin

text \<open>
  Event streams: \<open>packages/aggregation/src/service/sse-writer.ts\<close> and \<open>participant/sse-stream.ts\<close>. The
  parser is the state of the generator, the text not yet read to the end of a line and the fields of the
  event under construction; it is fed the text that the decoder returns for each chunk of bytes. The
  theorem is that what is written is read, however the text is cut into chunks.
\<close>

section \<open>Writing\<close>

definition data_line :: "string \<Rightarrow> string" where "data_line part = ''data: '' @ part"

definition formatSseEvent :: "string \<Rightarrow> string \<Rightarrow> string option \<Rightarrow> string" where
  "formatSseEvent event d id' =
     (let lines = (case id' of None \<Rightarrow> [] | Some i \<Rightarrow> [''id: '' @ i]) @ [''event: '' @ event] @
            map data_line (split_char (CHR 0x0A) d) @ [[], []]
      in js_join [CHR 0x0A] lines)"

definition formatSseComment :: "string \<Rightarrow> string" where
  "formatSseComment comment =
     (let safe = map (\<lambda>c. if c = CHR 0x0A then CHR '' '' else c) comment in '': '' @ safe @ [CHR 0x0A, CHR 0x0A])"

section \<open>Reading\<close>

record SseEvent =
  ev_event :: "string option"
  ev_data :: string
  ev_id :: "string option"
  ev_retry :: "int option"

record sse_pending =
  sp_event :: "string option"
  sp_data :: "string option"
  sp_id :: "string option"
  sp_retry :: "int option"

definition no_pending :: sse_pending where
  "no_pending = \<lparr>sp_event = None, sp_data = None, sp_id = None, sp_retry = None\<rparr>"

definition dispatchPending :: "sse_pending \<Rightarrow> SseEvent list" where
  "dispatchPending p =
     (case sp_data p of
        None \<Rightarrow> []
      | Some d \<Rightarrow> [\<lparr>ev_event = sp_event p, ev_data = d, ev_id = sp_id p, ev_retry = sp_retry p\<rparr>])"

text \<open>The text before and after the first occurrence of a character.\<close>

fun split_first :: "char \<Rightarrow> string \<Rightarrow> (string \<times> string) option" where
  "split_first x [] = None"
| "split_first x (c # s) = (if c = x then Some ([], s) else map_option (\<lambda>(a, b). (c # a, b)) (split_first x s))"

definition processLine :: "string \<Rightarrow> sse_pending \<Rightarrow> sse_pending" where
  "processLine line p =
     (if starts_with '':'' line then p
      else
        let (field, val) = (case split_first (CHR '':'') line of None \<Rightarrow> (line, []) | Some r \<Rightarrow> r);
            val = (if starts_with '' '' val then drop 1 val else val)
        in if field = ''data'' then
             p\<lparr>sp_data := Some (case sp_data p of None \<Rightarrow> val | Some d \<Rightarrow> d @ [CHR 0x0A] @ val)\<rparr>
           else if field = ''event'' then p\<lparr>sp_event := Some val\<rparr>
           else if field = ''id'' then (if CHR 0x00 \<in> set val then p else p\<lparr>sp_id := Some val\<rparr>)
           else if field = ''retry'' then
             (case integer_param (Some val) of
                Some n \<Rightarrow> if 0 \<le> n then p\<lparr>sp_retry := Some n\<rparr> else p
              | None \<Rightarrow> p)
           else p)"

definition chop_cr :: "string \<Rightarrow> string" where
  "chop_cr line = (if line \<noteq> [] \<and> last line = CHR 0x0D then butlast line else line)"

definition oneLine :: "string \<Rightarrow> sse_pending \<Rightarrow> sse_pending \<times> SseEvent list" where
  "oneLine line p =
     (let line = chop_cr line
      in if line = [] then (no_pending, dispatchPending p) else (processLine line p, []))"

lemma split_first_length: "split_first x s = Some (a, b) \<Longrightarrow> length b < length s"
  by (induction s arbitrary: a) (fastforce split: if_splits)+

text \<open>Reads the complete lines of the buffer; the rest stays there.\<close>

function drainLines :: "sse_pending \<Rightarrow> string \<Rightarrow> (sse_pending \<times> string) \<times> SseEvent list" where
  "drainLines p buffer =
     (case split_first (CHR 0x0A) buffer of
        None \<Rightarrow> ((p, buffer), [])
      | Some (line, rest) \<Rightarrow>
          let (p1, evs) = oneLine line p; (s, evs') = drainLines p1 rest in (s, evs @ evs'))"
  by pat_completeness auto

termination by (relation "measure (\<lambda>(p, s). length s)") (auto dest: split_first_length)

declare drainLines.simps [simp del]

definition readChunk :: "string \<Rightarrow> sse_pending \<times> string \<Rightarrow> (sse_pending \<times> string) \<times> SseEvent list" where
  "readChunk text' s = drainLines (fst s) (snd s @ text')"

text \<open>The end of the stream, with the text that the decoder still holds.\<close>

definition readEnd :: "string \<Rightarrow> sse_pending \<times> string \<Rightarrow> SseEvent list" where
  "readEnd flushed s =
     (let buffer = snd s @ flushed;
          line = chop_cr buffer;
          p = (if buffer \<noteq> [] \<and> line \<noteq> [] then processLine line (fst s) else fst s)
      in dispatchPending p)"

fun readChunks :: "string list \<Rightarrow> sse_pending \<times> string \<Rightarrow> (sse_pending \<times> string) \<times> SseEvent list" where
  "readChunks [] s = (s, [])"
| "readChunks (c # cs) s =
     (let (s1, evs) = readChunk c s; (s2, evs') = readChunks cs s1 in (s2, evs @ evs'))"

definition parseSseStream :: "string list \<Rightarrow> string \<Rightarrow> SseEvent list" where
  "parseSseStream chunks flushed = (let (s, evs) = readChunks chunks (no_pending, []) in evs @ readEnd flushed s)"

section \<open>What is written is read\<close>

lemma split_first_none: "x \<notin> set s \<Longrightarrow> split_first x s = None"
  by (induction s) auto

lemma split_first_append: "x \<notin> set s \<Longrightarrow> split_first x (s @ x # t) = Some (s, t)"
  by (induction s) auto

lemma split_first_longer: "split_first x s = Some (a, b) \<Longrightarrow> split_first x (s @ t) = Some (a, b @ t)"
  by (induction s arbitrary: a) (auto split: if_splits)

text \<open>Draining in two steps is draining at once.\<close>

lemma drain_append:
  "drainLines p (buffer @ t) =
     (let ((p1, rest), evs) = drainLines p buffer; (s, evs') = drainLines p1 (rest @ t) in (s, evs @ evs'))"
proof (induction p buffer rule: drainLines.induct)
  case (1 p buffer)
  show ?case
  proof (cases "split_first (CHR 0x0A) buffer")
    case None
    then show ?thesis by (simp add: drainLines.simps [of p buffer])
  next
    case (Some lr)
    obtain line rest where lr: "lr = (line, rest)" by force
    obtain p1 evs where one: "oneLine line p = (p1, evs)" by force
    have IH: "drainLines p1 (rest @ t) =
        (let ((p2, rest2), evs2) = drainLines p1 rest; (s, evs') = drainLines p2 (rest2 @ t) in (s, evs2 @ evs'))"
      using "1" [OF Some lr [symmetric] one [symmetric] refl] .
    have "drainLines p (buffer @ t) = (let (s, evs') = drainLines p1 (rest @ t) in (s, evs @ evs'))"
      using split_first_longer [OF Some [unfolded lr]] by (subst drainLines.simps) (simp add: one)
    moreover have "drainLines p buffer = (let (s, evs') = drainLines p1 rest in (s, evs @ evs'))"
      using Some lr by (subst drainLines.simps) (simp add: one)
    ultimately show ?thesis by (simp add: IH case_prod_beta Let_def)
  qed
qed

lemma drain_rest: "drainLines p buffer = ((p1, rest), evs) \<Longrightarrow> split_first (CHR 0x0A) rest = None"
proof (induction p buffer arbitrary: evs rule: drainLines.induct)
  case (1 p buffer)
  show ?case
  proof (cases "split_first (CHR 0x0A) buffer")
    case None
    then show ?thesis using "1.prems" by (simp add: drainLines.simps)
  next
    case (Some lr)
    obtain line tail' where lr: "lr = (line, tail')" by force
    obtain p2 evs2 where one: "oneLine line p = (p2, evs2)" by force
    obtain evs3 where "drainLines p2 tail' = ((p1, rest), evs3)"
      using "1.prems" Some lr one by (subst (asm) drainLines.simps) (auto split: prod.splits)
    then show ?thesis using "1.IH" [OF Some lr [symmetric] one [symmetric] refl] by blast
  qed
qed

lemma chunks_drain:
  "split_first (CHR 0x0A) buffer = None \<Longrightarrow> readChunks cs (p, buffer) = drainLines p (buffer @ concat cs)"
proof (induction cs arbitrary: p buffer)
  case Nil
  then show ?case by (simp add: drainLines.simps)
next
  case (Cons c cs)
  obtain p1 rest evs where d: "drainLines p (buffer @ c) = ((p1, rest), evs)" by (metis surj_pair)
  have "readChunks cs (p1, rest) = drainLines p1 (rest @ concat cs)" by (rule Cons.IH [OF drain_rest [OF d]])
  moreover have "drainLines p (buffer @ c @ concat cs) = (let (s, evs') = drainLines p1 (rest @ concat cs) in (s, evs @ evs'))"
    using drain_append [of p "buffer @ c" "concat cs"] d by simp
  ultimately show ?case by (simp add: readChunk_def d)
qed

text \<open>A line that ends is read; a frame is its lines.\<close>

lemma drain_line:
  "CHR 0x0A \<notin> set line \<Longrightarrow> drainLines p (line @ CHR 0x0A # rest) =
     (let (p1, evs) = oneLine line p; (s, evs') = drainLines p1 rest in (s, evs @ evs'))"
  by (subst drainLines.simps) (simp add: split_first_append)

fun applyLines :: "string list \<Rightarrow> sse_pending \<Rightarrow> sse_pending" where
  "applyLines [] p = p"
| "applyLines (l # ls) p = applyLines ls (processLine l p)"

definition plain_line :: "string \<Rightarrow> bool" where
  "plain_line s \<longleftrightarrow> CHR 0x0A \<notin> set s \<and> CHR 0x0D \<notin> set s"

lemma plain_chop: "plain_line l \<Longrightarrow> chop_cr l = l"
  unfolding plain_line_def chop_cr_def by (metis last_in_set)

lemma drain_lines:
  "\<forall>l \<in> set ls. plain_line l \<and> l \<noteq> [] \<Longrightarrow>
     drainLines p (concat (map (\<lambda>l. l @ [CHR 0x0A]) ls) @ rest) = drainLines (applyLines ls p) rest"
proof (induction ls arbitrary: p)
  case (Cons l ls)
  then have l: "plain_line l" "l \<noteq> []" by simp_all
  then have "oneLine l p = (processLine l p, [])" by (simp add: oneLine_def plain_chop)
  with Cons l show ?case by (simp add: drain_line plain_line_def case_prod_beta)
qed simp

lemma join_lines: "js_join [x] (ls @ [[], []]) = concat (map (\<lambda>l. l @ [x]) ls) @ [x]"
  by (induction "[x]" ls rule: js_join.induct) simp_all

text \<open>The frames that a server writes: events, whose name and identifier are on one line, and comments.\<close>

datatype sse_frame = EventFrame string string "string option" | CommentFrame string

fun frame_text :: "sse_frame \<Rightarrow> string" where
  "frame_text (EventFrame event d id') = formatSseEvent event d id'"
| "frame_text (CommentFrame c) = formatSseComment c"

fun frame_events :: "sse_frame \<Rightarrow> SseEvent list" where
  "frame_events (EventFrame event d id') = [\<lparr>ev_event = Some event, ev_data = d, ev_id = id', ev_retry = None\<rparr>]"
| "frame_events (CommentFrame c) = []"

fun frame_ok :: "sse_frame \<Rightarrow> bool" where
  "frame_ok (EventFrame event d id') \<longleftrightarrow> plain_line event \<and> CHR 0x0D \<notin> set d \<and>
     (case id' of None \<Rightarrow> True | Some i \<Rightarrow> plain_line i \<and> CHR 0x00 \<notin> set i)"
| "frame_ok (CommentFrame c) \<longleftrightarrow> CHR 0x0D \<notin> set c"

lemma process_fields:
  "processLine (''id: '' @ i) p = (if CHR 0x00 \<in> set i then p else p\<lparr>sp_id := Some i\<rparr>)"
  "processLine (''event: '' @ e) p = p\<lparr>sp_event := Some e\<rparr>"
  "processLine (data_line d) p = p\<lparr>sp_data := Some (case sp_data p of None \<Rightarrow> d | Some d' \<Rightarrow> d' @ [CHR 0x0A] @ d)\<rparr>"
  by (simp_all add: processLine_def starts_with_def data_line_def)

lemma apply_data:
  "applyLines (map data_line parts) (p\<lparr>sp_data := Some d\<rparr>) =
     p\<lparr>sp_data := Some (js_join [CHR 0x0A] (d # parts))\<rparr>"
proof (induction parts arbitrary: d)
  case (Cons x parts)
  have join: "js_join s ((a @ s @ b) # zs) = js_join s (a # b # zs)" for s a b :: string and zs by (cases zs) simp_all
  show ?case using Cons [of "d @ [CHR 0x0A] @ x"] join [of "[CHR 0x0A]" d x parts]
    by (simp only: list.map applyLines.simps process_fields) simp
qed simp

lemma join_split: "js_join [x] (split_char x s) = s"
proof (induction s)
  case (Cons c s)
  obtain a as where "split_char x s = a # as" by (cases "split_char x s") auto
  with Cons show ?case by (cases as) auto
qed simp

lemma split_plain: "part \<in> set (split_char x s) \<Longrightarrow> x \<notin> set part \<and> set part \<subseteq> set s"
proof (induction s arbitrary: part)
  case (Cons c s)
  obtain a as where "split_char x s = a # as" by (cases "split_char x s") auto
  with Cons show ?case by (cases "c = x") fastforce+
qed simp

lemma apply_append: "applyLines (xs @ ys) p = applyLines ys (applyLines xs p)"
  by (induction xs arbitrary: p) simp_all

lemma frame_drain:
  assumes "frame_ok f"
  shows "drainLines no_pending (frame_text f @ rest) = (let (s, evs) = drainLines no_pending rest in (s, frame_events f @ evs))"
proof (cases f)
  case (CommentFrame c)
  let ?line = "'': '' @ map (\<lambda>c. if c = CHR 0x0A then CHR '' '' else c) c"
  have plain: "plain_line ?line" using assms by (auto simp: CommentFrame plain_line_def)
  have "frame_text f @ rest = ?line @ CHR 0x0A # [] @ CHR 0x0A # rest" by (simp add: CommentFrame formatSseComment_def)
  then have "drainLines no_pending (frame_text f @ rest) = drainLines no_pending ([] @ CHR 0x0A # rest)"
    using plain drain_line [of ?line no_pending "[] @ CHR 0x0A # rest"] plain_chop [OF plain]
    by (simp add: oneLine_def processLine_def starts_with_def plain_line_def case_prod_beta)
  also have "\<dots> = drainLines no_pending rest"
    by (subst drain_line) (simp_all add: oneLine_def chop_cr_def dispatchPending_def no_pending_def case_prod_beta)
  finally show ?thesis by (simp add: CommentFrame)
next
  case (EventFrame event d id')
  let ?ls = "(case id' of None \<Rightarrow> [] | Some i \<Rightarrow> [''id: '' @ i]) @ [''event: '' @ event] @ map data_line (split_char (CHR 0x0A) d)"
  let ?p = "no_pending\<lparr>sp_id := id', sp_event := Some event, sp_data := Some d\<rparr>"
  have lines: "\<forall>l \<in> set ?ls. plain_line l \<and> l \<noteq> []"
    using assms split_plain [of _ "CHR 0x0A" d] by (auto simp: EventFrame plain_line_def data_line_def split: option.splits)
  obtain a as where split: "split_char (CHR 0x0A) d = a # as" by (cases "split_char (CHR 0x0A) d") auto
  have "applyLines ?ls no_pending = ?p"
  proof -
    have "applyLines (case id' of None \<Rightarrow> [] | Some i \<Rightarrow> [''id: '' @ i]) no_pending = no_pending\<lparr>sp_id := id'\<rparr>"
      using assms by (auto simp: EventFrame no_pending_def process_fields simp del: append.simps split: option.splits)
    moreover have "applyLines (map data_line (a # as)) (no_pending\<lparr>sp_id := id', sp_event := Some event\<rparr>) = ?p"
      using apply_data [where parts = as and p = "no_pending\<lparr>sp_id := id', sp_event := Some event\<rparr>" and d = a] join_split [of "CHR 0x0A" d]
      by (simp only: list.map applyLines.simps process_fields split) (simp add: no_pending_def)
    ultimately show ?thesis
      by (simp only: apply_append applyLines.simps process_fields split)
  qed
  moreover have "frame_text f = concat (map (\<lambda>l. l @ [CHR 0x0A]) ?ls) @ [CHR 0x0A]"
    by (simp only: EventFrame frame_text.simps formatSseEvent_def Let_def append_assoc [symmetric] join_lines)
  ultimately have "drainLines no_pending (frame_text f @ rest) = drainLines ?p ([] @ CHR 0x0A # rest)"
    using drain_lines [OF lines, of no_pending "CHR 0x0A # rest"] by simp
  also have "\<dots> = (let (s, evs) = drainLines no_pending rest in (s, frame_events f @ evs))"
    by (subst drain_line) (simp_all add: EventFrame oneLine_def chop_cr_def dispatchPending_def no_pending_def case_prod_beta)
  finally show ?thesis .
qed

text \<open>C38: The event stream is a faithful channel for events whose data may have any number of lines but no
  carriage return, whose name and identifier are one line each, and whose identifier has no null
  character, as those of the server are: the events that are written, with comments without carriage
  return in between, are exactly the events that the client reads, in order and with their data, names
  and identifiers, however the text is cut into chunks on the way.\<close>

theorem sse_stream_roundtrip:
  assumes "\<forall>f \<in> set frames. frame_ok f" "concat chunks = concat (map frame_text frames)"
  shows "parseSseStream chunks [] = concat (map frame_events frames)"
proof -
  have "drainLines no_pending (concat (map frame_text fs)) = ((no_pending, []), concat (map frame_events fs))"
    if "\<forall>f \<in> set fs. frame_ok f" for fs
    using that
  proof (induction fs)
    case Nil
    show ?case by (subst drainLines.simps) simp
  next
    case (Cons f fs)
    then show ?case using frame_drain [of f "concat (map frame_text fs)"] by simp
  qed
  from this [OF assms(1)] have "readChunks chunks (no_pending, []) = ((no_pending, []), concat (map frame_events frames))"
    using chunks_drain [of "[]" chunks no_pending] assms(2) by simp
  then show ?thesis by (simp add: parseSseStream_def readEnd_def dispatchPending_def no_pending_def)
qed

text \<open>A carriage return at the end of a line of the data is lost, because the parser takes it for a part of the
  end of the line and the writer does not split there.\<close>

lemma carriage_return_lost:
  "parseSseStream [formatSseEvent ''m'' [CHR ''a'', CHR 0x0D] None] [] =
     [\<lparr>ev_event = Some ''m'', ev_data = ''a'', ev_id = None, ev_retry = None\<rparr>]"
  by code_simp

lemma sse_stream_roundtrip_witness:
  "parseSseStream [''id: 7'', [CHR 0x0A] @ ''event: advert'' @ [CHR 0x0A] @ ''data: {}'', [CHR 0x0A, CHR 0x0A]] [] =
     [\<lparr>ev_event = Some ''advert'', ev_data = ''{}'', ev_id = Some ''7'', ev_retry = None\<rparr>]"
  using sse_stream_roundtrip [of "[EventFrame ''advert'' ''{}'' (Some ''7'')]"
      "[''id: 7'', [CHR 0x0A] @ ''event: advert'' @ [CHR 0x0A] @ ''data: {}'', [CHR 0x0A, CHR 0x0A]]"]
  by (simp add: plain_line_def formatSseEvent_def data_line_def)

end
