(* ===== verification/HttpServer.thy ===== *)
theory HttpServer
  imports HttpEnvelope AggMessages
begin

text \<open>
  The HTTP transport of the aggregation service: the class \<open>HttpServerTransport\<close> of
  \<open>packages/aggregation/src/service/http-server.ts\<close>. Streams of server-sent events and message handlers are the caller's: a stream is
  a number, and what the transport does to it, like a call of a handler, is an effect. A handler
  runs after everything the request does to the transport, and its exceptions are swallowed. A
  promise that is rejected is \<open>Inl\<close>.

  The clock that is injected and \<open>Date.now\<close>, which the verification of a posted envelope uses, are
  two arguments; each is read once per request. The injected resolver of keys decodes DIDs: for a
  \<open>from\<close> that is not a string it returns \<open>undefined\<close>.
\<close>

section \<open>State\<close>

record HttpRequestLike =
  rq_method :: string
  rq_url :: string
  rq_headers :: "(string, string) jsmap"
  rq_body :: "string option"

record HttpResponseLike =
  rp_status :: nat
  rp_headers :: "(string, string) jsmap"
  rp_body :: string

datatype CorsPolicy = Permissive | Allowlist "string list" | SameOrigin

record 'h ActorEntry =
  ac_keys :: SchnorrKeyPair
  ac_handlers :: "(string, 'h) jsmap"

record InboxState =
  in_buffer :: InboxBuffer
  in_subscribers :: "nat list"

record CurrentAdvert =
  ad_dataJson :: string
  ad_id :: string
  ad_expiresAtMs :: int

record 'h HttpServerTransport =
  hs_cors :: CorsPolicy
  hs_clockSkewSec :: int
  hs_inboxBufferSize :: int
  hs_advertTtlMs :: int
  hs_heartbeatMs :: int
  hs_maxBodyBytes :: int
  hs_rateLimiter :: "InMemoryRateLimitStore RateLimiter"
  hs_nonceCache :: NonceCache
  hs_resolveSenderPk :: "(string \<Rightarrow> jsval option \<Rightarrow> bytes option) option"
  hs_actors :: "(string, 'h ActorEntry) jsmap"
  hs_peers :: "(string, bytes) jsmap"
  hs_inboxes :: "(string, InboxState) jsmap"
  hs_broadcastSubscribers :: "nat list"
  hs_currentAdvert :: "CurrentAdvert option"
  hs_advertSeq :: nat

datatype 'h http_effect =
    Dispatch string string 'h jsval
  | WriteEvent nat string string string
  | CloseStream nat
  | StartHeartbeat nat int
  | StopHeartbeat nat

record server_config =
  hc_cors :: "CorsPolicy option"
  hc_clockSkewSec :: "int option"
  hc_inboxBufferSize :: "int option"
  hc_advertTtlMs :: "int option"
  hc_rateLimiter :: "InMemoryRateLimitStore RateLimiter option"
  hc_nonceCache :: "NonceCache option"
  hc_heartbeatIntervalMs :: "int option"
  hc_maxBodyBytes :: "int option"
  hc_resolveSenderPk :: "(string \<Rightarrow> jsval option \<Rightarrow> bytes option) option"

definition or_default :: "'a option \<Rightarrow> 'a \<Rightarrow> 'a" where
  "or_default x d = (case x of None \<Rightarrow> d | Some v \<Rightarrow> v)"

definition newHttpServer :: "server_config \<Rightarrow> 'h HttpServerTransport" where
  "newHttpServer config =
     \<lparr>hs_cors = or_default (hc_cors config) Permissive,
      hs_clockSkewSec = or_default (hc_clockSkewSec config) DEFAULT_CLOCK_SKEW_SEC,
      hs_inboxBufferSize = or_default (hc_inboxBufferSize config) 100,
      hs_advertTtlMs = or_default (hc_advertTtlMs config) (5 * 60 * 1000),
      hs_heartbeatMs = or_default (hc_heartbeatIntervalMs config) 20000,
      hs_maxBodyBytes = or_default (hc_maxBodyBytes config) (64 * 1024),
      hs_rateLimiter = or_default (hc_rateLimiter config) (newRateLimiter None None []),
      hs_nonceCache = or_default (hc_nonceCache config) (newNonceCache None),
      hs_resolveSenderPk = hc_resolveSenderPk config,
      hs_actors = [], hs_peers = [], hs_inboxes = [], hs_broadcastSubscribers = [], hs_currentAdvert = None, hs_advertSeq = 0\<rparr>"

section \<open>Actors, peers and handlers\<close>

definition registerActor :: "string \<Rightarrow> SchnorrKeyPair \<Rightarrow> 'h HttpServerTransport \<Rightarrow> 'h HttpServerTransport" where
  "registerActor did keys s = s\<lparr>hs_actors := jm_set did \<lparr>ac_keys = keys, ac_handlers = []\<rparr> (hs_actors s)\<rparr>"

definition unregisterActor :: "string \<Rightarrow> 'h HttpServerTransport \<Rightarrow> 'h HttpServerTransport" where
  "unregisterActor did s = s\<lparr>hs_actors := jm_delete did (hs_actors s), hs_peers := jm_delete did (hs_peers s)\<rparr>"

definition getActorPk :: "'h HttpServerTransport \<Rightarrow> string \<Rightarrow> bytes option" where
  "getActorPk s did = map_option (\<lambda>a. kp_publicKey (ac_keys a)) (jm_get (hs_actors s) did)"

definition registerPeer ::
  "'x method_lib_scheme \<Rightarrow> string \<Rightarrow> bytes \<Rightarrow> 'h HttpServerTransport \<Rightarrow> 'h HttpServerTransport \<times> unit result" where
  "registerPeer L did communicationPk s =
     (case newPublicKey L communicationPk of
        Inl _ \<Rightarrow> (s, http_error ''INVALID_PEER_KEY'')
      | Inr _ \<Rightarrow> (s\<lparr>hs_peers := jm_set did communicationPk (hs_peers s)\<rparr>, Inr ()))"

definition getPeerPk :: "'h HttpServerTransport \<Rightarrow> string \<Rightarrow> bytes option" where
  "getPeerPk s did = jm_get (hs_peers s) did"

definition registerMessageHandler ::
  "string \<Rightarrow> string \<Rightarrow> 'h \<Rightarrow> 'h HttpServerTransport \<Rightarrow> 'h HttpServerTransport \<times> unit result" where
  "registerMessageHandler actorDid messageType handler s =
     (case jm_get (hs_actors s) actorDid of
        None \<Rightarrow> (s, http_error ''UNKNOWN_ACTOR'')
      | Some actor \<Rightarrow>
          (s\<lparr>hs_actors := jm_set actorDid (actor\<lparr>ac_handlers := jm_set messageType handler (ac_handlers actor)\<rparr>) (hs_actors s)\<rparr>, Inr ()))"

definition unregisterMessageHandler :: "string \<Rightarrow> string \<Rightarrow> 'h HttpServerTransport \<Rightarrow> 'h HttpServerTransport" where
  "unregisterMessageHandler actorDid messageType s =
     (case jm_get (hs_actors s) actorDid of
        None \<Rightarrow> s
      | Some actor \<Rightarrow>
          s\<lparr>hs_actors := jm_set actorDid (actor\<lparr>ac_handlers := jm_delete messageType (ac_handlers actor)\<rparr>) (hs_actors s)\<rparr>)"

section \<open>Responses\<close>

definition corsHeaders :: "'h HttpServerTransport \<Rightarrow> HttpRequestLike \<Rightarrow> (string, string) jsmap" where
  "corsHeaders s req =
     (let origin = jm_get (rq_headers req) ''origin'';
          common = [(''access-control-allow-methods'', ''GET, POST, OPTIONS''),
                    (''access-control-allow-headers'', ''authorization, content-type, last-event-id''),
                    (''access-control-max-age'', ''86400'')]
      in if \<not> truthy_str origin then []
         else case hs_cors s of
           Permissive \<Rightarrow> (''access-control-allow-origin'', ''*'') # common
         | Allowlist origins \<Rightarrow>
             if the origin \<in> set origins then (''access-control-allow-origin'', the origin) # (''vary'', ''origin'') # common else []
         | SameOrigin \<Rightarrow> [])"

definition respondJson :: "http_lib \<Rightarrow> 'h HttpServerTransport \<Rightarrow> nat \<Rightarrow> jsval \<Rightarrow> HttpRequestLike \<Rightarrow> HttpResponseLike" where
  "respondJson H s status body req =
     \<lparr>rp_status = status, rp_headers = (''content-type'', ''application/json'') # corsHeaders s req, rp_body = json_stringify H body\<rparr>"

definition respond :: "'h HttpServerTransport \<Rightarrow> nat \<Rightarrow> string \<Rightarrow> HttpRequestLike \<Rightarrow> HttpResponseLike" where
  "respond s status body req = \<lparr>rp_status = status, rp_headers = corsHeaders s req, rp_body = body\<rparr>"

definition wellKnownMetadata :: "'h HttpServerTransport \<Rightarrow> jsval" where
  "wellKnownMetadata s =
     JObj [(''envelopeVersion'', JInt HTTP_ENVELOPE_VERSION), (''heartbeatIntervalMs'', JInt (hs_heartbeatMs s)),
           (''inboxBufferSize'', JInt (hs_inboxBufferSize s)), (''advertTtlMs'', JInt (hs_advertTtlMs s))]"

text \<open>\<open>toUpperCase\<close> of the method, which has ASCII letters.\<close>

definition to_upper :: "string \<Rightarrow> string" where
  "to_upper s = map (\<lambda>c. let n = of_char c :: nat in if 97 \<le> n \<and> n \<le> 122 then char_of (n - 32) else c) s"

definition extractPath :: "http_lib \<Rightarrow> string \<Rightarrow> string result" where
  "extractPath H reqUrl =
     (if starts_with ''http://'' reqUrl \<or> starts_with ''https://'' reqUrl then of_option (url_pathname H reqUrl)
      else Inr (takeWhile (\<lambda>c. c \<noteq> CHR ''?'') reqUrl))"

definition matchInboxPath :: "http_lib \<Rightarrow> string \<Rightarrow> string option" where
  "matchInboxPath H path =
     (let prefix = ''/v1/actors/''; suffix = ''/inbox''
      in if \<not> starts_with prefix path \<or> \<not> starts_with (rev suffix) (rev path) then None
         else let encodedDid = drop (length prefix) (take (length path - length suffix) path)
           in if encodedDid = [] then None else decode_uri_component H encodedDid)"

text \<open>\<open>JSON.parse\<close> of a body that is there and parses; falsy values count as absent.\<close>

definition parseJsonBody :: "'x method_lib_scheme \<Rightarrow> string option \<Rightarrow> jsval option" where
  "parseJsonBody L body =
     (if \<not> truthy_str body then None
      else case json_parse L (the body) of None \<Rightarrow> None | Some v \<Rightarrow> if truthy v then Some v else None)"

text \<open>The properties that spreading an object copies.\<close>

definition js_entries :: "jsval \<Rightarrow> (string \<times> jsval) list" where
  "js_entries v = (case v of
      JObj kvs \<Rightarrow> kvs
    | JArr xs \<Rightarrow> map (\<lambda>(i, x). (show_nat i, x)) (enumerate 0 xs)
    | JBytes bs \<Rightarrow> map (\<lambda>(i, b). (show_nat i, JInt (uint b))) (enumerate 0 bs)
    | _ \<Rightarrow> [])"

definition flattenMessage :: "jsval \<Rightarrow> jsval result" where
  "flattenMessage msg =
     rbind (js_prop msg ''body'') (\<lambda>body.
       if truthy body \<and> typeof_object body
       then Inr (JObj (fold (\<lambda>(k, v) m. jm_set k v m) (js_entries body) (js_entries msg)))
       else Inr msg)"

section \<open>Sending\<close>

definition getOrCreateInbox :: "string \<Rightarrow> 'h HttpServerTransport \<Rightarrow> InboxState result" where
  "getOrCreateInbox did s =
     (case jm_get (hs_inboxes s) did of
        Some inbox \<Rightarrow> Inr inbox
      | None \<Rightarrow> rbind (newInboxBuffer (Some (hs_inboxBufferSize s))) (\<lambda>b. Inr \<lparr>in_buffer = b, in_subscribers = []\<rparr>))"

definition sendMessage ::
  "'x method_lib_scheme \<Rightarrow> curve_lib \<Rightarrow> http_lib \<Rightarrow> bytes \<Rightarrow> int \<Rightarrow> string \<Rightarrow> jsval \<Rightarrow> string \<Rightarrow> string option
     \<Rightarrow> 'h HttpServerTransport \<Rightarrow> 'h HttpServerTransport \<times> 'h http_effect list \<times> unit result" where
  "sendMessage L K H aux timestamp nonce message sender recipient s =
     (if \<not> truthy_str recipient then (s, [], http_error ''MISSING_RECIPIENT'')
      else case jm_get (hs_actors s) sender of
        None \<Rightarrow> (s, [], http_error ''UNKNOWN_SENDER'')
      | Some actor \<Rightarrow>
          (case signEnvelope L K aux message sender (ac_keys actor) recipient timestamp nonce of
             Inl e \<Rightarrow> (s, [], Inl e)
           | Inr envelope \<Rightarrow>
               (case getOrCreateInbox (the recipient) s of
                  Inl e \<Rightarrow> (s, [], Inl e)
                | Inr inbox \<Rightarrow>
                    let (buffer, stored) = inboxAppend ''message'' (json_stringify H envelope) (in_buffer inbox)
                    in (s\<lparr>hs_inboxes := jm_set (the recipient) (inbox\<lparr>in_buffer := buffer\<rparr>) (hs_inboxes s)\<rparr>,
                        map (\<lambda>sub. WriteEvent sub (se_event stored) (se_data stored) (se_id stored)) (in_subscribers inbox), Inr ()))))"

text \<open>The returned function is \<open>stopAdvert\<close> with the identifier of the advert.\<close>

definition publishRepeating ::
  "'x method_lib_scheme \<Rightarrow> curve_lib \<Rightarrow> http_lib \<Rightarrow> bytes \<Rightarrow> int \<Rightarrow> string \<Rightarrow> int \<Rightarrow> jsval \<Rightarrow> string
     \<Rightarrow> 'h HttpServerTransport \<Rightarrow> 'h HttpServerTransport \<times> 'h http_effect list \<times> string result" where
  "publishRepeating L K H aux timestamp nonce now message sender s =
     (case jm_get (hs_actors s) sender of
        None \<Rightarrow> (s, [], http_error ''UNKNOWN_SENDER'')
      | Some actor \<Rightarrow>
          (case signEnvelope L K aux message sender (ac_keys actor) None timestamp nonce of
             Inl e \<Rightarrow> (s, [], Inl e)
           | Inr envelope \<Rightarrow>
               let dataJson = json_stringify H envelope; seq = Suc (hs_advertSeq s); id' = show_nat seq
               in (s\<lparr>hs_advertSeq := seq,
                     hs_currentAdvert := Some \<lparr>ad_dataJson = dataJson, ad_id = id', ad_expiresAtMs = now + hs_advertTtlMs s\<rparr>\<rparr>,
                   map (\<lambda>sub. WriteEvent sub ''advert'' dataJson id') (hs_broadcastSubscribers s), Inr id')))"

definition stopAdvert :: "string \<Rightarrow> 'h HttpServerTransport \<Rightarrow> 'h HttpServerTransport" where
  "stopAdvert id' s =
     (case hs_currentAdvert s of
        Some a \<Rightarrow> if ad_id a = id' then s\<lparr>hs_currentAdvert := None\<rparr> else s
      | None \<Rightarrow> s)"

definition closeSubscriber :: "'h HttpServerTransport \<Rightarrow> nat \<Rightarrow> 'h http_effect list" where
  "closeSubscriber s sub = (if 0 < hs_heartbeatMs s then [StopHeartbeat sub] else []) @ [CloseStream sub]"

definition stopServer :: "'h HttpServerTransport \<Rightarrow> 'h HttpServerTransport \<times> 'h http_effect list" where
  "stopServer s =
     (s\<lparr>hs_broadcastSubscribers := [], hs_inboxes := [], hs_currentAdvert := None\<rparr>,
      concat (map (closeSubscriber s) (hs_broadcastSubscribers s @ concat (map (\<lambda>(_, i). in_subscribers i) (hs_inboxes s)))))"

section \<open>Authentication of senders\<close>

definition resolveSenderPk ::
  "'x method_lib_scheme \<Rightarrow> 'h HttpServerTransport \<Rightarrow> jsval \<Rightarrow> jsval option \<Rightarrow> bytes option" where
  "resolveSenderPk L s did genesis =
     (case did of
        JStr d \<Rightarrow>
          (case Option.bind (jm_get (hs_peers s) d) (\<lambda>p. case newPublicKey L p of Inr pk \<Rightarrow> Some pk | Inl _ \<Rightarrow> None) of
             Some pk \<Rightarrow> Some pk
           | None \<Rightarrow> Option.bind (hs_resolveSenderPk s) (\<lambda>f. f d genesis))
      | _ \<Rightarrow> None)"

definition server_verify ::
  "'x method_lib_scheme \<Rightarrow> curve_lib \<Rightarrow> http_lib \<Rightarrow> 'h HttpServerTransport \<Rightarrow> jsval \<Rightarrow> bytes \<Rightarrow> int \<Rightarrow> unit result" where
  "server_verify L K H s envelope pk dateNow =
     verifyEnvelope L K H envelope pk
       \<lparr>vo_expectedFrom = None, vo_expectedTo = None, vo_clockSkewSec = Some (hs_clockSkewSec s)\<rparr> dateNow"

text \<open>The resolver is called directly, not through the registry of peers.\<close>

definition bootstrapSenderPk ::
  "'x method_lib_scheme \<Rightarrow> curve_lib \<Rightarrow> http_lib \<Rightarrow> int \<Rightarrow> 'h HttpServerTransport \<Rightarrow> jsval \<Rightarrow> bytes option result" where
  "bootstrapSenderPk L K H dateNow s envelope =
     (case hs_resolveSenderPk s of
        None \<Rightarrow> Inr None
      | Some f \<Rightarrow>
          rbind (reviveFromWire L (js_prop_opt envelope ''message'')) (\<lambda>message.
          rbind (flattenMessage message) (\<lambda>flat.
            if js_prop_opt flat ''type'' \<noteq> JStr COHORT_OPT_IN then Inr None
            else let genesisDocument = js_prop_opt flat ''genesisDocument'' in
            if \<not> truthy genesisDocument \<or> \<not> typeof_object genesisDocument then Inr None
            else case (case js_prop_opt envelope ''from'' of JStr d \<Rightarrow> f d (Some genesisDocument) | _ \<Rightarrow> None) of
              None \<Rightarrow> Inr None
            | Some derived \<Rightarrow>
                if js_prop_opt flat ''communicationPk'' \<noteq> JBytes derived then Inr None
                else case server_verify L K H s envelope derived dateNow of
                  Inl _ \<Rightarrow> Inr None
                | Inr _ \<Rightarrow> Inr (Some derived))))"

definition enforceBodySize :: "'h HttpServerTransport \<Rightarrow> HttpRequestLike \<Rightarrow> bool" where
  "enforceBodySize s req =
     (case rq_body req of None \<Rightarrow> False | Some b \<Rightarrow> hs_maxBodyBytes s < int (length b))"

text \<open>The two gates that every authenticated request passes: a nonce not seen before and the rate of
  its sender. The cache stores the timestamp of the envelope, which it never reads.\<close>

definition passNonce :: "string \<Rightarrow> string \<Rightarrow> 'h HttpServerTransport \<Rightarrow> 'h HttpServerTransport \<times> bool" where
  "passNonce did nonce s =
     (let (nc, ok) = nonceStore did nonce 0 (hs_nonceCache s) in (s\<lparr>hs_nonceCache := nc\<rparr>, ok))"

definition passRate :: "string \<Rightarrow> int \<Rightarrow> 'h HttpServerTransport \<Rightarrow> 'h HttpServerTransport \<times> bool" where
  "passRate did now s =
     (let (rl, ok) = consume store_get store_set did (of_int now) (hs_rateLimiter s) in (s\<lparr>hs_rateLimiter := rl\<rparr>, ok))"

section \<open>Requests\<close>

type_synonym 'h http_outcome = "'h HttpServerTransport \<times> 'h http_effect list \<times> HttpResponseLike result"

definition answer_error :: "http_lib \<Rightarrow> 'h HttpServerTransport \<Rightarrow> nat \<Rightarrow> string \<Rightarrow> HttpRequestLike \<Rightarrow> 'h http_outcome" where
  "answer_error H s status code req = (s, [], Inr (respondJson H s status (JObj [(''error'', JStr code)]) req))"

text \<open>The message of an envelope whose sender has passed the gates, with the key to register.\<close>

definition deliver ::
  "'x method_lib_scheme \<Rightarrow> http_lib \<Rightarrow> jsval \<Rightarrow> string \<Rightarrow> bytes option \<Rightarrow> HttpRequestLike \<Rightarrow> 'h HttpServerTransport \<Rightarrow> 'h http_outcome" where
  "deliver L H envelope from' bootstrappedPk req s =
     (let recipient = js_prop_opt envelope ''to'' in
      if \<not> truthy recipient then answer_error H s 400 ''missing_recipient'' req
      else case (case recipient of JStr d \<Rightarrow> jm_get (hs_actors s) d | _ \<Rightarrow> None) of
        None \<Rightarrow> answer_error H s 404 ''unknown_recipient'' req
      | Some actor \<Rightarrow>
          (case rbind (reviveFromWire L (js_prop_opt envelope ''message'')) flattenMessage of
             Inl e \<Rightarrow> (s, [], Inl e)
           | Inr flat \<Rightarrow>
               if js_prop_opt flat ''from'' \<noteq> JStr from' then answer_error H s 401 ''sender_mismatch'' req
               else
                 (case (case bootstrappedPk of None \<Rightarrow> (s, Inr ()) | Some pk \<Rightarrow> registerPeer L from' pk s) of
                    (s, Inl e) \<Rightarrow> (s, [], Inl e)
                  | (s, Inr _) \<Rightarrow>
                      (case js_prop_opt flat ''type'' of
                         JStr ty \<Rightarrow>
                           if ty = [] then answer_error H s 400 ''missing_message_type'' req
                           else (s, (case jm_get (ac_handlers actor) ty of
                                  None \<Rightarrow> [] | Some h \<Rightarrow> [Dispatch (case recipient of JStr d \<Rightarrow> d | _ \<Rightarrow> []) ty h flat]),
                                Inr (respondJson H s 202 (JObj [(''ok'', JBool True)]) req))
                       | _ \<Rightarrow> answer_error H s 400 ''missing_message_type'' req))))"

definition passGates ::
  "http_lib \<Rightarrow> int \<Rightarrow> jsval \<Rightarrow> string \<Rightarrow> HttpRequestLike \<Rightarrow> ('h HttpServerTransport \<Rightarrow> 'h http_outcome) \<Rightarrow> 'h HttpServerTransport \<Rightarrow> 'h http_outcome" where
  "passGates H now envelope from' req cont s =
     (case string_of (format_double H) (js_prop_opt envelope ''nonce'') of
        Inl e \<Rightarrow> (s, [], Inl e)
      | Inr nonce \<Rightarrow>
          (case passNonce from' nonce s of
             (s, False) \<Rightarrow> answer_error H s 409 ''replay'' req
           | (s, True) \<Rightarrow>
               (case passRate from' now s of
                  (s, False) \<Rightarrow> answer_error H s 429 ''rate_limited'' req
                | (s, True) \<Rightarrow> cont s)))"

definition handleMessagesPost ::
  "'x method_lib_scheme \<Rightarrow> curve_lib \<Rightarrow> http_lib \<Rightarrow> int \<Rightarrow> int \<Rightarrow> HttpRequestLike \<Rightarrow> 'h HttpServerTransport \<Rightarrow> 'h http_outcome" where
  "handleMessagesPost L K H dateNow now req s =
     (if enforceBodySize s req then answer_error H s 413 ''payload_too_large'' req
      else case parseJsonBody L (rq_body req) of
        None \<Rightarrow> answer_error H s 400 ''invalid_json'' req
      | Some envelope \<Rightarrow>
          let from' = js_prop_opt envelope ''from'' in
          (case resolveSenderPk L s from' None of
             Some senderPk \<Rightarrow>
               (case server_verify L K H s envelope senderPk dateNow of
                  Inl _ \<Rightarrow> answer_error H s 401 ''invalid_envelope'' req
                | Inr _ \<Rightarrow>
                    passGates H now envelope (case from' of JStr d \<Rightarrow> d | _ \<Rightarrow> []) req
                      (deliver L H envelope (case from' of JStr d \<Rightarrow> d | _ \<Rightarrow> []) None req) s)
           | None \<Rightarrow>
               (case bootstrapSenderPk L K H dateNow s envelope of
                  Inl e \<Rightarrow> (s, [], Inl e)
                | Inr None \<Rightarrow> answer_error H s 401 ''unknown_sender'' req
                | Inr (Some pk) \<Rightarrow>
                    passGates H now envelope (case from' of JStr d \<Rightarrow> d | _ \<Rightarrow> []) req
                      (deliver L H envelope (case from' of JStr d \<Rightarrow> d | _ \<Rightarrow> []) (Some pk) req) s)))"

definition publishAdvert ::
  "http_lib \<Rightarrow> int \<Rightarrow> jsval \<Rightarrow> string \<Rightarrow> HttpRequestLike \<Rightarrow> 'h HttpServerTransport \<Rightarrow> 'h http_outcome" where
  "publishAdvert H now envelope from' req s =
     (if \<not> jm_has (hs_actors s) from' then answer_error H s 403 ''not_an_actor'' req
      else
        let seq = Suc (hs_advertSeq s); id' = show_nat seq; dataJson = json_stringify H envelope;
            s = s\<lparr>hs_advertSeq := seq,
                  hs_currentAdvert := Some \<lparr>ad_dataJson = dataJson, ad_id = id', ad_expiresAtMs = now + hs_advertTtlMs s\<rparr>\<rparr>
        in (s, map (\<lambda>sub. WriteEvent sub ''advert'' dataJson id') (hs_broadcastSubscribers s),
            Inr (respondJson H s 202 (JObj [(''ok'', JBool True)]) req)))"

definition handleAdvertsPost ::
  "'x method_lib_scheme \<Rightarrow> curve_lib \<Rightarrow> http_lib \<Rightarrow> int \<Rightarrow> int \<Rightarrow> HttpRequestLike \<Rightarrow> 'h HttpServerTransport \<Rightarrow> 'h http_outcome" where
  "handleAdvertsPost L K H dateNow now req s =
     (if enforceBodySize s req then answer_error H s 413 ''payload_too_large'' req
      else case parseJsonBody L (rq_body req) of
        None \<Rightarrow> answer_error H s 400 ''invalid_json'' req
      | Some envelope \<Rightarrow>
          let from' = js_prop_opt envelope ''from'' in
          (case resolveSenderPk L s from' None of
             None \<Rightarrow> answer_error H s 401 ''unknown_sender'' req
           | Some senderPk \<Rightarrow>
               (case server_verify L K H s envelope senderPk dateNow of
                  Inl _ \<Rightarrow> answer_error H s 401 ''invalid_envelope'' req
                | Inr _ \<Rightarrow>
                    passGates H now envelope (case from' of JStr d \<Rightarrow> d | _ \<Rightarrow> []) req
                      (publishAdvert H now envelope (case from' of JStr d \<Rightarrow> d | _ \<Rightarrow> []) req) s)))"

definition handleRequest ::
  "'x method_lib_scheme \<Rightarrow> curve_lib \<Rightarrow> http_lib \<Rightarrow> int \<Rightarrow> int \<Rightarrow> HttpRequestLike \<Rightarrow> 'h HttpServerTransport \<Rightarrow> 'h http_outcome" where
  "handleRequest L K H dateNow now req s =
     (let m = to_upper (rq_method req) in
      if m = ''OPTIONS'' then (s, [], Inr (respond s 204 [] req))
      else case extractPath H (rq_url req) of
        Inl e \<Rightarrow> (s, [], Inl e)
      | Inr path \<Rightarrow>
          if m = ''GET'' \<and> path = ''/v1/.well-known/aggregation'' then (s, [], Inr (respondJson H s 200 (wellKnownMetadata s) req))
          else if m = ''POST'' \<and> path = ''/v1/messages'' then handleMessagesPost L K H dateNow now req s
          else if m = ''POST'' \<and> path = ''/v1/adverts'' then handleAdvertsPost L K H dateNow now req s
          else answer_error H s 404 ''not_found'' req)"

section \<open>Event streams\<close>

definition heartbeat :: "'h HttpServerTransport \<Rightarrow> nat \<Rightarrow> 'h http_effect list" where
  "heartbeat s stream = (if 0 < hs_heartbeatMs s then [StartHeartbeat stream (hs_heartbeatMs s)] else [])"

definition openBroadcastSubscription :: "int \<Rightarrow> nat \<Rightarrow> 'h HttpServerTransport \<Rightarrow> 'h HttpServerTransport \<times> 'h http_effect list" where
  "openBroadcastSubscription now stream s =
     (let s = s\<lparr>hs_broadcastSubscribers := js_add stream (hs_broadcastSubscribers s)\<rparr>
      in (s, (case hs_currentAdvert s of
                Some a \<Rightarrow> if now < ad_expiresAtMs a then [WriteEvent stream ''advert'' (ad_dataJson a) (ad_id a)] else []
              | None \<Rightarrow> []) @ heartbeat s stream))"

definition openInboxSubscription ::
  "'x method_lib_scheme \<Rightarrow> curve_lib \<Rightarrow> int \<Rightarrow> HttpRequestLike \<Rightarrow> nat \<Rightarrow> string \<Rightarrow> string \<Rightarrow> 'h HttpServerTransport
     \<Rightarrow> 'h HttpServerTransport \<times> 'h http_effect list \<times> unit result" where
  "openInboxSubscription L K now req stream did path s =
     (let auth = jm_get (rq_headers req) ''authorization'' in
      if \<not> truthy_str auth then (s, [CloseStream stream], Inr ())
      else case resolveSenderPk L s (JStr did) None of
        None \<Rightarrow> (s, [CloseStream stream], Inr ())
      | Some senderPk \<Rightarrow>
          (case verifyRequestAuth L K (the auth) path senderPk (Some (hs_clockSkewSec s)) now of
             Inl _ \<Rightarrow> (s, [CloseStream stream], Inr ())
           | Inr parsed \<Rightarrow>
               if pa_did parsed \<noteq> did then (s, [CloseStream stream], Inr ())
               else case passNonce did (pa_nonce parsed) s of
                 (s, False) \<Rightarrow> (s, [CloseStream stream], Inr ())
               | (s, True) \<Rightarrow>
                   (case passRate did now s of
                      (s, False) \<Rightarrow> (s, [CloseStream stream], Inr ())
                    | (s, True) \<Rightarrow>
                        (case getOrCreateInbox did s of
                           Inl e \<Rightarrow> (s, [], Inl e)
                         | Inr inbox \<Rightarrow>
                             (s\<lparr>hs_inboxes := jm_set did (inbox\<lparr>in_subscribers := js_add stream (in_subscribers inbox)\<rparr>) (hs_inboxes s)\<rparr>,
                              map (\<lambda>e. WriteEvent stream (se_event e) (se_data e) (se_id e))
                                (inboxSince (jm_get (rq_headers req) ''last-event-id'') (in_buffer inbox)) @ heartbeat s stream,
                              Inr ())))))"

definition handleSse ::
  "'x method_lib_scheme \<Rightarrow> curve_lib \<Rightarrow> http_lib \<Rightarrow> int \<Rightarrow> HttpRequestLike \<Rightarrow> nat \<Rightarrow> 'h HttpServerTransport
     \<Rightarrow> 'h HttpServerTransport \<times> 'h http_effect list \<times> unit result" where
  "handleSse L K H now req stream s =
     (if to_upper (rq_method req) \<noteq> ''GET'' then (s, [CloseStream stream], Inr ())
      else case extractPath H (rq_url req) of
        Inl e \<Rightarrow> (s, [], Inl e)
      | Inr path \<Rightarrow>
          if path = ''/v1/adverts'' then (let (s, effs) = openBroadcastSubscription now stream s in (s, effs, Inr ()))
          else case matchInboxPath H path of
            Some did \<Rightarrow> openInboxSubscription L K now req stream did path s
          | None \<Rightarrow> (s, [CloseStream stream], Inr ()))"

text \<open>The client disconnects: the callbacks that a subscription has registered.\<close>

definition streamClosed :: "nat \<Rightarrow> 'h HttpServerTransport \<Rightarrow> 'h HttpServerTransport \<times> 'h http_effect list" where
  "streamClosed stream s =
     (s\<lparr>hs_broadcastSubscribers := filter (\<lambda>x. x \<noteq> stream) (hs_broadcastSubscribers s),
        hs_inboxes := map (\<lambda>(d, i). (d, i\<lparr>in_subscribers := filter (\<lambda>x. x \<noteq> stream) (in_subscribers i)\<rparr>)) (hs_inboxes s)\<rparr>,
      if stream \<in> set (hs_broadcastSubscribers s) \<union> (\<Union>(_, i) \<in> set (hs_inboxes s). set (in_subscribers i)) then closeSubscriber s stream else [])"

end
