(* ===== verification/HttpProps.thy ===== *)
theory HttpProps
  imports HttpServer KeyProps
begin

text \<open>
  Properties of the HTTP transport: envelopes and request headers that are signed verify, what a
  verified one guarantees, and which requests reach a handler of the server or change its peers.
\<close>

section \<open>Envelopes\<close>

text \<open>Messages that survive the wire: JSON with byte arrays in it, where no object is taken for the
  sentinel of a byte array.\<close>

primrec wire_message :: "jsval \<Rightarrow> bool" where
  "wire_message JUndef = False"
| "wire_message JNull = True"
| "wire_message (JBool b) = True"
| "wire_message (JInt i) = True"
| "wire_message (JFloat w) = float_finite w"
| "wire_message (JStr s) = True"
| "wire_message (JBytes bs) = True"
| "wire_message (JArr xs) = list_all id (map wire_message xs)"
| "wire_message (JObj kvs) = (list_all snd (map (map_prod id wire_message) kvs) \<and> \<not> (\<exists>h. kvs = [(''__bytes'', JStr h)]))"

lemma wire_message_parts:
  "wire_message (JArr xs) \<longleftrightarrow> (\<forall>x \<in> set xs. wire_message x)"
  "wire_message (JObj kvs) \<longleftrightarrow> (\<forall>(k, v) \<in> set kvs. wire_message v) \<and> \<not> (\<exists>h. kvs = [(''__bytes'', JStr h)])"
  by (auto simp: list_all_iff)

declare wire_message.simps(8,9) [simp del]

lemma wire_is_json: "wire_message v \<Longrightarrow> is_json (normalizeForWire L v)"
proof (induction v)
  case (JObj kvs)
  then show ?case by (fastforce simp: wire_message_parts)
qed (auto simp: wire_message_parts)

lemma not_sentinel: "normalizeForWire L v = JStr h \<Longrightarrow> v = JStr h"
  by (cases v) simp_all

lemma revive_members:
  assumes "\<not> (\<exists>h. kvs = [(''__bytes'', JStr h)])" "mapR (\<lambda>(k, v). rbind (reviveFromWire L v) (\<lambda>w. Inr (k, w))) kvs = Inr kvs'"
  shows "reviveFromWire L (JObj kvs) = Inr (JObj kvs')"
proof (cases "\<exists>k h. kvs = [(k, JStr h)]")
  case True
  then obtain k h where kv: "kvs = [(k, JStr h)]" by blast
  then show ?thesis using assms by auto
next
  case False
  then show ?thesis using assms(2)
    by (cases kvs rule: remdups_adj.cases) (auto split: prod.splits jsval.splits)
qed

lemma revive_normalize: "codecs_ok L \<Longrightarrow> wire_message v \<Longrightarrow> reviveFromWire L (normalizeForWire L v) = Inr v"
proof (induction v)
  case (JBytes bs)
  then show ?case by (simp add: codecs_simps)
next
  case (JArr xs)
  then have "mapR (reviveFromWire L) (map (normalizeForWire L) xs) = Inr xs"
    by (simp add: mapR_Inr_iff list_all2_conv_all_nth wire_message_parts)
  then show ?case by simp
next
  case (JObj kvs)
  let ?n = "map (map_prod id (normalizeForWire L)) kvs"
  have mem: "reviveFromWire L (normalizeForWire L v) = Inr v" if "(k, v) \<in> set kvs" for k v
    using JObj that by (fastforce simp: wire_message_parts)
  have "mapR (\<lambda>(k, v). rbind (reviveFromWire L v) (\<lambda>w. Inr (k, w))) ?n = Inr kvs"
    unfolding mapR_Inr_iff list.rel_map by (rule list.rel_refl_strong) (use mem in \<open>auto split: prod.splits\<close>)
  moreover have "\<not> (\<exists>h. ?n = [(''__bytes'', JStr h)])"
  proof
    assume "\<exists>h. ?n = [(''__bytes'', JStr h)]"
    then obtain h v where "kvs = [(''__bytes'', v)]" "normalizeForWire L v = JStr h" by (cases kvs) auto
    then have "kvs = [(''__bytes'', JStr h)]" using not_sentinel by blast
    then show False using JObj.prems(2) by (simp add: wire_message_parts)
  qed
  ultimately show ?case by (simp only: normalizeForWire.simps) (rule revive_members)
qed simp_all

text \<open>Signatures of the scheme are 64 bytes.\<close>

definition sig64 :: "curve_lib \<Rightarrow> bool" where
  "sig64 K \<longleftrightarrow> (\<forall>data sk aux s. length data = 32 \<longrightarrow> secp_valid_secret K sk \<longrightarrow> schnorr_sign K data sk aux = Some s \<longrightarrow> length s = 64)"

definition keys_of :: "'x method_lib_scheme \<Rightarrow> curve_lib \<Rightarrow> SchnorrKeyPair \<Rightarrow> bool" where
  "keys_of L K kp \<longleftrightarrow> (\<exists>sk. kp_secretKey kp = Some sk \<and> secp_valid_secret K (sk_bytes sk) \<and>
     secp_public K (sk_bytes sk) = Some (kp_publicKey kp))"

lemma length_canon_hash: "sha256_ok L \<Longrightarrow> length (canon_hash L v) = 32"
  by (simp add: canon_hash_def hash_of_def)

lemma pair_signs:
  assumes "curve_ok L K" "keys_of L K kp" "sig64 K" "length aux = 32" "length digest = 32"
  obtains sk s where "pairSecretKey K kp = Inr sk" "secretSign K aux sk digest (Some Schnorr) = Inr s" "length s = 64"
    "publicVerify L K (kp_publicKey kp) s digest (Some Schnorr) = Inr True"
proof -
  from assms(2) obtain sk where sk: "kp_secretKey kp = Some sk" "secp_valid_secret K (sk_bytes sk)"
    "secp_public K (sk_bytes sk) = Some (kp_publicKey kp)" by (auto simp: keys_of_def)
  obtain s where s: "schnorr_sign K digest (sk_bytes sk) aux = Some s" "schnorr_verify L s digest (xOnly (kp_publicKey kp)) = Some True"
    using curve_public [OF assms(1) sk(2)] sk(3) assms(4) by (metis option.inject)
  moreover have "length s = 64" using s(1) sk(2) assms(3,5) unfolding sig64_def by blast
  ultimately show ?thesis
    using sk by (intro that [of sk s]) (simp_all add: pairSecretKey_def secretIsValid_def secretSign_def publicVerify_def)
qed

text \<open>The fields that a signed envelope has.\<close>

definition envelope_fields :: "'x method_lib_scheme \<Rightarrow> jsval \<Rightarrow> string \<Rightarrow> string option \<Rightarrow> int \<Rightarrow> string \<Rightarrow> (string \<times> jsval) list" where
  "envelope_fields L message did recipient timestamp nonce =
     [(''v'', JInt HTTP_ENVELOPE_VERSION), (''from'', JStr did)] @ (case recipient of None \<Rightarrow> [] | Some r \<Rightarrow> [(''to'', JStr r)]) @
     [(''timestamp'', JInt timestamp), (''nonce'', JStr nonce), (''message'', normalizeForWire L message)]"

lemma envelope_fields_simps:
  "own (envelope_fields L m did r t n @ [(''sig'', s)]) ''v'' = JInt 1"
  "own (envelope_fields L m did r t n @ [(''sig'', s)]) ''from'' = JStr did"
  "own (envelope_fields L m did r t n @ [(''sig'', s)]) ''to'' = opt_str r"
  "own (envelope_fields L m did r t n @ [(''sig'', s)]) ''timestamp'' = JInt t"
  "own (envelope_fields L m did r t n @ [(''sig'', s)]) ''nonce'' = JStr n"
  "own (envelope_fields L m did r t n @ [(''sig'', s)]) ''message'' = normalizeForWire L m"
  "own (envelope_fields L m did r t n @ [(''sig'', s)]) ''sig'' = s"
  "jm_delete ''sig'' (envelope_fields L m did r t n @ [(''sig'', s)]) = envelope_fields L m did r t n"
  by (cases r; simp add: envelope_fields_def opt_str_def HTTP_ENVELOPE_VERSION_def)+

lemma signEnvelope_eq:
  assumes "pairSecretKey K keys = Inr sk" "secretSign K aux sk (canon_hash L (JObj (envelope_fields L message did recipient timestamp nonce))) (Some Schnorr) = Inr s"
  shows "signEnvelope L K aux message did keys recipient timestamp nonce =
    Inr (JObj (envelope_fields L message did recipient timestamp nonce @ [(''sig'', JStr (hex_encode L s))]))"
  using assms by (simp add: signEnvelope_def envelope_fields_def Let_def)

lemma signed_verifies:
  assumes "curve_ok L K" "sha256_ok L" "codecs_ok L" "sig64 K" "keys_of L K keys" "length aux = 32"
  obtains s where
    "signEnvelope L K aux message did keys recipient timestamp nonce =
       Inr (JObj (envelope_fields L message did recipient timestamp nonce @ [(''sig'', JStr (hex_encode L s))]))"
    "\<And>opts nowMs. (vo_expectedFrom opts = None \<or> vo_expectedFrom opts = Some did) \<Longrightarrow>
       (vo_expectedTo opts = None \<or> vo_expectedTo opts = Some recipient) \<Longrightarrow>
       \<bar>nowMs div 1000 - timestamp\<bar> \<le> (case vo_clockSkewSec opts of None \<Rightarrow> DEFAULT_CLOCK_SKEW_SEC | Some k \<Rightarrow> k) \<Longrightarrow>
       verifyEnvelope L K H (JObj (envelope_fields L message did recipient timestamp nonce @ [(''sig'', JStr (hex_encode L s))]))
         (kp_publicKey keys) opts nowMs = Inr ()"
proof -
  let ?digest = "canon_hash L (JObj (envelope_fields L message did recipient timestamp nonce))"
  obtain sk s where s: "pairSecretKey K keys = Inr sk" "secretSign K aux sk ?digest (Some Schnorr) = Inr s" "length s = 64"
    "publicVerify L K (kp_publicKey keys) s ?digest (Some Schnorr) = Inr True"
    using pair_signs [OF assms(1,5,4,6)] length_canon_hash [OF assms(2)] by metis
  show ?thesis
  proof (rule that [OF signEnvelope_eq [OF s(1,2)]], goal_cases)
    case (1 opts nowMs)
    have "\<not> time_skew (nowMs div 1000) (Num (of_int timestamp)) (case vo_clockSkewSec opts of None \<Rightarrow> DEFAULT_CLOCK_SKEW_SEC | Some k \<Rightarrow> k)"
      using 1(3) by (simp add: time_skew_def not_less flip: of_int_diff of_int_abs)
    then show ?case
      using 1(1,2) s(3,4)
      by (auto simp: verifyEnvelope_def envelope_fields_simps HTTP_ENVELOPE_VERSION_def num_of_def
          js_delete_prop_def codecs_simps [OF assms(3)] opt_str_def)
  qed
qed

text \<open>A message that is signed into an envelope, written as JSON and parsed by the receiver verifies
  under the public key of the sender within the clock skew, for the right sender and recipient, and
  is revived to the message that was sent, byte arrays included.\<close>

theorem envelope_roundtrip:
  assumes "curve_ok L K" "sha256_ok L" "codecs_ok L" "stringify_ok L H" "sig64 K" "keys_of L K keys" "length aux = 32"
    "wire_message message" "\<bar>nowMs div 1000 - timestamp\<bar> \<le> 60"
  shows "\<exists>envelope received. signEnvelope L K aux message did keys recipient timestamp nonce = Inr envelope \<and>
    json_parse L (json_stringify H envelope) = Some received \<and>
    verifyEnvelope L K H received (kp_publicKey keys)
      \<lparr>vo_expectedFrom = Some did, vo_expectedTo = Some recipient, vo_clockSkewSec = None\<rparr> nowMs = Inr () \<and>
    reviveFromWire L (js_prop_opt received ''message'') = Inr message"
proof -
  obtain s where s: "signEnvelope L K aux message did keys recipient timestamp nonce =
      Inr (JObj (envelope_fields L message did recipient timestamp nonce @ [(''sig'', JStr (hex_encode L s))]))"
    and v: "\<And>opts nowMs. (vo_expectedFrom opts = None \<or> vo_expectedFrom opts = Some did) \<Longrightarrow>
       (vo_expectedTo opts = None \<or> vo_expectedTo opts = Some recipient) \<Longrightarrow>
       \<bar>nowMs div 1000 - timestamp\<bar> \<le> (case vo_clockSkewSec opts of None \<Rightarrow> DEFAULT_CLOCK_SKEW_SEC | Some k \<Rightarrow> k) \<Longrightarrow>
       verifyEnvelope L K H (JObj (envelope_fields L message did recipient timestamp nonce @ [(''sig'', JStr (hex_encode L s))]))
         (kp_publicKey keys) opts nowMs = Inr ()"
    using signed_verifies [OF assms(1-3,5-7)] by metis
  let ?env = "JObj (envelope_fields L message did recipient timestamp nonce @ [(''sig'', JStr (hex_encode L s))])"
  have "is_json ?env"
    using wire_is_json [OF assms(8), of L] by (auto simp: envelope_fields_def split: option.splits)
  then have "json_parse L (json_stringify H ?env) = Some ?env"
    using assms(4) jsonRoundTrip_idem [of ?env] by (simp add: stringify_ok_def)
  then show ?thesis
    using s v [of "\<lparr>vo_expectedFrom = Some did, vo_expectedTo = Some recipient, vo_clockSkewSec = None\<rparr>" nowMs] assms(9)
      DEFAULT_CLOCK_SKEW_SEC_def
      revive_normalize [OF assms(3,8)]
    by (auto simp: envelope_fields_simps)
qed

text \<open>What a verified envelope guarantees: the signature of the key over everything else in it, and a
  timestamp within the skew, unless the timestamp is no number at all.\<close>

definition signed_by :: "'x method_lib_scheme \<Rightarrow> jsval \<Rightarrow> bytes \<Rightarrow> bool" where
  "signed_by L envelope pk \<longleftrightarrow>
     (\<exists>h sig. js_prop_opt envelope ''sig'' = JStr h \<and> hex_decode L h = Some sig \<and> length sig = 64 \<and>
        schnorr_verify L sig (canon_hash L (js_delete_prop ''sig'' envelope)) (xOnly pk) = Some True)"

definition in_time_or_unchecked :: "http_lib \<Rightarrow> jsval \<Rightarrow> int \<Rightarrow> int \<Rightarrow> bool" where
  "in_time_or_unchecked H envelope skewSec nowMs \<longleftrightarrow>
     (\<exists>n. num_of (format_double H) (js_prop_opt envelope ''timestamp'') = Inr n \<and>
        (n = NaN \<or> (\<exists>t. n = Num t \<and> \<bar>of_int (nowMs div 1000) - t\<bar> \<le> of_int skewSec)))"

lemma verifyEnvelope_Inr:
  assumes "verifyEnvelope L K H envelope pk opts nowMs = Inr ()"
  shows "signed_by L envelope pk"
    "in_time_or_unchecked H envelope (case vo_clockSkewSec opts of None \<Rightarrow> DEFAULT_CLOCK_SKEW_SEC | Some s \<Rightarrow> s) nowMs"
    "js_prop_opt envelope ''v'' = JInt 1"
proof -
  from assms have v: "js_prop_opt envelope ''v'' = JInt 1"
    by (auto simp: verifyEnvelope_def http_error_def HTTP_ENVELOPE_VERSION_def split: if_splits)
  then obtain kvs where kvs: "envelope = JObj kvs" by (cases envelope) (simp_all add: js_prop_opt_def)
  from assms show "signed_by L envelope pk"
    by (auto simp: verifyEnvelope_def http_error_def signed_by_def rbind_Inr_iff publicVerify_def Let_def of_option_Inr_iff
        kvs js_delete_prop_def split: if_splits option.splits jsval.splits)
  from assms show "in_time_or_unchecked H envelope (case vo_clockSkewSec opts of None \<Rightarrow> DEFAULT_CLOCK_SKEW_SEC | Some s \<Rightarrow> s) nowMs"
    by (auto simp: verifyEnvelope_def http_error_def in_time_or_unchecked_def rbind_Inr_iff Let_def time_skew_def not_less
        split: if_splits js_num.splits)
  show "js_prop_opt envelope ''v'' = JInt 1" by (rule v)
qed

lemma integer_in_time:
  assumes "in_time_or_unchecked H envelope skewSec nowMs" "js_prop_opt envelope ''timestamp'' = JInt t"
  shows "\<bar>nowMs div 1000 - t\<bar> \<le> skewSec"
proof -
  have "\<bar>of_int (nowMs div 1000) - of_int t\<bar> \<le> (of_int skewSec :: rat)"
    using assms by (auto simp: in_time_or_unchecked_def num_of_def)
  then show ?thesis by (simp flip: of_int_diff of_int_abs)
qed

text \<open>The check of the time does nothing for an envelope whose timestamp is not a number.\<close>

lemma timestamp_unchecked:
  assumes "js_prop_opt envelope ''timestamp'' = JUndef"
  shows "verifyEnvelope L K H envelope pk opts nowMs = verifyEnvelope L K H envelope pk opts nowMs'"
  using assms by (simp add: verifyEnvelope_def num_of_def time_skew_def)

section \<open>Authorization headers\<close>

text \<open>Parameters that the header can carry: no comma and no white space; hexadecimal text is one.\<close>

definition plain_param :: "string \<Rightarrow> bool" where
  "plain_param x \<longleftrightarrow> x \<noteq> [] \<and> CHR '','' \<notin> set x \<and> list_all (\<lambda>c. \<not> is_js_space c) x"

definition hex_text :: "'x method_lib_scheme \<Rightarrow> bool" where
  "hex_text L \<longleftrightarrow> (\<forall>bs. bs \<noteq> [] \<longrightarrow> plain_param (hex_encode L bs))"

lemma plain_trim: "plain_param x \<Longrightarrow> js_trim x = x"
  by (simp add: plain_param_def js_trim_def dropWhile_all_false)

lemma plain_digits: "plain_param (show_nat n)"
proof -
  have "CHR '','' \<notin> set (show_nat n)" using show_nat_digits [of n] by (auto simp: list_all_iff is_digit_def digit_value_def)
  then show ?thesis using digits_not_space [OF show_nat_digits] show_nat_nonempty by (simp add: plain_param_def)
qed

lemma split_eq_append: "CHR ''='' \<notin> set k \<Longrightarrow> split_eq (k @ CHR ''='' # v) = Some (k, v)"
  by (induction k) auto

lemma auth_params_pieces:
  assumes "plain_param v" "plain_param did" "plain_param ts" "plain_param nonce" "plain_param sig"
  shows "auth_params (''v='' @ v @ '',did='' @ did @ '',ts='' @ ts @ '',nonce='' @ nonce @ '',sig='' @ sig) =
    [(''v'', v), (''did'', did), (''ts'', ts), (''nonce'', nonce), (''sig'', sig)]"
proof -
  have c: "CHR '','' \<notin> set x" if "plain_param x" for x using that by (simp add: plain_param_def)
  have "split_char (CHR '','') (''v='' @ v @ '',did='' @ did @ '',ts='' @ ts @ '',nonce='' @ nonce @ '',sig='' @ sig) =
      [''v='' @ v, ''did='' @ did, ''ts='' @ ts, ''nonce='' @ nonce, ''sig='' @ sig]"
    using split_char_append [of "CHR '',''" "''v='' @ v" "''did='' @ did @ '',ts='' @ ts @ '',nonce='' @ nonce @ '',sig='' @ sig"]
      split_char_append [of "CHR '',''" "''did='' @ did" "''ts='' @ ts @ '',nonce='' @ nonce @ '',sig='' @ sig"]
      split_char_append [of "CHR '',''" "''ts='' @ ts" "''nonce='' @ nonce @ '',sig='' @ sig"]
      split_char_append [of "CHR '',''" "''nonce='' @ nonce" "''sig='' @ sig"]
      split_char_no_sep [of "CHR '',''" "''sig='' @ sig"] c [OF assms(1)] c [OF assms(2)] c [OF assms(3)] c [OF assms(4)] c [OF assms(5)]
    by simp
  moreover have "js_trim ''v'' = ''v''" "js_trim ''did'' = ''did''" "js_trim ''ts'' = ''ts''" "js_trim ''nonce'' = ''nonce''" "js_trim ''sig'' = ''sig''"
    by code_simp+
  ultimately show ?thesis
    using split_eq_append [of "''v''" v] split_eq_append [of "''did''" did] split_eq_append [of "''ts''" ts]
      split_eq_append [of "''nonce''" nonce] split_eq_append [of "''sig''" sig] plain_trim [OF assms(1)] plain_trim [OF assms(2)]
      plain_trim [OF assms(3)] plain_trim [OF assms(4)] plain_trim [OF assms(5)]
    by (simp add: auth_params_def)
qed

lemma integer_show_nat: "integer_param (Some (show_nat n)) = Some (int n)"
  by (simp add: integer_param_def num_of_string_def)

lemma parse_built:
  assumes "plain_param did" "plain_param nonce" "plain_param sig"
  shows "parseRequestAuth (REQUEST_AUTH_SCHEME @ '' v='' @ show_nat v @ '',did='' @ did @ '',ts='' @ show_nat ts @ '',nonce='' @ nonce @ '',sig='' @ sig) =
    Inr \<lparr>pa_v = int v, pa_did = did, pa_ts = int ts, pa_nonce = nonce, pa_sig = sig\<rparr>"
proof -
  let ?rest = "''v='' @ show_nat v @ '',did='' @ did @ '',ts='' @ show_nat ts @ '',nonce='' @ nonce @ '',sig='' @ sig"
  have header: "REQUEST_AUTH_SCHEME @ '' v='' @ show_nat v @ '',did='' @ did @ '',ts='' @ show_nat ts @ '',nonce='' @ nonce @ '',sig='' @ sig =
      (REQUEST_AUTH_SCHEME @ '' '') @ ?rest" by simp
  have "drop (length (REQUEST_AUTH_SCHEME @ '' '')) ((REQUEST_AUTH_SCHEME @ '' '') @ ?rest) = ?rest" by (rule append_eq_conv_conj [THEN iffD1, THEN conjunct2, symmetric]) simp
  then show ?thesis
    using assms plain_digits
    unfolding header parseRequestAuth_def Let_def
    by (simp only: starts_with_append auth_params_pieces) (simp add: integer_show_nat plain_param_def)
qed

lemma auth_verifies:
  assumes "curve_ok L K" "sha256_ok L" "codecs_ok L" "hex_text L" "sig64 K" "keys_of L K keys" "length aux = 32"
    "plain_param did" "plain_param nonce" "0 \<le> ts" "\<bar>nowMs div 1000 - ts\<bar> \<le> (case skew of None \<Rightarrow> DEFAULT_CLOCK_SKEW_SEC | Some s \<Rightarrow> s)"
  obtains header sig where "header \<noteq> []" "buildRequestAuth L K aux did keys path ts nonce = Inr header"
    "verifyRequestAuth L K header path (kp_publicKey keys) skew nowMs = Inr \<lparr>pa_v = 1, pa_did = did, pa_ts = ts, pa_nonce = nonce, pa_sig = sig\<rparr>"
proof -
  let ?digest = "canon_hash L (auth_object HTTP_ENVELOPE_VERSION did ts nonce path)"
  obtain sk s where s: "pairSecretKey K keys = Inr sk" "secretSign K aux sk ?digest (Some Schnorr) = Inr s" "length s = 64"
    "publicVerify L K (kp_publicKey keys) s ?digest (Some Schnorr) = Inr True"
    using pair_signs [OF assms(1,6,5,7)] length_canon_hash [OF assms(2)] by metis
  have "plain_param (hex_encode L s)" using assms(4) s(3) unfolding hex_text_def by (metis list.size(3) zero_neq_numeral)
  note parsed = parse_built [OF assms(8,9) this, of 1 "nat ts"]
  let ?header = "REQUEST_AUTH_SCHEME @ '' v='' @ show_nat 1 @ '',did='' @ did @ '',ts='' @ show_nat (nat ts) @ '',nonce='' @ nonce @ '',sig='' @ hex_encode L s"
  have object: "canonicalHashBytes L (auth_object v did ts nonce path) = Inr (canon_hash L (auth_object v did ts nonce path))" for v
    by (simp add: auth_object_def)
  have "buildRequestAuth L K aux did keys path ts nonce = Inr ?header"
    using s(1,2) assms(10) by (simp add: buildRequestAuth_def object HTTP_ENVELOPE_VERSION_def show_int_def)
  moreover have "verifyRequestAuth L K ?header path (kp_publicKey keys) skew nowMs =
      Inr \<lparr>pa_v = 1, pa_did = did, pa_ts = ts, pa_nonce = nonce, pa_sig = hex_encode L s\<rparr>"
    unfolding verifyRequestAuth_def parsed
    using assms(3,10,11) s(3,4) by (simp add: HTTP_ENVELOPE_VERSION_def codecs_simps object)
  ultimately show ?thesis by (intro that [of ?header]) simp_all
qed

text \<open>The header that a participant builds to subscribe is parsed back to what went into it and verifies
  under its key, for the path it was made for and within the clock skew.\<close>

theorem request_auth_roundtrip:
  assumes "curve_ok L K" "sha256_ok L" "codecs_ok L" "hex_text L" "sig64 K" "keys_of L K keys" "length aux = 32"
    "plain_param did" "plain_param nonce" "0 \<le> ts" "\<bar>nowMs div 1000 - ts\<bar> \<le> 60"
  shows "\<exists>header parsed. buildRequestAuth L K aux did keys path ts nonce = Inr header \<and>
    verifyRequestAuth L K header path (kp_publicKey keys) None nowMs = Inr parsed \<and>
    pa_did parsed = did \<and> pa_ts parsed = ts \<and> pa_nonce parsed = nonce"
proof -
  have "\<bar>nowMs div 1000 - ts\<bar> \<le> (case None of None \<Rightarrow> DEFAULT_CLOCK_SKEW_SEC | Some s \<Rightarrow> s)"
    using assms(11) by (simp add: DEFAULT_CLOCK_SKEW_SEC_def)
  from auth_verifies [OF assms(1-10) this, where path = path] show ?thesis by force
qed

section \<open>Requests\<close>

lemma passNonce_facts:
  assumes "passNonce did nonce s = (s', ok)"
  shows "hs_peers s' = hs_peers s" "hs_actors s' = hs_actors s" "hs_resolveSenderPk s' = hs_resolveSenderPk s"
    "hs_nonceCache s' = fst (nonceStore did nonce 0 (hs_nonceCache s))" "ok = snd (nonceStore did nonce 0 (hs_nonceCache s))"
    "hs_inboxes s' = hs_inboxes s"
  using assms by (auto simp: passNonce_def split: prod.splits)

lemma passRate_facts:
  assumes "passRate did now s = (s', ok)"
  shows "hs_peers s' = hs_peers s" "hs_actors s' = hs_actors s" "hs_resolveSenderPk s' = hs_resolveSenderPk s"
    "hs_nonceCache s' = hs_nonceCache s" "hs_inboxes s' = hs_inboxes s"
  using assms by (auto simp: passRate_def split: prod.splits)

text \<open>A request that passes the gates has a fresh nonce; the rest of its handling starts from the same
  actors, peers and resolver. Otherwise it changes none of them and has no effect.\<close>

lemma gates:
  assumes "passGates H now envelope from' req cont s = (s', effs, r)"
  obtains (refused) "effs = []" "hs_peers s' = hs_peers s"
  | (passed) nonce s1 where "string_of (format_double H) (js_prop_opt envelope ''nonce'') = Inr nonce"
      "snd (nonceStore from' nonce 0 (hs_nonceCache s))" "cont s1 = (s', effs, r)"
      "hs_peers s1 = hs_peers s" "hs_actors s1 = hs_actors s" "hs_resolveSenderPk s1 = hs_resolveSenderPk s"
      "hs_nonceCache s1 = fst (nonceStore from' nonce 0 (hs_nonceCache s))"
proof (cases "string_of (format_double H) (js_prop_opt envelope ''nonce'')")
  case (Inl e)
  then show ?thesis using assms refused by (simp add: passGates_def)
next
  case (Inr nonce)
  obtain s1 ok where n: "passNonce from' nonce s = (s1, ok)" by force
  obtain s2 ok2 where r: "passRate from' now s1 = (s2, ok2)" by force
  show ?thesis
  proof (cases "ok \<and> ok2")
    case True
    have c: "cont s2 = (s', effs, r)" using assms Inr n r True by (simp add: passGates_def)
    show ?thesis using passed [OF Inr _ c] True passNonce_facts [OF n] passRate_facts [OF r] by simp
  next
    case False
    then have "effs = []" "s' = s1 \<or> s' = s2"
      using assms Inr n r by (auto simp: passGates_def answer_error_def split: bool.splits)
    then show ?thesis using refused passNonce_facts [OF n] passRate_facts [OF r] by auto
  qed
qed

lemma deliver_dispatch:
  assumes "deliver L H envelope from' bp req s = (s', effs, r)" "Dispatch d ty h flat \<in> set effs"
  obtains actor m where "js_prop_opt envelope ''to'' = JStr d" "jm_get (hs_actors s) d = Some actor"
    "jm_get (ac_handlers actor) ty = Some h" "js_prop_opt flat ''from'' = JStr from'" "js_prop_opt flat ''type'' = JStr ty"
    "reviveFromWire L (js_prop_opt envelope ''message'') = Inr m" "flattenMessage m = Inr flat"
  using assms
  by (auto simp: deliver_def answer_error_def Let_def rbind_Inr_iff split: if_splits option.splits jsval.splits sum.splits prod.splits)

lemma deliver_peers:
  assumes "deliver L H envelope from' bp req s = (s', effs, r)" "hs_peers s' \<noteq> hs_peers s"
  obtains pk d actor m flat where "bp = Some pk" "hs_peers s' = jm_set from' pk (hs_peers s)"
    "js_prop_opt envelope ''to'' = JStr d" "jm_get (hs_actors s) d = Some actor"
    "reviveFromWire L (js_prop_opt envelope ''message'') = Inr m" "flattenMessage m = Inr flat" "js_prop_opt flat ''from'' = JStr from'"
  using assms
  by (auto simp: deliver_def answer_error_def Let_def registerPeer_def rbind_Inr_iff split: if_splits option.splits jsval.splits sum.splits prod.splits)

lemma bootstrap_Some:
  assumes "bootstrapSenderPk L K H dateNow s envelope = Inr (Some pk)"
  obtains f from' genesis m flat where "hs_resolveSenderPk s = Some f" "js_prop_opt envelope ''from'' = JStr from'" "f from' (Some genesis) = Some pk"
    "reviveFromWire L (js_prop_opt envelope ''message'') = Inr m" "flattenMessage m = Inr flat" "js_prop_opt flat ''type'' = JStr COHORT_OPT_IN"
    "js_prop_opt flat ''genesisDocument'' = genesis" "js_prop_opt flat ''communicationPk'' = JBytes pk"
    "server_verify L K H s envelope pk dateNow = Inr ()"
  using assms
  by (auto simp: bootstrapSenderPk_def rbind_Inr_iff Let_def split: if_splits option.splits jsval.splits sum.splits)

text \<open>The key that authenticates a sender: that of the registered peer, that of the injected resolver, or,
  for an opt-in of a sender without either, that of the genesis document in the message, which
  the message must name as its communication key.\<close>

definition sender_key :: "'h HttpServerTransport \<Rightarrow> string \<Rightarrow> jsval \<Rightarrow> bytes \<Rightarrow> bool" where
  "sender_key s from' flat pk \<longleftrightarrow>
     jm_get (hs_peers s) from' = Some pk \<or>
     (\<exists>f. hs_resolveSenderPk s = Some f \<and>
        (f from' None = Some pk \<or>
         (f from' (Some (js_prop_opt flat ''genesisDocument'')) = Some pk \<and> js_prop_opt flat ''type'' = JStr COHORT_OPT_IN \<and>
          js_prop_opt flat ''communicationPk'' = JBytes pk)))"

lemma peer_lookup: "Option.bind m (\<lambda>p. case newPublicKey L p of Inr pk \<Rightarrow> Some pk | Inl _ \<Rightarrow> None) = Some pk \<Longrightarrow> m = Some pk"
proof (cases m)
  case (Some y)
  then show "Option.bind m (\<lambda>p. case newPublicKey L p of Inr pk \<Rightarrow> Some pk | Inl _ \<Rightarrow> None) = Some pk \<Longrightarrow> ?thesis"
    by (cases "newPublicKey L y") (auto dest: newPublicKey_valid)
qed simp

lemma resolveSenderPk_key:
  assumes "resolveSenderPk L s from' None = Some pk"
  obtains d where "from' = JStr d" "sender_key s d flat pk"
proof (cases from')
  case (JStr d)
  show ?thesis
  proof (rule that [OF JStr])
    show "sender_key s d flat pk"
    proof (cases "Option.bind (jm_get (hs_peers s) d) (\<lambda>p. case newPublicKey L p of Inr pk \<Rightarrow> Some pk | Inl _ \<Rightarrow> None)")
      case None
      then show ?thesis using assms by (auto simp: resolveSenderPk_def sender_key_def JStr bind_eq_Some_conv)
    next
      case (Some k)
      then show ?thesis using assms peer_lookup [OF Some] by (simp add: resolveSenderPk_def sender_key_def JStr)
    qed
  qed
qed (use assms in \<open>simp_all add: resolveSenderPk_def\<close>)

text \<open>A posted message whose sender is authenticated, up to the gates.\<close>

lemma posted:
  assumes "handleMessagesPost L K H dateNow now req s = (s', effs, r)"
  obtains (refused) "effs = []" "s' = s"
  | (authenticated) envelope d pk bp where "parseJsonBody L (rq_body req) = Some envelope" "js_prop_opt envelope ''from'' = JStr d"
      "\<And>m flat. reviveFromWire L (js_prop_opt envelope ''message'') = Inr m \<Longrightarrow> flattenMessage m = Inr flat \<Longrightarrow> sender_key s d flat pk"
      "signed_by L envelope pk" "in_time_or_unchecked H envelope (hs_clockSkewSec s) dateNow"
      "bp = None \<or> bp = Some pk \<and> resolveSenderPk L s (JStr d) None = None \<and> bootstrapSenderPk L K H dateNow s envelope = Inr (Some pk)"
      "passGates H now envelope d req (deliver L H envelope d bp req) s = (s', effs, r)"
proof (cases "enforceBodySize s req \<or> parseJsonBody L (rq_body req) = None")
  case True
  then have "effs = [] \<and> s' = s"
    using assms by (cases "enforceBodySize s req") (simp_all add: handleMessagesPost_def answer_error_def)
  then show ?thesis using refused by blast
next
  case False
  then obtain envelope where env: "parseJsonBody L (rq_body req) = Some envelope" by blast
  let ?from = "js_prop_opt envelope ''from''"
  show ?thesis
  proof (cases "resolveSenderPk L s ?from None")
    case (Some pk)
    obtain d where d: "?from = JStr d" using resolveSenderPk_key [OF Some] by blast
    have key: "sender_key s d flat pk" for flat
      using resolveSenderPk_key [OF Some, where flat = flat] d by fastforce
    show ?thesis
    proof (cases "server_verify L K H s envelope pk dateNow")
      case (Inl e)
      then show ?thesis using assms False env Some refused by (simp add: handleMessagesPost_def answer_error_def)
    next
      case (Inr u)
      then have v: "verifyEnvelope L K H envelope pk
          \<lparr>vo_expectedFrom = None, vo_expectedTo = None, vo_clockSkewSec = Some (hs_clockSkewSec s)\<rparr> dateNow = Inr ()"
        by (simp add: server_verify_def)
      show ?thesis
      proof (rule authenticated [OF env d])
        show "passGates H now envelope d req (deliver L H envelope d None req) s = (s', effs, r)"
          using assms False env Some Inr d by (simp add: handleMessagesPost_def)
      qed (use verifyEnvelope_Inr [OF v] key in simp_all)
    qed
  next
    case None
    show ?thesis
    proof (cases "bootstrapSenderPk L K H dateNow s envelope")
      case (Inl e)
      then show ?thesis using assms False env None refused by (simp add: handleMessagesPost_def)
    next
      case (Inr b)
      show ?thesis
      proof (cases b)
        case None
        then show ?thesis
          using assms False env Inr \<open>resolveSenderPk L s ?from None = None\<close> refused by (simp add: handleMessagesPost_def answer_error_def)
      next
        case (Some pk)
        note boot = Inr [unfolded Some]
        from boot obtain f d genesis m flat where b: "hs_resolveSenderPk s = Some f" "?from = JStr d" "f d (Some genesis) = Some pk"
          "reviveFromWire L (js_prop_opt envelope ''message'') = Inr m" "flattenMessage m = Inr flat" "js_prop_opt flat ''type'' = JStr COHORT_OPT_IN"
          "js_prop_opt flat ''genesisDocument'' = genesis" "js_prop_opt flat ''communicationPk'' = JBytes pk"
          "server_verify L K H s envelope pk dateNow = Inr ()"
          by (rule bootstrap_Some)
        note v = b(9) [unfolded server_verify_def]
        show ?thesis
        proof (rule authenticated [OF env b(2), of pk "Some pk"])
          show "passGates H now envelope d req (deliver L H envelope d (Some pk) req) s = (s', effs, r)"
            using assms False env None boot b(2) \<open>resolveSenderPk L s ?from None = None\<close> by (simp add: handleMessagesPost_def)
          show "signed_by L envelope pk" by (rule verifyEnvelope_Inr(1) [OF v])
          show "in_time_or_unchecked H envelope (hs_clockSkewSec s) dateNow" using verifyEnvelope_Inr(2) [OF v] by simp
          show "Some pk = None \<or> Some pk = Some pk \<and> resolveSenderPk L s (JStr d) None = None \<and>
              bootstrapSenderPk L K H dateNow s envelope = Inr (Some pk)"
            using boot \<open>resolveSenderPk L s ?from None = None\<close> b(2) by simp
          fix m' flat' assume "reviveFromWire L (js_prop_opt envelope ''message'') = Inr m'" "flattenMessage m' = Inr flat'"
          then have "flat' = flat" using b(4,5) by simp
          then show "sender_key s d flat' pk" using b(1,3,6,7,8) unfolding sender_key_def by blast
        qed
      qed
    qed
  qed
qed

lemma adverts_frame:
  assumes "handleAdvertsPost L K H dateNow now req s = (s', effs, r)"
  shows "hs_peers s' = hs_peers s" "Dispatch d ty h flat \<notin> set effs"
proof -
  have "hs_peers s' = hs_peers s \<and> Dispatch d ty h flat \<notin> set effs"
    if "passGates H now envelope from' req (publishAdvert H now envelope from' req) s = (s', effs, r)" for envelope from'
    using that by (rule gates) (auto simp: publishAdvert_def answer_error_def Let_def split: if_splits)
  then show "hs_peers s' = hs_peers s" "Dispatch d ty h flat \<notin> set effs"
    using assms by (auto simp: handleAdvertsPost_def answer_error_def Let_def split: if_splits option.splits sum.splits)
qed

lemma request_posted:
  assumes "handleRequest L K H dateNow now req s = (s', effs, r)" "effs \<noteq> [] \<or> hs_peers s' \<noteq> hs_peers s"
  shows "handleMessagesPost L K H dateNow now req s = (s', effs, r) \<or> handleAdvertsPost L K H dateNow now req s = (s', effs, r)"
  using assms by (auto simp: handleRequest_def answer_error_def Let_def split: sum.splits if_splits)

lemma request_messages:
  assumes "handleRequest L K H dateNow now req s = (s', effs, r)" "Dispatch d ty h flat \<in> set effs \<or> hs_peers s' \<noteq> hs_peers s"
  shows "handleMessagesPost L K H dateNow now req s = (s', effs, r)"
proof (rule ccontr)
  assume "\<not> ?thesis"
  moreover have "effs \<noteq> [] \<or> hs_peers s' \<noteq> hs_peers s" using assms(2) by auto
  ultimately have "handleAdvertsPost L K H dateNow now req s = (s', effs, r)" using request_posted [OF assms(1)] by simp
  from adverts_frame(1) [OF this] adverts_frame(2) [OF this, of d ty h flat] assms(2) show False by simp
qed

text \<open>C15: A handler of the server is called only with an authentic message: the envelope of the request
  carries a signature of everything in it by a key of its sender, its nonce is not in the cache, and
  the message that the handler gets names the sender of the envelope as its own and is for an actor
  and a type with this handler. A timestamp that is an integer is within the clock skew; one that is not
  a number is not checked (\<open>timestamp_unchecked\<close>), so such an envelope is not bound to any time.\<close>

theorem dispatched_is_authentic:
  assumes "handleRequest L K H dateNow now req s = (s', effs, r)" "Dispatch recipient ty h flat \<in> set effs"
  shows "\<exists>envelope sender pk nonce message actor. parseJsonBody L (rq_body req) = Some envelope \<and>
    js_prop_opt envelope ''from'' = JStr sender \<and> js_prop_opt envelope ''to'' = JStr recipient \<and>
    sender_key s sender flat pk \<and> signed_by L envelope pk \<and> in_time_or_unchecked H envelope (hs_clockSkewSec s) dateNow \<and>
    (\<forall>t. js_prop_opt envelope ''timestamp'' = JInt t \<longrightarrow> \<bar>dateNow div 1000 - t\<bar> \<le> hs_clockSkewSec s) \<and>
    string_of (format_double H) (js_prop_opt envelope ''nonce'') = Inr nonce \<and>
    snd (nonceStore sender nonce 0 (hs_nonceCache s)) \<and>
    reviveFromWire L (js_prop_opt envelope ''message'') = Inr message \<and> flattenMessage message = Inr flat \<and>
    js_prop_opt flat ''from'' = JStr sender \<and> js_prop_opt flat ''type'' = JStr ty \<and>
    jm_get (hs_actors s) recipient = Some actor \<and> jm_get (ac_handlers actor) ty = Some h"
proof -
  have "handleMessagesPost L K H dateNow now req s = (s', effs, r)" using request_messages [OF assms(1)] assms(2) by blast
  then show ?thesis
  proof (cases rule: posted)
    case refused
    with assms(2) show ?thesis by simp
  next
    case (authenticated envelope sender pk bp)
    from authenticated(7) show ?thesis
    proof (cases rule: gates)
      case refused
      with assms(2) show ?thesis by simp
    next
      case (passed nonce s1)
      from deliver_dispatch [OF passed(3) assms(2)] obtain actor m where
        "js_prop_opt envelope ''to'' = JStr recipient" "jm_get (hs_actors s1) recipient = Some actor"
        "jm_get (ac_handlers actor) ty = Some h" "js_prop_opt flat ''from'' = JStr sender" "js_prop_opt flat ''type'' = JStr ty"
        "reviveFromWire L (js_prop_opt envelope ''message'') = Inr m" "flattenMessage m = Inr flat" by metis
      then show ?thesis
        using authenticated(1-5) passed(1,2,5) integer_in_time [of H envelope "hs_clockSkewSec s" dateNow] by auto
    qed
  qed
qed

text \<open>C24: A request changes the keys of the peers in one way only: it adds the key of a sender that had
  none, derived by the resolver from the genesis document in an opt-in that the key signed, names as
  its communication key, and that is for an actor of the server.\<close>

theorem peers_change_validated:
  assumes "handleRequest L K H dateNow now req s = (s', effs, r)" "hs_peers s' \<noteq> hs_peers s"
  shows "\<exists>envelope sender pk f message flat recipient. parseJsonBody L (rq_body req) = Some envelope \<and>
    js_prop_opt envelope ''from'' = JStr sender \<and> hs_peers s' = jm_set sender pk (hs_peers s) \<and>
    resolveSenderPk L s (JStr sender) None = None \<and> hs_resolveSenderPk s = Some f \<and>
    reviveFromWire L (js_prop_opt envelope ''message'') = Inr message \<and> flattenMessage message = Inr flat \<and>
    f sender (Some (js_prop_opt flat ''genesisDocument'')) = Some pk \<and>
    js_prop_opt flat ''communicationPk'' = JBytes pk \<and> js_prop_opt flat ''type'' = JStr COHORT_OPT_IN \<and>
    js_prop_opt flat ''from'' = JStr sender \<and> signed_by L envelope pk \<and>
    js_prop_opt envelope ''to'' = JStr recipient \<and> jm_has (hs_actors s) recipient"
proof -
  have "handleMessagesPost L K H dateNow now req s = (s', effs, r)"
    using request_messages [OF assms(1)] assms(2) by blast
  then show ?thesis
  proof (cases rule: posted)
    case refused
    with assms(2) show ?thesis by simp
  next
    case (authenticated envelope sender pk bp)
    from authenticated(7) show ?thesis
    proof (cases rule: gates)
      case refused
      with assms(2) show ?thesis by simp
    next
      case (passed nonce s1)
      have "hs_peers s' \<noteq> hs_peers s1" using assms(2) passed(4) by simp
      with passed(3) show ?thesis
      proof (cases rule: deliver_peers)
        case (1 pk' d actor m flat)
        with authenticated(6) have boot: "bootstrapSenderPk L K H dateNow s envelope = Inr (Some pk)"
          and none: "resolveSenderPk L s (JStr sender) None = None" and bp: "pk' = pk" by simp_all
        from boot show ?thesis
        proof (cases rule: bootstrap_Some)
          case (1 f sender' genesis m' flat')
          have same: "sender' = sender" "flat' = flat" using 1 \<open>reviveFromWire L _ = Inr m\<close> \<open>flattenMessage m = Inr flat\<close> authenticated(2) by simp_all
          have actor: "jm_has (hs_actors s) d" using \<open>jm_get (hs_actors s1) d = Some actor\<close> passed(5) by (simp add: jm_has_def)
          have peers: "hs_peers s' = jm_set sender pk (hs_peers s)" using \<open>hs_peers s' = _\<close> bp passed(4) by simp
          show ?thesis
            using authenticated(1,2,4) none 1 actor peers \<open>js_prop_opt envelope ''to'' = JStr d\<close> \<open>js_prop_opt flat ''from'' = JStr sender\<close>
            unfolding same by blast
        qed
      qed
    qed
  qed
qed

section \<open>Replay\<close>

datatype 'h server_call =
    Request int int HttpRequestLike
  | Subscribe int HttpRequestLike nat
  | Disconnect nat
  | Send bytes int string jsval string "string option"
  | Publish bytes int string int jsval string
  | StopAdvert string
  | RegisterActor string SchnorrKeyPair
  | UnregisterActor string
  | RegisterPeer string bytes
  | RegisterHandler string string 'h
  | UnregisterHandler string string
  | StopServer

definition serverCall :: "'x method_lib_scheme \<Rightarrow> curve_lib \<Rightarrow> http_lib \<Rightarrow> 'h server_call \<Rightarrow> 'h HttpServerTransport \<Rightarrow> 'h HttpServerTransport" where
  "serverCall L K H c s = (case c of
      Request dateNow now req \<Rightarrow> fst (handleRequest L K H dateNow now req s)
    | Subscribe now req stream \<Rightarrow> fst (handleSse L K H now req stream s)
    | Disconnect stream \<Rightarrow> fst (streamClosed stream s)
    | Send aux t n message sender recipient \<Rightarrow> fst (sendMessage L K H aux t n message sender recipient s)
    | Publish aux t n now message sender \<Rightarrow> fst (publishRepeating L K H aux t n now message sender s)
    | StopAdvert i \<Rightarrow> stopAdvert i s
    | RegisterActor did keys \<Rightarrow> registerActor did keys s
    | UnregisterActor did \<Rightarrow> unregisterActor did s
    | RegisterPeer did pk \<Rightarrow> fst (registerPeer L did pk s)
    | RegisterHandler did ty h \<Rightarrow> fst (registerMessageHandler did ty h s)
    | UnregisterHandler did ty \<Rightarrow> unregisterMessageHandler did ty s
    | StopServer \<Rightarrow> fst (stopServer s))"

definition serverCalls where "serverCalls L K H cs s = fold (serverCall L K H) cs s"

text \<open>A call stores at most one nonce.\<close>

definition one_nonce :: "NonceCache \<Rightarrow> NonceCache \<Rightarrow> bool" where
  "one_nonce nc nc' \<longleftrightarrow> nc' = nc \<or> (\<exists>did nonce. nc' = fst (nonceStore did nonce 0 nc))"

lemma deliver_cache: "hs_nonceCache (fst (deliver L H envelope from' bp req s)) = hs_nonceCache s"
  by (simp add: deliver_def answer_error_def Let_def registerPeer_def split: option.split sum.split jsval.split)

lemma publish_cache: "hs_nonceCache (fst (publishAdvert H now envelope from' req s)) = hs_nonceCache s"
  by (simp add: publishAdvert_def answer_error_def Let_def)

lemma gates_cache:
  assumes "\<And>s. hs_nonceCache (fst (cont s)) = hs_nonceCache s"
  shows "one_nonce (hs_nonceCache s) (hs_nonceCache (fst (passGates H now envelope from' req cont s)))"
proof (cases "string_of (format_double H) (js_prop_opt envelope ''nonce'')")
  case (Inl e)
  then show ?thesis by (simp add: passGates_def one_nonce_def)
next
  case (Inr nonce)
  obtain s1 ok where n: "passNonce from' nonce s = (s1, ok)" by force
  obtain s2 ok2 where r: "passRate from' now s1 = (s2, ok2)" by force
  have "hs_nonceCache (fst (passGates H now envelope from' req cont s)) = fst (nonceStore from' nonce 0 (hs_nonceCache s))"
    using Inr n r passNonce_facts [OF n] passRate_facts [OF r] assms
    by (cases ok; cases ok2) (simp_all add: passGates_def answer_error_def)
  then show ?thesis unfolding one_nonce_def by blast
qed

lemma sse_cache: "one_nonce (hs_nonceCache s) (hs_nonceCache (fst (openInboxSubscription L K now req stream did path s)))"
proof -
  have "one_nonce (hs_nonceCache s) (hs_nonceCache (fst
     (case passNonce did nonce s of
                 (s, False) \<Rightarrow> (s, [CloseStream stream], Inr ())
               | (s, True) \<Rightarrow> f s)))" if "\<And>s. hs_nonceCache (fst (f s)) = hs_nonceCache s"
    for nonce and f :: "'a HttpServerTransport \<Rightarrow> 'a HttpServerTransport \<times> 'a http_effect list \<times> unit result"
  proof -
    obtain s1 ok where n: "passNonce did nonce s = (s1, ok)" by force
    show ?thesis using passNonce_facts [OF n] that n by (cases ok) (auto simp: one_nonce_def)
  qed
  moreover have "hs_nonceCache (fst (case passRate did now s of
                      (s, False) \<Rightarrow> (s, [CloseStream stream], Inr ())
                    | (s, True) \<Rightarrow>
                        (case getOrCreateInbox did s of
                           Inl e \<Rightarrow> (s, [], Inl e)
                         | Inr inbox \<Rightarrow>
                             (s\<lparr>hs_inboxes := jm_set did (inbox\<lparr>in_subscribers := js_add stream (in_subscribers inbox)\<rparr>) (hs_inboxes s)\<rparr>,
                              map (\<lambda>e. WriteEvent stream (se_event e) (se_data e) (se_id e))
                                (inboxSince (jm_get (rq_headers req) ''last-event-id'') (in_buffer inbox)) @ heartbeat s stream,
                              Inr ())))) = hs_nonceCache s" for s :: "'a HttpServerTransport"
  proof -
    obtain s1 ok where n: "passRate did now s = (s1, ok)" by force
    show ?thesis using passRate_facts [OF n] n by (cases ok) (auto split: sum.split)
  qed
  ultimately show ?thesis
    by (auto simp: openInboxSubscription_def Let_def one_nonce_def split: option.split sum.split)
qed

lemma call_cache: "one_nonce (hs_nonceCache s) (hs_nonceCache (serverCall L K H c s))"
proof -
  have post1: "one_nonce (hs_nonceCache s) (hs_nonceCache (fst (passGates H now envelope from' req (deliver L H envelope from' bp req) s)))"
    for now envelope from' req bp by (rule gates_cache) (rule deliver_cache)
  have post2: "one_nonce (hs_nonceCache s) (hs_nonceCache (fst (passGates H now envelope from' req (publishAdvert H now envelope from' req) s)))"
    for now envelope from' req by (rule gates_cache) (rule publish_cache)
  have same: "one_nonce x x" for x by (simp add: one_nonce_def)
  have m: "one_nonce (hs_nonceCache s) (hs_nonceCache (fst (handleMessagesPost L K H dateNow now req s)))" for dateNow now req
    by (simp add: handleMessagesPost_def answer_error_def Let_def post1 same split: option.split sum.split)
  have a: "one_nonce (hs_nonceCache s) (hs_nonceCache (fst (handleAdvertsPost L K H dateNow now req s)))" for dateNow now req
    by (simp add: handleAdvertsPost_def answer_error_def Let_def post2 same split: option.split sum.split)
  show ?thesis
  proof (cases c)
    case (Request dateNow now req)
    then show ?thesis
      using m a same by (auto simp: serverCall_def handleRequest_def answer_error_def Let_def split: sum.split)
  next
    case (Subscribe now req stream)
    then show ?thesis
      using sse_cache same
      by (auto simp: serverCall_def handleSse_def openBroadcastSubscription_def Let_def split: sum.split option.split)
  qed (auto simp: serverCall_def same streamClosed_def sendMessage_def publishRepeating_def stopAdvert_def registerActor_def
      unregisterActor_def registerPeer_def registerMessageHandler_def unregisterMessageHandler_def stopServer_def Let_def
      split: option.split sum.split prod.split)
qed

lemma calls_cache:
  "\<exists>reqs. length reqs \<le> length cs \<and> hs_nonceCache (serverCalls L K H cs s) = fst (nonceStores reqs (hs_nonceCache s))"
proof (induction cs arbitrary: s)
  case Nil
  show ?case by (intro exI [of _ "[]"]) (simp add: serverCalls_def)
next
  case (Cons c cs)
  obtain reqs where reqs: "length reqs \<le> length cs"
    "hs_nonceCache (serverCalls L K H cs (serverCall L K H c s)) = fst (nonceStores reqs (hs_nonceCache (serverCall L K H c s)))"
    using Cons by blast
  have calls: "serverCalls L K H (c # cs) s = serverCalls L K H cs (serverCall L K H c s)" by (simp add: serverCalls_def)
  from call_cache [of s L K H c] show ?case
    unfolding one_nonce_def
  proof (elim disjE exE)
    assume "hs_nonceCache (serverCall L K H c s) = hs_nonceCache s"
    then show ?thesis using reqs calls by (intro exI [of _ reqs]) simp
  next
    fix did nonce assume "hs_nonceCache (serverCall L K H c s) = fst (nonceStore did nonce 0 (hs_nonceCache s))"
    then show ?thesis using reqs calls by (intro exI [of _ "(did, nonce, 0) # reqs"]) (simp add: nonceStores_Cons)
  qed
qed

lemma length_nonceStores: "length (snd (nonceStores reqs nc)) = length reqs"
proof (induction reqs arbitrary: nc)
  case (Cons r reqs)
  then show ?case by (cases r) (simp add: nonceStores_Cons)
qed simp

lemma dispatch_gates:
  assumes "handleRequest L K H dateNow now req s = (s', effs, r)" "Dispatch d ty h flat \<in> set effs"
  obtains envelope sender nonce where "parseJsonBody L (rq_body req) = Some envelope" "js_prop_opt envelope ''from'' = JStr sender"
    "string_of (format_double H) (js_prop_opt envelope ''nonce'') = Inr nonce" "snd (nonceStore sender nonce 0 (hs_nonceCache s))"
    "hs_nonceCache s' = fst (nonceStore sender nonce 0 (hs_nonceCache s))"
proof -
  have "handleMessagesPost L K H dateNow now req s = (s', effs, r)" using request_messages [OF assms(1)] assms(2) by blast
  then show ?thesis
  proof (cases rule: posted)
    case refused
    with assms(2) show ?thesis by simp
  next
    case (authenticated envelope sender pk bp)
    from authenticated(7) show ?thesis
    proof (cases rule: gates)
      case refused
      with assms(2) show ?thesis by simp
    next
      case (passed nonce s1)
      have "hs_nonceCache s' = hs_nonceCache s1" using deliver_cache [of L H envelope sender bp req s1] passed(3) by simp
      then show ?thesis using that authenticated(1,2) passed by simp
    qed
  qed
qed

text \<open>C16: A message is delivered at most once: after a handler was called for an envelope, no request with
  an envelope of the same sender and nonce leads to a call again, however it is written, whatever else
  it holds and at whatever time, as long as fewer calls of the transport than the capacity of the nonce
  cache lie in between.\<close>

theorem dispatched_once:
  assumes "hc_nonceCache config = Some (newNonceCache (Some n))" "0 < n"
    "s = serverCalls L K H before (newHttpServer config)"
    "handleRequest L K H dateNow now req s = (s1, effs, r)" "Dispatch recipient ty h flat \<in> set effs"
    "int (length between) < n"
    "parseJsonBody L (rq_body req) = Some envelope" "parseJsonBody L (rq_body req') = Some envelope'"
    "js_prop_opt envelope' ''from'' = js_prop_opt envelope ''from''"
    "string_of (format_double H) (js_prop_opt envelope' ''nonce'') = string_of (format_double H) (js_prop_opt envelope ''nonce'')"
    "handleRequest L K H dateNow' now' req' (serverCalls L K H between s1) = (s2, effs', r')"
  shows "Dispatch recipient' ty' h' flat' \<notin> set effs'"
proof
  assume "Dispatch recipient' ty' h' flat' \<in> set effs'"
  from dispatch_gates [OF assms(11) this] obtain sender nonce where again:
    "js_prop_opt envelope ''from'' = JStr sender" "string_of (format_double H) (js_prop_opt envelope ''nonce'') = Inr nonce"
    "snd (nonceStore sender nonce 0 (hs_nonceCache (serverCalls L K H between s1)))"
    unfolding assms(8) by (metis assms(9,10) option.inject)
  have first: "snd (nonceStore sender nonce 0 (hs_nonceCache s)) \<and> hs_nonceCache s1 = fst (nonceStore sender nonce 0 (hs_nonceCache s))"
    using assms(4,5)
  proof (cases rule: dispatch_gates)
    case (1 envelope' sender' nonce')
    then show ?thesis using again(1,2) assms(7) by simp
  qed
  have "hs_nonceCache (newHttpServer config) = newNonceCache (Some n)"
    by (simp add: newHttpServer_def or_default_def assms(1))
  then obtain reqs where reqs: "hs_nonceCache s = fst (nonceStores reqs (newNonceCache (Some n)))"
    using calls_cache [of before L K H "newHttpServer config"] unfolding assms(3) by metis
  obtain reqs' where reqs': "length reqs' \<le> length between"
    "hs_nonceCache (serverCalls L K H between s1) = fst (nonceStores reqs' (hs_nonceCache s1))"
    using calls_cache by blast
  obtain nc2 oks where run: "nonceStores reqs' (hs_nonceCache s1) = (nc2, oks)" by force
  have stored: "nonceStore sender nonce 0 (hs_nonceCache s) = (hs_nonceCache s1, True)" using first by (simp add: prod_eq_iff)
  have "length (filter (\<lambda>ok. ok) oks) \<le> length between"
  proof -
    have "length oks = length reqs'" using length_nonceStores [of reqs' "hs_nonceCache s1"] run by simp
    then show ?thesis using length_filter_le [of "\<lambda>ok. ok" oks] reqs'(1) by linarith
  qed
  then have few: "int (length (filter (\<lambda>ok. ok) oks)) < n" using assms(6) by linarith
  have "hs_nonceCache (serverCalls L K H between s1) = nc2" using reqs'(2) run by simp
  with nonce_not_replayed [OF reqs assms(2) stored run few, of 0] again(3) show False by simp
qed

section \<open>Subscriptions\<close>

lemma verifyRequestAuth_Inr:
  assumes "verifyRequestAuth L K header path pk skew nowMs = Inr parsed"
  shows "parseRequestAuth header = Inr parsed"
    "\<bar>nowMs div 1000 - pa_ts parsed\<bar> \<le> (case skew of None \<Rightarrow> DEFAULT_CLOCK_SKEW_SEC | Some s \<Rightarrow> s)"
    "\<exists>sig. hex_decode L (pa_sig parsed) = Some sig \<and>
       schnorr_verify L sig (canon_hash L (auth_object 1 (pa_did parsed) (pa_ts parsed) (pa_nonce parsed) path)) (xOnly pk) = Some True"
  using assms
  by (auto simp: verifyRequestAuth_def http_error_def rbind_Inr_iff HTTP_ENVELOPE_VERSION_def publicVerify_def of_option_Inr_iff
      auth_object_def split: if_splits option.splits)

section \<open>A concrete server\<close>

definition demo_http :: http_lib where
  "demo_http = \<lparr>json_stringify = \<lambda>v. enc_val (jsonRoundTrip v), format_double = \<lambda>w. [], url_pathname = Some, decode_uri_component = Some\<rparr>"

lemma demo_http_ok: "stringify_ok demo_klib demo_http" "sha256_ok demo_klib" "sig64 demo_curve" "b \<in> {5, 9} \<Longrightarrow> keys_of demo_klib demo_curve (demo_pair b)"
proof -
  have "dec_val (length (enc_val v)) (enc_val v) = (v, [])" for v
    using dec_val_enc [OF depth_enc, of v "[]"] by simp
  then show "stringify_ok demo_klib demo_http"
    by (simp add: stringify_ok_def demo_http_def demo_klib_def demo_mlib_def demo_parse_def)
  show "sha256_ok demo_klib" by (auto simp: sha256_ok_def demo_klib_def demo_mlib_def demo_hash_def min_def)
  show "b \<in> {5, 9} \<Longrightarrow> keys_of demo_klib demo_curve (demo_pair b)"
    by (auto simp: keys_of_def demo_pair_def secret_of_def demo_curve_def demo_secret_def demo_secret_value)
  show "sig64 demo_curve" by (simp add: sig64_def demo_curve_def)
qed

lemma envelope_roundtrip_witness:
  "\<exists>envelope received. signEnvelope demo_klib demo_curve (replicate 32 0) (JObj [(''k'', JBytes [1, 2])]) ''did:a'' (demo_pair 5) None 1000 ''n'' = Inr envelope \<and>
     json_parse demo_klib (json_stringify demo_http envelope) = Some received \<and>
     reviveFromWire demo_klib (js_prop_opt received ''message'') = Inr (JObj [(''k'', JBytes [1, 2])])"
proof -
  have "wire_message (JObj [(''k'', JBytes [1, 2])])" by (simp add: wire_message_parts)
  then show ?thesis
    using envelope_roundtrip [OF demo_curve_ok(1) demo_http_ok(2) demo_curve_ok(2) demo_http_ok(1,3) demo_http_ok(4) [of 5], of "replicate 32 0"
        "JObj [(''k'', JBytes [1, 2])]" 1000000 1000]
    by fastforce
qed

text \<open>A server with one actor; the key of one participant is in its DID, the other's in its genesis
  document.\<close>

definition demo_config :: "int \<Rightarrow> server_config" where
  "demo_config m = \<lparr>hc_cors = None, hc_clockSkewSec = None, hc_inboxBufferSize = None, hc_advertTtlMs = None, hc_rateLimiter = None,
     hc_nonceCache = Some (newNonceCache (Some 2)), hc_heartbeatIntervalMs = None, hc_maxBodyBytes = Some m,
     hc_resolveSenderPk = Some (\<lambda>d g. if d = ''did:a'' then Some (2 # demo_secret 5) else if g \<noteq> None then Some (2 # demo_secret 9) else None)\<rparr>"

definition demo_setup :: "unit server_call list" where
  "demo_setup = [RegisterActor ''svc'' (demo_pair 9), RegisterHandler ''svc'' COHORT_OPT_IN ()]"

definition demo_server :: "int \<Rightarrow> unit HttpServerTransport" where
  "demo_server m = serverCalls demo_klib demo_curve demo_http demo_setup (newHttpServer (demo_config m))"

lemma demo_server_fields:
  "hs_actors (demo_server m) = [(''svc'', \<lparr>ac_keys = demo_pair 9, ac_handlers = [(COHORT_OPT_IN, ())]\<rparr>)]"
  "hs_peers (demo_server m) = []" "hs_nonceCache (demo_server m) = newNonceCache (Some 2)" "hs_clockSkewSec (demo_server m) = 60"
  "hs_rateLimiter (demo_server m) = newRateLimiter None None []" "hs_maxBodyBytes (demo_server m) = m"
  "hs_resolveSenderPk (demo_server m) = hc_resolveSenderPk (demo_config m)"
  by (simp_all add: demo_server_def serverCalls_def demo_setup_def serverCall_def registerActor_def registerMessageHandler_def
      newHttpServer_def demo_config_def or_default_def DEFAULT_CLOCK_SKEW_SEC_def)

definition demo_opt_in :: "string \<Rightarrow> bytes \<Rightarrow> jsval" where
  "demo_opt_in did pk = JObj [(''type'', JStr COHORT_OPT_IN), (''from'', JStr did), (''genesisDocument'', JObj []), (''communicationPk'', JBytes pk)]"

definition demo_request :: "jsval \<Rightarrow> HttpRequestLike" where
  "demo_request envelope = \<lparr>rq_method = ''POST'', rq_url = ''/v1/messages'', rq_headers = [], rq_body = Some (json_stringify demo_http envelope)\<rparr>"

text \<open>The opt-in of a participant, signed with its key, reaches the handler.\<close>

lemma demo_posted:
  assumes "(did, b) \<in> {(''did:a'', 5), (''did:x'', 9)}"
  obtains envelope m s1 r where
    "handleRequest demo_klib demo_curve demo_http 1000000 1000000 (demo_request envelope) (demo_server m) =
        (s1, [Dispatch ''svc'' COHORT_OPT_IN () (demo_opt_in did (2 # demo_secret b))], r)"
    "hs_peers s1 = (if did = ''did:x'' then [(did, 2 # demo_secret b)] else [])"
    "parseJsonBody demo_klib (rq_body (demo_request envelope)) = Some envelope"
proof -
  let ?pk = "2 # demo_secret b" and ?opt = "demo_opt_in did (2 # demo_secret b)"
  have b: "b \<in> {5, 9}" using assms by auto
  have wire: "wire_message ?opt" by (simp add: demo_opt_in_def wire_message_parts)
  obtain s where v: "\<And>opts nowMs. (vo_expectedFrom opts = None \<or> vo_expectedFrom opts = Some did) \<Longrightarrow>
       (vo_expectedTo opts = None \<or> vo_expectedTo opts = Some (Some ''svc'')) \<Longrightarrow>
       \<bar>nowMs div 1000 - 1000\<bar> \<le> (case vo_clockSkewSec opts of None \<Rightarrow> DEFAULT_CLOCK_SKEW_SEC | Some k \<Rightarrow> k) \<Longrightarrow>
       verifyEnvelope demo_klib demo_curve demo_http
         (JObj (envelope_fields demo_klib ?opt did (Some ''svc'') 1000 ''n1'' @ [(''sig'', JStr (hex_encode demo_klib s))])) (kp_publicKey (demo_pair b)) opts nowMs = Inr ()"
    using signed_verifies [OF demo_curve_ok(1) demo_http_ok(2) demo_curve_ok(2) demo_http_ok(3) demo_http_ok(4) [OF b], of "replicate 32 0"]
    by (metis length_replicate)
  define env where "env = JObj (envelope_fields demo_klib ?opt did (Some ''svc'') 1000 ''n1'' @ [(''sig'', JStr (hex_encode demo_klib s))])"
  define m where "m = int (length (json_stringify demo_http env))"
  have fields: "js_prop_opt env ''from'' = JStr did" "js_prop_opt env ''to'' = JStr ''svc''" "js_prop_opt env ''nonce'' = JStr ''n1''"
    "js_prop_opt env ''message'' = normalizeForWire demo_klib ?opt" "truthy env"
    by (simp_all add: env_def envelope_fields_simps opt_str_def)
  have "is_json env" using wire_is_json [OF wire, of demo_klib] by (auto simp: env_def envelope_fields_def)
  then have parse: "json_parse demo_klib (json_stringify demo_http env) = Some env"
    using demo_http_ok(1) jsonRoundTrip_idem [of env] unfolding stringify_ok_def by (metis is_json.simps(1))
  have "json_stringify demo_http env \<noteq> []" by (simp add: demo_http_def env_def envelope_fields_def)
  then have body: "parseJsonBody demo_klib (rq_body (demo_request env)) = Some env"
    by (simp add: parseJsonBody_def demo_request_def parse fields)
  have revive: "reviveFromWire demo_klib (js_prop_opt env ''message'') = Inr ?opt"
    using revive_normalize [OF demo_curve_ok(2) wire] fields by simp
  have flat: "flattenMessage ?opt = Inr ?opt" by (simp add: flattenMessage_def demo_opt_in_def)
  have verified: "server_verify demo_klib demo_curve demo_http (demo_server m) env ?pk 1000000 = Inr ()"
    using v by (simp add: server_verify_def env_def demo_pair_def demo_server_fields)
  have opt: "js_prop_opt ?opt ''from'' = JStr did" "js_prop_opt ?opt ''type'' = JStr COHORT_OPT_IN" "js_prop_opt ?opt ''genesisDocument'' = JObj []"
    "js_prop_opt ?opt ''communicationPk'' = JBytes ?pk" "COHORT_OPT_IN \<noteq> []"
    by (simp_all add: demo_opt_in_def COHORT_OPT_IN_def AGGREGATION_MESSAGE_PREFIX_def)
  have small: "\<not> enforceBodySize (demo_server m) (demo_request env)"
    by (simp add: enforceBodySize_def demo_request_def demo_server_fields m_def)
  have pk: "newPublicKey demo_klib ?pk = Inr ?pk" by (simp add: newPublicKey_def demo_klib_def demo_mlib_def demo_secret_def)
  obtain s1 where n: "passNonce did ''n1'' (demo_server m) = (s1, True)"
    by (simp add: passNonce_def demo_server_fields nonceStore_def newNonceCache_def jm_has_def Let_def)
  obtain s2 where r: "passRate did 1000000 s1 = (s2, True)"
  proof -
    have "hs_rateLimiter s1 = newRateLimiter None None []" using n demo_server_fields by (auto simp: passNonce_def split: prod.splits)
    then show ?thesis using that by (simp add: passRate_def consume_def refilled_def store_get_def newRateLimiter_def Let_def)
  qed
  have s2: "hs_peers s2 = []" "hs_actors s2 = [(''svc'', \<lparr>ac_keys = demo_pair 9, ac_handlers = [(COHORT_OPT_IN, ())]\<rparr>)]"
    using passNonce_facts [OF n] passRate_facts [OF r] demo_server_fields by simp_all
  define bp where "bp = (if did = ''did:x'' then Some ?pk else None)"
  have "handleMessagesPost demo_klib demo_curve demo_http 1000000 1000000 (demo_request env) (demo_server m) =
      deliver demo_klib demo_http env did bp (demo_request env) s2"
  proof (cases "did = ''did:x''")
    case False
    then have "resolveSenderPk demo_klib (demo_server m) (JStr did) None = Some ?pk"
      using assms by (auto simp: resolveSenderPk_def demo_server_fields demo_config_def)
    then show ?thesis
      using small body fields verified n r False by (simp add: handleMessagesPost_def passGates_def bp_def)
  next
    case True
    then have "resolveSenderPk demo_klib (demo_server m) (JStr did) None = None"
      by (simp add: resolveSenderPk_def demo_server_fields demo_config_def)
    moreover have "bootstrapSenderPk demo_klib demo_curve demo_http 1000000 (demo_server m) env = Inr (Some ?pk)"
      using True assms revive flat opt fields verified by (auto simp: bootstrapSenderPk_def demo_server_fields demo_config_def Let_def typeof_object_def)
    ultimately show ?thesis
      using small body fields n r True by (simp add: handleMessagesPost_def passGates_def bp_def)
  qed
  moreover have "\<exists>s3 r. deliver demo_klib demo_http env did bp (demo_request env) s2 =
      (s3, [Dispatch ''svc'' COHORT_OPT_IN () ?opt], r) \<and> hs_peers s3 = (if did = ''did:x'' then [(did, ?pk)] else [])"
    using fields revive flat opt s2 pk by (simp add: deliver_def bp_def registerPeer_def Let_def newPublicKey_def)
  moreover have "handleRequest demo_klib demo_curve demo_http 1000000 1000000 (demo_request env) (demo_server m) =
      handleMessagesPost demo_klib demo_curve demo_http 1000000 1000000 (demo_request env) (demo_server m)"
  proof -
    have "to_upper ''POST'' = ''POST''" "takeWhile (\<lambda>c. c \<noteq> CHR ''?'') ''/v1/messages'' = ''/v1/messages''" by code_simp+
    then show ?thesis by (simp add: handleRequest_def demo_request_def extractPath_def starts_with_def Let_def)
  qed
  ultimately show ?thesis using that body by metis
qed

lemma dispatched_is_authentic_witness:
  "\<exists>m req s' effs r flat. handleRequest demo_klib demo_curve demo_http 1000000 1000000 req (demo_server m) = (s', effs, r) \<and>
     Dispatch ''svc'' COHORT_OPT_IN () flat \<in> set effs \<and>
     (\<exists>envelope pk. parseJsonBody demo_klib (rq_body req) = Some envelope \<and> signed_by demo_klib envelope pk)"
proof -
  have "(''did:a'', 5) \<in> {(''did:a'', 5), (''did:x'', 9 :: byte)}" by simp
  then obtain envelope m s1 r where
    d: "handleRequest demo_klib demo_curve demo_http 1000000 1000000 (demo_request envelope) (demo_server m) =
        (s1, [Dispatch ''svc'' COHORT_OPT_IN () (demo_opt_in ''did:a'' (2 # demo_secret 5))], r)"
    by (rule demo_posted)
  have mem: "Dispatch ''svc'' COHORT_OPT_IN () (demo_opt_in ''did:a'' (2 # demo_secret 5)) \<in>
      set [Dispatch ''svc'' COHORT_OPT_IN () (demo_opt_in ''did:a'' (2 # demo_secret 5))]" by simp
  from dispatched_is_authentic [OF d mem] d mem show ?thesis by blast
qed

lemma peers_change_validated_witness:
  "\<exists>m req s' effs r. handleRequest demo_klib demo_curve demo_http 1000000 1000000 req (demo_server m) = (s', effs, r) \<and>
     (\<exists>envelope sender pk. parseJsonBody demo_klib (rq_body req) = Some envelope \<and> hs_peers s' = jm_set sender pk (hs_peers (demo_server m)) \<and>
        signed_by demo_klib envelope pk)"
proof -
  have "(''did:x'', 9) \<in> {(''did:a'', 5), (''did:x'', 9 :: byte)}" by simp
  then obtain envelope m s1 r where
    d: "handleRequest demo_klib demo_curve demo_http 1000000 1000000 (demo_request envelope) (demo_server m) =
        (s1, [Dispatch ''svc'' COHORT_OPT_IN () (demo_opt_in ''did:x'' (2 # demo_secret 9))], r)"
    "hs_peers s1 = (if ''did:x'' = ''did:x'' then [(''did:x'', 2 # demo_secret 9)] else [])"
    by (rule demo_posted)
  then have "hs_peers s1 \<noteq> hs_peers (demo_server m)" by (simp add: demo_server_fields)
  from peers_change_validated [OF d(1) this] d(1) show ?thesis by blast
qed

lemma dispatched_once_witness:
  "\<exists>m req s1 s2 effs effs' r r'. handleRequest demo_klib demo_curve demo_http 1000000 1000000 req (demo_server m) = (s1, effs, r) \<and>
     Dispatch ''svc'' COHORT_OPT_IN () (demo_opt_in ''did:a'' (2 # demo_secret 5)) \<in> set effs \<and>
     handleRequest demo_klib demo_curve demo_http 1000000 1000000 req s1 = (s2, effs', r') \<and>
     Dispatch ''svc'' COHORT_OPT_IN () (demo_opt_in ''did:a'' (2 # demo_secret 5)) \<notin> set effs'"
proof -
  have "(''did:a'', 5) \<in> {(''did:a'', 5), (''did:x'', 9 :: byte)}" by simp
  then obtain envelope m s1 r where
    d: "handleRequest demo_klib demo_curve demo_http 1000000 1000000 (demo_request envelope) (demo_server m) =
        (s1, [Dispatch ''svc'' COHORT_OPT_IN () (demo_opt_in ''did:a'' (2 # demo_secret 5))], r)"
    and body: "parseJsonBody demo_klib (rq_body (demo_request envelope)) = Some envelope"
    by (rule demo_posted)
  have mem: "Dispatch ''svc'' COHORT_OPT_IN () (demo_opt_in ''did:a'' (2 # demo_secret 5)) \<in>
      set [Dispatch ''svc'' COHORT_OPT_IN () (demo_opt_in ''did:a'' (2 # demo_secret 5))]" by simp
  obtain s2 effs' r' where again: "handleRequest demo_klib demo_curve demo_http 1000000 1000000 (demo_request envelope)
      (serverCalls demo_klib demo_curve demo_http [] s1) = (s2, effs', r')"
    by (metis surj_pair)
  have cache: "hc_nonceCache (demo_config m) = Some (newNonceCache (Some 2))" by (simp add: demo_config_def)
  have none: "serverCalls demo_klib demo_curve demo_http [] s1 = s1" by (simp add: serverCalls_def)
  have few: "int (length ([] :: unit server_call list)) < 2" by simp
  from dispatched_once [OF cache _ demo_server_def d mem few body body refl refl again] again none d mem show ?thesis by fastforce
qed

lemma demo_hex_text: "hex_text demo_klib"
  unfolding hex_text_def
proof (intro allI impI)
  fix bs :: bytes assume bs: "bs \<noteq> []"
  have hex: "hex_encode demo_klib bs = demo_hex bs" by (simp add: demo_klib_def demo_mlib_def)
  have "\<not> is_hex (CHR '','') \<and> list_all (\<lambda>n. is_js_space (char_of n) \<longrightarrow> \<not> is_hex (char_of n)) [9, 10, 11, 12, 13, 32 :: nat]" by code_simp
  then have "is_hex c \<Longrightarrow> \<not> is_js_space c \<and> c \<noteq> CHR '',''" for c
    unfolding is_js_space_def by (auto simp: list_all_iff) (metis char_of_char)+
  then have "list_all (\<lambda>c. \<not> is_js_space c) (demo_hex bs)" "CHR '','' \<notin> set (demo_hex bs)"
    using demo_hex_chars [of _ bs] by (auto simp: list_all_iff)
  moreover have "demo_hex bs \<noteq> []" using bs demo_unhex_hex [of bs] by (metis demo_unhex.simps(2))
  ultimately show "plain_param (hex_encode demo_klib bs)" by (simp add: hex plain_param_def)
qed

lemma request_auth_roundtrip_witness:
  "\<exists>header parsed. buildRequestAuth demo_klib demo_curve (replicate 32 0) ''did:a'' (demo_pair 5) ''/v1/actors/did:a/inbox'' 1000 ''n1'' = Inr header \<and>
     verifyRequestAuth demo_klib demo_curve header ''/v1/actors/did:a/inbox'' (kp_publicKey (demo_pair 5)) None 1000000 = Inr parsed \<and> pa_did parsed = ''did:a''"
proof -
  have "plain_param ''did:a''" "plain_param ''n1''" by code_simp+
  then show ?thesis
    using request_auth_roundtrip [OF demo_curve_ok(1) demo_http_ok(2) demo_curve_ok(2) demo_hex_text demo_http_ok(3) demo_http_ok(4) [of 5], of "replicate 32 0"
        "''did:a''" "''n1''" 1000 1000000 "''/v1/actors/did:a/inbox''"]
    by fastforce
qed

end
