(* ===== verification/HttpStreams.thy ===== *)
theory HttpStreams
  imports HttpProps
begin

text \<open>
  Who may read the inboxes of the HTTP server (\<open>HttpServer\<close>): over every run of its calls, the streams that
  inbox events are written to, with the request that admitted each of them.
\<close>


text \<open>A request that \<open>handleSse\<close> admits to the inbox of a DID.\<close>

definition admitted :: "'x method_lib_scheme \<Rightarrow> http_lib \<Rightarrow> int \<Rightarrow> HttpRequestLike \<Rightarrow> string \<Rightarrow> 'h HttpServerTransport \<Rightarrow> bool" where
  "admitted L H now req did s \<longleftrightarrow>
     (\<exists>path header pk parsed sig. extractPath H (rq_url req) = Inr path \<and> matchInboxPath H path = Some did \<and>
        resolveSenderPk L s (JStr did) None = Some pk \<and> jm_get (rq_headers req) ''authorization'' = Some header \<and>
        parseRequestAuth header = Inr parsed \<and> pa_did parsed = did \<and> \<bar>now div 1000 - pa_ts parsed\<bar> \<le> hs_clockSkewSec s \<and>
        hex_decode L (pa_sig parsed) = Some sig \<and>
        schnorr_verify L sig (canon_hash L (auth_object 1 did (pa_ts parsed) (pa_nonce parsed) path)) (xOnly pk) = Some True \<and>
        snd (nonceStore did (pa_nonce parsed) 0 (hs_nonceCache s)))"

text \<open>An event of an inbox that is there and can hold events.\<close>

definition in_inbox :: "'h HttpServerTransport \<Rightarrow> string \<Rightarrow> string \<Rightarrow> string \<Rightarrow> string \<Rightarrow> bool" where
  "in_inbox s did event d i \<longleftrightarrow>
     (\<exists>inbox. jm_get (hs_inboxes s) did = Some inbox \<and>
        \<lparr>se_id = i, se_event = event, se_data = d\<rparr> \<in> set (ib_entries (in_buffer inbox)))"

definition is_advert :: "'h HttpServerTransport \<Rightarrow> string \<Rightarrow> string \<Rightarrow> string \<Rightarrow> bool" where
  "is_advert s event d i \<longleftrightarrow> event = ''advert'' \<and> (\<exists>a. hs_currentAdvert s = Some a \<and> d = ad_dataJson a \<and> i = ad_id a)"

definition subscribed :: "'h HttpServerTransport \<Rightarrow> string \<Rightarrow> nat \<Rightarrow> bool" where
  "subscribed s did stream \<longleftrightarrow> (\<exists>inbox. jm_get (hs_inboxes s) did = Some inbox \<and> stream \<in> set (in_subscribers inbox))"

definition inboxes_ok :: "'h HttpServerTransport \<Rightarrow> bool" where
  "inboxes_ok s \<longleftrightarrow> (\<forall>did inbox. jm_get (hs_inboxes s) did = Some inbox \<longrightarrow> 1 \<le> ib_capacity (in_buffer inbox))"

lemma getOrCreate_Inr:
  assumes "getOrCreateInbox did s = Inr inbox" "inboxes_ok s"
  shows "1 \<le> ib_capacity (in_buffer inbox)"
    "e \<in> set (ib_entries (in_buffer inbox)) \<or> stream \<in> set (in_subscribers inbox) \<Longrightarrow> jm_get (hs_inboxes s) did = Some inbox"
  using assms
  by (auto simp: getOrCreateInbox_def inboxes_ok_def rbind_Inr_iff newInboxBuffer_def Let_def split: option.splits if_splits)

lemma inbox_open:
  assumes open': "openInboxSubscription L K now req stream did path s = (s', effs, r)"
    and path: "extractPath H (rq_url req) = Inr path" "matchInboxPath H path = Some did"
  obtains (closed) "effs = [CloseStream stream] \<or> effs = []" "hs_inboxes s' = hs_inboxes s"
  | (opened) inbox s2 where "admitted L H now req did s" "getOrCreateInbox did s = Inr inbox"
      "hs_inboxes s' = jm_set did (inbox\<lparr>in_subscribers := js_add stream (in_subscribers inbox)\<rparr>) (hs_inboxes s)"
      "effs = map (\<lambda>e. WriteEvent stream (se_event e) (se_data e) (se_id e))
         (inboxSince (jm_get (rq_headers req) ''last-event-id'') (in_buffer inbox)) @ heartbeat s2 stream"
proof (cases "\<exists>header pk parsed. jm_get (rq_headers req) ''authorization'' = Some header \<and> header \<noteq> [] \<and>
    resolveSenderPk L s (JStr did) None = Some pk \<and>
    verifyRequestAuth L K header path pk (Some (hs_clockSkewSec s)) now = Inr parsed \<and> pa_did parsed = did")
  case False
  then have "effs = [CloseStream stream] \<and> s' = s"
    using open' by (auto simp: openInboxSubscription_def Let_def truthy_str_def split: option.splits sum.splits if_splits)
  then show ?thesis using closed by blast
next
  case True
  then obtain header pk parsed where o: "jm_get (rq_headers req) ''authorization'' = Some header" "header \<noteq> []"
    "resolveSenderPk L s (JStr did) None = Some pk" "verifyRequestAuth L K header path pk (Some (hs_clockSkewSec s)) now = Inr parsed"
    "pa_did parsed = did" by blast
  obtain s1 b1 where n: "passNonce did (pa_nonce parsed) s = (s1, b1)" by force
  obtain s2 b2 where rt: "passRate did now s1 = (s2, b2)" by force
  note run = open' [unfolded openInboxSubscription_def Let_def o(1) o(3) option.case option.sel o(4) sum.case n rt prod.case]
  have same: "hs_inboxes s1 = hs_inboxes s" "hs_inboxes s2 = hs_inboxes s" "hs_inboxBufferSize s2 = hs_inboxBufferSize s"
    using passNonce_facts(6) [OF n] passRate_facts(5) [OF rt] n rt by (auto simp: passNonce_def passRate_def split: prod.splits)
  then have create: "getOrCreateInbox did s2 = getOrCreateInbox did s" by (simp add: getOrCreateInbox_def split: option.split)
  have adm: "admitted L H now req did s" if b1
    using path o(1,3,5) verifyRequestAuth_Inr [OF o(4)] passNonce_facts(5) [OF n] that
    unfolding admitted_def by auto
  show ?thesis
  proof (cases "b1 \<and> b2 \<and> (\<exists>inbox. getOrCreateInbox did s = Inr inbox)")
    case True
    then obtain inbox where i: b1 b2 "getOrCreateInbox did s = Inr inbox" by blast
    show ?thesis
      by (rule opened [OF adm [OF i(1)] i(3)]) (use run i o(2,5) same create in \<open>auto simp: truthy_str_def\<close>)
  next
    case False
    then have "(effs = [CloseStream stream] \<or> effs = []) \<and> hs_inboxes s' = hs_inboxes s"
      using run o(2,5) same create
      by (cases b1; cases b2; cases "getOrCreateInbox did s") (auto simp: truthy_str_def)
    then show ?thesis using closed by blast
  qed
qed

lemma writes_of_map:
  "WriteEvent st e d i \<in> set (map (\<lambda>e. WriteEvent stream (se_event e) (se_data e) (se_id e)) es @ heartbeat s2 stream') \<Longrightarrow>
     st = stream \<and> \<lparr>se_id = i, se_event = e, se_data = d\<rparr> \<in> set es"
  by (auto simp: heartbeat_def split: if_splits) (metis (full_types) StoredEvent.surjective old.unit.exhaust)

lemma inboxSince_subset: "set (inboxSince l ib) \<subseteq> set (ib_entries ib)"
  by (auto simp: inboxSince_def split: option.splits if_splits)

lemma sse_open:
  assumes "handleSse L K H now req stream s = (s', effs, r)"
  obtains (closed) "\<forall>st e d i. WriteEvent st e d i \<notin> set effs" "hs_inboxes s' = hs_inboxes s"
  | (adverts) "\<forall>st e d i. WriteEvent st e d i \<in> set effs \<longrightarrow> is_advert s' e d i" "hs_inboxes s' = hs_inboxes s"
  | (opened) did inbox where "admitted L H now req did s" "getOrCreateInbox did s = Inr inbox"
      "hs_inboxes s' = jm_set did (inbox\<lparr>in_subscribers := js_add stream (in_subscribers inbox)\<rparr>) (hs_inboxes s)"
      "\<forall>st e d i. WriteEvent st e d i \<in> set effs \<longrightarrow> st = stream \<and>
         \<lparr>se_id = i, se_event = e, se_data = d\<rparr> \<in> set (ib_entries (in_buffer inbox))"
proof (cases "to_upper (rq_method req) \<noteq> ''GET'' \<or> (\<exists>e. extractPath H (rq_url req) = Inl e)")
  case True
  then have "effs = [CloseStream stream] \<and> s' = s \<or> effs = [] \<and> s' = s"
    using assms by (auto simp: handleSse_def split: if_splits)
  then show ?thesis using closed by auto
next
  case False
  then obtain path where path: "extractPath H (rq_url req) = Inr path" and get: "to_upper (rq_method req) = ''GET''"
    by (cases "extractPath H (rq_url req)") auto
  show ?thesis
  proof (cases "path = ''/v1/adverts''")
    case True
    then have "openBroadcastSubscription now stream s = (s', effs)"
      using assms path get by (auto simp: handleSse_def split: prod.splits)
    then show ?thesis
      by (intro adverts) (auto simp: openBroadcastSubscription_def heartbeat_def is_advert_def Let_def split: option.splits if_splits)
  next
    case nb: False
    show ?thesis
    proof (cases "matchInboxPath H path")
      case None
      then show ?thesis using assms path get nb closed by (auto simp: handleSse_def)
    next
      case (Some did)
      then have opened': "openInboxSubscription L K now req stream did path s = (s', effs, r)"
        using assms path get nb by (auto simp: handleSse_def)
      from opened' path Some show ?thesis
      proof (cases rule: inbox_open)
        case closed
        then show ?thesis using that(1) by auto
      next
        case (opened inbox s2)
        have "st = stream \<and> \<lparr>se_id = i, se_event = e, se_data = d\<rparr> \<in> set (ib_entries (in_buffer inbox))"
          if "WriteEvent st e d i \<in> set effs" for st e d i
          using that writes_of_map [of st e d i stream] inboxSince_subset unfolding opened(4) by blast
        then show ?thesis using that(3) opened(1-3) by blast
      qed
    qed
  qed
qed


text \<open>Requests leave the inboxes alone and write adverts only.\<close>

definition quiet_post :: "'h HttpServerTransport \<Rightarrow> 'h http_outcome \<Rightarrow> bool" where
  "quiet_post s out \<longleftrightarrow> hs_inboxes (fst out) = hs_inboxes s \<and>
     (\<forall>st e d i. WriteEvent st e d i \<in> set (fst (snd out)) \<longrightarrow> is_advert (fst out) e d i)"

lemma quiet_gates:
  assumes "\<And>s. quiet_post s (cont s)"
  shows "quiet_post s (passGates H now envelope from' req cont s)"
proof (cases "string_of (format_double H) (js_prop_opt envelope ''nonce'')")
  case (Inl e)
  then show ?thesis by (simp add: passGates_def quiet_post_def)
next
  case (Inr nonce)
  obtain s1 ok where n: "passNonce from' nonce s = (s1, ok)" by force
  obtain s2 ok2 where r: "passRate from' now s1 = (s2, ok2)" by force
  show ?thesis
    using Inr n r passNonce_facts(6) [OF n] passRate_facts(5) [OF r] assms [of s2]
    by (cases ok; cases ok2) (simp_all add: passGates_def answer_error_def quiet_post_def)
qed

lemma quiet_deliver: "quiet_post s (deliver L H envelope from' bp req s)"
  by (auto simp: quiet_post_def deliver_def answer_error_def Let_def registerPeer_def split: option.split sum.split jsval.split)

lemma quiet_advert: "quiet_post s (publishAdvert H now envelope from' req s)"
  by (auto simp: quiet_post_def publishAdvert_def answer_error_def Let_def is_advert_def)

lemma quiet_request: "quiet_post s (handleRequest L K H dateNow now req s)"
proof -
  note gates' = quiet_gates [OF quiet_deliver] quiet_gates [OF quiet_advert]
  have m: "quiet_post s (handleMessagesPost L K H dateNow now req s)"
    by (simp add: handleMessagesPost_def answer_error_def Let_def gates' split: option.split sum.split) (simp add: quiet_post_def)
  have a: "quiet_post s (handleAdvertsPost L K H dateNow now req s)"
    by (simp add: handleAdvertsPost_def answer_error_def Let_def gates' split: option.split sum.split) (simp add: quiet_post_def)
  have none: "quiet_post s (s, [], res)" for res by (simp add: quiet_post_def)
  show ?thesis using m a none by (simp add: handleRequest_def answer_error_def Let_def split: sum.split)
qed

text \<open>What the calls write.\<close>

definition serverEffects ::
  "'x method_lib_scheme \<Rightarrow> curve_lib \<Rightarrow> http_lib \<Rightarrow> 'h server_call \<Rightarrow> 'h HttpServerTransport \<Rightarrow> 'h http_effect list" where
  "serverEffects L K H c s = (case c of
      Request dateNow now req \<Rightarrow> fst (snd (handleRequest L K H dateNow now req s))
    | Subscribe now req stream \<Rightarrow> fst (snd (handleSse L K H now req stream s))
    | Disconnect stream \<Rightarrow> snd (streamClosed stream s)
    | Send aux t n message sender recipient \<Rightarrow> fst (snd (sendMessage L K H aux t n message sender recipient s))
    | Publish aux t n now message sender \<Rightarrow> fst (snd (publishRepeating L K H aux t n now message sender s))
    | StopServer \<Rightarrow> snd (stopServer s)
    | _ \<Rightarrow> [])"

text \<open>What a call does to the inboxes and writes to the streams.\<close>

definition inbox_step :: "'x method_lib_scheme \<Rightarrow> http_lib \<Rightarrow> 'h server_call \<Rightarrow> 'h HttpServerTransport \<Rightarrow> 'h HttpServerTransport
    \<Rightarrow> 'h http_effect list \<Rightarrow> bool" where
  "inbox_step L H c s s' effs \<longleftrightarrow> inboxes_ok s' \<and>
     (\<forall>did stream. subscribed s' did stream \<longrightarrow>
        (subscribed s did stream \<and> c \<noteq> Disconnect stream \<and> c \<noteq> StopServer) \<or>
        (\<exists>now req. c = Subscribe now req stream \<and> admitted L H now req did s)) \<and>
     (\<forall>stream e d i. WriteEvent stream e d i \<in> set effs \<longrightarrow>
        is_advert s' e d i \<or> (\<exists>did. in_inbox s' did e d i \<and> subscribed s' did stream))"

lemma inbox_step_same:
  assumes "inboxes_ok s" "hs_inboxes s' = hs_inboxes s" "\<forall>st. c \<noteq> Disconnect st" "c \<noteq> StopServer"
    "\<forall>st e d i. WriteEvent st e d i \<in> set effs \<longrightarrow> is_advert s' e d i"
  shows "inbox_step L H c s s' effs"
  using assms by (auto simp: inbox_step_def inboxes_ok_def subscribed_def)

lemma append_holds:
  assumes "inboxAppend e d ib = (ib', stored)" "1 \<le> ib_capacity ib"
  shows "stored \<in> set (ib_entries ib')" "ib_capacity ib' = ib_capacity ib" "se_event stored = e" "se_data stored = d"
  using assms by (cases "ib_entries ib"; auto simp: inboxAppend_def Let_def)+

lemma send_cases:
  assumes "sendMessage L K H aux t n message sender recipient s = (s', effs, r)"
  shows "effs = [] \<and> s' = s \<or> (\<exists>did inbox buffer stored d. getOrCreateInbox did s = Inr inbox \<and>
    inboxAppend ''message'' d (in_buffer inbox) = (buffer, stored) \<and>
    s' = s\<lparr>hs_inboxes := jm_set did (inbox\<lparr>in_buffer := buffer\<rparr>) (hs_inboxes s)\<rparr> \<and>
    effs = map (\<lambda>sub. WriteEvent sub (se_event stored) (se_data stored) (se_id stored)) (in_subscribers inbox))"
proof (cases "truthy_str recipient \<and> (\<exists>actor envelope inbox. jm_get (hs_actors s) sender = Some actor \<and>
    signEnvelope L K aux message sender (ac_keys actor) recipient t n = Inr envelope \<and> getOrCreateInbox (the recipient) s = Inr inbox)")
  case True
  then obtain actor envelope inbox where a: "truthy_str recipient" "jm_get (hs_actors s) sender = Some actor"
    "signEnvelope L K aux message sender (ac_keys actor) recipient t n = Inr envelope" "getOrCreateInbox (the recipient) s = Inr inbox" by blast
  obtain buffer stored where app: "inboxAppend ''message'' (json_stringify H envelope) (in_buffer inbox) = (buffer, stored)" by force
  have "s' = s\<lparr>hs_inboxes := jm_set (the recipient) (inbox\<lparr>in_buffer := buffer\<rparr>) (hs_inboxes s)\<rparr>"
    "effs = map (\<lambda>sub. WriteEvent sub (se_event stored) (se_data stored) (se_id stored)) (in_subscribers inbox)"
    using assms a app by (simp_all add: sendMessage_def)
  then show ?thesis using a(4) app by blast
next
  case False
  show ?thesis
  proof (cases "truthy_str recipient")
    case rec: True
    show ?thesis
    proof (cases "jm_get (hs_actors s) sender")
      case (Some actor)
      show ?thesis
      proof (cases "signEnvelope L K aux message sender (ac_keys actor) recipient t n")
        case (Inr envelope)
        then obtain e where "getOrCreateInbox (the recipient) s = Inl e"
          using False rec Some by (cases "getOrCreateInbox (the recipient) s") auto
        then show ?thesis using assms rec Some Inr by (simp add: sendMessage_def)
      qed (use assms rec Some in \<open>simp add: sendMessage_def\<close>)
    qed (use assms rec in \<open>simp add: sendMessage_def\<close>)
  qed (use assms in \<open>simp add: sendMessage_def\<close>)
qed

lemma send_step:
  assumes ok: "inboxes_ok s" and send: "sendMessage L K H aux t n message sender recipient s = (s', effs, r)"
  shows "inbox_step L H (Send aux t n message sender recipient) s s' effs"
proof (cases "effs = [] \<and> s' = s")
  case True
  then show ?thesis by (intro inbox_step_same [OF ok]) auto
next
  case False
  then obtain did inbox buffer stored d where i: "getOrCreateInbox did s = Inr inbox"
    "inboxAppend ''message'' d (in_buffer inbox) = (buffer, stored)"
    "s' = s\<lparr>hs_inboxes := jm_set did (inbox\<lparr>in_buffer := buffer\<rparr>) (hs_inboxes s)\<rparr>"
    "effs = map (\<lambda>sub. WriteEvent sub (se_event stored) (se_data stored) (se_id stored)) (in_subscribers inbox)"
    using send_cases [OF send] by blast
  note cap = getOrCreate_Inr(1) [OF i(1) ok]
  note holds = append_holds [OF i(2) cap]
  have whole: "\<lparr>se_id = se_id stored, se_event = se_event stored, se_data = se_data stored\<rparr> = stored" by simp
  have "in_inbox s' did (se_event stored) (se_data stored) (se_id stored)"
    unfolding in_inbox_def whole using holds(1) by (simp add: i(3))
  moreover have "subscribed s' did stream" if "stream \<in> set (in_subscribers inbox)" for stream
    using that by (simp add: subscribed_def i(3))
  moreover have "inboxes_ok s'" using ok holds(2) cap by (simp add: inboxes_ok_def i(3))
  moreover have "subscribed s d stream" if "subscribed s' d stream" for d stream
    using that getOrCreate_Inr(2) [OF i(1) ok] by (auto simp: subscribed_def i(3) split: if_splits)
  ultimately show ?thesis by (auto simp: inbox_step_def i(4))
qed

lemma subscribe_step:
  assumes ok: "inboxes_ok s" and sse: "handleSse L K H now req stream s = (s', effs, r)"
  shows "inbox_step L H (Subscribe now req stream) s s' effs"
  using sse
proof (cases rule: sse_open)
  case closed
  then show ?thesis by (intro inbox_step_same [OF ok]) auto
next
  case adverts
  then show ?thesis by (intro inbox_step_same [OF ok]) auto
next
  case (opened did inbox)
  note cap = getOrCreate_Inr(1) [OF opened(2) ok] and held = getOrCreate_Inr(2) [OF opened(2) ok]
  have "inboxes_ok s'" using ok cap by (simp add: inboxes_ok_def opened(3))
  moreover have "subscribed s d st \<or> st = stream \<and> d = did" if "subscribed s' d st" for d st
    using that held by (auto simp: subscribed_def opened(3) split: if_splits)
  moreover have "subscribed s' did stream" by (simp add: subscribed_def opened(3))
  moreover have "in_inbox s' did e d i" if "WriteEvent st e d i \<in> set effs" for st e d i
    using that opened(4) by (simp add: in_inbox_def opened(3))
  ultimately show ?thesis using opened(1,4) unfolding inbox_step_def by blast
qed

lemma jm_get_map_values: "jm_get (map (\<lambda>(k, v). (k, f v)) m) k = map_option f (jm_get m k)"
  by (induction m) auto

lemma inbox_call_step:
  assumes "inboxes_ok s"
  shows "inbox_step L H c s (serverCall L K H c s) (serverEffects L K H c s)"
proof (cases c)
  case (Request dateNow now req)
  then show ?thesis
    using quiet_request [of s L K H dateNow now req]
    by (intro inbox_step_same [OF assms]) (simp_all add: serverCall_def serverEffects_def quiet_post_def)
next
  case (Subscribe now req stream)
  then show ?thesis
    using subscribe_step [OF assms] by (cases "handleSse L K H now req stream s") (simp add: serverCall_def serverEffects_def)
next
  case (Send aux t n message sender recipient)
  then show ?thesis
    using send_step [OF assms] by (cases "sendMessage L K H aux t n message sender recipient s") (simp add: serverCall_def serverEffects_def)
next
  case (Disconnect stream)
  have none: "WriteEvent st e d i \<notin> set (snd (streamClosed stream s))" for st e d i
    by (simp add: streamClosed_def closeSubscriber_def)
  show ?thesis
    using assms none
    by (auto simp: Disconnect serverCall_def serverEffects_def inbox_step_def inboxes_ok_def subscribed_def)
       (auto simp: streamClosed_def jm_get_map_values)
next
  case StopServer
  have "WriteEvent st e d i \<notin> set (snd (stopServer s))" for st e d i
    by (auto simp: stopServer_def closeSubscriber_def)
  then show ?thesis
    by (auto simp: StopServer serverCall_def serverEffects_def inbox_step_def inboxes_ok_def subscribed_def) (auto simp: stopServer_def)
next
  case (Publish aux t n now message sender)
  have "hs_inboxes (fst (publishRepeating L K H aux t n now message sender s)) = hs_inboxes s"
    "\<forall>st e d i. WriteEvent st e d i \<in> set (fst (snd (publishRepeating L K H aux t n now message sender s))) \<longrightarrow>
       is_advert (fst (publishRepeating L K H aux t n now message sender s)) e d i"
    by (auto simp: publishRepeating_def Let_def is_advert_def split: option.split sum.split)
  then show ?thesis by (intro inbox_step_same [OF assms]) (simp_all add: Publish serverCall_def serverEffects_def)
qed (rule inbox_step_same [OF assms]; simp add: serverCall_def serverEffects_def stopAdvert_def registerActor_def unregisterActor_def
    registerPeer_def registerMessageHandler_def unregisterMessageHandler_def split: option.split sum.split)+


text \<open>The request that admitted a stream, with the stream still open since.\<close>

definition admission where
  "admission L K H config calls stream did \<longleftrightarrow> (\<exists>before now req after. calls = before @ Subscribe now req stream # after \<and>
     admitted L H now req did (serverCalls L K H before (newHttpServer config)) \<and> Disconnect stream \<notin> set after \<and> StopServer \<notin> set after)"

lemma serverCalls_snoc: "serverCalls L K H (cs @ [c]) s = serverCall L K H c (serverCalls L K H cs s)"
  by (simp add: serverCalls_def)

lemma admission_step:
  assumes inv: "\<And>did stream. subscribed s did stream \<Longrightarrow> admission L K H config calls stream did"
    and s: "s = serverCalls L K H calls (newHttpServer config)"
    and step: "inbox_step L H c s s' effs" and sub: "subscribed s' did stream"
  shows "admission L K H config (calls @ [c]) stream did"
proof -
  consider "subscribed s did stream" "c \<noteq> Disconnect stream" "c \<noteq> StopServer"
    | now req where "c = Subscribe now req stream" "admitted L H now req did s"
    using step sub unfolding inbox_step_def by blast
  then show ?thesis
  proof cases
    case 1
    from inv [OF 1(1)] obtain before now req after where a: "calls = before @ Subscribe now req stream # after"
      "admitted L H now req did (serverCalls L K H before (newHttpServer config))" "Disconnect stream \<notin> set after" "StopServer \<notin> set after"
      unfolding admission_def by blast
    then show ?thesis
      using 1(2,3) unfolding admission_def
      by (intro exI [of _ before] exI [of _ now] exI [of _ req] exI [of _ "after @ [c]"]) auto
  next
    case 2
    then show ?thesis
      unfolding admission_def s
      by (intro exI [of _ calls] exI [of _ now] exI [of _ req] exI [of _ "[]"]) auto
  qed
qed

lemma calls_admission:
  fixes L :: "'x method_lib_scheme" and K H config
  defines "run \<equiv> \<lambda>calls. serverCalls L K H calls (newHttpServer config)"
  shows "inboxes_ok (run calls) \<and> (\<forall>did stream. subscribed (run calls) did stream \<longrightarrow> admission L K H config calls stream did)"
proof (induction calls rule: rev_induct)
  case Nil
  show ?case by (simp add: run_def serverCalls_def newHttpServer_def inboxes_ok_def subscribed_def)
next
  case (snoc c calls)
  have step: "inbox_step L H c (run calls) (run (calls @ [c])) (serverEffects L K H c (run calls))"
    unfolding run_def serverCalls_snoc by (rule inbox_call_step) (use snoc in \<open>simp add: run_def\<close>)
  have "admission L K H config (calls @ [c]) stream did" if "subscribed (run (calls @ [c])) did stream" for did stream
    using admission_step [OF _ _ step that, of K config calls] snoc by (simp add: run_def)
  then show ?case using step unfolding inbox_step_def by blast
qed

text \<open>C25: Nobody reads the inbox of a DID without its key. After every run of calls on a server, an event
  that any call writes to a stream is an advert, or an event in the inbox of a DID for which the stream
  was admitted: some request before, since when the stream has not been closed, was signed for this
  inbox by the key the server then had for the DID, within the clock skew and with a nonce
  that was not in the cache. This holds for the events that are replayed when the stream is opened, and for
  those that are sent later.\<close>

theorem subscription_is_authentic:
  fixes s' :: "'h HttpServerTransport"
  assumes "s = serverCalls L K H calls (newHttpServer config)" "s' = serverCall L K H c s"
    "WriteEvent stream event d i \<in> set (serverEffects L K H c s)"
  shows "is_advert s' event d i \<or>
    (\<exists>did before now req after. in_inbox s' did event d i \<and> calls @ [c] = before @ Subscribe now req stream # after \<and>
       admitted L H now req did (serverCalls L K H before (newHttpServer config)) \<and>
       Disconnect stream \<notin> set after \<and> StopServer \<notin> set after)"
proof -
  note run = calls_admission [of L K H calls config, folded assms(1)]
  have inv: "subscribed s did st \<Longrightarrow> admission L K H config calls st did" for did st using run by blast
  have step: "inbox_step L H c s s' (serverEffects L K H c s)" unfolding assms(2) by (rule inbox_call_step) (use run in blast)
  consider "is_advert s' event d i" | did where "in_inbox s' did event d i" "subscribed s' did stream"
    using step assms(3) unfolding inbox_step_def by blast
  then show ?thesis
  proof cases
    case 2
    from admission_step [OF inv assms(1) step 2(2)] 2(1) show ?thesis unfolding admission_def by blast
  qed blast
qed

text \<open>A stream that the first participant opens, and a message that the server then sends to it.\<close>

lemma subscription_is_authentic_witness:
  "\<exists>(calls :: unit server_call list) c d i. WriteEvent 3 ''message'' d i \<in>
       set (serverEffects demo_klib demo_curve demo_http c (serverCalls demo_klib demo_curve demo_http calls (newHttpServer (demo_config 0)))) \<and>
     (\<exists>did before now req after. calls @ [c] = before @ Subscribe now req 3 # after \<and>
       admitted demo_klib demo_http now req did (serverCalls demo_klib demo_curve demo_http before (newHttpServer (demo_config 0))))"
proof -
  let ?path = "''/v1/actors/did:a/inbox''"
  have plain: "plain_param ''did:a''" "plain_param ''n1''" by code_simp+
  obtain header sig where h: "header \<noteq> []"
    "verifyRequestAuth demo_klib demo_curve header ?path (kp_publicKey (demo_pair 5)) (Some 60) 1000000 =
       Inr \<lparr>pa_v = 1, pa_did = ''did:a'', pa_ts = 1000, pa_nonce = ''n1'', pa_sig = sig\<rparr>"
  proof -
    have a: "(5 :: byte) \<in> {5, 9}" "length (replicate 32 (0 :: byte)) = 32" "(0 :: int) \<le> 1000"
      "\<bar>1000000 div 1000 - 1000\<bar> \<le> (case Some 60 of None \<Rightarrow> DEFAULT_CLOCK_SKEW_SEC | Some s \<Rightarrow> s)" by simp_all
    show thesis
      by (rule auth_verifies [OF demo_curve_ok(1) demo_http_ok(2) demo_curve_ok(2) demo_hex_text demo_http_ok(3) demo_http_ok(4) [OF a(1)] a(2) plain a(3,4),
            where path = ?path]) (rule that)
  qed
  let ?s = "demo_server 0 :: unit HttpServerTransport"
  let ?req = "\<lparr>rq_method = ''GET'', rq_url = ?path, rq_headers = [(''authorization'', header)], rq_body = None\<rparr>"
  have path: "to_upper ''GET'' = ''GET''" "takeWhile (\<lambda>c. c \<noteq> CHR ''?'') ?path = ?path" "?path \<noteq> ''/v1/adverts''" by code_simp+
  have "(starts_with ''/v1/actors/'' ?path \<and> starts_with (rev ''/inbox'') (rev ?path)) \<and>
      drop (length ''/v1/actors/'') (take (length ?path - length ''/inbox'') ?path) = ''did:a''" by code_simp
  then have match: "matchInboxPath demo_http ?path = Some ''did:a''"
    unfolding matchInboxPath_def Let_def by (simp only: if_False simp_thms list.distinct) (simp add: demo_http_def)
  have pk: "resolveSenderPk demo_klib ?s (JStr ''did:a'') None = Some (kp_publicKey (demo_pair 5))"
    by (simp add: resolveSenderPk_def demo_server_fields demo_config_def demo_pair_def)
  obtain s1 where n: "passNonce ''did:a'' ''n1'' ?s = (s1, True)"
    by (simp add: passNonce_def demo_server_fields nonceStore_def newNonceCache_def jm_has_def Let_def)
  obtain s2 where r: "passRate ''did:a'' 1000000 s1 = (s2, True)"
  proof -
    have "hs_rateLimiter s1 = newRateLimiter None None []" using n demo_server_fields by (auto simp: passNonce_def split: prod.splits)
    then show ?thesis using that by (simp add: passRate_def consume_def refilled_def store_get_def newRateLimiter_def Let_def)
  qed
  have "hs_inboxes ?s = []" "hs_inboxBufferSize ?s = 100"
    by (simp_all add: demo_server_def serverCalls_def demo_setup_def serverCall_def registerActor_def registerMessageHandler_def
        newHttpServer_def demo_config_def or_default_def)
  then have s2: "hs_inboxes s2 = []" "hs_inboxBufferSize s2 = 100" "hs_actors s2 = hs_actors ?s"
    using n r by (auto simp: passNonce_def passRate_def split: prod.splits)
  let ?calls = "demo_setup @ [Subscribe 1000000 ?req 3]"
  let ?s3 = "serverCalls demo_klib demo_curve demo_http ?calls (newHttpServer (demo_config 0))"
  have s3: "hs_actors ?s3 = hs_actors ?s" "\<exists>b. hs_inboxes ?s3 = [(''did:a'', \<lparr>in_buffer = b, in_subscribers = [3]\<rparr>)]"
    unfolding serverCalls_snoc demo_server_def [symmetric]
    using path match pk n r s2 h
    by (auto simp: serverCall_def handleSse_def extractPath_def starts_with_def openInboxSubscription_def demo_server_fields
        getOrCreateInbox_def newInboxBuffer_def js_add_def Let_def)
  let ?m = "JObj [(''k'', JBytes [1, 2])]"
  have "wire_message ?m" by (simp add: wire_message_parts)
  then obtain envelope where env: "signEnvelope demo_klib demo_curve (replicate 32 0) ?m ''svc'' (demo_pair 9) (Some ''did:a'') 1000 ''n2'' = Inr envelope"
    using envelope_roundtrip [OF demo_curve_ok(1) demo_http_ok(2) demo_curve_ok(2) demo_http_ok(1,3) demo_http_ok(4) [of 9], of "replicate 32 0" ?m 1000000 1000]
    by fastforce
  let ?c = "Send (replicate 32 0) 1000 ''n2'' ?m ''svc'' (Some ''did:a'') :: unit server_call"
  have "\<exists>d i. WriteEvent 3 ''message'' d i \<in> set (serverEffects demo_klib demo_curve demo_http ?c ?s3)"
    using s3(2) env
    by (auto simp: serverEffects_def sendMessage_def truthy_str_def s3(1) demo_server_fields getOrCreateInbox_def inboxAppend_def Let_def)
  then obtain d i where w: "WriteEvent 3 ''message'' d i \<in> set (serverEffects demo_klib demo_curve demo_http ?c ?s3)" by blast
  from subscription_is_authentic [OF refl refl w] w show ?thesis by (fastforce simp: is_advert_def)
qed

end
