(* ===== verification/ServiceRunner.thy ===== *)
theory ServiceRunner
  imports AggService
begin

text \<open>
  The driver of the aggregation service: the class \<open>AggregationServiceRunner\<close> of
  \<open>packages/aggregation/src/service/service-runner.ts\<close>. Its handlers are asynchronous: at every \<open>await\<close>
  a handler is suspended and the runner can handle other messages, timers and calls before it
  goes on. A handler is therefore cut at its awaits: what runs in between is one function, what is
  suspended is a value in \<open>rn_tasks\<close> with the local variables that are used later, and \<open>Resume\<close>
  continues one of them with the outcome of what it waits for, in any order.

  The contexts of the cohorts are objects that suspended handlers keep a reference to after the
  runner has forgotten them: they are in a list (\<open>rn_runs\<close>) and referred to by position. A timer that
  is set is a flag, and an input makes it fire. What the runner emits and sends is a list of effects.
  The texts of errors and events for humans are left out. The transport has registered the actor of
  the runner; \<open>peerError\<close> is what its \<open>registerPeer\<close> throws. Listeners of events do not call the
  runner from within an event.
\<close>

section \<open>State\<close>

datatype spend_path = Optimistic | Fallback

datatype 'tx completion = Pending | Fulfilled "'tx AggregationResult" | Failed error

record 'tx RunContext =
  cx_cohortId :: string
  cx_config :: CohortConfig
  cx_completion :: "'tx completion"
  cx_finalizing :: bool
  cx_settled :: bool
  cx_committedPath :: "spend_path option"
  cx_cohortTtlTimer :: bool
  cx_phaseTimer :: bool
  cx_lastObservedPhase :: "service_phase option"
  cx_stopAdvertRepeat :: bool

text \<open>What follows the messages that a handler sends, and what a suspended handler waits for: the
  decision of a callback, or the message in flight, before the messages that are left.\<close>

datatype continuation = AfterAccept nat string | AtEnd nat | AtCaller

datatype suspension =
    OptInDecision nat string
  | FinalizeDecision nat
  | TxData nat
  | Sending "BaseMessage list" continuation

record 'tx AggregationServiceRunner =
  rn_session :: "'tx AggregationService"
  rn_did :: string
  rn_defaultConfig :: "CohortConfig option"
  rn_cohortTtlMs :: "int option"
  rn_phaseTimeoutMs :: "int option"
  rn_advertRepeatIntervalMs :: int
  rn_autoFallbackOnStall :: bool
  rn_runs :: "'tx RunContext list"
  rn_contexts :: "(string, nat) jsmap"
  rn_handlersRegistered :: bool
  rn_stopped :: bool
  rn_tasks :: "suspension list"

datatype 'tx service_event =
    CohortAdvertised string
  | OptInReceived PendingOptIn
  | ParticipantAccepted string string
  | KeygenComplete string string
  | UpdateReceived string string
  | MessageRejected string Rejection
  | DataWasDistributed string
  | ValidationReceived string string bool
  | SigningHasStarted string string
  | FallbackStarted string string
  | NonceReceived string string
  | SigningComplete "'tx AggregationResult"
  | CohortFailed string string
  | ErrorEvent error

datatype 'tx run_effect =
    Emit "'tx service_event"
  | SendMessage BaseMessage
  | PublishRepeating BaseMessage int
  | StopPublishing string
  | RegisterPeer string bytes
  | AskTxData string string "bytes option"
  | RegisterHandlers
  | UnregisterHandlers

record runner_options =
  ro_did :: string
  ro_publicKey :: bytes
  ro_config :: "CohortConfig option"
  ro_maxUpdateSizeBytes :: "int option"
  ro_cohortTtlMs :: "int option"
  ro_phaseTimeoutMs :: "int option"
  ro_advertRepeatIntervalMs :: "int option"
  ro_autoFallbackOnStall :: "bool option"

definition DEFAULT_ADVERT_REPEAT_INTERVAL_MS :: int where "DEFAULT_ADVERT_REPEAT_INTERVAL_MS = 60000"

definition newServiceRunner :: "runner_options \<Rightarrow> 'tx AggregationServiceRunner" where
  "newServiceRunner o' =
     \<lparr>rn_session = newAggregationService (ro_did o') (ro_publicKey o') (ro_maxUpdateSizeBytes o'), rn_did = ro_did o',
      rn_defaultConfig = ro_config o', rn_cohortTtlMs = ro_cohortTtlMs o', rn_phaseTimeoutMs = ro_phaseTimeoutMs o',
      rn_advertRepeatIntervalMs =
        (case ro_advertRepeatIntervalMs o' of None \<Rightarrow> DEFAULT_ADVERT_REPEAT_INTERVAL_MS | Some n \<Rightarrow> n),
      rn_autoFallbackOnStall = (ro_autoFallbackOnStall o' = Some True), rn_runs = [], rn_contexts = [],
      rn_handlersRegistered = False, rn_stopped = False, rn_tasks = []\<rparr>"

section \<open>Handlers as sequences of steps\<close>

text \<open>A step has effects and may throw; the first exception ends a sequence.\<close>

type_synonym 'tx run_outcome = "'tx AggregationServiceRunner \<times> 'tx run_effect list \<times> unit result"

definition and_then :: "'tx run_outcome \<Rightarrow> ('tx AggregationServiceRunner \<Rightarrow> 'tx run_outcome) \<Rightarrow> 'tx run_outcome" where
  "and_then out f =
     (case out of
        (r, effs, Inl e) \<Rightarrow> (r, effs, Inl e)
      | (r, effs, Inr _) \<Rightarrow> (let (r, effs', res) = f r in (r, effs @ effs', res)))"

definition perform :: "'tx run_effect list \<Rightarrow> 'tx AggregationServiceRunner \<Rightarrow> 'tx run_outcome" where
  "perform effs r = (r, effs, Inr ())"

definition on_session ::
  "('tx AggregationService \<Rightarrow> 'tx AggregationService \<times> 'a result) \<Rightarrow> ('a \<Rightarrow> 'tx AggregationServiceRunner \<Rightarrow> 'tx run_outcome)
     \<Rightarrow> 'tx AggregationServiceRunner \<Rightarrow> 'tx run_outcome" where
  "on_session f k r =
     (let (svc, res) = f (rn_session r); r = r\<lparr>rn_session := svc\<rparr>
      in case res of Inl e \<Rightarrow> (r, [], Inl e) | Inr v \<Rightarrow> k v r)"

definition on_run :: "nat \<Rightarrow> ('tx RunContext \<Rightarrow> 'tx RunContext) \<Rightarrow> 'tx AggregationServiceRunner \<Rightarrow> 'tx AggregationServiceRunner" where
  "on_run ref f r = r\<lparr>rn_runs := (rn_runs r)[ref := f (rn_runs r ! ref)]\<rparr>"

definition suspend :: "suspension \<Rightarrow> 'tx AggregationServiceRunner \<Rightarrow> 'tx AggregationServiceRunner" where
  "suspend t r = r\<lparr>rn_tasks := rn_tasks r @ [t]\<rparr>"

text \<open>Messages are sent one after the other; an empty list yields as well.\<close>

definition sendAll :: "BaseMessage list \<Rightarrow> continuation \<Rightarrow> 'tx AggregationServiceRunner \<Rightarrow> 'tx run_outcome" where
  "sendAll msgs k r =
     (case msgs of [] \<Rightarrow> (suspend (Sending [] k) r, [], Inr ()) | m # ms \<Rightarrow> (suspend (Sending ms k) r, [SendMessage m], Inr ()))"

section \<open>The contexts\<close>

definition contextFor :: "BaseMessage \<Rightarrow> 'tx AggregationServiceRunner \<Rightarrow> nat option" where
  "contextFor m r =
     (case body_str (m_body m) ''cohortId'' of
        None \<Rightarrow> None
      | Some cohortId \<Rightarrow> if cohortId = [] then None else jm_get (rn_contexts r) cohortId)"

definition resetPhaseTimer :: "nat \<Rightarrow> 'tx AggregationServiceRunner \<Rightarrow> 'tx AggregationServiceRunner" where
  "resetPhaseTimer ref r = on_run ref (\<lambda>c. c\<lparr>cx_phaseTimer := rn_phaseTimeoutMs r \<noteq> None\<rparr>) r"

definition startTimers :: "nat \<Rightarrow> 'tx AggregationServiceRunner \<Rightarrow> 'tx AggregationServiceRunner" where
  "startTimers ref r = resetPhaseTimer ref (on_run ref (\<lambda>c. c\<lparr>cx_cohortTtlTimer := rn_cohortTtlMs r \<noteq> None\<rparr>) r)"

definition onPhaseMaybeChanged :: "nat \<Rightarrow> 'tx AggregationServiceRunner \<Rightarrow> 'tx AggregationServiceRunner" where
  "onPhaseMaybeChanged ref r =
     (let c = rn_runs r ! ref; phase = getCohortPhase (cx_cohortId c) (rn_session r)
      in if phase \<noteq> cx_lastObservedPhase c
         then resetPhaseTimer ref (on_run ref (\<lambda>c. c\<lparr>cx_lastObservedPhase := phase\<rparr>) r) else r)"

definition stopAdvertRepeating :: "nat \<Rightarrow> 'tx AggregationServiceRunner \<Rightarrow> 'tx AggregationServiceRunner \<times> 'tx run_effect list" where
  "stopAdvertRepeating ref r =
     (let c = rn_runs r ! ref
      in if cx_stopAdvertRepeat c
         then (on_run ref (\<lambda>c. c\<lparr>cx_stopAdvertRepeat := False\<rparr>) r, [StopPublishing (cx_cohortId c)]) else (r, []))"

definition clearTimers :: "nat \<Rightarrow> 'tx AggregationServiceRunner \<Rightarrow> 'tx AggregationServiceRunner" where
  "clearTimers ref = on_run ref (\<lambda>c. c\<lparr>cx_cohortTtlTimer := False, cx_phaseTimer := False\<rparr>)"

definition disposeCohort :: "nat \<Rightarrow> 'tx AggregationServiceRunner \<Rightarrow> 'tx AggregationServiceRunner \<times> 'tx run_effect list" where
  "disposeCohort ref r =
     (let (r, effs) = stopAdvertRepeating ref r; r = clearTimers ref r
      in (r\<lparr>rn_contexts := jm_delete (cx_cohortId (rn_runs r ! ref)) (rn_contexts r)\<rparr>, effs))"

text \<open>A context is settled once: with the result, or with an error, and then the service forgets the
  cohort too.\<close>

definition completeCohort :: "nat \<Rightarrow> 'tx AggregationResult \<Rightarrow> 'tx AggregationServiceRunner \<Rightarrow> 'tx AggregationServiceRunner \<times> 'tx run_effect list" where
  "completeCohort ref result r =
     (if cx_settled (rn_runs r ! ref) then (r, [])
      else
        let r = on_run ref (\<lambda>c. c\<lparr>cx_settled := True\<rparr>) r;
            (r, effs) = disposeCohort ref r
        in (on_run ref (\<lambda>c. c\<lparr>cx_completion := Fulfilled result\<rparr>) r, effs @ [Emit (SigningComplete result)]))"

definition dropCohort :: "nat \<Rightarrow> error \<Rightarrow> 'tx AggregationServiceRunner \<Rightarrow> 'tx AggregationServiceRunner \<times> 'tx run_effect list" where
  "dropCohort ref err r =
     (let r = on_run ref (\<lambda>c. c\<lparr>cx_settled := True\<rparr>) r;
          (r, effs) = disposeCohort ref r;
          r = r\<lparr>rn_session := removeCohort (cx_cohortId (rn_runs r ! ref)) (rn_session r)\<rparr>
      in (on_run ref (\<lambda>c. c\<lparr>cx_completion := Failed err\<rparr>) r, effs))"

definition failCohort :: "nat \<Rightarrow> error \<Rightarrow> 'tx AggregationServiceRunner \<Rightarrow> 'tx AggregationServiceRunner \<times> 'tx run_effect list" where
  "failCohort ref err r =
     (if cx_settled (rn_runs r ! ref) then (r, [])
      else let (r, effs) = dropCohort ref err r in (r, effs @ [Emit (ErrorEvent err)]))"

definition stopCohort :: "string \<Rightarrow> 'tx AggregationServiceRunner \<Rightarrow> 'tx AggregationServiceRunner \<times> 'tx run_effect list" where
  "stopCohort cohortId r =
     (case jm_get (rn_contexts r) cohortId of
        None \<Rightarrow> (r, [])
      | Some ref \<Rightarrow> if cx_settled (rn_runs r ! ref) then (r, [])
                   else dropCohort ref (Error ''AggregationServiceError'' ''COHORT_STOPPED'') r)"

fun stopAll :: "nat list \<Rightarrow> 'tx AggregationServiceRunner \<Rightarrow> 'tx AggregationServiceRunner \<times> 'tx run_effect list" where
  "stopAll [] r = (r, [])"
| "stopAll (ref # refs) r =
     (let (r, effs) = (if cx_settled (rn_runs r ! ref) then (r, [])
                       else dropCohort ref (Error ''AggregationServiceError'' ''RUNNER_STOPPED'') r);
          (r, effs') = stopAll refs r
      in (r, effs @ effs'))"

definition unregisterHandlers :: "'tx AggregationServiceRunner \<Rightarrow> 'tx AggregationServiceRunner \<times> 'tx run_effect list" where
  "unregisterHandlers r =
     (if \<not> rn_handlersRegistered r then (r, []) else (r\<lparr>rn_handlersRegistered := False\<rparr>, [UnregisterHandlers]))"

definition stopRunner :: "'tx AggregationServiceRunner \<Rightarrow> 'tx AggregationServiceRunner \<times> 'tx run_effect list" where
  "stopRunner r =
     (let (r, effs) = stopAll (map snd (rn_contexts r)) (r\<lparr>rn_stopped := True\<rparr>);
          (r, effs') = unregisterHandlers (r\<lparr>rn_contexts := []\<rparr>)
      in (r, effs @ effs'))"

text \<open>A handler catches what is thrown in it: the cohort fails.\<close>

definition guarded :: "nat \<Rightarrow> 'tx run_outcome \<Rightarrow> 'tx AggregationServiceRunner \<times> 'tx run_effect list" where
  "guarded ref out =
     (case out of
        (r, effs, Inr _) \<Rightarrow> (r, effs)
      | (r, effs, Inl e) \<Rightarrow> let (r, effs') = failCohort ref e r in (r, effs @ effs'))"

section \<open>Advertising\<close>

definition registerHandlers :: "'tx AggregationServiceRunner \<Rightarrow> 'tx AggregationServiceRunner \<times> 'tx run_effect list" where
  "registerHandlers r =
     (if rn_handlersRegistered r then (r, []) else (r\<lparr>rn_handlersRegistered := True\<rparr>, [RegisterHandlers]))"

definition newRun :: "string \<Rightarrow> CohortConfig \<Rightarrow> 'tx RunContext" where
  "newRun cohortId config =
     \<lparr>cx_cohortId = cohortId, cx_config = config, cx_completion = Pending, cx_finalizing = False, cx_settled = False,
      cx_committedPath = None, cx_cohortTtlTimer = False, cx_phaseTimer = False, cx_lastObservedPhase = None,
      cx_stopAdvertRepeat = False\<rparr>"

definition publishAdverts :: "nat \<Rightarrow> BaseMessage list \<Rightarrow> 'tx AggregationServiceRunner \<Rightarrow> 'tx run_outcome" where
  "publishAdverts ref msgs r =
     (if 0 < rn_advertRepeatIntervalMs r
      then (on_run ref (\<lambda>c. c\<lparr>cx_stopAdvertRepeat := True\<rparr>) r,
            map (\<lambda>m. PublishRepeating m (rn_advertRepeatIntervalMs r)) msgs, Inr ())
      else sendAll msgs (AtEnd ref) r)"

definition advertiseRun :: "nat \<Rightarrow> string \<Rightarrow> 'tx AggregationServiceRunner \<Rightarrow> 'tx AggregationServiceRunner \<times> 'tx run_effect list" where
  "advertiseRun ref cohortId r =
     guarded ref (on_session (advertise cohortId) (\<lambda>msgs r.
       and_then (perform [Emit (CohortAdvertised cohortId)] (onPhaseMaybeChanged ref r)) (publishAdverts ref msgs))
       (startTimers ref r))"

definition advertiseCohort ::
  "('tx, 'x) agg_lib_scheme \<Rightarrow> string \<Rightarrow> CohortConfig \<Rightarrow> 'tx AggregationServiceRunner
     \<Rightarrow> 'tx AggregationServiceRunner \<times> 'tx run_effect list \<times> nat result" where
  "advertiseCohort L uuid config r =
     (if rn_stopped r then (r, [], service_error ''RUNNER_STOPPED'')
      else
        let (r, effs) = registerHandlers r;
            (svc, res) = createCohort L uuid config (rn_session r);
            r = r\<lparr>rn_session := svc\<rparr>
        in (case res of
              Inl e \<Rightarrow> (r, effs, Inl e)
            | Inr cohortId \<Rightarrow>
                let ref = length (rn_runs r);
                    r = r\<lparr>rn_runs := rn_runs r @ [newRun cohortId config], rn_contexts := jm_set cohortId ref (rn_contexts r)\<rparr>;
                    (r, effs') = advertiseRun ref cohortId r
                in (r, effs @ effs', Inr ref)))"

definition runDefault ::
  "('tx, 'x) agg_lib_scheme \<Rightarrow> string \<Rightarrow> 'tx AggregationServiceRunner
     \<Rightarrow> 'tx AggregationServiceRunner \<times> 'tx run_effect list \<times> nat result" where
  "runDefault L uuid r =
     (case rn_defaultConfig r of
        None \<Rightarrow> (r, [], service_error ''MISSING_COHORT_CONFIG'')
      | Some config \<Rightarrow> advertiseCohort L uuid config r)"

text \<open>\<open>runAll\<close> waits until no context is left and collects the results that are emitted meanwhile.\<close>

definition runAllDone :: "'tx AggregationServiceRunner \<Rightarrow> bool" where
  "runAllDone r \<longleftrightarrow> rn_contexts r = []"

fun runAllResults :: "'tx run_effect list \<Rightarrow> (string, 'tx AggregationResult) jsmap \<Rightarrow> 'tx AggregationResult list" where
  "runAllResults [] collected = map snd collected"
| "runAllResults (e # effs) collected =
     runAllResults effs (case e of Emit (SigningComplete res) \<Rightarrow> jm_set (ar_cohortId res) res collected | _ \<Rightarrow> collected)"

section \<open>Falling back\<close>

text \<open>The latch is set only when the state machine has taken the transition, and before the first
  message is sent.\<close>

definition triggerFallback ::
  "('tx, 'x) agg_lib_scheme \<Rightarrow> string \<Rightarrow> continuation \<Rightarrow> 'tx AggregationServiceRunner \<Rightarrow> 'tx run_outcome" where
  "triggerFallback L cohortId k r =
     (case jm_get (rn_contexts r) cohortId of
        None \<Rightarrow> perform [] r
      | Some ref \<Rightarrow>
          if cx_settled (rn_runs r ! ref) \<or> cx_committedPath (rn_runs r ! ref) \<noteq> None then perform [] r
          else on_session (startFallbackSigning L cohortId) (\<lambda>messages r.
            let r = on_run ref (\<lambda>c. c\<lparr>cx_committedPath := Some Fallback\<rparr>) r;
                (r, effs) = stopAdvertRepeating ref r;
                r = onPhaseMaybeChanged ref r;
                sessionId = (case getSigningSessionId cohortId (rn_session r) of None \<Rightarrow> [] | Some s \<Rightarrow> s)
            in and_then (perform (effs @ [Emit (FallbackStarted cohortId sessionId)]) r) (sendAll messages k)) r)"

definition SIGNING_PHASES :: "service_phase list" where
  "SIGNING_PHASES = [SigningStarted, NoncesCollected, AwaitingPartialSigs]"

definition phaseTimeout ::
  "('tx, 'x) agg_lib_scheme \<Rightarrow> nat \<Rightarrow> 'tx AggregationServiceRunner \<Rightarrow> 'tx AggregationServiceRunner \<times> 'tx run_effect list" where
  "phaseTimeout L ref r =
     (let c = rn_runs r ! ref; r = on_run ref (\<lambda>c. c\<lparr>cx_phaseTimer := False\<rparr>) r;
          phase = getCohortPhase (cx_cohortId c) (rn_session r);
          inSigning = (case phase of None \<Rightarrow> False | Some p \<Rightarrow> p \<in> set SIGNING_PHASES)
      in if rn_autoFallbackOnStall r \<and> inSigning \<and> cx_committedPath c = None \<and> \<not> cx_settled c
         then guarded ref (triggerFallback L (cx_cohortId c) (AtEnd ref) r)
         else let (r, effs) = failCohort ref (Error ''AggregationCohortError'' ''COHORT_PHASE_STALLED'') r
              in (r, Emit (CohortFailed (cx_cohortId c) ''COHORT_PHASE_STALLED'') # effs))"

definition cohortTtl :: "nat \<Rightarrow> 'tx AggregationServiceRunner \<Rightarrow> 'tx AggregationServiceRunner \<times> 'tx run_effect list" where
  "cohortTtl ref r =
     (let cohortId = cx_cohortId (rn_runs r ! ref);
          (r, effs) = failCohort ref (Error ''AggregationCohortError'' ''COHORT_TTL_EXCEEDED'') r
      in (r, Emit (CohortFailed cohortId ''COHORT_TTL_EXCEEDED'') # effs))"

section \<open>Handlers of messages\<close>

text \<open>What every handler does first: the message goes into the state machine, its rejections are
  reported, and a change of the phase resets the timer.\<close>

definition drainRejectionsOf :: "nat \<Rightarrow> 'tx AggregationServiceRunner \<Rightarrow> 'tx run_outcome" where
  "drainRejectionsOf ref r =
     (let cohortId = cx_cohortId (rn_runs r ! ref); (svc, rejections) = drainRejections cohortId (rn_session r)
      in perform (map (\<lambda>j. Emit (MessageRejected cohortId j)) rejections) (r\<lparr>rn_session := svc\<rparr>))"

definition receiveFor ::
  "('tx, 'x) agg_lib_scheme \<Rightarrow> nat \<Rightarrow> BaseMessage \<Rightarrow> 'tx AggregationServiceRunner \<Rightarrow> 'tx run_outcome" where
  "receiveFor L ref m r =
     on_session (serviceReceive L m) (\<lambda>_ r.
       and_then (drainRejectionsOf ref r) (\<lambda>r. perform [] (onPhaseMaybeChanged ref r))) r"

definition handleOptInMessage ::
  "('tx, 'x) agg_lib_scheme \<Rightarrow> (string \<Rightarrow> bytes \<Rightarrow> error option) \<Rightarrow> nat \<Rightarrow> BaseMessage \<Rightarrow> 'tx AggregationServiceRunner \<Rightarrow> 'tx run_outcome" where
  "handleOptInMessage L peerError ref m r =
     and_then (receiveFor L ref m r) (\<lambda>r.
       case jm_get (pendingOptIns (cx_cohortId (rn_runs r ! ref)) (rn_session r)) (m_from m) of
         None \<Rightarrow> perform [] r
       | Some optIn \<Rightarrow>
           and_then (perform [Emit (OptInReceived optIn)] r) (\<lambda>r.
             case peerError (m_from m) (po_communicationPk optIn) of
               Some e \<Rightarrow> (r, [], Inl e)
             | None \<Rightarrow> perform [RegisterPeer (m_from m) (po_communicationPk optIn)] (suspend (OptInDecision ref (m_from m)) r)))"

definition acceptOptIn ::
  "('tx, 'x) agg_lib_scheme \<Rightarrow> nat \<Rightarrow> string \<Rightarrow> bool \<Rightarrow> 'tx AggregationServiceRunner \<Rightarrow> 'tx run_outcome" where
  "acceptOptIn L ref did accepted r =
     (let c = rn_runs r ! ref; maxParticipants = co_maxParticipants (cx_config c)
      in if \<not> accepted then perform [] r
         else if maxParticipants \<noteq> JUndef \<and>
                 (case getCohort (cx_cohortId c) (rn_session r) of
                    None \<Rightarrow> False | Some ch \<Rightarrow> int_of maxParticipants \<le> int (length (ch_participants ch)))
         then perform [] r
         else on_session (acceptParticipant L (cx_cohortId c) did) (\<lambda>msgs. sendAll msgs (AfterAccept ref did)) r)"

definition afterAccept :: "nat \<Rightarrow> string \<Rightarrow> 'tx AggregationServiceRunner \<Rightarrow> 'tx run_outcome" where
  "afterAccept ref did r =
     (let c = rn_runs r ! ref
      in and_then (perform [Emit (ParticipantAccepted (cx_cohortId c) did)] r) (\<lambda>r.
           case getCohort (cx_cohortId c) (rn_session r) of
             None \<Rightarrow> (r, [], type_error)
           | Some ch \<Rightarrow>
               if int_of (co_minParticipants (cx_config c)) \<le> int (length (ch_participants ch)) \<and> \<not> cx_finalizing c
               then perform [] (suspend (FinalizeDecision ref) (on_run ref (\<lambda>c. c\<lparr>cx_finalizing := True\<rparr>) r))
               else perform [] r))"

definition finalizeRun ::
  "('tx, 'x) agg_lib_scheme \<Rightarrow> nat \<Rightarrow> bool \<Rightarrow> 'tx AggregationServiceRunner \<Rightarrow> 'tx run_outcome" where
  "finalizeRun L ref finalize r =
     (let cohortId = cx_cohortId (rn_runs r ! ref)
      in if \<not> finalize then perform [] (on_run ref (\<lambda>c. c\<lparr>cx_finalizing := False\<rparr>) r)
         else on_session (finalizeKeygen L cohortId) (\<lambda>readyMsgs r.
           let (r, effs) = stopAdvertRepeating ref r;
               address = (case getCohort cohortId (rn_session r) of None \<Rightarrow> [] | Some ch \<Rightarrow> ch_beaconAddress ch)
           in and_then (perform (effs @ [Emit (KeygenComplete cohortId address)]) r) (sendAll readyMsgs (AtEnd ref))) r)"

definition handleUpdateMessage ::
  "('tx, 'x) agg_lib_scheme \<Rightarrow> (nat \<Rightarrow> bytes) \<Rightarrow> nat \<Rightarrow> BaseMessage \<Rightarrow> 'tx AggregationServiceRunner \<Rightarrow> 'tx run_outcome" where
  "handleUpdateMessage L nonce ref m r =
     (let cohortId = cx_cohortId (rn_runs r ! ref)
      in and_then (receiveFor L ref m r) (\<lambda>r.
         and_then (perform [Emit (UpdateReceived cohortId (m_from m))] r) (\<lambda>r.
           if getCohortPhase cohortId (rn_session r) = Some UpdatesCollected
           then on_session (buildAndDistribute L nonce cohortId) (\<lambda>msgs r.
                  and_then (perform [Emit (DataWasDistributed cohortId)] r) (sendAll msgs (AtEnd ref))) r
           else perform [] r)))"

definition handleAckMessage ::
  "('tx, 'x) agg_lib_scheme \<Rightarrow> nat \<Rightarrow> BaseMessage \<Rightarrow> 'tx AggregationServiceRunner \<Rightarrow> 'tx run_outcome" where
  "handleAckMessage L ref m r =
     (let cohortId = cx_cohortId (rn_runs r ! ref)
      in and_then (receiveFor L ref m r) (\<lambda>r.
         and_then (perform [Emit (ValidationReceived cohortId (m_from m) (truthy (js_prop_opt (m_body m) ''approved'')))] r) (\<lambda>r.
           if getCohortPhase cohortId (rn_session r) = Some ServiceFailed
           then let (r, effs) = failCohort ref (Error ''AggregationCohortError'' ''VALIDATION_REJECTED'') r
                in perform (Emit (CohortFailed cohortId ''VALIDATION_REJECTED'') # effs) r
           else if getCohortPhase cohortId (rn_session r) = Some Validated
           then case getCohort cohortId (rn_session r) of
                  None \<Rightarrow> (r, [], type_error)
                | Some ch \<Rightarrow> perform [AskTxData cohortId (ch_beaconAddress ch) (ch_signalBytes ch)] (suspend (TxData ref) r)
           else perform [] r)))"

definition startSigningRun ::
  "('tx, 'x) agg_lib_scheme \<Rightarrow> nat \<Rightarrow> string \<Rightarrow> 'tx SigningTxData \<Rightarrow> 'tx AggregationServiceRunner \<Rightarrow> 'tx run_outcome" where
  "startSigningRun L ref uuid txData r =
     (let cohortId = cx_cohortId (rn_runs r ! ref)
      in on_session (startSigning L uuid cohortId txData) (\<lambda>authMsgs r.
           let sessionId = (case getSigningSessionId cohortId (rn_session r) of None \<Rightarrow> [] | Some s \<Rightarrow> s)
           in and_then (perform [Emit (SigningHasStarted cohortId sessionId)] r) (sendAll authMsgs (AtEnd ref))) r)"

definition handleNonceMessage ::
  "('tx, 'x) agg_lib_scheme \<Rightarrow> nat \<Rightarrow> BaseMessage \<Rightarrow> 'tx AggregationServiceRunner \<Rightarrow> 'tx run_outcome" where
  "handleNonceMessage L ref m r =
     (let cohortId = cx_cohortId (rn_runs r ! ref)
      in and_then (receiveFor L ref m r) (\<lambda>r.
         and_then (perform [Emit (NonceReceived cohortId (m_from m))] r) (\<lambda>r.
           if getCohortPhase cohortId (rn_session r) = Some NoncesCollected
           then on_session (sendAggregatedNonce L cohortId) (\<lambda>msgs. sendAll msgs (AtEnd ref)) r
           else perform [] r)))"

definition handleSignatureMessage ::
  "('tx, 'x) agg_lib_scheme \<Rightarrow> nat \<Rightarrow> BaseMessage \<Rightarrow> 'tx AggregationServiceRunner \<Rightarrow> 'tx run_outcome" where
  "handleSignatureMessage L ref m r =
     and_then (receiveFor L ref m r) (\<lambda>r.
       if cx_committedPath (rn_runs r ! ref) = Some Fallback then perform [] r
       else case getResult (cx_cohortId (rn_runs r ! ref)) (rn_session r) of
         None \<Rightarrow> perform [] r
       | Some result \<Rightarrow>
           (let (r, effs) = completeCohort ref result (on_run ref (\<lambda>c. c\<lparr>cx_committedPath := Some Optimistic\<rparr>) r)
            in perform effs r))"

definition handleFallbackMessage ::
  "('tx, 'x) agg_lib_scheme \<Rightarrow> nat \<Rightarrow> BaseMessage \<Rightarrow> 'tx AggregationServiceRunner \<Rightarrow> 'tx run_outcome" where
  "handleFallbackMessage L ref m r =
     and_then (receiveFor L ref m r) (\<lambda>r.
       case getResult (cx_cohortId (rn_runs r ! ref)) (rn_session r) of
         None \<Rightarrow> perform [] r
       | Some result \<Rightarrow> (let (r, effs) = completeCohort ref result r in perform effs r))"

definition messageStep ::
  "('tx, 'x) agg_lib_scheme \<Rightarrow> (string \<Rightarrow> bytes \<Rightarrow> error option) \<Rightarrow> (nat \<Rightarrow> bytes) \<Rightarrow> nat \<Rightarrow> BaseMessage \<Rightarrow> 'tx AggregationServiceRunner \<Rightarrow> 'tx run_outcome" where
  "messageStep L peerError nonce ref m r =
     (if m_type m = COHORT_OPT_IN then handleOptInMessage L peerError ref m r
      else if m_type m = SUBMIT_UPDATE \<or> m_type m = SUBMIT_NONINCLUDED then handleUpdateMessage L nonce ref m r
      else if m_type m = VALIDATION_ACK then handleAckMessage L ref m r
      else if m_type m = NONCE_CONTRIBUTION then handleNonceMessage L ref m r
      else if m_type m = SIGNATURE_AUTHORIZATION then handleSignatureMessage L ref m r
      else if m_type m = FALLBACK_SIGNATURE then handleFallbackMessage L ref m r
      else perform [] r)"

definition dispatchMessage ::
  "('tx, 'x) agg_lib_scheme \<Rightarrow> (string \<Rightarrow> bytes \<Rightarrow> error option) \<Rightarrow> (nat \<Rightarrow> bytes) \<Rightarrow> BaseMessage
     \<Rightarrow> 'tx AggregationServiceRunner \<Rightarrow> 'tx AggregationServiceRunner \<times> 'tx run_effect list" where
  "dispatchMessage L peerError nonce m r =
     (if \<not> rn_handlersRegistered r \<or> rn_stopped r then (r, [])
      else case contextFor m r of
        None \<Rightarrow> (r, [])
      | Some ref \<Rightarrow> guarded ref (messageStep L peerError nonce ref m r))"

section \<open>Suspended handlers\<close>

datatype 'tx reply = Refused error | Accepted bool | Finalize bool | TxDataReply string "'tx SigningTxData" | Sent

fun continue :: "continuation \<Rightarrow> 'tx AggregationServiceRunner \<Rightarrow> 'tx run_outcome" where
  "continue (AfterAccept ref did) r = afterAccept ref did r"
| "continue (AtEnd ref) r = perform [] r"
| "continue AtCaller r = perform [] r"

text \<open>What an exception at an \<open>await\<close> leads to: the failure of the cohort, or a rejected promise for
  the caller of \<open>triggerFallback\<close>.\<close>

fun guard_of :: "continuation \<Rightarrow> 'tx run_outcome \<Rightarrow> 'tx AggregationServiceRunner \<times> 'tx run_effect list" where
  "guard_of (AfterAccept ref did) out = guarded ref out"
| "guard_of (AtEnd ref) out = guarded ref out"
| "guard_of AtCaller (r, effs, res) = (r, effs)"

fun resumeTask ::
  "('tx, 'x) agg_lib_scheme \<Rightarrow> suspension \<Rightarrow> 'tx reply \<Rightarrow> 'tx AggregationServiceRunner
     \<Rightarrow> ('tx AggregationServiceRunner \<times> 'tx run_effect list) option" where
  "resumeTask L (OptInDecision ref did) (Accepted accepted) r = Some (guarded ref (acceptOptIn L ref did accepted r))"
| "resumeTask L (FinalizeDecision ref) (Finalize finalize) r = Some (guarded ref (finalizeRun L ref finalize r))"
| "resumeTask L (TxData ref) (TxDataReply uuid txData) r = Some (guarded ref (startSigningRun L ref uuid txData r))"
| "resumeTask L (Sending ms k) Sent r = Some (guard_of k (case ms of [] \<Rightarrow> continue k r | _ \<Rightarrow> sendAll ms k r))"
| "resumeTask L (OptInDecision ref did) (Refused e) r = Some (guarded ref (r, [], Inl e))"
| "resumeTask L (FinalizeDecision ref) (Refused e) r = Some (guarded ref (r, [], Inl e))"
| "resumeTask L (TxData ref) (Refused e) r = Some (guarded ref (r, [], Inl e))"
| "resumeTask L (Sending ms k) (Refused e) r = Some (guard_of k (r, [], Inl e))"
| "resumeTask L t reply r = None"

definition resume ::
  "('tx, 'x) agg_lib_scheme \<Rightarrow> nat \<Rightarrow> 'tx reply \<Rightarrow> 'tx AggregationServiceRunner \<Rightarrow> 'tx AggregationServiceRunner \<times> 'tx run_effect list" where
  "resume L i reply r =
     (if length (rn_tasks r) \<le> i then (r, [])
      else case resumeTask L (rn_tasks r ! i) reply (r\<lparr>rn_tasks := take i (rn_tasks r) @ drop (Suc i) (rn_tasks r)\<rparr>) of
        None \<Rightarrow> (r, [])
      | Some out \<Rightarrow> out)"

section \<open>Runs\<close>

text \<open>Whatever can happen to a runner next. A timer that is not set does not fire.\<close>

datatype 'tx runner_input =
    AdvertiseCohort string CohortConfig
  | RunDefault string
  | TransportMessage "nat \<Rightarrow> bytes" BaseMessage
  | Resume nat "'tx reply"
  | CohortTtl nat
  | PhaseTimeout nat
  | TriggerFallback string
  | StopCohort string
  | StopRunner

fun runnerStep ::
  "('tx, 'x) agg_lib_scheme \<Rightarrow> (string \<Rightarrow> bytes \<Rightarrow> error option) \<Rightarrow> 'tx runner_input
     \<Rightarrow> 'tx AggregationServiceRunner \<Rightarrow> 'tx AggregationServiceRunner \<times> 'tx run_effect list" where
  "runnerStep L peerError (AdvertiseCohort uuid config) r = (let (r, effs, _) = advertiseCohort L uuid config r in (r, effs))"
| "runnerStep L peerError (RunDefault uuid) r = (let (r, effs, _) = runDefault L uuid r in (r, effs))"
| "runnerStep L peerError (TransportMessage nonce m) r = dispatchMessage L peerError nonce m r"
| "runnerStep L peerError (Resume i reply) r = resume L i reply r"
| "runnerStep L peerError (CohortTtl ref) r =
     (if ref < length (rn_runs r) \<and> cx_cohortTtlTimer (rn_runs r ! ref) then cohortTtl ref r else (r, []))"
| "runnerStep L peerError (PhaseTimeout ref) r =
     (if ref < length (rn_runs r) \<and> cx_phaseTimer (rn_runs r ! ref) then phaseTimeout L ref r else (r, []))"
| "runnerStep L peerError (TriggerFallback cohortId) r = guard_of AtCaller (triggerFallback L cohortId AtCaller r)"
| "runnerStep L peerError (StopCohort cohortId) r = stopCohort cohortId r"
| "runnerStep L peerError StopRunner r = stopRunner r"

fun runnerSteps ::
  "('tx, 'x) agg_lib_scheme \<Rightarrow> (string \<Rightarrow> bytes \<Rightarrow> error option) \<Rightarrow> 'tx runner_input list
     \<Rightarrow> 'tx AggregationServiceRunner \<Rightarrow> 'tx AggregationServiceRunner \<times> 'tx run_effect list" where
  "runnerSteps L peerError [] r = (r, [])"
| "runnerSteps L peerError (i # is') r =
     (let (r, effs) = runnerStep L peerError i r; (r, effs') = runnerSteps L peerError is' r in (r, effs @ effs'))"

end
