(* ===== verification/RunnerFrame.thy ===== *)
theory RunnerFrame
  imports AggServiceClaims ServiceRunner
begin

text \<open>
  What a step of the service runner can touch: a handler, a timer or a resumed task works on one
  context and one cohort (\<open>own_step\<close>), settles that context at most once and keeps the path it has
  committed to, and calls only methods of the service. The rules follow the combinators that the
  handlers are made of.
\<close>

section \<open>Contexts\<close>

lemma on_run_simps [simp]:
  "rn_session (on_run ref f r) = rn_session r" "rn_contexts (on_run ref f r) = rn_contexts r"
  "rn_tasks (on_run ref f r) = rn_tasks r" "rn_stopped (on_run ref f r) = rn_stopped r"
  "rn_handlersRegistered (on_run ref f r) = rn_handlersRegistered r" "length (rn_runs (on_run ref f r)) = length (rn_runs r)"
  "rn_did (on_run ref f r) = rn_did r" "rn_advertRepeatIntervalMs (on_run ref f r) = rn_advertRepeatIntervalMs r"
  "rn_phaseTimeoutMs (on_run ref f r) = rn_phaseTimeoutMs r" "rn_cohortTtlMs (on_run ref f r) = rn_cohortTtlMs r"
  "rn_autoFallbackOnStall (on_run ref f r) = rn_autoFallbackOnStall r" "rn_defaultConfig (on_run ref f r) = rn_defaultConfig r"
  by (simp_all add: on_run_def)

lemma on_run_nth [simp]: "i < length (rn_runs r) \<Longrightarrow> rn_runs (on_run ref f r) ! i = (if i = ref then f (rn_runs r ! i) else rn_runs r ! i)"
  by (simp add: on_run_def nth_list_update)

text \<open>How a context can change.\<close>

definition run_le :: "'tx RunContext \<Rightarrow> 'tx RunContext \<Rightarrow> bool" where
  "run_le c c' \<longleftrightarrow> cx_cohortId c' = cx_cohortId c \<and> cx_config c' = cx_config c \<and>
     (cx_settled c \<longrightarrow> cx_settled c' \<and> cx_completion c' = cx_completion c) \<and>
     (cx_committedPath c \<noteq> None \<longrightarrow> cx_committedPath c' = cx_committedPath c) \<and>
     (\<not> cx_settled c' \<longrightarrow> cx_cohortTtlTimer c' = cx_cohortTtlTimer c)"

lemma run_le_refl [simp]: "run_le c c" and run_le_trans: "run_le c c' \<Longrightarrow> run_le c' c'' \<Longrightarrow> run_le c c''"
  by (auto simp: run_le_def)

fun task_ref :: "suspension \<Rightarrow> nat option" where
  "task_ref (OptInDecision ref did) = Some ref"
| "task_ref (FinalizeDecision ref) = Some ref"
| "task_ref (TxData ref) = Some ref"
| "task_ref (Sending ms (AfterAccept ref did)) = Some ref"
| "task_ref (Sending ms (AtEnd ref)) = Some ref"
| "task_ref (Sending ms AtCaller) = None"

definition at :: "nat \<Rightarrow> string \<Rightarrow> 'tx AggregationServiceRunner \<Rightarrow> bool" where
  "at ref cid r \<longleftrightarrow> ref < length (rn_runs r) \<and> cx_cohortId (rn_runs r ! ref) = cid"

text \<open>A step that works on one context: with its effects, from one state of the runner to another.\<close>

definition own_step ::
  "('tx, 'x) agg_lib_scheme \<Rightarrow> nat \<Rightarrow> string \<Rightarrow> 'tx AggregationServiceRunner \<Rightarrow> 'tx run_effect list \<Rightarrow> 'tx AggregationServiceRunner \<Rightarrow> bool" where
  "own_step L ref cid r effs r' \<longleftrightarrow>
     length (rn_runs r') = length (rn_runs r) \<and> (\<forall>i < length (rn_runs r). i \<noteq> ref \<longrightarrow> rn_runs r' ! i = rn_runs r ! i) \<and>
     run_le (rn_runs r ! ref) (rn_runs r' ! ref) \<and>
     (\<forall>d. d \<noteq> cid \<longrightarrow> jm_get (rn_contexts r') d = jm_get (rn_contexts r) d) \<and>
     (jm_get (rn_contexts r') cid = jm_get (rn_contexts r) cid \<or> jm_get (rn_contexts r') cid = None) \<and>
     (\<forall>d. d \<noteq> cid \<longrightarrow> jm_get (as_cohortStates (rn_session r')) d = jm_get (as_cohortStates (rn_session r)) d) \<and>
     rn_stopped r' = rn_stopped r \<and> rn_handlersRegistered r' = rn_handlersRegistered r \<and>
     set (rn_tasks r') \<subseteq> set (rn_tasks r) \<union> {t. task_ref t = None \<or> task_ref t = Some ref} \<and>
     (service_reach L (rn_session r) \<longrightarrow> service_reach L (rn_session r')) \<and>
     (\<forall>d sid. Emit (FallbackStarted d sid) \<in> set effs \<longrightarrow> d = cid \<and> cx_committedPath (rn_runs r' ! ref) = Some Fallback) \<and>
     (\<forall>res. Emit (SigningComplete res) \<in> set effs \<longrightarrow> cx_settled (rn_runs r' ! ref) \<and> cx_completion (rn_runs r' ! ref) = Fulfilled res) \<and>
     set (rn_contexts r') \<subseteq> set (rn_contexts r) \<and> rn_cohortTtlMs r' = rn_cohortTtlMs r"

lemma own_at: "own_step L ref cid r effs r' \<Longrightarrow> at ref d r \<Longrightarrow> at ref d r'"
  by (auto simp: own_step_def at_def run_le_def)

definition silent :: "'tx run_effect list \<Rightarrow> bool" where
  "silent effs \<longleftrightarrow> (\<forall>d sid. Emit (FallbackStarted d sid) \<notin> set effs) \<and> (\<forall>res. Emit (SigningComplete res) \<notin> set effs)"

lemma own_refl: "silent effs \<Longrightarrow> own_step L ref cid r effs r"
  by (auto simp: own_step_def silent_def)

lemma own_stepD:
  assumes "own_step L ref cid r effs r'"
  shows "length (rn_runs r') = length (rn_runs r)" "i < length (rn_runs r) \<Longrightarrow> i \<noteq> ref \<Longrightarrow> rn_runs r' ! i = rn_runs r ! i"
    "run_le (rn_runs r ! ref) (rn_runs r' ! ref)"
    "d \<noteq> cid \<Longrightarrow> jm_get (rn_contexts r') d = jm_get (rn_contexts r) d"
    "jm_get (rn_contexts r') cid = jm_get (rn_contexts r) cid \<or> jm_get (rn_contexts r') cid = None"
    "d \<noteq> cid \<Longrightarrow> jm_get (as_cohortStates (rn_session r')) d = jm_get (as_cohortStates (rn_session r)) d"
    "rn_stopped r' = rn_stopped r" "rn_handlersRegistered r' = rn_handlersRegistered r"
    "t \<in> set (rn_tasks r') \<Longrightarrow> t \<in> set (rn_tasks r) \<or> task_ref t = None \<or> task_ref t = Some ref"
    "service_reach L (rn_session r) \<Longrightarrow> service_reach L (rn_session r')"
    "Emit (FallbackStarted e sid) \<in> set effs \<Longrightarrow> e = cid" 
    "Emit (FallbackStarted e sid) \<in> set effs \<Longrightarrow> cx_committedPath (rn_runs r' ! ref) = Some Fallback"
    "Emit (SigningComplete res) \<in> set effs \<Longrightarrow> cx_settled (rn_runs r' ! ref) \<and> cx_completion (rn_runs r' ! ref) = Fulfilled res"
    "x \<in> set (rn_contexts r') \<Longrightarrow> x \<in> set (rn_contexts r)" "rn_cohortTtlMs r' = rn_cohortTtlMs r"
  using assms unfolding own_step_def by (elim conjE; (simp; fail | drule subsetD, assumption, simp; fail | blast))+

lemma own_trans:
  assumes "own_step L ref cid r effs r'" "own_step L ref cid r' effs' r''"
  shows "own_step L ref cid r (effs @ effs') r''"
proof -
  note a = own_stepD [OF assms(1)] and b = own_stepD [OF assms(2)]
  have le: "run_le (rn_runs r ! ref) (rn_runs r'' ! ref)" using a(3) b(3) by (rule run_le_trans)
  have tasks: "set (rn_tasks r'') \<subseteq> set (rn_tasks r) \<union> {t. task_ref t = None \<or> task_ref t = Some ref}"
    using a(9) b(9) by blast
  have entries: "set (rn_contexts r'') \<subseteq> set (rn_contexts r)" using a(14) b(14) by blast
  have fallback: "d = cid \<and> cx_committedPath (rn_runs r'' ! ref) = Some Fallback"
    if "Emit (FallbackStarted d sid) \<in> set (effs @ effs')" for d sid
    using that a(11,12) [of d sid] b(11,12) [of d sid] b(3) by (auto simp: run_le_def)
  have complete: "cx_settled (rn_runs r'' ! ref) \<and> cx_completion (rn_runs r'' ! ref) = Fulfilled res"
    if "Emit (SigningComplete res) \<in> set (effs @ effs')" for res
    using that a(13) [of res] b(13) [of res] b(3) by (auto simp: run_le_def)
  show ?thesis
    unfolding own_step_def
  proof (intro conjI allI impI)
    show "jm_get (rn_contexts r'') cid = jm_get (rn_contexts r) cid \<or> jm_get (rn_contexts r'') cid = None"
      using a(5) b(5) by (elim disjE) simp_all
  qed (use a(1,2,4,6-8,10,15) b(1,2,4,6-8,10,15) le tasks fallback complete entries in simp_all)
qed

text \<open>Updates of the parts.\<close>

lemma own_run:
  assumes "run_le (rn_runs r ! ref) (f (rn_runs r ! ref))" "silent effs"
  shows "own_step L ref cid r effs (on_run ref f r)"
proof (cases "ref < length (rn_runs r)")
  case True
  then show ?thesis using assms by (auto simp: own_step_def silent_def)
next
  case False
  then have "on_run ref f r = r" by (simp add: on_run_def list_update_beyond)
  then show ?thesis using own_refl [OF assms(2)] by simp
qed

lemma own_suspend: "task_ref t = None \<or> task_ref t = Some ref \<Longrightarrow> silent effs \<Longrightarrow> own_step L ref cid r effs (suspend t r)"
  by (auto simp: own_step_def suspend_def silent_def)

definition call_of ::
  "('tx, 'x) agg_lib_scheme \<Rightarrow> string \<Rightarrow> ('tx AggregationService \<Rightarrow> 'tx AggregationService \<times> 'a) \<Rightarrow> bool" where
  "call_of L cid f \<longleftrightarrow> (\<forall>svc. (\<exists>c. fst (f svc) = serviceCall L c svc) \<and>
     (\<forall>d. d \<noteq> cid \<longrightarrow> jm_get (as_cohortStates (fst (f svc))) d = jm_get (as_cohortStates svc) d))"

lemma own_session:
  assumes "call_of L cid f" "silent effs"
  shows "own_step L ref cid r effs (r\<lparr>rn_session := fst (f (rn_session r))\<rparr>)"
proof -
  obtain c where "fst (f (rn_session r)) = serviceCall L c (rn_session r)"
    using assms(1) unfolding call_of_def by blast
  then have "service_reach L (rn_session r) \<longrightarrow> service_reach L (fst (f (rn_session r)))"
    by (simp add: service_reach.call)
  then show ?thesis using assms by (auto simp: own_step_def call_of_def silent_def)
qed

lemma onCohort_other: "d \<noteq> c \<Longrightarrow> jm_get (as_cohortStates (fst (onCohort c f svc))) d = jm_get (as_cohortStates svc) d"
  by (simp add: onCohort_get)

lemma call_of_actions:
  "call_of L cid (advertise cid)" "call_of L cid (acceptParticipant L cid did)" "call_of L cid (finalizeKeygen L cid)"
  "call_of L cid (buildAndDistribute L nonce cid)" "call_of L cid (startSigning L uuid cid txData)"
  "call_of L cid (sendAggregatedNonce L cid)" "call_of L cid (startFallbackSigning L cid)" "call_of L cid (drainRejections cid)"
proof -
  show "call_of L cid (advertise cid)" unfolding call_of_def
    by (intro allI conjI exI [of _ "Advertise cid"]) (simp_all add: advertise_def onCohort_other)
  show "call_of L cid (acceptParticipant L cid did)" unfolding call_of_def
    by (intro allI conjI exI [of _ "AcceptParticipant cid did"]) (simp_all add: acceptParticipant_def onCohort_other)
  show "call_of L cid (finalizeKeygen L cid)" unfolding call_of_def
    by (intro allI conjI exI [of _ "FinalizeKeygen cid"]) (simp_all add: finalizeKeygen_def onCohort_other)
  show "call_of L cid (buildAndDistribute L nonce cid)" unfolding call_of_def
    by (intro allI conjI exI [of _ "BuildAndDistribute nonce cid"]) (simp_all add: buildAndDistribute_def onCohort_other)
  show "call_of L cid (startSigning L uuid cid txData)" unfolding call_of_def
    by (intro allI conjI exI [of _ "StartSigning uuid cid txData"]) (simp_all add: startSigning_def onCohort_other)
  show "call_of L cid (sendAggregatedNonce L cid)" unfolding call_of_def
    by (intro allI conjI exI [of _ "SendAggregatedNonce cid"]) (simp_all add: sendAggregatedNonce_def onCohort_other)
  show "call_of L cid (startFallbackSigning L cid)" unfolding call_of_def
    by (intro allI conjI exI [of _ "StartFallbackSigning cid"]) (simp_all add: startFallbackSigning_def onCohort_other)
  show "call_of L cid (drainRejections cid)" unfolding call_of_def
    by (intro allI conjI exI [of _ "DrainRejections cid"]) (simp_all add: drainRejections_def split: option.split)
qed

lemma handleWith_other:
  "body_str (m_body m) ''cohortId'' = Some cid \<Longrightarrow> d \<noteq> cid \<Longrightarrow>
   jm_get (as_cohortStates (fst (handleWith m f svc))) d = jm_get (as_cohortStates svc) d"
  by (auto simp: handleWith_def split: option.splits prod.splits)

lemma call_of_receive: "body_str (m_body m) ''cohortId'' = Some cid \<Longrightarrow> call_of L cid (serviceReceive L m)"
  unfolding call_of_def
  by (intro allI conjI exI [of _ "ReceiveMessage m"]) (simp_all add: serviceReceive_def handleWith_other)

lemma removeCohort_facts:
  "jm_get (as_cohortStates (removeCohort cid svc)) d = (if d = cid then None else jm_get (as_cohortStates svc) d)"
  "service_reach L svc \<Longrightarrow> service_reach L (removeCohort cid svc)"
  using service_reach.call [of L svc "RemoveCohort cid"] by (auto simp: removeCohort_def)

section \<open>The parts of a handler\<close>

definition own_out ::
  "('tx, 'x) agg_lib_scheme \<Rightarrow> nat \<Rightarrow> string \<Rightarrow> 'tx AggregationServiceRunner \<Rightarrow> 'tx run_outcome \<Rightarrow> bool" where
  "own_out L ref cid r out \<longleftrightarrow> own_step L ref cid r (fst (snd out)) (fst out)"

lemma silent_simps [simp]:
  "silent []" "silent (Emit e # effs) \<longleftrightarrow> (\<forall>d s. e \<noteq> FallbackStarted d s) \<and> (\<forall>res. e \<noteq> SigningComplete res) \<and> silent effs"
  "silent (SendMessage m # effs) = silent effs" "silent (StopPublishing c # effs) = silent effs"
  "silent (RegisterPeer d k # effs) = silent effs" "silent (AskTxData c a s # effs) = silent effs"
  "silent (RegisterHandlers # effs) = silent effs" "silent (UnregisterHandlers # effs) = silent effs"
  "silent (effs @ effs') \<longleftrightarrow> silent effs \<and> silent effs'"
  "silent (map (\<lambda>m. PublishRepeating m n) ms)" "silent (map (\<lambda>j. Emit (MessageRejected c j)) js)"
  by (auto simp: silent_def)

lemma own_and_then:
  assumes "own_out L ref cid r out" "at ref cid r" "\<And>r'. at ref cid r' \<Longrightarrow> own_out L ref cid r' (f r')"
  shows "own_out L ref cid r (and_then out f)"
proof -
  obtain r1 effs res where out: "out = (r1, effs, res)" by (cases out)
  have first: "own_step L ref cid r effs r1" using assms(1) by (simp add: own_out_def out)
  show ?thesis
  proof (cases res)
    case (Inr u)
    have "own_out L ref cid r1 (f r1)" using assms(3) own_at [OF first assms(2)] .
    then show ?thesis
      using own_trans [OF first] by (simp add: own_out_def and_then_def out Inr case_prod_beta Let_def)
  qed (use first in \<open>simp add: own_out_def and_then_def out\<close>)
qed

lemma own_perform: "own_step L ref cid r effs r' \<Longrightarrow> own_out L ref cid r (perform effs r')"
  by (simp add: own_out_def perform_def)

lemma own_throw: "own_out L ref cid r (r, [], Inl e)"
  by (simp add: own_out_def own_refl)

lemma own_out_trans:
  "own_step L ref cid r effs r' \<Longrightarrow> own_out L ref cid r' (r'', effs', res) \<Longrightarrow> own_out L ref cid r (r'', effs @ effs', res)"
  by (simp add: own_out_def own_trans)

lemma own_out_step: "own_step L ref cid r [] r' \<Longrightarrow> own_out L ref cid r' out \<Longrightarrow> own_out L ref cid r out"
  using own_trans [of L ref cid r "[]" r'] by (simp add: own_out_def)

lemma own_on_session:
  assumes "call_of L cid f" "at ref cid r" "\<And>v r'. at ref cid r' \<Longrightarrow> own_out L ref cid r' (k v r')"
  shows "own_out L ref cid r (on_session f k r)"
proof -
  let ?r = "r\<lparr>rn_session := fst (f (rn_session r))\<rparr>"
  have step: "own_step L ref cid r [] ?r" using assms(1) by (rule own_session) simp
  have "at ref cid ?r" using assms(2) by (simp add: at_def)
  then show ?thesis
    unfolding on_session_def Let_def case_prod_beta
    by (cases "snd (f (rn_session r))") (auto intro: own_out_step [OF step] own_throw assms(3))
qed

fun continuation_ref :: "continuation \<Rightarrow> nat option" where
  "continuation_ref (AfterAccept ref did) = Some ref"
| "continuation_ref (AtEnd ref) = Some ref"
| "continuation_ref AtCaller = None"

lemma task_continuation: "task_ref (Sending ms k) = continuation_ref k"
  by (cases k) simp_all

lemma own_sendAll: "continuation_ref k = None \<or> continuation_ref k = Some ref \<Longrightarrow> own_out L ref cid r (sendAll ms k r)"
  by (auto simp: sendAll_def own_out_def task_continuation intro!: own_suspend split: list.split)

lemma own_timer: "own_step L ref cid r [] (resetPhaseTimer ref r)"
  "cx_settled (rn_runs r ! ref) \<Longrightarrow> own_step L ref cid r [] (clearTimers ref r)"
  unfolding resetPhaseTimer_def clearTimers_def by (rule own_run; simp add: run_le_def)+

lemma own_phase: "own_step L ref cid r [] (onPhaseMaybeChanged ref r)"
proof -
  have "own_step L ref cid r [] (on_run ref (\<lambda>c. c\<lparr>cx_lastObservedPhase := p\<rparr>) r)" for p
    by (rule own_run) (simp_all add: run_le_def)
  from own_trans [OF this own_timer(1)] show ?thesis by (simp add: onPhaseMaybeChanged_def Let_def own_refl)
qed

lemma own_stopAdvert: "own_step L ref cid r (snd (stopAdvertRepeating ref r)) (fst (stopAdvertRepeating ref r))"
  by (auto simp: stopAdvertRepeating_def Let_def run_le_def intro!: own_run own_refl)

lemma silent_stopAdvert: "silent (snd (stopAdvertRepeating ref r))"
  by (simp add: stopAdvertRepeating_def Let_def)

lemma delete_subset: "set (jm_delete k m) \<subseteq> set m"
  by (auto simp: AList.delete_eq)

lemma own_forget: "at ref cid r \<Longrightarrow> own_step L ref cid r [] (r\<lparr>rn_contexts := jm_delete (cx_cohortId (rn_runs r ! ref)) (rn_contexts r)\<rparr>)"
  using delete_subset [of "cx_cohortId (rn_runs r ! ref)" "rn_contexts r"] by (auto simp: own_step_def at_def)

lemma own_dispose:
  assumes "at ref cid r" "cx_settled (rn_runs r ! ref)"
  shows "own_step L ref cid r (snd (disposeCohort ref r)) (fst (disposeCohort ref r))"
proof -
  let ?r = "clearTimers ref (fst (stopAdvertRepeating ref r))"
  have step: "own_step L ref cid r (snd (stopAdvertRepeating ref r)) ?r"
  proof -
    have "cx_settled (rn_runs (fst (stopAdvertRepeating ref r)) ! ref)"
      using assms by (simp add: stopAdvertRepeating_def Let_def at_def)
    from own_trans [OF own_stopAdvert own_timer(2) [OF this]] show ?thesis by simp
  qed
  have "at ref cid ?r" using own_at [OF step assms(1)] .
  from own_trans [OF step own_forget [OF this]] show ?thesis by (simp add: disposeCohort_def Let_def case_prod_beta)
qed

lemma silent_dispose: "silent (snd (disposeCohort ref r))"
  using silent_stopAdvert by (simp add: disposeCohort_def Let_def case_prod_beta)

text \<open>What disposing of a context leaves.\<close>

lemma dispose_facts:
  assumes "at ref cid r"
  shows "rn_runs (fst (disposeCohort ref r)) ! ref =
      (rn_runs r ! ref)\<lparr>cx_stopAdvertRepeat := False, cx_cohortTtlTimer := False, cx_phaseTimer := False\<rparr>"
    "length (rn_runs (fst (disposeCohort ref r))) = length (rn_runs r)"
    "jm_get (rn_contexts (fst (disposeCohort ref r))) cid = None"
    "rn_session (fst (disposeCohort ref r)) = rn_session r" "rn_tasks (fst (disposeCohort ref r)) = rn_tasks r"
  using assms by (auto simp: disposeCohort_def stopAdvertRepeating_def clearTimers_def Let_def at_def case_prod_beta)

section \<open>Settling\<close>

lemma settle_run:
  "at ref cid r \<Longrightarrow> \<not> cx_settled (rn_runs r ! ref) \<Longrightarrow> at ref cid (on_run ref (\<lambda>c. c\<lparr>cx_settled := True\<rparr>) r)"
  "at ref cid r \<Longrightarrow> cx_settled (rn_runs (on_run ref (\<lambda>c. c\<lparr>cx_settled := True\<rparr>) r) ! ref)"
  by (simp_all add: at_def)

lemma own_complete:
  assumes "at ref cid r"
  shows "own_step L ref cid r (snd (completeCohort ref res r)) (fst (completeCohort ref res r))"
proof (cases "cx_settled (rn_runs r ! ref)")
  case False
  let ?r = "on_run ref (\<lambda>c. c\<lparr>cx_settled := True\<rparr>) r"
  have at: "at ref cid ?r" using settle_run(1) [OF assms False] .
  note d = own_stepD [OF own_dispose [OF at settle_run(2) [OF assms], of L]] and f = dispose_facts [OF at]
  have lt: "ref < length (rn_runs r)" using assms by (simp add: at_def)
  have quiet: "Emit (FallbackStarted x y) \<notin> set (snd (disposeCohort ref ?r))"
    "Emit (SigningComplete z) \<notin> set (snd (disposeCohort ref ?r))" for x y z
    using silent_dispose [of ref ?r] by (auto simp: silent_def)
  show ?thesis
    unfolding own_step_def completeCohort_def Let_def case_prod_beta
    using d(1,2,4-10,14,15) f lt False quiet by (auto simp: run_le_def)
qed (simp add: completeCohort_def own_refl)

lemma own_drop:
  assumes "at ref cid r" "\<not> cx_settled (rn_runs r ! ref)"
  shows "own_step L ref cid r (snd (dropCohort ref e r)) (fst (dropCohort ref e r))"
proof -
  let ?r = "on_run ref (\<lambda>c. c\<lparr>cx_settled := True\<rparr>) r"
  have at: "at ref cid ?r" using settle_run(1) [OF assms] .
  note d = own_stepD [OF own_dispose [OF at settle_run(2) [OF assms(1)], of L]] and f = dispose_facts [OF at]
  have lt: "ref < length (rn_runs r)" and cid: "cx_cohortId (rn_runs r ! ref) = cid" using assms by (simp_all add: at_def)
  have quiet: "Emit (FallbackStarted x y) \<notin> set (snd (disposeCohort ref ?r))"
    "Emit (SigningComplete z) \<notin> set (snd (disposeCohort ref ?r))" for x y z
    using silent_dispose [of ref ?r] by (auto simp: silent_def)
  show ?thesis
    unfolding own_step_def dropCohort_def Let_def case_prod_beta
    using d(1,2,4-10,14,15) f lt cid assms(2) quiet by (auto simp: run_le_def removeCohort_facts)
qed

lemma own_fail: "at ref cid r \<Longrightarrow> own_step L ref cid r (snd (failCohort ref e r)) (fst (failCohort ref e r))"
  using own_trans [OF own_drop [of ref cid r L e] own_refl, of "[Emit (ErrorEvent e)]"]
  by (auto simp: failCohort_def case_prod_beta own_refl)

lemma own_guarded:
  assumes "own_out L ref cid r out" "at ref cid r"
  shows "own_step L ref cid r (snd (guarded ref out)) (fst (guarded ref out))"
proof -
  obtain r1 effs res where out: "out = (r1, effs, res)" by (cases out)
  have first: "own_step L ref cid r effs r1" using assms(1) by (simp add: own_out_def out)
  show ?thesis
    using first own_trans [OF first own_fail [OF own_at [OF first assms(2)]]]
    by (auto simp: guarded_def out case_prod_beta split: sum.split)
qed

section \<open>The handlers\<close>

lemma own_trigger:
  assumes "at ref cid r" "jm_get (rn_contexts r) cid = Some ref" "continuation_ref k = None \<or> continuation_ref k = Some ref"
  shows "own_out L ref cid r (triggerFallback L cid k r)"
proof (cases "cx_settled (rn_runs r ! ref) \<or> cx_committedPath (rn_runs r ! ref) \<noteq> None")
  case True
  then show ?thesis using assms by (auto simp: triggerFallback_def intro!: own_perform own_refl)
next
  case False
  show ?thesis
  proof (cases "startFallbackSigning L cid (rn_session r)")
    case (Pair svc res)
    let ?r = "r\<lparr>rn_session := svc\<rparr>"
    have step: "own_step L ref cid r [] ?r"
      using own_session [OF call_of_actions(7) [of L cid], where r = r and ref = ref and effs = "[]"] Pair by simp
    show ?thesis
    proof (cases res)
      case (Inl e)
      then show ?thesis
        using False assms(2) own_out_step [OF step own_throw] by (simp add: triggerFallback_def on_session_def Pair)
    next
      case (Inr messages)
      let ?r1 = "on_run ref (\<lambda>c. c\<lparr>cx_committedPath := Some Fallback\<rparr>) ?r"
      let ?r2 = "onPhaseMaybeChanged ref (fst (stopAdvertRepeating ref ?r1))"
      let ?effs = "snd (stopAdvertRepeating ref ?r1)"
      have "own_step L ref cid r [] ?r1"
        using False own_stepD [OF step] assms(1) by (auto simp: own_step_def run_le_def at_def)
      from own_trans [OF this own_trans [OF own_stopAdvert own_phase]]
      have s2: "own_step L ref cid r ?effs ?r2" by simp
      have at2: "at ref cid ?r2" using own_at [OF s2 assms(1)] .
      have "cx_committedPath (rn_runs ?r1 ! ref) = Some Fallback" using assms(1) by (simp add: at_def)
      then have "cx_committedPath (rn_runs ?r2 ! ref) = Some Fallback"
        using own_stepD(3) [OF own_trans [OF own_stopAdvert own_phase, of L ref cid ?r1]] by (simp add: run_le_def)
      then have "own_step L ref cid r (?effs @ [Emit (FallbackStarted cid sid)]) ?r2" for sid
        using own_trans [OF s2, of "[Emit (FallbackStarted cid sid)]" ?r2] by (simp add: own_step_def)
      from own_and_then [OF own_perform [OF this] assms(1), where f = "sendAll messages k"]
      show ?thesis
        using False assms own_sendAll [of k ref L cid _ messages]
        by (simp add: triggerFallback_def on_session_def Pair Inr Let_def case_prod_beta)
    qed
  qed
qed

lemma own_drainRejections: "at ref cid r \<Longrightarrow> own_out L ref cid r (drainRejectionsOf ref r)"
  using own_session [OF call_of_actions(8) [of L cid], where r = r and ref = ref]
  by (auto simp: drainRejectionsOf_def at_def case_prod_beta Let_def intro!: own_perform)

lemma own_receive:
  assumes "at ref cid r" "body_str (m_body m) ''cohortId'' = Some cid"
  shows "own_out L ref cid r (receiveFor L ref m r)"
  unfolding receiveFor_def
  by (intro own_on_session own_and_then own_drainRejections own_perform own_phase call_of_receive assms)

text \<open>The conditions that the rules leave.\<close>

lemmas own_rules = own_and_then own_on_session call_of_actions own_perform own_refl own_throw own_sendAll own_receive own_suspend

lemma own_handlers:
  fixes L :: "('tx, 'x) agg_lib_scheme"
  assumes "at ref cid r" "body_str (m_body m) ''cohortId'' = Some cid"
  shows "own_out L ref cid r (handleOptInMessage L peerError ref m r)"
    "own_out L ref cid r (handleUpdateMessage L nonce ref m r)"
    "own_out L ref cid r (handleAckMessage L ref m r)"
    "own_out L ref cid r (handleNonceMessage L ref m r)"
    "own_out L ref cid r (handleSignatureMessage L ref m r)"
    "own_out L ref cid r (handleFallbackMessage L ref m r)"
proof -
  have cid: "cx_cohortId (rn_runs r ! ref) = cid" using assms(1) by (simp add: at_def)
  note receive = own_receive [OF assms, of L]
  show "own_out L ref cid r (handleOptInMessage L peerError ref m r)"
    unfolding handleOptInMessage_def
    by (rule own_and_then [OF receive assms(1)]) (auto intro!: own_rules split: option.split)
  show "own_out L ref cid r (handleUpdateMessage L nonce ref m r)"
    unfolding handleUpdateMessage_def Let_def cid
    by (rule own_and_then [OF receive assms(1)]) (auto intro!: own_rules)
  show "own_out L ref cid r (handleNonceMessage L ref m r)"
    unfolding handleNonceMessage_def Let_def cid
    by (rule own_and_then [OF receive assms(1)]) (auto intro!: own_rules)
  show "own_out L ref cid r (handleAckMessage L ref m r)"
    unfolding handleAckMessage_def Let_def cid
  proof (rule own_and_then [OF receive assms(1)], rule own_and_then)
    fix r' r'' :: "'tx AggregationServiceRunner" assume at: "at ref cid r''"
    have "own_step L ref cid r'' (Emit (CohortFailed cid c) # snd (failCohort ref e r'')) (fst (failCohort ref e r''))" for c e
      using own_trans [OF own_refl own_fail [OF at], of "[Emit (CohortFailed cid c)]"] by simp
    then show "own_out L ref cid r''
        (if getCohortPhase cid (rn_session r'') = Some ServiceFailed
         then case failCohort ref (Error ''AggregationCohortError'' ''VALIDATION_REJECTED'') r'' of
           (r, effs) \<Rightarrow> perform (Emit (CohortFailed cid ''VALIDATION_REJECTED'') # effs) r
         else if getCohortPhase cid (rn_session r'') = Some Validated
           then case getCohort cid (rn_session r'') of
                  None \<Rightarrow> (r'', [], type_error)
                | Some ch \<Rightarrow> perform [AskTxData cid (ch_beaconAddress ch) (ch_signalBytes ch)] (suspend (TxData ref) r'')
           else perform [] r'')"
      by (auto simp: case_prod_beta intro!: own_rules split: option.split)
  qed (auto intro!: own_rules)
  show "own_out L ref cid r (handleFallbackMessage L ref m r)"
    unfolding handleFallbackMessage_def
    by (rule own_and_then [OF receive assms(1)]) (auto simp: case_prod_beta intro!: own_perform own_complete own_refl split: option.split)
  show "own_out L ref cid r (handleSignatureMessage L ref m r)"
    unfolding handleSignatureMessage_def
  proof (rule own_and_then [OF receive assms(1)])
    fix r' :: "'tx AggregationServiceRunner" assume at: "at ref cid r'"
    show "own_out L ref cid r'
        (if cx_committedPath (rn_runs r' ! ref) = Some Fallback then perform [] r'
         else case getResult (cx_cohortId (rn_runs r' ! ref)) (rn_session r') of
           None \<Rightarrow> perform [] r'
         | Some result \<Rightarrow>
             (let (r, effs) = completeCohort ref result (on_run ref (\<lambda>c. c\<lparr>cx_committedPath := Some Optimistic\<rparr>) r')
              in perform effs r))"
    proof (cases "cx_committedPath (rn_runs r' ! ref) = Some Fallback")
      case False
      then have "cx_committedPath (rn_runs r' ! ref) = None \<or> cx_committedPath (rn_runs r' ! ref) = Some Optimistic"
        by (cases "cx_committedPath (rn_runs r' ! ref)") (auto intro: spend_path.exhaust)
      then have "own_step L ref cid r' [] (on_run ref (\<lambda>c. c\<lparr>cx_committedPath := Some Optimistic\<rparr>) r')"
        using at by (auto simp: own_step_def run_le_def at_def)
      from own_trans [OF this own_complete [OF own_at [OF this at]]] show ?thesis
        using False by (auto simp: case_prod_beta intro!: own_perform own_refl split: option.split)
    qed (auto intro!: own_perform own_refl)
  qed
qed

lemma own_message:
  assumes "at ref cid r" "body_str (m_body m) ''cohortId'' = Some cid"
  shows "own_out L ref cid r (messageStep L peerError nonce ref m r)"
  using own_handlers [OF assms] by (auto simp: messageStep_def intro!: own_perform own_refl)

lemma own_resumed:
  fixes L :: "('tx, 'x) agg_lib_scheme"
  assumes "at ref cid r"
  shows "own_out L ref cid r (acceptOptIn L ref did accepted r)" "own_out L ref cid r (afterAccept ref did r)"
    "own_out L ref cid r (finalizeRun L ref finalize r)" "own_out L ref cid r (startSigningRun L ref uuid txData r)"
proof -
  have cid: "cx_cohortId (rn_runs r ! ref) = cid" using assms by (simp add: at_def)
  show "own_out L ref cid r (acceptOptIn L ref did accepted r)"
    unfolding acceptOptIn_def Let_def cid using assms by (auto intro!: own_rules)
  show "own_out L ref cid r (startSigningRun L ref uuid txData r)"
    unfolding startSigningRun_def Let_def cid using assms by (auto intro!: own_rules)
  show "own_out L ref cid r (finalizeRun L ref finalize r)"
    unfolding finalizeRun_def Let_def cid case_prod_beta using assms silent_stopAdvert [of ref]
    by (auto simp: run_le_def intro!: own_and_then own_on_session call_of_actions own_perform own_sendAll own_run
        own_trans [OF own_stopAdvert own_refl])
  show "own_out L ref cid r (afterAccept ref did r)"
    unfolding afterAccept_def Let_def cid
  proof (rule own_and_then)
    fix r' :: "'tx AggregationServiceRunner" assume at: "at ref cid r'"
    have "own_step L ref cid r' [] (suspend (FinalizeDecision ref) (on_run ref (\<lambda>c. c\<lparr>cx_finalizing := True\<rparr>) r'))"
      by (rule own_trans [where effs = "[]" and effs' = "[]", simplified, OF own_run own_suspend]) (simp_all add: run_le_def)
    then show "own_out L ref cid r'
        (case getCohort cid (rn_session r') of
           None \<Rightarrow> (r', [], type_error)
         | Some ch \<Rightarrow>
             if int_of (co_minParticipants (cx_config (rn_runs r ! ref))) \<le> int (length (ch_participants ch)) \<and>
                \<not> cx_finalizing (rn_runs r ! ref)
             then perform [] (suspend (FinalizeDecision ref) (on_run ref (\<lambda>c. c\<lparr>cx_finalizing := True\<rparr>) r'))
             else perform [] r')"
      by (auto intro!: own_rules split: option.split)
  qed (use assms in \<open>auto intro!: own_rules\<close>)
qed

end
