(* ===== verification/RunnerInvariant.thy ===== *)
theory RunnerInvariant
  imports RunnerFrame
begin

text \<open>
  The invariant of the service runner: a context that is not settled is the one on record for its
  cohort, which the service still knows and has no result for, and its latch says whether the
  fallback was requested; a settled one has no timers and no advert any more, and holds the error, after which the
  service has forgotten the cohort, or the result of the path it has committed to.
\<close>

section \<open>Steps of a cohort that neither complete it nor start the fallback\<close>

definition quiet :: "'tx ServiceCohortState \<Rightarrow> 'tx ServiceCohortState \<Rightarrow> bool" where
  "quiet st st' \<longleftrightarrow> cs_result st' = cs_result st \<and> (cs_phase st' = FallbackRequested \<longleftrightarrow> cs_phase st = FallbackRequested) \<and>
     (cs_phase st' = ServiceComplete \<longleftrightarrow> cs_phase st = ServiceComplete)"

lemma quiet_refl [simp]: "quiet st st"
  by (simp add: quiet_def)

lemma quiet_updates [simp]:
  "quiet st (reject d c st)" "quiet st (st\<lparr>cs_cohort := ch\<rparr>)" "quiet st (st\<lparr>cs_signingSession := ss\<rparr>)"
  "quiet st (st\<lparr>cs_rejections := []\<rparr>)" "quiet st (st\<lparr>cs_fallbackSignatures := f\<rparr>)" "quiet st (st\<lparr>cs_pendingOptIns := os\<rparr>)"
  by (simp_all add: quiet_def reject_def)

lemma quiet_responded:
  "cs_phase st \<in> {CohortSet, CollectingUpdates} \<Longrightarrow> quiet st (responded (st\<lparr>cs_cohort := ch\<rparr>))"
  by (auto simp: quiet_def responded_def Let_def)

lemma quiet_handlers:
  "quiet st (fst (handleOptIn m st))" "quiet st (fst (handleSubmitUpdate L mx m st))"
  "quiet st (fst (handleSubmitNonInclusion m st))" "quiet st (fst (handleValidationAck m st))"
  "quiet st (fst (handleNonceContribution m st))"
proof -
  show "quiet st (fst (handleOptIn m st))" by (auto simp: handleOptIn_def Let_def split: option.split)
  show "quiet st (fst (handleSubmitUpdate L mx m st))"
    by (auto simp: handleSubmitUpdate_def Let_def intro!: quiet_responded split: sum.split prod.split)
  show "quiet st (fst (handleSubmitNonInclusion m st))"
    by (auto simp: handleSubmitNonInclusion_def Let_def intro!: quiet_responded split: sum.split prod.split)
  show "quiet st (fst (handleValidationAck m st))"
    by (auto simp: handleValidationAck_def quiet_def split: sum.split prod.split option.split)
  show "quiet st (fst (handleNonceContribution m st))"
    by (auto simp: handleNonceContribution_def quiet_def split: sum.split prod.split option.split)
qed

lemma quiet_message:
  assumes "m_type m \<noteq> SIGNATURE_AUTHORIZATION" "m_type m \<noteq> FALLBACK_SIGNATURE"
  shows "quiet st (fst (messageHandler L mx m st))"
  using assms by (simp add: messageHandler_def quiet_handlers)

lemma quiet_actions:
  "quiet st (fst (advertiseState svc cid st))" "quiet st (fst (acceptState L svc cid did st))"
  "quiet st (fst (finalizeState L svc cid st))" "quiet st (fst (distributeState L nonce svc cid st))"
  "quiet st (fst (startSigningState L svc uuid cid txData st))" "quiet st (fst (aggregatedNonceState L svc cid st))"
  by (auto simp: advertiseState_def acceptState_def finalizeState_def distributeState_def startSigningState_def
      aggregatedNonceState_def quiet_def Let_def split: sum.split prod.split option.split list.split)

text \<open>The two handlers that can complete a cohort: they do it without an error, with a result of their path.\<close>

lemma signature_result:
  assumes "handleSignatureAuthorization L m st = (st', res)"
  shows "quiet st st' \<or> res = Inr () \<and> cs_phase st = AwaitingPartialSigs \<and> cs_phase st' = ServiceComplete \<and>
    (\<exists>r. cs_result st' = Some r \<and> ar_cohortId r = the (body_str (m_body m) ''cohortId''))"
  using assms
  by (auto simp: handleSignatureAuthorization_def completeKeyPath_def split: option.splits sum.splits prod.splits if_splits)

lemma fallback_result:
  assumes "handleFallbackSignature L m st = (st', res)"
  shows "quiet st st' \<or> res = Inr () \<and> cs_phase st = FallbackRequested \<and> cs_phase st' = ServiceComplete \<and>
    (\<exists>r. cs_result st' = Some r \<and> ar_cohortId r = the (body_str (m_body m) ''cohortId''))"
proof (cases "cs_phase st = FallbackRequested")
  case False
  then have "st' = st" using assms by (auto simp: handleFallbackSignature_def split: option.splits)
  then show ?thesis by simp
next
  case True
  have complete: "quiet st st1 \<or> r1 = Inr () \<and> cs_phase st1 = ServiceComplete \<and>
      (\<exists>r. cs_result st1 = Some r \<and> ar_cohortId r = c)"
    if "completeScriptPath L c s0 sc v sigs (st\<lparr>cs_fallbackSignatures := f\<rparr>) = (st1, r1)" for c s0 sc v sigs f st1 r1
    using that by (auto simp: completeScriptPath_def quiet_def split: option.splits sum.splits prod.splits)
  show ?thesis
    using assms True
    by (auto simp: handleFallbackSignature_def Let_def dest: complete split: option.splits sum.splits list.splits if_splits)
qed

lemma start_fallback_result:
  assumes "startFallbackState L svc cid st = (st', res)"
  shows "st' = st \<and> (\<exists>e. res = Inl e) \<or> cs_result st' = cs_result st \<and> cs_phase st' = FallbackRequested \<and>
    cs_phase st \<noteq> ServiceComplete \<and> (\<exists>msgs. res = Inr msgs)"
  using assms by (auto simp: startFallbackState_def service_error_def split: option.splits sum.splits list.splits if_splits)

section \<open>The invariant of one context\<close>

definition live_ok :: "'tx RunContext \<Rightarrow> 'tx ServiceCohortState option \<Rightarrow> bool" where
  "live_ok c st \<longleftrightarrow> (\<exists>s. st = Some s \<and> cs_result s = None \<and> cs_phase s \<noteq> ServiceComplete \<and>
     cx_committedPath c = (if cs_phase s = FallbackRequested then Some Fallback else None))"

definition settled_ok :: "('tx, 'x) agg_lib_scheme \<Rightarrow> 'tx RunContext \<Rightarrow> 'tx ServiceCohortState option \<Rightarrow> bool" where
  "settled_ok L c st \<longleftrightarrow>
     (\<exists>e. cx_completion c = Failed e) \<and> st = None \<or>
     (\<exists>res svc s. cx_completion c = Fulfilled res \<and> ar_cohortId res = cx_cohortId c \<and>
        service_reach L svc \<and> jm_get (as_cohortStates svc) (cx_cohortId c) = Some s \<and>
        (cx_committedPath c = Some Optimistic \<and> key_path_result L s res \<or>
         cx_committedPath c = Some Fallback \<and> script_path_result L s res))"

definition context_ok ::
  "('tx, 'x) agg_lib_scheme \<Rightarrow> nat \<Rightarrow> 'tx RunContext \<Rightarrow> nat option \<Rightarrow> 'tx ServiceCohortState option \<Rightarrow> bool" where
  "context_ok L ref c entry st \<longleftrightarrow>
     (if cx_settled c
      then entry = None \<and> \<not> cx_cohortTtlTimer c \<and> \<not> cx_phaseTimer c \<and> \<not> cx_stopAdvertRepeat c \<and> settled_ok L c st
      else entry = Some ref \<and> cx_completion c = Pending \<and> live_ok c st)"

definition local_ok :: "('tx, 'x) agg_lib_scheme \<Rightarrow> nat \<Rightarrow> string \<Rightarrow> 'tx AggregationServiceRunner \<Rightarrow> bool" where
  "local_ok L ref cid r \<longleftrightarrow> at ref cid r \<and> service_reach L (rn_session r) \<and>
     context_ok L ref (rn_runs r ! ref) (jm_get (rn_contexts r) cid) (jm_get (as_cohortStates (rn_session r)) cid)"

definition live :: "('tx, 'x) agg_lib_scheme \<Rightarrow> nat \<Rightarrow> string \<Rightarrow> 'tx AggregationServiceRunner \<Rightarrow> bool" where
  "live L ref cid r \<longleftrightarrow> local_ok L ref cid r \<and> \<not> cx_settled (rn_runs r ! ref)"

lemma live_local: "live L ref cid r \<Longrightarrow> local_ok L ref cid r"
  by (simp add: live_def)

lemma live_at: "live L ref cid r \<Longrightarrow> at ref cid r" "local_ok L ref cid r \<Longrightarrow> at ref cid r"
  by (simp_all add: live_def local_ok_def)

text \<open>A property of the runner passes through a sequence of steps, also when one of them throws.\<close>

lemma and_then_rule:
  assumes "P (fst out)" "\<And>r'. P r' \<Longrightarrow> Q (fst (f r'))" "\<And>r'. P r' \<Longrightarrow> Q r'"
  shows "Q (fst (and_then out f))"
  using assms by (cases out) (auto simp: and_then_def case_prod_beta Let_def split: sum.split)

lemma on_session_rule:
  assumes "P (r\<lparr>rn_session := fst (f (rn_session r))\<rparr>)" "\<And>v r'. P r' \<Longrightarrow> Q (fst (k v r'))" "\<And>r'. P r' \<Longrightarrow> Q r'"
  shows "Q (fst (on_session f k r))"
  using assms by (auto simp: on_session_def case_prod_beta Let_def split: sum.split)

definition calm :: "('tx, 'x) agg_lib_scheme \<Rightarrow> string \<Rightarrow> ('tx AggregationService \<Rightarrow> 'tx AggregationService \<times> 'a) \<Rightarrow> bool" where
  "calm L cid f \<longleftrightarrow> call_of L cid f \<and> (\<forall>svc. case jm_get (as_cohortStates svc) cid of
     None \<Rightarrow> jm_get (as_cohortStates (fst (f svc))) cid = None
   | Some st \<Rightarrow> \<exists>st'. jm_get (as_cohortStates (fst (f svc))) cid = Some st' \<and> quiet st st')"

lemma calm_onCohort: "(\<And>svc st. quiet st (fst (g svc st))) \<Longrightarrow> call_of L cid (\<lambda>svc. onCohort cid (g svc) svc) \<Longrightarrow> calm L cid (\<lambda>svc. onCohort cid (g svc) svc)"
  by (auto simp: calm_def onCohort_get split: option.split)

lemma calm_actions:
  "calm L cid (advertise cid)" "calm L cid (acceptParticipant L cid did)" "calm L cid (finalizeKeygen L cid)"
  "calm L cid (buildAndDistribute L nonce cid)" "calm L cid (startSigning L uuid cid txData)"
  "calm L cid (sendAggregatedNonce L cid)" "calm L cid (drainRejections cid)"
  unfolding calm_def
  by (simp_all add: call_of_actions advertise_def acceptParticipant_def finalizeKeygen_def buildAndDistribute_def
      startSigning_def sendAggregatedNonce_def onCohort_get quiet_actions drainRejections_def split: option.split)

lemma calm_receive:
  assumes "body_str (m_body m) ''cohortId'' = Some cid" "m_type m \<noteq> SIGNATURE_AUTHORIZATION" "m_type m \<noteq> FALLBACK_SIGNATURE"
  shows "calm L cid (serviceReceive L m)"
  unfolding calm_def
  using call_of_receive [OF assms(1), of L] quiet_message [OF assms(2,3)]
  by (auto simp: serviceReceive_def handleWith_def assms(1) Let_def case_prod_beta split: option.split)

lemma context_calm:
  assumes "calm L cid f" "context_ok L ref c entry (jm_get (as_cohortStates svc) cid)"
  shows "context_ok L ref c entry (jm_get (as_cohortStates (fst (f svc))) cid)"
proof (cases "jm_get (as_cohortStates svc) cid")
  case None
  then have "jm_get (as_cohortStates (fst (f svc))) cid = None"
    using spec [OF conjunct2 [OF assms(1) [unfolded calm_def]], of svc] by simp
  then show ?thesis using assms(2) None by simp
next
  case (Some st)
  then obtain st' where "jm_get (as_cohortStates (fst (f svc))) cid = Some st'" "quiet st st'"
    using spec [OF conjunct2 [OF assms(1) [unfolded calm_def]], of svc] by auto
  then show ?thesis using assms(2) Some by (auto simp: context_ok_def live_ok_def settled_ok_def quiet_def)
qed

lemma calm_local: "calm L cid f \<Longrightarrow> local_ok L ref cid r \<Longrightarrow> local_ok L ref cid (r\<lparr>rn_session := fst (f (rn_session r))\<rparr>)"
  using context_calm [of L cid f ref "rn_runs r ! ref" "jm_get (rn_contexts r) cid" "rn_session r"]
    own_stepD(10) [OF own_session [where L = L and cid = cid and f = f and effs = "[]" and r = r and ref = ref]]
  by (simp add: local_ok_def at_def calm_def)

lemma calm_live: "calm L cid f \<Longrightarrow> live L ref cid r \<Longrightarrow> live L ref cid (r\<lparr>rn_session := fst (f (rn_session r))\<rparr>)"
  using calm_local [of L cid f ref r] by (simp add: live_def)

section \<open>What keeps it\<close>

lemma local_run:
  assumes "local_ok L ref cid r" "\<And>c e st. context_ok L ref c e st \<Longrightarrow> context_ok L ref (f c) e st" "\<And>c. cx_cohortId (f c) = cx_cohortId c"
  shows "local_ok L ref cid (on_run ref f r)"
  using assms by (auto simp: local_ok_def at_def)

lemma live_run:
  assumes "live L ref cid r" "\<And>c e st. \<not> cx_settled c \<Longrightarrow> context_ok L ref c e st \<Longrightarrow> context_ok L ref (f c) e st"
    "\<And>c. cx_cohortId (f c) = cx_cohortId c \<and> cx_settled (f c) = cx_settled c"
  shows "live L ref cid (on_run ref f r)"
  using assms by (auto simp: live_def local_ok_def at_def)

lemma keep_suspend: "local_ok L ref cid r \<Longrightarrow> local_ok L ref cid (suspend t r)" "live L ref cid r \<Longrightarrow> live L ref cid (suspend t r)"
  by (simp_all add: suspend_def local_ok_def live_def at_def)

lemma keep_sendAll: "local_ok L ref cid r \<Longrightarrow> local_ok L ref cid (fst (sendAll ms k r))" "live L ref cid r \<Longrightarrow> live L ref cid (fst (sendAll ms k r))"
  by (simp_all add: sendAll_def keep_suspend split: list.split)

lemma keep_stopAdvert:
  "local_ok L ref cid r \<Longrightarrow> local_ok L ref cid (fst (stopAdvertRepeating ref r))"
  "live L ref cid r \<Longrightarrow> live L ref cid (fst (stopAdvertRepeating ref r))"
  by (auto simp: stopAdvertRepeating_def Let_def context_ok_def live_ok_def settled_ok_def intro!: local_run live_run split: if_splits)

lemma keep_timer: "live L ref cid r \<Longrightarrow> live L ref cid (resetPhaseTimer ref r)"
  unfolding resetPhaseTimer_def by (erule live_run) (auto simp: context_ok_def live_ok_def)

lemma keep_start: "live L ref cid r \<Longrightarrow> live L ref cid (startTimers ref r)"
  unfolding startTimers_def by (intro keep_timer live_run) (auto simp: context_ok_def live_ok_def)

lemma keep_phase: "live L ref cid r \<Longrightarrow> live L ref cid (onPhaseMaybeChanged ref r)"
  unfolding onPhaseMaybeChanged_def Let_def
  by (auto intro!: keep_timer live_run simp: context_ok_def live_ok_def)

text \<open>Settling: with an error, or with the result that the service has just got.\<close>

lemma drop_ok:
  assumes "at ref cid r" "service_reach L (rn_session r)" "\<not> cx_settled (rn_runs r ! ref)"
  shows "local_ok L ref cid (fst (dropCohort ref e r))"
proof -
  let ?r = "on_run ref (\<lambda>c. c\<lparr>cx_settled := True\<rparr>) r"
  have at: "at ref cid ?r" using settle_run(1) [OF assms(1,3)] .
  have lt: "ref < length (rn_runs r)" "cx_cohortId (rn_runs r ! ref) = cid" using assms(1) by (simp_all add: at_def)
  show ?thesis
    unfolding local_ok_def dropCohort_def Let_def case_prod_beta
    using dispose_facts [OF at] lt assms(2) by (auto simp: at_def removeCohort_facts context_ok_def settled_ok_def)
qed

lemma fail_ok: "local_ok L ref cid r \<Longrightarrow> local_ok L ref cid (fst (failCohort ref e r))"
  using drop_ok [of ref cid r L e] by (auto simp: failCohort_def case_prod_beta local_ok_def)

definition won ::
  "('tx, 'x) agg_lib_scheme \<Rightarrow> nat \<Rightarrow> string \<Rightarrow> spend_path option
     \<Rightarrow> ('tx ServiceCohortState \<Rightarrow> 'tx AggregationResult \<Rightarrow> bool) \<Rightarrow> 'tx AggregationServiceRunner \<Rightarrow> bool" where
  "won L ref cid path good r \<longleftrightarrow> at ref cid r \<and> service_reach L (rn_session r) \<and> \<not> cx_settled (rn_runs r ! ref) \<and>
     cx_committedPath (rn_runs r ! ref) = path \<and>
     (\<exists>res svc s st. service_reach L svc \<and> jm_get (as_cohortStates svc) cid = Some s \<and> good s res \<and> ar_cohortId res = cid \<and>
        jm_get (as_cohortStates (rn_session r)) cid = Some st \<and> cs_result st = Some res)"

lemma won_result:
  assumes "won L ref cid path good r"
  obtains res svc s where "getResult cid (rn_session r) = Some res" "service_reach L svc" "jm_get (as_cohortStates svc) cid = Some s"
    "good s res" "ar_cohortId res = cid"
proof -
  from assms obtain res svc s st where w: "service_reach L svc" "jm_get (as_cohortStates svc) cid = Some s" "good s res"
    "ar_cohortId res = cid" "jm_get (as_cohortStates (rn_session r)) cid = Some st" "cs_result st = Some res"
    unfolding won_def by blast
  show ?thesis by (rule that [OF _ w(1-4)]) (simp add: getResult_def w(5,6))
qed

lemma complete_ok:
  assumes "at ref cid r" "service_reach L (rn_session r)" "\<not> cx_settled (rn_runs r ! ref)" "ar_cohortId res = cid"
    "service_reach L svc" "jm_get (as_cohortStates svc) cid = Some s"
    "cx_committedPath (rn_runs r ! ref) = Some Optimistic \<and> key_path_result L s res \<or>
     cx_committedPath (rn_runs r ! ref) = Some Fallback \<and> script_path_result L s res"
  shows "local_ok L ref cid (fst (completeCohort ref res r))"
proof -
  let ?r = "on_run ref (\<lambda>c. c\<lparr>cx_settled := True\<rparr>) r"
  have at: "at ref cid ?r" using settle_run(1) [OF assms(1,3)] .
  have lt: "ref < length (rn_runs r)" "cx_cohortId (rn_runs r ! ref) = cid" using assms(1) by (simp_all add: at_def)
  show ?thesis
    unfolding local_ok_def completeCohort_def Let_def case_prod_beta
    using dispose_facts [OF at] lt assms(2-) by (auto simp: at_def context_ok_def settled_ok_def)
qed

lemma guarded_ok: "local_ok L ref cid (fst out) \<Longrightarrow> local_ok L ref cid (fst (guarded ref out))"
  by (cases out) (auto simp: guarded_def case_prod_beta fail_ok split: sum.split)

section \<open>Receiving\<close>

lemma won_keep:
  "won L ref cid p good r \<Longrightarrow> won L ref cid p good (fst (drainRejectionsOf ref r))"
  "won L ref cid p good r \<Longrightarrow> won L ref cid p good (onPhaseMaybeChanged ref r)"
proof -
  assume w: "won L ref cid p good r"
  then have cid: "cx_cohortId (rn_runs r ! ref) = cid" "ref < length (rn_runs r)" by (simp_all add: won_def at_def)
  have reach: "service_reach L (fst (drainRejections cid (rn_session r)))"
    using w service_reach.call [of L "rn_session r" "DrainRejections cid"] by (simp add: won_def)
  show "won L ref cid p good (fst (drainRejectionsOf ref r))"
    using w cid reach
    by (auto simp: won_def drainRejectionsOf_def Let_def perform_def case_prod_beta at_def drainRejections_def split: option.splits)
  show "won L ref cid p good (onPhaseMaybeChanged ref r)"
    using w cid by (auto simp: won_def onPhaseMaybeChanged_def resetPhaseTimer_def Let_def at_def)
qed

lemma live_drain: "live L ref cid r \<Longrightarrow> live L ref cid (fst (drainRejectionsOf ref r))"
  using calm_live [OF calm_actions(7) [of L cid], of ref r]
  by (simp add: drainRejectionsOf_def Let_def case_prod_beta perform_def live_def local_ok_def at_def)

lemma receive_rule:
  assumes "\<And>e. snd (serviceReceive L m (rn_session r)) = Inl e \<Longrightarrow> live L ref cid (r\<lparr>rn_session := fst (serviceReceive L m (rn_session r))\<rparr>)"
    "snd (serviceReceive L m (rn_session r)) = Inr () \<Longrightarrow>
       live L ref cid (r\<lparr>rn_session := fst (serviceReceive L m (rn_session r))\<rparr>) \<or>
       won L ref cid p good (r\<lparr>rn_session := fst (serviceReceive L m (rn_session r))\<rparr>)"
  shows "live L ref cid (fst (receiveFor L ref m r)) \<or>
    snd (snd (receiveFor L ref m r)) = Inr () \<and> won L ref cid p good (fst (receiveFor L ref m r))"
proof (cases "snd (serviceReceive L m (rn_session r))")
  case (Inl e)
  then show ?thesis using assms(1) by (simp add: receiveFor_def on_session_def case_prod_beta Let_def)
next
  case (Inr u)
  let ?r = "r\<lparr>rn_session := fst (serviceReceive L m (rn_session r))\<rparr>"
  have out: "fst (receiveFor L ref m r) = onPhaseMaybeChanged ref (fst (drainRejectionsOf ref ?r))"
    "snd (snd (receiveFor L ref m r)) = Inr ()"
    using Inr by (simp_all add: receiveFor_def on_session_def case_prod_beta Let_def and_then_def drainRejectionsOf_def perform_def)
  show ?thesis
    using assms(2) Inr unfolding out
    by (auto intro: keep_phase live_drain won_keep)
qed

lemma receive_live:
  assumes "live L ref cid r" "body_str (m_body m) ''cohortId'' = Some cid"
    "m_type m \<noteq> SIGNATURE_AUTHORIZATION" "m_type m \<noteq> FALLBACK_SIGNATURE"
  shows "live L ref cid (fst (receiveFor L ref m r))"
proof -
  have "live L ref cid (r\<lparr>rn_session := fst (serviceReceive L m (rn_session r))\<rparr>)"
    using calm_live [OF calm_receive [OF assms(2-4)] assms(1)] .
  then show ?thesis
    using receive_rule [of L m r ref cid None "\<lambda>_ _. False"] by (auto simp: won_def)
qed

lemma receive_step:
  assumes "jm_get (as_cohortStates svc) cid = Some st" "body_str (m_body m) ''cohortId'' = Some cid" "cid \<noteq> []"
  shows "\<exists>st' res. serviceReceive L m svc = (svc\<lparr>as_cohortStates := jm_set cid st' (as_cohortStates svc)\<rparr>, res) \<and>
    ((st' = reject (m_from m) ''WRONG_VERSION'' st \<and> res = Inr ()) \<or> messageHandler L (as_maxUpdateSizeBytes svc) m st = (st', res))"
  using assms by (auto simp: serviceReceive_def handleWith_def Let_def case_prod_beta)

lemma live_set:
  assumes "live L ref cid r" "jm_get (as_cohortStates (rn_session r)) cid = Some st" "quiet st st'"
    "service_reach L ((rn_session r)\<lparr>as_cohortStates := jm_set cid st' (as_cohortStates (rn_session r))\<rparr>)"
  shows "live L ref cid (r\<lparr>rn_session := (rn_session r)\<lparr>as_cohortStates := jm_set cid st' (as_cohortStates (rn_session r))\<rparr>\<rparr>)"
  using assms by (auto simp: live_def local_ok_def at_def context_ok_def live_ok_def quiet_def)

lemma receive_complete:
  assumes live: "live L ref cid r" and body: "body_str (m_body m) ''cohortId'' = Some cid" "cid \<noteq> []"
    and handler: "\<And>mx st. messageHandler L mx m st = h st"
    and result: "\<And>st st' res. h st = (st', res) \<Longrightarrow> quiet st st' \<or> res = Inr () \<and> cs_phase st = ph \<and> cs_phase st' = ServiceComplete \<and>
      (\<exists>r. cs_result st' = Some r \<and> ar_cohortId r = the (body_str (m_body m) ''cohortId''))"
    and entered: "\<And>st. service_inv L st \<Longrightarrow> cs_phase st \<noteq> ServiceComplete \<Longrightarrow> cs_phase (fst (h st)) = ServiceComplete \<Longrightarrow>
      \<exists>r. cs_result (fst (h st)) = Some r \<and> good st r"
    and path: "p = (if ph = FallbackRequested then Some Fallback else None)"
  shows "live L ref cid (fst (receiveFor L ref m r)) \<or>
    snd (snd (receiveFor L ref m r)) = Inr () \<and> won L ref cid p good (fst (receiveFor L ref m r))"
proof -
  from live obtain st where st: "jm_get (as_cohortStates (rn_session r)) cid = Some st" "cs_phase st \<noteq> ServiceComplete"
    "cx_committedPath (rn_runs r ! ref) = (if cs_phase st = FallbackRequested then Some Fallback else None)"
    by (auto simp: live_def local_ok_def at_def context_ok_def live_ok_def)
  obtain st' res where step: "serviceReceive L m (rn_session r) =
      ((rn_session r)\<lparr>as_cohortStates := jm_set cid st' (as_cohortStates (rn_session r))\<rparr>, res)"
    "st' = reject (m_from m) ''WRONG_VERSION'' st \<and> res = Inr () \<or> h st = (st', res)"
    using receive_step [OF st(1) body, of L] handler by auto
  let ?svc = "(rn_session r)\<lparr>as_cohortStates := jm_set cid st' (as_cohortStates (rn_session r))\<rparr>"
  have reach: "service_reach L ?svc" "service_reach L (rn_session r)"
    using service_reach.call [of L "rn_session r" "ReceiveMessage m"] live step(1) by (simp_all add: live_def local_ok_def)
  show ?thesis
  proof (cases "quiet st st'")
    case True
    then show ?thesis using receive_rule [of L m r ref cid p good] live_set [OF live st(1) True reach(1)] step(1) by simp
  next
    case False
    then have h: "h st = (st', res)" using step(2) by auto
    obtain q where q: "res = Inr ()" "cs_phase st = ph" "cs_phase st' = ServiceComplete" "cs_result st' = Some q" "ar_cohortId q = cid"
      using result [OF h] False body(1) by auto
    have "service_inv L st" using service_reach_inv [OF reach(2) st(1)] .
    then have good: "good st q" using entered [of st] st(2) q(3,4) h by simp
    have "won L ref cid p good (r\<lparr>rn_session := ?svc\<rparr>)"
      unfolding won_def
    proof (intro conjI exI)
      show "service_reach L (rn_session r)" "jm_get (as_cohortStates (rn_session r)) cid = Some st" "good st q" "ar_cohortId q = cid"
        using reach(2) st(1) good q(5) by simp_all
      show "jm_get (as_cohortStates (rn_session (r\<lparr>rn_session := ?svc\<rparr>))) cid = Some st'" "cs_result st' = Some q"
        using q(4) by simp_all
    qed (use live reach(1) st(3) q(2) path in \<open>auto simp: live_def local_ok_def at_def\<close>)
    then show ?thesis using receive_rule [of L m r ref cid p good] step(1) q(1) by simp
  qed
qed

lemma signature_receive:
  assumes "live L ref cid r" "body_str (m_body m) ''cohortId'' = Some cid" "cid \<noteq> []" "m_type m = SIGNATURE_AUTHORIZATION"
  shows "live L ref cid (fst (receiveFor L ref m r)) \<or>
    snd (snd (receiveFor L ref m r)) = Inr () \<and> won L ref cid None (key_path_result L) (fst (receiveFor L ref m r))"
proof (rule receive_complete [OF assms(1-3), where ph = AwaitingPartialSigs])
  show "messageHandler L mx m st = handleSignatureAuthorization L m st" for mx st
    using assms(4) by (simp add: messageHandler_def message_types)
  show "quiet st st' \<or> res = Inr () \<and> cs_phase st = AwaitingPartialSigs \<and> cs_phase st' = ServiceComplete \<and>
      (\<exists>r. cs_result st' = Some r \<and> ar_cohortId r = the (body_str (m_body m) ''cohortId''))"
    if "handleSignatureAuthorization L m st = (st', res)" for st st' res using signature_result [OF that] .
  show "\<exists>r. cs_result (fst (handleSignatureAuthorization L m st)) = Some r \<and> key_path_result L st r"
    if "service_inv L st" "cs_phase st \<noteq> ServiceComplete" "cs_phase (fst (handleSignatureAuthorization L m st)) = ServiceComplete" for st
    using key_path_entered [OF that] .
qed simp

lemma fallback_receive:
  assumes "live L ref cid r" "body_str (m_body m) ''cohortId'' = Some cid" "cid \<noteq> []" "m_type m = FALLBACK_SIGNATURE"
  shows "live L ref cid (fst (receiveFor L ref m r)) \<or>
    snd (snd (receiveFor L ref m r)) = Inr () \<and> won L ref cid (Some Fallback) (script_path_result L) (fst (receiveFor L ref m r))"
proof (rule receive_complete [OF assms(1-3), where ph = FallbackRequested])
  show "messageHandler L mx m st = handleFallbackSignature L m st" for mx st
    using assms(4) by (simp add: messageHandler_def message_types)
  show "quiet st st' \<or> res = Inr () \<and> cs_phase st = FallbackRequested \<and> cs_phase st' = ServiceComplete \<and>
      (\<exists>r. cs_result st' = Some r \<and> ar_cohortId r = the (body_str (m_body m) ''cohortId''))"
    if "handleFallbackSignature L m st = (st', res)" for st st' res using fallback_result [OF that] .
  show "\<exists>r. cs_result (fst (handleFallbackSignature L m st)) = Some r \<and> script_path_result L st r"
    if "service_inv L st" "cs_phase st \<noteq> ServiceComplete" "cs_phase (fst (handleFallbackSignature L m st)) = ServiceComplete" for st
    using script_path_entered [OF that(2,3)] .
qed simp

section \<open>The handlers keep it\<close>

lemma keep_perform [simp]: "fst (perform effs r) = r"
  by (simp add: perform_def)

lemma keep_on_session:
  assumes "calm L cid f" "local_ok L ref cid r" "\<And>v r'. local_ok L ref cid r' \<Longrightarrow> local_ok L ref cid (fst (k v r'))"
  shows "local_ok L ref cid (fst (on_session f k r))"
  by (rule on_session_rule [where P = "local_ok L ref cid"]) (use calm_local [OF assms(1,2)] assms(3) in auto)

lemma keep_and_then:
  assumes "local_ok L ref cid (fst out)" "\<And>r'. local_ok L ref cid r' \<Longrightarrow> local_ok L ref cid (fst (f r'))"
  shows "local_ok L ref cid (fst (and_then out f))"
  by (rule and_then_rule [where P = "local_ok L ref cid"]) (use assms in auto)

lemmas keep_rules = keep_and_then keep_on_session calm_actions keep_sendAll(1) keep_suspend(1)

lemma keep_complete:
  assumes "won L ref cid p good r" "p = None \<and> good = key_path_result L"
  shows "local_ok L ref cid (fst (completeCohort ref (the (getResult cid (rn_session r)))
    (on_run ref (\<lambda>c. c\<lparr>cx_committedPath := Some Optimistic\<rparr>) r)))"
  using assms(1)
proof (cases rule: won_result)
  case (1 res svc s)
  have "at ref cid r" "ref < length (rn_runs r)" using assms(1) by (simp_all add: won_def at_def)
  then show ?thesis
    using 1 assms by (intro complete_ok [of ref cid _ L _ svc s]) (auto simp: won_def at_def)
qed

lemma keep_complete_fallback:
  assumes "won L ref cid (Some Fallback) (script_path_result L) r"
  shows "local_ok L ref cid (fst (completeCohort ref (the (getResult cid (rn_session r))) r))"
  using assms
proof (cases rule: won_result)
  case (1 res svc s)
  show ?thesis
    using 1 assms by (intro complete_ok [of ref cid _ L _ svc s]) (auto simp: won_def)
qed

lemma live_no_result: "live L ref cid r \<Longrightarrow> getResult cid (rn_session r) = None"
  by (auto simp: live_def local_ok_def context_ok_def live_ok_def getResult_def)

lemma keep_handlers:
  assumes "live L ref cid r" "body_str (m_body m) ''cohortId'' = Some cid" "cid \<noteq> []"
  shows "local_ok L ref cid (fst (messageStep L peerError nonce ref m r))"
proof -
  have cid: "cx_cohortId (rn_runs r' ! ref) = cid" if "at ref cid r'" for r' :: "'a AggregationServiceRunner" using that by (simp add: at_def)
  have c: "cx_cohortId (rn_runs r ! ref) = cid" using cid live_at(1) [OF assms(1)] .
  have receive: "local_ok L ref cid (fst (receiveFor L ref m r))"
    if "m_type m \<noteq> SIGNATURE_AUTHORIZATION" "m_type m \<noteq> FALLBACK_SIGNATURE"
    using live_local [OF receive_live [OF assms(1,2) that]] .
  consider "m_type m = COHORT_OPT_IN" | "m_type m = SUBMIT_UPDATE \<or> m_type m = SUBMIT_NONINCLUDED"
    | "m_type m = VALIDATION_ACK" | "m_type m = NONCE_CONTRIBUTION" | "m_type m = SIGNATURE_AUTHORIZATION"
    | "m_type m = FALLBACK_SIGNATURE" | "m_type m \<notin> {COHORT_OPT_IN, SUBMIT_UPDATE, SUBMIT_NONINCLUDED, VALIDATION_ACK,
        NONCE_CONTRIBUTION, SIGNATURE_AUTHORIZATION, FALLBACK_SIGNATURE}"
    by blast
  then show ?thesis
  proof cases
    case 1
    have "local_ok L ref cid (fst (handleOptInMessage L peerError ref m r))"
      unfolding handleOptInMessage_def
      by (rule keep_and_then [OF receive]) (auto simp: 1 message_types intro!: keep_rules split: option.split)
    then show ?thesis by (simp add: messageStep_def 1)
  next
    case 2
    have "local_ok L ref cid (fst (handleUpdateMessage L nonce ref m r))"
      unfolding handleUpdateMessage_def Let_def c
      by (rule keep_and_then [OF receive]) (use 2 in \<open>auto simp: message_types intro!: keep_rules\<close>)
    then show ?thesis using 2 by (auto simp: messageStep_def message_types)
  next
    case 3
    have "local_ok L ref cid (fst (handleAckMessage L ref m r))"
      unfolding handleAckMessage_def Let_def c
      by (rule keep_and_then [OF receive])
         (auto simp: 3 message_types case_prod_beta intro!: keep_rules fail_ok split: option.split)
    then show ?thesis by (simp add: messageStep_def 3 message_types)
  next
    case 4
    have "local_ok L ref cid (fst (handleNonceMessage L ref m r))"
      unfolding handleNonceMessage_def Let_def c
      by (rule keep_and_then [OF receive]) (auto simp: 4 message_types intro!: keep_rules)
    then show ?thesis by (simp add: messageStep_def 4 message_types)
  next
    case 5
    have "local_ok L ref cid (fst (handleSignatureMessage L ref m r))"
      using signature_receive [OF assms 5]
    proof
      assume "live L ref cid (fst (receiveFor L ref m r))"
      then show ?thesis
        unfolding handleSignatureMessage_def
        by (rule and_then_rule [where P = "live L ref cid"])
           (auto simp: live_no_result cid live_at live_local)
    next
      assume w: "snd (snd (receiveFor L ref m r)) = Inr () \<and> won L ref cid None (key_path_result L) (fst (receiveFor L ref m r))"
      then obtain r1 effs where out: "receiveFor L ref m r = (r1, effs, Inr ())" "won L ref cid None (key_path_result L) r1"
        by (cases "receiveFor L ref m r") auto
      have "cx_cohortId (rn_runs r1 ! ref) = cid" "cx_committedPath (rn_runs r1 ! ref) = None" using out(2) by (simp_all add: won_def at_def)
      moreover obtain res where "getResult cid (rn_session r1) = Some res" using out(2) by (cases rule: won_result) blast
      ultimately show ?thesis
        using keep_complete [OF out(2)] by (simp add: handleSignatureMessage_def out(1) and_then_def case_prod_beta Let_def)
    qed
    then show ?thesis by (simp add: messageStep_def 5 message_types)
  next
    case 6
    have "local_ok L ref cid (fst (handleFallbackMessage L ref m r))"
      using fallback_receive [OF assms 6]
    proof
      assume "live L ref cid (fst (receiveFor L ref m r))"
      then show ?thesis
        unfolding handleFallbackMessage_def
        by (rule and_then_rule [where P = "live L ref cid"])
           (auto simp: live_no_result cid live_at live_local)
    next
      assume w: "snd (snd (receiveFor L ref m r)) = Inr () \<and> won L ref cid (Some Fallback) (script_path_result L) (fst (receiveFor L ref m r))"
      then obtain r1 effs where out: "receiveFor L ref m r = (r1, effs, Inr ())" "won L ref cid (Some Fallback) (script_path_result L) r1"
        by (cases "receiveFor L ref m r") auto
      have "cx_cohortId (rn_runs r1 ! ref) = cid" using out(2) by (simp add: won_def at_def)
      moreover obtain res where "getResult cid (rn_session r1) = Some res" using out(2) by (cases rule: won_result) blast
      ultimately show ?thesis
        using keep_complete_fallback [OF out(2)] by (simp add: handleFallbackMessage_def out(1) and_then_def case_prod_beta Let_def)
    qed
    then show ?thesis by (simp add: messageStep_def 6 message_types)
  next
    case 7
    then show ?thesis using live_local [OF assms(1)] by (simp add: messageStep_def)
  qed
qed

lemma context_finalizing [simp]: "context_ok L ref (c\<lparr>cx_finalizing := b\<rparr>) e st = context_ok L ref c e st"
  by (simp add: context_ok_def live_ok_def settled_ok_def)

lemma keep_resumed:
  assumes "local_ok L ref cid r"
  shows "local_ok L ref cid (fst (acceptOptIn L ref did accepted r))" "local_ok L ref cid (fst (afterAccept ref did r))"
    "local_ok L ref cid (fst (finalizeRun L ref finalize r))" "local_ok L ref cid (fst (startSigningRun L ref uuid txData r))"
proof -
  have c: "cx_cohortId (rn_runs r ! ref) = cid" using live_at(2) [OF assms] by (simp add: at_def)
  have flag: "local_ok L ref cid (on_run ref (\<lambda>c. c\<lparr>cx_finalizing := b\<rparr>) r')" if "local_ok L ref cid r'" for b and r' :: "'a AggregationServiceRunner"
    by (rule local_run [OF that]) simp_all
  show "local_ok L ref cid (fst (acceptOptIn L ref did accepted r))"
    unfolding acceptOptIn_def Let_def c using assms by (auto intro!: keep_rules)
  show "local_ok L ref cid (fst (startSigningRun L ref uuid txData r))"
    unfolding startSigningRun_def Let_def c using assms by (auto intro!: keep_rules)
  show "local_ok L ref cid (fst (finalizeRun L ref finalize r))"
    unfolding finalizeRun_def Let_def c case_prod_beta using assms by (auto intro!: keep_rules flag keep_stopAdvert(1))
  show "local_ok L ref cid (fst (afterAccept ref did r))"
    unfolding afterAccept_def Let_def c using assms by (auto intro!: keep_rules flag split: option.split)
qed

lemma keep_trigger:
  assumes "local_ok L ref cid r"
  shows "local_ok L ref cid (fst (triggerFallback L cid k r))"
proof (cases "jm_get (rn_contexts r) cid = Some ref \<and> \<not> cx_settled (rn_runs r ! ref) \<and> cx_committedPath (rn_runs r ! ref) = None")
  case False
  then have "triggerFallback L cid k r = perform [] r"
    using assms by (auto simp: triggerFallback_def local_ok_def context_ok_def split: option.split if_splits)
  then show ?thesis using assms by simp
next
  case True
  then have live: "live L ref cid r" using assms by (simp add: live_def)
  then obtain st where st: "jm_get (as_cohortStates (rn_session r)) cid = Some st" "cs_result st = None"
    by (auto simp: live_def local_ok_def context_ok_def live_ok_def)
  obtain st' res where start: "startFallbackState L (rn_session r) cid st = (st', res)" by (cases "startFallbackState L (rn_session r) cid st")
  let ?svc = "(rn_session r)\<lparr>as_cohortStates := jm_set cid st' (as_cohortStates (rn_session r))\<rparr>"
  have step: "startFallbackSigning L cid (rn_session r) = (?svc, res)"
    using st(1) start by (simp add: startFallbackSigning_def onCohort_def)
  have reach: "service_reach L ?svc"
    using service_reach.call [of L "rn_session r" "StartFallbackSigning cid"] assms step by (simp add: local_ok_def)
  show ?thesis
  proof (cases res)
    case (Inl e)
    then have "st' = st" using start_fallback_result [OF start] by simp
    then have "live L ref cid (r\<lparr>rn_session := ?svc\<rparr>)" using live_set [OF live st(1) _ reach] by simp
    then show ?thesis using True by (simp add: triggerFallback_def on_session_def step Inl live_local)
  next
    case (Inr messages)
    then have st': "cs_result st' = None" "cs_phase st' = FallbackRequested" using start_fallback_result [OF start] st(2) by auto
    let ?r = "on_run ref (\<lambda>c. c\<lparr>cx_committedPath := Some Fallback\<rparr>) (r\<lparr>rn_session := ?svc\<rparr>)"
    have "live L ref cid ?r"
      using assms True st' reach by (auto simp: live_def local_ok_def at_def context_ok_def live_ok_def)
    then have "live L ref cid (onPhaseMaybeChanged ref (fst (stopAdvertRepeating ref ?r)))"
      by (intro keep_phase keep_stopAdvert)
    then show ?thesis
      using True
      by (simp add: triggerFallback_def on_session_def step Inr Let_def case_prod_beta)
         (intro keep_and_then keep_sendAll(1); simp add: live_local)
  qed
qed

lemma keep_advertise:
  assumes "live L ref cid r"
  shows "local_ok L ref cid (fst (advertiseRun ref cid r))"
  unfolding advertiseRun_def
proof (rule guarded_ok, rule on_session_rule [where P = "live L ref cid"])
  show "live L ref cid (startTimers ref r\<lparr>rn_session := fst (advertise cid (rn_session (startTimers ref r)))\<rparr>)"
    by (rule calm_live [OF calm_actions(1) keep_start [OF assms]])
next
  fix msgs r' assume l: "live L ref cid r'"
  have publish: "local_ok L ref cid (fst (publishAdverts ref msgs r''))" if "live L ref cid r''" for r''
    using live_run [OF that, of "\<lambda>c. c\<lparr>cx_stopAdvertRepeat := True\<rparr>"] keep_sendAll(1) [OF live_local [OF that]]
    by (auto simp: publishAdverts_def context_ok_def live_ok_def intro!: live_local)
  show "local_ok L ref cid (fst (and_then (perform [Emit (CohortAdvertised cid)] (onPhaseMaybeChanged ref r')) (publishAdverts ref msgs)))"
    by (rule and_then_rule [where P = "live L ref cid"]) (simp_all add: keep_phase l publish live_local)
qed (simp add: live_local)

lemma own_advertise:
  assumes "at ref cid r"
  shows "own_step L ref cid (startTimers ref r) (snd (advertiseRun ref cid r)) (fst (advertiseRun ref cid r))"
proof -
  have start: "at ref cid (startTimers ref r)" using assms by (simp add: startTimers_def resetPhaseTimer_def at_def)
  have "own_out L ref cid r' (publishAdverts ref msgs r')" for msgs and r' :: "'a AggregationServiceRunner"
    by (auto simp: publishAdverts_def own_out_def run_le_def intro!: own_run own_sendAll [unfolded own_out_def])
  then have "own_out L ref cid (startTimers ref r) (on_session (advertise cid) (\<lambda>msgs r.
       and_then (perform [Emit (CohortAdvertised cid)] (onPhaseMaybeChanged ref r)) (publishAdverts ref msgs)) (startTimers ref r))"
    using own_trans [OF own_phase own_refl, of "[Emit (CohortAdvertised cid)]"]
    by (intro own_on_session call_of_actions own_and_then own_perform start) (auto intro: start)
  from own_guarded [OF this start] show ?thesis by (simp add: advertiseRun_def)
qed

lemma context_untimed: "context_ok L ref c e st \<Longrightarrow> context_ok L ref (c\<lparr>cx_phaseTimer := False\<rparr>) e st"
proof -
  have "live_ok (c\<lparr>cx_phaseTimer := False\<rparr>) st = live_ok c st" "settled_ok L (c\<lparr>cx_phaseTimer := False\<rparr>) st = settled_ok L c st"
    by (simp_all add: live_ok_def settled_ok_def)
  then show "context_ok L ref c e st \<Longrightarrow> context_ok L ref (c\<lparr>cx_phaseTimer := False\<rparr>) e st" by (simp add: context_ok_def)
qed

lemma keep_timeout:
  assumes "local_ok L ref cid r"
  shows "local_ok L ref cid (fst (phaseTimeout L ref r))"
proof -
  let ?r = "on_run ref (\<lambda>c. c\<lparr>cx_phaseTimer := False\<rparr>) r"
  have "local_ok L ref cid ?r"
    by (rule local_run [OF assms]) (simp_all add: context_untimed)
  moreover have "cx_cohortId (rn_runs r ! ref) = cid" using assms by (simp add: local_ok_def at_def)
  ultimately show ?thesis
    by (auto simp: phaseTimeout_def Let_def case_prod_beta intro!: guarded_ok keep_trigger fail_ok)
qed

lemma own_timeout:
  assumes "at ref cid r" "jm_get (rn_contexts r) cid = Some ref"
  shows "own_step L ref cid r (snd (phaseTimeout L ref r)) (fst (phaseTimeout L ref r))"
proof -
  let ?r = "on_run ref (\<lambda>c. c\<lparr>cx_phaseTimer := False\<rparr>) r"
  have cid: "cx_cohortId (rn_runs r ! ref) = cid" using assms(1) by (simp add: at_def)
  have s: "own_step L ref cid r [] ?r" by (rule own_run) (simp_all add: run_le_def)
  have at: "at ref cid ?r" using own_at [OF s assms(1)] .
  have "own_step L ref cid r (snd (guarded ref (triggerFallback L cid (AtEnd ref) ?r))) (fst (guarded ref (triggerFallback L cid (AtEnd ref) ?r)))"
    using own_trans [OF s own_guarded [OF own_trigger [OF at] at]] assms(2) by simp
  moreover have "own_step L ref cid r (Emit (CohortFailed cid c) # snd (failCohort ref e ?r)) (fst (failCohort ref e ?r))" for c e
    using own_trans [OF own_refl own_trans [OF s own_fail [OF at]], of "[Emit (CohortFailed cid c)]"] by simp
  ultimately show ?thesis by (simp add: phaseTimeout_def Let_def case_prod_beta cid)
qed

end
