(* ===== verification/DemoRunner.thy ===== *)
theory DemoRunner
  imports DemoAgg ServiceRunner
begin

text \<open>
  A run of the service runner for the cohort of \<open>DemoAgg\<close>: two participants ask to join while the
  decision about the first is pending, both are accepted, decline, validate and sign; the messages are
  resumed one by one. The transport takes keys of 33 bytes.
\<close>

definition demo_peerError :: "string \<Rightarrow> bytes \<Rightarrow> error option" where
  "demo_peerError did key = (if length key = 33 then None else Some (Error ''HttpTransportError'' ''INVALID_PEER_KEY''))"

definition demo_runner_options :: runner_options where
  "demo_runner_options =
     \<lparr>ro_did = ''did:s'', ro_publicKey = [], ro_config = None, ro_maxUpdateSizeBytes = None, ro_cohortTtlMs = Some 1000,
      ro_phaseTimeoutMs = Some 100, ro_advertRepeatIntervalMs = None, ro_autoFallbackOnStall = Some True\<rparr>"

definition demo_messages :: "(string \<Rightarrow> bytes \<Rightarrow> BaseMessage) \<Rightarrow> demo_tx runner_input list" where
  "demo_messages f = map (\<lambda>(did, pk). TransportMessage (\<lambda>_. replicate 32 0) (f did pk)) demo_members"

definition demo_inputs :: "demo_tx runner_input list" where
  "demo_inputs =
    AdvertiseCohort ''c'' demo_config #
    demo_messages (\<lambda>did pk. createCohortOptInMessage did ''did:s'' ''c'' pk pk JUndef) @
    [Resume 0 (Accepted True), Resume 0 (Accepted True), Resume 0 Sent, Resume 0 Sent, Resume 0 (Finalize True), Resume 0 Sent,
     Resume 0 Sent] @
    demo_messages (\<lambda>did pk. createSubmitNonIncludedMessage did ''did:s'' ''c'') @
    [Resume 0 Sent, Resume 0 Sent] @
    demo_messages (\<lambda>did pk. createValidationAckMessage did ''did:s'' ''c'' True) @
    [Resume 0 (TxDataReply ''u'' demo_txData), Resume 0 Sent, Resume 0 Sent] @
    demo_messages (\<lambda>did pk. createNonceContributionMessage did ''did:s'' ''c'' ''u'' (replicate 66 2)) @
    [Resume 0 Sent, Resume 0 Sent] @
    demo_messages (\<lambda>did pk. createSignatureAuthorizationMessage did ''did:s'' ''c'' ''u'' (demo_sighash demo_beacon_tx))"

definition demo_runner :: "nat \<Rightarrow> demo_tx AggregationServiceRunner \<times> demo_tx run_effect list" where
  "demo_runner n = runnerSteps demo_alib demo_peerError (take n demo_inputs) (newServiceRunner demo_runner_options)"

text \<open>What the witnesses read off the states of the run.\<close>

definition demo_run_expect :: "nat \<Rightarrow> demo_tx AggregationServiceRunner \<Rightarrow> bool" where
  "demo_run_expect n r =
    (case rn_runs r of
       [c] \<Rightarrow> cx_cohortId c = ''c'' \<and>
         (if n < 25 then \<not> cx_settled c \<and> jm_get (rn_contexts r) ''c'' = Some 0 \<and> rn_handlersRegistered r \<and> rn_cohortTtlMs r \<noteq> None
          else (case cx_completion c of Fulfilled res \<Rightarrow> ar_cohortId res = ''c'' \<and> ar_path res = ''key-path'' | _ \<Rightarrow> False)) \<and>
         (if n = 1 then (case jm_get (as_cohortStates (rn_session r)) ''c'' of
              Some st \<Rightarrow> cs_phase st = Advertised \<and> cs_acceptedParticipants st = [] | None \<Rightarrow> False) else True) \<and>
         (if n = 16 then getCohortPhase ''c'' (rn_session r) = Some Validated \<and> rn_tasks r = [TxData 0] else True)
     | _ \<Rightarrow> n = 0)"

definition demo_completes :: "demo_tx run_effect \<Rightarrow> bool" where
  "demo_completes e = (case e of Emit (SigningComplete res) \<Rightarrow> ar_cohortId res = ''c'' | _ \<Rightarrow> False)"

fun demo_run_holds :: "nat \<Rightarrow> demo_tx AggregationServiceRunner \<Rightarrow> demo_tx runner_input list \<Rightarrow> bool" where
  "demo_run_holds n r is' \<longleftrightarrow> demo_run_expect n r \<and>
     (case is' of [] \<Rightarrow> True
      | i # is' \<Rightarrow> (let (r, effs) = runnerStep demo_alib demo_peerError i r
                   in demo_run_holds (Suc n) r is' \<and> (is' = [] \<longrightarrow> list_ex demo_completes effs)))"

declare demo_run_holds.simps [simp del]

lemma demo_runner_holds: "demo_run_holds 0 (newServiceRunner demo_runner_options) demo_inputs"
  by code_simp

lemma demo_inputs_length: "length demo_inputs = 25"
  by (simp add: demo_inputs_def demo_messages_def demo_members_def)

lemma demo_holds_prefix:
  assumes "demo_run_holds k r is'" "n \<le> length is'"
  shows "demo_run_expect (k + n) (fst (runnerSteps demo_alib demo_peerError (take n is') r)) \<and>
    (n = length is' \<longrightarrow> is' \<noteq> [] \<longrightarrow> list_ex demo_completes (snd (runnerSteps demo_alib demo_peerError is' r)))"
  using assms
proof (induction n arbitrary: k r is')
  case 0
  then show ?case by (simp add: demo_run_holds.simps [of k r is'])
next
  case (Suc n)
  then obtain i is'' where is': "is' = i # is''" by (cases is') auto
  obtain r1 effs where step: "runnerStep demo_alib demo_peerError i r = (r1, effs)" by (cases "runnerStep demo_alib demo_peerError i r")
  have holds: "demo_run_holds (Suc k) r1 is''" "is'' = [] \<longrightarrow> list_ex demo_completes effs"
    using Suc.prems(1) step by (simp_all add: is' demo_run_holds.simps [of k r "i # is''"])
  have "demo_run_expect (Suc k + n) (fst (runnerSteps demo_alib demo_peerError (take n is'') r1)) \<and>
      (n = length is'' \<longrightarrow> is'' \<noteq> [] \<longrightarrow> list_ex demo_completes (snd (runnerSteps demo_alib demo_peerError is'' r1)))"
    using Suc.IH [OF holds(1)] Suc.prems(2) by (simp add: is')
  then show ?case using holds(2) step by (cases "is'' = []") (simp_all add: is' case_prod_beta Let_def)
qed

lemma demo_runner_facts: "n \<le> 25 \<Longrightarrow> demo_run_expect n (fst (demo_runner n))"
  "\<exists>res. Emit (SigningComplete res) \<in> set (snd (demo_runner 25)) \<and> ar_cohortId res = ''c''"
proof -
  note holds = demo_holds_prefix [OF demo_runner_holds]
  show "n \<le> 25 \<Longrightarrow> demo_run_expect n (fst (demo_runner n))"
    using holds [of n] by (simp add: demo_runner_def demo_inputs_length)
  have ne: "demo_inputs \<noteq> []" and all: "take 25 demo_inputs = demo_inputs" using demo_inputs_length by auto
  have "list_ex demo_completes (snd (demo_runner 25))"
    using holds [of 25] demo_inputs_length ne unfolding demo_runner_def all by simp
  then obtain e where e: "e \<in> set (snd (demo_runner 25))" "demo_completes e" by (auto simp: list_ex_iff)
  from e(2) obtain res where "e = Emit (SigningComplete res)" "ar_cohortId res = ''c''"
    unfolding demo_completes_def by (cases e) (auto split: service_event.splits)
  then show "\<exists>res. Emit (SigningComplete res) \<in> set (snd (demo_runner 25)) \<and> ar_cohortId res = ''c''" using e(1) by blast
qed

end
