(* ===== verification/RunnerProps.thy ===== *)
theory RunnerProps
  imports RunnerInvariant DemoRunner
begin

text \<open>
  The service runner over all its inputs: the invariant of every reachable runner, what a settled
  completion means, that a cohort never takes both spend paths and that cohorts do not disturb each
  other; and two inputs that make the runner fail a cohort without need.
\<close>

section \<open>Steps\<close>

definition runner_ok :: "('tx, 'x) agg_lib_scheme \<Rightarrow> 'tx AggregationServiceRunner \<Rightarrow> bool" where
  "runner_ok L r \<longleftrightarrow> service_reach L (rn_session r) \<and> distinct (map cx_cohortId (rn_runs r)) \<and>
     (\<forall>ref < length (rn_runs r). local_ok L ref (cx_cohortId (rn_runs r ! ref)) r) \<and>
     (\<forall>(cid, ref) \<in> set (rn_contexts r). at ref cid r) \<and>
     (\<forall>t \<in> set (rn_tasks r). \<forall>ref. task_ref t = Some ref \<longrightarrow> ref < length (rn_runs r)) \<and>
     (rn_stopped r \<longrightarrow> rn_contexts r = [])"

definition step_le :: "'tx AggregationServiceRunner \<Rightarrow> 'tx run_effect list \<Rightarrow> 'tx AggregationServiceRunner \<Rightarrow> bool" where
  "step_le r effs r' \<longleftrightarrow> length (rn_runs r) \<le> length (rn_runs r') \<and>
     (\<forall>i < length (rn_runs r). run_le (rn_runs r ! i) (rn_runs r' ! i)) \<and>
     (\<forall>d sid. Emit (FallbackStarted d sid) \<in> set effs \<longrightarrow> (\<exists>i. at i d r' \<and> cx_committedPath (rn_runs r' ! i) = Some Fallback)) \<and>
     (\<forall>res. Emit (SigningComplete res) \<in> set effs \<longrightarrow>
        (\<exists>i < length (rn_runs r'). cx_settled (rn_runs r' ! i) \<and> cx_completion (rn_runs r' ! i) = Fulfilled res)) \<and>
     rn_cohortTtlMs r' = rn_cohortTtlMs r \<and>
     (\<forall>i < length (rn_runs r'). length (rn_runs r) \<le> i \<longrightarrow> \<not> cx_settled (rn_runs r' ! i) \<longrightarrow>
        cx_cohortTtlTimer (rn_runs r' ! i) = (rn_cohortTtlMs r \<noteq> None))"

lemma step_le_refl: "silent effs \<Longrightarrow> step_le r effs r"
  by (auto simp: step_le_def silent_def)

lemma step_le_trans:
  assumes "step_le r effs r'" "step_le r' effs' r''"
  shows "step_le r (effs @ effs') r''"
proof -
  have le: "run_le (rn_runs r' ! i) (rn_runs r'' ! i)" "i < length (rn_runs r'')" if "i < length (rn_runs r')" for i
    using assms(2) that by (auto simp: step_le_def)
  have first: "run_le (rn_runs r ! i) (rn_runs r'' ! i)" if "i < length (rn_runs r)" for i
    using assms(1) that le(1) [of i] by (auto simp: step_le_def intro: run_le_trans)
  have fb: "\<exists>i. at i d r'' \<and> cx_committedPath (rn_runs r'' ! i) = Some Fallback"
    if e: "Emit (FallbackStarted d sid) \<in> set effs" for d sid
  proof -
    obtain i where i: "at i d r'" "cx_committedPath (rn_runs r' ! i) = Some Fallback" using assms(1) e unfolding step_le_def by blast
    then have "at i d r'' \<and> cx_committedPath (rn_runs r'' ! i) = Some Fallback" using le [of i] by (auto simp: at_def run_le_def)
    then show ?thesis ..
  qed
  have sc: "\<exists>i < length (rn_runs r''). cx_settled (rn_runs r'' ! i) \<and> cx_completion (rn_runs r'' ! i) = Fulfilled res"
    if e: "Emit (SigningComplete res) \<in> set effs" for res
  proof -
    obtain i where i: "i < length (rn_runs r')" "cx_settled (rn_runs r' ! i)" "cx_completion (rn_runs r' ! i) = Fulfilled res"
      using assms(1) e unfolding step_le_def by blast
    then show ?thesis using le [of i] by (auto simp: run_le_def)
  qed
  show ?thesis
    unfolding step_le_def
  proof (intro conjI allI impI)
    show "length (rn_runs r) \<le> length (rn_runs r'')" using assms by (simp add: step_le_def)
    show "\<exists>i. at i d r'' \<and> cx_committedPath (rn_runs r'' ! i) = Some Fallback"
      if "Emit (FallbackStarted d sid) \<in> set (effs @ effs')" for d sid
      using that fb [of d sid] assms(2) unfolding step_le_def by auto
    show "\<exists>i < length (rn_runs r''). cx_settled (rn_runs r'' ! i) \<and> cx_completion (rn_runs r'' ! i) = Fulfilled res"
      if "Emit (SigningComplete res) \<in> set (effs @ effs')" for res
      using that sc [of res] assms(2) unfolding step_le_def by auto
    show "cx_cohortTtlTimer (rn_runs r'' ! i) = (rn_cohortTtlMs r \<noteq> None)"
      if "i < length (rn_runs r'')" "length (rn_runs r) \<le> i" "\<not> cx_settled (rn_runs r'' ! i)" for i
    proof (cases "i < length (rn_runs r')")
      case True
      then show ?thesis using le(1) [OF True] that assms(1) by (auto simp: step_le_def run_le_def)
    next
      case False
      then show ?thesis using that assms by (auto simp: step_le_def)
    qed
    show "rn_cohortTtlMs r'' = rn_cohortTtlMs r" using assms by (simp add: step_le_def)
  qed (use first in simp)
qed

lemma own_step_le:
  assumes "own_step L ref cid r effs r'" "at ref cid r"
  shows "step_le r effs r'"
proof -
  note o' = own_stepD [OF assms(1)]
  have "run_le (rn_runs r ! i) (rn_runs r' ! i)" if "i < length (rn_runs r)" for i
    using o'(2) [OF that] o'(3) by (cases "i = ref") simp_all
  moreover have "at ref cid r'" using own_at [OF assms] .
  ultimately show ?thesis
    unfolding step_le_def using o'(1,11-13,15) by (auto simp: at_def)
qed

text \<open>A step on one context that keeps its part of the invariant keeps all of it.\<close>

lemma own_runner_ok:
  assumes ok: "runner_ok L r" and at: "at ref cid r" and own: "own_step L ref cid r effs r'" and local: "local_ok L ref cid r'"
  shows "runner_ok L r'"
proof -
  note o' = own_stepD [OF own]
  have le: "run_le (rn_runs r ! i) (rn_runs r' ! i)" if "i < length (rn_runs r)" for i
    using own_step_le [OF own at] that by (simp add: step_le_def)
  have ids: "map cx_cohortId (rn_runs r') = map cx_cohortId (rn_runs r)"
    using o'(1) le by (auto simp: list_eq_iff_nth_eq run_le_def)
  have dist: "distinct (map cx_cohortId (rn_runs r))" using ok by (simp add: runner_ok_def)
  have others: "local_ok L i (cx_cohortId (rn_runs r' ! i)) r'" if "i < length (rn_runs r')" for i
  proof (cases "i = ref")
    case True
    then show ?thesis using local by (auto simp: local_ok_def at_def)
  next
    case False
    have i: "i < length (rn_runs r)" using that o'(1) by simp
    have ne: "cx_cohortId (rn_runs r ! i) \<noteq> cid"
      using dist i at False by (auto simp: at_def distinct_conv_nth)
    have "local_ok L i (cx_cohortId (rn_runs r ! i)) r" using ok i by (simp add: runner_ok_def)
    then show ?thesis
      using o'(2) [OF i False] o'(4,6) [OF ne] o'(1,10) i by (simp add: local_ok_def at_def)
  qed
  have entries: "at i d r'" if "(d, i) \<in> set (rn_contexts r')" for d i
    using o'(14) [OF that] ok o'(1) le [of i] by (auto simp: runner_ok_def at_def run_le_def)
  have tasks: "i < length (rn_runs r')" if "t \<in> set (rn_tasks r')" "task_ref t = Some i" for t i
    using o'(9) [OF that(1)] that(2) ok at o'(1) by (auto simp: runner_ok_def at_def)
  have stopped: "rn_contexts r' = []" if "rn_stopped r'"
    using that o'(7) o'(14) ok by (cases "rn_contexts r'") (auto simp: runner_ok_def)
  show ?thesis
    unfolding runner_ok_def
    using ok others entries tasks stopped ids o'(10) by (auto simp: runner_ok_def simp del: map_eq_conv)
qed

lemma entry_at:
  assumes "runner_ok L r" "jm_get (rn_contexts r) cid = Some ref"
  shows "at ref cid r" "live L ref cid r"
proof -
  have "(cid, ref) \<in> set (rn_contexts r)" using assms(2) by (rule map_of_SomeD)
  then show at: "at ref cid r" using assms(1) by (auto simp: runner_ok_def)
  then have "local_ok L ref cid r" using assms(1) by (auto simp: runner_ok_def at_def)
  then show "live L ref cid r" using assms(2) by (auto simp: live_def local_ok_def context_ok_def split: if_splits)
qed

definition good_step :: "('tx, 'x) agg_lib_scheme \<Rightarrow> 'tx AggregationServiceRunner \<Rightarrow> 'tx AggregationServiceRunner \<times> 'tx run_effect list \<Rightarrow> bool" where
  "good_step L r out \<longleftrightarrow> runner_ok L (fst out) \<and> step_le r (snd out) (fst out)"

lemma good_own:
  "runner_ok L r \<Longrightarrow> at ref cid r \<Longrightarrow> own_step L ref cid r (snd out) (fst out) \<Longrightarrow> local_ok L ref cid (fst out) \<Longrightarrow> good_step L r out"
  using own_runner_ok own_step_le unfolding good_step_def by blast

lemma good_refl: "runner_ok L r \<Longrightarrow> good_step L r (r, [])"
  by (simp add: good_step_def step_le_refl)

lemma good_trans:
  "good_step L r (r', effs) \<Longrightarrow> good_step L r' (r'', effs') \<Longrightarrow> good_step L r (r'', effs @ effs')"
  by (auto simp: good_step_def intro: step_le_trans)

lemma good_guarded:
  assumes "runner_ok L r" "at ref cid r" "own_out L ref cid r out" "local_ok L ref cid (fst out)"
  shows "good_step L r (guarded ref out)"
  using good_own [OF assms(1,2) own_guarded [OF assms(3,2)] guarded_ok [OF assms(4)]] .

lemma good_dispatch:
  assumes "runner_ok L r"
  shows "good_step L r (dispatchMessage L peerError nonce m r)"
proof (cases "\<not> rn_handlersRegistered r \<or> rn_stopped r \<or> contextFor m r = None")
  case True
  then show ?thesis using good_refl [OF assms] by (auto simp: dispatchMessage_def)
next
  case False
  then obtain ref where ref: "contextFor m r = Some ref" by auto
  then obtain cid where cid: "body_str (m_body m) ''cohortId'' = Some cid" "cid \<noteq> []" "jm_get (rn_contexts r) cid = Some ref"
    by (auto simp: contextFor_def split: option.splits if_splits)
  note e = entry_at [OF assms cid(3)]
  show ?thesis
    using good_guarded [OF assms e(1) own_message [OF e(1) cid(1)] keep_handlers [OF e(2) cid(1,2)], of peerError nonce] False ref
    by (simp add: dispatchMessage_def)
qed

text \<open>Taking a task off the list.\<close>

lemma ok_untask: "runner_ok L r \<Longrightarrow> set ts \<subseteq> set (rn_tasks r) \<Longrightarrow> runner_ok L (r\<lparr>rn_tasks := ts\<rparr>)"
  by (auto simp: runner_ok_def local_ok_def at_def)

lemma step_le_untask: "step_le (r\<lparr>rn_tasks := ts\<rparr>) effs r' = step_le r effs r'"
  by (simp add: step_le_def)

lemma guard_of_cases:
  "guard_of k out = (case continuation_ref k of Some ref \<Rightarrow> guarded ref out | None \<Rightarrow> (fst out, fst (snd out)))"
  by (cases k; cases out) simp_all

lemma ok_silent_task:
  "runner_ok L r \<Longrightarrow> task_ref t = None \<Longrightarrow> runner_ok L (suspend t r)" "step_le r [] (suspend t r)"
  "step_le r [SendMessage m] (suspend t r)"
  by (auto simp: runner_ok_def local_ok_def at_def suspend_def step_le_def)

lemma good_resumeTask:
  assumes ok: "runner_ok L r" and ref: "\<forall>ref. task_ref t = Some ref \<longrightarrow> ref < length (rn_runs r)" and out: "resumeTask L t reply r = Some out"
  shows "good_step L r out"
proof (cases "task_ref t")
  case (Some i)
  let ?cid = "cx_cohortId (rn_runs r ! i)"
  have at: "at i ?cid r" using ref Some by (simp add: at_def)
  have local: "local_ok L i ?cid r" using ok ref Some by (simp add: runner_ok_def)
  have throw: "good_step L r (guarded i (r, [], Inl e))" for e
    using good_guarded [OF ok at own_throw] local by simp
  note own = own_resumed [OF at] and keep = keep_resumed [OF local]
  have send: "good_step L r (guarded i (sendAll ms k r))" if "continuation_ref k = Some i" for ms k
    using good_guarded [OF ok at own_sendAll keep_sendAll(1) [OF local]] that by simp
  have cont: "good_step L r (guarded i (continue k r))" if "continuation_ref k = Some i" for k
    using that good_guarded [OF ok at own(2) keep(2)] good_guarded [OF ok at own_perform [OF own_refl], of "[]"] local
    by (cases k) auto
  show ?thesis
    using out Some throw send cont good_guarded [OF ok at own(1) keep(1)] good_guarded [OF ok at own(3) keep(3)]
      good_guarded [OF ok at own(4) keep(4)]
    by (cases t; cases reply) (auto simp: guard_of_cases task_continuation split: list.split)
next
  case None
  then obtain ms where t: "t = Sending ms AtCaller" by (cases t rule: task_ref.cases) auto
  show ?thesis
    using out ok_silent_task [where t = "Sending _ AtCaller"] ok good_refl [OF ok]
    by (cases reply) (auto simp: t guard_of_cases sendAll_def perform_def good_step_def split: list.splits)
qed

lemma good_resume:
  assumes "runner_ok L r"
  shows "good_step L r (resume L i reply r)"
proof (cases "length (rn_tasks r) \<le> i")
  case True
  then show ?thesis using good_refl [OF assms] by (simp add: resume_def)
next
  case False
  let ?ts = "take i (rn_tasks r) @ drop (Suc i) (rn_tasks r)" and ?t = "rn_tasks r ! i"
  have "set ?ts \<subseteq> set (rn_tasks r)" using set_take_subset [of i "rn_tasks r"] set_drop_subset [of "Suc i" "rn_tasks r"] by auto
  then have ok: "runner_ok L (r\<lparr>rn_tasks := ?ts\<rparr>)" using ok_untask assms by blast
  have ref: "\<forall>ref. task_ref ?t = Some ref \<longrightarrow> ref < length (rn_runs (r\<lparr>rn_tasks := ?ts\<rparr>))"
    using assms False nth_mem [of i "rn_tasks r"] by (auto simp: runner_ok_def)
  show ?thesis
  proof (cases "resumeTask L ?t reply (r\<lparr>rn_tasks := ?ts\<rparr>)")
    case None
    then show ?thesis using False good_refl [OF assms] by (simp add: resume_def)
  next
    case (Some out)
    then show ?thesis
      using False good_resumeTask [OF ok ref Some] by (simp add: resume_def good_step_def step_le_untask)
  qed
qed

lemma run_ok: "runner_ok L r \<Longrightarrow> ref < length (rn_runs r) \<Longrightarrow> local_ok L ref (cx_cohortId (rn_runs r ! ref)) r"
  by (simp add: runner_ok_def)

lemma good_timers:
  assumes "runner_ok L r" "ref < length (rn_runs r)"
  shows "good_step L r (cohortTtl ref r)" "cx_phaseTimer (rn_runs r ! ref) \<Longrightarrow> good_step L r (phaseTimeout L ref r)"
proof -
  let ?cid = "cx_cohortId (rn_runs r ! ref)"
  have at: "at ref ?cid r" using assms(2) by (simp add: at_def)
  have local: "local_ok L ref ?cid r" using run_ok [OF assms] .
  have "own_step L ref ?cid r (Emit (CohortFailed ?cid c) # snd (failCohort ref e r)) (fst (failCohort ref e r))" for c e
    using own_trans [OF own_refl own_fail [OF at], of "[Emit (CohortFailed ?cid c)]"] by simp
  then show "good_step L r (cohortTtl ref r)"
    unfolding cohortTtl_def Let_def case_prod_beta by (intro good_own [OF assms(1) at]) (simp_all add: fail_ok [OF local])
  show "good_step L r (phaseTimeout L ref r)" if "cx_phaseTimer (rn_runs r ! ref)"
  proof -
    have "jm_get (rn_contexts r) ?cid = Some ref" using local that by (auto simp: local_ok_def context_ok_def split: if_splits)
    then show ?thesis using good_own [OF assms(1) at own_timeout [OF at] keep_timeout [OF local]] by simp
  qed
qed

lemma good_trigger:
  assumes "runner_ok L r"
  shows "good_step L r (guard_of AtCaller (triggerFallback L cid AtCaller r))"
proof (cases "jm_get (rn_contexts r) cid")
  case None
  then show ?thesis using good_refl [OF assms] by (simp add: triggerFallback_def perform_def)
next
  case (Some ref)
  note e = entry_at [OF assms Some]
  show ?thesis
    using good_own [OF assms e(1), of "guard_of AtCaller (triggerFallback L cid AtCaller r)"]
      own_trigger [OF e(1) Some, of AtCaller L] keep_trigger [OF live_local [OF e(2)]]
    by (simp add: guard_of_cases own_out_def)
qed

lemma good_drop:
  assumes "runner_ok L r" "ref < length (rn_runs r)" "\<not> cx_settled (rn_runs r ! ref)"
  shows "good_step L r (dropCohort ref e r)"
proof -
  have at: "at ref (cx_cohortId (rn_runs r ! ref)) r" using assms(2) by (simp add: at_def)
  show ?thesis
    using good_own [OF assms(1) at own_drop [OF at assms(3)] drop_ok [OF at _ assms(3)]] assms(1) by (simp add: runner_ok_def)
qed

lemma drop_settles:
  assumes "ref < length (rn_runs r)"
  shows "cx_settled (rn_runs (fst (dropCohort ref e r)) ! ref)"
proof -
  have "at ref (cx_cohortId (rn_runs r ! ref)) (on_run ref (\<lambda>c. c\<lparr>cx_settled := True\<rparr>) r)" using assms by (simp add: at_def)
  from dispose_facts(1,2) [OF this] show ?thesis using assms by (simp add: dropCohort_def Let_def case_prod_beta)
qed

lemma good_stopAll:
  assumes "runner_ok L r" "\<forall>ref \<in> set refs. ref < length (rn_runs r)"
  shows "good_step L r (stopAll refs r) \<and> (\<forall>ref \<in> set refs. cx_settled (rn_runs (fst (stopAll refs r)) ! ref))"
  using assms
proof (induction refs arbitrary: r)
  case Nil
  then show ?case by (simp add: good_refl)
next
  case (Cons ref refs)
  let ?s = "if cx_settled (rn_runs r ! ref) then (r, []) else dropCohort ref (Error ''AggregationServiceError'' ''RUNNER_STOPPED'') r"
  have ref: "ref < length (rn_runs r)" using Cons.prems by simp
  obtain r1 effs where s: "?s = (r1, effs)" by (cases ?s)
  have first: "good_step L r (r1, effs)" using good_refl [OF Cons.prems(1)] good_drop [OF Cons.prems(1) ref] unfolding s [symmetric] by simp
  have settled: "cx_settled (rn_runs r1 ! ref)"
    using drop_settles [OF ref, of "Error ''AggregationServiceError'' ''RUNNER_STOPPED''"] s by (auto split: if_splits)
  have len: "length (rn_runs r) \<le> length (rn_runs r1)" using first by (simp add: good_step_def step_le_def)
  have valid: "\<forall>ref \<in> set refs. ref < length (rn_runs r1)" using Cons.prems(2) len by fastforce
  obtain r2 effs' where rest: "stopAll refs r1 = (r2, effs')" by (cases "stopAll refs r1")
  have IH: "good_step L r1 (r2, effs')" "\<forall>i \<in> set refs. cx_settled (rn_runs r2 ! i)"
    using Cons.IH [of r1] first valid rest by (simp_all add: good_step_def)
  have "cx_settled (rn_runs r2 ! ref)"
    using IH(1) settled ref len by (auto simp: good_step_def step_le_def run_le_def)
  moreover have "stopAll (ref # refs) r = (r2, effs @ effs')" using s rest by simp
  ultimately show ?case using good_trans [OF first IH(1)] IH(2) by simp
qed

lemma stopped_commutes:
  "dropCohort ref e (r\<lparr>rn_stopped := b\<rparr>) = (fst (dropCohort ref e r)\<lparr>rn_stopped := b\<rparr>, snd (dropCohort ref e r))"
  "stopAll refs (r\<lparr>rn_stopped := b\<rparr>) = (fst (stopAll refs r)\<lparr>rn_stopped := b\<rparr>, snd (stopAll refs r))"
proof -
  show drop: "dropCohort ref e (r\<lparr>rn_stopped := b\<rparr>) = (fst (dropCohort ref e r)\<lparr>rn_stopped := b\<rparr>, snd (dropCohort ref e r))" for ref e r
    by (simp add: dropCohort_def disposeCohort_def stopAdvertRepeating_def clearTimers_def on_run_def Let_def case_prod_beta)
  show "stopAll refs (r\<lparr>rn_stopped := b\<rparr>) = (fst (stopAll refs r)\<lparr>rn_stopped := b\<rparr>, snd (stopAll refs r))"
    by (induction refs arbitrary: r) (simp_all add: drop case_prod_beta Let_def)
qed

lemma stop_ok:
  assumes "runner_ok L r" "\<forall>i < length (rn_runs r). cx_settled (rn_runs r ! i)"
  shows "runner_ok L (r\<lparr>rn_stopped := s, rn_contexts := []\<rparr>)"
    "runner_ok L (r\<lparr>rn_stopped := s, rn_contexts := [], rn_handlersRegistered := h\<rparr>)"
  using assms by (auto simp: runner_ok_def local_ok_def at_def context_ok_def)

lemma good_stop:
  assumes "runner_ok L r"
  shows "good_step L r (stopRunner r)"
proof -
  let ?refs = "map snd (rn_contexts r)"
  have valid: "\<forall>ref \<in> set ?refs. ref < length (rn_runs r)" using assms by (auto simp: runner_ok_def at_def)
  obtain r1 effs where out: "stopAll ?refs r = (r1, effs)" by (cases "stopAll ?refs r")
  have good: "good_step L r (r1, effs)" and settled: "\<forall>ref \<in> set ?refs. cx_settled (rn_runs r1 ! ref)"
    using good_stopAll [OF assms valid] out by simp_all
  have len: "length (rn_runs r1) = length (rn_runs r)"
  proof -
    have "length (rn_runs (fst (stopAll refs r))) = length (rn_runs r)" for refs
    proof (induction refs arbitrary: r)
      case (Cons ref refs)
      have "length (rn_runs (fst (dropCohort ref e r))) = length (rn_runs r)" for e
        by (simp add: dropCohort_def disposeCohort_def stopAdvertRepeating_def clearTimers_def Let_def case_prod_beta)
      with Cons show ?case by (simp add: case_prod_beta Let_def)
    qed simp
    from this [of ?refs] show ?thesis by (simp add: out)
  qed
  have all: "cx_settled (rn_runs r1 ! i)" if "i < length (rn_runs r1)" for i
  proof (cases "cx_settled (rn_runs r ! i)")
    case True
    then show ?thesis using good that len by (auto simp: good_step_def step_le_def run_le_def)
  next
    case False
    then have "jm_get (rn_contexts r) (cx_cohortId (rn_runs r ! i)) = Some i"
      using run_ok [OF assms, of i] that len by (simp add: local_ok_def context_ok_def)
    then have "(cx_cohortId (rn_runs r ! i), i) \<in> set (rn_contexts r)" by (rule map_of_SomeD)
    then show ?thesis using settled by force
  qed
  have "runner_ok L (fst (stopRunner r))"
    using stop_ok [of L r1] good all
    by (simp add: good_step_def stopRunner_def unregisterHandlers_def stopped_commutes out case_prod_beta Let_def)
  moreover have "step_le r (snd (stopRunner r)) (fst (stopRunner r))"
    using good by (auto simp: good_step_def step_le_def stopRunner_def unregisterHandlers_def stopped_commutes out at_def case_prod_beta Let_def)
  ultimately show ?thesis by (simp add: good_step_def)
qed

section \<open>Advertising\<close>

lemma createCohort_new:
  assumes "createCohort L uuid config svc = (svc', Inr cid)"
  shows "cid = uuid \<and> (\<exists>st. svc' = svc\<lparr>as_cohortStates := jm_set uuid st (as_cohortStates svc)\<rparr> \<and> cs_phase st = Created \<and> cs_result st = None)"
  using assms by (auto simp: createCohort_def newCohort_def Let_def service_error_def split: if_splits option.splits)

lemma createCohort_failed: "createCohort L uuid config svc = (svc', Inl e) \<Longrightarrow> svc' = svc"
  by (auto simp: createCohort_def Let_def split: if_splits option.splits)

lemma set_update_subset: "set (jm_set k v m) \<subseteq> insert (k, v) (set m)"
  by (induction m) auto

lemma new_run_ok:
  fixes L :: "('tx, 'x) agg_lib_scheme" and h :: bool
  assumes ok: "runner_ok L r" "\<not> rn_stopped r" and fresh: "uuid \<notin> cx_cohortId ` set (rn_runs r)"
    and create: "createCohort L uuid config (rn_session r) = (svc', Inr cid)"
  defines "ref \<equiv> length (rn_runs r)"
  defines "r' \<equiv> r\<lparr>rn_handlersRegistered := h, rn_session := svc',
      rn_runs := rn_runs r @ [newRun uuid config], rn_contexts := jm_set uuid ref (rn_contexts r)\<rparr>"
  shows "runner_ok L r'" "live L ref uuid r'" "step_le r [] (startTimers ref r')"
proof -
  obtain st where svc': "svc' = (rn_session r)\<lparr>as_cohortStates := jm_set uuid st (as_cohortStates (rn_session r))\<rparr>"
    "cs_phase st = Created" "cs_result st = None" using createCohort_new [OF create] by blast
  have reach: "service_reach L svc'"
    using service_reach.call [of L "rn_session r" "CreateCohort uuid config"] ok(1) create by (simp add: runner_ok_def)
  have old: "rn_runs r' ! i = rn_runs r ! i" if "i < length (rn_runs r)" for i using that by (simp add: r'_def nth_append)
  have new: "rn_runs r' ! ref = newRun uuid config" "length (rn_runs r') = Suc ref" by (simp_all add: r'_def ref_def)
  have ne: "cx_cohortId (rn_runs r ! i) \<noteq> uuid" if "i < length (rn_runs r)" for i
    using fresh that by (metis image_eqI nth_mem)
  show live: "live L ref uuid r'"
    using svc' reach new
    by (auto simp: live_def local_ok_def at_def context_ok_def live_ok_def newRun_def r'_def)
  have olds: "local_ok L i (cx_cohortId (rn_runs r' ! i)) r'" if "i < length (rn_runs r)" for i
    using run_ok [OF ok(1) that] ne [OF that] that reach svc' by (auto simp: local_ok_def at_def r'_def nth_append)
  have all: "local_ok L i (cx_cohortId (rn_runs r' ! i)) r'" if "i < length (rn_runs r')" for i
    using that olds [of i] live_local [OF live] new by (cases "i = ref") (auto simp: newRun_def ref_def)
  have entries: "at i d r'" if "(d, i) \<in> set (rn_contexts r')" for d i
  proof -
    have "(d, i) = (uuid, ref) \<or> (d, i) \<in> set (rn_contexts r)"
      using that set_update_subset [of uuid ref "rn_contexts r"] by (auto simp: r'_def)
    then show ?thesis using ok(1) live_at(1) [OF live] old [of i] new(2) by (auto simp: runner_ok_def at_def ref_def)
  qed
  show "runner_ok L r'"
    unfolding runner_ok_def
  proof (intro conjI)
    show "service_reach L (rn_session r')" using reach by (simp add: r'_def)
    show "distinct (map cx_cohortId (rn_runs r'))" using ok(1) fresh by (simp add: r'_def runner_ok_def newRun_def)
    show "\<forall>t \<in> set (rn_tasks r'). \<forall>ref. task_ref t = Some ref \<longrightarrow> ref < length (rn_runs r')"
      using ok(1) by (force simp: r'_def runner_ok_def)
  qed (use all entries ok(2) in \<open>auto simp: r'_def\<close>)
  show "step_le r [] (startTimers ref r')"
    using old new by (auto simp: step_le_def ref_def startTimers_def resetPhaseTimer_def) (simp_all add: r'_def)
qed

text \<open>The timers of a new context are started before it is advertised.\<close>

lemma startTimers_ok:
  assumes "runner_ok L r" "live L ref cid r"
  shows "runner_ok L (startTimers ref r)"
proof -
  have at: "at ref cid r" using live_at(1) [OF assms(2)] .
  let ?r = "startTimers ref r"
  have same: "rn_session ?r = rn_session r" "rn_contexts ?r = rn_contexts r" "rn_tasks ?r = rn_tasks r" "rn_stopped ?r = rn_stopped r"
    "length (rn_runs ?r) = length (rn_runs r)" "\<And>i. i < length (rn_runs r) \<Longrightarrow> i \<noteq> ref \<Longrightarrow> rn_runs ?r ! i = rn_runs r ! i"
    "\<And>i. i < length (rn_runs r) \<Longrightarrow> cx_cohortId (rn_runs ?r ! i) = cx_cohortId (rn_runs r ! i)"
    by (simp_all add: startTimers_def resetPhaseTimer_def)
  have ids: "map cx_cohortId (rn_runs ?r) = map cx_cohortId (rn_runs r)"
    using same(5,7) by (simp add: list_eq_iff_nth_eq)
  have "local_ok L i (cx_cohortId (rn_runs ?r ! i)) ?r" if "i < length (rn_runs r)" for i
  proof (cases "i = ref")
    case True
    then show ?thesis using live_local [OF keep_start [OF assms(2)]] same(7) that at by (simp add: at_def)
  next
    case False
    then show ?thesis using run_ok [OF assms(1) that] same that by (simp add: local_ok_def at_def)
  qed
  then show "runner_ok L ?r"
    using assms(1) same(1-5) ids unfolding runner_ok_def by (auto simp: at_def same(7) simp del: map_eq_conv)
qed

lemma registered_ok: "runner_ok L r \<Longrightarrow> runner_ok L (r\<lparr>rn_handlersRegistered := h\<rparr>)" "step_le r [] (r\<lparr>rn_handlersRegistered := h\<rparr>)"
  by (auto simp: runner_ok_def local_ok_def at_def step_le_def)

lemma step_le_more: "step_le r effs r' \<Longrightarrow> silent effs0 \<Longrightarrow> step_le r (effs0 @ effs) r'"
  by (auto simp: step_le_def silent_def)

lemma good_advertise:
  assumes ok: "runner_ok L r" and fresh: "uuid \<notin> cx_cohortId ` set (rn_runs r)"
  shows "good_step L r (case advertiseCohort L uuid config r of (r', effs, res) \<Rightarrow> (r', effs))"
proof (cases "rn_stopped r")
  case True
  then show ?thesis using good_refl [OF ok] by (simp add: advertiseCohort_def)
next
  case False
  let ?r = "fst (registerHandlers r)" and ?e = "snd (registerHandlers r)"
  have reg: "?r = r\<lparr>rn_handlersRegistered := True\<rparr>" "silent ?e"
    by (auto simp: registerHandlers_def)
  show ?thesis
  proof (cases "createCohort L uuid config (rn_session r)")
    case (Pair svc' res)
    show ?thesis
    proof (cases res)
      case (Inl e)
      then have "svc' = rn_session r" using createCohort_failed Pair by blast
      then show ?thesis
        using registered_ok(1) [OF ok] reg False Inl Pair step_le_more [OF registered_ok(2) reg(2), of r True]
        by (simp add: advertiseCohort_def good_step_def case_prod_beta Let_def)
    next
      case (Inr cid)
      note create = Pair [unfolded Inr]
      have cid: "cid = uuid" using createCohort_new [OF create] by simp
      let ?ref = "length (rn_runs r)"
      let ?r' = "r\<lparr>rn_handlersRegistered := True, rn_session := svc',
          rn_runs := rn_runs r @ [newRun uuid config], rn_contexts := jm_set uuid ?ref (rn_contexts r)\<rparr>"
      note new = new_run_ok [OF ok False fresh create, where h = True]
      let ?s = "startTimers ?ref ?r'"
      note s = startTimers_ok [OF new(1,2)]
      have "good_step L ?s (advertiseRun ?ref uuid ?r')"
        using good_own [OF s live_at(1) [OF keep_start [OF new(2)]] own_advertise [OF live_at(1) [OF new(2)]] keep_advertise [OF new(2)]] .
      then have "good_step L r (fst (advertiseRun ?ref uuid ?r'), ?e @ snd (advertiseRun ?ref uuid ?r'))"
        using step_le_trans [OF new(3), of "snd (advertiseRun ?ref uuid ?r')" "fst (advertiseRun ?ref uuid ?r')"] step_le_more reg(2)
        by (simp add: good_step_def)
      then show ?thesis
        using reg(1) False create cid by (simp add: advertiseCohort_def case_prod_beta Let_def)
    qed
  qed
qed

section \<open>Reachable runners\<close>

text \<open>Identifiers of cohorts are random UUIDs: one is not drawn again.\<close>

fun fresh_input :: "'tx AggregationServiceRunner \<Rightarrow> 'tx runner_input \<Rightarrow> bool" where
  "fresh_input r (AdvertiseCohort uuid config) = (uuid \<notin> cx_cohortId ` set (rn_runs r))"
| "fresh_input r (RunDefault uuid) = (uuid \<notin> cx_cohortId ` set (rn_runs r))"
| "fresh_input r i = True"

inductive runner_reach ::
  "('tx, 'x) agg_lib_scheme \<Rightarrow> (string \<Rightarrow> bytes \<Rightarrow> error option) \<Rightarrow> 'tx AggregationServiceRunner \<Rightarrow> 'tx run_effect list \<Rightarrow> bool"
  for L peerError where
  start: "runner_reach L peerError (newServiceRunner o') []"
| step: "runner_reach L peerError r trace \<Longrightarrow> fresh_input r i \<Longrightarrow> runnerStep L peerError i r = (r', effs) \<Longrightarrow>
    runner_reach L peerError r' (trace @ effs)"

lemma good_runnerStep:
  assumes "runner_ok L r" "fresh_input r i"
  shows "good_step L r (runnerStep L peerError i r)"
proof (cases i)
  case (AdvertiseCohort uuid config)
  then show ?thesis using good_advertise [OF assms(1), of uuid config] assms(2) by simp
next
  case (RunDefault uuid)
  then show ?thesis
    using good_advertise [OF assms(1), of uuid] good_refl [OF assms(1)] assms(2)
    by (auto simp: runDefault_def split: option.split)
next
  case (TransportMessage nonce m)
  then show ?thesis using good_dispatch [OF assms(1)] by simp
next
  case (Resume j reply)
  then show ?thesis using good_resume [OF assms(1)] by simp
next
  case (CohortTtl ref)
  then show ?thesis using good_timers(1) [OF assms(1)] good_refl [OF assms(1)] by simp
next
  case (PhaseTimeout ref)
  then show ?thesis using good_timers(2) [OF assms(1)] good_refl [OF assms(1)] by simp
next
  case (TriggerFallback cid)
  then show ?thesis using good_trigger [OF assms(1)] by simp
next
  case (StopCohort cid)
  then show ?thesis
    using good_refl [OF assms(1)] good_drop [OF assms(1)] entry_at(1) [OF assms(1), of cid]
    by (auto simp: stopCohort_def at_def split: option.split)
next
  case StopRunner
  then show ?thesis using good_stop [OF assms(1)] by simp
qed

lemma new_ok: "runner_ok L (newServiceRunner o')"
  by (simp add: runner_ok_def newServiceRunner_def service_reach.start)

definition ttl_set :: "'tx AggregationServiceRunner \<Rightarrow> bool" where
  "ttl_set r \<longleftrightarrow> (\<forall>i < length (rn_runs r). \<not> cx_settled (rn_runs r ! i) \<longrightarrow>
     cx_cohortTtlTimer (rn_runs r ! i) = (rn_cohortTtlMs r \<noteq> None))"

lemma ttl_step: "step_le r effs r' \<Longrightarrow> ttl_set r \<Longrightarrow> ttl_set r'"
  unfolding ttl_set_def step_le_def run_le_def by (metis not_le)

lemma reach_ttl: "runner_reach L peerError r trace \<Longrightarrow> runner_ok L r \<and> ttl_set r"
proof (induction rule: runner_reach.induct)
  case (start o')
  show ?case by (simp add: new_ok) (simp add: ttl_set_def newServiceRunner_def)
next
  case (step r trace i r' effs)
  then show ?case using good_runnerStep [of L r i peerError] ttl_step [of r effs r'] by (auto simp: good_step_def)
qed

lemma reach_ok:
  assumes "runner_reach L peerError r trace"
  shows "runner_ok L r \<and> step_le r trace r"
  using assms
proof (induction rule: runner_reach.induct)
  case (start o')
  show ?case by (simp add: new_ok step_le_refl)
next
  case (step r trace i r' effs)
  then have g: "runner_ok L r'" "step_le r effs r'" using good_runnerStep [of L r i peerError] by (auto simp: good_step_def)
  have "step_le r (trace @ effs) r'" using step_le_trans g(2) step.IH by blast
  then show ?case using g(1) by (auto simp: step_le_def)
qed

section \<open>The properties\<close>

text \<open>C8: Whatever messages, timers, callbacks and calls come in whatever order: a cohort that is still open
  is on record with a pending promise and a state in the service without a result, and its latch is
  set exactly while the fallback is requested; a settled one has no timer, no advert and no entry any
  more, and no later step changes how it was settled.\<close>

theorem runner_invariant:
  assumes "runner_reach L peerError r trace" "ref < length (rn_runs r)"
  shows "let c = rn_runs r ! ref; cid = cx_cohortId c in
    (if cx_settled c
     then jm_get (rn_contexts r) cid = None \<and> \<not> cx_cohortTtlTimer c \<and> \<not> cx_phaseTimer c \<and> \<not> cx_stopAdvertRepeat c \<and>
       cx_completion c \<noteq> Pending \<and>
       (\<forall>i r' effs. fresh_input r i \<longrightarrow> runnerStep L peerError i r = (r', effs) \<longrightarrow>
          cx_completion (rn_runs r' ! ref) = cx_completion c)
     else jm_get (rn_contexts r) cid = Some ref \<and> cx_completion c = Pending \<and>
       (\<exists>st. jm_get (as_cohortStates (rn_session r)) cid = Some st \<and> cs_result st = None \<and> cs_phase st \<noteq> ServiceComplete \<and>
          cx_committedPath c = (if cs_phase st = FallbackRequested then Some Fallback else None)))"
proof -
  let ?c = "rn_runs r ! ref"
  have ok: "runner_ok L r" using reach_ok [OF assms(1)] by simp
  have local: "local_ok L ref (cx_cohortId ?c) r" using run_ok [OF ok assms(2)] .
  have later: "cx_completion (rn_runs r' ! ref) = cx_completion ?c"
    if "cx_settled ?c" "fresh_input r i" "runnerStep L peerError i r = (r', effs)" for i r' effs
    using good_runnerStep [OF ok that(2), of peerError] that(1,3) assms(2) by (simp add: good_step_def step_le_def run_le_def)
  show ?thesis
  proof (cases "cx_settled ?c")
    case True
    then show ?thesis using local later by (auto simp: Let_def local_ok_def context_ok_def settled_ok_def)
  next
    case False
    then show ?thesis using local by (simp add: Let_def local_ok_def context_ok_def live_ok_def)
  qed
qed

text \<open>C9: A promise of the runner that is fulfilled is fulfilled with a valid result for its own cohort: in a
  state of this cohort that the service reached, the signature of the key path aggregates verified partial signatures of all
  members, or the spend of the script path carries the threshold of valid signatures of
  members.\<close>

theorem completion_is_valid:
  assumes "runner_reach L peerError r trace" "ref < length (rn_runs r)" "cx_completion (rn_runs r ! ref) = Fulfilled res"
  shows "\<exists>svc st. service_reach L svc \<and> jm_get (as_cohortStates svc) (cx_cohortId (rn_runs r ! ref)) = Some st \<and>
    ar_cohortId res = cx_cohortId (rn_runs r ! ref) \<and>
    (cx_committedPath (rn_runs r ! ref) = Some Optimistic \<and> key_path_result L st res \<or>
     cx_committedPath (rn_runs r ! ref) = Some Fallback \<and> script_path_result L st res)"
proof -
  have "local_ok L ref (cx_cohortId (rn_runs r ! ref)) r" using run_ok reach_ok assms(1,2) by blast
  then show ?thesis
    using assms(3) by (auto simp: local_ok_def context_ok_def settled_ok_def split: if_splits)
qed

lemma result_paths: "key_path_result L st res \<Longrightarrow> ar_path res = ''key-path''" "script_path_result L st res \<Longrightarrow> ar_path res = ''script-path''"
  unfolding key_path_result_def script_path_result_def by blast+

text \<open>C7: The runner never releases two spends of the output of a cohort: once it has announced the
  fallback of a cohort, or before it does, no result of the key path is released for it, and no two
  different results are.\<close>

theorem one_spend_path:
  assumes "runner_reach L peerError r trace" "Emit (SigningComplete res) \<in> set trace"
  shows "(\<forall>sid. Emit (FallbackStarted (ar_cohortId res) sid) \<in> set trace \<longrightarrow> ar_path res = ''script-path'') \<and>
    (\<forall>res'. Emit (SigningComplete res') \<in> set trace \<and> ar_cohortId res' = ar_cohortId res \<longrightarrow> res' = res)"
proof -
  have ok: "runner_ok L r" and le: "step_le r trace r" using reach_ok [OF assms(1)] by simp_all
  have unique: "i = j" if "i < length (rn_runs r)" "j < length (rn_runs r)" "cx_cohortId (rn_runs r ! i) = cx_cohortId (rn_runs r ! j)" for i j
    using ok that by (auto simp: runner_ok_def distinct_conv_nth)
  have settled: "\<exists>i < length (rn_runs r). cx_completion (rn_runs r ! i) = Fulfilled q \<and> cx_cohortId (rn_runs r ! i) = ar_cohortId q \<and>
      (cx_committedPath (rn_runs r ! i) = Some Fallback \<longrightarrow> ar_path q = ''script-path'')"
    if e: "Emit (SigningComplete q) \<in> set trace" for q
  proof -
    obtain i where i: "i < length (rn_runs r)" "cx_settled (rn_runs r ! i)" "cx_completion (rn_runs r ! i) = Fulfilled q"
      using le e unfolding step_le_def by blast
    then show ?thesis
      using run_ok [OF ok i(1)] result_paths by (fastforce simp: local_ok_def context_ok_def settled_ok_def)
  qed
  obtain i where i: "i < length (rn_runs r)" "cx_completion (rn_runs r ! i) = Fulfilled res" "cx_cohortId (rn_runs r ! i) = ar_cohortId res"
    "cx_committedPath (rn_runs r ! i) = Some Fallback \<longrightarrow> ar_path res = ''script-path''" using settled [OF assms(2)] by blast
  have "ar_path res = ''script-path''" if e: "Emit (FallbackStarted (ar_cohortId res) sid) \<in> set trace" for sid
  proof -
    obtain j where j: "at j (ar_cohortId res) r" "cx_committedPath (rn_runs r ! j) = Some Fallback" using le e unfolding step_le_def by blast
    then have "j = i" using unique i by (simp add: at_def)
    then show ?thesis using i(4) j(2) by simp
  qed
  moreover have "res' = res" if e: "Emit (SigningComplete res') \<in> set trace" "ar_cohortId res' = ar_cohortId res" for res'
  proof -
    obtain j where j: "j < length (rn_runs r)" "cx_completion (rn_runs r ! j) = Fulfilled res'" "cx_cohortId (rn_runs r ! j) = ar_cohortId res'"
      using settled [OF e(1)] by blast
    then have "j = i" using unique i e(2) by simp
    then show ?thesis using i(2) j(2) by simp
  qed
  ultimately show ?thesis by blast
qed

text \<open>C21: Cohorts are isolated: a message for one cohort, whatever it holds and even if its handling fails,
  changes neither the state that the service has of another cohort, nor its context, its timers and
  its promise.\<close>

theorem cohorts_isolated:
  assumes "runner_reach L peerError r trace" "dispatchMessage L peerError nonce m r = (r', effs)"
    "body_str (m_body m) ''cohortId'' \<noteq> Some d"
  shows "jm_get (as_cohortStates (rn_session r')) d = jm_get (as_cohortStates (rn_session r)) d \<and>
    jm_get (rn_contexts r') d = jm_get (rn_contexts r) d \<and>
    (\<forall>i < length (rn_runs r). cx_cohortId (rn_runs r ! i) = d \<longrightarrow> rn_runs r' ! i = rn_runs r ! i)"
proof (cases "\<not> rn_handlersRegistered r \<or> rn_stopped r \<or> contextFor m r = None")
  case True
  then show ?thesis using assms(2) by (auto simp: dispatchMessage_def split: if_splits option.splits)
next
  case False
  then obtain ref where ref: "contextFor m r = Some ref" by auto
  then obtain cid where cid: "body_str (m_body m) ''cohortId'' = Some cid" "jm_get (rn_contexts r) cid = Some ref"
    by (auto simp: contextFor_def split: option.splits if_splits)
  have ok: "runner_ok L r" using reach_ok [OF assms(1)] by simp
  note at = entry_at(1) [OF ok cid(2)]
  have "own_step L ref cid r effs r'"
    using own_guarded [OF own_message [OF at cid(1)] at, of L peerError nonce] assms(2) False ref by (simp add: dispatchMessage_def)
  then show ?thesis
    using own_stepD(2,4,6) [of L ref cid r effs r'] at assms(3) cid(1) by (auto simp: at_def)
qed

lemma fail_settles:
  assumes "ref < length (rn_runs r)"
  shows "cx_settled (rn_runs (fst (failCohort ref e r)) ! ref)"
  using drop_settles [OF assms, of e] by (simp add: failCohort_def case_prod_beta)

lemma settled_completion:
  assumes "runner_ok L r" "ref < length (rn_runs r)" "cx_settled (rn_runs r ! ref)"
  shows "cx_completion (rn_runs r ! ref) \<noteq> Pending"
  using run_ok [OF assms(1,2)] assms(3) by (auto simp: local_ok_def context_ok_def settled_ok_def)

lemma stop_settles:
  assumes "runner_ok L r" "ref < length (rn_runs r)"
  shows "cx_settled (rn_runs (fst (stopRunner r)) ! ref)"
proof (cases "cx_settled (rn_runs r ! ref)")
  case True
  then show ?thesis using good_stop [OF assms(1)] assms(2) by (auto simp: good_step_def step_le_def run_le_def)
next
  case False
  then have "jm_get (rn_contexts r) (cx_cohortId (rn_runs r ! ref)) = Some ref"
    using run_ok [OF assms] by (simp add: local_ok_def context_ok_def)
  then have "ref \<in> set (map snd (rn_contexts r))" by (force dest: map_of_SomeD)
  moreover have "\<forall>ref \<in> set (map snd (rn_contexts r)). ref < length (rn_runs r)" using assms(1) by (auto simp: runner_ok_def at_def)
  ultimately have "cx_settled (rn_runs (fst (stopAll (map snd (rn_contexts r)) r)) ! ref)"
    using good_stopAll [OF assms(1)] by blast
  then show ?thesis by (simp add: stopRunner_def unregisterHandlers_def stopped_commutes case_prod_beta Let_def)
qed

text \<open>C17: Every promise of the runner gets settled: with a time to live configured, the timer of an open
  cohort is set in every state, whatever handlers are suspended, and when it fires the promise is
  settled; stopping the runner settles all of them.\<close>

theorem every_cohort_settles:
  assumes "runner_reach L peerError r trace" "ref < length (rn_runs r)"
  shows "(rn_cohortTtlMs r \<noteq> None \<longrightarrow>
      cx_completion (rn_runs (fst (runnerStep L peerError (CohortTtl ref) r)) ! ref) \<noteq> Pending) \<and>
    cx_completion (rn_runs (fst (runnerStep L peerError StopRunner r)) ! ref) \<noteq> Pending"
proof -
  have ok: "runner_ok L r" "ttl_set r" using reach_ttl [OF assms(1)] by simp_all
  have len: "ref < length (rn_runs (fst (runnerStep L peerError i r)))" "runner_ok L (fst (runnerStep L peerError i r))" if "fresh_input r i" for i
    using good_runnerStep [OF ok(1) that, of peerError] assms(2) by (auto simp: good_step_def step_le_def)
  have "cx_settled (rn_runs (fst (runnerStep L peerError (CohortTtl ref) r)) ! ref)" if "rn_cohortTtlMs r \<noteq> None"
    using ok(2) that assms(2) fail_settles [OF assms(2)]
    by (auto simp: ttl_set_def cohortTtl_def case_prod_beta Let_def)
  moreover have "cx_settled (rn_runs (fst (runnerStep L peerError StopRunner r)) ! ref)"
    using stop_settles [OF ok(1) assms(2)] by simp
  ultimately show ?thesis using settled_completion len [of "CohortTtl ref"] len [of StopRunner] by auto
qed

section \<open>Cohorts that fail without need\<close>

lemma live_phase:
  assumes "live L ref cid r" "getCohortPhase cid (rn_session r) = Some p"
  obtains st where "jm_get (as_cohortStates (rn_session r)) cid = Some st" "cs_phase st = p"
  using assms(2) by (auto simp: getCohortPhase_def)

text \<open>What \<open>receiveFor\<close> leaves of the state of the cohort.\<close>

lemma receive_state:
  assumes "at ref cid r" "jm_get (as_cohortStates (rn_session r)) cid = Some st" "body_str (m_body m) ''cohortId'' = Some cid" "cid \<noteq> []"
    "serviceReceive L m (rn_session r) = ((rn_session r)\<lparr>as_cohortStates := jm_set cid st' (as_cohortStates (rn_session r))\<rparr>, Inr ())"
  shows "\<exists>effs r1. receiveFor L ref m r = (r1, effs, Inr ()) \<and> at ref cid r1 \<and> rn_tasks r1 = rn_tasks r \<and>
    jm_get (as_cohortStates (rn_session r1)) cid = Some (st'\<lparr>cs_rejections := []\<rparr>) \<and>
    cx_settled (rn_runs r1 ! ref) = cx_settled (rn_runs r ! ref) \<and> cx_completion (rn_runs r1 ! ref) = cx_completion (rn_runs r ! ref)"
  using assms
  by (auto simp: receiveFor_def on_session_def and_then_def drainRejectionsOf_def drainRejections_def perform_def at_def
      onPhaseMaybeChanged_def resetPhaseTimer_def Let_def)

lemma guarded_throw:
  assumes "at ref cid r" "\<not> cx_settled (rn_runs r ! ref)"
  shows "cx_completion (rn_runs (fst (guarded ref (r, effs, Inl e))) ! ref) = Failed e"
proof -
  have "at ref cid (on_run ref (\<lambda>c. c\<lparr>cx_settled := True\<rparr>) r)" using settle_run(1) [OF assms] .
  from dispose_facts(2) [OF this] show ?thesis
    using assms by (simp add: guarded_def failCohort_def dropCohort_def at_def case_prod_beta Let_def)
qed

text \<open>C36: While the callback prepares the transaction of a validated cohort, one more acknowledgement, a
  repetition or one by anybody, makes the runner ask for a transaction a second time, and the second
  answer fails the cohort whose signing has started.\<close>

theorem duplicate_ack_fails_cohort:
  fixes L :: "('tx, 'x) agg_lib_scheme" and txData' :: "'tx SigningTxData" and nonce :: "nat \<Rightarrow> bytes" and uuid uuid' :: string
  assumes reach: "runner_reach L peerError r trace" and entry: "jm_get (rn_contexts r) cid = Some ref" "cid \<noteq> []"
    and handlers: "rn_handlersRegistered r" and phase: "getCohortPhase cid (rn_session r) = Some Validated"
    and task: "rn_tasks r = [TxData ref]"
    and m: "m_type m = VALIDATION_ACK" "body_str (m_body m) ''cohortId'' = Some cid"
    and tx: "td_prevOutScripts txData = script # scripts"
  defines "r1 \<equiv> fst (runnerStep L peerError (TransportMessage nonce m) r)"
  defines "r2 \<equiv> fst (runnerStep L peerError (Resume 0 (TxDataReply uuid txData)) r1)"
  defines "r3 \<equiv> fst (runnerStep L peerError (Resume 0 (TxDataReply uuid' txData')) r2)"
  shows "getCohortPhase cid (rn_session r2) = Some SigningStarted \<and> cx_completion (rn_runs r2 ! ref) = Pending \<and>
    cx_completion (rn_runs r3 ! ref) = Failed (Error ''AggregationServiceError'' ''INVALID_PHASE'')"
proof -
  have ok: "runner_ok L r" using reach_ok [OF reach] by simp
  note e = entry_at [OF ok entry(1)]
  have cid: "cx_cohortId (rn_runs r ! ref) = cid" using e(1) by (simp add: at_def)
  have open': "\<not> cx_settled (rn_runs r ! ref)" "cx_completion (rn_runs r ! ref) = Pending"
    using e(2) by (auto simp: live_def local_ok_def context_ok_def)
  have run: "\<not> rn_stopped r" using ok entry(1) by (auto simp: runner_ok_def)
  obtain st where st: "jm_get (as_cohortStates (rn_session r)) cid = Some st" "cs_phase st = Validated"
    using live_phase [OF e(2) phase] .
  have ack: "messageHandler L mx m st = (st, Inr ())" for mx
    using m(1) st(2) by (simp add: messageHandler_def message_types handleValidationAck_def)
  obtain st' where st': "serviceReceive L m (rn_session r) = ((rn_session r)\<lparr>as_cohortStates := jm_set cid st' (as_cohortStates (rn_session r))\<rparr>, Inr ())"
    "cs_phase st' = Validated"
    using receive_step [OF st(1) m(2) entry(2), of L] ack st(2) by auto
  obtain ra effs where ra: "receiveFor L ref m r = (ra, effs, Inr ())" "at ref cid ra" "rn_tasks ra = [TxData ref]"
    "jm_get (as_cohortStates (rn_session ra)) cid = Some (st'\<lparr>cs_rejections := []\<rparr>)"
    "\<not> cx_settled (rn_runs ra ! ref)" "cx_completion (rn_runs ra ! ref) = Pending"
    using receive_state [OF e(1) st(1) m(2) entry(2) st'(1)] task open' by auto
  have r1: "r1 = suspend (TxData ref) ra"
    using handlers run entry m ra(1,4) st'(2)
    by (simp add: r1_def dispatchMessage_def contextFor_def messageStep_def message_types handleAckMessage_def cid
        and_then_def perform_def getCohortPhase_def getCohort_def guarded_def Let_def)
  let ?rb = "ra\<lparr>rn_tasks := [TxData ref]\<rparr>"
  let ?s = "newSession uuid None (td_tx txData) (td_prevOutScripts txData) (td_prevOutValues txData) :: 'tx BeaconSigningSession"
  let ?st = "st'\<lparr>cs_rejections := [], cs_signingSession := Some ?s, cs_phase := SigningStarted\<rparr>"
  have cida: "cx_cohortId (rn_runs ra ! ref) = cid" using ra(2) by (simp add: at_def)
  obtain msgs where start: "startSigning L uuid cid txData (rn_session ra) =
      ((rn_session ra)\<lparr>as_cohortStates := jm_set cid ?st (as_cohortStates (rn_session ra))\<rparr>, Inr msgs)"
    using ra(4) st'(2) tx by (auto simp: startSigning_def onCohort_def startSigningState_def Let_def)
  have r2: "rn_runs r2 = rn_runs ra" "jm_get (as_cohortStates (rn_session r2)) cid = Some ?st" "\<exists>ts. rn_tasks r2 = TxData ref # ts"
    using ra(3) start
    by (auto simp: r2_def r1 resume_def suspend_def startSigningRun_def cida on_session_def guarded_def and_then_def
        perform_def sendAll_def Let_def split: list.split)
  then obtain ts where ts: "rn_tasks r2 = TxData ref # ts" by blast
  have fails: "snd (startSigning L uuid' cid txData' (rn_session r2)) = Inl (Error ''AggregationServiceError'' ''INVALID_PHASE'')"
    using r2(2) by (simp add: startSigning_def onCohort_def startSigningState_def service_error_def)
  let ?r = "r2\<lparr>rn_tasks := ts, rn_session := fst (startSigning L uuid' cid txData' (rn_session r2))\<rparr>"
  have "r3 = fst (guarded ref (?r, [], Inl (Error ''AggregationServiceError'' ''INVALID_PHASE'')))"
    using fails by (simp add: r3_def resume_def ts startSigningRun_def r2(1) cida on_session_def case_prod_beta Let_def)
  moreover have "at ref cid ?r" "\<not> cx_settled (rn_runs ?r ! ref)" using ra(2,5) r2(1) by (simp_all add: at_def)
  ultimately have "cx_completion (rn_runs r3 ! ref) = Failed (Error ''AggregationServiceError'' ''INVALID_PHASE'')"
    using guarded_throw by metis
  then show ?thesis using r2(1,2) ra(6) by (simp add: getCohortPhase_def)
qed

text \<open>While a cohort is advertised, one opt-in by anybody with a communication key that the transport
  does not take, which the state machine does not check, fails the whole cohort.\<close>

theorem malformed_opt_in_fails_cohort:
  assumes reach: "runner_reach L peerError r trace" and entry: "jm_get (rn_contexts r) cid = Some ref" "cid \<noteq> []"
    and handlers: "rn_handlersRegistered r" and st: "jm_get (as_cohortStates (rn_session r)) cid = Some st"
    "cs_phase st = Advertised" "m_from m \<notin> set (cs_acceptedParticipants st)"
    and m: "m_type m = COHORT_OPT_IN" "m_version m = JInt AGGREGATION_WIRE_VERSION" "body_str (m_body m) ''cohortId'' = Some cid"
    "body_bytes (m_body m) ''participantPk'' = Some pk" "body_bytes (m_body m) ''communicationPk'' = Some key"
    and refused: "peerError (m_from m) key = Some err"
  shows "cx_completion (rn_runs (fst (runnerStep L peerError (TransportMessage nonce m) r)) ! ref) = Failed err"
proof -
  have ok: "runner_ok L r" using reach_ok [OF reach] by simp
  note e = entry_at [OF ok entry(1)]
  have open': "\<not> cx_settled (rn_runs r ! ref)" using e(2) by (simp add: live_def)
  have run: "\<not> rn_stopped r" using ok entry(1) by (auto simp: runner_ok_def)
  let ?optIn = "\<lparr>po_cohortId = cid, po_participantDid = m_from m, po_participantPk = pk, po_communicationPk = key\<rparr>"
  let ?st = "st\<lparr>cs_pendingOptIns := jm_set (m_from m) ?optIn (cs_pendingOptIns st)\<rparr>"
  have "serviceReceive L m (rn_session r) = ((rn_session r)\<lparr>as_cohortStates := jm_set cid ?st (as_cohortStates (rn_session r))\<rparr>, Inr ())"
    using st m entry(2) by (simp add: serviceReceive_def handleWith_def messageHandler_def handleOptIn_def Let_def)
  from receive_state [OF e(1) st(1) m(3) entry(2) this] open'
  obtain ra effs where ra: "receiveFor L ref m r = (ra, effs, Inr ())" "at ref cid ra"
    "jm_get (as_cohortStates (rn_session ra)) cid = Some (?st\<lparr>cs_rejections := []\<rparr>)" "\<not> cx_settled (rn_runs ra ! ref)" by auto
  have cida: "cx_cohortId (rn_runs ra ! ref) = cid" using ra(2) by (simp add: at_def)
  have pending: "jm_get (pendingOptIns cid (rn_session ra)) (m_from m) = Some ?optIn"
    using st(3) ra(3) by (simp add: pendingOptIns_def map_of_filter_key)
  have "fst (runnerStep L peerError (TransportMessage nonce m) r) = fst (guarded ref (ra, effs @ [Emit (OptInReceived ?optIn)], Inl err))"
    using handlers run entry m ra(1) refused
    by (simp add: dispatchMessage_def contextFor_def messageStep_def handleOptInMessage_def cida pending and_then_def perform_def)
  then show ?thesis using guarded_throw [OF ra(2,4)] by metis
qed

section \<open>Witnesses\<close>

lemma steps_reach:
  assumes "runner_reach L peerError r trace" "\<forall>i \<in> set is'. \<forall>r. fresh_input r i"
  shows "runner_reach L peerError (fst (runnerSteps L peerError is' r)) (trace @ snd (runnerSteps L peerError is' r))"
  using assms
proof (induction is' arbitrary: r trace)
  case (Cons i is')
  obtain r1 effs where step: "runnerStep L peerError i r = (r1, effs)" by (cases "runnerStep L peerError i r")
  have "runner_reach L peerError r1 (trace @ effs)"
    using runner_reach.step [OF Cons.prems(1) _ step] Cons.prems(2) by simp
  from Cons.IH [OF this] Cons.prems(2) show ?case by (simp add: step case_prod_beta Let_def)
qed simp

lemma demo_reach: "runner_reach demo_alib demo_peerError (fst (demo_runner n)) (snd (demo_runner n))"
proof (cases n)
  case 0
  then show ?thesis by (simp add: demo_runner_def runner_reach.start)
next
  case (Suc k)
  let ?i = "AdvertiseCohort ''c'' demo_config :: demo_tx runner_input"
  obtain is' where is': "demo_inputs = ?i # is'" "\<forall>i \<in> set is'. \<forall>r. fresh_input r i"
    by (simp add: demo_inputs_def demo_messages_def demo_members_def)
  obtain r1 effs where step: "runnerStep demo_alib demo_peerError ?i (newServiceRunner demo_runner_options) = (r1, effs)"
    by (cases "runnerStep demo_alib demo_peerError ?i (newServiceRunner demo_runner_options)")
  have "runner_reach demo_alib demo_peerError r1 ([] @ effs)"
    by (rule runner_reach.step [OF runner_reach.start _ step]) (simp add: newServiceRunner_def)
  then have "runner_reach demo_alib demo_peerError r1 effs" by simp
  moreover have "\<forall>i \<in> set (take k is'). \<forall>r. fresh_input r i" using is'(2) by (meson in_set_takeD)
  ultimately show ?thesis
    using steps_reach [of demo_alib demo_peerError r1 effs "take k is'"] step
    by (simp add: demo_runner_def Suc is'(1) case_prod_beta Let_def)
qed

lemma demo_one_run: "0 < n \<Longrightarrow> n \<le> 25 \<Longrightarrow> \<exists>c. rn_runs (fst (demo_runner n)) = [c] \<and> cx_cohortId c = ''c''"
  using demo_runner_facts(1) [of n] by (auto simp: demo_run_expect_def split: list.splits)

lemma runner_invariant_witness:
  "jm_get (rn_contexts (fst (demo_runner 2))) ''c'' = Some 0 \<and>
   (\<exists>st. jm_get (as_cohortStates (rn_session (fst (demo_runner 2)))) ''c'' = Some st \<and> cs_result st = None)"
proof -
  have "\<exists>c. rn_runs (fst (demo_runner 2)) = [c] \<and> cx_cohortId c = ''c'' \<and> \<not> cx_settled c"
    using demo_runner_facts(1) [of 2] by (auto simp: demo_run_expect_def split: list.splits)
  then show ?thesis using runner_invariant [OF demo_reach [of 2], of 0] by (auto simp: Let_def)
qed

lemma demo_fulfilled:
  "\<exists>c res. rn_runs (fst (demo_runner 25)) = [c] \<and> cx_cohortId c = ''c'' \<and> cx_completion c = Fulfilled res \<and> ar_path res = ''key-path''"
  using demo_runner_facts(1) [of 25] by (auto simp: demo_run_expect_def split: list.splits completion.splits)

lemma completion_is_valid_witness:
  "\<exists>svc st res. service_reach demo_alib svc \<and> jm_get (as_cohortStates svc) ''c'' = Some st \<and> key_path_result demo_alib st res"
proof -
  obtain c res where c: "rn_runs (fst (demo_runner 25)) = [c]" "cx_cohortId c = ''c''" "cx_completion c = Fulfilled res" "ar_path res = ''key-path''"
    using demo_fulfilled by blast
  have "\<not> script_path_result demo_alib st res" for st using result_paths(2) [of demo_alib st res] c(4) by auto
  then show ?thesis using completion_is_valid [OF demo_reach [of 25], of 0 res] c by auto
qed

lemma one_spend_path_witness:
  "\<exists>res. Emit (SigningComplete res) \<in> set (snd (demo_runner 25)) \<and>
     (\<forall>res'. Emit (SigningComplete res') \<in> set (snd (demo_runner 25)) \<and> ar_cohortId res' = ar_cohortId res \<longrightarrow> res' = res)"
  using demo_runner_facts(2) one_spend_path [OF demo_reach [of 25]] by blast

lemma cohorts_isolated_witness:
  "jm_get (rn_contexts (fst (dispatchMessage demo_alib demo_peerError (\<lambda>_. []) (createSubmitNonIncludedMessage ''did:m'' ''did:s'' ''d'')
     (fst (demo_runner 2))))) ''c'' = jm_get (rn_contexts (fst (demo_runner 2))) ''c''"
proof -
  let ?m = "createSubmitNonIncludedMessage ''did:m'' ''did:s'' ''d''"
  have "body_str (m_body ?m) ''cohortId'' \<noteq> Some ''c''" by code_simp
  then show ?thesis using cohorts_isolated [OF demo_reach [of 2], of "\<lambda>_. []" ?m _ _ "''c''"] prod.collapse by metis
qed

lemma every_cohort_settles_witness:
  "cx_completion (rn_runs (fst (runnerStep demo_alib demo_peerError (CohortTtl 0) (fst (demo_runner 2)))) ! 0) \<noteq> Pending"
proof -
  have "rn_cohortTtlMs (fst (demo_runner 2)) \<noteq> None"
    using demo_runner_facts(1) [of 2] by (auto simp: demo_run_expect_def split: list.splits)
  moreover have "0 < length (rn_runs (fst (demo_runner 2)))" using demo_one_run [of 2] by auto
  ultimately show ?thesis using every_cohort_settles [OF demo_reach [of 2], of 0] by blast
qed

lemma duplicate_ack_fails_cohort_witness:
  "cx_completion (rn_runs (fst (runnerStep demo_alib demo_peerError (Resume 0 (TxDataReply ''v'' demo_txData))
     (fst (runnerStep demo_alib demo_peerError (Resume 0 (TxDataReply ''u'' demo_txData))
       (fst (runnerStep demo_alib demo_peerError (TransportMessage (\<lambda>_. []) (createValidationAckMessage ''did:m'' ''did:s'' ''c'' True))
         (fst (demo_runner 16)))))))) ! 0) = Failed (Error ''AggregationServiceError'' ''INVALID_PHASE'')"
proof -
  let ?m = "createValidationAckMessage ''did:m'' ''did:s'' ''c'' True"
  have "jm_get (rn_contexts (fst (demo_runner 16))) ''c'' = Some 0 \<and> rn_handlersRegistered (fst (demo_runner 16)) \<and>
      getCohortPhase ''c'' (rn_session (fst (demo_runner 16))) = Some Validated \<and> rn_tasks (fst (demo_runner 16)) = [TxData 0]"
    using demo_runner_facts(1) [of 16] by (auto simp: demo_run_expect_def split: list.splits)
  moreover have "m_type ?m = VALIDATION_ACK" "body_str (m_body ?m) ''cohortId'' = Some ''c''" by code_simp+
  moreover have "td_prevOutScripts demo_txData = replicate 32 1 # []" by (simp add: demo_txData_def)
  ultimately show ?thesis
    using duplicate_ack_fails_cohort [OF demo_reach [of 16], of "''c''" 0 ?m demo_txData "replicate 32 1" "[]"] by simp
qed

lemma malformed_opt_in_fails_cohort_witness:
  "cx_completion (rn_runs (fst (runnerStep demo_alib demo_peerError
     (TransportMessage (\<lambda>_. []) (createCohortOptInMessage ''did:x'' ''did:s'' ''c'' [1] [2] JUndef)) (fst (demo_runner 1)))) ! 0) =
   Failed (Error ''HttpTransportError'' ''INVALID_PEER_KEY'')"
proof -
  let ?m = "createCohortOptInMessage ''did:x'' ''did:s'' ''c'' [1] [2] JUndef"
  obtain st where st: "jm_get (as_cohortStates (rn_session (fst (demo_runner 1)))) ''c'' = Some st" "cs_phase st = Advertised"
      "cs_acceptedParticipants st = []" "jm_get (rn_contexts (fst (demo_runner 1))) ''c'' = Some 0" "rn_handlersRegistered (fst (demo_runner 1))"
    using demo_runner_facts(1) [of 1] by (auto simp: demo_run_expect_def split: list.splits option.splits)
  have m: "m_type ?m = COHORT_OPT_IN" "m_version ?m = JInt AGGREGATION_WIRE_VERSION" "body_str (m_body ?m) ''cohortId'' = Some ''c''"
    "body_bytes (m_body ?m) ''participantPk'' = Some [1]" "body_bytes (m_body ?m) ''communicationPk'' = Some [2]"
    "demo_peerError (m_from ?m) [2] = Some (Error ''HttpTransportError'' ''INVALID_PEER_KEY'')"
    by code_simp+
  show ?thesis
    by (rule malformed_opt_in_fails_cohort [OF demo_reach [of 1] st(4) _ st(5,1,2) _ m]) (simp_all add: st(3))
qed

end
