(* ===== verification/Spec2Isabelle.thy ===== *)
theory Spec2Isabelle
  imports ResolverGuarantees DiscoveryProps AggLimits AggConditions AggServiceClaims AggFallbackRun AggParticipantProps AggProtocol SmtOptimizedProps BroadcastProps KeyProps SseStream HttpStreams RunnerProps
begin

text \<open>
  A verification development of the TypeScript implementation of the DID method \<open>did:btcr2\<close>.

  \<^bold>\<open>The program.\<close> A DID of this method is controlled by updates that are announced on Bitcoin: a
  document lists beacons (Bitcoin addresses), a transaction that spends from a beacon carries 32
  bytes in its last output, and these are the hash of an update (singleton beacon), the hash of an
  announcement that maps DIDs to hashes of updates (CAS beacon), or the root of a sparse Merkle tree
  over updates (SMT beacon). The resolver collects the signals of the beacons, asks its caller for
  the data behind them and replays the updates over the initial document. The updater makes, signs
  and announces an update. The aggregation service lets a cohort of participants share one
  transaction: it collects their updates, distributes the announcement or the proofs, and runs a
  MuSig2 session for the key path of the common address, or a k-of-n fallback through its script.

  \<^bold>\<open>Theories and code\<close> (paths are under \<open>packages/\<close>).

  \<^item> \<open>Prelude\<close>, \<open>JsValue\<close>: bytes, errors as values, \<open>Map\<close> as an insertion-ordered association list,
    JavaScript values with property lookup, truthiness, the clone and delete operations of
    \<open>common/src/utils/json.ts\<close>.
  \<^item> \<open>SmtHash\<close>, \<open>SmtZeroHash\<close>, \<open>SmtTree\<close>, \<open>SmtOptimized\<close>: the package \<open>smt\<close>. \<open>SmtTree\<close> is the tree that
    beacons use (\<open>btcr2-tree.ts\<close>), on top of the zero-hash compression of \<open>zero-hash.ts\<close>; \<open>SmtOptimized\<close> the
    collapsed tree and the bitmap proofs of \<open>optimized-smt.ts\<close> and \<open>smt-proof.ts\<close>, whose correctness is in
    \<open>SmtOptimizedProps\<close>.
  \<^item> \<open>CommonLib\<close>: canonicalization, hashing, JSON patches and dates of \<open>common/src\<close>, and the record
    \<open>method_lib\<close> of the third-party functions (JCS, SHA-256, base58 and base64, curve, patch library).
  \<^item> \<open>CryptoSuite\<close>: \<open>cryptosuite/src\<close>, from multikeys and the cryptosuite bip340-jcs-2025 to
    \<open>addProof\<close> and \<open>verifyProof\<close>, with public keys of \<open>keypair/src/public.ts\<close>.
  \<^item> \<open>DidIdentifier\<close>, \<open>DidDocuments\<close>, \<open>DidBeacons\<close>, \<open>DidResolver\<close>, \<open>DidUpdater\<close>: \<open>method/src\<close>. The resolver
    and the updater are state machines without I/O: records \<open>Resolver\<close> and \<open>Updater\<close>, one function for a
    step (\<open>resolveStep\<close>, \<open>advance\<close>) and one for the data the caller provides (\<open>provideData\<close>,
    \<open>provideUpdater\<close>). The three beacons implement one locale, \<open>beacon\<close>.
  \<^item> \<open>MethodBroadcast\<close>: \<open>method/src/core/beacon/beacon.ts\<close> and the methods \<open>broadcastSignal\<close>, with the fee
    estimators. What is published and sent is a list of effects.
  \<^item> \<open>AggRecovery\<close>, \<open>AggConditions\<close>, \<open>AggMessages\<close>, \<open>AggCohort\<close>, \<open>AggStrategy\<close>, \<open>AggSession\<close>, \<open>AggFallback\<close>:
    the parts of \<open>aggregation/src/core\<close> that both sides of the protocol use; the strategies
    implement the locale \<open>beacon_strategy\<close>.
  \<^item> \<open>AggService\<close>, \<open>AggParticipant\<close>: the two state machines, \<open>service.ts\<close> and \<open>participant.ts\<close>, with every
    handler, action and getter; \<open>AggServiceRun\<close> and \<open>AggParticipantRun\<close> are their calls as values, the
    inductive sets of reachable states and the steps of one cohort.
  \<^item> \<open>AggLimits\<close>: rate limiter, replay buffer and nonce cache of the HTTP server.
  \<^item> \<open>KeyPair\<close>: \<open>keypair/src\<close>, the classes of public and secret keys and of pairs, and local signers;
    \<open>KeyManager\<close>: \<open>key-manager/src\<close>, the key store as a map from URNs to entries with an active key.
  \<^item> \<open>HttpEnvelope\<close>, \<open>SseStream\<close>, \<open>HttpServer\<close>: signed envelopes and authorization headers
    (\<open>core/transport/http\<close>), the frames of an event stream, and the class \<open>HttpServerTransport\<close>; the
    conversions that JavaScript applies to fields of an envelope with unchecked types are written out.
  \<^item> \<open>ServiceRunner\<close>: \<open>service/service-runner.ts\<close>, the asynchronous driver of the service. Handlers are cut
    at their awaits; a suspended one is a value of the state, resumed in any order.
  \<^item> \<open>DemoLib\<close>, \<open>DemoUpdate\<close>, \<open>DemoAgg\<close>, \<open>DemoMember\<close>, \<open>DemoBroadcast\<close>: concrete instances of the
    libraries and concrete runs, at which the witnesses apply the properties. That these
    instances satisfy the hypotheses on the libraries is proved there.

  \<^bold>\<open>What is shown.\<close>

  \<^item> Sparse Merkle trees (\<open>SmtTree\<close>, \<open>SmtOptimizedProps\<close>): every proof that a tree makes verifies; a proof
    that verifies is about the leaf the tree holds, or two hashed blocks collide; the
    collapsed tree has the root of a reference recursion whatever the order of insertions.
  \<^item> Identifiers and proofs (\<open>IdentifierProps\<close>): for known types and networks, encoding and decoding are inverse on
    exactly the valid components, and which other names pass; what a verified proof guarantees, and that secured documents verify.
  \<^item> Resolver (\<open>ResolverProps\<close>, \<open>UpdateProps\<close>, \<open>ResolverGuarantees\<close>): \<open>resolve\<close> returns; the document is the
    end of a chain of accepted updates, each announced by its hash through a beacon; duplicates
    change nothing; an update made by the updater is accepted.
  \<^item> Updater and discovery (\<open>DiscoveryProps\<close>), broadcasting (\<open>BroadcastProps\<close>): the order of the states, the
    signals that outputs stand for, the choice of the output to spend, the value and layout of the
    transaction, and that a broadcast is resolvable from what it returns.
  \<^item> Aggregation (\<open>AggServiceProps\<close>, \<open>AggServiceClaims\<close>, \<open>AggHonest\<close>, \<open>AggFallbackRun\<close>, \<open>AggParticipantProps\<close>, \<open>AggProtocol\<close>): an
    invariant of every reachable service, the phases as a refinement of the protocol graph, what
    a completed cohort guarantees, completion of honest runs in any order and of the fallback among any messages, safety of a
    participant against an arbitrary service, and both sides composed with the resolver.
  \<^item> Keys (\<open>KeyProps\<close>): an invariant of every reachable key manager and the signatures it makes.
  \<^item> HTTP (\<open>HttpProps\<close>, \<open>SseStream\<close>): envelopes and headers that are signed verify; a message reaches a
    handler only if it is authentic, and once; what may change the peers; event streams are read as
    they were written however they are cut; over every run, inbox events are written only to streams that
    the owner of the inbox has opened (\<open>HttpStreams\<close>).
  \<^item> The runner (\<open>RunnerFrame\<close>: what a step leaves alone; \<open>RunnerInvariant\<close>: what it keeps; \<open>RunnerProps\<close>):
    for every order of messages, callbacks, timers and calls, one spend path for a cohort, valid results,
    isolation of cohorts, and promises that get settled.

  \<^bold>\<open>Conventions.\<close> A thrown error is \<open>Inl (Error class code)\<close> with the class and the code of the source;
  an exception of a library is \<open>lib_error\<close>. An operation that changes an object returns the changed
  record, also when it fails: the changes made before a throw are kept. JSON
  documents are values of \<open>jsval\<close>, with the insertion order of their properties, \<open>undefined\<close> and getters
  of missing properties; numbers are \<open>int\<close> where the code needs integers, and \<open>real\<close> or \<open>rat\<close> where it
  multiplies. Strings are lists of characters and stand for their UTF-16 units; lengths are compared as the code compares
  them. Code outside the repository is a field of the records \<open>method_lib\<close>, \<open>agg_lib\<close>, \<open>broadcast_lib\<close>, \<open>curve_lib\<close> and \<open>http_lib\<close>;
  what the code relies on is a named hypothesis (\<open>sha256_ok\<close>, \<open>jcs_ok\<close>, \<open>tx_build_ok\<close>, ...) that states the
  documented behaviour, in the theory that declares the record.

  \<^bold>\<open>Bounds.\<close> The loop of \<open>resolve\<close> is a recursion with fuel 5: \<open>rounds_left\<close> (\<open>ResolverProps\<close>) bounds the
  passes that are left by at most 5 and decreases with every pass that continues, so the fuel is never used
  up; \<open>resolve_returns\<close> states it. All other loops are structural or have a
  termination proof (the sizes of lists, the depth of the tree, the 256 bits of an index).

  \<^bold>\<open>Not modelled.\<close> The REST and RPC clients of \<open>bitcoin\<close>, the facade \<open>api\<close> and the command line
  \<open>cli\<close> are I/O around the modelled operations. The runner of the participant drives its
  state machine as that of the service does; the theories show guarantees of a participant for every order of
  calls instead. The HTTP client, the
  Nostr and DIDComm transports and the bus in memory are left out, and so are logging, events and
  the texts of errors, comparison and normalization of JSON (\<open>deepEqual\<close>, \<open>normalize\<close>), the
  diff of JSON patches, the derivation of random identifiers and builders of genesis documents. Aliasing of
  arrays and objects is not modelled: records are values, and where the code clones before it
  changes the model changes a copy. Numbers are exact; the amounts, sizes and times of the code stay below
  two to the 53, where doubles are exact too.
\<close>

end
